(* ===== verification/Prelude.thy ===== *)
theory Prelude
  imports Complex_Main "HOL-Library.AList"
begin

text \<open>
  The vocabulary the component theories share.

  \<^item> \<open>('s, 'a) eff\<close>: a Python call that may read and change the state \<open>'s\<close> and ends by
    returning a value (\<open>Inr\<close>) or by raising an exception (\<open>Inl\<close>). The state changes made
    before an exception is raised are kept, as in Python; only a database transaction undoes
    them (theory Store).
  \<^item> \<open>keeps P m\<close>: every call of \<open>m\<close> relates the state before to the state after by \<open>P\<close>. For a
    reflexive and transitive \<open>P\<close> it is closed under the ways calls are composed (locale
    \<open>step_preorder\<close>), so that a safety property of a whole handler is proved from those of
    its steps.
  \<^item> Python strings (ASCII text as lists of characters), dictionaries in insertion order,
    JSON values, and UTC datetimes as microseconds since the Unix epoch with their ISO text.
\<close>

named_theorems eff_simps \<open>evaluation of composed calls\<close>
named_theorems keeps_intros \<open>closure of step preorders under composition of calls\<close>

section \<open>Calls that may raise\<close>

text \<open>
  The exceptions the engine raises or catches by name, each with its message. \<open>Other\<close> is any
  exception of code outside the repository (network, exchange library).
\<close>

datatype exn =
    IllegalTransition string
  | OrderConflict string
  | ConcurrentModification string
  | IntegrityError string
  | ControlPlaneUnavailable string
  | ControlPlaneRejected string
  | ValueError string
  | KeyError string
  | AttributeError string
  | UnknownExchangeStatus string
  | RuntimeError string
  | StaleConnection string
  | SubscriptionFailed string
  | Other string

fun exn_str :: "exn \<Rightarrow> string" where
  "exn_str (IllegalTransition m) = m"
| "exn_str (OrderConflict m) = m"
| "exn_str (ConcurrentModification m) = m"
| "exn_str (IntegrityError m) = m"
| "exn_str (ControlPlaneUnavailable m) = m"
| "exn_str (ControlPlaneRejected m) = m"
| "exn_str (ValueError m) = m"
| "exn_str (KeyError m) = m"
| "exn_str (AttributeError m) = m"
| "exn_str (UnknownExchangeStatus m) = m"
| "exn_str (RuntimeError m) = m"
| "exn_str (StaleConnection m) = m"
| "exn_str (SubscriptionFailed m) = m"
| "exn_str (Other m) = m"

type_synonym ('s, 'a) eff = "'s \<Rightarrow> (exn + 'a) \<times> 's"

definition ret :: "'a \<Rightarrow> ('s, 'a) eff" where
  "ret a = (\<lambda>s. (Inr a, s))"

definition raise :: "exn \<Rightarrow> ('s, 'a) eff" where
  "raise e = (\<lambda>s. (Inl e, s))"

definition getE :: "('s \<Rightarrow> 'a) \<Rightarrow> ('s, 'a) eff" where
  "getE f = (\<lambda>s. (Inr (f s), s))"

definition updE :: "('s \<Rightarrow> 's) \<Rightarrow> ('s, unit) eff" where
  "updE f = (\<lambda>s. (Inr (), f s))"

definition liftE :: "exn + 'a \<Rightarrow> ('s, 'a) eff" where
  "liftE r = (\<lambda>s. (r, s))"

definition bindE :: "('s, 'a) eff \<Rightarrow> ('a \<Rightarrow> ('s, 'b) eff) \<Rightarrow> ('s, 'b) eff" where
  "bindE m f = (\<lambda>s. case m s of (Inl e, s') \<Rightarrow> (Inl e, s') | (Inr a, s') \<Rightarrow> f a s')"

definition thenE :: "('s, 'a) eff \<Rightarrow> ('s, 'b) eff \<Rightarrow> ('s, 'b) eff" where
  "thenE m n = bindE m (\<lambda>_. n)"

text \<open>\<^verbatim>\<open>try: m  except Exception as e: h e\<close>\<close>

definition tryE :: "('s, 'a) eff \<Rightarrow> (exn \<Rightarrow> ('s, 'a) eff) \<Rightarrow> ('s, 'a) eff" where
  "tryE m h = (\<lambda>s. case m s of (Inl e, s') \<Rightarrow> h e s' | (Inr a, s') \<Rightarrow> (Inr a, s'))"

definition whenE :: "bool \<Rightarrow> ('s, unit) eff \<Rightarrow> ('s, unit) eff" where
  "whenE b m = (if b then m else ret ())"

text \<open>\<^verbatim>\<open>for x in xs: body\<close>, threading an accumulator of the loop's local variables.\<close>

fun foldE :: "('a \<Rightarrow> 'b \<Rightarrow> ('s, 'b) eff) \<Rightarrow> 'a list \<Rightarrow> 'b \<Rightarrow> ('s, 'b) eff" where
  "foldE f [] b = ret b"
| "foldE f (x # xs) b = bindE (f x b) (foldE f xs)"

definition forE :: "'a list \<Rightarrow> ('a \<Rightarrow> ('s, unit) eff) \<Rightarrow> ('s, unit) eff" where
  "forE xs f = foldE (\<lambda>x _. f x) xs ()"

text \<open>
  A method called on an object (itself a state \<open>'o\<close>) held by a local variable of the caller: the
  result and the object as the method left it. The caller's own state is untouched.
\<close>

definition objE :: "('o, 'a) eff \<Rightarrow> 'o \<Rightarrow> ('s, 'a \<times> 'o) eff" where
  "objE m p = (\<lambda>s. case m p of (Inl e, _) \<Rightarrow> (Inl e, s) | (Inr a, p') \<Rightarrow> (Inr (a, p'), s))"

lemma objE_state [simp]: "snd (objE m p s) = s"
  by (simp add: objE_def split: prod.splits sum.splits)

lemma objE_Inr: "m p = (Inr a, p') \<Longrightarrow> objE m p = ret (a, p')"
  by (simp add: objE_def ret_def)

lemma objE_Inl: "m p = (Inl e, p') \<Longrightarrow> objE m p = raise e"
  by (simp add: objE_def raise_def)

lemma ret_apply [eff_simps, simp]: "ret a s = (Inr a, s)"
  by (simp add: ret_def)

lemma raise_apply [eff_simps, simp]: "raise e s = (Inl e, s)"
  by (simp add: raise_def)

lemma getE_apply [eff_simps, simp]: "getE f s = (Inr (f s), s)"
  by (simp add: getE_def)

lemma updE_apply [eff_simps, simp]: "updE f s = (Inr (), f s)"
  by (simp add: updE_def)

lemma liftE_apply [eff_simps, simp]: "liftE r s = (r, s)"
  by (simp add: liftE_def)

lemma bindE_Inl [eff_simps]: "m s = (Inl e, s') \<Longrightarrow> bindE m f s = (Inl e, s')"
  by (simp add: bindE_def)

lemma bindE_Inr [eff_simps]: "m s = (Inr a, s') \<Longrightarrow> bindE m f s = f a s'"
  by (simp add: bindE_def)

lemma bindE_apply:
  "bindE m f s = (case m s of (Inl e, s') \<Rightarrow> (Inl e, s') | (Inr a, s') \<Rightarrow> f a s')"
  by (simp add: bindE_def)

lemma bindE_simps [simp]:
  "bindE (ret a) f = f a"
  "bindE (raise e) f = raise e"
  "bindE (getE g) f s = f (g s) s"
  "bindE (updE u) h s = h () (u s)"
  "bindE (liftE (Inr a)) f = f a"
  "bindE (liftE (Inl e)) f = raise e"
  by (auto simp: bindE_def fun_eq_iff)

lemma thenE_simps [simp]:
  "thenE (ret a) n = n"
  "thenE (raise e) n = raise e"
  "thenE (updE u) n s = n (u s)"
  by (auto simp: thenE_def)

lemma tryE_simps [simp]:
  "tryE (ret a) h = ret a"
  "tryE (raise e) h = h e"
  by (auto simp: tryE_def fun_eq_iff)

lemma whenE_simps [simp]:
  "whenE True m = m" "whenE False m = ret ()"
  by (simp_all add: whenE_def)

lemma forE_Nil [simp]: "forE [] f = ret ()"
  by (simp add: forE_def)

lemma forE_Cons [simp]: "forE (x # xs) f = thenE (f x) (forE xs f)"
  by (simp add: forE_def thenE_def)

text \<open>Case analysis on how a composed call ended.\<close>

lemma bindE_cases:
  assumes "bindE m f s = (r, s')"
  obtains (raises) e where "m s = (Inl e, s')" "r = Inl e"
    | (returns) a t where "m s = (Inr a, t)" "f a t = (r, s')"
  using assms by (auto simp: bindE_def split: prod.splits sum.splits)

lemma bindE_InrE:
  assumes "bindE m f s = (Inr b, s')"
  obtains a t where "m s = (Inr a, t)" "f a t = (Inr b, s')"
  using assms by (auto elim: bindE_cases)

lemma thenE_InrE:
  assumes "thenE m n s = (Inr b, s')"
  obtains a t where "m s = (Inr a, t)" "n t = (Inr b, s')"
  using assms unfolding thenE_def by (rule bindE_InrE)

lemma thenE_ret_InrE:
  assumes "thenE m (ret c) s = (Inr b, s')"
  obtains a where "m s = (Inr a, s')" "b = c"
  using assms by (auto elim: thenE_InrE)

section \<open>Relating the states before and after a call\<close>

definition keeps :: "('s \<Rightarrow> 's \<Rightarrow> bool) \<Rightarrow> ('s, 'a) eff \<Rightarrow> bool" where
  "keeps P m \<longleftrightarrow> (\<forall>s. P s (snd (m s)))"

lemma keepsI: "(\<And>s. P s (snd (m s))) \<Longrightarrow> keeps P m"
  by (simp add: keeps_def)

lemma keepsD: "keeps P m \<Longrightarrow> m s = (r, s') \<Longrightarrow> P s s'"
  by (metis keeps_def snd_conv)

lemma keepsS: "keeps P m \<Longrightarrow> P s (snd (m s))"
  by (simp add: keeps_def)

lemma keeps_mono: "keeps P m \<Longrightarrow> (\<And>s t. P s t \<Longrightarrow> Q s t) \<Longrightarrow> keeps Q m"
  by (simp add: keeps_def)

locale step_preorder =
  fixes P :: "'s \<Rightarrow> 's \<Rightarrow> bool"
  assumes P_refl: "P s s"
    and P_trans: "P s t \<Longrightarrow> P t u \<Longrightarrow> P s u"
begin

lemma keeps_ret [keeps_intros]: "keeps P (ret a)"
  by (simp add: keeps_def P_refl)

lemma keeps_raise [keeps_intros]: "keeps P (raise e)"
  by (simp add: keeps_def P_refl)

lemma keeps_getE [keeps_intros]: "keeps P (getE f)"
  by (simp add: keeps_def P_refl)

lemma keeps_liftE [keeps_intros]: "keeps P (liftE r)"
  by (simp add: keeps_def P_refl)

lemma keeps_objE [keeps_intros]: "keeps P (objE m p)"
  by (simp add: keeps_def P_refl)

lemma keeps_bindE [keeps_intros]:
  "keeps P m \<Longrightarrow> (\<And>a. keeps P (f a)) \<Longrightarrow> keeps P (bindE m f)"
proof (rule keepsI)
  fix s
  assume m: "keeps P m" and f: "\<And>a. keeps P (f a)"
  obtain r t where r: "m s = (r, t)" by (cases "m s")
  then have st: "P s t" by (rule keepsD [OF m])
  have "P t (snd (f a t))" for a by (rule keepsS [OF f])
  then show "P s (snd (bindE m f s))"
    using r st by (cases r) (auto simp: bindE_def intro: P_trans)
qed

lemma bindE_at:
  assumes "P s (snd (m s))" "\<And>a t. m s = (Inr a, t) \<Longrightarrow> P t (snd (f a t))"
  shows "P s (snd (bindE m f s))"
proof (cases "m s")
  case (Pair r t)
  then show ?thesis using assms by (cases r) (auto simp: bindE_apply intro: P_trans)
qed

lemma keeps_thenE [keeps_intros]: "keeps P m \<Longrightarrow> keeps P n \<Longrightarrow> keeps P (thenE m n)"
  unfolding thenE_def by (rule keeps_bindE)

lemma keeps_tryE [keeps_intros]:
  "keeps P m \<Longrightarrow> (\<And>e. keeps P (h e)) \<Longrightarrow> keeps P (tryE m h)"
proof (rule keepsI)
  fix s
  assume m: "keeps P m" and f: "\<And>e. keeps P (h e)"
  obtain r t where r: "m s = (r, t)" by (cases "m s")
  then have st: "P s t" by (rule keepsD [OF m])
  have "P t (snd (h e t))" for e by (rule keepsS [OF f])
  then show "P s (snd (tryE m h s))"
    using r st by (cases r) (auto simp: tryE_def intro: P_trans)
qed

lemma keeps_whenE [keeps_intros]: "(b \<Longrightarrow> keeps P m) \<Longrightarrow> keeps P (whenE b m)"
  by (cases b) (simp_all add: keeps_ret)

lemma keeps_if [keeps_intros]:
  "(b \<Longrightarrow> keeps P m) \<Longrightarrow> (\<not> b \<Longrightarrow> keeps P n) \<Longrightarrow> keeps P (if b then m else n)"
  by simp

lemma keeps_option [keeps_intros]:
  "(x = None \<Longrightarrow> keeps P m) \<Longrightarrow> (\<And>a. x = Some a \<Longrightarrow> keeps P (f a)) \<Longrightarrow>
   keeps P (case x of None \<Rightarrow> m | Some a \<Rightarrow> f a)"
  by (cases x) simp_all

lemma keeps_foldE [keeps_intros]: "(\<And>x b. keeps P (f x b)) \<Longrightarrow> keeps P (foldE f xs b)"
  by (induction xs arbitrary: b) (auto intro: keeps_intros)

lemma keeps_forE [keeps_intros]: "(\<And>x. keeps P (f x)) \<Longrightarrow> keeps P (forE xs f)"
  unfolding forE_def by (rule keeps_foldE)

end

section \<open>Python values\<close>

text \<open>\<^verbatim>\<open>s.startswith(p)\<close>\<close>

definition startswith :: "string \<Rightarrow> string \<Rightarrow> bool" where
  "startswith s p \<longleftrightarrow> take (length p) s = p"

lemma startswith_append [simp]: "startswith (p @ s) p"
  by (simp add: startswith_def)

lemma startswith_length: "startswith s p \<Longrightarrow> length p \<le> length s"
  by (metis startswith_def length_take min.cobounded1)

text \<open>\<^verbatim>\<open>ch.isalnum()\<close> and the decimal text of an integer, on ASCII.\<close>

definition char_between :: "char \<Rightarrow> char \<Rightarrow> char \<Rightarrow> bool" where
  "char_between lo hi c \<longleftrightarrow> (of_char lo :: nat) \<le> of_char c \<and> (of_char c :: nat) \<le> of_char hi"

definition isalnum :: "char \<Rightarrow> bool" where
  "isalnum c \<longleftrightarrow> char_between (CHR ''0'') (CHR ''9'') c \<or> char_between (CHR ''A'') (CHR ''Z'') c
     \<or> char_between (CHR ''a'') (CHR ''z'') c"

text \<open>\<^verbatim>\<open>strip()\<close> on ASCII text.\<close>

definition is_space :: "char \<Rightarrow> bool" where
  "is_space c \<longleftrightarrow> c = CHR '' '' \<or> char_between (CHR 0x09) (CHR 0x0D) c \<or> char_between (CHR 0x1C) (CHR 0x1F) c"

definition strip :: "string \<Rightarrow> string" where
  "strip s = rev (dropWhile is_space (rev (dropWhile is_space s)))"

text \<open>\<^verbatim>\<open>lower()\<close>, \<^verbatim>\<open>upper()\<close>, \<^verbatim>\<open>sep.join(xs)\<close>, \<^verbatim>\<open>s.split(c)\<close> and \<^verbatim>\<open>sub in s\<close>.\<close>

definition lower :: "string \<Rightarrow> string" where
  "lower s = map (\<lambda>c. if char_between (CHR ''A'') (CHR ''Z'') c then char_of ((of_char c :: nat) + 32) else c) s"

definition upper :: "string \<Rightarrow> string" where
  "upper s = map (\<lambda>c. if char_between (CHR ''a'') (CHR ''z'') c then char_of ((of_char c :: nat) - 32) else c) s"

fun join :: "string \<Rightarrow> string list \<Rightarrow> string" where
  "join sep [] = []"
| "join sep [x] = x"
| "join sep (x # y # zs) = x @ sep @ join sep (y # zs)"

fun split_char :: "char \<Rightarrow> string \<Rightarrow> string list" where
  "split_char c [] = [[]]"
| "split_char c (x # xs) = (if x = c then [] # split_char c xs
     else (case split_char c xs of [] \<Rightarrow> [[x]] | p # ps \<Rightarrow> (x # p) # ps))"

fun contains :: "string \<Rightarrow> string \<Rightarrow> bool" where
  "contains sub [] \<longleftrightarrow> sub = []"
| "contains sub (x # xs) \<longleftrightarrow> startswith (x # xs) sub \<or> contains sub xs"

definition digit_char :: "int \<Rightarrow> char" where
  "digit_char d = char_of (48 + nat d)"

function str_nat_aux :: "int \<Rightarrow> string" where
  "str_nat_aux n = (if n < 10 then [digit_char n] else str_nat_aux (n div 10) @ [digit_char (n mod 10)])"
  by pat_completeness auto
termination by (relation "measure nat") auto

declare str_nat_aux.simps [simp del]

definition str_int :: "int \<Rightarrow> string" where
  "str_int n = (if n < 0 then ''-'' @ str_nat_aux (- n) else str_nat_aux n)"

definition pad :: "nat \<Rightarrow> int \<Rightarrow> string" where
  "pad w n = (let s = str_int n in replicate (w - length s) (CHR ''0'') @ s)"

text \<open>
  A UTC datetime is its number of microseconds since 1970-01-01. The civil date follows from
  the day number by the proleptic Gregorian calendar, counting years from March.
\<close>

type_synonym time = int

definition seconds :: "int \<Rightarrow> int" where "seconds n = n * 1000000"

definition civil :: "int \<Rightarrow> int \<times> int \<times> int" where
  "civil day = (let z = day + 719468; era = z div 146097; doe = z mod 146097;
       yoe = (doe - doe div 1460 + doe div 36524 - doe div 146096) div 365;
       doy = doe - (365 * yoe + yoe div 4 - yoe div 100);
       mp = (5 * doy + 2) div 153;
       d = doy - (153 * mp + 2) div 5 + 1;
       m = (if mp < 10 then mp + 3 else mp - 9);
       y = yoe + era * 400 + (if m \<le> 2 then 1 else 0)
     in (y, m, d))"

definition iso_date :: "time \<Rightarrow> string" where
  "iso_date t = (let (y, m, d) = civil (t div 86400000000)
     in pad 4 y @ ''-'' @ pad 2 m @ ''-'' @ pad 2 d)"

text \<open>\<^verbatim>\<open>isoformat()\<close>: the fraction is printed only when it is not zero.\<close>

definition iso :: "time \<Rightarrow> string" where
  "iso t = (let us = t mod 86400000000; s = us div 1000000; f = us mod 1000000
     in iso_date t @ ''T'' @ pad 2 (s div 3600) @ '':'' @ pad 2 (s div 60 mod 60) @ '':'' @ pad 2 (s mod 60)
        @ (if f = 0 then [] else ''.'' @ pad 6 f) @ ''+00:00'')"

text \<open>\<^verbatim>\<open>strftime('%Y%m%d%H')\<close>\<close>

definition hour_stamp :: "time \<Rightarrow> string" where
  "hour_stamp t = (let (y, m, d) = civil (t div 86400000000)
     in pad 4 y @ pad 2 m @ pad 2 d @ pad 2 (t mod 86400000000 div 3600000000))"

text \<open>
  JSON values as the engine writes them. Decimals and datetimes are written as text by
  \<^verbatim>\<open>DecimalEncoder\<close> and read back from it without loss, so they stay values here.
\<close>

datatype jval =
    JNull | JBool bool | JInt int | JStr string | JDec rat | JTime time
  | JObj "(string \<times> jval) list" | JArr "jval list"

fun jopt :: "('a \<Rightarrow> jval) \<Rightarrow> 'a option \<Rightarrow> jval" where
  "jopt f None = JNull"
| "jopt f (Some x) = f x"

text \<open>Pure computations that may raise, and reading a JSON object with \<^verbatim>\<open>d[k]\<close>.\<close>

definition bindR :: "exn + 'a \<Rightarrow> ('a \<Rightarrow> exn + 'b) \<Rightarrow> exn + 'b" where
  "bindR r f = (case r of Inl e \<Rightarrow> Inl e | Inr a \<Rightarrow> f a)"

lemma bindR_simps [simp]: "bindR (Inl e) f = Inl e" "bindR (Inr a) f = f a"
  by (simp_all add: bindR_def)

lemma bindR_InrE:
  assumes "bindR r f = Inr b"
  obtains a where "r = Inr a" "f a = Inr b"
  using assms by (simp add: bindR_def split: sum.splits)

lemma bindR_Inr: "bindR r f = Inr b \<longleftrightarrow> (\<exists>a. r = Inr a \<and> f a = Inr b)"
  by (simp add: bindR_def split: sum.splits)

fun mapR :: "('a \<Rightarrow> exn + 'b) \<Rightarrow> 'a list \<Rightarrow> exn + 'b list" where
  "mapR f [] = Inr []"
| "mapR f (x # xs) = bindR (f x) (\<lambda>y. bindR (mapR f xs) (\<lambda>ys. Inr (y # ys)))"

definition jget :: "string \<Rightarrow> (string \<times> jval) list \<Rightarrow> exn + jval" where
  "jget k d = (case map_of d k of None \<Rightarrow> Inl (KeyError k) | Some v \<Rightarrow> Inr v)"

definition type_error :: exn where "type_error = Other ''TypeError''"

fun as_str :: "jval \<Rightarrow> exn + string" where
  "as_str (JStr s) = Inr s" | "as_str _ = Inl type_error"

fun as_dec :: "jval \<Rightarrow> exn + rat" where
  "as_dec (JDec x) = Inr x" | "as_dec _ = Inl type_error"

fun as_int :: "jval \<Rightarrow> exn + int" where
  "as_int (JInt n) = Inr n" | "as_int _ = Inl type_error"

fun as_obj :: "jval \<Rightarrow> exn + (string \<times> jval) list" where
  "as_obj (JObj d) = Inr d" | "as_obj _ = Inl type_error"

text \<open>Python truth of a JSON value.\<close>

fun jtrue :: "jval \<Rightarrow> bool" where
  "jtrue JNull = False"
| "jtrue (JBool b) = b"
| "jtrue (JInt n) = (n \<noteq> 0)"
| "jtrue (JStr s) = (s \<noteq> [])"
| "jtrue (JDec x) = (x \<noteq> 0)"
| "jtrue (JTime t) = True"
| "jtrue (JObj d) = (d \<noteq> [])"
| "jtrue (JArr xs) = (xs \<noteq> [])"

text \<open>\<^verbatim>\<open>d.get(k, default)\<close> on a dictionary in insertion order; \<^verbatim>\<open>d[k] = v\<close> is \<open>AList.update\<close>.\<close>

definition dict_get :: "('k \<times> 'v) list \<Rightarrow> 'k \<Rightarrow> 'v \<Rightarrow> 'v" where
  "dict_get d k v = (case map_of d k of None \<Rightarrow> v | Some x \<Rightarrow> x)"

text \<open>\<^verbatim>\<open>max(a, b)\<close> of two optional readings, and list search by a key that is unique.\<close>

lemma find_None_iff_key: "find P xs = None \<longleftrightarrow> (\<forall>x\<in>set xs. \<not> P x)"
  by (auto simp: find_None_iff)

lemma find_SomeD: "find P xs = Some x \<Longrightarrow> x \<in> set xs \<and> P x"
  by (auto simp: find_Some_iff)

lemma find_key_Some:
  "distinct (map k xs) \<Longrightarrow> x \<in> set xs \<Longrightarrow> find (\<lambda>y. k y = k x) xs = Some x"
  by (induction xs) (auto simp: image_iff)

lemma inj_on_key: "distinct (map k xs) \<Longrightarrow> x \<in> set xs \<Longrightarrow> y \<in> set xs \<Longrightarrow> k x = k y \<Longrightarrow> x = y"
  by (metis find_key_Some option.inject)

end
