(* ===== verification/Numeric.thy ===== *)
theory Numeric
  imports Complex_Main
begin

text \<open>
  The two number systems of the engine, both as exact rationals with the rounding the
  language performs after every arithmetic operation.

  \<^item> Python's \<^verbatim>\<open>decimal.Decimal\<close> under its default context: 28 significant decimal
    digits, ties to even (\<open>dec_round\<close>). Comparison, negation, \<^verbatim>\<open>max\<close>, \<^verbatim>\<open>min\<close>, construction
    from text and \<^verbatim>\<open>to_integral_value\<close> are exact; \<^verbatim>\<open>+\<close>, \<^verbatim>\<open>-\<close>, \<^verbatim>\<open>*\<close>, \<^verbatim>\<open>/\<close> round their result.
  \<^item> Python's \<^verbatim>\<open>float\<close>: 53 significant bits, ties to even (\<open>flt_round\<close>).

  Not modelled: NaN and infinities, signed zeros, and the exponent limits of either system
  (subnormal and overflowing floats, \<^verbatim>\<open>Emin\<close>/\<^verbatim>\<open>Emax\<close> of the decimal context), which amounts,
  prices and percentages of this program do not reach. The laws the rest of the development
  relies on are the locale \<open>rounding\<close>, interpreted for both.
\<close>

section \<open>Rounding to a number of significant digits\<close>

text \<open>\<open>ndig b n\<close>: the number of base-\<open>b\<close> digits of \<open>n \<ge> 1\<close>.\<close>

function ndig :: "int \<Rightarrow> int \<Rightarrow> int" where
  "ndig b n = (if b < 2 \<or> n < b then 1 else 1 + ndig b (n div b))"
  by pat_completeness auto
termination
proof (relation "measure (\<lambda>(b, n). nat n)", goal_cases)
  case 1
  show ?case by simp
next
  case (2 b n)
  then have "n div b < n" by (intro int_div_less_self) auto
  with 2 show ?case by auto
qed

declare ndig.simps [simp del]

lemma ndig_pos: "1 \<le> ndig b n"
proof (induction b n rule: ndig.induct)
  case (1 b n)
  show ?case
    using 1 by (subst ndig.simps) auto
qed

lemma ndig_bounds:
  "2 \<le> b \<Longrightarrow> 1 \<le> n \<Longrightarrow> b ^ nat (ndig b n - 1) \<le> n \<and> n < b ^ nat (ndig b n)"
proof (induction b n rule: ndig.induct)
  case (1 b n)
  show ?case
  proof (cases "n < b")
    case True
    with "1.prems" show ?thesis by (simp add: ndig.simps [of b n])
  next
    case False
    let ?k = "ndig b (n div b)"
    have k: "ndig b n = 1 + ?k" using False "1.prems" by (simp add: ndig.simps [of b n])
    have "1 \<le> n div b" using False "1.prems" by (simp add: pos_imp_zdiv_pos_iff int_one_le_iff_zero_less)
    then have IH: "b ^ nat (?k - 1) \<le> n div b" "n div b < b ^ nat ?k"
      using "1.IH" False "1.prems" by auto
    have e1: "nat (ndig b n - 1) = Suc (nat (?k - 1))" using k ndig_pos [of b "n div b"] by simp
    have e2: "nat (ndig b n) = Suc (nat ?k)" using k ndig_pos [of b "n div b"] by simp
    have split: "b * (n div b) = n - n mod b" "0 \<le> n mod b" "n mod b < b"
      using "1.prems" by (simp_all add: minus_mod_eq_mult_div)
    have "b * b ^ nat (?k - 1) \<le> b * (n div b)" using IH(1) "1.prems" by simp
    also have "\<dots> \<le> n" using split by linarith
    finally have lo: "b ^ nat (ndig b n - 1) \<le> n" by (simp add: e1)
    have "n div b + 1 \<le> b ^ nat ?k" using IH(2) by simp
    then have "b * (n div b + 1) \<le> b * b ^ nat ?k" using "1.prems" by simp
    moreover have "n < b * (n div b + 1)" using split by (simp add: distrib_left)
    ultimately have "n < b ^ nat (ndig b n)" by (simp add: e2)
    with lo show ?thesis by blast
  qed
qed

text \<open>Round a rational to the nearest integer, ties to the even one.\<close>

definition half_even :: "rat \<Rightarrow> int" where
  "half_even x = (let f = \<lfloor>x\<rfloor>; d = x - of_int f in
     if d < 1/2 then f else if 1/2 < d then f + 1 else if even f then f else f + 1)"

text \<open>The power of the base of a number's last kept digit.\<close>

definition sig_exp :: "int \<Rightarrow> int \<Rightarrow> rat \<Rightarrow> int" where
  "sig_exp b p x = (let (n, d) = quotient_of \<bar>x\<bar>; a = ndig b n - ndig b d in
     if of_int b powi a \<le> \<bar>x\<bar> then a + 1 - p else a - p)"

definition round_sig :: "int \<Rightarrow> int \<Rightarrow> rat \<Rightarrow> rat" where
  "round_sig b p x = (if x = 0 then 0 else
     let u = of_int b powi sig_exp b p x in of_int (half_even (x / u)) * u)"

subsection \<open>The rounded integer\<close>

lemma half_even_of_int [simp]: "half_even (of_int k) = k"
  by (simp add: half_even_def)

lemma half_even_cases:
  "half_even x = \<lfloor>x\<rfloor> \<and> x - of_int \<lfloor>x\<rfloor> \<le> 1/2
   \<or> half_even x = \<lfloor>x\<rfloor> + 1 \<and> 1/2 \<le> x - of_int \<lfloor>x\<rfloor>"
  by (auto simp: half_even_def Let_def)

lemma half_even_error: "\<bar>of_int (half_even x) - x\<bar> \<le> 1/2"
proof -
  have "of_int \<lfloor>x\<rfloor> \<le> x" "x < of_int \<lfloor>x\<rfloor> + 1" by linarith+
  then show ?thesis using half_even_cases [of x] by auto
qed

lemma half_even_mono: "x \<le> y \<Longrightarrow> half_even x \<le> half_even y"
proof -
  assume le: "x \<le> y"
  then have "\<lfloor>x\<rfloor> \<le> \<lfloor>y\<rfloor>" by (rule floor_mono)
  then consider "\<lfloor>x\<rfloor> < \<lfloor>y\<rfloor>" | "\<lfloor>x\<rfloor> = \<lfloor>y\<rfloor>" by linarith
  then show ?thesis
  proof cases
    case 1
    then show ?thesis using half_even_cases [of x] half_even_cases [of y] by auto
  next
    case 2
    then have "x - of_int \<lfloor>x\<rfloor> \<le> y - of_int \<lfloor>y\<rfloor>" using le by simp
    with 2 show ?thesis by (auto simp: half_even_def Let_def)
  qed
qed

lemma half_even_minus: "half_even (- x) = - half_even x"
proof (cases "x \<in> \<int>")
  case True
  then obtain k where "x = of_int k" by (auto elim: Ints_cases)
  then show ?thesis using half_even_of_int [of "- k"] by simp
next
  case False
  then have "\<lceil>x\<rceil> = \<lfloor>x\<rfloor> + 1" by (simp add: ceiling_altdef frac_def) (metis Ints_of_int)
  then have f: "\<lfloor>- x\<rfloor> = - \<lfloor>x\<rfloor> - 1" by (simp add: floor_minus)
  define d where "d = x - of_int \<lfloor>x\<rfloor>"
  have d': "- x - of_int \<lfloor>- x\<rfloor> = 1 - d" by (simp add: f d_def)
  have e: "even (- \<lfloor>x\<rfloor> - 1) \<longleftrightarrow> odd \<lfloor>x\<rfloor>" by simp
  have "half_even (- x) = (if 1 - d < 1/2 then - \<lfloor>x\<rfloor> - 1 else if 1/2 < 1 - d then - \<lfloor>x\<rfloor>
      else if odd \<lfloor>x\<rfloor> then - \<lfloor>x\<rfloor> - 1 else - \<lfloor>x\<rfloor>)"
    unfolding half_even_def Let_def d' unfolding f e by simp
  moreover have "half_even x = (if d < 1/2 then \<lfloor>x\<rfloor> else if 1/2 < d then \<lfloor>x\<rfloor> + 1
      else if even \<lfloor>x\<rfloor> then \<lfloor>x\<rfloor> else \<lfloor>x\<rfloor> + 1)"
    by (simp add: half_even_def Let_def d_def)
  ultimately show ?thesis by (auto simp: field_simps)
qed

subsection \<open>The kept digits\<close>

lemma powi_mono_base:
  "2 \<le> b \<Longrightarrow> i \<le> j \<Longrightarrow> (of_int b :: rat) powi i \<le> of_int b powi j"
  by (rule power_int_increasing) auto

lemma powi_less_iff:
  "2 \<le> b \<Longrightarrow> (of_int b :: rat) powi i < of_int b powi j \<longleftrightarrow> i < j"
  using power_int_strict_increasing [of i j "of_int b :: rat"] powi_mono_base [of b j i]
  by (cases "i < j") auto

lemma powi_pos: "2 \<le> b \<Longrightarrow> 0 < (of_int b :: rat) powi i"
  by simp

lemma powi_nonneg_int: "0 \<le> i \<Longrightarrow> (of_int b :: rat) powi i = of_int (b ^ nat i)"
  by (simp add: power_int_def)

lemma sig_exp_bounds:
  assumes b: "2 \<le> b" and x: "x \<noteq> 0"
  shows "of_int b powi (sig_exp b p x + p - 1) \<le> \<bar>x\<bar>"
    and "\<bar>x\<bar> < of_int b powi (sig_exp b p x + p)"
proof -
  let ?B = "of_int b :: rat"
  obtain n d where q: "quotient_of \<bar>x\<bar> = (n, d)" by (cases "quotient_of \<bar>x\<bar>")
  have d: "0 < d" using q by (rule quotient_of_denom_pos)
  have xnd: "\<bar>x\<bar> = of_int n / of_int d" using q by (rule quotient_of_div)
  then have n: "0 < n" using d x by (metis of_int_0_less_iff of_int_pos
      zero_less_abs_iff zero_less_divide_iff order_less_asym)
  let ?i = "ndig b n" and ?j = "ndig b d"
  have n1: "?B powi (?i - 1) \<le> of_int n" "of_int n < ?B powi ?i"
    using ndig_bounds [of b n] b n ndig_pos [of b n] by (simp_all add: powi_nonneg_int)
  have d1: "?B powi (?j - 1) \<le> of_int d" "of_int d < ?B powi ?j"
    using ndig_bounds [of b d] b d ndig_pos [of b d] by (simp_all add: powi_nonneg_int)
  have B: "?B \<noteq> 0" "0 < ?B" using b by simp_all
  have up: "\<bar>x\<bar> < ?B powi (?i - ?j + 1)"
  proof -
    have "of_int n / of_int d < ?B powi ?i / of_int d" using n1 d by (simp add: divide_strict_right_mono)
    also have "\<dots> \<le> ?B powi ?i / ?B powi (?j - 1)" using d1 B d by (intro divide_left_mono) auto
    also have "\<dots> = ?B powi (?i - (?j - 1))" using B by (subst power_int_diff) auto
    finally show ?thesis by (simp add: xnd algebra_simps)
  qed
  have lo: "?B powi (?i - ?j - 1) \<le> \<bar>x\<bar>"
  proof -
    have "?B powi (?i - ?j - 1) = ?B powi (?i - 1 - ?j)" by (simp add: algebra_simps)
    also have "\<dots> = ?B powi (?i - 1) / ?B powi ?j" using B by (subst power_int_diff) auto
    also have "\<dots> \<le> of_int n / ?B powi ?j" using n1 B by (intro divide_right_mono) auto
    also have "\<dots> \<le> of_int n / of_int d" using d1 B d n by (intro divide_left_mono) auto
    finally show ?thesis by (simp add: xnd)
  qed
  show "?B powi (sig_exp b p x + p - 1) \<le> \<bar>x\<bar>"
    using lo by (simp add: sig_exp_def q Let_def)
  show "\<bar>x\<bar> < ?B powi (sig_exp b p x + p)"
    using up by (simp add: sig_exp_def q Let_def algebra_simps)
qed

subsection \<open>What rounding does to values\<close>

lemma round_sig_0 [simp]: "round_sig b p 0 = 0"
  by (simp add: round_sig_def)

lemma sig_exp_minus: "sig_exp b p (- x) = sig_exp b p x"
  by (simp add: sig_exp_def)

lemma round_sig_minus: "round_sig b p (- x) = - round_sig b p x"
  by (simp add: round_sig_def sig_exp_minus half_even_minus Let_def)

text \<open>A number with at most \<open>p\<close> digits is not changed; the rounded value has at most \<open>p\<close> digits.\<close>

definition representable :: "int \<Rightarrow> int \<Rightarrow> rat \<Rightarrow> bool" where
  "representable b p x \<longleftrightarrow> (\<exists>m e. x = of_int m * of_int b powi e \<and> \<bar>m\<bar> \<le> b ^ nat p)"

lemma representable_scaled_int:
  assumes b: "2 \<le> b" and p: "1 \<le> p" and x: "x \<noteq> 0" and r: "representable b p x"
  shows "x / of_int b powi sig_exp b p x \<in> \<int>"
proof -
  let ?B = "of_int b :: rat" and ?e = "sig_exp b p x"
  obtain m k where m: "x = of_int m * ?B powi k" "\<bar>m\<bar> \<le> b ^ nat p"
    using r by (auto simp: representable_def)
  have div: "x / ?B powi ?e = of_int m * ?B powi (k - ?e)"
    using b by (simp add: m power_int_diff)
  have "(of_int \<bar>m\<bar> :: rat) \<le> of_int (b ^ nat p)" using m(2) by (simp only: of_int_le_iff)
  then have "\<bar>x\<bar> \<le> ?B powi p * ?B powi k"
    using b p by (simp add: m(1) abs_mult powi_nonneg_int mult_right_mono)
  then have "?B powi (?e + p - 1) \<le> ?B powi (p + k)"
    using sig_exp_bounds(1) [OF b x, of p] b by (simp add: power_int_add)
  then have ek: "?e \<le> k + 1" using powi_less_iff [OF b, of "p + k" "?e + p - 1"] by linarith
  show ?thesis
  proof (cases "?e \<le> k")
    case True
    then show ?thesis unfolding div by (simp add: powi_nonneg_int)
  next
    case False
    then have e: "?e = k + 1" using ek by simp
    have "?B powi (?e + p - 1) = ?B powi p * ?B powi k"
      using b by (simp add: e add.commute flip: power_int_add)
    moreover have "\<bar>x\<bar> = of_int \<bar>m\<bar> * ?B powi k" using b by (simp add: m(1) abs_mult)
    ultimately have "?B powi p * ?B powi k \<le> of_int \<bar>m\<bar> * ?B powi k"
      using sig_exp_bounds(1) [OF b x, of p] by simp
    then have "?B powi p \<le> of_int \<bar>m\<bar>" using powi_pos [OF b, of k] by simp
    then have "(of_int (b ^ nat p) :: rat) \<le> of_int \<bar>m\<bar>" using p by (simp add: powi_nonneg_int)
    then have "\<bar>m\<bar> = b ^ nat p" using m(2) by (simp only: of_int_le_iff)
    moreover have "b ^ nat p = b * b ^ nat (p - 1)"
      using p Suc_nat_eq_nat_zadd1 [of "p - 1"] by (simp flip: power_Suc)
    ultimately have "m = b * b ^ nat (p - 1) \<or> m = - (b * b ^ nat (p - 1))" by linarith
    moreover have "x / ?B powi ?e = of_int m / ?B"
      unfolding div by (simp add: e power_int_minus field_simps)
    ultimately have "x / ?B powi ?e = of_int (b ^ nat (p - 1)) \<or>
        x / ?B powi ?e = of_int (- (b ^ nat (p - 1)))" using b by auto
    then show ?thesis by (metis Ints_of_int)
  qed
qed

lemma round_sig_exact:
  assumes "2 \<le> b" "1 \<le> p" "representable b p x"
  shows "round_sig b p x = x"
proof (cases "x = 0")
  case False
  let ?u = "of_int b powi sig_exp b p x :: rat"
  obtain k where k: "x / ?u = of_int k"
    using representable_scaled_int [OF assms(1,2) False assms(3)] by (auto elim: Ints_cases)
  have "round_sig b p x = of_int (half_even (x / ?u)) * ?u"
    using False by (simp add: round_sig_def Let_def)
  also have "\<dots> = x / ?u * ?u" by (simp only: k half_even_of_int)
  also have "\<dots> = x" using powi_pos [OF assms(1), of "sig_exp b p x"] assms(1) by simp
  finally show ?thesis .
qed simp

lemma powi_representable: "2 \<le> b \<Longrightarrow> representable b p (of_int b powi e)"
  unfolding representable_def by (intro exI [of _ 1] exI [of _ e]) simp

lemma round_sig_pos_bounds:
  assumes b: "2 \<le> b" and p: "1 \<le> p" and x: "0 < x"
  defines "e \<equiv> sig_exp b p x"
  shows "of_int b powi (e + p - 1) \<le> round_sig b p x" "round_sig b p x \<le> of_int b powi (e + p)"
    and "representable b p (round_sig b p x)"
proof -
  let ?B = "of_int b :: rat"
  let ?h = "half_even (x / ?B powi e)"
  have u: "0 < ?B powi e" using b by (rule powi_pos)
  have r: "round_sig b p x = of_int ?h * ?B powi e" using x by (simp add: round_sig_def Let_def e_def)
  have "?B powi (e + p - 1) \<le> x" "x \<le> ?B powi (e + p)"
    using sig_exp_bounds [OF b, of x p] x by (simp_all add: e_def)
  then have "?B powi (p - 1) \<le> x / ?B powi e" "x / ?B powi e \<le> ?B powi p"
    using u b by (simp_all add: field_simps flip: power_int_add)
  then have "of_int (b ^ nat (p - 1)) \<le> x / ?B powi e" "x / ?B powi e \<le> of_int (b ^ nat p)"
    using p by (simp_all add: powi_nonneg_int)
  then have h: "b ^ nat (p - 1) \<le> ?h" "?h \<le> b ^ nat p"
    by (metis half_even_mono half_even_of_int)+
  have "?B powi (p - 1) \<le> of_int ?h" "of_int ?h \<le> ?B powi p"
    using h p by (simp_all add: powi_nonneg_int del: of_int_power) 
  then show "?B powi (e + p - 1) \<le> round_sig b p x" "round_sig b p x \<le> ?B powi (e + p)"
    using u b by (simp_all add: r power_int_add power_int_diff field_simps)
  have "0 \<le> b ^ nat (p - 1)" using b by simp
  then have "\<bar>?h\<bar> \<le> b ^ nat p" using h by linarith
  then show "representable b p (round_sig b p x)"
    unfolding representable_def r by blast
qed

lemma round_sig_pos: "2 \<le> b \<Longrightarrow> 1 \<le> p \<Longrightarrow> 0 < x \<Longrightarrow> 0 < round_sig b p x"
  using round_sig_pos_bounds(1) powi_pos by (blast intro: less_le_trans)

lemma round_sig_mono_pos:
  assumes b: "2 \<le> b" and p: "1 \<le> p" and x: "0 < x" and le: "x \<le> y"
  shows "round_sig b p x \<le> round_sig b p y"
proof -
  let ?B = "of_int b :: rat"
  let ?e = "sig_exp b p x" and ?f = "sig_exp b p y"
  have y: "0 < y" using x le by simp
  have "?B powi (?e + p - 1) < ?B powi (?f + p)"
    using sig_exp_bounds(1) [OF b, of x p] sig_exp_bounds(2) [OF b, of y p] x y le by simp
  then have "?e \<le> ?f" using powi_less_iff [OF b] by simp
  then consider "?e = ?f" | "?e + p \<le> ?f + p - 1" by linarith
  then show ?thesis
  proof cases
    case 1
    have "x / ?B powi ?f \<le> y / ?B powi ?f" using le b by (simp add: divide_right_mono)
    then have "half_even (x / ?B powi ?f) \<le> half_even (y / ?B powi ?f)" by (rule half_even_mono)
    then show ?thesis using x y b by (simp add: round_sig_def Let_def 1 mult_right_mono)
  next
    case 2
    have "round_sig b p x \<le> ?B powi (?e + p)" by (rule round_sig_pos_bounds(2) [OF b p x])
    also have "\<dots> \<le> ?B powi (?f + p - 1)" using 2 by (rule powi_mono_base [OF b])
    also have "\<dots> \<le> round_sig b p y" by (rule round_sig_pos_bounds(1) [OF b p y])
    finally show ?thesis .
  qed
qed

lemma round_sig_mono:
  assumes b: "2 \<le> b" and p: "1 \<le> p" and le: "x \<le> y"
  shows "round_sig b p x \<le> round_sig b p y"
proof (cases "0 < x")
  case True
  then show ?thesis by (rule round_sig_mono_pos [OF b p _ le])
next
  case False
  consider "y < 0" | "0 \<le> y" by linarith
  then show ?thesis
  proof cases
    case 1
    then have "round_sig b p (- y) \<le> round_sig b p (- x)"
      using le by (intro round_sig_mono_pos [OF b p]) auto
    then show ?thesis by (simp add: round_sig_minus)
  next
    case 2
    have "round_sig b p x \<le> 0"
      using False round_sig_pos [OF b p, of "- x"] by (cases "x = 0") (auto simp: round_sig_minus)
    moreover have "0 \<le> round_sig b p y"
      using 2 round_sig_pos [OF b p, of y] by (cases "y = 0") auto
    ultimately show ?thesis by simp
  qed
qed

lemma representable_minus: "representable b p (- x) = representable b p x"
proof -
  have "representable b p x \<Longrightarrow> representable b p (- x)" for x
    unfolding representable_def by (metis abs_minus_cancel minus_mult_left of_int_minus)
  from this [of x] this [of "- x"] show ?thesis by auto
qed

lemma round_sig_representable:
  assumes "2 \<le> b" "1 \<le> p"
  shows "representable b p (round_sig b p x)"
proof (cases x "0 :: rat" rule: linorder_cases)
  case less
  then have "representable b p (round_sig b p (- x))"
    by (intro round_sig_pos_bounds(3) assms) auto
  then show ?thesis by (simp add: round_sig_minus representable_minus)
next
  case equal
  then show ?thesis using assms by (auto simp: representable_def intro!: exI [of _ 0])
next
  case greater
  then show ?thesis by (intro round_sig_pos_bounds(3) assms)
qed

text \<open>The relative error is at most half a unit of the last kept digit.\<close>

lemma round_sig_error:
  assumes b: "2 \<le> b" and p: "1 \<le> p"
  shows "\<bar>round_sig b p x - x\<bar> \<le> \<bar>x\<bar> * of_int b powi (1 - p) / 2"
proof (cases "x = 0")
  case False
  let ?B = "of_int b :: rat"
  let ?u = "?B powi sig_exp b p x"
  have u: "0 < ?u" using b by (rule powi_pos)
  have "\<bar>round_sig b p x - x\<bar> = \<bar>of_int (half_even (x / ?u)) - x / ?u\<bar> * ?u"
  proof -
    have "round_sig b p x - x = (of_int (half_even (x / ?u)) - x / ?u) * ?u"
      using False u b by (simp add: round_sig_def Let_def left_diff_distrib)
    then show ?thesis using u by (simp add: abs_mult)
  qed
  also have "\<dots> \<le> 1/2 * ?u" using half_even_error u by (intro mult_right_mono) auto
  also have "\<dots> \<le> \<bar>x\<bar> * ?B powi (1 - p) / 2"
  proof -
    have "?u = ?B powi (sig_exp b p x + p - 1) * ?B powi (1 - p)"
      using b by (simp flip: power_int_add)
    also have "\<dots> \<le> \<bar>x\<bar> * ?B powi (1 - p)"
      using sig_exp_bounds(1) [OF b False, of p] b by (intro mult_right_mono) auto
    finally show ?thesis by simp
  qed
  finally show ?thesis .
qed simp

section \<open>The interface: what the engine needs of a rounding\<close>

text \<open>
  Every arithmetic component uses a rounding only through these laws: it is monotone, keeps
  zero and the sign, and does not change a number it has already produced.
\<close>

locale rounding =
  fixes R :: "rat \<Rightarrow> rat"
  assumes R_zero: "R 0 = 0"
    and R_mono: "x \<le> y \<Longrightarrow> R x \<le> R y"
    and R_pos: "0 < x \<Longrightarrow> 0 < R x"
    and R_neg: "x < 0 \<Longrightarrow> R x < 0"
    and R_idem: "R (R x) = R x"
begin

lemma R_nonneg: "0 \<le> x \<Longrightarrow> 0 \<le> R x"
  using R_mono [of 0 x] R_zero by simp

lemma R_nonpos: "x \<le> 0 \<Longrightarrow> R x \<le> 0"
  using R_mono [of x 0] R_zero by simp

lemma R_eq_zero: "R x = 0 \<longleftrightarrow> x = 0"
  using R_zero R_pos [of x] R_neg [of x] by (cases x "0 :: rat" rule: linorder_cases) auto

lemma R_pos_iff: "0 < R x \<longleftrightarrow> 0 < x"
  using R_pos [of x] R_nonpos [of x] by (cases "0 < x") auto

lemma R_upper: "R y = y \<Longrightarrow> x \<le> y \<Longrightarrow> R x \<le> y"
  using R_mono [of x y] by simp

lemma R_lower: "R y = y \<Longrightarrow> y \<le> x \<Longrightarrow> y \<le> R x"
  using R_mono [of y x] by simp

text \<open>Subtracting a non-negative amount and rounding never goes above the start.\<close>

lemma R_diff_le: "R x = x \<Longrightarrow> 0 \<le> y \<Longrightarrow> R (x - y) \<le> x"
  by (rule R_upper) auto

lemma R_add_ge: "R x = x \<Longrightarrow> 0 \<le> y \<Longrightarrow> x \<le> R (x + y)"
  by (rule R_lower) auto

end

definition dec_round :: "rat \<Rightarrow> rat" where
  "dec_round x = round_sig 10 28 x"

definition flt_round :: "rat \<Rightarrow> rat" where
  "flt_round x = round_sig 2 53 x"

text \<open>
  Evaluation shortcuts: a number that is short enough is not changed. The tests cover decimals
  with up to 12 places and binary fractions with up to 20.
\<close>

lemma round_sig_short:
  assumes "2 \<le> b" "1 \<le> p" "quotient_of x = (n, d)" "(b ^ k) mod d = 0" "\<bar>n\<bar> * (b ^ k div d) \<le> b ^ nat p"
  shows "round_sig b p x = x"
proof (rule round_sig_exact)
  have d: "0 < d" using assms(3) by (rule quotient_of_denom_pos)
  have x: "x = of_int n / of_int d" using assms(3) by (rule quotient_of_div)
  define c where "c = b ^ k div d"
  have bk: "b ^ k = c * d" using assms(4) by (simp add: c_def mod_0_imp_dvd)
  then have c: "0 < c" using assms(1) d by (metis zero_less_mult_pos2 zero_less_power zless_iff_Suc_zadd int_one_le_iff_zero_less order_trans one_le_numeral)
  have "x = of_int (n * c) * of_int b powi (- int k)"
  proof -
    have "(of_int b :: rat) powi int k = of_int c * of_int d"
      using arg_cong [OF bk, of "of_int :: int \<Rightarrow> rat"] by simp
    then show ?thesis using c d by (simp add: x power_int_minus field_simps)
  qed
  moreover have "\<bar>n * c\<bar> \<le> b ^ nat p" using assms(5) c by (simp add: c_def [symmetric] abs_mult)
  ultimately show "representable b p x" unfolding representable_def by blast
qed (use assms in auto)

lemma dec_round_code [code]:
  "dec_round x = (case quotient_of x of (n, d) \<Rightarrow>
     if 1000000000000 mod d = 0 \<and> \<bar>n\<bar> * (1000000000000 div d) \<le> 10000000000000000000000000000 then x
     else round_sig 10 28 x)"
  using round_sig_short [of 10 28 x _ _ 12] by (auto simp: dec_round_def split: prod.splits)

lemma flt_round_code [code]:
  "flt_round x = (case quotient_of x of (n, d) \<Rightarrow>
     if 1048576 mod d = 0 \<and> \<bar>n\<bar> * (1048576 div d) \<le> 9007199254740992 then x else round_sig 2 53 x)"
  using round_sig_short [of 2 53 x _ _ 20] by (auto simp: flt_round_def split: prod.splits)

interpretation dec: rounding dec_round
proof (unfold_locales, goal_cases)
  case (4 x)
  then show ?case using round_sig_pos [of 10 28 "- x"] by (simp add: dec_round_def round_sig_minus)
next
  case (5 x)
  show ?case unfolding dec_round_def
    by (rule round_sig_exact) (simp_all add: round_sig_representable)
qed (simp_all add: dec_round_def round_sig_mono round_sig_pos)

interpretation flt: rounding flt_round
proof (unfold_locales, goal_cases)
  case (4 x)
  then show ?case using round_sig_pos [of 2 53 "- x"] by (simp add: flt_round_def round_sig_minus)
next
  case (5 x)
  show ?case unfolding flt_round_def
    by (rule round_sig_exact) (simp_all add: round_sig_representable)
qed (simp_all add: flt_round_def round_sig_mono round_sig_pos)

lemma dec_round_error: "\<bar>dec_round x - x\<bar> \<le> \<bar>x\<bar> * 10 powi (- 27) / 2"
  using round_sig_error [of 10 28 x] by (simp add: dec_round_def)

section \<open>Decimal and float arithmetic\<close>

definition dadd :: "rat \<Rightarrow> rat \<Rightarrow> rat" where "dadd x y = dec_round (x + y)"
definition dsub :: "rat \<Rightarrow> rat \<Rightarrow> rat" where "dsub x y = dec_round (x - y)"
definition dmul :: "rat \<Rightarrow> rat \<Rightarrow> rat" where "dmul x y = dec_round (x * y)"
definition ddiv :: "rat \<Rightarrow> rat \<Rightarrow> rat" where "ddiv x y = dec_round (x / y)"

definition fadd :: "rat \<Rightarrow> rat \<Rightarrow> rat" where "fadd x y = flt_round (x + y)"
definition fsub :: "rat \<Rightarrow> rat \<Rightarrow> rat" where "fsub x y = flt_round (x - y)"
definition fmul :: "rat \<Rightarrow> rat \<Rightarrow> rat" where "fmul x y = flt_round (x * y)"
definition fdiv :: "rat \<Rightarrow> rat \<Rightarrow> rat" where "fdiv x y = flt_round (x / y)"

text \<open>\<^verbatim>\<open>sum(xs, Decimal("0"))\<close>: a left fold, rounding after every addition.\<close>

definition dsum :: "rat list \<Rightarrow> rat" where
  "dsum xs = foldl dadd 0 xs"

text \<open>
  \<^verbatim>\<open>Decimal(str(x))\<close> of a float: its shortest decimal text that reads back as the same float,
  searched from one significant digit to seventeen.
\<close>

definition py_repr :: "rat \<Rightarrow> rat" where
  "py_repr x = (case find (\<lambda>n. flt_round (round_sig 10 n x) = x) [1..16] of
     Some n \<Rightarrow> round_sig 10 n x | None \<Rightarrow> round_sig 10 17 x)"

lemma dmul_nonneg: "0 \<le> x \<Longrightarrow> 0 \<le> y \<Longrightarrow> 0 \<le> dmul x y"
  by (simp add: dmul_def dec.R_nonneg)

lemma ddiv_nonneg: "0 \<le> x \<Longrightarrow> 0 \<le> y \<Longrightarrow> 0 \<le> ddiv x y"
  by (simp add: ddiv_def dec.R_nonneg)

lemma dadd_nonneg: "0 \<le> x \<Longrightarrow> 0 \<le> y \<Longrightarrow> 0 \<le> dadd x y"
  by (simp add: dadd_def dec.R_nonneg)

lemma dadd_pos: "0 \<le> x \<Longrightarrow> 0 < y \<Longrightarrow> 0 < dadd x y"
  by (simp add: dadd_def dec.R_pos)

lemma dsub_pos_iff: "0 < dsub x y \<longleftrightarrow> y < x"
  by (simp add: dsub_def dec.R_pos_iff)

lemma fmul_nonneg: "0 \<le> x \<Longrightarrow> 0 \<le> y \<Longrightarrow> 0 \<le> fmul x y"
  by (simp add: fmul_def flt.R_nonneg)

lemma fdiv_nonneg: "0 \<le> x \<Longrightarrow> 0 \<le> y \<Longrightarrow> 0 \<le> fdiv x y"
  by (simp add: fdiv_def flt.R_nonneg)

lemma py_repr_pos: "0 < x \<Longrightarrow> 0 < py_repr x"
proof (cases "find (\<lambda>n. flt_round (round_sig 10 n x) = x) [1..16]")
  case None
  assume "0 < x"
  then show ?thesis using None by (simp add: py_repr_def round_sig_pos)
next
  case (Some n)
  assume "0 < x"
  moreover have "1 \<le> n" using Some by (auto simp: find_Some_iff)
  ultimately show ?thesis using Some by (simp add: py_repr_def round_sig_pos)
qed

end
