(* ===== verification/Domain.thy ===== *)
theory Domain
  imports Prelude Numeric
begin

text \<open>
  The engine's domain model: \<^verbatim>\<open>engine/domain/enums.py\<close>, \<^verbatim>\<open>events.py\<close> and \<^verbatim>\<open>models.py\<close>. Enumerations
  are datatypes, dataclasses are records (field prefixes: \<open>r_\<close> exchange order report, \<open>xf_\<close>
  exchange fill, \<open>so_\<close> submit outcome, \<open>oi_\<close> order intent, \<open>o_\<close> order, \<open>f_\<close> fill, \<open>p_\<close> position,
  \<open>rs_\<close> reconciliation state), and a method that mutates \<^verbatim>\<open>self\<close> is a call on the object's own
  state, which keeps the mutations made before an exception.
\<close>

section \<open>Enumerations (enums.py)\<close>

datatype trading_mode = PAPER | TESTNET | LIVE

datatype order_purpose = ENTRY | EXIT | STOP_EXIT | PROTECTIVE_STOP

datatype order_status =
  INTENT_CREATED | SUBMITTING | NEW | PARTIALLY_FILLED | FILLED | CANCELED | REJECTED | EXPIRED

datatype recon_status = CONNECTING | RECONCILING | HEALTHY | DEGRADED | HALTED

datatype severity = INFO | WARNING | CRITICAL

datatype submit_outcome_kind = OUT_ACKNOWLEDGED | OUT_REJECTED | OUT_AMBIGUOUS

definition BUY :: string where "BUY = ''BUY''"
definition SELL :: string where "SELL = ''SELL''"
definition MARKET :: string where "MARKET = ''MARKET''"
definition LIMIT :: string where "LIMIT = ''LIMIT''"
definition STOP_LOSS_LIMIT :: string where "STOP_LOSS_LIMIT = ''STOP_LOSS_LIMIT''"

fun purpose_value :: "order_purpose \<Rightarrow> string" where
  "purpose_value ENTRY = ''ENTRY''"
| "purpose_value EXIT = ''EXIT''"
| "purpose_value STOP_EXIT = ''STOP_EXIT''"
| "purpose_value PROTECTIVE_STOP = ''PROTECTIVE_STOP''"

fun status_value :: "order_status \<Rightarrow> string" where
  "status_value INTENT_CREATED = ''INTENT_CREATED''"
| "status_value SUBMITTING = ''SUBMITTING''"
| "status_value NEW = ''NEW''"
| "status_value PARTIALLY_FILLED = ''PARTIALLY_FILLED''"
| "status_value FILLED = ''FILLED''"
| "status_value CANCELED = ''CANCELED''"
| "status_value REJECTED = ''REJECTED''"
| "status_value EXPIRED = ''EXPIRED''"

fun recon_value :: "recon_status \<Rightarrow> string" where
  "recon_value CONNECTING = ''CONNECTING''"
| "recon_value RECONCILING = ''RECONCILING''"
| "recon_value HEALTHY = ''HEALTHY''"
| "recon_value DEGRADED = ''DEGRADED''"
| "recon_value HALTED = ''HALTED''"

fun severity_value :: "severity \<Rightarrow> string" where
  "severity_value INFO = ''INFO''"
| "severity_value WARNING = ''WARNING''"
| "severity_value CRITICAL = ''CRITICAL''"

fun mode_value :: "trading_mode \<Rightarrow> string" where
  "mode_value PAPER = ''PAPER''"
| "mode_value TESTNET = ''TESTNET''"
| "mode_value LIVE = ''LIVE''"

definition TERMINAL_STATUSES :: "order_status list" where
  "TERMINAL_STATUSES = [FILLED, CANCELED, REJECTED, EXPIRED]"

definition is_terminal :: "order_status \<Rightarrow> bool" where
  "is_terminal s \<longleftrightarrow> s \<in> set TERMINAL_STATUSES"

section \<open>The order state machine's tables (models.py)\<close>

fun ALLOWED_TRANSITIONS :: "order_status \<Rightarrow> order_status list" where
  "ALLOWED_TRANSITIONS INTENT_CREATED = [SUBMITTING, REJECTED]"
| "ALLOWED_TRANSITIONS SUBMITTING = [NEW, PARTIALLY_FILLED, FILLED, REJECTED, CANCELED, EXPIRED]"
| "ALLOWED_TRANSITIONS NEW = [PARTIALLY_FILLED, FILLED, CANCELED, EXPIRED]"
| "ALLOWED_TRANSITIONS PARTIALLY_FILLED = [FILLED, CANCELED, EXPIRED]"
| "ALLOWED_TRANSITIONS FILLED = []"
| "ALLOWED_TRANSITIONS CANCELED = []"
| "ALLOWED_TRANSITIONS REJECTED = []"
| "ALLOWED_TRANSITIONS EXPIRED = []"

fun rank :: "order_status \<Rightarrow> nat" where
  "rank INTENT_CREATED = 0"
| "rank SUBMITTING = 1"
| "rank NEW = 2"
| "rank PARTIALLY_FILLED = 3"
| "rank FILLED = 4"
| "rank CANCELED = 4"
| "rank REJECTED = 4"
| "rank EXPIRED = 4"

definition can_transition :: "order_status \<Rightarrow> order_status \<Rightarrow> bool" where
  "can_transition current new \<longleftrightarrow> new \<in> set (ALLOWED_TRANSITIONS current)"

text \<open>Progress of an order: the same status, or one of higher rank. The four terminal statuses
  are incomparable.\<close>

instantiation order_status :: order
begin

definition less_eq_order_status :: "order_status \<Rightarrow> order_status \<Rightarrow> bool" where
  "less_eq_order_status s t \<longleftrightarrow> s = t \<or> rank s < rank t"

definition less_order_status :: "order_status \<Rightarrow> order_status \<Rightarrow> bool" where
  "less_order_status s t \<longleftrightarrow> rank s < rank t"

instance
  by intro_classes (auto simp: less_eq_order_status_def less_order_status_def)

end

fun severity_rank :: "severity \<Rightarrow> nat" where
  "severity_rank INFO = 0"
| "severity_rank WARNING = 1"
| "severity_rank CRITICAL = 2"

instantiation severity :: linorder
begin

definition less_eq_severity :: "severity \<Rightarrow> severity \<Rightarrow> bool" where
  "less_eq_severity s t \<longleftrightarrow> severity_rank s \<le> severity_rank t"

definition less_severity :: "severity \<Rightarrow> severity \<Rightarrow> bool" where
  "less_severity s t \<longleftrightarrow> severity_rank s < severity_rank t"

instance
proof
  fix s t :: severity
  show "s \<le> t \<Longrightarrow> t \<le> s \<Longrightarrow> s = t"
    by (cases s; cases t) (simp_all add: less_eq_severity_def)
qed (auto simp: less_eq_severity_def less_severity_def)

end

lemma is_terminal_simps [simp]:
  "\<not> is_terminal INTENT_CREATED" "\<not> is_terminal SUBMITTING" "\<not> is_terminal NEW"
  "\<not> is_terminal PARTIALLY_FILLED" "is_terminal FILLED" "is_terminal CANCELED"
  "is_terminal REJECTED" "is_terminal EXPIRED"
  by (simp_all add: is_terminal_def TERMINAL_STATUSES_def)

lemma in_TERMINAL_STATUSES [simp]: "s \<in> set TERMINAL_STATUSES \<longleftrightarrow> is_terminal s"
  by (simp add: is_terminal_def)

lemma terminal_rank: "is_terminal s \<longleftrightarrow> rank s = 4"
  by (cases s) simp_all

lemma rank_le: "rank s \<le> 4"
  by (cases s) simp_all

lemma transition_rank: "can_transition s t \<Longrightarrow> rank s < rank t"
  by (cases s; cases t) (simp_all add: can_transition_def)

lemma terminal_no_transition: "is_terminal s \<Longrightarrow> \<not> can_transition s t"
  by (cases s) (simp_all add: can_transition_def)

lemma terminal_maximal: "is_terminal s \<Longrightarrow> s \<le> t \<Longrightarrow> t = s"
  using rank_le [of t] by (auto simp: less_eq_order_status_def terminal_rank)

section \<open>Exchange-facing values (events.py)\<close>

record report =
  r_coid :: string
  r_symbol :: string
  r_side :: string
  r_type :: string
  r_status :: order_status
  r_orig_qty :: rat
  r_executed :: rat
  r_cumquote :: rat
  r_exid :: "string option"
  r_price :: "rat option"
  r_stop :: "rat option"
  r_update_ms :: "int option"
  r_reject :: "string option"
  r_raw :: "(string \<times> jval) list"

definition average_price :: "report \<Rightarrow> rat option" where
  "average_price r = (if 0 < r_executed r then Some (ddiv (r_cumquote r) (r_executed r)) else None)"

record xfill =
  xf_trade_id :: string
  xf_exid :: "string option"
  xf_coid :: "string option"
  xf_symbol :: string
  xf_side :: string
  xf_qty :: rat
  xf_price :: rat
  xf_quote :: rat
  xf_commission :: rat
  xf_commission_asset :: "string option"
  xf_time_ms :: int
  xf_key :: string
  xf_is_maker :: "bool option"

text \<open>Balances: for each asset its free and its locked amount.\<close>

record balance_snapshot =
  bs_balances :: "(string \<times> rat \<times> rat) list"
  bs_as_of_ms :: int

definition total :: "balance_snapshot \<Rightarrow> string \<Rightarrow> rat" where
  "total b asset = (case map_of (bs_balances b) asset of
     None \<Rightarrow> 0 | Some (free, locked) \<Rightarrow> dadd free locked)"

record submit_outcome =
  so_kind :: submit_outcome_kind
  so_report :: "report option"
  so_fills :: "xfill list"
  so_error :: "string option"
  so_error_code :: "int option"

section \<open>Identifiers, rounding to exchange steps, symbol rules (models.py)\<close>

text \<open>
  \<open>sha\<close> is the hexadecimal SHA-256 digest of a text (\<^verbatim>\<open>hashlib\<close>); it enters every definition
  that uses it as an argument.
\<close>

definition safe_prefix :: "string \<Rightarrow> string" where
  "safe_prefix prefix = take 8 (filter isalnum prefix)"

definition make_client_order_id :: "(string \<Rightarrow> string) \<Rightarrow> string \<Rightarrow> string \<Rightarrow> string" where
  "make_client_order_id sha prefix client_intent_id =
     (let digest = sha client_intent_id;
          p = (if safe_prefix prefix = [] then ''cb'' else safe_prefix prefix)
      in p @ ''-'' @ take (35 - length p) digest)"

text \<open>\<^verbatim>\<open>to_integral_value(rounding=ROUND_DOWN)\<close> discards the fraction.\<close>

definition round_down_int :: "rat \<Rightarrow> int" where
  "round_down_int x = (if 0 \<le> x then \<lfloor>x\<rfloor> else \<lceil>x\<rceil>)"

definition floor_to_step :: "rat \<Rightarrow> rat \<Rightarrow> rat" where
  "floor_to_step value step =
     (if step \<le> 0 then value else dmul (of_int (round_down_int (ddiv value step))) step)"

record symbol_rules =
  sr_symbol :: string
  sr_exchange_symbol :: string
  sr_base :: string
  sr_quote :: string
  sr_step :: rat
  sr_min_qty :: rat
  sr_tick :: rat
  sr_min_notional :: rat

definition round_qty :: "symbol_rules \<Rightarrow> rat \<Rightarrow> rat" where
  "round_qty r qty = floor_to_step qty (sr_step r)"

definition round_price :: "symbol_rules \<Rightarrow> rat \<Rightarrow> rat" where
  "round_price r price = floor_to_step price (sr_tick r)"

definition is_tradeable :: "symbol_rules \<Rightarrow> rat \<Rightarrow> rat \<Rightarrow> bool" where
  "is_tradeable r qty price \<longleftrightarrow>
     (if qty \<le> 0 \<or> qty < sr_min_qty r then False else sr_min_notional r \<le> dmul qty price)"

section \<open>Orders (models.py)\<close>

record intent =
  oi_id :: string
  oi_bot :: string
  oi_symbol :: string
  oi_side :: string
  oi_type :: string
  oi_qty :: rat
  oi_purpose :: order_purpose
  oi_strategy_name :: string
  oi_strategy_version :: string
  oi_signal_id :: "string option"
  oi_limit :: "rat option"
  oi_stop :: "rat option"
  oi_ref :: "rat option"
  oi_created_at :: time

record order =
  o_bot :: string
  o_exchange :: string
  o_symbol :: string
  o_side :: string
  o_type :: string
  o_purpose :: order_purpose
  o_coid :: string
  o_intent :: string
  o_requested :: rat
  o_status :: order_status
  o_id :: int
  o_exid :: "string option"
  o_executed :: rat
  o_cumquote :: rat
  o_avg :: "rat option"
  o_limit :: "rat option"
  o_stop :: "rat option"
  o_ref :: "rat option"
  o_ambiguous :: bool
  o_reject :: "string option"
  o_submitted :: "time option"
  o_acked :: "time option"
  o_last_update :: "time option"
  o_last_update_ms :: "int option"
  o_terminal_at :: "time option"
  o_raw :: "(string \<times> jval) list"
  o_version :: int

definition NOT_FOUND_REASON :: string where
  "NOT_FOUND_REASON = ''NOT_FOUND_ON_EXCHANGE''"

definition UNSAFE_RAW_KEYS :: "string list" where
  "UNSAFE_RAW_KEYS = [''apiKey'', ''signature'', ''secret'']"

text \<open>Python truth of an optional text and of an optional number.\<close>

definition truthy :: "string option \<Rightarrow> bool" where
  "truthy s \<longleftrightarrow> s \<noteq> None \<and> s \<noteq> Some []"

definition truthy_int :: "int option \<Rightarrow> bool" where
  "truthy_int n \<longleftrightarrow> n \<noteq> None \<and> n \<noteq> Some 0"

definition or_empty :: "string option \<Rightarrow> string" where
  "or_empty s = (case s of None \<Rightarrow> [] | Some t \<Rightarrow> t)"

definition transition :: "order_status \<Rightarrow> time \<Rightarrow> (order, unit) eff" where
  "transition new now od =
     (if new = o_status od then (Inr (), od)
      else if \<not> can_transition (o_status od) new then
        (Inl (IllegalTransition (o_coid od @ '': '' @ status_value (o_status od) @ '' -> '' @ status_value new)), od)
      else (Inr (), od\<lparr>o_status := new,
                      o_terminal_at := (if new \<in> set TERMINAL_STATUSES then Some now else o_terminal_at od)\<rparr>))"

definition mark_submitting :: "time \<Rightarrow> (order, unit) eff" where
  "mark_submitting now =
     thenE (transition SUBMITTING now) (updE (\<lambda>od. od\<lparr>o_submitted := Some now\<rparr>))"

definition mark_rejected :: "string \<Rightarrow> time \<Rightarrow> (order, bool) eff" where
  "mark_rejected reason now od =
     (if is_terminal (o_status od) then (Inr False, od)
      else thenE (transition REJECTED now)
             (thenE (updE (\<lambda>od. od\<lparr>o_reject := Some reason\<rparr>)) (ret True)) od)"

text \<open>
  \<^verbatim>\<open>Order.apply_report\<close>. The local variable \<^verbatim>\<open>changed\<close> is threaded through the stages of the
  method in the order the code has them: identity and quantities, status, bookkeeping.
\<close>

definition report_amounts :: "report \<Rightarrow> order \<Rightarrow> bool \<times> order" where
  "report_amounts r od =
     (let (c1, o1) = (if truthy (r_exid r) \<and> \<not> truthy (o_exid od)
                      then (True, od\<lparr>o_exid := r_exid r\<rparr>) else (False, od));
          (c2, o2) = (if o_executed o1 < r_executed r
                      then (True, o1\<lparr>o_executed := r_executed r\<rparr>) else (c1, o1));
          (c3, o3) = (if o_cumquote o2 < r_cumquote r
                      then (True, o2\<lparr>o_cumquote := r_cumquote r\<rparr>) else (c2, o2));
          o4 = (if c3 \<and> 0 < o_executed o3
                then o3\<lparr>o_avg := Some (ddiv (o_cumquote o3) (o_executed o3))\<rparr> else o3)
      in (c3, o4))"

definition report_status :: "report \<Rightarrow> time \<Rightarrow> bool \<Rightarrow> (order, bool) eff" where
  "report_status r now changed od =
     (let new = r_status r in
      if o_status od = REJECTED \<and> startswith (or_empty (o_reject od)) NOT_FOUND_REASON \<and> new \<noteq> REJECTED then
        raise (IllegalTransition (o_coid od @ '': locally REJECTED(not found) but exchange reports ''
                 @ status_value new)) od
      else if new \<noteq> o_status od \<and> rank (o_status od) < rank new \<and> can_transition (o_status od) new then
        thenE (transition new now)
          (thenE (whenE (new = REJECTED) (updE (\<lambda>od. od\<lparr>o_reject := r_reject r\<rparr>))) (ret True)) od
      else if new \<noteq> o_status od \<and> rank (o_status od) \<le> rank new \<and> is_terminal (o_status od) then
        raise (IllegalTransition (o_coid od @ '': terminal '' @ status_value (o_status od)
                 @ '' vs exchange '' @ status_value new)) od
      else ret changed od)"

definition report_bookkeeping :: "report \<Rightarrow> time \<Rightarrow> bool \<Rightarrow> order \<Rightarrow> bool \<times> order" where
  "report_bookkeeping r now changed od =
     (let (c1, o1) =
            (if truthy_int (r_update_ms r)
                \<and> (o_last_update_ms od = None \<or> the (o_last_update_ms od) < the (r_update_ms r))
             then (True, od\<lparr>o_last_update_ms := r_update_ms r,
                          o_last_update := Some (the (r_update_ms r) * 1000)\<rparr>)
             else (changed, od));
          (c2, o2) =
            (if o_acked o1 = None \<and> o_status o1 \<notin> {INTENT_CREATED, SUBMITTING, REJECTED}
             then (True, o1\<lparr>o_acked := Some now\<rparr>) else (c1, o1));
          o3 = (if c2 then o2\<lparr>o_raw := filter (\<lambda>(k, v). k \<notin> set UNSAFE_RAW_KEYS) (r_raw r)\<rparr> else o2)
      in (c2, o3))"

definition apply_report :: "report \<Rightarrow> time \<Rightarrow> (order, bool) eff" where
  "apply_report r now od =
     (let (c, o1) = report_amounts r od
      in bindE (report_status r now c)
           (\<lambda>c od. let (c', o') = report_bookkeeping r now c od in (Inr c', o')) o1)"

text \<open>How \<^verbatim>\<open>_transition\<close> ends: accepted moves and refused ones.\<close>

lemma transition_allowed:
  assumes "can_transition (o_status od) new"
  shows "transition new now od = (Inr (), od\<lparr>o_status := new,
     o_terminal_at := (if is_terminal new then Some now else o_terminal_at od)\<rparr>)"
  using assms transition_rank [OF assms] by (auto simp: transition_def)

lemma transition_raises:
  "new \<noteq> o_status od \<Longrightarrow> \<not> can_transition (o_status od) new \<Longrightarrow>
   transition new now od = (Inl (IllegalTransition (o_coid od @ '': '' @ status_value (o_status od)
     @ '' -> '' @ status_value new)), od)"
  by (simp add: transition_def)

section \<open>Fills, positions, reconciliation state (models.py)\<close>

record fill =
  f_order_id :: int
  f_coid :: string
  f_symbol :: string
  f_side :: string
  f_qty :: rat
  f_price :: rat
  f_quote :: rat
  f_commission :: rat
  f_commission_asset :: "string option"
  f_time :: time
  f_key :: string
  f_trade_id :: "string option"
  f_id :: int

record position =
  p_bot :: string
  p_symbol :: string
  p_side :: string
  p_qty :: rat
  p_avg :: rat
  p_realized :: rat
  p_unrealized :: rat
  p_mark :: "rat option"
  p_stop :: "rat option"
  p_fees_other :: "(string \<times> rat) list"
  p_opened :: "time option"
  p_updated :: "time option"

definition new_position :: "string \<Rightarrow> string \<Rightarrow> position" where
  "new_position botid symbol =
     \<lparr>p_bot = botid, p_symbol = symbol, p_side = ''LONG'', p_qty = 0, p_avg = 0, p_realized = 0,
      p_unrealized = 0, p_mark = None, p_stop = None, p_fees_other = [], p_opened = None,
      p_updated = None\<rparr>"

definition is_open :: "position \<Rightarrow> symbol_rules option \<Rightarrow> bool" where
  "is_open p rules = (case rules of
     None \<Rightarrow> 1 / 10 ^ 12 < p_qty p
   | Some r \<Rightarrow> 0 < p_qty p \<and> max (sr_min_qty r) (sr_step r) \<le> p_qty p)"

definition mark_position :: "rat \<Rightarrow> position \<Rightarrow> position" where
  "mark_position price p =
     p\<lparr>p_mark := Some price,
       p_unrealized := (if 0 < p_qty p then dmul (dsub price (p_avg p)) (p_qty p) else 0)\<rparr>"

record recon_state =
  rs_bot :: string
  rs_status :: recon_status
  rs_reason :: string
  rs_updated :: "time option"
  rs_last_success :: "time option"
  rs_ws_connected :: bool
  rs_last_ws_event :: "time option"
  rs_last_ack :: "string option"

definition fresh :: "recon_state \<Rightarrow> time \<Rightarrow> int \<Rightarrow> bool" where
  "fresh st now max_age = (case rs_updated st of None \<Rightarrow> False | Some u \<Rightarrow> now - u \<le> seconds max_age)"

definition allows_entries :: "recon_state \<Rightarrow> time \<Rightarrow> int \<Rightarrow> bool" where
  "allows_entries st now max_age \<longleftrightarrow> rs_status st = HEALTHY \<and> fresh st now max_age"

definition allows_exits :: "recon_state \<Rightarrow> time \<Rightarrow> int \<Rightarrow> bool" where
  "allows_exits st now max_age \<longleftrightarrow>
     (rs_status st = HEALTHY \<or> rs_status st = DEGRADED) \<and> fresh st now max_age"

end
