(* ===== verification/Order_Machine.thy ===== *)
theory Order_Machine
  imports Domain "HOL-Library.Multiset"
begin

text \<open>
  What the order state machine of \<^verbatim>\<open>engine/domain/models.py\<close> guarantees: an exchange report can
  only move an order forward, reported quantities never shrink, reports that contradict a
  terminal order raise (and nothing else does), repeating a report changes nothing, and the
  reports of one order give the same result in any order of arrival. Then the two pure helpers
  of the module, the client order id and the rounding to exchange steps.
\<close>

section \<open>The stages of apply_report\<close>

lemma report_amounts_eq:
  assumes "report_amounts r od = (c, od')"
  shows "o_status od' = o_status od" "o_reject od' = o_reject od" "o_coid od' = o_coid od"
    "o_executed od' = max (o_executed od) (r_executed r)"
    "o_cumquote od' = max (o_cumquote od) (r_cumquote r)"
    "o_exid od' = (if truthy (o_exid od) \<or> \<not> truthy (r_exid r) then o_exid od else r_exid r)"
    "o_last_update_ms od' = o_last_update_ms od" "o_acked od' = o_acked od"
    "o_id od' = o_id od" "o_intent od' = o_intent od" "o_version od' = o_version od"
    "o_symbol od' = o_symbol od" "o_side od' = o_side od" "o_bot od' = o_bot od"
    "o_exchange od' = o_exchange od" "o_submitted od' = o_submitted od"
    "o_requested od' = o_requested od" "o_purpose od' = o_purpose od"
    "\<not> c \<Longrightarrow> od' = od"
    "c \<longleftrightarrow> truthy (r_exid r) \<and> \<not> truthy (o_exid od) \<or> o_executed od < r_executed r
           \<or> o_cumquote od < r_cumquote r"
    "c \<Longrightarrow> 0 < o_executed od' \<Longrightarrow> o_avg od' = Some (ddiv (o_cumquote od') (o_executed od'))"
    "\<not> (c \<and> 0 < o_executed od') \<Longrightarrow> o_avg od' = o_avg od"
  using assms by (auto simp: report_amounts_def Let_def max_def split: if_splits)

text \<open>A report contradicts a local order: the two cases in which the method raises.\<close>

definition conflicts :: "report \<Rightarrow> order \<Rightarrow> bool" where
  "conflicts r od \<longleftrightarrow>
     (o_status od = REJECTED \<and> startswith (or_empty (o_reject od)) NOT_FOUND_REASON \<and> r_status r \<noteq> REJECTED)
     \<or> (is_terminal (o_status od) \<and> is_terminal (r_status r) \<and> r_status r \<noteq> o_status od)"

lemma report_status_cases:
  "report_status r now c od =
     (if conflicts r od then (Inl (IllegalTransition
        (if o_status od = REJECTED \<and> startswith (or_empty (o_reject od)) NOT_FOUND_REASON
         then o_coid od @ '': locally REJECTED(not found) but exchange reports '' @ status_value (r_status r)
         else o_coid od @ '': terminal '' @ status_value (o_status od) @ '' vs exchange ''
                @ status_value (r_status r))), od)
      else if can_transition (o_status od) (r_status r) then
        (Inr True, od\<lparr>o_status := r_status r,
           o_terminal_at := (if is_terminal (r_status r) then Some now else o_terminal_at od),
           o_reject := (if r_status r = REJECTED then r_reject r else o_reject od)\<rparr>)
      else (Inr c, od))"
proof -
  let ?s = "o_status od" and ?n = "r_status r"
  have b1: "(?n \<noteq> ?s \<and> rank ?s < rank ?n \<and> can_transition ?s ?n) = can_transition ?s ?n"
    using transition_rank [of ?s ?n] by auto
  have b2: "(?n \<noteq> ?s \<and> rank ?s \<le> rank ?n \<and> is_terminal ?s)
      = (is_terminal ?s \<and> is_terminal ?n \<and> ?n \<noteq> ?s)"
    using rank_le [of ?n] by (auto simp: terminal_rank)
  have b3: "can_transition ?s ?n \<Longrightarrow> \<not> is_terminal ?s \<and> ?s \<noteq> REJECTED \<and> ?n \<noteq> ?s"
    using terminal_no_transition transition_rank by fastforce
  show ?thesis
  proof (cases "can_transition ?s ?n")
    case True
    with b3 have n: "\<not> is_terminal ?s" "?s \<noteq> REJECTED" "?n \<noteq> ?s" by simp_all
    then have "\<not> conflicts r od" by (simp add: conflicts_def)
    moreover have "report_status r now c od =
        thenE (transition ?n now)
          (thenE (whenE (?n = REJECTED) (updE (\<lambda>od. od\<lparr>o_reject := r_reject r\<rparr>))) (ret True)) od"
      unfolding report_status_def Let_def b1 using True n by simp
    ultimately show ?thesis
      using True by (simp add: thenE_def bindE_apply transition_allowed whenE_def)
  next
    case False
    then show ?thesis unfolding report_status_def Let_def b1 b2 by (auto simp: conflicts_def)
  qed
qed

lemma report_bookkeeping_eq:
  assumes "report_bookkeeping r now c od = (c', od')"
  shows "o_status od' = o_status od" "o_executed od' = o_executed od" "o_cumquote od' = o_cumquote od"
    "o_exid od' = o_exid od" "o_reject od' = o_reject od" "o_coid od' = o_coid od"
    "o_id od' = o_id od" "o_intent od' = o_intent od" "o_version od' = o_version od"
    "o_symbol od' = o_symbol od" "o_side od' = o_side od" "o_bot od' = o_bot od"
    "o_exchange od' = o_exchange od" "o_avg od' = o_avg od" "o_terminal_at od' = o_terminal_at od"
    "o_submitted od' = o_submitted od" "o_requested od' = o_requested od" "o_purpose od' = o_purpose od"
    "c \<Longrightarrow> c'" "\<not> c' \<Longrightarrow> od' = od"
  using assms by (auto simp: report_bookkeeping_def Let_def split: if_splits)

text \<open>A second look at the same report finds nothing left to record.\<close>

lemma report_bookkeeping_again:
  assumes "report_bookkeeping r now c od = (c', od')"
  shows "report_bookkeeping r now2 False od' = (False, od')"
proof -
  have "\<not> (truthy_int (r_update_ms r)
      \<and> (o_last_update_ms od' = None \<or> the (o_last_update_ms od') < the (r_update_ms r)))"
    using assms by (simp add: report_bookkeeping_def Let_def truthy_int_def split: if_splits) auto
  moreover have "\<not> (o_acked od' = None \<and> o_status od' \<notin> {INTENT_CREATED, SUBMITTING, REJECTED})"
    using assms by (simp add: report_bookkeeping_def Let_def split: if_splits) auto
  ultimately show ?thesis by (simp only: report_bookkeeping_def Let_def if_False prod.case)
qed

lemma apply_report_cases:
  obtains (conflict) e where "conflicts r od" "apply_report r now od = (Inl (IllegalTransition e), snd (report_amounts r od))"
  | (normal) c od1 st rej ta c2 od2 where "\<not> conflicts r od" "report_amounts r od = (c, od1)"
      "st = (if can_transition (o_status od) (r_status r) then r_status r else o_status od)"
      "report_bookkeeping r now (c \<or> can_transition (o_status od) (r_status r))
         (od1\<lparr>o_status := st, o_terminal_at := ta, o_reject := rej\<rparr>) = (c2, od2)"
      "ta = (if can_transition (o_status od) (r_status r) \<and> is_terminal (r_status r) then Some now else o_terminal_at od1)"
      "rej = (if can_transition (o_status od) (r_status r) \<and> r_status r = REJECTED then r_reject r else o_reject od)"
      "apply_report r now od = (Inr c2, od2)"
proof (cases "report_amounts r od")
  case (Pair c od1)
  note am = report_amounts_eq [OF Pair]
  have cf: "conflicts r od1 = conflicts r od" by (simp add: conflicts_def am)
  show ?thesis
  proof (cases "conflicts r od")
    case True
    then show ?thesis
      using cf by (intro conflict) (auto simp: apply_report_def Pair report_status_cases bindE_def)
  next
    case False
    let ?ct = "can_transition (o_status od) (r_status r)"
    let ?st = "if ?ct then r_status r else o_status od"
    let ?ta = "if ?ct \<and> is_terminal (r_status r) then Some now else o_terminal_at od1"
    let ?rej = "if ?ct \<and> r_status r = REJECTED then r_reject r else o_reject od"
    let ?mid = "od1\<lparr>o_status := ?st, o_terminal_at := ?ta, o_reject := ?rej\<rparr>"
    obtain c2 od2 where b: "report_bookkeeping r now (c \<or> ?ct) ?mid = (c2, od2)"
      by (cases "report_bookkeeping r now (c \<or> ?ct) ?mid")
    have s: "report_status r now c od1 = (Inr (c \<or> ?ct), ?mid)"
      using False cf by (simp add: report_status_cases am)
    have "apply_report r now od = (Inr c2, od2)"
      unfolding apply_report_def Pair Let_def prod.case by (simp add: bindE_apply s b)
    then show ?thesis using False b by (intro normal [OF _ Pair]) auto
  qed
qed

section \<open>What a report can do to an order\<close>

text \<open>The fields that identify an order; no report touches them.\<close>

definition order_identity :: "order \<Rightarrow> int \<times> string \<times> string \<times> string \<times> string \<times> string \<times> string \<times> rat \<times> order_purpose \<times> int" where
  "order_identity od = (o_id od, o_coid od, o_intent od, o_bot od, o_exchange od, o_symbol od, o_side od,
     o_requested od, o_purpose od, o_version od)"

text \<open>
  C14: whatever the exchange reports, and whether or not the report is accepted, the order keeps
  its identity, its status only moves forward (a terminal status stays), and neither executed
  quantity nor cumulative quote quantity decreases.
\<close>

theorem apply_report_monotone:
  "let od' = snd (apply_report r now od) in
     order_identity od' = order_identity od \<and> o_status od \<le> o_status od'
     \<and> (o_status od' = o_status od \<or> can_transition (o_status od) (o_status od'))
     \<and> o_executed od \<le> o_executed od' \<and> o_cumquote od \<le> o_cumquote od'"
proof (cases rule: apply_report_cases [of r od now])
  case conflict
  obtain c od1 where a: "report_amounts r od = (c, od1)" by (cases "report_amounts r od")
  show ?thesis by (simp add: conflict a report_amounts_eq [OF a] order_identity_def)
next
  case (normal c od1 st rej ta c2 od2)
  note am = report_amounts_eq [OF normal(2)] and bk = report_bookkeeping_eq [OF normal(4)]
  have "o_status od \<le> st"
    unfolding normal(3) by (auto simp: less_eq_order_status_def transition_rank)
  then show ?thesis
    by (simp add: normal(7) bk am order_identity_def) (simp add: normal(3))
qed

text \<open>
  A report raises exactly when it contradicts a terminal order: the local order was rejected
  as not found and the exchange now knows it, or both sides are terminal and disagree. Every
  other report, however old or out of order, is absorbed.
\<close>

theorem apply_report_raises_iff:
  "(\<exists>e. fst (apply_report r now od) = Inl e) \<longleftrightarrow> conflicts r od"
  by (rule apply_report_cases [of r od now]) auto

lemma apply_report_result:
  assumes "\<not> conflicts r od"
  obtains ch od' where "apply_report r now od = (Inr ch, od')"
    "o_status od' = (if can_transition (o_status od) (r_status r) then r_status r else o_status od)"
    "o_executed od' = max (o_executed od) (r_executed r)"
    "o_cumquote od' = max (o_cumquote od) (r_cumquote r)"
proof (cases rule: apply_report_cases [of r od now])
  case conflict
  then show ?thesis using assms by simp
next
  case (normal c od1 st rej ta c2 od2)
  note am = report_amounts_eq [OF normal(2)] and bk = report_bookkeeping_eq [OF normal(4)]
  show ?thesis
    by (rule that [OF normal(7)]) (simp_all add: bk am, simp add: normal(3))
qed

text \<open>
  Applying a report that was accepted a second time, at any later moment, reports "nothing
  changed" and leaves the order exactly as it was.
\<close>

theorem apply_report_idempotent:
  assumes "apply_report r now od = (Inr ch, od')"
  shows "apply_report r now2 od' = (Inr False, od')"
proof (cases rule: apply_report_cases [of r od now])
  case conflict
  then show ?thesis using assms by simp
next
  case (normal c od1 st rej ta c2 od2)
  have od': "od' = od2" using assms normal(7) by simp
  note am = report_amounts_eq [OF normal(2)] and bk = report_bookkeeping_eq [OF normal(4)]
  have amounts: "report_amounts r od2 = (False, od2)"
  proof -
    obtain c3 od3 where a: "report_amounts r od2 = (c3, od3)" by (cases "report_amounts r od2")
    have "\<not> c3" unfolding report_amounts_eq(20) [OF a] by (simp add: bk am)
    then show ?thesis using a report_amounts_eq(19) [OF a] by simp
  qed
  have st: "o_status od2 = st" "o_reject od2 = rej" by (simp_all add: bk)
  have nc: "\<not> conflicts r od2"
    using normal(1) transition_rank [of "o_status od" "r_status r"] rank_le [of "r_status r"]
    by (auto simp: conflicts_def st normal(3,6) terminal_rank)
  have nt: "\<not> can_transition (o_status od2) (r_status r)"
    using transition_rank [of "r_status r" "r_status r"] by (auto simp: st normal(3))
  have s: "report_status r now2 False od2 = (Inr False, od2)"
    by (simp add: report_status_cases nc nt)
  have b: "report_bookkeeping r now2 False od2 = (False, od2)"
    by (rule report_bookkeeping_again [OF normal(4)])
  show ?thesis
    unfolding od' apply_report_def amounts Let_def prod.case by (simp add: bindE_apply s b)
qed

section \<open>Order of arrival does not matter\<close>

text \<open>\<open>apply_reports\<close>: the reports of one order in the order in which they reach the engine, each
  with the moment it is applied.\<close>

definition apply_reports :: "(report \<times> time) list \<Rightarrow> (order, unit) eff" where
  "apply_reports rs = forE rs (\<lambda>(r, now). thenE (apply_report r now) (ret ()))"

lemma apply_reports_Nil: "apply_reports [] od = (Inr (), od)"
  by (simp add: apply_reports_def)

lemma apply_reports_Cons:
  assumes "apply_report r now od = (Inr ch, od')"
  shows "apply_reports ((r, now) # rs) od = apply_reports rs od'"
  by (simp add: apply_reports_def thenE_def bindE_apply assms)

text \<open>
  Along one history the exchange reports at most one terminal status \<open>t\<close> (not REJECTED: a
  rejected order was never accepted, so nothing else is reported of it). Then the status is
  determined by its rank, and a report moves the order exactly when its rank is higher.
\<close>

definition history_status :: "order_status \<Rightarrow> order_status \<Rightarrow> bool" where
  "history_status t s \<longleftrightarrow> s \<in> {NEW, PARTIALLY_FILLED, t}"

lemma history_step:
  assumes t: "t \<in> {FILLED, CANCELED, EXPIRED}"
    and s: "o_status od = SUBMITTING \<or> history_status t (o_status od)" and n: "history_status t (r_status r)"
  shows "\<not> conflicts r od"
    and "can_transition (o_status od) (r_status r) \<longleftrightarrow> rank (o_status od) < rank (r_status r)"
  using assms by (auto simp: history_status_def conflicts_def can_transition_def)

lemma history_rank_inj:
  assumes "t \<in> {FILLED, CANCELED, EXPIRED}" "s = SUBMITTING \<or> history_status t s"
    "s' = SUBMITTING \<or> history_status t s'" "rank s = rank s'"
  shows "s = s'"
  using assms by (auto simp: history_status_def)

lemma apply_reports_history:
  assumes t: "t \<in> {FILLED, CANCELED, EXPIRED}"
  shows "o_status od = SUBMITTING \<or> history_status t (o_status od) \<Longrightarrow>
    \<forall>(r, now)\<in>set rs. history_status t (r_status r) \<Longrightarrow>
    \<exists>od'. apply_reports rs od = (Inr (), od')
      \<and> (o_status od' = SUBMITTING \<or> history_status t (o_status od'))
      \<and> rank (o_status od') = Max (insert (rank (o_status od)) ((\<lambda>(r, _). rank (r_status r)) ` set rs))
      \<and> o_executed od' = Max (insert (o_executed od) ((\<lambda>(r, _). r_executed r) ` set rs))
      \<and> o_cumquote od' = Max (insert (o_cumquote od) ((\<lambda>(r, _). r_cumquote r) ` set rs))"
proof (induction rs arbitrary: od)
  case Nil
  then show ?case by (simp add: apply_reports_Nil)
next
  case (Cons x rs)
  obtain r now where x: "x = (r, now)" by (cases x)
  have n: "history_status t (r_status r)" using Cons.prems(2) by (auto simp: x)
  note hs = history_step [OF t Cons.prems(1) n]
  obtain ch od1 where a: "apply_report r now od = (Inr ch, od1)"
    "o_status od1 = (if can_transition (o_status od) (r_status r) then r_status r else o_status od)"
    "o_executed od1 = max (o_executed od) (r_executed r)" "o_cumquote od1 = max (o_cumquote od) (r_cumquote r)"
    by (rule apply_report_result [OF hs(1)])
  have s1: "o_status od1 = SUBMITTING \<or> history_status t (o_status od1)"
    using Cons.prems(1) n by (simp add: a(2))
  have r1: "rank (o_status od1) = max (rank (o_status od)) (rank (r_status r))"
    by (simp add: a(2) hs(2))
  obtain od' where od': "apply_reports rs od1 = (Inr (), od')"
    "o_status od' = SUBMITTING \<or> history_status t (o_status od')"
    "rank (o_status od') = Max (insert (rank (o_status od1)) ((\<lambda>(r, _). rank (r_status r)) ` set rs))"
    "o_executed od' = Max (insert (o_executed od1) ((\<lambda>(r, _). r_executed r) ` set rs))"
    "o_cumquote od' = Max (insert (o_cumquote od1) ((\<lambda>(r, _). r_cumquote r) ` set rs))"
    using Cons.IH [OF s1] Cons.prems(2) by auto
  have mx: "Max (insert (max a b) (f ` set rs)) = Max (insert a (insert b (f ` set rs)))"
    for a b and f :: "report \<times> time \<Rightarrow> 'c :: linorder"
    by (cases "set rs = {}") (simp_all add: max.assoc)
  show ?case
    unfolding x apply_reports_Cons [OF a(1)]
    using od' by (intro exI [of _ od']) (simp add: r1 a(3,4) mx)
qed

text \<open>
  C15: reports of an order that arrive in another order, or more than once, lead to the same
  status, executed quantity and cumulative quote quantity; none of them raises.
\<close>

theorem reports_any_order:
  assumes "t \<in> {FILLED, CANCELED, EXPIRED}" and "o_status od = SUBMITTING"
    and "\<forall>(r, now)\<in>set rs. r_status r \<in> {NEW, PARTIALLY_FILLED, t}"
    and "fst ` set rs = fst ` set rs'"
  shows "\<exists>od1 od2. apply_reports rs od = (Inr (), od1) \<and> apply_reports rs' od = (Inr (), od2)
    \<and> o_status od1 = o_status od2 \<and> o_executed od1 = o_executed od2 \<and> o_cumquote od1 = o_cumquote od2"
proof -
  have img: "(\<lambda>(r, _). f r) ` set rs = (\<lambda>(r, _). f r) ` set rs'" for f :: "report \<Rightarrow> 'c"
  proof -
    have "(\<lambda>(r, _ :: time). f r) ` A = f ` fst ` A" for A by force
    then show ?thesis by (simp add: assms(4))
  qed
  have h: "\<forall>(r, now)\<in>set rs. history_status t (r_status r)"
    using assms(3) by (auto simp: history_status_def)
  have "fst x \<in> fst ` set rs" if "x \<in> set rs'" for x using that assms(4) by auto
  then have h': "\<forall>(r, now)\<in>set rs'. history_status t (r_status r)"
    using h by (auto simp: image_iff) (metis (no_types, lifting) case_prodD fst_conv prod.collapse)
  have s: "o_status od = SUBMITTING \<or> history_status t (o_status od)" using assms(2) by simp
  obtain od1 where 1: "apply_reports rs od = (Inr (), od1)"
    "o_status od1 = SUBMITTING \<or> history_status t (o_status od1)"
    "rank (o_status od1) = Max (insert (rank (o_status od)) ((\<lambda>(r, _). rank (r_status r)) ` set rs))"
    "o_executed od1 = Max (insert (o_executed od) ((\<lambda>(r, _). r_executed r) ` set rs))"
    "o_cumquote od1 = Max (insert (o_cumquote od) ((\<lambda>(r, _). r_cumquote r) ` set rs))"
    using apply_reports_history [OF assms(1) s h] by auto
  obtain od2 where 2: "apply_reports rs' od = (Inr (), od2)"
    "o_status od2 = SUBMITTING \<or> history_status t (o_status od2)"
    "rank (o_status od2) = Max (insert (rank (o_status od)) ((\<lambda>(r, _). rank (r_status r)) ` set rs'))"
    "o_executed od2 = Max (insert (o_executed od) ((\<lambda>(r, _). r_executed r) ` set rs'))"
    "o_cumquote od2 = Max (insert (o_cumquote od) ((\<lambda>(r, _). r_cumquote r) ` set rs'))"
    using apply_reports_history [OF assms(1) s h'] by auto
  have "o_status od1 = o_status od2"
    by (rule history_rank_inj [OF assms(1) 1(2) 2(2)]) (simp add: 1(3) 2(3) img)
  then show ?thesis using 1 2 by (auto simp: img)
qed

section \<open>Client order ids\<close>

text \<open>
  With a hexadecimal SHA-256 digest the client order id has at most 36 characters, all of
  them letters, digits or hyphens, and starts with the cleaned prefix of the configuration.
\<close>

theorem make_client_order_id_shape:
  assumes "length (sha i) = 64" and "\<forall>c\<in>set (sha i). isalnum c"
  shows "length (make_client_order_id sha prefix i) \<le> 36
    \<and> (\<forall>c\<in>set (make_client_order_id sha prefix i). isalnum c \<or> c = CHR ''-'')
    \<and> startswith (make_client_order_id sha prefix i)
        ((if safe_prefix prefix = [] then ''cb'' else safe_prefix prefix) @ ''-'')"
proof -
  let ?p = "if safe_prefix prefix = [] then ''cb'' else safe_prefix prefix"
  have p: "make_client_order_id sha prefix i = ?p @ ''-'' @ take (35 - length ?p) (sha i)"
    by (simp add: make_client_order_id_def Let_def)
  have len: "length ?p \<le> 8" by (simp add: safe_prefix_def)
  have "\<forall>c\<in>set (safe_prefix prefix). isalnum c"
    by (auto simp: safe_prefix_def dest!: in_set_takeD)
  moreover have "\<forall>c\<in>set ''cb''. isalnum c" by code_simp
  ultimately have "\<forall>c\<in>set ?p. isalnum c" by auto
  then show ?thesis
    unfolding p using len assms(2) startswith_append [of "?p @ ''-''"]
    by (auto dest: in_set_takeD)
qed

section \<open>Rounding quantities and prices to exchange steps\<close>

text \<open>
  Exchange steps are powers of ten. On them the division in \<open>floor_to_step\<close> is exact, so the
  method really rounds down, and to the nearest multiple below.
\<close>

lemma representable_div_pow10:
  "representable 10 28 v \<Longrightarrow> representable 10 28 (v / 10 powi k)"
  unfolding representable_def
  by (metis (no_types, opaque_lifting) add_diff_cancel_left' diff_add_cancel of_int_numeral
      power_int_diff times_divide_eq_right zero_neq_numeral)

lemma pow10_pos: "0 < (10 :: rat) powi k"
  by simp

lemma representable_floor:
  assumes "representable 10 28 v" and "0 \<le> v"
  shows "representable 10 28 (of_int \<lfloor>v\<rfloor>)"
proof -
  obtain m e where v: "v = of_int m * 10 powi e" and m: "\<bar>m\<bar> \<le> 10 ^ 28"
    using assms(1) by (auto simp: representable_def)
  show ?thesis
  proof (cases "0 \<le> e")
    case True
    then have "v = of_int (m * 10 ^ nat e)" by (simp add: v power_int_def)
    then show ?thesis using assms(1) by (simp only: floor_of_int)
  next
    case False
    then have "(10 :: rat) powi e \<le> 1" using power_int_increasing [of e 0 "10 :: rat"] by simp
    moreover have "0 \<le> m" using assms(2) pow10_pos [of e] by (auto simp: v zero_le_mult_iff)
    ultimately have "v \<le> of_int m" using mult_left_mono [of "10 powi e" 1 "of_int m :: rat"] by (simp add: v)
    then have "\<lfloor>v\<rfloor> \<le> m" "0 \<le> \<lfloor>v\<rfloor>" using assms(2) by linarith+
    then have "\<bar>\<lfloor>v\<rfloor>\<bar> \<le> 10 ^ 28" using m by linarith
    then show ?thesis unfolding representable_def by (intro exI [of _ "\<lfloor>v\<rfloor>"] exI [of _ 0]) simp
  qed
qed

lemma dec_round_representable: "dec_round v = v \<longleftrightarrow> representable 10 28 v"
  using round_sig_exact [of 10 28 v] round_sig_representable [of 10 28 v]
  by (auto simp: dec_round_def)

lemma floor_to_step_exact:
  assumes "0 \<le> v" and "dec_round v = v"
  shows "floor_to_step v (10 powi k) = of_int \<lfloor>v / 10 powi k\<rfloor> * 10 powi k"
proof -
  let ?q = "v / 10 powi k :: rat"
  have q: "representable 10 28 ?q" "0 \<le> ?q"
    using assms by (simp_all add: dec_round_representable representable_div_pow10)
  have d: "ddiv v (10 powi k) = ?q" using q(1) by (simp add: ddiv_def dec_round_representable)
  have "representable 10 28 (of_int \<lfloor>?q\<rfloor> * 10 powi k)"
    using representable_div_pow10 [OF representable_floor [OF q], of "- k"]
    by (simp add: power_int_minus field_simps)
  then show ?thesis
    using q(2) pow10_pos [of k, folded not_le]
    by (simp only: floor_to_step_def d round_down_int_def dmul_def dec_round_representable if_True if_False)
qed

text \<open>
  A non-negative quantity or price that fits the decimal context is rounded to a multiple
  of the step, downwards, by less than one step.
\<close>

theorem floor_to_step_floors:
  assumes "0 \<le> v" and "dec_round v = v" and "step = 10 powi k"
  shows "\<exists>n :: int. floor_to_step v step = of_int n * step
    \<and> 0 \<le> floor_to_step v step \<and> floor_to_step v step \<le> v \<and> v < floor_to_step v step + step"
proof -
  let ?q = "v / 10 powi k :: rat"
  have e: "floor_to_step v step = of_int \<lfloor>?q\<rfloor> * step"
    unfolding assms(3) by (rule floor_to_step_exact [OF assms(1,2)])
  have s: "0 < step" using pow10_pos [of k] by (simp add: assms(3))
  have "of_int \<lfloor>?q\<rfloor> \<le> ?q" "?q < of_int \<lfloor>?q\<rfloor> + 1" by linarith+
  then have "of_int \<lfloor>?q\<rfloor> * step \<le> ?q * step" "?q * step < (of_int \<lfloor>?q\<rfloor> + 1) * step"
    using mult_right_mono [OF _ less_imp_le [OF s]] mult_strict_right_mono [OF _ s] by blast+
  then have "of_int \<lfloor>?q\<rfloor> * step \<le> v" "v < (of_int \<lfloor>?q\<rfloor> + 1) * step"
    by (simp_all add: assms(3))
  moreover have "0 \<le> of_int \<lfloor>?q\<rfloor> * step" using assms(1) s by simp
  ultimately show ?thesis unfolding e by (auto simp: distrib_right)
qed

text \<open>
  Outside these conditions the method can round up: a value that needs more than 28 digits in
  units of the step is rounded to the next integer by the division first.
\<close>

lemma floor_to_step_can_exceed:
  "dec_round 3000000000000000000000000002 = 3000000000000000000000000002
   \<and> floor_to_step 3000000000000000000000000002 3 = 3000000000000000000000000003"
  by code_simp

section \<open>The properties at concrete inputs\<close>

definition demo_order :: order where
  "demo_order = \<lparr>o_bot = ''b'', o_exchange = ''binance'', o_symbol = ''BTC/USDT'', o_side = BUY,
     o_type = MARKET, o_purpose = ENTRY, o_coid = ''cb1-x'', o_intent = ''i1'', o_requested = 1,
     o_status = SUBMITTING, o_id = 1, o_exid = None, o_executed = 0, o_cumquote = 0, o_avg = None,
     o_limit = None, o_stop = None, o_ref = Some 100, o_ambiguous = False, o_reject = None,
     o_submitted = Some 0, o_acked = None, o_last_update = None, o_last_update_ms = None,
     o_terminal_at = None, o_raw = [], o_version = 0\<rparr>"

definition demo_report :: "order_status \<Rightarrow> rat \<Rightarrow> rat \<Rightarrow> int \<Rightarrow> report" where
  "demo_report st executed quote ms =
     \<lparr>r_coid = ''cb1-x'', r_symbol = ''BTC/USDT'', r_side = BUY, r_type = MARKET, r_status = st,
      r_orig_qty = 1, r_executed = executed, r_cumquote = quote, r_exid = Some ''42'', r_price = None,
      r_stop = None, r_update_ms = Some ms, r_reject = None, r_raw = [(''apiKey'', JStr ''k'')]\<rparr>"

theorem apply_report_idempotent_witness:
  "\<exists>od'. apply_report (demo_report FILLED 1 100 5) 7 demo_order = (Inr True, od')
     \<and> apply_report (demo_report FILLED 1 100 5) 9 od' = (Inr False, od')
     \<and> o_status od' = FILLED \<and> o_executed od' = 1"
proof -
  let ?r = "demo_report FILLED 1 100 5" and ?x = "apply_report (demo_report FILLED 1 100 5) 7 demo_order"
  have "fst ?x = Inr True \<and> o_status (snd ?x) = FILLED \<and> o_executed (snd ?x) = 1" by code_simp
  then have x: "?x = (Inr True, snd ?x)" and s: "o_status (snd ?x) = FILLED" "o_executed (snd ?x) = 1"
    by (auto simp: prod_eq_iff)
  show ?thesis using x s apply_report_idempotent [OF x, of 9] by blast
qed

theorem reports_any_order_witness:
  "\<exists>od1 od2. apply_reports [(demo_report NEW 0 0 1, 1), (demo_report PARTIALLY_FILLED (1/2) 50 2, 2),
        (demo_report FILLED 1 101 3, 3)] demo_order = (Inr (), od1)
     \<and> apply_reports [(demo_report FILLED 1 101 3, 1), (demo_report NEW 0 0 1, 2),
        (demo_report PARTIALLY_FILLED (1/2) 50 2, 3), (demo_report NEW 0 0 1, 9)] demo_order = (Inr (), od2)
     \<and> o_status od1 = o_status od2 \<and> o_executed od1 = o_executed od2 \<and> o_cumquote od1 = o_cumquote od2"
  by (rule reports_any_order [of FILLED]) (auto simp: demo_order_def demo_report_def)

theorem make_client_order_id_shape_witness:
  "length (make_client_order_id (\<lambda>_. replicate 64 (CHR ''a'')) ''cb_1'' ''bot:i'') \<le> 36
   \<and> startswith (make_client_order_id (\<lambda>_. replicate 64 (CHR ''a'')) ''cb_1'' ''bot:i'') ''cb1-''"
proof -
  have "length (replicate 64 (CHR ''a'')) = 64" "\<forall>c\<in>set (replicate 64 (CHR ''a'')). isalnum c"
    by (simp, code_simp)
  moreover have "safe_prefix ''cb_1'' = ''cb1''" by code_simp
  ultimately show ?thesis
    using make_client_order_id_shape [of "\<lambda>_. replicate 64 (CHR ''a'')" "''bot:i''" "''cb_1''"] by simp
qed

theorem floor_to_step_floors_witness:
  "\<exists>n :: int. floor_to_step (123456789 / 1000000) (1 / 1000) = of_int n * (1 / 1000)
    \<and> 0 \<le> floor_to_step (123456789 / 1000000) (1 / 1000)
    \<and> floor_to_step (123456789 / 1000000) (1 / 1000) \<le> 123456789 / 1000000
    \<and> 123456789 / 1000000 < floor_to_step (123456789 / 1000000) (1 / 1000) + 1 / 1000"
proof -
  have r: "dec_round (123456789 / 1000000) = 123456789 / 1000000" by code_simp
  have p: "(1 / 1000 :: rat) = 10 powi (- 3)" by (simp add: power_int_def power_divide)
  show ?thesis using floor_to_step_floors [OF _ r p] by simp
qed

end
