(* ===== verification/Texts.thy ===== *)
theory Texts
  imports Domain
begin

text \<open>
  Numbers as text, as Python reads and writes them: \<^verbatim>\<open>int(s)\<close>, \<^verbatim>\<open>float(s)\<close> and \<^verbatim>\<open>Decimal(s)\<close> on
  settings and exchange payloads, and the formats of order parameters, messages and version tags
  (\<^verbatim>\<open>format(d, "f")\<close>, \<^verbatim>\<open>:.2f\<close>, \<^verbatim>\<open>:+.2f\<close>, \<^verbatim>\<open>:g\<close>). The texts \<open>inf\<close> and \<open>nan\<close>, which Python also reads,
  have no rational value: reading them is the error \<open>non_finite\<close> here. The lemmas show that what is
  written reads back as the same number.
\<close>

section \<open>Reading\<close>

definition is_digit :: "char \<Rightarrow> bool" where
  "is_digit c \<longleftrightarrow> char_between (CHR ''0'') (CHR ''9'') c"

definition digit_val :: "char \<Rightarrow> int" where
  "digit_val c = int (of_char c) - 48"

definition digits_val :: "string \<Rightarrow> int" where
  "digits_val s = foldl (\<lambda>n c. 10 * n + digit_val c) 0 s"

text \<open>Underscores are allowed one at a time between digits.\<close>

fun ungroup :: "bool \<Rightarrow> string \<Rightarrow> string option" where
  "ungroup after [] = Some []"
| "ungroup after (c # cs) =
     (if c = CHR ''_'' then
        (case cs of [] \<Rightarrow> None | d # _ \<Rightarrow> if after \<and> is_digit d then ungroup False cs else None)
      else map_option ((#) c) (ungroup (is_digit c) cs))"

definition split_sign :: "string \<Rightarrow> int \<times> string" where
  "split_sign s = (case s of [] \<Rightarrow> (1, [])
     | c # cs \<Rightarrow> if c = CHR ''-'' then (- 1, cs) else if c = CHR ''+'' then (1, cs) else (1, s))"

definition parse_int :: "string \<Rightarrow> int option" where
  "parse_int s = (let (sg, ds) = split_sign s in
     if ds \<noteq> [] \<and> list_all is_digit ds then Some (sg * digits_val ds) else None)"

definition quoted :: "string \<Rightarrow> string" where
  "quoted s = [CHR 0x27] @ s @ [CHR 0x27]"

definition invalid_int :: "string \<Rightarrow> exn" where
  "invalid_int s = ValueError (''invalid literal for int() with base 10: '' @ quoted s)"

definition py_int :: "string \<Rightarrow> exn + int" where
  "py_int s = (case Option.bind (ungroup False (strip s)) parse_int of
     None \<Rightarrow> Inl (invalid_int s) | Some n \<Rightarrow> Inr n)"

text \<open>The part of a numeral before the exponent: digits with at most one point and at least one digit.\<close>

definition parse_mantissa :: "string \<Rightarrow> rat option" where
  "parse_mantissa s = (let a = takeWhile is_digit s; rest = dropWhile is_digit s in
     case rest of
       [] \<Rightarrow> if a = [] then None else Some (of_int (digits_val a))
     | c # b \<Rightarrow> if c = CHR ''.'' \<and> list_all is_digit b \<and> (a \<noteq> [] \<or> b \<noteq> [])
         then Some (of_int (digits_val (a @ b)) / 10 ^ length b) else None)"

definition parse_number :: "string \<Rightarrow> rat option" where
  "parse_number s = (let (sg, body) = split_sign s;
       m = takeWhile (\<lambda>c. c \<noteq> CHR ''e'' \<and> c \<noteq> CHR ''E'') body;
       rest = dropWhile (\<lambda>c. c \<noteq> CHR ''e'' \<and> c \<noteq> CHR ''E'') body in
     case parse_mantissa m of
       None \<Rightarrow> None
     | Some x \<Rightarrow> (case rest of
         [] \<Rightarrow> Some (of_int sg * x)
       | _ # ex \<Rightarrow> (case parse_int ex of None \<Rightarrow> None | Some e \<Rightarrow> Some (of_int sg * x * 10 powi e))))"

definition is_non_finite :: "string \<Rightarrow> bool" where
  "is_non_finite s \<longleftrightarrow> lower (snd (split_sign s)) \<in> set [''inf'', ''infinity'', ''nan'']"

definition non_finite :: exn where
  "non_finite = Other ''non-finite number''"

definition py_float :: "string \<Rightarrow> exn + rat" where
  "py_float s = (let t = strip s in if is_non_finite t then Inl non_finite else
     case Option.bind (ungroup False t) parse_number of
       None \<Rightarrow> Inl (ValueError (''could not convert string to float: '' @ quoted s))
     | Some x \<Rightarrow> Inr (flt_round x))"

text \<open>\<^verbatim>\<open>Decimal(text)\<close> is exact; it drops underscores wherever they stand.\<close>

definition invalid_decimal :: exn where
  "invalid_decimal = Other ''decimal.InvalidOperation''"

definition py_dec :: "string \<Rightarrow> exn + rat" where
  "py_dec s = (let t = filter (\<lambda>c. c \<noteq> CHR ''_'') (strip s) in if is_non_finite t then Inl non_finite else
     case parse_number t of None \<Rightarrow> Inl invalid_decimal | Some x \<Rightarrow> Inr x)"

section \<open>Writing\<close>

text \<open>\<^verbatim>\<open>:.kf\<close> and \<^verbatim>\<open>:+.kf\<close>: the nearest number with \<open>k\<close> decimals, ties to the even one.\<close>

definition fixed :: "nat \<Rightarrow> rat \<Rightarrow> string" where
  "fixed k x = (let n = half_even (\<bar>x\<bar> * 10 ^ k) in
     (if x < 0 then ''-'' else []) @ str_int (n div 10 ^ k)
     @ (if k = 0 then [] else ''.'' @ pad k (n mod 10 ^ k)))"

definition signed :: "nat \<Rightarrow> rat \<Rightarrow> string" where
  "signed k x = (if x < 0 then [] else ''+'') @ fixed k x"

text \<open>
  The number of decimals of an exact decimal, and its text without trailing zeros,
  \<^verbatim>\<open>format(d.normalize(), "f")\<close>. A 28-digit decimal of the engine has far fewer than 400 decimals.
\<close>

definition decimals :: "rat \<Rightarrow> nat" where
  "decimals x = (case find (\<lambda>k. of_int \<lfloor>x * 10 ^ k\<rfloor> = x * 10 ^ k) [0..<400] of Some k \<Rightarrow> k | None \<Rightarrow> 400)"

definition dec_text :: "rat \<Rightarrow> string" where
  "dec_text x = fixed (decimals x) x"

text \<open>\<^verbatim>\<open>:g\<close>: six significant digits, trailing zeros dropped, an exponent outside the range -4 to 5.\<close>

definition text_g :: "rat \<Rightarrow> string" where
  "text_g x = (let y = round_sig 10 6 x; e = sig_exp 10 1 y in
     if y = 0 then ''0''
     else if - 4 \<le> e \<and> e < 6 then dec_text y
     else dec_text (y / 10 powi e) @ ''e'' @ (if e < 0 then ''-'' else ''+'') @ pad 2 \<bar>e\<bar>)"

text \<open>\<^verbatim>\<open>str(x)\<close> of a float and \<^verbatim>\<open>round(x, k)\<close> on floats.\<close>

definition float_text :: "rat \<Rightarrow> string" where
  "float_text x = (let y = py_repr x; e = sig_exp 10 1 y in
     if y = 0 then ''0.0''
     else if - 4 \<le> e \<and> e < 16 then dec_text y @ (if decimals y = 0 then ''.0'' else [])
     else dec_text (y / 10 powi e) @ ''e'' @ (if e < 0 then ''-'' else ''+'') @ pad 2 \<bar>e\<bar>)"

definition fround :: "nat \<Rightarrow> rat \<Rightarrow> rat" where
  "fround k x = flt_round (of_int (half_even (x * 10 ^ k)) / 10 ^ k)"

section \<open>What is written reads back\<close>

lemma digit_char_props: "0 \<le> n \<Longrightarrow> n < 10 \<Longrightarrow> is_digit (digit_char n) \<and> digit_val (digit_char n) = n"
proof -
  assume n: "0 \<le> n" "n < 10"
  then have "n = 0 \<or> n = 1 \<or> n = 2 \<or> n = 3 \<or> n = 4 \<or> n = 5 \<or> n = 6 \<or> n = 7 \<or> n = 8 \<or> n = 9" by arith
  then show ?thesis by (auto simp: digit_char_def is_digit_def digit_val_def char_between_def)
qed

lemma digits_val_append:
  "digits_val (a @ b) = digits_val a * 10 ^ length b + digits_val b"
proof (induction b rule: rev_induct)
  case (snoc c b)
  have "digits_val (xs @ [d]) = 10 * digits_val xs + digit_val d" for xs d by (simp add: digits_val_def)
  from this [of "a @ b"] this [of b] show ?case using snoc by (simp add: algebra_simps)
qed (simp add: digits_val_def)

lemma str_nat_digits:
  "0 \<le> n \<Longrightarrow> list_all is_digit (str_nat_aux n) \<and> digits_val (str_nat_aux n) = n \<and> str_nat_aux n \<noteq> []"
proof (induction n rule: str_nat_aux.induct)
  case (1 n)
  show ?case
  proof (cases "n < 10")
    case True
    then show ?thesis using 1(2) digit_char_props [of n]
      by (subst (1 2 3) str_nat_aux.simps) (simp add: digits_val_def)
  next
    case False
    have "list_all is_digit (str_nat_aux (n div 10)) \<and> digits_val (str_nat_aux (n div 10)) = n div 10"
      using 1(1) [OF False] 1(2) by simp
    moreover have "is_digit (digit_char (n mod 10))" "digit_val (digit_char (n mod 10)) = n mod 10"
      using digit_char_props [of "n mod 10"] by simp_all
    ultimately show ?thesis using False
      by (subst (1 2 3) str_nat_aux.simps) (simp add: digits_val_append, simp add: digits_val_def)
  qed
qed

text \<open>Texts of digits, a sign and a point pass the stages of the readers unchanged.\<close>

definition num_char :: "char \<Rightarrow> bool" where
  "num_char c \<longleftrightarrow> is_digit c \<or> c = CHR ''-'' \<or> c = CHR ''.''"

lemma num_char_not:
  "num_char c \<Longrightarrow> \<not> is_space c \<and> c \<noteq> CHR ''_'' \<and> c \<noteq> CHR ''e'' \<and> c \<noteq> CHR ''E'' \<and> c \<noteq> CHR ''+''"
  by (auto simp: num_char_def is_digit_def is_space_def char_between_def)

lemma num_text:
  assumes "list_all num_char s"
  shows "strip s = s" "filter (\<lambda>c. c \<noteq> CHR ''_'') s = s" "ungroup b s = Some s"
    "takeWhile (\<lambda>c. c \<noteq> CHR ''e'' \<and> c \<noteq> CHR ''E'') s = s" "dropWhile (\<lambda>c. c \<noteq> CHR ''e'' \<and> c \<noteq> CHR ''E'') s = []"
proof -
  have *: "\<not> is_space c \<and> c \<noteq> CHR ''_'' \<and> c \<noteq> CHR ''e'' \<and> c \<noteq> CHR ''E''" if "c \<in> set s" for c
    using assms that num_char_not by (auto simp: list_all_iff)
  have dw: "dropWhile is_space t = t" if "set t = set s" for t
    using * that by (cases t) auto
  note d = dw [OF refl]
  have "dropWhile is_space (rev s) = rev s" by (rule dw) simp
  then show "strip s = s" by (simp add: strip_def d)
  show "filter (\<lambda>c. c \<noteq> CHR ''_'') s = s" using * by (simp add: filter_id_conv)
  show "takeWhile (\<lambda>c. c \<noteq> CHR ''e'' \<and> c \<noteq> CHR ''E'') s = s" using * by (simp add: takeWhile_eq_all_conv)
  show "dropWhile (\<lambda>c. c \<noteq> CHR ''e'' \<and> c \<noteq> CHR ''E'') s = []" using * by (simp add: dropWhile_eq_Nil_conv)
  show "ungroup b s = Some s" using * by (induction s arbitrary: b) auto
qed

lemma not_non_finite: "list_all num_char s \<Longrightarrow> \<not> is_non_finite s"
proof
  assume s: "list_all num_char s" and "is_non_finite s"
  have "lower t \<in> set [''inf'', ''infinity'', ''nan''] \<Longrightarrow> \<not> list_all num_char t" for t
    by (cases t) (auto simp: lower_def num_char_def is_digit_def char_between_def split: if_splits)
  moreover have "list_all num_char (snd (split_sign s))"
    using s by (auto simp: split_sign_def split: list.split)
  ultimately show False using \<open>is_non_finite s\<close> by (auto simp: is_non_finite_def)
qed

lemma str_int_nonneg: "0 \<le> n \<Longrightarrow> str_int n = str_nat_aux n"
  by (simp add: str_int_def)

lemma digits_num: "list_all is_digit s \<Longrightarrow> list_all num_char s"
  by (auto simp: list_all_iff num_char_def)

lemma split_sign_digits:
  assumes "list_all is_digit s" "s \<noteq> []"
  shows "split_sign s = (1, s)" "split_sign (s @ t) = (1, s @ t)" "split_sign (CHR ''-'' # s) = (- 1, s)"
proof -
  obtain c cs where s: "s = c # cs" using assms(2) by (cases s) auto
  then have "c \<noteq> CHR ''-'' \<and> c \<noteq> CHR ''+''" using assms(1) by (auto simp: is_digit_def char_between_def)
  then show "split_sign s = (1, s)" "split_sign (s @ t) = (1, s @ t)" by (simp_all add: split_sign_def s)
  show "split_sign (CHR ''-'' # s) = (- 1, s)" by (simp add: split_sign_def)
qed

text \<open>An integer setting or identifier that is written as text reads back as the same integer.\<close>

lemma py_int_str_int: "py_int (str_int n) = Inr n"
proof (cases "n < 0")
  case True
  let ?s = "str_nat_aux (- n)"
  have s: "list_all is_digit ?s" "digits_val ?s = - n" "?s \<noteq> []" using str_nat_digits [of "- n"] True by simp_all
  have "list_all num_char (CHR ''-'' # ?s)" using digits_num [OF s(1)] by (simp add: num_char_def)
  then show ?thesis
    using True s split_sign_digits(3) [OF s(1,3)] by (simp add: py_int_def num_text parse_int_def str_int_def)
next
  case False
  then have s: "list_all is_digit (str_nat_aux n)" "digits_val (str_nat_aux n) = n" "str_nat_aux n \<noteq> []"
    using str_nat_digits [of n] by simp_all
  show ?thesis using False s split_sign_digits(1) [OF s(1,3)] num_text [OF digits_num [OF s(1)]]
    by (simp add: py_int_def parse_int_def str_int_def)
qed

lemma pad_digits:
  assumes "0 \<le> n" "n < 10 ^ k" "0 < k"
  shows "list_all is_digit (pad k n)" "digits_val (pad k n) = n" "length (pad k n) = k"
proof -
  let ?s = "str_nat_aux n"
  have s: "list_all is_digit ?s" "digits_val ?s = n" "?s \<noteq> []" using str_nat_digits [OF assms(1)] by simp_all
  have len: "length (str_nat_aux m) \<le> j" if "0 \<le> m" "m < 10 ^ j" "0 < j" for m j
    using that
  proof (induction m arbitrary: j rule: str_nat_aux.induct)
    case (1 m)
    show ?case
    proof (cases "m < 10")
      case False
      obtain i where j: "j = Suc i" using 1(4) by (cases j) auto
      have i: "0 < i" using False 1(3) j by (cases i) auto
      have "m div 10 < 10 ^ i" using 1(3) j by (simp add: div_less_iff_less_mult)
      then have "length (str_nat_aux (m div 10)) \<le> i" using 1(1) [OF False] 1(2) i by simp
      then show ?thesis using False j by (subst str_nat_aux.simps) simp
    qed (use 1(4) in \<open>subst str_nat_aux.simps, simp\<close>)
  qed
  have l: "length ?s \<le> k" using len [OF assms] .
  have z: "digits_val (replicate j (CHR ''0'')) = 0" for j
  proof (induction j)
    case (Suc j)
    then show ?case using digits_val_append [of "[CHR ''0'']" "replicate j (CHR ''0'')"]
      by (simp add: digits_val_def digit_val_def)
  qed (simp add: digits_val_def)
  have p: "pad k n = replicate (k - length ?s) (CHR ''0'') @ ?s"
    using assms(1) by (simp add: pad_def str_int_def Let_def)
  show "list_all is_digit (pad k n)" using s(1) by (auto simp: p list_all_iff is_digit_def char_between_def)
  show "digits_val (pad k n) = n" using s(2) by (simp add: p digits_val_append z)
  show "length (pad k n) = k" using l by (simp add: p)
qed

lemma parse_fixed:
  assumes x: "\<bar>x\<bar> * 10 ^ k = of_int n"
  shows "list_all num_char (fixed k x)" "parse_number (fixed k x) = Some x"
proof -
  have n0: "0 \<le> n" using x by (metis abs_ge_zero mult_nonneg_nonneg of_int_0_le_iff zero_le_numeral zero_le_power)
  define i where "i = n div 10 ^ k"
  define body where "body = str_int i @ (if k = 0 then [] else ''.'' @ pad k (n mod 10 ^ k))"
  have f: "fixed k x = (if x < 0 then ''-'' else []) @ body" by (simp add: fixed_def x Let_def body_def i_def)
  have i0: "0 \<le> i" using n0 by (simp add: i_def pos_imp_zdiv_nonneg_iff)
  have s: "list_all is_digit (str_int i)" "digits_val (str_int i) = i" "str_int i \<noteq> []"
    using str_nat_digits [OF i0] i0 by (simp_all add: str_int_def)
  have m: "parse_mantissa body = Some \<bar>x\<bar>" and bnum: "list_all num_char body"
  proof -
    have tw: "takeWhile is_digit (str_int i @ r) = str_int i @ takeWhile is_digit r"
      "dropWhile is_digit (str_int i @ r) = dropWhile is_digit r" for r
      using s(1) by (simp_all add: list_all_iff)
    have "parse_mantissa body = Some \<bar>x\<bar> \<and> list_all num_char body"
    proof (cases "k = 0")
      case True
      then have n: "body = str_int n" "i = n" "\<bar>x\<bar> = of_int n" using x by (simp_all add: body_def i_def)
      have "takeWhile is_digit (str_int n) = str_int n" "dropWhile is_digit (str_int n) = []"
        using tw [of "[]"] n by simp_all
      then show ?thesis using s n digits_num [OF s(1)]
        by (simp add: parse_mantissa_def del: takeWhile_eq_all_conv dropWhile_eq_Nil_conv)
    next
      case False
      let ?p = "pad k (n mod 10 ^ k)"
      have p: "list_all is_digit ?p" "digits_val ?p = n mod 10 ^ k" "length ?p = k"
        using pad_digits [of "n mod 10 ^ k" k] False by simp_all
      have b: "body = str_int i @ CHR ''.'' # ?p" using False by (simp add: body_def)
      have dot: "\<not> is_digit (CHR ''.'')" by (simp add: is_digit_def char_between_def)
      have v: "digits_val (str_int i @ ?p) = n"
        using p s by (simp add: digits_val_append i_def mult.commute)
      have "of_int n / 10 ^ k = \<bar>x\<bar>" using x by (metis nonzero_mult_div_cancel_right power_not_zero zero_neq_numeral)
      then show ?thesis
        using p v dot s digits_num [OF s(1)] digits_num [OF p(1)]
        by (simp add: parse_mantissa_def b tw num_char_def)
    qed
    then show "parse_mantissa body = Some \<bar>x\<bar>" "list_all num_char body" by auto
  qed
  show num: "list_all num_char (fixed k x)" using bnum by (simp add: f num_char_def)
  have sg: "split_sign (fixed k x) = (if x < 0 then - 1 else 1, body)"
  proof (cases "x < 0")
    case True
    then show ?thesis by (simp add: f split_sign_def)
  next
    case False
    then have "fixed k x = body" by (simp add: f)
    then show ?thesis using False split_sign_digits(2) [OF s(1,3)] by (simp add: body_def)
  qed
  show "parse_number (fixed k x) = Some x"
    using m num_text(4,5) [OF bnum] by (simp add: parse_number_def sg del: takeWhile_eq_all_conv dropWhile_eq_Nil_conv)
qed

text \<open>
  An exact decimal, such as an order's quantity or price, is sent to the exchange as a text that
  reads back as exactly this number.
\<close>

theorem py_dec_dec_text:
  assumes "k < 400" "x * 10 ^ k = of_int n"
  shows "py_dec (dec_text x) = Inr x"
proof -
  let ?P = "\<lambda>k. of_int \<lfloor>x * 10 ^ k\<rfloor> = x * 10 ^ k"
  obtain j where j: "find ?P [0..<400] = Some j"
    using assms by (cases "find ?P [0..<400]") (auto simp: find_None_iff)
  then have "?P j" by (auto dest: find_SomeD)
  then have "\<bar>x\<bar> * 10 ^ j = of_int \<bar>\<lfloor>x * 10 ^ j\<rfloor>\<bar>"
    by (metis abs_mult abs_of_nonneg of_int_abs zero_le_numeral zero_le_power)
  note p = parse_fixed [OF this]
  have "dec_text x = fixed j x" unfolding dec_text_def decimals_def j by (simp only: option.case)
  then show ?thesis using p not_non_finite [OF p(1)] num_text [OF p(1)] by (simp add: py_dec_def)
qed

theorem py_dec_dec_text_witness: "py_dec (dec_text (- (123 / 1000))) = Inr (- (123 / 1000))"
  by (rule py_dec_dec_text [of 3 _ "- 123"]) simp_all

end
