(* ===== verification/Store.thy ===== *)
theory Store
  imports Domain
begin

text \<open>
  The durable ledger: \<^verbatim>\<open>engine/infrastructure/store.py\<close>. Every table of the SQLite schema is a
  list of rows in insertion order (ids come from AUTOINCREMENT, so this is also id order); the
  UNIQUE constraints are the conditions under which an INSERT is ignored or raises; the foreign keys
  are not checked (the engine inserts an order with its intent and a fill of an order it has read). A row holds
  what the engine reads back; the audit columns \<^verbatim>\<open>created_at\<close>, \<^verbatim>\<open>sent_at\<close> and the
  \<^verbatim>\<open>updated_at\<close> of orders and of the key-value table are not kept. Datetimes are stored as ISO
  text and decimals as their digits; the rows here keep the values, and Sql_Rows proves that the
  text columns hold them and that comparing texts is comparing times. JSON columns keep their values.

  \<open>'x world\<close> is the state all services work on: the ledger, the nesting depth of the thread's
  transaction, the injected clock (\<^verbatim>\<open>clock.now\<close>, which is also the clock given to the store), and
  the outside world \<open>'x\<close> an executor talks to.
\<close>

section \<open>Tables and state\<close>

record mismatch =
  mm_kind :: string
  mm_severity :: severity
  mm_coid :: "string option"
  mm_detail :: "(string \<times> jval) list"
  mm_resolved :: bool

record recon_run =
  rr_id :: int
  rr_key :: string
  rr_bot :: string
  rr_reason :: string
  rr_status :: string
  rr_started :: time
  rr_finished :: time
  rr_summary :: "(string \<times> jval) list"
  rr_mismatches :: "mismatch list"

datatype outbox_status = PENDING | SENT | DEAD

record outbox_row =
  ob_id :: int
  ob_kind :: string
  ob_key :: string
  ob_payload :: "(string \<times> jval) list"
  ob_status :: outbox_status
  ob_attempts :: int
  ob_next :: time
  ob_error :: "string option"

record news_row =
  nw_seen :: time
  nw_published :: "string option"
  nw_source :: "string option"
  nw_title :: string
  nw_sentiment :: rat
  nw_key :: string

record ledger =
  d_intents :: "intent list"
  d_orders :: "order list"
  d_next_order :: int
  d_fills :: "fill list"
  d_next_fill :: int
  d_positions :: "position list"
  d_processed :: "(string \<times> string \<times> string option \<times> time) list"
  d_recon :: "recon_state list"
  d_runs :: "recon_run list"
  d_next_run :: int
  d_outbox :: "outbox_row list"
  d_next_outbox :: int
  d_kv :: "(string \<times> jval) list"
  d_leases :: "(string \<times> string \<times> time) list"
  d_news :: "news_row list"

definition empty_ledger :: ledger where
  "empty_ledger = \<lparr>d_intents = [], d_orders = [], d_next_order = 1, d_fills = [], d_next_fill = 1,
     d_positions = [], d_processed = [], d_recon = [], d_runs = [], d_next_run = 1, d_outbox = [],
     d_next_outbox = 1, d_kv = [], d_leases = [], d_news = []\<rparr>"

record 'x world =
  db :: ledger
  depth :: nat
  clk :: time
  ext :: 'x

definition db_get :: "(ledger \<Rightarrow> 'a) \<Rightarrow> ('x world, 'a) eff" where
  "db_get f = getE (\<lambda>w. f (db w))"

definition db_upd :: "(ledger \<Rightarrow> ledger) \<Rightarrow> ('x world, unit) eff" where
  "db_upd f = updE (\<lambda>w. w\<lparr>db := f (db w)\<rparr>)"

definition now :: "('x world, time) eff" where
  "now = getE clk"

section \<open>Transactions\<close>

definition in_transaction :: "'x world \<Rightarrow> bool" where
  "in_transaction w \<longleftrightarrow> 0 < depth w"

text \<open>
  \<^verbatim>\<open>Store.transaction\<close>: re-entrant within a thread. Only the outermost block commits or rolls
  back; an exception that leaves an inner block keeps what the block wrote, for the outer block
  to commit or undo. Nothing outside the ledger is undone.
\<close>

definition transaction :: "('x world, 'a) eff \<Rightarrow> ('x world, 'a) eff" where
  "transaction m w =
     (let d = depth w; (r, w') = m (w\<lparr>depth := d + 1\<rparr>)
      in case r of
           Inr a \<Rightarrow> (Inr a, w'\<lparr>depth := d\<rparr>)
         | Inl e \<Rightarrow> (Inl e, if d = 0 then w'\<lparr>depth := d, db := db w\<rparr> else w'\<lparr>depth := d\<rparr>))"

section \<open>Intents and orders\<close>

text \<open>\<open>INSERT INTO orders\<close> writes the columns it names; the others start from their defaults.\<close>

definition order_row :: "order \<Rightarrow> int \<Rightarrow> order" where
  "order_row od i = od\<lparr>o_id := i, o_exid := None, o_executed := 0, o_cumquote := 0, o_avg := None,
     o_ambiguous := False, o_reject := None, o_submitted := None, o_acked := None, o_last_update := None,
     o_last_update_ms := None, o_terminal_at := None, o_raw := [], o_version := 0\<rparr>"

definition insert_intent_and_order :: "intent \<Rightarrow> order \<Rightarrow> ('x world, bool \<times> order) eff" where
  "insert_intent_and_order it od = transaction
     (bindE (db_get id) (\<lambda>d.
        if oi_id it \<in> oi_id ` set (d_intents d) then ret (False, od)
        else thenE (db_upd (\<lambda>d. d\<lparr>d_intents := d_intents d @ [it]\<rparr>))
          (if o_coid od \<in> o_coid ` set (d_orders d) \<or> o_intent od \<in> o_intent ` set (d_orders d)
           then raise (IntegrityError ''UNIQUE constraint failed: orders'')
           else let i = d_next_order d in
             thenE (db_upd (\<lambda>d. d\<lparr>d_orders := d_orders d @ [order_row od i], d_next_order := i + 1\<rparr>))
               (ret (True, od\<lparr>o_id := i\<rparr>)))))"

text \<open>\<open>UPDATE orders SET ... WHERE id=? AND version=?\<close>: the columns of the statement, taken from the object.\<close>

definition update_row :: "order \<Rightarrow> order \<Rightarrow> order" where
  "update_row od row = row\<lparr>o_exid := o_exid od, o_executed := o_executed od, o_cumquote := o_cumquote od,
     o_avg := o_avg od, o_status := o_status od, o_ambiguous := o_ambiguous od, o_reject := o_reject od,
     o_submitted := o_submitted od, o_acked := o_acked od, o_last_update := o_last_update od,
     o_last_update_ms := o_last_update_ms od, o_terminal_at := o_terminal_at od, o_raw := o_raw od,
     o_version := o_version row + 1\<rparr>"

definition same_row :: "order \<Rightarrow> order \<Rightarrow> bool" where
  "same_row od row \<longleftrightarrow> o_id row = o_id od \<and> o_version row = o_version od"

definition exid_taken :: "order \<Rightarrow> order list \<Rightarrow> bool" where
  "exid_taken od rows \<longleftrightarrow> o_exid od \<noteq> None
     \<and> (\<exists>row\<in>set rows. same_row od row \<and>
          (\<exists>r\<in>set rows. o_id r \<noteq> o_id od \<and> o_exchange r = o_exchange row \<and> o_exid r = o_exid od))"

definition save_order :: "order \<Rightarrow> ('x world, order) eff" where
  "save_order od = transaction
     (bindE (db_get d_orders) (\<lambda>rows.
        if exid_taken od rows
        then raise (IntegrityError ''UNIQUE constraint failed: orders.exchange, orders.exchange_order_id'')
        else if \<not> (\<exists>row\<in>set rows. same_row od row)
        then raise (ConcurrentModification (''order '' @ o_coid od @ '' changed concurrently''))
        else thenE (db_upd (\<lambda>d. d\<lparr>d_orders := map (\<lambda>row. if same_row od row then update_row od row else row) rows\<rparr>))
               (ret (od\<lparr>o_version := o_version od + 1\<rparr>))))"

definition get_order :: "string \<Rightarrow> ('x world, order option) eff" where
  "get_order coid = db_get (\<lambda>d. find (\<lambda>od. o_coid od = coid) (d_orders d))"

definition get_order_by_intent :: "string \<Rightarrow> ('x world, order option) eff" where
  "get_order_by_intent i = db_get (\<lambda>d. find (\<lambda>od. o_intent od = i) (d_orders d))"

definition intent_signal_id :: "string \<Rightarrow> ('x world, string option) eff" where
  "intent_signal_id i = db_get (\<lambda>d. case find (\<lambda>it. oi_id it = i) (d_intents d) of
     None \<Rightarrow> None | Some it \<Rightarrow> oi_signal_id it)"

definition get_order_by_exchange_id :: "string \<Rightarrow> string \<Rightarrow> ('x world, order option) eff" where
  "get_order_by_exchange_id exchange x =
     db_get (\<lambda>d. find (\<lambda>od. o_exchange od = exchange \<and> o_exid od = Some x) (d_orders d))"

definition non_terminal_orders :: "string \<Rightarrow> string option \<Rightarrow> ('x world, order list) eff" where
  "non_terminal_orders botid symbol = db_get (\<lambda>d.
     filter (\<lambda>od. o_bot od = botid \<and> o_status od \<notin> set TERMINAL_STATUSES
        \<and> (truthy symbol \<longrightarrow> Some (o_symbol od) = symbol)) (d_orders d))"

definition list_orders :: "string \<Rightarrow> string option \<Rightarrow> nat \<Rightarrow> ('x world, order list) eff" where
  "list_orders botid symbol limit = db_get (\<lambda>d.
     take limit (rev (filter (\<lambda>od. o_bot od = botid \<and> (truthy symbol \<longrightarrow> Some (o_symbol od) = symbol))
       (d_orders d))))"

section \<open>Fills\<close>

definition fill_taken :: "fill \<Rightarrow> ledger \<Rightarrow> bool" where
  "fill_taken f d \<longleftrightarrow> (\<exists>g\<in>set (d_fills d). f_key g = f_key f
     \<or> (f_trade_id f \<noteq> None \<and> f_order_id g = f_order_id f \<and> f_trade_id g = f_trade_id f))"

definition insert_fill :: "fill \<Rightarrow> ('x world, bool) eff" where
  "insert_fill f = transaction
     (bindE (db_get id) (\<lambda>d.
        if fill_taken f d then ret False
        else thenE (db_upd (\<lambda>d. d\<lparr>d_fills := d_fills d @ [f\<lparr>f_id := d_next_fill d\<rparr>],
                                   d_next_fill := d_next_fill d + 1\<rparr>)) (ret True)))"

definition fill_exists :: "string \<Rightarrow> ('x world, bool) eff" where
  "fill_exists key = db_get (\<lambda>d. key \<in> f_key ` set (d_fills d))"

text \<open>\<open>... JOIN orders o ON o.id=f.order_id WHERE ... ORDER BY f.execution_time, f.id\<close>\<close>

definition fills_of :: "string \<Rightarrow> string \<Rightarrow> ledger \<Rightarrow> fill list" where
  "fills_of botid symbol d = sort_key f_time (filter (\<lambda>f. f_symbol f = symbol
     \<and> (\<exists>od\<in>set (d_orders d). o_id od = f_order_id f \<and> o_bot od = botid)) (d_fills d))"

definition list_fills :: "string \<Rightarrow> string \<Rightarrow> ('x world, fill list) eff" where
  "list_fills botid symbol = db_get (fills_of botid symbol)"

definition fills_for_order :: "int \<Rightarrow> ('x world, fill list) eff" where
  "fills_for_order i = db_get (\<lambda>d. filter (\<lambda>f. f_order_id f = i) (d_fills d))"

section \<open>Positions\<close>

definition position_of :: "string \<Rightarrow> string \<Rightarrow> ledger \<Rightarrow> position" where
  "position_of botid symbol d =
     (case find (\<lambda>p. p_bot p = botid \<and> p_symbol p = symbol) (d_positions d) of
        None \<Rightarrow> new_position botid symbol | Some p \<Rightarrow> p)"

definition get_position :: "string \<Rightarrow> string \<Rightarrow> ('x world, position) eff" where
  "get_position botid symbol = db_get (position_of botid symbol)"

definition list_positions :: "string \<Rightarrow> ('x world, position list) eff" where
  "list_positions botid = db_get (\<lambda>d. filter (\<lambda>p. p_bot p = botid) (d_positions d))"

text \<open>\<open>INSERT ... ON CONFLICT (key) DO UPDATE\<close>\<close>

fun upsert :: "('r \<Rightarrow> 'k) \<Rightarrow> 'r \<Rightarrow> 'r list \<Rightarrow> 'r list" where
  "upsert k r [] = [r]"
| "upsert k r (x # xs) = (if k x = k r then r # xs else x # upsert k r xs)"

definition position_key :: "position \<Rightarrow> string \<times> string" where
  "position_key p = (p_bot p, p_symbol p)"

definition save_position :: "position \<Rightarrow> ('x world, position) eff" where
  "save_position p = bindE now (\<lambda>t. let p' = p\<lparr>p_updated := Some t\<rparr> in
     thenE (transaction (db_upd (\<lambda>d. d\<lparr>d_positions := upsert position_key p' (d_positions d)\<rparr>))) (ret p'))"

section \<open>Processed events\<close>

definition mark_event_processed :: "string \<Rightarrow> string \<Rightarrow> string option \<Rightarrow> ('x world, bool) eff" where
  "mark_event_processed key source event_type = transaction
     (bindE (db_get d_processed) (\<lambda>rows. bindE now (\<lambda>t.
        if key \<in> fst ` set rows then ret False
        else thenE (db_upd (\<lambda>d. d\<lparr>d_processed := d_processed d @ [(key, source, event_type, t)]\<rparr>)) (ret True))))"

section \<open>Reconciliation state and runs\<close>

definition recon_state_of :: "string \<Rightarrow> ledger \<Rightarrow> recon_state" where
  "recon_state_of botid d = (case find (\<lambda>st. rs_bot st = botid) (d_recon d) of
     None \<Rightarrow> \<lparr>rs_bot = botid, rs_status = CONNECTING, rs_reason = ''never reconciled'', rs_updated = None,
              rs_last_success = None, rs_ws_connected = False, rs_last_ws_event = None, rs_last_ack = None\<rparr>
   | Some st \<Rightarrow> st)"

definition get_recon_state :: "string \<Rightarrow> ('x world, recon_state) eff" where
  "get_recon_state botid = db_get (recon_state_of botid)"

definition save_recon_state :: "recon_state \<Rightarrow> ('x world, unit) eff" where
  "save_recon_state st = bindE now (\<lambda>t. transaction
     (db_upd (\<lambda>d. d\<lparr>d_recon := upsert rs_bot (st\<lparr>rs_updated := Some t\<rparr>) (d_recon d)\<rparr>)))"

definition record_recon_run ::
  "string \<Rightarrow> string \<Rightarrow> string \<Rightarrow> string \<Rightarrow> time \<Rightarrow> (string \<times> jval) list \<Rightarrow> mismatch list \<Rightarrow> ('x world, int) eff" where
  "record_recon_run key botid reason status started summary mms = transaction
     (bindE (db_get id) (\<lambda>d. bindE now (\<lambda>t.
        if key \<in> rr_key ` set (d_runs d)
        then raise (IntegrityError ''UNIQUE constraint failed: reconciliation_runs.run_key'')
        else let i = d_next_run d in
          thenE (db_upd (\<lambda>d. d\<lparr>d_runs := d_runs d @ [\<lparr>rr_id = i, rr_key = key, rr_bot = botid, rr_reason = reason,
               rr_status = status, rr_started = started, rr_finished = t, rr_summary = summary,
               rr_mismatches = mms\<rparr>], d_next_run := i + 1\<rparr>)) (ret i))))"

definition open_mismatch_count :: "string \<Rightarrow> ('x world, nat) eff" where
  "open_mismatch_count botid = db_get (\<lambda>d.
     case rev (filter (\<lambda>r. rr_bot r = botid) (d_runs d)) of
       [] \<Rightarrow> 0
     | r # _ \<Rightarrow> length (filter (\<lambda>m. \<not> mm_resolved m \<and> mm_severity m = CRITICAL) (rr_mismatches r)))"

section \<open>Outbox\<close>

definition enqueue :: "string \<Rightarrow> string \<Rightarrow> (string \<times> jval) list \<Rightarrow> ('x world, bool) eff" where
  "enqueue kind key payload = bindE now (\<lambda>t. transaction
     (bindE (db_get id) (\<lambda>d.
        if key \<in> ob_key ` set (d_outbox d) then ret False
        else let i = d_next_outbox d in
          thenE (db_upd (\<lambda>d. d\<lparr>d_outbox := d_outbox d @ [\<lparr>ob_id = i, ob_kind = kind, ob_key = key,
               ob_payload = payload, ob_status = PENDING, ob_attempts = 0, ob_next = t, ob_error = None\<rparr>],
               d_next_outbox := i + 1\<rparr>)) (ret True))))"

definition pending_outbox :: "nat \<Rightarrow> ('x world, outbox_row list) eff" where
  "pending_outbox limit = bindE now (\<lambda>t. db_get (\<lambda>d.
     take limit (filter (\<lambda>r. ob_status r = PENDING \<and> ob_next r \<le> t) (d_outbox d))))"

definition upd_outbox :: "int \<Rightarrow> (outbox_row \<Rightarrow> outbox_row) \<Rightarrow> ledger \<Rightarrow> ledger" where
  "upd_outbox i f d = d\<lparr>d_outbox := map (\<lambda>r. if ob_id r = i then f r else r) (d_outbox d)\<rparr>"

definition mark_outbox_sent :: "int \<Rightarrow> ('x world, unit) eff" where
  "mark_outbox_sent i = transaction (db_upd (upd_outbox i (\<lambda>r. r\<lparr>ob_status := SENT\<rparr>)))"

definition mark_outbox_failed :: "int \<Rightarrow> string \<Rightarrow> time \<Rightarrow> bool \<Rightarrow> ('x world, unit) eff" where
  "mark_outbox_failed i err next_at dead = transaction (db_upd (upd_outbox i
     (\<lambda>r. r\<lparr>ob_attempts := ob_attempts r + 1, ob_error := Some (take 500 err), ob_next := next_at,
            ob_status := (if dead then DEAD else PENDING)\<rparr>)))"

definition outbox_backlog :: "('x world, nat) eff" where
  "outbox_backlog = db_get (\<lambda>d. length (filter (\<lambda>r. ob_status r = PENDING) (d_outbox d)))"

section \<open>Leases, key-value table, news archive\<close>

definition acquire_lease :: "string \<Rightarrow> string \<Rightarrow> int \<Rightarrow> ('x world, bool) eff" where
  "acquire_lease name owner ttl = bindE now (\<lambda>t. transaction
     (bindE (db_get d_leases) (\<lambda>ls.
        case map_of ls name of
          Some (holder, expires) \<Rightarrow>
            if holder \<noteq> owner \<and> t < expires then ret False
            else thenE (db_upd (\<lambda>d. d\<lparr>d_leases := AList.update name (owner, t + seconds ttl) (d_leases d)\<rparr>)) (ret True)
        | None \<Rightarrow>
            thenE (db_upd (\<lambda>d. d\<lparr>d_leases := AList.update name (owner, t + seconds ttl) (d_leases d)\<rparr>)) (ret True))))"

definition release_lease :: "string \<Rightarrow> string \<Rightarrow> ('x world, unit) eff" where
  "release_lease name owner = transaction
     (db_upd (\<lambda>d. d\<lparr>d_leases := filter (\<lambda>(n, o', _). \<not> (n = name \<and> o' = owner)) (d_leases d)\<rparr>))"

definition kv_get :: "string \<Rightarrow> ('x world, jval option) eff" where
  "kv_get k = db_get (\<lambda>d. map_of (d_kv d) k)"

definition kv_set :: "string \<Rightarrow> jval \<Rightarrow> ('x world, unit) eff" where
  "kv_set k v = transaction (db_upd (\<lambda>d. d\<lparr>d_kv := AList.update k v (d_kv d)\<rparr>))"

text \<open>
  \<open>record_news\<close> keeps each headline once. \<open>sha\<close> is the SHA-256 hex digest and \<open>score\<close> the
  sentiment scorer; a headline is its title, publication text and source, each possibly absent.
\<close>

record headline =
  h_title :: "string option"
  h_published :: "string option"
  h_source :: "string option"

text \<open>The text of \<^verbatim>\<open>item.get(key, '')\<close> in an f-string: an absent key is empty.\<close>

definition news_key :: "(string \<Rightarrow> string) \<Rightarrow> headline \<Rightarrow> string \<Rightarrow> string" where
  "news_key sha h title = sha (or_empty (h_source h) @ ''|'' @ or_empty (h_published h) @ ''|'' @ title)"

definition record_news :: "(string \<Rightarrow> string) \<Rightarrow> (string \<Rightarrow> rat) \<Rightarrow> headline list \<Rightarrow> time \<Rightarrow> ('x world, nat) eff" where
  "record_news sha score items seen_at = transaction (foldE (\<lambda>h new.
     let title = strip (or_empty (h_title h)) in
     if title = [] then ret new
     else let key = news_key sha h title in
       bindE (db_get d_news) (\<lambda>rows.
         if key \<in> nw_key ` set rows then ret new
         else thenE (db_upd (\<lambda>d. d\<lparr>d_news := d_news d @ [\<lparr>nw_seen = seen_at, nw_published = h_published h,
                nw_source = h_source h, nw_title = take 500 title, nw_sentiment = score title, nw_key = key\<rparr>]\<rparr>))
              (ret (new + 1)))) items 0)"

definition news_count :: "('x world, nat) eff" where
  "news_count = db_get (\<lambda>d. length (d_news d))"

end
