(* ===== verification/Ledger.thy ===== *)
theory Ledger
  imports Store
begin

text \<open>
  What the store promises its clients. Relations between the ledger before and after a call are
  lifted to whole calls through transactions (locale \<open>ledger_preorder\<close>); the uniqueness
  constraints make up the invariant \<open>ledger_inv\<close>, which every operation keeps; and the
  "insert or ignore" operations share one contract, exactly-once insertion (locale
  \<open>insert_once\<close>), interpreted for fills, processed events and outbox messages.
\<close>

section \<open>Transactions and relations between ledgers\<close>

lemma transaction_depth: "depth (snd (transaction m w)) = depth w"
  by (auto simp: transaction_def Let_def split: prod.splits sum.splits)

lemma transaction_Inr:
  "m (w\<lparr>depth := depth w + 1\<rparr>) = (Inr a, w') \<Longrightarrow> transaction m w = (Inr a, w'\<lparr>depth := depth w\<rparr>)"
  by (simp add: transaction_def)

lemma transaction_Inl:
  "m (w\<lparr>depth := depth w + 1\<rparr>) = (Inl e, w') \<Longrightarrow>
   transaction m w = (Inl e, if depth w = 0 then w'\<lparr>depth := 0, db := db w\<rparr> else w'\<lparr>depth := depth w\<rparr>)"
  by (simp add: transaction_def)

text \<open>An outermost transaction that raises leaves the ledger as it was.\<close>

lemma transaction_rollback:
  "depth w = 0 \<Longrightarrow> transaction m w = (Inl e, w') \<Longrightarrow> db w' = db w"
  by (auto simp: transaction_def Let_def split: prod.splits sum.splits)

lemma db_get_apply [simp]: "db_get f w = (Inr (f (db w)), w)"
  by (simp add: db_get_def)

lemma db_upd_apply [simp]: "db_upd f w = (Inr (), w\<lparr>db := f (db w)\<rparr>)"
  by (simp add: db_upd_def)

lemma now_apply [simp]: "now w = (Inr (clk w), w)"
  by (simp add: now_def)

lemma bindE_db_get [simp]: "bindE (db_get f) h w = h (f (db w)) w"
  by (simp add: db_get_def)

lemma bindE_now [simp]: "bindE now h w = h (clk w) w"
  by (simp add: now_def)

lemma thenE_db_upd [simp]: "thenE (db_upd f) n w = n (w\<lparr>db := f (db w)\<rparr>)"
  by (simp add: db_upd_def)

text \<open>Transactions keep the nesting depth; so do calls built from them.\<close>

interpretation depth_preorder: step_preorder "\<lambda>w w' :: 'x world. depth w' = depth w"
  by unfold_locales auto

lemma keeps_transaction_depth [keeps_intros]: "keeps (\<lambda>w w'. depth w' = depth w) (transaction m)"
  by (rule keepsI) (rule transaction_depth)

locale ledger_preorder =
  fixes Q :: "ledger \<Rightarrow> ledger \<Rightarrow> bool"
  assumes Q_refl: "Q d d"
    and Q_trans: "Q d d' \<Longrightarrow> Q d' d'' \<Longrightarrow> Q d d''"
begin

lemma keeps_transaction [keeps_intros]:
  "keeps (\<lambda>w w'. Q (db w) (db w')) m \<Longrightarrow> keeps (\<lambda>w w'. Q (db w) (db w')) (transaction m)"
proof (rule keepsI)
  fix w
  assume m: "keeps (\<lambda>w w'. Q (db w) (db w')) m"
  obtain r w' where r: "m (w\<lparr>depth := depth w + 1\<rparr>) = (r, w')" by (cases "m (w\<lparr>depth := depth w + 1\<rparr>)")
  then have "Q (db w) (db w')" using keepsD [OF m r] by simp
  then show "Q (db w) (db (snd (transaction m w)))"
    using r by (cases r) (simp_all add: transaction_def Let_def Q_refl)
qed

lemma keeps_db_get [keeps_intros]: "keeps (\<lambda>w w'. Q (db w) (db w')) (db_get f)"
  by (simp add: keeps_def Q_refl)

lemma keeps_now [keeps_intros]: "keeps (\<lambda>w w'. Q (db w) (db w')) now"
  by (simp add: keeps_def Q_refl)

lemma keeps_db_upd [keeps_intros]: "(\<And>d. Q d (f d)) \<Longrightarrow> keeps (\<lambda>w w'. Q (db w) (db w')) (db_upd f)"
  by (simp add: keeps_def)

end

sublocale ledger_preorder \<subseteq> world: step_preorder "\<lambda>w w'. Q (db w) (db w')"
  by unfold_locales (auto intro: Q_refl Q_trans)

section \<open>The uniqueness invariant\<close>

text \<open>Ids handed out by AUTOINCREMENT: increasing along the table and below the next one.\<close>

definition fresh_ids :: "int list \<Rightarrow> int \<Rightarrow> bool" where
  "fresh_ids is n \<longleftrightarrow> sorted_wrt (<) is \<and> (\<forall>i\<in>set is. i < n)"

definition exids_unique :: "order list \<Rightarrow> bool" where
  "exids_unique rows \<longleftrightarrow> (\<forall>a\<in>set rows. \<forall>b\<in>set rows. o_exid a \<noteq> None \<longrightarrow> o_exid a = o_exid b
     \<longrightarrow> o_exchange a = o_exchange b \<longrightarrow> o_id a = o_id b)"

definition trades_unique :: "fill list \<Rightarrow> bool" where
  "trades_unique fs \<longleftrightarrow> (\<forall>f\<in>set fs. \<forall>g\<in>set fs. f_trade_id f \<noteq> None \<longrightarrow> f_trade_id f = f_trade_id g
     \<longrightarrow> f_order_id f = f_order_id g \<longrightarrow> f_key f = f_key g)"

lemma exids_uniqueI:
  "(\<And>a b x. a \<in> set rows \<Longrightarrow> b \<in> set rows \<Longrightarrow> o_exid a = Some x \<Longrightarrow> o_exid b = Some x \<Longrightarrow>
    o_exchange a = o_exchange b \<Longrightarrow> o_id a = o_id b) \<Longrightarrow> exids_unique rows"
  unfolding exids_unique_def by (metis not_Some_eq)

lemma exids_uniqueD:
  "exids_unique rows \<Longrightarrow> a \<in> set rows \<Longrightarrow> b \<in> set rows \<Longrightarrow> o_exid a = Some x \<Longrightarrow> o_exid b = Some x \<Longrightarrow>
   o_exchange a = o_exchange b \<Longrightarrow> o_id a = o_id b"
  unfolding exids_unique_def by (metis option.distinct(1))

lemma exids_unique_snoc: "exids_unique rows \<Longrightarrow> o_exid n = None \<Longrightarrow> exids_unique (rows @ [n])"
  by (rule exids_uniqueI) (auto dest: exids_uniqueD)

lemma trades_uniqueI:
  "(\<And>f g x. f \<in> set fs \<Longrightarrow> g \<in> set fs \<Longrightarrow> f_trade_id f = Some x \<Longrightarrow> f_trade_id g = Some x \<Longrightarrow>
    f_order_id f = f_order_id g \<Longrightarrow> f_key f = f_key g) \<Longrightarrow> trades_unique fs"
  unfolding trades_unique_def by (metis not_Some_eq)

lemma trades_uniqueD:
  "trades_unique fs \<Longrightarrow> f \<in> set fs \<Longrightarrow> g \<in> set fs \<Longrightarrow> f_trade_id f = Some x \<Longrightarrow> f_trade_id g = Some x \<Longrightarrow>
   f_order_id f = f_order_id g \<Longrightarrow> f_key f = f_key g"
  unfolding trades_unique_def by (metis option.distinct(1))

definition orders_inv :: "ledger \<Rightarrow> bool" where
  "orders_inv d \<longleftrightarrow> distinct (map oi_id (d_intents d)) \<and> fresh_ids (map o_id (d_orders d)) (d_next_order d)
     \<and> distinct (map o_coid (d_orders d)) \<and> distinct (map o_intent (d_orders d))
     \<and> o_intent ` set (d_orders d) \<subseteq> oi_id ` set (d_intents d)
     \<and> exids_unique (d_orders d)"

definition fills_inv :: "ledger \<Rightarrow> bool" where
  "fills_inv d \<longleftrightarrow> fresh_ids (map f_id (d_fills d)) (d_next_fill d) \<and> distinct (map f_key (d_fills d))
     \<and> trades_unique (d_fills d)"

definition tables_inv :: "ledger \<Rightarrow> bool" where
  "tables_inv d \<longleftrightarrow> distinct (map position_key (d_positions d)) \<and> distinct (map fst (d_processed d))
     \<and> distinct (map rs_bot (d_recon d)) \<and> distinct (map rr_key (d_runs d))
     \<and> fresh_ids (map ob_id (d_outbox d)) (d_next_outbox d) \<and> distinct (map ob_key (d_outbox d))
     \<and> distinct (map fst (d_kv d)) \<and> distinct (map fst (d_leases d)) \<and> distinct (map nw_key (d_news d))"

definition ledger_inv :: "ledger \<Rightarrow> bool" where
  "ledger_inv d \<longleftrightarrow> orders_inv d \<and> fills_inv d \<and> tables_inv d"

interpretation inv_keep: ledger_preorder "\<lambda>d d'. ledger_inv d \<longrightarrow> ledger_inv d'"
  by unfold_locales auto

lemma ledger_inv_empty: "ledger_inv empty_ledger"
  by (simp add: ledger_inv_def orders_inv_def fills_inv_def tables_inv_def fresh_ids_def exids_unique_def trades_unique_def empty_ledger_def)

lemma fresh_ids_snoc: "fresh_ids is n \<Longrightarrow> fresh_ids (is @ [n]) (n + 1)"
  by (auto simp: fresh_ids_def sorted_wrt_append)

lemma fresh_ids_distinct: "fresh_ids is n \<Longrightarrow> distinct is"
  by (auto simp: fresh_ids_def strict_sorted_iff)

lemma upsert_keys:
  "map k (upsert k r xs) = (if k r \<in> k ` set xs then map k xs else map k xs @ [k r])"
  by (induction xs) auto

lemma distinct_upsert: "distinct (map k xs) \<Longrightarrow> distinct (map k (upsert k r xs))"
  unfolding upsert_keys by auto

lemma find_upsert:
  "find (\<lambda>x. k x = v) (upsert k r xs) = (if k r = v then Some r else find (\<lambda>x. k x = v) xs)"
  by (induction xs) auto

lemma map_upd_key:
  "(\<And>r. k (f r) = k r) \<Longrightarrow> map k (map (\<lambda>r. if P r then f r else r) xs) = map k xs"
  by (induction xs) auto

text \<open>Two orders of a well-formed ledger with the same id, client id or intent are the same row.\<close>

lemma orders_unique:
  assumes "orders_inv d" "a \<in> set (d_orders d)" "b \<in> set (d_orders d)"
  shows "o_id a = o_id b \<Longrightarrow> a = b" "o_coid a = o_coid b \<Longrightarrow> a = b" "o_intent a = o_intent b \<Longrightarrow> a = b"
  using assms fresh_ids_distinct inj_on_key [of _ "d_orders d" a b] by (auto simp: orders_inv_def)

lemma get_order_unique:
  assumes "orders_inv d" "od \<in> set (d_orders d)"
  shows "find (\<lambda>r. o_coid r = o_coid od) (d_orders d) = Some od"
    and "find (\<lambda>r. o_intent r = o_intent od) (d_orders d) = Some od"
  using assms find_key_Some [of o_coid "d_orders d" od] find_key_Some [of o_intent "d_orders d" od]
  by (simp_all add: orders_inv_def)

section \<open>Every operation of the store keeps the invariant\<close>

abbreviation keeps_inv :: "('x world, 'a) eff \<Rightarrow> bool" where
  "keeps_inv \<equiv> keeps (\<lambda>w w'. ledger_inv (db w) \<longrightarrow> ledger_inv (db w'))"

lemma keeps_inv_step:
  "(\<And>w. ledger_inv (db w) \<Longrightarrow> ledger_inv (db (snd (m w)))) \<Longrightarrow> keeps_inv m"
  by (simp add: keeps_def)

lemma keeps_inv_upd: "(\<And>d. ledger_inv d \<Longrightarrow> ledger_inv (f d)) \<Longrightarrow> keeps_inv (db_upd f)"
  by (rule inv_keep.keeps_db_upd) simp

lemma inv_add_intent:
  assumes "ledger_inv d" "oi_id it \<notin> oi_id ` set (d_intents d)"
  shows "ledger_inv (d\<lparr>d_intents := d_intents d @ [it]\<rparr>)"
  using assms by (auto simp: ledger_inv_def orders_inv_def fills_inv_def tables_inv_def)

lemma inv_add_order:
  assumes inv: "ledger_inv d" and "o_coid od \<notin> o_coid ` set (d_orders d)"
    "o_intent od \<notin> o_intent ` set (d_orders d)" "o_intent od \<in> oi_id ` set (d_intents d)"
  shows "ledger_inv (d\<lparr>d_orders := d_orders d @ [order_row od (d_next_order d)], d_next_order := d_next_order d + 1\<rparr>)"
proof -
  let ?n = "order_row od (d_next_order d)"
  have n: "o_id ?n = d_next_order d" "o_coid ?n = o_coid od" "o_intent ?n = o_intent od" "o_exid ?n = None"
    by (simp_all add: order_row_def)
  have fr: "fresh_ids (map o_id (d_orders d) @ [d_next_order d]) (d_next_order d + 1)"
    using inv by (intro fresh_ids_snoc) (simp add: ledger_inv_def orders_inv_def)
  have ex: "exids_unique (d_orders d @ [?n])"
    using inv n(4) by (intro exids_unique_snoc) (simp_all add: ledger_inv_def orders_inv_def)
  let ?d = "d\<lparr>d_orders := d_orders d @ [?n], d_next_order := d_next_order d + 1\<rparr>"
  have old: "orders_inv d" "fills_inv d" "tables_inv d" using inv by (simp_all add: ledger_inv_def)
  have "fills_inv ?d" "tables_inv ?d" using old by (simp_all add: fills_inv_def tables_inv_def)
  moreover have "orders_inv ?d"
    unfolding orders_inv_def
  proof (intro conjI)
    show "exids_unique (d_orders ?d)" using ex by simp
    show "fresh_ids (map o_id (d_orders ?d)) (d_next_order ?d)" using fr n by simp
  qed (use old(1) assms n in \<open>simp_all add: orders_inv_def\<close>)
  ultimately show ?thesis by (simp add: ledger_inv_def)
qed

lemma keeps_inv_insert_intent:
  assumes "o_intent od = oi_id it"
  shows "keeps_inv (insert_intent_and_order it od)"
  unfolding insert_intent_and_order_def
proof (intro inv_keep.keeps_transaction keeps_inv_step)
  fix w :: "'x world"
  assume i: "ledger_inv (db w)"
  show "ledger_inv (db (snd (bindE (db_get id) (\<lambda>d.
        if oi_id it \<in> oi_id ` set (d_intents d) then ret (False, od)
        else thenE (db_upd (\<lambda>d. d\<lparr>d_intents := d_intents d @ [it]\<rparr>))
          (if o_coid od \<in> o_coid ` set (d_orders d) \<or> o_intent od \<in> o_intent ` set (d_orders d)
           then raise (IntegrityError ''UNIQUE constraint failed: orders'')
           else let i = d_next_order d in
             thenE (db_upd (\<lambda>d. d\<lparr>d_orders := d_orders d @ [order_row od i], d_next_order := i + 1\<rparr>))
               (ret (True, od\<lparr>o_id := i\<rparr>)))) w)))"
    using inv_add_intent [OF i, of it]
      inv_add_order [of "db w\<lparr>d_intents := d_intents (db w) @ [it]\<rparr>" od] i assms
    by (auto simp: Let_def)
qed

lemma order_row_update_keys:
  "map o_id (map (\<lambda>row. if P row then update_row od row else row) rows) = map o_id rows"
  "map o_coid (map (\<lambda>row. if P row then update_row od row else row) rows) = map o_coid rows"
  "map o_intent (map (\<lambda>row. if P row then update_row od row else row) rows) = map o_intent rows"
  by (auto simp: update_row_def)

lemma update_row_simps [simp]:
  "o_id (update_row od row) = o_id row" "o_coid (update_row od row) = o_coid row"
  "o_intent (update_row od row) = o_intent row" "o_exid (update_row od row) = o_exid od"
  "o_exchange (update_row od row) = o_exchange row" "o_bot (update_row od row) = o_bot row"
  "o_symbol (update_row od row) = o_symbol row" "o_status (update_row od row) = o_status od"
  "o_executed (update_row od row) = o_executed od" "o_cumquote (update_row od row) = o_cumquote od"
  by (simp_all add: update_row_def)

lemma inv_update_order:
  assumes "ledger_inv d" "\<not> exid_taken od (d_orders d)"
  shows "ledger_inv (d\<lparr>d_orders := map (\<lambda>row. if same_row od row then update_row od row else row) (d_orders d)\<rparr>)"
proof -
  let ?f = "\<lambda>row. if same_row od row then update_row od row else row"
  have keys: "o_intent ` ?f ` set (d_orders d) = o_intent ` set (d_orders d)"
    using arg_cong [OF order_row_update_keys(3) [of "same_row od" od "d_orders d"], of set]
    by (simp only: set_map)
  have inv: "exids_unique (d_orders d)" using assms(1) by (simp add: ledger_inv_def orders_inv_def)
  have clash: "o_id b = o_id a"
    if "a \<in> set (d_orders d)" "b \<in> set (d_orders d)" "same_row od a" "\<not> same_row od b"
      "o_exid od = Some x" "o_exid b = Some x" "o_exchange b = o_exchange a" for a b x
    using assms(2) that unfolding exid_taken_def same_row_def by force
  have exs: "exids_unique (map ?f (d_orders d))"
  proof (rule exids_uniqueI)
    fix a' b' x
    assume "a' \<in> set (map ?f (d_orders d))" "b' \<in> set (map ?f (d_orders d))"
      and x: "o_exid a' = Some x" "o_exid b' = Some x" "o_exchange a' = o_exchange b'"
    then obtain a b where ab: "a \<in> set (d_orders d)" "b \<in> set (d_orders d)" "a' = ?f a" "b' = ?f b" by auto
    have exch: "o_exchange b = o_exchange a" using x(3) ab(3,4) by (simp split: if_splits)
    consider "same_row od a" "same_row od b" | "same_row od a" "\<not> same_row od b"
      | "\<not> same_row od a" "same_row od b" | "\<not> same_row od a" "\<not> same_row od b" by blast
    then have "o_id a = o_id b"
    proof cases
      case 1
      then show ?thesis by (simp add: same_row_def)
    next
      case 2
      then have "o_id b = o_id a" using clash [OF ab(1,2) 2, of x] x exch by (simp add: ab(3,4))
      then show ?thesis by simp
    next
      case 3
      then show ?thesis using clash [OF ab(2,1) 3(2,1), of x] x exch by (simp add: ab(3,4))
    next
      case 4
      then show ?thesis using exids_uniqueD [OF inv ab(1,2), of x] x exch by (simp add: ab(3,4))
    qed
    then show "o_id a' = o_id b'" by (simp add: ab(3,4))
  qed
  let ?d = "d\<lparr>d_orders := map ?f (d_orders d)\<rparr>"
  have old: "orders_inv d" "fills_inv d" "tables_inv d" using assms(1) by (simp_all add: ledger_inv_def)
  have "fills_inv ?d" "tables_inv ?d" using old by (simp_all add: fills_inv_def tables_inv_def)
  moreover have "orders_inv ?d"
    unfolding orders_inv_def
  proof (intro conjI)
    show "exids_unique (d_orders ?d)" using exs by simp
    show "fresh_ids (map o_id (d_orders ?d)) (d_next_order ?d)"
      using old(1) order_row_update_keys(1) [of "same_row od" od] by (simp add: orders_inv_def del: map_map)
    show "distinct (map o_coid (d_orders ?d))"
      using old(1) order_row_update_keys(2) [of "same_row od" od] by (simp add: orders_inv_def del: map_map)
    show "distinct (map o_intent (d_orders ?d))"
      using old(1) order_row_update_keys(3) [of "same_row od" od] by (simp add: orders_inv_def del: map_map)
    show "o_intent ` set (d_orders ?d) \<subseteq> oi_id ` set (d_intents ?d)"
      using old(1) keys by (simp add: orders_inv_def del: image_image)
  qed (use old(1) in \<open>simp add: orders_inv_def\<close>)
  ultimately show ?thesis by (simp add: ledger_inv_def)
qed

lemma keeps_inv_save_order: "keeps_inv (save_order od)"
  unfolding save_order_def
  by (intro inv_keep.keeps_transaction keeps_inv_step) (auto intro: inv_update_order)

lemma inv_add_fill:
  assumes "ledger_inv d" "\<not> fill_taken f d"
  shows "ledger_inv (d\<lparr>d_fills := d_fills d @ [f\<lparr>f_id := d_next_fill d\<rparr>], d_next_fill := d_next_fill d + 1\<rparr>)"
proof -
  let ?d = "d\<lparr>d_fills := d_fills d @ [f\<lparr>f_id := d_next_fill d\<rparr>], d_next_fill := d_next_fill d + 1\<rparr>"
  have old: "orders_inv d" "fills_inv d" "tables_inv d" using assms(1) by (simp_all add: ledger_inv_def)
  have "orders_inv ?d" "tables_inv ?d" using old by (simp_all add: orders_inv_def tables_inv_def)
  moreover have "fresh_ids (map f_id (d_fills d) @ [d_next_fill d]) (d_next_fill d + 1)"
    using old(2) by (intro fresh_ids_snoc) (simp add: fills_inv_def)
  moreover have "f_key f \<notin> f_key ` set (d_fills d)" using assms(2) by (auto simp: fill_taken_def)
  moreover have "trades_unique (d_fills d @ [f\<lparr>f_id := d_next_fill d\<rparr>])"
    using old(2) assms(2)
    by (intro trades_uniqueI) (auto simp: fills_inv_def fill_taken_def dest: trades_uniqueD)
  ultimately show ?thesis using old by (simp add: ledger_inv_def fills_inv_def)
qed

lemma keeps_inv_insert_fill: "keeps_inv (insert_fill f)"
  unfolding insert_fill_def
  by (intro inv_keep.keeps_transaction keeps_inv_step) (auto intro: inv_add_fill)

lemma keeps_inv_tables:
  assumes "\<And>d. ledger_inv d \<Longrightarrow> orders_inv (f d) = orders_inv d"
    "\<And>d. ledger_inv d \<Longrightarrow> fills_inv (f d) = fills_inv d" "\<And>d. ledger_inv d \<Longrightarrow> tables_inv (f d)"
  shows "keeps_inv (db_upd f)"
  by (rule keeps_inv_upd) (use assms in \<open>auto simp: ledger_inv_def\<close>)

lemma keeps_inv_save_position: "keeps_inv (save_position p)"
  unfolding save_position_def Let_def
  by (intro inv_keep.world.keeps_bindE inv_keep.world.keeps_thenE inv_keep.keeps_transaction
      inv_keep.keeps_now inv_keep.world.keeps_ret keeps_inv_tables)
    (auto simp: ledger_inv_def orders_inv_def fills_inv_def tables_inv_def distinct_upsert)

lemma keeps_inv_mark_event: "keeps_inv (mark_event_processed key source ty)"
  unfolding mark_event_processed_def
  by (intro inv_keep.keeps_transaction keeps_inv_step)
    (auto simp: ledger_inv_def orders_inv_def fills_inv_def tables_inv_def)

lemma keeps_inv_save_recon: "keeps_inv (save_recon_state st)"
  unfolding save_recon_state_def
  by (intro inv_keep.world.keeps_bindE inv_keep.keeps_now inv_keep.keeps_transaction keeps_inv_tables)
    (auto simp: ledger_inv_def orders_inv_def fills_inv_def tables_inv_def distinct_upsert)

lemma keeps_inv_record_run: "keeps_inv (record_recon_run key b reason status started summary mms)"
  unfolding record_recon_run_def
  by (intro inv_keep.keeps_transaction keeps_inv_step)
    (auto simp: Let_def ledger_inv_def orders_inv_def fills_inv_def tables_inv_def)

lemma keeps_inv_enqueue: "keeps_inv (enqueue kind key payload)"
  unfolding enqueue_def
  by (intro inv_keep.world.keeps_bindE inv_keep.keeps_now inv_keep.keeps_transaction keeps_inv_step)
    (auto simp: Let_def ledger_inv_def orders_inv_def fills_inv_def tables_inv_def fresh_ids_snoc)

lemma upd_outbox_keys:
  "(\<And>r. ob_id (f r) = ob_id r \<and> ob_key (f r) = ob_key r) \<Longrightarrow> ledger_inv d \<Longrightarrow> ledger_inv (upd_outbox i f d)"
  using map_upd_key [of ob_id f "\<lambda>r. ob_id r = i"] map_upd_key [of ob_key f "\<lambda>r. ob_id r = i"]
  by (simp del: map_map add: upd_outbox_def ledger_inv_def orders_inv_def fills_inv_def tables_inv_def)

lemma keeps_inv_outbox_marks:
  "keeps_inv (mark_outbox_sent i)" "keeps_inv (mark_outbox_failed i err t dead)"
  unfolding mark_outbox_sent_def mark_outbox_failed_def
  by (intro inv_keep.keeps_transaction keeps_inv_upd upd_outbox_keys; simp)+

lemma keeps_inv_lease: "keeps_inv (acquire_lease n ow ttl)" "keeps_inv (release_lease n ow)"
proof -
  show "keeps_inv (acquire_lease n ow ttl)"
    unfolding acquire_lease_def
    by (intro inv_keep.world.keeps_bindE inv_keep.keeps_now inv_keep.keeps_transaction keeps_inv_step)
      (auto simp: ledger_inv_def orders_inv_def fills_inv_def tables_inv_def distinct_update split: option.splits)
  have "distinct (map fst (filter P ls))" if "distinct (map fst ls)" for P and ls :: "(string \<times> string \<times> time) list"
    using that by (simp add: distinct_map_filter)
  then show "keeps_inv (release_lease n ow)"
    unfolding release_lease_def
    by (intro inv_keep.keeps_transaction keeps_inv_tables)
      (auto simp: ledger_inv_def orders_inv_def fills_inv_def tables_inv_def)
qed

lemma keeps_inv_kv_set: "keeps_inv (kv_set k v)"
  unfolding kv_set_def
  by (intro inv_keep.keeps_transaction keeps_inv_tables)
    (auto simp: ledger_inv_def orders_inv_def fills_inv_def tables_inv_def distinct_update)

lemma keeps_inv_record_news: "keeps_inv (record_news sha score items t)"
  unfolding record_news_def
  by (intro inv_keep.keeps_transaction inv_keep.world.keeps_foldE keeps_inv_step)
    (auto simp: Let_def ledger_inv_def orders_inv_def fills_inv_def tables_inv_def)

lemmas keeps_inv_ops = keeps_inv_save_order keeps_inv_insert_fill keeps_inv_save_position keeps_inv_mark_event
  keeps_inv_save_recon keeps_inv_record_run keeps_inv_enqueue keeps_inv_outbox_marks keeps_inv_lease
  keeps_inv_kv_set keeps_inv_record_news

section \<open>Exactly-once insertion\<close>

text \<open>A run of insertions: for each whether it said new, and the world after them.\<close>

fun insert_all :: "('r \<Rightarrow> ('x world, bool) eff) \<Rightarrow> 'r list \<Rightarrow> 'x world \<Rightarrow> bool list \<times> 'x world" where
  "insert_all ins [] w = ([], w)"
| "insert_all ins (r # rs) w =
     (let (x, w1) = ins r w; (bs, w2) = insert_all ins rs w1 in ((x = Inr True) # bs, w2))"

text \<open>
  \<open>INSERT OR IGNORE\<close> as its callers use it: \<open>ins r\<close> says whether the row is new, and a key that is
  taken stays taken.
\<close>

locale insert_once =
  fixes ins :: "'r \<Rightarrow> ('x world, bool) eff" and taken :: "'r \<Rightarrow> ledger \<Rightarrow> bool"
  assumes ins_taken: "taken r (db w) \<Longrightarrow> ins r w = (Inr False, w)"
    and ins_new: "\<not> taken r (db w) \<Longrightarrow>
      \<exists>d'. ins r w = (Inr True, w\<lparr>db := d'\<rparr>) \<and> taken r d' \<and> (\<forall>r'. taken r' (db w) \<longrightarrow> taken r' d')"
begin

lemma ins_result: "\<exists>d'. ins r w = (Inr (\<not> taken r (db w)), w\<lparr>db := d'\<rparr>) \<and> taken r d'
    \<and> (\<forall>r'. taken r' (db w) \<longrightarrow> taken r' d')"
proof (cases "taken r (db w)")
  case True
  have w: "w = w\<lparr>db := db w\<rparr>" by simp
  show ?thesis using True ins_taken [OF True] w by (intro exI [of _ "db w"]) simp
next
  case False
  then show ?thesis using ins_new [OF False] by simp
qed

lemma ins_again:
  assumes "ins r w = (x, w')"
  shows "ins r w' = (Inr False, w')"
proof -
  obtain d' where "w' = w\<lparr>db := d'\<rparr>" "taken r d'" using ins_result [of r w] assms by auto
  then show ?thesis using ins_taken [of r w'] by simp
qed

text \<open>Of the insertions of one row, only the first says new, and none does if it was taken before.\<close>

lemma ins_all_taken:
  assumes "taken r (db w)"
  shows "taken r (db (snd (insert_all ins rs w))) \<and> (\<forall>(r', b) \<in> set (zip rs (fst (insert_all ins rs w))). r' = r \<longrightarrow> \<not> b)"
  using assms
proof (induction rs arbitrary: w)
  case (Cons r1 rs)
  obtain d' where d': "ins r1 w = (Inr (\<not> taken r1 (db w)), w\<lparr>db := d'\<rparr>)"
    "\<forall>r'. taken r' (db w) \<longrightarrow> taken r' d'" using ins_result by blast
  have "taken r (db (w\<lparr>db := d'\<rparr>))" using d'(2) Cons.prems by simp
  then show ?case using Cons.IH [of "w\<lparr>db := d'\<rparr>"] d'(1) Cons.prems
    by (auto simp: Let_def split: prod.splits)
qed simp

lemma ins_all_once:
  "length (filter (\<lambda>(r', b). r' = r \<and> b) (zip rs (fst (insert_all ins rs w)))) \<le> (if taken r (db w) then 0 else 1)"
proof (induction rs arbitrary: w)
  case (Cons r1 rs)
  obtain d' where d': "ins r1 w = (Inr (\<not> taken r1 (db w)), w\<lparr>db := d'\<rparr>)" "taken r1 d'"
    "\<forall>r'. taken r' (db w) \<longrightarrow> taken r' d'" using ins_result by blast
  have "length (filter (\<lambda>(r', b). r' = r \<and> b) (zip rs (fst (insert_all ins rs (w\<lparr>db := d'\<rparr>)))))
      \<le> (if taken r d' then 0 else 1)"
    using Cons.IH [of "w\<lparr>db := d'\<rparr>"] by simp
  then show ?case using d' by (auto simp: Let_def split: prod.splits if_splits)
qed simp

lemma ins_all_recorded: "r \<in> set rs \<or> taken r (db w) \<Longrightarrow> taken r (db (snd (insert_all ins rs w)))"
proof (induction rs arbitrary: w)
  case (Cons r1 rs)
  obtain d' where d': "ins r1 w = (Inr (\<not> taken r1 (db w)), w\<lparr>db := d'\<rparr>)" "taken r1 d'"
    "\<forall>r'. taken r' (db w) \<longrightarrow> taken r' d'" using ins_result by blast
  then have "r \<in> set rs \<or> taken r (db (w\<lparr>db := d'\<rparr>))" using Cons.prems by auto
  then have "taken r (db (snd (insert_all ins rs (w\<lparr>db := d'\<rparr>))))" by (rule Cons.IH)
  then show ?case using d'(1) by (auto simp: Let_def split: prod.splits)
qed simp

end

lemma fill_taken_snoc: "fill_taken g d \<Longrightarrow> fill_taken g (d\<lparr>d_fills := d_fills d @ xs, d_next_fill := n\<rparr>)"
  by (auto simp: fill_taken_def)

lemma fill_taken_new: "fill_taken f (d\<lparr>d_fills := d_fills d @ [f\<lparr>f_id := i\<rparr>], d_next_fill := n\<rparr>)"
  by (simp add: fill_taken_def)

lemma world_depth_id [simp]: "w\<lparr>depth := depth w\<rparr> = w" "w\<lparr>db := db w\<rparr> = w"
  by simp_all

interpretation fills: insert_once "insert_fill :: fill \<Rightarrow> ('x world, bool) eff" fill_taken
  by unfold_locales
    (auto simp: insert_fill_def transaction_def Let_def fill_taken_new fill_taken_snoc
      intro!: exI [of _ "_\<lparr>d_fills := _, d_next_fill := _\<rparr>"])

interpretation events: insert_once
  "\<lambda>(key, source, ty). mark_event_processed key source ty :: ('x world, bool) eff"
  "\<lambda>(key, source, ty) d. key \<in> fst ` set (d_processed d)"
  by unfold_locales (auto simp: mark_event_processed_def transaction_def Let_def
      intro!: exI [of _ "_\<lparr>d_processed := _\<rparr>"], force)

interpretation messages: insert_once
  "\<lambda>(kind, key, payload). enqueue kind key payload :: ('x world, bool) eff"
  "\<lambda>(kind, key, payload) d. key \<in> ob_key ` set (d_outbox d)"
  by unfold_locales (auto simp: enqueue_def transaction_def Let_def
      intro!: exI [of _ "_\<lparr>d_outbox := _, d_next_outbox := _\<rparr>"])

text \<open>
  An execution is recorded exactly once. Whatever fills a run of \<open>insert_fill\<close> calls brings,
  with the same execution reported any number of times by the stream and by REST in any order, a
  given fill is reported new at most once, never when its event key or its trade id was already
  recorded, and afterwards it is recorded.
\<close>

theorem fill_recorded_once:
  "length (filter (\<lambda>(g, new). g = f \<and> new) (zip fs (fst (insert_all insert_fill fs w))))
      \<le> (if fill_taken f (db w) then 0 else 1)
   \<and> list_all (\<lambda>g. fill_taken g (db (snd (insert_all insert_fill fs w)))) fs"
  by (rule conjI [OF fills.ins_all_once]) (simp add: list_all_iff fills.ins_all_recorded)

text \<open>What the operations of one transaction leave behind.\<close>

lemma save_position_result:
  "save_position p w = (Inr (p\<lparr>p_updated := Some (clk w)\<rparr>),
     w\<lparr>db := (db w)\<lparr>d_positions := upsert position_key (p\<lparr>p_updated := Some (clk w)\<rparr>) (d_positions (db w))\<rparr>\<rparr>)"
  by (simp add: save_position_def transaction_def Let_def thenE_def bindE_apply)

lemma world_depth_zero [simp]: "depth w = 0 \<Longrightarrow> w\<lparr>depth := 0\<rparr> = w"
  by (metis world_depth_id(1))

section \<open>Leases\<close>

lemma acquire_lease_result:
  "acquire_lease name owner ttl w =
     (case map_of (d_leases (db w)) name of
        Some (holder, expires) \<Rightarrow> if holder \<noteq> owner \<and> clk w < expires then (Inr False, w)
          else (Inr True, w\<lparr>db := (db w)\<lparr>d_leases := AList.update name (owner, clk w + seconds ttl) (d_leases (db w))\<rparr>\<rparr>)
      | None \<Rightarrow> (Inr True, w\<lparr>db := (db w)\<lparr>d_leases := AList.update name (owner, clk w + seconds ttl) (d_leases (db w))\<rparr>\<rparr>))"
  by (auto simp: acquire_lease_def transaction_def Let_def split: option.splits)

lemma release_lease_result:
  "release_lease name owner w =
     (Inr (), w\<lparr>db := (db w)\<lparr>d_leases := filter (\<lambda>(n, h, _). \<not> (n = name \<and> h = owner)) (d_leases (db w))\<rparr>\<rparr>)"
  by (simp add: release_lease_def transaction_def Let_def)

text \<open>
  A schedule of processes working with one lease: any of them may try to take or renew it, the
  one that holds it may release it, time passes. A process believes it holds the lease from a
  successful call until that call's expiry, a failed call or its release.
\<close>

type_synonym belief = "string \<Rightarrow> time option"

inductive lease_step :: "string \<Rightarrow> ('x world \<times> belief) \<Rightarrow> ('x world \<times> belief) \<Rightarrow> bool" for name where
  taken: "acquire_lease name ow ttl w = (Inr True, w') \<Longrightarrow>
    lease_step name (w, bel) (w', bel(ow := Some (clk w + seconds ttl)))"
| refused: "acquire_lease name ow ttl w = (Inr False, w') \<Longrightarrow> lease_step name (w, bel) (w', bel(ow := None))"
| released: "release_lease name ow w = (Inr (), w') \<Longrightarrow> lease_step name (w, bel) (w', bel(ow := None))"
| tick: "clk w \<le> t \<Longrightarrow> lease_step name (w, bel) (w\<lparr>clk := t\<rparr>, bel)"

inductive_cases lease_stepE: "lease_step name s s'"

definition holds_lease :: "'x world \<times> belief \<Rightarrow> string \<Rightarrow> bool" where
  "holds_lease s ow \<longleftrightarrow> (case snd s ow of None \<Rightarrow> False | Some e \<Rightarrow> clk (fst s) < e)"

text \<open>The belief of every holder is backed by the row of the lease.\<close>

definition lease_backed :: "string \<Rightarrow> 'x world \<times> belief \<Rightarrow> bool" where
  "lease_backed name s \<longleftrightarrow> distinct (map fst (d_leases (db (fst s))))
     \<and> (\<forall>ow e. snd s ow = Some e \<longrightarrow> clk (fst s) < e \<longrightarrow> map_of (d_leases (db (fst s))) name = Some (ow, e))"

lemma map_of_filter_ne:
  assumes "distinct (map fst ls)" "map_of ls n = Some (h, e)" "n \<noteq> name \<or> h \<noteq> ow"
  shows "map_of (filter (\<lambda>(n, h, _). \<not> (n = name \<and> h = ow)) ls) n = Some (h, e)"
proof -
  have "(n, h, e) \<in> set (filter (\<lambda>(n, h, _). \<not> (n = name \<and> h = ow)) ls)"
    using map_of_SomeD [OF assms(2)] assms(3) by auto
  moreover have "distinct (map fst (filter (\<lambda>(n, h, _). \<not> (n = name \<and> h = ow)) ls))"
    using assms(1) by (simp add: distinct_map_filter)
  ultimately show ?thesis by (rule map_of_is_SomeI [rotated])
qed

lemma lease_step_backed:
  assumes "lease_step name s s'" "lease_backed name s"
  shows "lease_backed name s'"
  using assms(1)
proof (cases rule: lease_step.cases)
  case (taken ow ttl w w' bel)
  then show ?thesis using assms(2)
    by (fastforce simp: lease_backed_def acquire_lease_result update_conv' distinct_update
        split: option.splits if_splits)
next
  case (refused ow ttl w w' bel)
  then show ?thesis using assms(2)
    by (auto simp: lease_backed_def acquire_lease_result split: option.splits if_splits)
next
  case (released ow w w' bel)
  then show ?thesis using assms(2)
    by (auto simp: lease_backed_def release_lease_result distinct_map_filter intro!: map_of_filter_ne)
next
  case (tick w t bel)
  then show ?thesis using assms(2) by (auto simp: lease_backed_def)
qed

text \<open>
  C18: a lease has at most one holder. In every state that any schedule of acquisitions,
  renewals, releases and passing time can reach from a ledger without leases, at most one process
  holds the lease, counting a process as holder from a successful \<open>acquire_lease\<close> until its time to
  live has run out.
\<close>

theorem lease_exclusive:
  assumes "(lease_step name)\<^sup>*\<^sup>* (w\<lparr>db := empty_ledger\<rparr>, \<lambda>_. None) s"
    and "holds_lease s a" "b \<noteq> a"
  shows "\<not> holds_lease s b"
proof
  assume b: "holds_lease s b"
  have "lease_backed name s"
    using assms(1) by (rule rtranclp_induct)
      (auto simp: lease_backed_def [of _ "(_, \<lambda>_. None)"] empty_ledger_def intro: lease_step_backed)
  moreover obtain x y where "snd s a = Some x" "clk (fst s) < x" "snd s b = Some y" "clk (fst s) < y"
    using assms(2) b by (auto simp: holds_lease_def split: option.splits)
  ultimately have "Some (a, x) = Some (b, y)" unfolding lease_backed_def by metis
  then show False using assms(3) by simp
qed

definition lease_demo :: "unit world" where
  "lease_demo = \<lparr>db = empty_ledger\<lparr>d_leases := [(''outbox'', ''p'', 60000000)]\<rparr>, depth = 0, clk = 5, ext = ()\<rparr>"

theorem lease_exclusive_witness:
  "\<not> holds_lease (lease_demo, (\<lambda>_. None)(''p'' := Some 60000000, ''q'' := None)) ''q''"
proof (rule lease_exclusive [where name = "''outbox''" and a = "''p''"
      and w = "\<lparr>db = empty_ledger, depth = 0, clk = 0, ext = ()\<rparr>"])
  let ?w0 = "\<lparr>db = empty_ledger, depth = 0, clk = 0, ext = ()\<rparr> :: unit world"
  let ?b = "(\<lambda>_. None)(''p'' := Some 60000000) :: belief"
  have "lease_step ''outbox'' (?w0, \<lambda>_. None) (lease_demo\<lparr>clk := 0\<rparr>, (\<lambda>_. None)(''p'' := Some (clk ?w0 + seconds 60)))"
    by (rule lease_step.taken) (simp add: acquire_lease_result lease_demo_def empty_ledger_def seconds_def)
  then have 1: "lease_step ''outbox'' (?w0, \<lambda>_. None) (lease_demo\<lparr>clk := 0\<rparr>, ?b)" by (simp add: seconds_def)
  have 2: "lease_step ''outbox'' (lease_demo\<lparr>clk := 0\<rparr>, ?b) (lease_demo, ?b)"
    using lease_step.tick [of "lease_demo\<lparr>clk := 0\<rparr>" 5 "''outbox''" ?b] by (simp add: lease_demo_def)
  have 3: "lease_step ''outbox'' (lease_demo, ?b) (lease_demo, ?b(''q'' := None))"
    by (rule lease_step.refused [where ttl = 60]) (simp add: acquire_lease_result lease_demo_def)
  show "(lease_step ''outbox'')\<^sup>*\<^sup>* (?w0\<lparr>db := empty_ledger\<rparr>, \<lambda>_. None)
      (lease_demo, (\<lambda>_. None)(''p'' := Some 60000000, ''q'' := None))"
    using 1 2 3 by (simp add: rtranclp.rtrancl_into_rtrancl)
qed (simp_all add: holds_lease_def lease_demo_def)

end
