(* ===== verification/Progress.thy ===== *)
theory Progress
  imports Ledger Order_Machine "HOL-Library.Sublist"
begin

text \<open>
  What no part of the engine may undo. \<open>order_le\<close> says how an order may change (its identity is
  kept, its status only moves forward, quantities only grow, an exchange id stays), \<open>ledger_le\<close> how
  the ledger may change (orders only progress; intents, fills and processed events are only added;
  a message that was sent or dead-lettered stays so), and \<open>advances\<close> how a whole call may change the
  world: the ledger invariant is kept, the ledger progresses, the transaction depth is restored and
  the clock does not run backwards. \<open>advances\<close> is closed under composition and transactions, and the
  store's operations satisfy it, so that the services get it from their structure.
\<close>

section \<open>Progress of orders and of the ledger\<close>

definition order_key :: "order \<Rightarrow> int \<times> string \<times> string \<times> string \<times> string \<times> string \<times> string \<times> rat \<times> order_purpose" where
  "order_key od = (o_id od, o_coid od, o_intent od, o_bot od, o_exchange od, o_symbol od, o_side od,
     o_requested od, o_purpose od)"

definition order_le :: "order \<Rightarrow> order \<Rightarrow> bool" where
  "order_le a b \<longleftrightarrow> order_key b = order_key a \<and> o_status a \<le> o_status b \<and> o_executed a \<le> o_executed b
     \<and> o_cumquote a \<le> o_cumquote b \<and> (truthy (o_exid a) \<longrightarrow> o_exid b = o_exid a)"

definition message_le :: "outbox_row \<Rightarrow> outbox_row \<Rightarrow> bool" where
  "message_le a b \<longleftrightarrow> ob_id b = ob_id a \<and> ob_kind b = ob_kind a \<and> ob_key b = ob_key a
     \<and> ob_payload b = ob_payload a \<and> (ob_status a \<noteq> PENDING \<longrightarrow> b = a)"

definition ledger_le :: "ledger \<Rightarrow> ledger \<Rightarrow> bool" where
  "ledger_le d d' \<longleftrightarrow> (\<forall>a\<in>set (d_orders d). \<exists>b\<in>set (d_orders d'). order_le a b)
     \<and> prefix (d_intents d) (d_intents d') \<and> prefix (d_fills d) (d_fills d')
     \<and> prefix (d_processed d) (d_processed d')
     \<and> (\<forall>a\<in>set (d_outbox d). \<exists>b\<in>set (d_outbox d'). message_le a b)"

lemma order_le_refl [simp]: "order_le a a"
  by (simp add: order_le_def)

lemma order_le_trans: "order_le a b \<Longrightarrow> order_le b c \<Longrightarrow> order_le a c"
  unfolding order_le_def by (metis order_trans)

lemma message_le_refl [simp]: "message_le a a"
  by (simp add: message_le_def)

lemma message_le_trans: "message_le a b \<Longrightarrow> message_le b c \<Longrightarrow> message_le a c"
  unfolding message_le_def by metis

lemma ledger_le_refl [simp]: "ledger_le d d"
  by (auto simp: ledger_le_def intro: order_le_refl message_le_refl)

lemma ledger_le_trans: "ledger_le d d' \<Longrightarrow> ledger_le d' d'' \<Longrightarrow> ledger_le d d''"
  unfolding ledger_le_def by (meson order_le_trans message_le_trans prefix_order.trans)

lemma ledger_leI:
  assumes "\<And>a. a \<in> set (d_orders d) \<Longrightarrow> \<exists>b\<in>set (d_orders d'). order_le a b"
    "prefix (d_intents d) (d_intents d')" "prefix (d_fills d) (d_fills d')" "prefix (d_processed d) (d_processed d')"
    "\<And>a. a \<in> set (d_outbox d) \<Longrightarrow> \<exists>b\<in>set (d_outbox d'). message_le a b"
  shows "ledger_le d d'"
  using assms by (simp add: ledger_le_def)

text \<open>A step that leaves the tables of record alone, or only appends to them.\<close>

lemma ledger_le_append:
  assumes "d_orders d' = d_orders d @ os" "d_intents d' = d_intents d @ is" "d_fills d' = d_fills d @ fs"
    "d_processed d' = d_processed d @ ps" "d_outbox d' = d_outbox d @ ms"
  shows "ledger_le d d'"
  using assms by (intro ledger_leI) (auto intro: order_le_refl message_le_refl)

lemma apply_report_le: "order_le od (snd (apply_report r t od))"
proof -
  obtain c od1 where a: "report_amounts r od = (c, od1)" by (cases "report_amounts r od")
  note am = report_amounts_eq [OF a]
  have ex: "truthy (o_exid od) \<longrightarrow> o_exid od1 = o_exid od"
    using a by (auto simp: report_amounts_def Let_def split: if_splits)
  show ?thesis
  proof (cases rule: apply_report_cases [of r od t])
    case conflict
    then show ?thesis using ex by (simp add: a am order_le_def order_key_def)
  next
    case (normal c' od1' st rej ta c2 od2)
    note bk = report_bookkeeping_eq [OF normal(4)]
    have "od1' = od1" using a normal(2) by simp
    moreover have "o_status od \<le> st"
      unfolding normal(3) by (auto simp: less_eq_order_status_def transition_rank)
    ultimately show ?thesis using ex by (simp add: normal(7) bk am order_le_def order_key_def)
  qed
qed

lemma apply_report_version: "o_version (snd (apply_report r t od)) = o_version od"
proof -
  obtain c od1 where a: "report_amounts r od = (c, od1)" by (cases "report_amounts r od")
  note am = report_amounts_eq [OF a]
  show ?thesis
  proof (cases rule: apply_report_cases [of r od t])
    case (normal c' od1' st rej ta c2 od2)
    have "o_version od2 = o_version od1'" using report_bookkeeping_eq(9) [OF normal(4)] by simp
    moreover have "o_version od1' = o_version od" by (rule report_amounts_eq(11) [OF normal(2)])
    moreover have "snd (apply_report r t od) = od2" using normal(7) by simp
    ultimately show ?thesis by simp
  qed (simp add: a am)
qed

lemma mark_rejected_cases:
  obtains (terminal) "is_terminal (o_status od)" "mark_rejected reason t od = (Inr False, od)"
  | (rejected) "\<not> is_terminal (o_status od)" "can_transition (o_status od) REJECTED"
      "mark_rejected reason t od = (Inr True, od\<lparr>o_status := REJECTED, o_terminal_at := Some t, o_reject := Some reason\<rparr>)"
  | (refused) e where "\<not> is_terminal (o_status od)" "\<not> can_transition (o_status od) REJECTED"
      "mark_rejected reason t od = (Inl (IllegalTransition e), od)"
proof (cases "is_terminal (o_status od)")
  case False
  show thesis
  proof (cases "can_transition (o_status od) REJECTED")
    case True
    show thesis
      by (rule rejected [OF False True])
        (use False in \<open>simp add: mark_rejected_def thenE_def bindE_apply transition_allowed [OF True]\<close>)
  next
    case no: False
    have "REJECTED \<noteq> o_status od" using False by auto
    from transition_raises [OF this no, of t] show thesis
      by (intro refused [OF False no]) (use False in \<open>simp add: mark_rejected_def thenE_def bindE_apply\<close>)
  qed
qed (simp add: mark_rejected_def terminal)

lemma rejected_le:
  "can_transition (o_status od) REJECTED \<Longrightarrow>
   order_le od (od\<lparr>o_status := REJECTED, o_terminal_at := t, o_reject := r\<rparr>)"
  by (simp add: order_le_def order_key_def less_eq_order_status_def) (metis rank.simps(7) transition_rank)

section \<open>Calls that advance the world\<close>

definition advances :: "'x world \<Rightarrow> 'x world \<Rightarrow> bool" where
  "advances w w' \<longleftrightarrow> depth w' = depth w \<and> clk w \<le> clk w'
     \<and> (ledger_inv (db w) \<longrightarrow> ledger_inv (db w') \<and> ledger_le (db w) (db w'))"

interpretation adv: step_preorder advances
  by unfold_locales (auto simp: advances_def intro: ledger_le_trans)

abbreviation safe :: "('x world, 'a) eff \<Rightarrow> bool" where
  "safe \<equiv> keeps advances"

lemma safe_transaction [keeps_intros]:
  assumes "safe m"
  shows "safe (transaction m)"
proof (rule keepsI)
  fix w
  obtain r w' where r: "m (w\<lparr>depth := depth w + 1\<rparr>) = (r, w')" by (cases "m (w\<lparr>depth := depth w + 1\<rparr>)")
  have "advances (w\<lparr>depth := depth w + 1\<rparr>) w'" using assms r by (rule keepsD)
  then show "advances w (snd (transaction m w))"
    using r by (cases r) (auto simp: transaction_def advances_def Let_def)
qed

lemma safe_db_get [keeps_intros]: "safe (db_get f)"
  by (simp add: keeps_def adv.P_refl)

lemma safe_now [keeps_intros]: "safe now"
  by (simp add: keeps_def adv.P_refl)

text \<open>A call that is one transaction on the ledger only: its effect decides.\<close>

lemma safeI:
  assumes "\<And>w. depth (snd (m w)) = depth w" "\<And>w. clk w \<le> clk (snd (m w))"
    and "\<And>w. ledger_inv (db w) \<Longrightarrow> ledger_inv (db (snd (m w)))"
    and "\<And>w. ledger_inv (db w) \<Longrightarrow> ledger_le (db w) (db (snd (m w)))"
  shows "safe m"
  using assms by (simp add: keeps_def advances_def)

lemma safe_stepI:
  assumes "keeps_inv m" "\<And>w. \<exists>d'. snd (m w) = w\<lparr>db := d'\<rparr> \<and> (ledger_inv (db w) \<longrightarrow> ledger_le (db w) d')"
  shows "safe m"
proof (rule safeI)
  fix w
  obtain d' where d': "snd (m w) = w\<lparr>db := d'\<rparr>" "ledger_inv (db w) \<longrightarrow> ledger_le (db w) d'"
    using assms(2) by blast
  show "depth (snd (m w)) = depth w" "clk w \<le> clk (snd (m w))" using d' by simp_all
  show "ledger_inv (db (snd (m w)))" if "ledger_inv (db w)"
    using keepsS [OF assms(1), of w] that by simp
  show "ledger_le (db w) (db (snd (m w)))" if "ledger_inv (db w)" using d' that by simp
qed

lemma ledger_le_same:
  assumes "d_orders d' = d_orders d" "d_intents d' = d_intents d" "prefix (d_fills d) (d_fills d')"
    "prefix (d_processed d) (d_processed d')" "d_outbox d' = d_outbox d"
  shows "ledger_le d d'"
  using assms by (intro ledger_leI) (auto intro: order_le_refl message_le_refl)

text \<open>The reading of what a store operation leaves behind.\<close>

lemma safe_tables:
  assumes "keeps_inv m"
    and "\<And>w. \<exists>d'. snd (m w) = w\<lparr>db := d'\<rparr> \<and> d_orders d' = d_orders (db w) \<and> d_intents d' = d_intents (db w)
      \<and> prefix (d_fills (db w)) (d_fills d') \<and> prefix (d_processed (db w)) (d_processed d')
      \<and> (\<forall>a\<in>set (d_outbox (db w)). \<exists>b\<in>set (d_outbox d'). message_le a b)"
  shows "safe m"
proof (rule safe_stepI [OF assms(1)])
  fix w
  obtain d' where d': "snd (m w) = w\<lparr>db := d'\<rparr>" "d_orders d' = d_orders (db w)" "d_intents d' = d_intents (db w)"
      "prefix (d_fills (db w)) (d_fills d')" "prefix (d_processed (db w)) (d_processed d')"
      "\<forall>a\<in>set (d_outbox (db w)). \<exists>b\<in>set (d_outbox d'). message_le a b"
    using assms(2) [of w] by blast
  then have "ledger_le (db w) d'" by (intro ledger_leI) (auto intro: order_le_refl)
  then show "\<exists>d'. snd (m w) = w\<lparr>db := d'\<rparr> \<and> (ledger_inv (db w) \<longrightarrow> ledger_le (db w) d')" using d'(1) by blast
qed

lemma world_db_ex: "(\<exists>d'. w\<lparr>db := d\<rparr> = w\<lparr>db := d'\<rparr> \<and> P d') \<longleftrightarrow> P d" "(\<exists>d'. w = w\<lparr>db := d'\<rparr> \<and> P d') \<longleftrightarrow> P (db w)"
proof -
  have "d' = d" if "w\<lparr>db := d\<rparr> = w\<lparr>db := d'\<rparr>" for d' using arg_cong [OF that, of db] by simp
  then show "(\<exists>d'. w\<lparr>db := d\<rparr> = w\<lparr>db := d'\<rparr> \<and> P d') \<longleftrightarrow> P d" by blast
  have "d' = db w" if "w = w\<lparr>db := d'\<rparr>" for d' using arg_cong [OF that, of db] by simp
  then show "(\<exists>d'. w = w\<lparr>db := d'\<rparr> \<and> P d') \<longleftrightarrow> P (db w)" by (metis world_depth_id(2))
qed

lemma messages_kept [simp]: "\<forall>a\<in>set xs. \<exists>b\<in>set xs. message_le a b" "\<forall>a\<in>set xs. (\<exists>b\<in>set xs. message_le a b) \<or> Q a"
  using message_le_refl by blast+

lemma safe_insert_fill [keeps_intros]: "safe (insert_fill f)"
  by (rule safe_tables [OF keeps_inv_insert_fill]) (simp add: insert_fill_def transaction_def Let_def world_db_ex)

lemma safe_save_position [keeps_intros]: "safe (save_position p)"
  by (rule safe_tables [OF keeps_inv_save_position]) (simp add: save_position_result world_db_ex)

lemma safe_mark_event [keeps_intros]: "safe (mark_event_processed key source ty)"
  by (rule safe_tables [OF keeps_inv_mark_event]) (simp add: mark_event_processed_def transaction_def Let_def world_db_ex)

lemma safe_save_recon [keeps_intros]: "safe (save_recon_state st)"
  by (rule safe_tables [OF keeps_inv_save_recon]) (simp add: save_recon_state_def transaction_def Let_def world_db_ex)

lemma safe_record_run [keeps_intros]: "safe (record_recon_run key b reason status started summary mms)"
  by (rule safe_tables [OF keeps_inv_record_run]) (simp add: record_recon_run_def transaction_def Let_def world_db_ex)

lemma safe_enqueue [keeps_intros]: "safe (enqueue kind key payload)"
  by (rule safe_tables [OF keeps_inv_enqueue]) (auto simp: enqueue_def transaction_def Let_def world_db_ex)

lemma safe_lease [keeps_intros]: "safe (acquire_lease n ow ttl)" "safe (release_lease n ow)"
  by (rule safe_tables [OF keeps_inv_lease(1)], simp add: acquire_lease_result world_db_ex split: option.splits)
    (rule safe_tables [OF keeps_inv_lease(2)], simp add: release_lease_result world_db_ex)

lemma safe_kv_set [keeps_intros]: "safe (kv_set k v)"
  by (rule safe_tables [OF keeps_inv_kv_set]) (simp add: kv_set_def transaction_def Let_def world_db_ex)

lemma safe_reads [keeps_intros]:
  "safe (get_order c)" "safe (get_order_by_intent i)" "safe (intent_signal_id i)" "safe (get_order_by_exchange_id e x)"
  "safe (non_terminal_orders b s)" "safe (list_orders b s n)" "safe (fill_exists k)" "safe (list_fills b s')"
  "safe (fills_for_order j)" "safe (get_position b s')" "safe (list_positions b)" "safe (get_recon_state b)"
  "safe (open_mismatch_count b)" "safe (pending_outbox n)" "safe outbox_backlog" "safe (kv_get k)" "safe news_count"
  unfolding get_order_def get_order_by_intent_def intent_signal_id_def get_order_by_exchange_id_def
    non_terminal_orders_def list_orders_def fill_exists_def list_fills_def fills_for_order_def get_position_def
    list_positions_def get_recon_state_def open_mismatch_count_def pending_outbox_def outbox_backlog_def kv_get_def
    news_count_def
  by (intro keeps_intros)+

end
