(* ===== verification/Config.thy ===== *)
theory Config
  imports Texts
begin

text \<open>
  The configuration module \<^verbatim>\<open>config.py\<close>: the settings the modelled services read, how the
  textual settings that select a mode are normalised, and \<^verbatim>\<open>validate_runtime\<close>, the check every
  worker makes at startup and before every cycle. Numeric settings are floats and integers;
  services turn the floats into decimals through their shortest text (\<open>py_repr\<close>).
\<close>

record config =
  EXCHANGE_ID :: string
  SYMBOL :: string
  TIMEFRAME :: string
  API_KEY :: string
  API_SECRET :: string
  BINANCE_ACCOUNT_LABEL :: string
  TRADING_MODE :: string
  LIVE_TRADING_CONFIRMED :: bool
  GLOBAL_TRADING_ENABLED :: bool
  CONTROL_PLANE_URL :: string
  CONTROL_PLANE_TOKEN :: string
  BOT_INSTANCE_ID :: string
  REQUEST_TIMEOUT_SECONDS :: int
  TELEGRAM_BOT_TOKEN :: string
  TELEGRAM_CHAT_ID :: string
  STARTING_PAPER_BALANCE :: rat
  RISK_PER_TRADE_PCT :: rat
  STOP_LOSS_PCT :: rat
  DAILY_LOSS_LIMIT_PCT :: rat
  MAX_OPEN_POSITIONS :: int
  STRATEGY_NAME :: string
  STRATEGY_VERSION :: string
  EMA_FAST :: int
  EMA_MID :: int
  EMA_SLOW :: int
  RSI_PERIOD :: int
  RSI_OVERSOLD :: rat
  RSI_OVERBOUGHT :: rat
  MACD_FAST :: int
  MACD_SLOW :: int
  MACD_SIGNAL :: int
  SCORE_BUY_THRESHOLD :: rat
  SCORE_SELL_THRESHOLD :: rat
  STRATEGY_MODE :: string
  ML_MODEL_PATH :: string
  ML_MODEL_SHA256 :: string
  NEWS_FEEDS :: "string list"
  NEWS_HEADLINE_LIMIT :: nat
  SIGNAL_ON_CLOSED_CANDLES :: bool
  CANDLE_HISTORY_LIMIT :: int
  MARKET_DATA_MAX_AGE_CANDLES :: rat
  CLIENT_ORDER_ID_PREFIX :: string
  PAPER_FEE_RATE :: rat
  PROTECTIVE_STOP_MODE :: string
  PROTECTIVE_STOP_LIMIT_OFFSET_PCT :: rat
  AMBIGUOUS_ORDER_GRACE_SECONDS :: int
  RECON_STATE_MAX_AGE_SECONDS :: int
  RECONCILE_INTERVAL_SECONDS :: int
  RECENT_FILLS_LOOKBACK_HOURS :: int
  WS_PING_INTERVAL_SECONDS :: int
  WS_RESPONSE_TIMEOUT_SECONDS :: int
  WS_MAX_BACKOFF_SECONDS :: int
  WS_RECV_WINDOW_MS :: int
  BINANCE_WS_API_URL :: string
  LOOP_INTERVAL_SECONDS :: int
  HEARTBEAT_INTERVAL_SECONDS :: int
  ENGINE_DB_PATH :: string
  OUTBOX_MAX_ATTEMPTS :: int
  LOG_LEVEL :: string
  LOG_FILE :: string

section \<open>Reading the environment\<close>

text \<open>\<open>env\<close> is the process environment, \<^verbatim>\<open>os.getenv(name, default)\<close>.\<close>

definition getenv :: "(string \<rightharpoonup> string) \<Rightarrow> string \<Rightarrow> string \<Rightarrow> string" where
  "getenv env name dflt = (case env name of None \<Rightarrow> dflt | Some v \<Rightarrow> v)"

definition env_bool :: "(string \<rightharpoonup> string) \<Rightarrow> string \<Rightarrow> string \<Rightarrow> bool" where
  "env_bool env name dflt \<longleftrightarrow>
     lower (strip (getenv env name dflt)) \<in> set [''1'', ''true'', ''yes'', ''on'']"

definition trading_modes :: "string list" where
  "trading_modes = [''PAPER'', ''TESTNET'', ''LIVE'']"

definition read_trading_mode :: "(string \<rightharpoonup> string) \<Rightarrow> exn + string" where
  "read_trading_mode env = (let m = upper (strip (getenv env ''TRADING_MODE'' ''PAPER'')) in
     if m \<notin> set trading_modes then Inl (ValueError ''TRADING_MODE must be PAPER, TESTNET, or LIVE'')
     else Inr m)"

text \<open>Numeric settings: \<^verbatim>\<open>int(os.getenv(...))\<close> and \<^verbatim>\<open>float(os.getenv(...))\<close>.\<close>

definition env_int :: "(string \<rightharpoonup> string) \<Rightarrow> string \<Rightarrow> string \<Rightarrow> exn + int" where
  "env_int env name dflt = py_int (getenv env name dflt)"

definition env_float :: "(string \<rightharpoonup> string) \<Rightarrow> string \<Rightarrow> string \<Rightarrow> exn + rat" where
  "env_float env name dflt = py_float (getenv env name dflt)"

definition default_ws_url :: "string \<Rightarrow> string" where
  "default_ws_url mode = (if mode = ''LIVE'' then ''wss://ws-api.binance.com:443/ws-api/v3''
     else ''wss://ws-api.testnet.binance.vision/ws-api/v3'')"

text \<open>Signals and orders made with other than the V1 parameters carry them in the strategy version.\<close>

definition v1_parameters :: "config \<Rightarrow> bool" where
  "v1_parameters c \<longleftrightarrow> SCORE_BUY_THRESHOLD c = 5 / 2 \<and> SCORE_SELL_THRESHOLD c = - (5 / 2) \<and> STOP_LOSS_PCT c = 3"

definition tag_version :: "config \<Rightarrow> config" where
  "tag_version c = (if \<not> v1_parameters c
     then c\<lparr>STRATEGY_VERSION := STRATEGY_VERSION c @ ''+b'' @ text_g (SCORE_BUY_THRESHOLD c) @ ''s''
            @ text_g (SCORE_SELL_THRESHOLD c) @ ''st'' @ text_g (STOP_LOSS_PCT c)\<rparr>
     else c)"

text \<open>
  The module's settings in the order it reads them, so that the first malformed one raises. No
  later setting reads the tagged version, so the tag is put on at the end.
\<close>

definition read_config :: "(string \<rightharpoonup> string) \<Rightarrow> exn + config" where
  "read_config env =
     bindR (read_trading_mode env) (\<lambda>trading_mode.
     bindR (env_int env ''REQUEST_TIMEOUT_SECONDS'' ''10'') (\<lambda>request_timeout_seconds.
     bindR (env_float env ''STARTING_PAPER_BALANCE'' ''1000'') (\<lambda>starting_paper_balance.
     bindR (env_float env ''RISK_PER_TRADE_PCT'' ''1.0'') (\<lambda>risk_per_trade_pct.
     bindR (env_float env ''STOP_LOSS_PCT'' ''3.0'') (\<lambda>stop_loss_pct.
     bindR (env_float env ''DAILY_LOSS_LIMIT_PCT'' ''5.0'') (\<lambda>daily_loss_limit_pct.
     bindR (env_int env ''MAX_OPEN_POSITIONS'' ''1'') (\<lambda>max_open_positions.
     bindR (env_float env ''SCORE_BUY_THRESHOLD'' ''2.5'') (\<lambda>score_buy_threshold.
     bindR (env_float env ''SCORE_SELL_THRESHOLD'' ''-2.5'') (\<lambda>score_sell_threshold.
     bindR (env_int env ''CANDLE_HISTORY_LIMIT'' ''300'') (\<lambda>candle_history_limit.
     bindR (env_float env ''MARKET_DATA_MAX_AGE_CANDLES'' ''2'') (\<lambda>market_data_max_age_candles.
     bindR (env_float env ''PAPER_FEE_RATE'' ''0'') (\<lambda>paper_fee_rate.
     bindR (env_float env ''PROTECTIVE_STOP_LIMIT_OFFSET_PCT'' ''0.5'') (\<lambda>protective_stop_limit_offset_pct.
     bindR (env_int env ''AMBIGUOUS_ORDER_GRACE_SECONDS'' ''60'') (\<lambda>ambiguous_order_grace_seconds.
     bindR (env_int env ''RECON_STATE_MAX_AGE_SECONDS'' ''90'') (\<lambda>recon_state_max_age_seconds.
     bindR (env_int env ''RECONCILE_INTERVAL_SECONDS'' ''300'') (\<lambda>reconcile_interval_seconds.
     bindR (env_int env ''RECENT_FILLS_LOOKBACK_HOURS'' ''48'') (\<lambda>recent_fills_lookback_hours.
     bindR (env_int env ''WS_PING_INTERVAL_SECONDS'' ''30'') (\<lambda>ws_ping_interval_seconds.
     bindR (env_int env ''WS_RESPONSE_TIMEOUT_SECONDS'' ''10'') (\<lambda>ws_response_timeout_seconds.
     bindR (env_int env ''WS_MAX_BACKOFF_SECONDS'' ''60'') (\<lambda>ws_max_backoff_seconds.
     bindR (env_int env ''WS_RECV_WINDOW_MS'' ''5000'') (\<lambda>ws_recv_window_ms.
     bindR (env_int env ''LOOP_INTERVAL_SECONDS'' ''900'') (\<lambda>loop_interval_seconds.
     bindR (env_int env ''HEARTBEAT_INTERVAL_SECONDS'' ''30'') (\<lambda>heartbeat_interval_seconds.
     bindR (env_int env ''OUTBOX_MAX_ATTEMPTS'' ''50'') (\<lambda>outbox_max_attempts.
       Inr (tag_version \<lparr>EXCHANGE_ID = getenv env ''EXCHANGE_ID'' ''binance'', SYMBOL = getenv env ''TRADING_SYMBOL'' ''BTC/USDT'',
         TIMEFRAME = getenv env ''TRADING_TIMEFRAME'' ''1h'', API_KEY = getenv env ''EXCHANGE_API_KEY'' [],
         API_SECRET = getenv env ''EXCHANGE_API_SECRET'' [],
         BINANCE_ACCOUNT_LABEL = getenv env ''BINANCE_ACCOUNT_LABEL'' ''main'', TRADING_MODE = trading_mode,
         LIVE_TRADING_CONFIRMED = env_bool env ''LIVE_TRADING_CONFIRMED'' ''false'',
         GLOBAL_TRADING_ENABLED = env_bool env ''GLOBAL_TRADING_ENABLED'' ''true'',
         CONTROL_PLANE_URL = getenv env ''CONTROL_PLANE_URL'' ''http://127.0.0.1:8000'',
         CONTROL_PLANE_TOKEN = getenv env ''CONTROL_PLANE_TOKEN'' [],
         BOT_INSTANCE_ID = getenv env ''BOT_INSTANCE_ID'' ''default'',
         REQUEST_TIMEOUT_SECONDS = request_timeout_seconds,
         TELEGRAM_BOT_TOKEN = getenv env ''TELEGRAM_BOT_TOKEN'' [],
         TELEGRAM_CHAT_ID = getenv env ''TELEGRAM_CHAT_ID'' [], STARTING_PAPER_BALANCE = starting_paper_balance,
         RISK_PER_TRADE_PCT = risk_per_trade_pct, STOP_LOSS_PCT = stop_loss_pct,
         DAILY_LOSS_LIMIT_PCT = daily_loss_limit_pct, MAX_OPEN_POSITIONS = max_open_positions,
         STRATEGY_NAME = ''multi_factor_ema_rsi_macd'', STRATEGY_VERSION = ''1.0.0'', EMA_FAST = 20, EMA_MID = 50,
         EMA_SLOW = 200, RSI_PERIOD = 14, RSI_OVERSOLD = 35, RSI_OVERBOUGHT = 70, MACD_FAST = 12, MACD_SLOW = 26,
         MACD_SIGNAL = 9, SCORE_BUY_THRESHOLD = score_buy_threshold, SCORE_SELL_THRESHOLD = score_sell_threshold,
         STRATEGY_MODE = lower (strip (getenv env ''STRATEGY_MODE'' ''v1'')),
         ML_MODEL_PATH = getenv env ''ML_MODEL_PATH'' [],
         ML_MODEL_SHA256 = lower (strip (getenv env ''ML_MODEL_SHA256'' [])),
         NEWS_FEEDS = [''https://www.coindesk.com/arc/outboundfeeds/rss/'', ''https://cointelegraph.com/rss''],
         NEWS_HEADLINE_LIMIT = 25, SIGNAL_ON_CLOSED_CANDLES = env_bool env ''SIGNAL_ON_CLOSED_CANDLES'' ''true'',
         CANDLE_HISTORY_LIMIT = candle_history_limit, MARKET_DATA_MAX_AGE_CANDLES = market_data_max_age_candles,
         CLIENT_ORDER_ID_PREFIX = getenv env ''CLIENT_ORDER_ID_PREFIX'' ''cb1'', PAPER_FEE_RATE = paper_fee_rate,
         PROTECTIVE_STOP_MODE = lower (strip (getenv env ''PROTECTIVE_STOP_MODE'' ''software'')),
         PROTECTIVE_STOP_LIMIT_OFFSET_PCT = protective_stop_limit_offset_pct,
         AMBIGUOUS_ORDER_GRACE_SECONDS = ambiguous_order_grace_seconds,
         RECON_STATE_MAX_AGE_SECONDS = recon_state_max_age_seconds,
         RECONCILE_INTERVAL_SECONDS = reconcile_interval_seconds,
         RECENT_FILLS_LOOKBACK_HOURS = recent_fills_lookback_hours,
         WS_PING_INTERVAL_SECONDS = ws_ping_interval_seconds,
         WS_RESPONSE_TIMEOUT_SECONDS = ws_response_timeout_seconds,
         WS_MAX_BACKOFF_SECONDS = ws_max_backoff_seconds, WS_RECV_WINDOW_MS = ws_recv_window_ms,
         BINANCE_WS_API_URL = getenv env ''BINANCE_WS_API_URL'' (default_ws_url trading_mode),
         LOOP_INTERVAL_SECONDS = loop_interval_seconds, HEARTBEAT_INTERVAL_SECONDS = heartbeat_interval_seconds,
         ENGINE_DB_PATH = getenv env ''ENGINE_DB_PATH'' ''var/engine.sqlite3'',
         OUTBOX_MAX_ATTEMPTS = outbox_max_attempts, LOG_LEVEL = getenv env ''LOG_LEVEL'' ''INFO'',
         LOG_FILE = getenv env ''LOG_FILE'' ''trades_log.csv''\<rparr>)))))))))))))))))))))))))"

section \<open>A configuration for the witnesses\<close>

definition demo_config :: config where
  "demo_config = \<lparr>EXCHANGE_ID = ''binance'', SYMBOL = ''BTC/USDT'', TIMEFRAME = ''1h'', API_KEY = [], API_SECRET = [],
     BINANCE_ACCOUNT_LABEL = ''main'', TRADING_MODE = ''PAPER'', LIVE_TRADING_CONFIRMED = False,
     GLOBAL_TRADING_ENABLED = True, CONTROL_PLANE_URL = ''http://127.0.0.1:8000'',
     CONTROL_PLANE_TOKEN = replicate 32 (CHR ''t''), BOT_INSTANCE_ID = ''bot'', REQUEST_TIMEOUT_SECONDS = 10,
     TELEGRAM_BOT_TOKEN = [], TELEGRAM_CHAT_ID = [], STARTING_PAPER_BALANCE = 1000, RISK_PER_TRADE_PCT = 1,
     STOP_LOSS_PCT = 3, DAILY_LOSS_LIMIT_PCT = 5, MAX_OPEN_POSITIONS = 1, STRATEGY_NAME = ''s'',
     STRATEGY_VERSION = ''1'', EMA_FAST = 20, EMA_MID = 50, EMA_SLOW = 200, RSI_PERIOD = 14, RSI_OVERSOLD = 35,
     RSI_OVERBOUGHT = 70, MACD_FAST = 12, MACD_SLOW = 26, MACD_SIGNAL = 9, SCORE_BUY_THRESHOLD = 5 / 2,
     SCORE_SELL_THRESHOLD = - (5 / 2), STRATEGY_MODE = ''v1'', ML_MODEL_PATH = [], ML_MODEL_SHA256 = [],
     NEWS_FEEDS = [], NEWS_HEADLINE_LIMIT = 25, SIGNAL_ON_CLOSED_CANDLES = True, CANDLE_HISTORY_LIMIT = 300,
     MARKET_DATA_MAX_AGE_CANDLES = 2, CLIENT_ORDER_ID_PREFIX = ''cb1'', PAPER_FEE_RATE = 0,
     PROTECTIVE_STOP_MODE = ''software'', PROTECTIVE_STOP_LIMIT_OFFSET_PCT = 1 / 2,
     AMBIGUOUS_ORDER_GRACE_SECONDS = 60, RECON_STATE_MAX_AGE_SECONDS = 90, RECONCILE_INTERVAL_SECONDS = 300,
     RECENT_FILLS_LOOKBACK_HOURS = 48, WS_PING_INTERVAL_SECONDS = 30, WS_RESPONSE_TIMEOUT_SECONDS = 10,
     WS_MAX_BACKOFF_SECONDS = 60, WS_RECV_WINDOW_MS = 5000, BINANCE_WS_API_URL = default_ws_url ''PAPER'',
     LOOP_INTERVAL_SECONDS = 900, HEARTBEAT_INTERVAL_SECONDS = 30, ENGINE_DB_PATH = ''var/engine.sqlite3'',
     OUTBOX_MAX_ATTEMPTS = 50, LOG_LEVEL = ''INFO'', LOG_FILE = ''trades_log.csv''\<rparr>"

section \<open>validate\_runtime\<close>

definition is_hex64 :: "string \<Rightarrow> bool" where
  "is_hex64 s \<longleftrightarrow> length s = 64
     \<and> (\<forall>c\<in>set s. char_between (CHR ''0'') (CHR ''9'') c \<or> char_between (CHR ''a'') (CHR ''f'') c)"

text \<open>A sequence of guards, each raising its message when its condition holds.\<close>

fun guards :: "(bool \<times> string) list \<Rightarrow> exn + unit" where
  "guards [] = Inr ()"
| "guards ((bad, msg) # rest) = (if bad then Inl (RuntimeError msg) else guards rest)"

text \<open>\<open>isfile\<close> is \<^verbatim>\<open>os.path.isfile\<close>.\<close>

definition validate_runtime :: "(string \<Rightarrow> bool) \<Rightarrow> config \<Rightarrow> exn + unit" where
  "validate_runtime isfile c = (let mode = STRATEGY_MODE c; tm = TRADING_MODE c; token = CONTROL_PLANE_TOKEN c in
     guards
      [(tm \<notin> set trading_modes, ''TRADING_MODE must be PAPER, TESTNET, or LIVE''),
       (mode \<notin> set [''v1'', ''veto'', ''ml''], ''STRATEGY_MODE must be v1, veto, or ml''),
       (mode \<noteq> ''v1'' \<and> (ML_MODEL_PATH c = [] \<or> \<not> isfile (ML_MODEL_PATH c)),
          ''STRATEGY_MODE='' @ mode @ '' requires ML_MODEL_PATH pointing to the trained model file''),
       (mode \<noteq> ''v1'' \<and> \<not> is_hex64 (ML_MODEL_SHA256 c),
          ''STRATEGY_MODE='' @ mode @ '' requires ML_MODEL_SHA256 (64 hex chars) from research/out/ML_REPORT.md''),
       (tm = ''LIVE'' \<and> \<not> LIVE_TRADING_CONFIRMED c, ''LIVE mode requires LIVE_TRADING_CONFIRMED=true''),
       (tm = ''LIVE'' \<and> PROTECTIVE_STOP_MODE c \<noteq> ''exchange'',
          ''LIVE mode requires PROTECTIVE_STOP_MODE=exchange (software stops alone are not a production control)''),
       (tm \<noteq> ''LIVE'' \<and> contains ''ws-api.binance.com'' (BINANCE_WS_API_URL c),
          ''Non-LIVE mode must not point at the production WebSocket API''),
       (tm \<in> set [''TESTNET'', ''LIVE''] \<and> (API_KEY c = [] \<or> API_SECRET c = []),
          tm @ '' mode requires exchange API credentials''),
       (PROTECTIVE_STOP_MODE c \<notin> set [''software'', ''exchange''],
          ''PROTECTIVE_STOP_MODE must be 'software' or 'exchange'' @ [CHR 0x27]),
       (PROTECTIVE_STOP_MODE c = ''exchange'' \<and> tm = ''PAPER'',
          ''PROTECTIVE_STOP_MODE=exchange is not supported in PAPER mode''),
       (token = ''CHANGE_THIS_LONG_RANDOM_SECRET'' \<or> length token < 32,
          ''CONTROL_PLANE_TOKEN must be a random value of at least 32 characters'')])"

lemma guards_Inr: "guards gs = Inr () \<longleftrightarrow> (\<forall>g\<in>set gs. \<not> fst g)"
  by (induction gs rule: guards.induct) auto

text \<open>The case distinction over the mode texts, for any distinct names of the modes.\<close>

lemma accepts_logic:
  assumes "distinct [p, t, l]" "distinct [sw, ex]" "distinct [v1, ve, ml]"
  shows "(tm = p \<or> tm = t \<or> tm = l) \<and> (sm = v1 \<or> sm = ve \<or> sm = ml) \<and> \<not> (sm \<noteq> v1 \<and> (np \<or> \<not> f))
     \<and> \<not> (sm \<noteq> v1 \<and> \<not> hx) \<and> \<not> (tm = l \<and> \<not> conf) \<and> \<not> (tm = l \<and> st \<noteq> ex) \<and> \<not> (tm \<noteq> l \<and> ws)
     \<and> \<not> ((tm = t \<or> tm = l) \<and> (nk \<or> ns)) \<and> (st = sw \<or> st = ex) \<and> \<not> (st = ex \<and> tm = p) \<and> \<not> (tk \<or> sh)
   \<longleftrightarrow> (tm = p \<and> st = sw \<or> tm = t \<and> (st = sw \<or> st = ex) \<or> tm = l \<and> conf \<and> st = ex)
     \<and> (tm = l \<or> \<not> ws) \<and> (tm = p \<or> \<not> nk \<and> \<not> ns)
     \<and> (sm = v1 \<or> (sm = ve \<or> sm = ml) \<and> \<not> np \<and> f \<and> hx) \<and> \<not> tk \<and> \<not> sh"
  using assms by auto

text \<open>
  The validated configurations. \<open>validate_runtime\<close> accepts a configuration exactly when the
  trading and strategy modes are known, a model strategy names an existing model file and a full
  digest, LIVE is confirmed and protected by exchange stops, no other mode points at the
  production stream, TESTNET and LIVE have both credentials, PAPER uses software stops and the
  control plane token is not the placeholder and has at least 32 characters.
\<close>

theorem validate_runtime_accepts:
  "validate_runtime isfile c = Inr () \<longleftrightarrow>
     (TRADING_MODE c = ''PAPER'' \<and> PROTECTIVE_STOP_MODE c = ''software''
      \<or> TRADING_MODE c = ''TESTNET'' \<and> PROTECTIVE_STOP_MODE c \<in> {''software'', ''exchange''}
      \<or> TRADING_MODE c = ''LIVE'' \<and> LIVE_TRADING_CONFIRMED c \<and> PROTECTIVE_STOP_MODE c = ''exchange'')
     \<and> (TRADING_MODE c = ''LIVE'' \<or> \<not> contains ''ws-api.binance.com'' (BINANCE_WS_API_URL c))
     \<and> (TRADING_MODE c = ''PAPER'' \<or> API_KEY c \<noteq> [] \<and> API_SECRET c \<noteq> [])
     \<and> (STRATEGY_MODE c = ''v1'' \<or> STRATEGY_MODE c \<in> {''veto'', ''ml''} \<and> ML_MODEL_PATH c \<noteq> []
         \<and> isfile (ML_MODEL_PATH c) \<and> is_hex64 (ML_MODEL_SHA256 c))
     \<and> CONTROL_PLANE_TOKEN c \<noteq> ''CHANGE_THIS_LONG_RANDOM_SECRET'' \<and> 32 \<le> length (CONTROL_PLANE_TOKEN c)"
proof -
  have modes: "distinct [''PAPER'', ''TESTNET'', ''LIVE'']" "distinct [''software'', ''exchange'']"
    "distinct [''v1'', ''veto'', ''ml'']"
    by simp_all
  show ?thesis
    unfolding validate_runtime_def Let_def guards_Inr trading_modes_def not_less [symmetric]
    using accepts_logic [OF modes, where tm = "TRADING_MODE c" and st = "PROTECTIVE_STOP_MODE c" and sm = "STRATEGY_MODE c"
        and np = "ML_MODEL_PATH c = []" and f = "isfile (ML_MODEL_PATH c)" and hx = "is_hex64 (ML_MODEL_SHA256 c)"
        and conf = "LIVE_TRADING_CONFIRMED c" and ws = "contains ''ws-api.binance.com'' (BINANCE_WS_API_URL c)"
        and nk = "API_KEY c = []" and ns = "API_SECRET c = []"
        and tk = "CONTROL_PLANE_TOKEN c = ''CHANGE_THIS_LONG_RANDOM_SECRET''" and sh = "length (CONTROL_PLANE_TOKEN c) < 32"]
    by (simp only: list.set ball_simps insert_iff empty_iff fst_conv simp_thms de_Morgan_disj de_Morgan_conj not_not)
qed

theorem validate_runtime_accepts_witness:
  "validate_runtime (\<lambda>_. False) demo_config = Inr ()"
proof (subst validate_runtime_accepts, intro conjI)
  show "TRADING_MODE demo_config = ''LIVE'' \<or> \<not> contains ''ws-api.binance.com'' (BINANCE_WS_API_URL demo_config)"
    by code_simp
  show "CONTROL_PLANE_TOKEN demo_config \<noteq> ''CHANGE_THIS_LONG_RANDOM_SECRET''" by code_simp
qed (simp_all add: demo_config_def)

text \<open>
  Non-V1 parameters are always tagged. Whatever the environment, when the configuration can be
  read, its strategy version is the plain V1 version exactly when the buy and sell thresholds and
  the stop distance are the V1 values.
\<close>

theorem read_config_tags:
  assumes "read_config env = Inr c"
  shows "STRATEGY_VERSION c = ''1.0.0'' \<longleftrightarrow> v1_parameters c"
proof -
  have "\<exists>c0. c = tag_version c0 \<and> STRATEGY_VERSION c0 = ''1.0.0''"
    using assms unfolding read_config_def by (elim bindR_InrE) (simp only: sum.inject, rule exI, erule conjI [OF sym], simp)
  then obtain c0 where c0: "c = tag_version c0" "STRATEGY_VERSION c0 = ''1.0.0''" by blast
  then have "v1_parameters c \<longleftrightarrow> v1_parameters c0" by (simp add: tag_version_def v1_parameters_def)
  then show ?thesis using c0 by (cases "v1_parameters c0") (simp_all add: tag_version_def)
qed

theorem read_config_tags_witness:
  "\<exists>c. read_config (\<lambda>_. None) = Inr c \<and> (STRATEGY_VERSION c = ''1.0.0'' \<longleftrightarrow> v1_parameters c)"
proof -
  have "\<not> isl (read_config (\<lambda>_. None))" by code_simp
  then obtain c where c: "read_config (\<lambda>_. None) = Inr c" by (cases "read_config (\<lambda>_. None)") auto
  from c read_config_tags [OF c] show ?thesis by blast
qed

end
