(* ===== verification/Positions.thy ===== *)
theory Positions
  imports Ledger Config
begin

text \<open>
  Position and profit accounting: \<^verbatim>\<open>engine/application/position_service.py\<close>.
  \<open>apply_fill_to_position\<close> is the routine that incremental updates and \<open>rebuild\<close> share, a call on
  the position object; the \<open>PositionService\<close> methods (prefix \<open>pos_\<close>) work on the ledger. The
  lemmas show that a position never becomes negative, that a fill moves its book value by its cash
  flow up to the rounding of 28-digit decimals, and when a rebuild agrees with the incremental
  updates.
\<close>

section \<open>The accounting routine\<close>

text \<open>\<^verbatim>\<open>base, quote = symbol.split("/")\<close>\<close>

definition assets :: "string \<Rightarrow> exn + string \<times> string" where
  "assets symbol = (case split_char (CHR ''/'') symbol of
     [b, q] \<Rightarrow> Inr (b, q)
   | [b] \<Rightarrow> Inl (ValueError ''not enough values to unpack (expected 2, got 1)'')
   | _ \<Rightarrow> Inl (ValueError ''too many values to unpack (expected 2)''))"

definition fill_gross :: "fill \<Rightarrow> rat" where
  "fill_gross f = (if 0 < f_quote f then f_quote f else dmul (f_qty f) (f_price f))"

text \<open>The commission of the fill when it was charged in the given asset.\<close>

definition fee_in :: "string \<Rightarrow> fill \<Rightarrow> rat" where
  "fee_in asset f = (if f_commission_asset f = Some asset then f_commission f else 0)"

definition note_other_fee :: "string \<Rightarrow> string \<Rightarrow> fill \<Rightarrow> position \<Rightarrow> position" where
  "note_other_fee base quote f p = (case f_commission_asset f of
     None \<Rightarrow> p
   | Some a \<Rightarrow> if 0 < f_commission f \<and> a \<noteq> base \<and> a \<noteq> quote
       then p\<lparr>p_fees_other := AList.update a (dadd (dict_get (p_fees_other p) a 0) (f_commission f)) (p_fees_other p)\<rparr>
       else p)"

definition received :: "string \<Rightarrow> fill \<Rightarrow> rat" where
  "received base f = dsub (f_qty f) (fee_in base f)"

definition buy_cost :: "string \<Rightarrow> fill \<Rightarrow> rat" where
  "buy_cost quote f = dadd (fill_gross f) (fee_in quote f)"

definition delivered :: "string \<Rightarrow> fill \<Rightarrow> rat" where
  "delivered base f = dadd (f_qty f) (fee_in base f)"

definition sell_proceeds :: "string \<Rightarrow> fill \<Rightarrow> rat" where
  "sell_proceeds quote f = dsub (fill_gross f) (fee_in quote f)"

definition apply_buy :: "string \<Rightarrow> string \<Rightarrow> fill \<Rightarrow> position \<Rightarrow> position" where
  "apply_buy base quote f p = (let new_qty = dadd (p_qty p) (received base f) in
     p\<lparr>p_avg := ddiv (dadd (dmul (p_qty p) (p_avg p)) (buy_cost quote f)) new_qty,
       p_opened := (if p_qty p \<le> 0 then Some (f_time f) else p_opened p),
       p_qty := new_qty\<rparr>)"

definition tolerance :: rat where "tolerance = 1 / 10 ^ 12"

definition sell_exceeds :: "string \<Rightarrow> fill \<Rightarrow> position \<Rightarrow> bool" where
  "sell_exceeds base f p \<longleftrightarrow> dadd (p_qty p) tolerance < delivered base f"

definition sell_realized :: "string \<Rightarrow> string \<Rightarrow> fill \<Rightarrow> position \<Rightarrow> rat" where
  "sell_realized base quote f p =
     (let for_cost = (if sell_exceeds base f p then p_qty p else delivered base f)
      in dsub (sell_proceeds quote f) (dmul (p_avg p) for_cost))"

definition apply_sell :: "string \<Rightarrow> string \<Rightarrow> fill \<Rightarrow> position \<Rightarrow> position" where
  "apply_sell base quote f p = (let left = max 0 (dsub (p_qty p) (delivered base f));
       p1 = p\<lparr>p_realized := dadd (p_realized p) (sell_realized base quote f p), p_qty := left\<rparr>
     in if left = 0 then p1\<lparr>p_avg := 0, p_stop := None, p_opened := None\<rparr> else p1)"

definition remark :: "position \<Rightarrow> position" where
  "remark p = (case p_mark p of None \<Rightarrow> p | Some m \<Rightarrow> mark_position m p)"

text \<open>The result: the realized profit of this fill and the anomalies noticed.\<close>

definition apply_fill_to_position :: "fill \<Rightarrow> (position, rat \<times> string list) eff" where
  "apply_fill_to_position f p = (case assets (f_symbol f) of
     Inl e \<Rightarrow> (Inl e, p)
   | Inr (base, quote) \<Rightarrow>
       let p1 = note_other_fee base quote f p in
       if f_side f = BUY then
         if received base f \<le> 0 then (Inr (0, [''BUY_FILL_NON_POSITIVE_QUANTITY'']), p1)
         else if dadd (p_qty p1) (received base f) = 0 then (Inl (Other ''division by zero''), p1)
         else (Inr (0, []), remark (apply_buy base quote f p1))
       else if f_side f = SELL then
         (Inr (sell_realized base quote f p1,
               if sell_exceeds base f p1 then [''SELL_EXCEEDS_TRACKED_POSITION''] else []),
          remark (apply_sell base quote f p1))
       else (Inr (0, [''UNKNOWN_SIDE:'' @ f_side f]), remark p1))"

section \<open>PositionService\<close>

record apply_result =
  ar_position :: position
  ar_realized_delta :: rat
  ar_anomalies :: "string list"

definition pos_apply_fill :: "config \<Rightarrow> fill \<Rightarrow> ('x world, apply_result) eff" where
  "pos_apply_fill cfg f = bindE (get_position (BOT_INSTANCE_ID cfg) (f_symbol f)) (\<lambda>p.
     bindE (objE (apply_fill_to_position f) p) (\<lambda>((delta, anomalies), p).
       bindE (save_position p) (\<lambda>p.
         ret \<lparr>ar_position = p, ar_realized_delta = delta, ar_anomalies = anomalies\<rparr>)))"

text \<open>The loop of \<^verbatim>\<open>rebuild\<close>: the fills applied one after the other, their anomalies collected.\<close>

fun apply_fills :: "fill list \<Rightarrow> (position, string list) eff" where
  "apply_fills [] p = (Inr [], p)"
| "apply_fills (f # fs) p = (case apply_fill_to_position f p of
     (Inl e, p') \<Rightarrow> (Inl e, p')
   | (Inr (_, a), p') \<Rightarrow>
       (case apply_fills fs p' of (Inl e, p'') \<Rightarrow> (Inl e, p'') | (Inr as, p'') \<Rightarrow> (Inr (a @ as), p'')))"

definition pos_rebuild :: "config \<Rightarrow> string \<Rightarrow> bool \<Rightarrow> ('x world, position \<times> string list) eff" where
  "pos_rebuild cfg symbol persist = bindE (get_position (BOT_INSTANCE_ID cfg) symbol) (\<lambda>existing.
     let p0 = (new_position (BOT_INSTANCE_ID cfg) symbol)\<lparr>p_mark := p_mark existing\<rparr> in
     bindE (list_fills (BOT_INSTANCE_ID cfg) symbol) (\<lambda>fs.
       bindE (objE (apply_fills fs) p0) (\<lambda>(anomalies, p).
         let p = (if 0 < p_qty p then p\<lparr>p_stop := p_stop existing\<rparr> else p) in
         if persist then bindE (save_position p) (\<lambda>p. ret (p, anomalies)) else ret (p, anomalies))))"

definition pos_set_stop :: "config \<Rightarrow> string \<Rightarrow> rat \<Rightarrow> ('x world, position) eff" where
  "pos_set_stop cfg symbol stop = transaction (bindE (get_position (BOT_INSTANCE_ID cfg) symbol) (\<lambda>p.
     save_position (p\<lparr>p_stop := Some stop\<rparr>)))"

definition pos_mark :: "config \<Rightarrow> string \<Rightarrow> rat \<Rightarrow> ('x world, position) eff" where
  "pos_mark cfg symbol price = transaction (bindE (get_position (BOT_INSTANCE_ID cfg) symbol) (\<lambda>p.
     save_position (mark_position price p)))"

definition pos_get :: "config \<Rightarrow> string \<Rightarrow> ('x world, position) eff" where
  "pos_get cfg symbol = get_position (BOT_INSTANCE_ID cfg) symbol"

definition open_position_count :: "config \<Rightarrow> (string \<rightharpoonup> symbol_rules) \<Rightarrow> ('x world, nat) eff" where
  "open_position_count cfg rules = bindE (list_positions (BOT_INSTANCE_ID cfg)) (\<lambda>ps.
     ret (length (filter (\<lambda>p. is_open p (rules (p_symbol p))) ps)))"

definition cash_step :: "string \<Rightarrow> rat \<Rightarrow> fill \<Rightarrow> rat" where
  "cash_step quote cash f = dadd cash
     (if f_side f = SELL then dsub (fill_gross f) (fee_in quote f)
      else - dadd (fill_gross f) (fee_in quote f))"

definition paper_cash :: "config \<Rightarrow> string \<Rightarrow> ('x world, rat) eff" where
  "paper_cash cfg symbol = bindE (liftE (assets symbol)) (\<lambda>(base, quote).
     bindE (list_fills (BOT_INSTANCE_ID cfg) symbol) (\<lambda>fs.
       ret (foldl (cash_step quote) (py_repr (STARTING_PAPER_BALANCE cfg)) fs)))"

definition paper_balances :: "config \<Rightarrow> string \<Rightarrow> ('x world, string \<times> rat \<times> string \<times> rat) eff" where
  "paper_balances cfg symbol = bindE (liftE (assets symbol)) (\<lambda>(base, quote).
     bindE (paper_cash cfg symbol) (\<lambda>cash. bindE (pos_get cfg symbol) (\<lambda>p.
       ret (quote, cash, base, p_qty p))))"

definition equity :: "config \<Rightarrow> string \<Rightarrow> rat \<Rightarrow> rat \<Rightarrow> ('x world, rat) eff" where
  "equity cfg symbol quote_total mark_price = bindE (pos_get cfg symbol) (\<lambda>p.
     ret (dadd quote_total (dmul (p_qty p) mark_price)))"

section \<open>A position never becomes negative\<close>

definition fill_ok :: "fill \<Rightarrow> bool" where
  "fill_ok f \<longleftrightarrow> 0 < f_qty f \<and> 0 \<le> f_price f \<and> 0 \<le> f_commission f"

definition position_ok :: "position \<Rightarrow> bool" where
  "position_ok p \<longleftrightarrow> 0 \<le> p_qty p \<and> 0 \<le> p_avg p \<and> (p_qty p = 0 \<longrightarrow> p_avg p = 0 \<and> p_opened p = None)"

text \<open>What the accounting reads and writes, apart from the mark price.\<close>

definition book_fields :: "position \<Rightarrow> rat \<times> rat \<times> rat \<times> time option \<times> string \<times> string" where
  "book_fields p = (p_qty p, p_avg p, p_realized p, p_opened p, p_bot p, p_symbol p)"

lemma note_other_fee_simps [simp]:
  "book_fields (note_other_fee b q f p) = book_fields p"
  "p_qty (note_other_fee b q f p) = p_qty p" "p_avg (note_other_fee b q f p) = p_avg p"
  "p_realized (note_other_fee b q f p) = p_realized p" "p_opened (note_other_fee b q f p) = p_opened p"
  "p_stop (note_other_fee b q f p) = p_stop p" "p_mark (note_other_fee b q f p) = p_mark p"
  by (auto simp: note_other_fee_def book_fields_def split: option.splits)

lemma remark_simps [simp]:
  "book_fields (remark p) = book_fields p"
  "p_qty (remark p) = p_qty p" "p_avg (remark p) = p_avg p" "p_realized (remark p) = p_realized p"
  "p_opened (remark p) = p_opened p" "p_stop (remark p) = p_stop p" "p_mark (remark p) = p_mark p"
  "p_fees_other (remark p) = p_fees_other p" "p_bot (remark p) = p_bot p" "p_symbol (remark p) = p_symbol p"
  "p_side (remark p) = p_side p"
  by (auto simp: remark_def mark_position_def book_fields_def split: option.splits)

lemma position_ok_other [simp]:
  "position_ok (remark p) = position_ok p" "position_ok (note_other_fee b q f p) = position_ok p"
  by (simp_all add: position_ok_def)

lemma gross_nonneg: "fill_ok f \<Longrightarrow> 0 \<le> fill_gross f"
  by (simp add: fill_gross_def fill_ok_def dmul_nonneg)

lemma fee_nonneg: "fill_ok f \<Longrightarrow> 0 \<le> fee_in a f"
  by (simp add: fee_in_def fill_ok_def)

lemma cost_nonneg: "fill_ok f \<Longrightarrow> 0 \<le> buy_cost q f"
  by (simp add: buy_cost_def dadd_nonneg gross_nonneg fee_nonneg)

lemma delivered_pos: "fill_ok f \<Longrightarrow> 0 < delivered b f"
  using fee_nonneg [of f b] by (simp add: delivered_def fill_ok_def dadd_def dec.R_pos)

lemma apply_buy_ok:
  assumes "position_ok p" "fill_ok f" "0 < received b f"
  shows "position_ok (apply_buy b q f p)" "0 < p_qty (apply_buy b q f p)"
proof -
  have q: "0 < dadd (p_qty p) (received b f)" using assms by (intro dadd_pos) (auto simp: position_ok_def)
  then show "0 < p_qty (apply_buy b q f p)" by (simp add: apply_buy_def Let_def)
  have "0 \<le> p_avg (apply_buy b q f p)"
    using assms q cost_nonneg [of f q]
    by (simp add: apply_buy_def Let_def position_ok_def ddiv_nonneg dadd_nonneg dmul_nonneg)
  then show "position_ok (apply_buy b q f p)" using q by (simp add: position_ok_def apply_buy_def Let_def)
qed

lemma apply_sell_ok: "position_ok p \<Longrightarrow> position_ok (apply_sell b q f p)"
  by (auto simp: position_ok_def apply_sell_def Let_def)

text \<open>How the routine ends, by the side of the fill.\<close>

lemma apply_fill_cases:
  assumes "apply_fill_to_position f p = (r, p')"
  obtains (malformed) e where "assets (f_symbol f) = Inl e" "r = Inl e" "p' = p"
    | (empty_buy) b q where "assets (f_symbol f) = Inr (b, q)" "f_side f = BUY" "received b f \<le> 0"
        "r = Inr (0, [''BUY_FILL_NON_POSITIVE_QUANTITY''])" "p' = note_other_fee b q f p"
    | (no_division) b q where "assets (f_symbol f) = Inr (b, q)" "f_side f = BUY" "0 < received b f"
        "dadd (p_qty p) (received b f) = 0" "r = Inl (Other ''division by zero'')" "p' = note_other_fee b q f p"
    | (buy) b q where "assets (f_symbol f) = Inr (b, q)" "f_side f = BUY" "0 < received b f"
        "r = Inr (0, [])" "p' = remark (apply_buy b q f (note_other_fee b q f p))"
    | (sell) b q where "assets (f_symbol f) = Inr (b, q)" "f_side f = SELL" "BUY \<noteq> SELL"
        "r = Inr (sell_realized b q f (note_other_fee b q f p),
               if sell_exceeds b f p then [''SELL_EXCEEDS_TRACKED_POSITION''] else [])"
        "p' = remark (apply_sell b q f (note_other_fee b q f p))"
    | (unknown) b q where "assets (f_symbol f) = Inr (b, q)" "f_side f \<noteq> BUY" "f_side f \<noteq> SELL"
        "r = Inr (0, [''UNKNOWN_SIDE:'' @ f_side f])" "p' = remark (note_other_fee b q f p)"
proof (cases "assets (f_symbol f)")
  case (Inl e)
  then show thesis using assms malformed [of e] by (simp add: apply_fill_to_position_def)
next
  case (Inr bq)
  obtain b q where bq: "bq = (b, q)" by (cases bq)
  have ne: "BUY \<noteq> SELL" by (simp add: BUY_def SELL_def)
  show thesis
    using assms Inr ne unfolding bq apply_fill_to_position_def Let_def
    by (auto simp: sell_exceeds_def split: if_splits intro: empty_buy no_division buy sell unknown)
qed

lemma apply_fill_keeps_ok:
  assumes "position_ok p" "fill_ok f" "apply_fill_to_position f p = (r, p')"
  shows "position_ok p'"
  using assms(3)
proof (cases rule: apply_fill_cases)
  case (buy b q)
  then show ?thesis using apply_buy_ok(1) [of "note_other_fee b q f p" f b q] assms(1,2) by simp
next
  case (sell b q)
  then show ?thesis using apply_sell_ok [of "note_other_fee b q f p" b q f] assms(1) by simp
qed (use assms(1) in auto)

lemma apply_fills_keeps_ok:
  assumes "position_ok p" "\<forall>f\<in>set fs. fill_ok f" "apply_fills fs p = (r, p')"
  shows "position_ok p'"
  using assms
proof (induction fs arbitrary: p r p')
  case (Cons f fs)
  obtain r1 p1 where f: "apply_fill_to_position f p = (r1, p1)" by fastforce
  obtain r2 p2 where fs: "apply_fills fs p1 = (r2, p2)" by fastforce
  have ok1: "position_ok p1" using apply_fill_keeps_ok [OF _ _ f] Cons.prems by simp
  have "position_ok p2" using Cons.IH [OF ok1 _ fs] Cons.prems by simp
  then show ?case
    using Cons.prems(3) f fs ok1 by (auto simp: bindE_apply split: sum.splits prod.splits)
qed simp

text \<open>
  No sequence of fills makes a position negative. Whatever the fills are (sides, symbols and
  fee assets included), starting from a well-formed position the quantity and the average entry
  price stay non-negative, and a flat position has average price zero and no opening time, even
  when the routine raises on the way. An oversold position is clamped at zero, not short.
\<close>

theorem fills_never_short:
  assumes "position_ok p" "\<forall>f\<in>set fs. fill_ok f"
  shows "position_ok (snd (apply_fills fs p))"
  using apply_fills_keeps_ok [OF assms] by (metis prod.collapse)

definition demo_fill :: "string \<Rightarrow> rat \<Rightarrow> rat \<Rightarrow> time \<Rightarrow> string \<Rightarrow> fill" where
  "demo_fill side qty price t key = \<lparr>f_order_id = 1, f_coid = ''c'', f_symbol = ''BTC/USDT'', f_side = side,
     f_qty = qty, f_price = price, f_quote = 0, f_commission = 1 / 1000, f_commission_asset = Some ''BTC'',
     f_time = t, f_key = key, f_trade_id = None, f_id = 0\<rparr>"

theorem fills_never_short_witness:
  "position_ok (snd (apply_fills [demo_fill BUY 1 100 0 ''a'', demo_fill SELL 2 110 1 ''b''] (new_position ''bot'' ''BTC/USDT'')))"
  by (rule fills_never_short) (simp_all add: position_ok_def new_position_def fill_ok_def demo_fill_def)

section \<open>Fills move the book value by their cash flow\<close>

text \<open>
  The book value is the realized profit less the cost of what is held; the exact reference is
  that a fill adds its cash flow to it. Decimals round to 28 digits, so the routine implements the
  reference up to \<open>slack\<close>: a few rounding units of the amounts involved, and, when a sell exceeds
  the position by no more than the tolerance, the cost of that excess.
\<close>

definition rounding_unit :: rat where "rounding_unit = 10 powi (- 27) / 2"

definition book_value :: "position \<Rightarrow> rat" where
  "book_value p = p_realized p - p_qty p * p_avg p"

definition cash_flow :: "string \<Rightarrow> fill \<Rightarrow> rat" where
  "cash_flow quote f = (if f_side f = SELL then sell_proceeds quote f else - buy_cost quote f)"

definition slack :: "string \<Rightarrow> string \<Rightarrow> fill \<Rightarrow> position \<Rightarrow> rat" where
  "slack base quote f p = (if f_side f = SELL then
       let d = delivered base f; pr = sell_proceeds quote f; t = dmul (p_avg p) d; delta = dsub pr t in
       rounding_unit * (\<bar>p_realized p + delta\<bar> + \<bar>pr - t\<bar> + p_avg p * max (p_qty p) d) + p_avg p * max 0 (d - p_qty p)
     else 4 * rounding_unit * (p_qty p * p_avg p + buy_cost quote f))"

lemma dec_error: "\<bar>dec_round x - x\<bar> \<le> \<bar>x\<bar> * rounding_unit"
  using dec_round_error [of x] by (simp add: rounding_unit_def)

lemma rounding_unit_bounds: "0 < rounding_unit" "rounding_unit \<le> 1 / 10"
  by (simp_all add: rounding_unit_def power_int_def power_divide)

lemma dec_sandwich:
  assumes "0 \<le> x"
  shows "x * (1 - rounding_unit) \<le> dec_round x" "dec_round x \<le> x * (1 + rounding_unit)"
  using dec_error [of x] assms by (simp_all add: algebra_simps abs_le_iff)

lemma buy_rounding:
  assumes "0 \<le> x" "0 \<le> c" "0 < n"
  shows "\<bar>n * ddiv (dadd (dec_round x) c) n - (x + c)\<bar> \<le> 4 * rounding_unit * (x + c)"
proof -
  let ?u = rounding_unit and ?a = "dec_round x" and ?b = "dadd (dec_round x) c"
  have u: "0 < ?u" "?u \<le> 1 / 10" by (rule rounding_unit_bounds)+
  have a: "0 \<le> ?a" using assms(1) by (rule dec.R_nonneg)
  have b: "0 \<le> ?b" using a assms(2) by (simp add: dadd_nonneg)
  have uc: "0 \<le> ?u * c" using u assms(2) by simp
  have n: "n * dec_round (?b / n) \<le> ?b * (1 + ?u)" "?b * (1 - ?u) \<le> n * dec_round (?b / n)"
    using dec_sandwich [of "?b / n"] b assms(3) by (simp_all add: field_simps)
  have "?b \<le> (?a + c) * (1 + ?u)" using dec_sandwich(2) [of "?a + c"] a assms(2) by (simp add: dadd_def)
  also have "\<dots> \<le> ((x + c) * (1 + ?u)) * (1 + ?u)"
    using dec_sandwich(2) [OF assms(1)] uc u by (intro mult_right_mono) (auto simp: algebra_simps)
  finally have up: "?b * (1 + ?u) \<le> ((x + c) * (1 + ?u) * (1 + ?u)) * (1 + ?u)"
    using u by (intro mult_right_mono) auto
  have "((x + c) * (1 - ?u)) * (1 - ?u) \<le> (?a + c) * (1 - ?u)"
    using dec_sandwich(1) [OF assms(1)] uc u by (intro mult_right_mono) (auto simp: algebra_simps)
  also have "\<dots> \<le> ?b" using dec_sandwich(1) [of "?a + c"] a assms(2) by (simp add: dadd_def)
  finally have lo: "((x + c) * (1 - ?u) * (1 - ?u)) * (1 - ?u) \<le> ?b * (1 - ?u)"
    using u by (intro mult_right_mono) auto
  have uu: "?u * ?u \<le> ?u / 10" using u mult_left_mono [OF u(2), of ?u] by simp
  have "?u * ?u * ?u \<le> (?u / 10) * ?u" using u uu by (intro mult_right_mono) auto
  moreover have "(?u / 10) * ?u = (?u * ?u) / 10" by simp
  ultimately have uuu: "?u * ?u * ?u \<le> ?u / 10" using uu u by linarith
  have k: "(1 + ?u) * (1 + ?u) * (1 + ?u) \<le> 1 + 4 * ?u" "1 - 4 * ?u \<le> (1 - ?u) * (1 - ?u) * (1 - ?u)"
  proof -
    have "(1 + ?u) * (1 + ?u) * (1 + ?u) = 1 + 3 * ?u + 3 * (?u * ?u) + ?u * ?u * ?u" by (simp add: algebra_simps)
    then show "(1 + ?u) * (1 + ?u) * (1 + ?u) \<le> 1 + 4 * ?u" using uu uuu u by linarith
    have "(1 - ?u) * (1 - ?u) * (1 - ?u) = 1 - 3 * ?u + 3 * (?u * ?u) - ?u * ?u * ?u" by (simp add: algebra_simps)
    moreover have "0 \<le> ?u * ?u" by simp
    ultimately show "1 - 4 * ?u \<le> (1 - ?u) * (1 - ?u) * (1 - ?u)" using uuu u by linarith
  qed
  have "n * ddiv ?b n \<le> (x + c) * (1 + 4 * ?u)"
    using n(1) up mult_left_mono [OF k(1), of "x + c"] assms by (simp add: ddiv_def mult.assoc)
  moreover have "(x + c) * (1 - 4 * ?u) \<le> n * ddiv ?b n"
    using n(2) lo mult_left_mono [OF k(2), of "x + c"] assms by (simp add: ddiv_def mult.assoc)
  ultimately show ?thesis by (simp add: abs_le_iff algebra_simps)
qed

lemma sell_rounding:
  assumes "0 \<le> q" "0 \<le> a" "0 \<le> d"
    and d: "t = dmul a d" "delta = dsub pr t" "r' = dadd r delta" "left = max 0 (dsub q d)"
  shows "\<bar>(r' - left * a) - (r - q * a + pr)\<bar>
      \<le> rounding_unit * (\<bar>r + delta\<bar> + \<bar>pr - t\<bar> + a * max q d) + a * max 0 (d - q)"
proof -
  let ?u = rounding_unit
  have u: "0 < ?u" by (rule rounding_unit_bounds)
  have e1: "\<bar>r' - (r + delta)\<bar> \<le> \<bar>r + delta\<bar> * ?u" unfolding d(3) dadd_def by (rule dec_error)
  have e2: "\<bar>delta - (pr - t)\<bar> \<le> \<bar>pr - t\<bar> * ?u" unfolding d(2) dsub_def by (rule dec_error)
  have e3: "\<bar>t - a * d\<bar> \<le> a * d * ?u"
    using dec_error [of "a * d"] assms by (simp add: d(1) dmul_def abs_mult)
  have e4: "\<bar>(q - d) - left\<bar> \<le> max 0 (q - d) * ?u + max 0 (d - q)"
  proof (cases "d < q")
    case True
    then have "left = dec_round (q - d)" using dsub_pos_iff [of q d] by (simp add: d(4) dsub_def)
    then show ?thesis using dec_error [of "q - d"] True by simp
  next
    case False
    then have "left = 0" using dsub_pos_iff [of q d] by (simp add: d(4))
    then show ?thesis using False by simp
  qed
  have e5: "\<bar>a * ((q - d) - left)\<bar> \<le> a * max 0 (q - d) * ?u + a * max 0 (d - q)"
  proof -
    have "\<bar>a * ((q - d) - left)\<bar> = a * \<bar>(q - d) - left\<bar>" using assms(2) by (simp add: abs_mult)
    also have "\<dots> \<le> a * (max 0 (q - d) * ?u + max 0 (d - q))" by (rule mult_left_mono [OF e4 assms(2)])
    finally show ?thesis by (simp add: algebra_simps)
  qed
  have m: "a * d + a * max 0 (q - d) = a * max q d" by (simp add: max_def algebra_simps)
  have "(r' - left * a) - (r - q * a + pr)
      = (r' - (r + delta)) + (delta - (pr - t)) - (t - a * d) + a * ((q - d) - left)"
    by (simp add: algebra_simps)
  also have "\<bar>\<dots>\<bar> \<le> \<bar>r + delta\<bar> * ?u + \<bar>pr - t\<bar> * ?u + a * d * ?u + (a * max 0 (q - d) * ?u + a * max 0 (d - q))"
    using e1 e2 e3 e5 by linarith
  also have "\<dots> = ?u * (\<bar>r + delta\<bar> + \<bar>pr - t\<bar> + (a * d + a * max 0 (q - d))) + a * max 0 (d - q)"
    by (simp add: algebra_simps)
  finally show ?thesis by (simp only: m)
qed

text \<open>
  C16: fills are accounted at their cash flow. When a fill is applied without an anomaly, the
  position's book value (realized profit less cost of the quantity held) changes by exactly the
  fill's cash flow, gross amount with the quote-asset fee, up to the rounding of the decimal
  context, which \<open>slack\<close> bounds; base-asset fees change the quantity and never the cash.
\<close>

theorem fill_books_cash_flow:
  assumes "position_ok p" "fill_ok f" "assets (f_symbol f) = Inr (base, quote)"
    and "apply_fill_to_position f p = (Inr (delta, []), p')"
  shows "\<bar>book_value p' - (book_value p + cash_flow quote f)\<bar> \<le> slack base quote f p"
  using assms(4)
proof (cases rule: apply_fill_cases)
  case (buy b q)
  have bq: "b = base" "q = quote" using buy(1) assms(3) by simp_all
  let ?p = "note_other_fee base quote f p" and ?x = "p_qty p * p_avg p" and ?n = "dadd (p_qty p) (received base f)"
  have side: "f_side f \<noteq> SELL" using buy(2) by (simp add: BUY_def SELL_def)
  have x: "0 \<le> ?x" using assms(1) by (simp add: position_ok_def)
  have n: "0 < ?n" using assms(1) buy(3) by (intro dadd_pos) (simp_all add: position_ok_def bq)
  have "book_value p' = p_realized p - ?n * ddiv (dadd (dec_round ?x) (buy_cost quote f)) ?n"
    by (simp add: buy(5) bq book_value_def apply_buy_def Let_def dmul_def)
  then show ?thesis
    using buy_rounding [OF x cost_nonneg [OF assms(2), of quote] n] side
    by (simp add: book_value_def cash_flow_def slack_def abs_le_iff algebra_simps)
next
  case (sell b q)
  have bq: "b = base" "q = quote" using sell(1) assms(3) by simp_all
  let ?d = "delivered base f" and ?pr = "sell_proceeds quote f"
  have fits: "\<not> sell_exceeds base f p" using sell(4) by (auto simp: bq split: if_splits)
  have fits': "\<not> sell_exceeds base f (note_other_fee base quote f p)" using fits by (simp add: sell_exceeds_def)
  let ?delta = "dsub ?pr (dmul (p_avg p) ?d)" and ?left = "max 0 (dsub (p_qty p) ?d)"
  have "book_value p' = dadd (p_realized p) ?delta - ?left * p_avg p"
    using fits' by (simp add: sell(5) bq book_value_def apply_sell_def Let_def sell_realized_def del: max.absorb1 max.absorb2)
  then have "book_value p' - (book_value p + cash_flow quote f)
      = (dadd (p_realized p) ?delta - ?left * p_avg p) - (p_realized p - p_qty p * p_avg p + ?pr)"
    using sell(2) by (simp only: book_value_def cash_flow_def simp_thms if_True)
  then show ?thesis
    using sell_rounding [where q = "p_qty p" and a = "p_avg p" and d = ?d and pr = ?pr and r = "p_realized p",
        OF _ _ _ refl refl refl refl] assms(1) delivered_pos [OF assms(2), of base] sell(2)
    by (simp add: slack_def position_ok_def Let_def)
qed (use assms(4) in auto)

theorem fill_books_cash_flow_witness:
  "\<bar>book_value (snd (apply_fill_to_position (demo_fill BUY 3 100 0 ''a'') (new_position ''bot'' ''BTC/USDT'')))
     - (book_value (new_position ''bot'' ''BTC/USDT'') + cash_flow ''USDT'' (demo_fill BUY 3 100 0 ''a''))\<bar>
   \<le> slack ''BTC'' ''USDT'' (demo_fill BUY 3 100 0 ''a'') (new_position ''bot'' ''BTC/USDT'')"
proof (rule fill_books_cash_flow [where delta = 0])
  show "position_ok (new_position ''bot'' ''BTC/USDT'')" by (simp add: position_ok_def new_position_def)
  show "fill_ok (demo_fill BUY 3 100 0 ''a'')" by (simp add: fill_ok_def demo_fill_def)
  show "assets (f_symbol (demo_fill BUY 3 100 0 ''a'')) = Inr (''BTC'', ''USDT'')" by code_simp
  show "apply_fill_to_position (demo_fill BUY 3 100 0 ''a'') (new_position ''bot'' ''BTC/USDT'')
      = (Inr (0, []), snd (apply_fill_to_position (demo_fill BUY 3 100 0 ''a'') (new_position ''bot'' ''BTC/USDT'')))"
    by code_simp
qed

section \<open>Rebuilding a position from its fills\<close>

text \<open>
  The accounting of a position: everything but the mark price with the profit it implies, the stop
  and the time of the last update, which do not come from fills.
\<close>

definition book :: "position \<Rightarrow> position" where
  "book p = p\<lparr>p_mark := None, p_unrealized := 0, p_stop := None, p_updated := None\<rparr>"

lemma book_idem [simp]: "book (book p) = book p"
  by (simp add: book_def)

lemma book_eqD:
  assumes "book p = book q"
  shows "p_qty p = p_qty q" "p_avg p = p_avg q" "p_realized p = p_realized q" "p_opened p = p_opened q"
    "p_fees_other p = p_fees_other q" "p_bot p = p_bot q" "p_symbol p = p_symbol q" "p_side p = p_side q"
  using assms by (cases p; cases q; simp add: book_def)+

lemma book_eqI:
  assumes "p_qty p = p_qty q" "p_avg p = p_avg q" "p_realized p = p_realized q" "p_opened p = p_opened q"
    "p_fees_other p = p_fees_other q" "p_bot p = p_bot q" "p_symbol p = p_symbol q" "p_side p = p_side q"
  shows "book p = book q"
  using assms by (simp add: book_def)

lemma book_upd [simp]:
  "book (p\<lparr>p_stop := x\<rparr>) = book p" "book (p\<lparr>p_updated := t\<rparr>) = book p" "book (p\<lparr>p_mark := m\<rparr>) = book p"
  "book (mark_position m' p) = book p" "book (remark p) = book p"
  by (auto simp: book_def mark_position_def remark_def split: option.splits)

lemma note_other_fee_book: "book p = book q \<Longrightarrow> book (note_other_fee b c f p) = book (note_other_fee b c f q)"
  by (auto dest: book_eqD simp: note_other_fee_def intro!: book_eqI split: option.splits)

lemma sell_exceeds_book: "book p = book q \<Longrightarrow> sell_exceeds b f p = sell_exceeds b f q"
  by (simp add: sell_exceeds_def book_eqD [of p q])

lemma sell_realized_book: "book p = book q \<Longrightarrow> sell_realized b c f p = sell_realized b c f q"
  by (simp add: sell_realized_def sell_exceeds_book [of p q] book_eqD [of p q])

lemma apply_buy_book: "book p = book q \<Longrightarrow> book (apply_buy b c f p) = book (apply_buy b c f q)"
  by (rule book_eqI) (simp_all add: apply_buy_def Let_def book_eqD [of p q])

lemma apply_sell_book: "book p = book q \<Longrightarrow> book (apply_sell b c f p) = book (apply_sell b c f q)"
  by (rule book_eqI) (simp_all add: apply_sell_def Let_def book_eqD [of p q] sell_realized_book [of p q])

lemma apply_fill_book:
  assumes "book p = book q"
  shows "fst (apply_fill_to_position f p) = fst (apply_fill_to_position f q)
    \<and> book (snd (apply_fill_to_position f p)) = book (snd (apply_fill_to_position f q))"
proof (cases "assets (f_symbol f)")
  case (Inr bc)
  obtain b c where bc: "bc = (b, c)" by (cases bc)
  have n: "book (note_other_fee b c f p) = book (note_other_fee b c f q)" using assms by (rule note_other_fee_book)
  show ?thesis
    using Inr bc n book_eqD(1) [OF assms] apply_buy_book [OF n, of b c f] apply_sell_book [OF n, of b c f]
      sell_exceeds_book [OF n, of b f] sell_realized_book [OF n, of b c f]
    by (simp add: apply_fill_to_position_def Let_def)
qed (use assms in \<open>simp add: apply_fill_to_position_def\<close>)

lemma apply_fills_book:
  assumes "book p = book q"
  shows "fst (apply_fills fs p) = fst (apply_fills fs q) \<and> book (snd (apply_fills fs p)) = book (snd (apply_fills fs q))"
  using assms
proof (induction fs arbitrary: p q)
  case (Cons f fs)
  obtain r p1 where p: "apply_fill_to_position f p = (r, p1)" by fastforce
  obtain r' q1 where q: "apply_fill_to_position f q = (r', q1)" by fastforce
  have eq: "r' = r" "book p1 = book q1" using apply_fill_book [OF Cons.prems, of f] p q by simp_all
  show ?case
    using p q eq Cons.IH [OF eq(2)] by (auto simp: bindE_apply split: sum.splits prod.splits)
qed simp

lemma apply_fills_append:
  assumes "apply_fills fs p = (Inr a, p1)" "apply_fill_to_position f p1 = (Inr (d, a'), p2)"
  shows "apply_fills (fs @ [f]) p = (Inr (a @ a'), p2)"
  using assms(1)
proof (induction fs arbitrary: p a)
  case Nil
  then show ?case using assms(2) by (simp add: bindE_apply)
next
  case (Cons g fs)
  from Cons.prems obtain d1 a1 t a2 where
    "apply_fill_to_position g p = (Inr (d1, a1), t)" "apply_fills fs t = (Inr a2, p1)" "a = a1 @ a2"
    by (auto simp: bindE_apply split: sum.splits prod.splits)
  then show ?case using Cons.IH [of t a2] by (simp add: bindE_apply)
qed

text \<open>The fills of a position in the order they were recorded, and the state in which its row is
  their accounting in that order.\<close>

definition arrived :: "string \<Rightarrow> string \<Rightarrow> ledger \<Rightarrow> fill list" where
  "arrived botid symbol d = filter (\<lambda>f. f_symbol f = symbol
     \<and> (\<exists>od\<in>set (d_orders d). o_id od = f_order_id f \<and> o_bot od = botid)) (d_fills d)"

definition synced :: "string \<Rightarrow> string \<Rightarrow> ledger \<Rightarrow> bool" where
  "synced botid symbol d \<longleftrightarrow> (case apply_fills (arrived botid symbol d) (new_position botid symbol) of
     (Inl _, _) \<Rightarrow> False | (Inr _, p) \<Rightarrow> book (position_of botid symbol d) = book p)"

lemma fills_of_arrived: "fills_of botid symbol d = sort_key f_time (arrived botid symbol d)"
  by (simp add: fills_of_def arrived_def)

text \<open>
  A rebuild agrees with the incremental updates. If a position's row is the accounting of its
  fills in the order they were recorded, and they were recorded in order of execution time, then
  \<open>rebuild\<close> returns, persisted or not, a position with the same accounting (quantity, average
  price, realized profit, opening time, other fees).
\<close>

theorem rebuild_agrees:
  assumes "synced (BOT_INSTANCE_ID cfg) symbol (db w)"
    and "sorted (map f_time (arrived (BOT_INSTANCE_ID cfg) symbol (db w)))"
  shows "\<exists>p a w'. pos_rebuild cfg symbol persist w = (Inr (p, a), w')
    \<and> book p = book (position_of (BOT_INSTANCE_ID cfg) symbol (db w))"
proof -
  let ?b = "BOT_INSTANCE_ID cfg" and ?fs = "arrived (BOT_INSTANCE_ID cfg) symbol (db w)"
  let ?p0 = "(new_position ?b symbol)\<lparr>p_mark := p_mark (position_of ?b symbol (db w))\<rparr>"
  have fs: "fills_of ?b symbol (db w) = ?fs"
    unfolding fills_of_arrived using assms(2) by (rule sort_key_id_if_sorted)
  obtain a p where inc: "apply_fills ?fs (new_position ?b symbol) = (Inr a, p)"
    "book (position_of ?b symbol (db w)) = book p"
    using assms(1) by (auto simp: synced_def split: prod.splits sum.splits)
  have "fst (apply_fills ?fs ?p0) = Inr a \<and> book (snd (apply_fills ?fs ?p0)) = book p"
    using apply_fills_book [of ?p0 "new_position ?b symbol" ?fs] inc(1) by simp
  then obtain p' where "apply_fills ?fs ?p0 = (Inr a, p')" "book p' = book p" by (metis prod.collapse)
  then show ?thesis
    using inc(2) fs by (simp add: pos_rebuild_def get_position_def list_fills_def bindE_apply objE_Inr Let_def
        save_position_result split: if_splits)
qed

definition base_order :: order where
  "base_order = \<lparr>o_bot = ''bot'', o_exchange = ''paper'', o_symbol = ''BTC/USDT'', o_side = BUY, o_type = MARKET,
     o_purpose = ENTRY, o_coid = ''cb1-1'', o_intent = ''i1'', o_requested = 1, o_status = NEW, o_id = 1, o_exid = None,
     o_executed = 0, o_cumquote = 0, o_avg = None, o_limit = None, o_stop = None, o_ref = Some 100, o_ambiguous = False,
     o_reject = None, o_submitted = None, o_acked = None, o_last_update = None, o_last_update_ms = None,
     o_terminal_at = None, o_raw = [], o_version = 0\<rparr>"

text \<open>A ledger with one order, the given fills of it and the position row made from them.\<close>

definition demo_trade :: "string \<Rightarrow> rat \<Rightarrow> rat \<Rightarrow> time \<Rightarrow> string \<Rightarrow> fill" where
  "demo_trade side qty price t key = (demo_fill side qty price t key)\<lparr>f_commission := 0\<rparr>"

definition traded :: "fill list \<Rightarrow> rat \<Rightarrow> rat \<Rightarrow> unit world" where
  "traded fs qty realized = \<lparr>db = empty_ledger\<lparr>d_orders := [base_order], d_fills := fs, d_positions :=
       [(new_position ''bot'' ''BTC/USDT'')\<lparr>p_qty := qty, p_avg := 100, p_realized := realized, p_opened := Some 1\<rparr>]\<rparr>,
     depth = 0, clk = 0, ext = ()\<rparr>"

theorem rebuild_agrees_witness:
  "\<exists>p a w'. pos_rebuild demo_config ''BTC/USDT'' True
        (traded [demo_trade BUY 1 100 1 ''a'', demo_trade SELL (1 / 2) 110 2 ''b''] (1 / 2) 5) = (Inr (p, a), w')
    \<and> book p = book (position_of (BOT_INSTANCE_ID demo_config) ''BTC/USDT''
        (db (traded [demo_trade BUY 1 100 1 ''a'', demo_trade SELL (1 / 2) 110 2 ''b''] (1 / 2) 5)))"
proof (rule rebuild_agrees)
  show "synced (BOT_INSTANCE_ID demo_config) ''BTC/USDT''
      (db (traded [demo_trade BUY 1 100 1 ''a'', demo_trade SELL (1 / 2) 110 2 ''b''] (1 / 2) 5))"
    by code_simp
qed code_simp

text \<open>
  Recorded against the order of execution, the two disagree: a sell that is recorded first finds
  nothing to sell and books its whole proceeds as profit, and the later buy stays on the books;
  the rebuild applies the buy first.
\<close>

theorem rebuild_disagrees_out_of_order:
  "let w = traded [demo_trade SELL 1 110 2 ''b'', demo_trade BUY 1 100 1 ''a''] 1 110
   in synced ''bot'' ''BTC/USDT'' (db w)
    \<and> (case apply_fills (fills_of ''bot'' ''BTC/USDT'' (db w)) (new_position ''bot'' ''BTC/USDT'') of
         (Inr _, p) \<Rightarrow> p_qty p = 0 \<and> p_realized p = 10 | _ \<Rightarrow> False)"
  by code_simp

end
