(* ===== verification/Outbox.thy ===== *)
theory Outbox
  imports Progress Positions
begin

text \<open>
  The transactional outbox: \<^verbatim>\<open>engine/application/outbox.py\<close>. Payload builders, \<open>enqueue_event\<close>, and
  the dispatcher, whose \<open>flush\<close> delivers due messages in id order under the delivery lease. The
  control plane and the notifier are parameters (calls that may raise and that reach the ledger
  only through their answers: \<open>network\<close>). The lemmas show that a flush keeps the ledger invariant,
  never changes a message that was sent or dead-lettered, and delivers to the control plane in
  order.
\<close>

section \<open>Payloads\<close>

definition CP_KINDS :: "string list" where
  "CP_KINDS = [''signals'', ''orders'', ''fills'', ''reconciliation'', ''events'', ''positions'']"

definition order_payload :: "order \<Rightarrow> (string \<times> jval) list" where
  "order_payload od =
    [(''client_order_id'', JStr (o_coid od)), (''client_intent_id'', JStr (o_intent od)),
     (''exchange_order_id'', jopt JStr (o_exid od)), (''exchange'', JStr (o_exchange od)), (''symbol'', JStr (o_symbol od)),
     (''side'', JStr (o_side od)), (''type'', JStr (o_type od)), (''purpose'', JStr (purpose_value (o_purpose od))),
     (''status'', JStr (status_value (o_status od))),
     (''requested_quantity'', JDec (o_requested od)), (''executed_quantity'', JDec (o_executed od)),
     (''cumulative_quote_quantity'', JDec (o_cumquote od)),
     (''average_fill_price'', jopt JDec (o_avg od)),
     (''limit_price'', jopt JDec (o_limit od)),
     (''stop_price'', jopt JDec (o_stop od)),
     (''submission_ambiguous'', JBool (o_ambiguous od)), (''reject_reason'', jopt JStr (o_reject od)),
     (''submitted_at'', jopt JTime (o_submitted od)), (''acknowledged_at'', jopt JTime (o_acked od)),
     (''last_exchange_update_at'', jopt JTime (o_last_update od)), (''terminal_at'', jopt JTime (o_terminal_at od)),
     (''version'', JInt (o_version od))]"

definition fill_payload :: "fill \<Rightarrow> (string \<times> jval) list" where
  "fill_payload f =
    [(''event_key'', JStr (f_key f)), (''client_order_id'', JStr (f_coid f)), (''exchange_trade_id'', jopt JStr (f_trade_id f)),
     (''symbol'', JStr (f_symbol f)), (''side'', JStr (f_side f)), (''quantity'', JDec (f_qty f)), (''price'', JDec (f_price f)),
     (''quote_quantity'', JDec (f_quote f)), (''commission'', JDec (f_commission f)),
     (''commission_asset'', jopt JStr (f_commission_asset f)), (''execution_time'', JTime (f_time f))]"

definition position_payload :: "position \<Rightarrow> (string \<times> jval) list" where
  "position_payload p =
    [(''symbol'', JStr (p_symbol p)), (''side'', JStr (p_side p)), (''quantity'', JDec (p_qty p)),
     (''average_entry_price'', JDec (p_avg p)), (''realized_pnl'', JDec (p_realized p)),
     (''unrealized_pnl'', JDec (p_unrealized p)),
     (''last_mark_price'', jopt JDec (p_mark p)),
     (''stop_price'', jopt JDec (p_stop p)),
     (''opened_at'', jopt JTime (p_opened p)), (''updated_at'', jopt JTime (p_updated p))]"

text \<open>\<open>key\<close> is the caller's idempotency key, or one made of the event and the current time.\<close>

definition enqueue_event ::
  "string \<Rightarrow> string \<Rightarrow> string \<Rightarrow> string \<Rightarrow> (string \<times> jval) list \<Rightarrow> string option \<Rightarrow> bool \<Rightarrow> ('x world, unit) eff" where
  "enqueue_event botid event_type message severity payload key alert = bindE now (\<lambda>t.
     let idem = (if truthy key then the key else ''event:'' @ botid @ '':'' @ event_type @ '':'' @ iso t) in
     thenE (enqueue ''events'' idem
              [(''event_type'', JStr event_type), (''severity'', JStr severity), (''message'', JStr message),
               (''payload'', JObj payload), (''occurred_at'', JTime t)])
       (whenE alert (thenE (enqueue ''telegram'' (''tg:'' @ idem)
            [(''text'', JStr (''['' @ botid @ ''] '' @ severity @ '' '' @ event_type @ '': '' @ message))]) (ret ()))))"

section \<open>The dispatcher\<close>

definition LEASE_NAME :: string where "LEASE_NAME = ''outbox-dispatch''"
definition LEASE_TTL_SECONDS :: int where "LEASE_TTL_SECONDS = 60"

text \<open>The services a dispatcher talks to, \<open>None\<close> where no notifier is configured.\<close>

record 'x dispatcher =
  dp_post :: "string \<Rightarrow> (string \<times> jval) list \<Rightarrow> string \<Rightarrow> ('x world, unit) eff"
  dp_send :: "(jval \<Rightarrow> ('x world, unit) eff) option"
  dp_max_attempts :: int
  dp_owner :: string

definition deliver :: "'x dispatcher \<Rightarrow> outbox_row \<Rightarrow> ('x world, unit) eff" where
  "deliver dp row =
     (if ob_kind row = ''telegram'' then
        (case dp_send dp of None \<Rightarrow> ret ()
         | Some send \<Rightarrow> (case map_of (ob_payload row) ''text'' of
              None \<Rightarrow> raise (KeyError ''text'') | Some text \<Rightarrow> send text))
      else if ob_kind row \<in> set CP_KINDS then dp_post dp (ob_kind row) (ob_payload row) (ob_key row)
      else raise (ValueError (''unknown outbox kind '' @ ob_kind row)))"

definition retry_delay :: "int \<Rightarrow> int" where
  "retry_delay attempts = min 600 (2 ^ nat (min attempts 9))"

text \<open>
  One iteration of the loop: how many messages it sent, and whether the loop goes on. Failures
  of the delivery are handled here; a lost lease stops the flush.
\<close>

definition handle_failure :: "'x dispatcher \<Rightarrow> outbox_row \<Rightarrow> exn \<Rightarrow> ('x world, nat \<times> bool) eff" where
  "handle_failure dp row e = bindE now (\<lambda>t. case e of
     ControlPlaneRejected m \<Rightarrow> thenE (mark_outbox_failed (ob_id row) m t True) (ret (0, True))
   | _ \<Rightarrow> let attempts = ob_attempts row + 1 in
       thenE (mark_outbox_failed (ob_id row) (exn_str e) (t + seconds (retry_delay attempts)) (dp_max_attempts dp \<le> attempts))
         (ret (0, ob_kind row \<notin> set CP_KINDS)))"

definition flush_row :: "'x dispatcher \<Rightarrow> outbox_row \<Rightarrow> ('x world, nat \<times> bool) eff" where
  "flush_row dp row = bindE (acquire_lease LEASE_NAME (dp_owner dp) LEASE_TTL_SECONDS) (\<lambda>mine.
     if \<not> mine then ret (0, False)
     else tryE (thenE (deliver dp row) (thenE (mark_outbox_sent (ob_id row)) (ret (1, True))))
            (handle_failure dp row))"

fun flush_rows :: "'x dispatcher \<Rightarrow> outbox_row list \<Rightarrow> nat \<Rightarrow> ('x world, nat) eff" where
  "flush_rows dp [] sent = ret sent"
| "flush_rows dp (row # rows) sent = bindE (flush_row dp row) (\<lambda>(n, go_on).
     if go_on then flush_rows dp rows (sent + n) else ret (sent + n))"

definition flush :: "'x dispatcher \<Rightarrow> nat \<Rightarrow> ('x world, nat) eff" where
  "flush dp limit = bindE (acquire_lease LEASE_NAME (dp_owner dp) LEASE_TTL_SECONDS) (\<lambda>mine.
     if \<not> mine then ret 0
     else bindE (pending_outbox limit) (\<lambda>rows. flush_rows dp rows 0))"

lemma safe_enqueue_event [keeps_intros]: "safe (enqueue_event b ty msg sev payload key alert)"
  unfolding enqueue_event_def Let_def by (intro keeps_intros)

section \<open>What a flush does\<close>

text \<open>A call to the network: it may raise and take time, and it does not touch the ledger.\<close>

definition network :: "('x world, 'a) eff \<Rightarrow> bool" where
  "network m \<longleftrightarrow> (\<forall>w. \<exists>t x. clk w \<le> t \<and> snd (m w) = w\<lparr>clk := t, ext := x\<rparr>)"

lemma networkD: "network m \<Longrightarrow> m w = (r, w') \<Longrightarrow> \<exists>t x. clk w \<le> t \<and> w' = w\<lparr>clk := t, ext := x\<rparr>"
  unfolding network_def by (metis snd_conv)

lemma network_safe: "network m \<Longrightarrow> safe m"
proof (rule keepsI)
  fix w
  assume "network m"
  then obtain t x where "clk w \<le> t" "snd (m w) = w\<lparr>clk := t, ext := x\<rparr>" unfolding network_def by blast
  then show "advances w (snd (m w))" by (simp add: advances_def)
qed

lemma network_ret [simp]: "network (ret a :: ('x world, 'b) eff)" "network (raise e :: ('x world, 'c) eff)"
proof -
  have "w = w\<lparr>clk := clk w, ext := ext w\<rparr>" for w :: "'x world" by simp
  then show "network (ret a :: ('x world, 'b) eff)" "network (raise e :: ('x world, 'c) eff)"
    unfolding network_def ret_apply raise_apply snd_conv by blast+
qed

definition dispatcher_ok :: "'x dispatcher \<Rightarrow> bool" where
  "dispatcher_ok dp \<longleftrightarrow> (\<forall>kind p i. network (dp_post dp kind p i))
     \<and> (\<forall>send text. dp_send dp = Some send \<longrightarrow> network (send text))"

lemma deliver_network: "dispatcher_ok dp \<Longrightarrow> network (deliver dp row)"
  by (auto simp: deliver_def dispatcher_ok_def split: option.splits)

definition sent_row :: "outbox_row \<Rightarrow> outbox_row" where
  "sent_row r = r\<lparr>ob_status := SENT\<rparr>"

definition failed_row :: "string \<Rightarrow> time \<Rightarrow> bool \<Rightarrow> outbox_row \<Rightarrow> outbox_row" where
  "failed_row err t dead r = r\<lparr>ob_attempts := ob_attempts r + 1, ob_error := Some (take 500 err), ob_next := t,
     ob_status := (if dead then DEAD else PENDING)\<rparr>"

lemma mark_results:
  "mark_outbox_sent i w = (Inr (), w\<lparr>db := upd_outbox i sent_row (db w)\<rparr>)"
  "mark_outbox_failed i err t dead w = (Inr (), w\<lparr>db := upd_outbox i (failed_row err t dead) (db w)\<rparr>)"
  by (simp_all add: mark_outbox_sent_def mark_outbox_failed_def transaction_def Let_def sent_row_def [abs_def]
      failed_row_def [abs_def])

lemma acquire_lease_ex:
  "\<exists>b w1. acquire_lease n ow ttl w = (Inr b, w1) \<and> (if b then \<exists>ls. w1 = w\<lparr>db := (db w)\<lparr>d_leases := ls\<rparr>\<rparr> else w1 = w)"
proof -
  let ?w = "w\<lparr>db := (db w)\<lparr>d_leases := AList.update n (ow, clk w + seconds ttl) (d_leases (db w))\<rparr>\<rparr>"
  have "acquire_lease n ow ttl w = (Inr True, ?w) \<or> acquire_lease n ow ttl w = (Inr False, w)"
    by (cases "map_of (d_leases (db w)) n") (simp_all add: acquire_lease_result split: prod.split)
  then show ?thesis by (metis (full_types))
qed

lemma handle_failure_cases:
  assumes "handle_failure dp row e w = (r, w')"
  obtains go_on err t dead where "r = Inr (0, go_on)" "go_on \<and> ob_kind row \<in> set CP_KINDS \<longrightarrow> dead"
    "w' = w\<lparr>db := upd_outbox (ob_id row) (failed_row err t dead) (db w)\<rparr>"
proof (cases "\<exists>m. e = ControlPlaneRejected m")
  case True
  then obtain m where "e = ControlPlaneRejected m" by blast
  then show thesis by (intro that [where go_on = True and err = m and t = "clk w" and dead = True])
      (use assms in \<open>simp_all add: handle_failure_def thenE_def bindE_apply mark_results\<close>)
next
  case False
  let ?a = "ob_attempts row + 1"
  have "(r, w') = (Inr (0, ob_kind row \<notin> set CP_KINDS), w\<lparr>db := upd_outbox (ob_id row) (failed_row (exn_str e)
      (clk w + seconds (retry_delay ?a)) (dp_max_attempts dp \<le> ?a)) (db w)\<rparr>)"
    using assms False by (cases e) (simp_all add: handle_failure_def Let_def thenE_def bindE_apply mark_results)
  then show thesis by (intro that [where go_on = "ob_kind row \<notin> set CP_KINDS" and err = "exn_str e"
        and t = "clk w + seconds (retry_delay ?a)" and dead = "dp_max_attempts dp \<le> ?a"]) auto
qed

text \<open>One iteration: the message was sent, or a failure was recorded, or the lease was lost.\<close>

lemma flush_row_cases:
  assumes "dispatcher_ok dp" "flush_row dp row w = (r, w')"
  obtains (lost) "r = Inr (0, False)" "w' = w"
  | (sent) ls t x where "r = Inr (1, True)" "clk w \<le> t"
      "w' = w\<lparr>db := upd_outbox (ob_id row) sent_row ((db w)\<lparr>d_leases := ls\<rparr>), clk := t, ext := x\<rparr>"
  | (failed) ls t x err t' dead go_on where
      "r = Inr (0, go_on)" "go_on \<and> ob_kind row \<in> set CP_KINDS \<longrightarrow> dead" "clk w \<le> t"
      "w' = w\<lparr>db := upd_outbox (ob_id row) (failed_row err t' dead) ((db w)\<lparr>d_leases := ls\<rparr>), clk := t, ext := x\<rparr>"
proof -
  obtain b w1 where a: "acquire_lease LEASE_NAME (dp_owner dp) LEASE_TTL_SECONDS w = (Inr b, w1)"
    and cases: "if b then \<exists>ls. w1 = w\<lparr>db := (db w)\<lparr>d_leases := ls\<rparr>\<rparr> else w1 = w"
    using acquire_lease_ex by blast
  show thesis
  proof (cases b)
    case False
    then have "w1 = w" using cases by simp
    then show thesis using False assms(2) a by (intro lost) (simp_all add: flush_row_def bindE_apply)
  next
    case True
    then obtain ls where w1: "w1 = w\<lparr>db := (db w)\<lparr>d_leases := ls\<rparr>\<rparr>"
      using cases by auto
    obtain d w2 where d: "deliver dp row w1 = (d, w2)" by fastforce
    obtain t x where w2: "clk w \<le> t" "w2 = w1\<lparr>clk := t, ext := x\<rparr>"
      using networkD [OF deliver_network [OF assms(1)] d] w1 by auto
    have fr: "flush_row dp row w = tryE (thenE (deliver dp row) (thenE (mark_outbox_sent (ob_id row)) (ret (1, True))))
        (handle_failure dp row) w1"
      using a True by (simp add: flush_row_def bindE_apply)
    show thesis
    proof (cases d)
      case (Inr u)
      have "(r, w') = (Inr (1, True), w2\<lparr>db := upd_outbox (ob_id row) sent_row (db w2)\<rparr>)"
        using assms(2) Inr d unfolding fr by (simp add: tryE_def thenE_def bindE_apply mark_results)
      then show thesis using w1 w2 by (intro sent [where t = t and ls = ls and x = x]) simp_all
    next
      case (Inl e)
      have "flush_row dp row w = handle_failure dp row e w2"
        unfolding fr using Inl d by (simp add: tryE_def thenE_def bindE_apply)
      then have h: "handle_failure dp row e w2 = (r, w')" using assms(2) by simp
      obtain go_on err t' dead where "r = Inr (0, go_on)" "go_on \<and> ob_kind row \<in> set CP_KINDS \<longrightarrow> dead"
        "w' = w2\<lparr>db := upd_outbox (ob_id row) (failed_row err t' dead) (db w2)\<rparr>"
        by (rule handle_failure_cases [OF h])
      then show thesis using w1 w2 by (intro failed [where go_on = go_on and dead = dead and t = t and err = err and t' = t' and ls = ls and x = x]) simp_all
    qed
  qed
qed

text \<open>The row with a message's id in a later ledger.\<close>

definition later :: "ledger \<Rightarrow> outbox_row \<Rightarrow> outbox_row" where
  "later d r = (case find (\<lambda>x. ob_id x = ob_id r) (d_outbox d) of None \<Rightarrow> r | Some x \<Rightarrow> x)"

text \<open>
  The reference for a flush over the due messages \<open>rows\<close>, given what each became: messages are
  taken in order; each one taken was sent or had a failure recorded; after one that was not taken
  (the lease was lost), and after a control-plane message that stays pending, no other is taken.
\<close>

definition attempted :: "outbox_row \<Rightarrow> outbox_row \<Rightarrow> bool" where
  "attempted r r' \<longleftrightarrow> r' = sent_row r \<or> (\<exists>err t dead. r' = failed_row err t dead r)"

fun flushed :: "(outbox_row \<Rightarrow> outbox_row) \<Rightarrow> outbox_row list \<Rightarrow> bool" where
  "flushed became [] \<longleftrightarrow> True"
| "flushed became (r # rs) \<longleftrightarrow>
     (if became r = r then list_all (\<lambda>x. became x = x) rs
      else attempted r (became r)
        \<and> (if ob_kind r \<in> set CP_KINDS \<and> ob_status (became r) = PENDING then list_all (\<lambda>x. became x = x) rs
           else flushed became rs))"

lemma later_upd:
  "(\<And>x. ob_id (f x) = ob_id x) \<Longrightarrow> r \<in> set (d_outbox d) \<Longrightarrow> distinct (map ob_id (d_outbox d)) \<Longrightarrow>
   later (upd_outbox i f d) r = (if ob_id r = i then f r else r)"
proof -
  assume f: "\<And>x. ob_id (f x) = ob_id x" and r: "r \<in> set (d_outbox d)" and d: "distinct (map ob_id (d_outbox d))"
  have "find (\<lambda>x. ob_id x = ob_id r) (map (\<lambda>r. if ob_id r = i then f r else r) xs)
      = (if ob_id r = i then Some (f r) else Some r)"
    if "r \<in> set xs" "distinct (map ob_id xs)" for xs
    using that by (induction xs) (auto simp: f)
  then show ?thesis using r d by (simp add: later_def upd_outbox_def)
qed

lemma later_same: "d_outbox d' = d_outbox d \<Longrightarrow> later d' = later d"
  by (rule ext) (simp add: later_def)

lemma later_member: "distinct (map ob_id (d_outbox d)) \<Longrightarrow> r \<in> set (d_outbox d) \<Longrightarrow> later d r = r"
  using later_upd [of "\<lambda>x. x" r d "ob_id r"] by (simp add: upd_outbox_def)

lemma attempted_changes: "ob_status r = PENDING \<Longrightarrow> attempted r r' \<Longrightarrow> r' \<noteq> r"
  by (auto simp: attempted_def sent_row_def failed_row_def dest: arg_cong [of _ _ ob_status] arg_cong [of _ _ ob_attempts])

text \<open>The world after one message was taken.\<close>

lemma taken_row:
  assumes inv: "distinct (map ob_id (d_outbox (db w)))" and row: "row \<in> set (d_outbox (db w))" "ob_status row = PENDING"
    and f: "\<And>x. ob_id (f x) = ob_id x" "attempted row (f row)" "message_le row (f row)" "clk w \<le> t"
    and w1: "w1 = w\<lparr>db := upd_outbox (ob_id row) f ((db w)\<lparr>d_leases := ls\<rparr>), clk := t, ext := x\<rparr>"
    and lease: "ledger_inv (db w) \<longrightarrow> ledger_inv (db w1)"
  shows "advances w w1" "map ob_id (d_outbox (db w1)) = map ob_id (d_outbox (db w))" "f row \<in> set (d_outbox (db w1))"
    "\<And>r. r \<in> set (d_outbox (db w)) \<Longrightarrow> ob_id r \<noteq> ob_id row \<Longrightarrow> r \<in> set (d_outbox (db w1))"
proof -
  have out: "d_outbox (db w1) = map (\<lambda>r. if ob_id r = ob_id row then f r else r) (d_outbox (db w))"
    by (simp add: w1 upd_outbox_def)
  have same: "r = row" if "r \<in> set (d_outbox (db w))" "ob_id r = ob_id row" for r
    using inj_on_key [OF inv that(1) row(1) that(2)] .
  show ids: "map ob_id (d_outbox (db w1)) = map ob_id (d_outbox (db w))"
    unfolding out by (simp add: f(1) comp_def)
  show "f row \<in> set (d_outbox (db w1))" unfolding out using row(1) by force
  show "r \<in> set (d_outbox (db w1))" if "r \<in> set (d_outbox (db w))" "ob_id r \<noteq> ob_id row" for r
    unfolding out using that by force
  have "ledger_le (db w) (db w1)"
  proof (rule ledger_leI)
    fix a
    assume a: "a \<in> set (d_outbox (db w))"
    show "\<exists>b\<in>set (d_outbox (db w1)). message_le a b"
    proof (cases "ob_id a = ob_id row")
      case True
      then show ?thesis using same [OF a True] f(3) \<open>f row \<in> set (d_outbox (db w1))\<close> by blast
    next
      case False
      then have "a \<in> set (d_outbox (db w1))" unfolding out using a by force
      then show ?thesis using message_le_refl by blast
    qed
  qed (auto simp: w1 upd_outbox_def intro: order_le_refl)
  then show "advances w w1" using f(4) lease by (simp add: advances_def w1)
qed

lemma keeps_inv_network: "network m \<Longrightarrow> keeps_inv m"
proof (rule keepsI)
  fix w
  assume "network m"
  then obtain t x where "snd (m w) = w\<lparr>clk := t, ext := x\<rparr>" unfolding network_def by blast
  then show "ledger_inv (db w) \<longrightarrow> ledger_inv (db (snd (m w)))" by simp
qed

lemma keeps_inv_handle_failure: "keeps_inv (handle_failure dp row e)"
  by (cases e) (auto simp: handle_failure_def Let_def intro!: inv_keep.world.keeps_bindE inv_keep.keeps_now
      inv_keep.world.keeps_thenE inv_keep.world.keeps_ret keeps_inv_ops)

lemma keeps_inv_flush_row: "dispatcher_ok dp \<Longrightarrow> keeps_inv (flush_row dp row)"
  unfolding flush_row_def
  by (intro inv_keep.world.keeps_bindE inv_keep.world.keeps_if inv_keep.world.keeps_ret inv_keep.world.keeps_tryE
      inv_keep.world.keeps_thenE keeps_inv_ops deliver_network [THEN keeps_inv_network] keeps_inv_handle_failure)

lemma later_member':
  assumes "distinct (map ob_id (d_outbox d))" "r' \<in> set (d_outbox d)" "ob_id r = ob_id r'"
  shows "later d r = r'"
  using find_key_Some [OF assms(1,2)] assms(3) by (simp add: later_def)

lemma flush_rows_spec:
  assumes "dispatcher_ok dp" "distinct (map ob_id rows)" "set rows \<subseteq> set (d_outbox (db w))"
    "distinct (map ob_id (d_outbox (db w)))" "\<forall>r\<in>set rows. ob_status r = PENDING" "flush_rows dp rows n w = (x, w')"
  shows "x = Inr (n + length (filter (\<lambda>r. ob_status (later (db w') r) = SENT) rows)) \<and> flushed (later (db w')) rows
    \<and> (\<forall>r\<in>set (d_outbox (db w)). ob_id r \<notin> ob_id ` set rows \<longrightarrow> r \<in> set (d_outbox (db w')))
    \<and> distinct (map ob_id (d_outbox (db w'))) \<and> advances w w'"
  using assms(2-)
proof (induction rows arbitrary: n w x w')
  case Nil
  then show ?case by (simp add: adv.P_refl)
next
  case (Cons row rows)
  obtain r w1 where step: "flush_row dp row w = (r, w1)" by fastforce
  have row: "row \<in> set (d_outbox (db w))" "ob_status row = PENDING" "ob_id row \<notin> ob_id ` set rows"
    using Cons.prems by auto
  have kept: "ledger_inv (db w) \<longrightarrow> ledger_inv (db w1)"
    using keepsD [OF keeps_inv_flush_row [OF assms(1)] step] by simp
  text \<open>The message was taken and became \<open>f row\<close>; \<open>go_on\<close> says whether the loop continues.\<close>
  have taken: ?case
    if r: "r = Inr (s, go_on)" and s: "s = (if ob_status (f row) = SENT then 1 else 0)"
      and adv: "advances w w1" and ids: "map ob_id (d_outbox (db w1)) = map ob_id (d_outbox (db w))"
      and mem: "f row \<in> set (d_outbox (db w1))" "ob_id (f row) = ob_id row"
      and others: "\<And>r. r \<in> set (d_outbox (db w)) \<Longrightarrow> ob_id r \<noteq> ob_id row \<Longrightarrow> r \<in> set (d_outbox (db w1))"
      and att: "attempted row (f row)" and go: "go_on \<and> ob_kind row \<in> set CP_KINDS \<longrightarrow> ob_status (f row) \<noteq> PENDING"
    for s go_on f
  proof -
    have d1: "distinct (map ob_id (d_outbox (db w1)))" using Cons.prems(3) ids by simp
    have sub: "set rows \<subseteq> set (d_outbox (db w1))" using others Cons.prems(2) row(3) by (force simp: image_iff)
    have ne: "f row \<noteq> row" using attempted_changes [OF row(2) att] .
    show ?case
    proof (cases go_on)
      case True
      have rest: "flush_rows dp rows (n + s) w1 = (x, w')"
        using Cons.prems(5) step r True by (simp add: bindE_apply)
      have ih: "x = Inr (n + s + length (filter (\<lambda>r. ob_status (later (db w') r) = SENT) rows))"
        "flushed (later (db w')) rows" "distinct (map ob_id (d_outbox (db w')))" "advances w1 w'"
        "\<And>r. r \<in> set (d_outbox (db w1)) \<Longrightarrow> ob_id r \<notin> ob_id ` set rows \<Longrightarrow> r \<in> set (d_outbox (db w'))"
        using Cons.IH [OF _ sub d1 _ rest] Cons.prems by auto
      have "f row \<in> set (d_outbox (db w'))" using ih(5) mem row(3) by simp
      then have l: "later (db w') row = f row" using later_member' [OF ih(3)] mem(2) by simp
      show ?thesis
        using ih l s att ne go True others row(3) adv adv.P_trans [OF adv ih(4)] by auto
    next
      case False
      have fin: "x = Inr (n + s)" "w' = w1" using Cons.prems(5) step r False by (auto simp: bindE_apply)
      have l: "later (db w1) row = f row" using later_member' [OF d1 mem(1)] mem(2) by simp
      have lr: "list_all (\<lambda>x. later (db w1) x = x) rows" using sub later_member [OF d1] by (auto simp: list_all_iff)
      have "flushed (later (db w1)) rows" using lr by (cases rows) auto
      moreover have "filter (\<lambda>r. ob_status (later (db w1) r) = SENT) rows = []"
        using lr Cons.prems(4) by (auto simp: filter_empty_conv list_all_iff)
      ultimately show ?thesis
        using fin l lr s att ne others adv d1 by auto
    qed
  qed
  show ?case
    using assms(1) step
  proof (cases rule: flush_row_cases)
    case lost
    have fin: "x = Inr n" "w' = w" using Cons.prems(5) step lost by (auto simp: bindE_apply)
    have lr: "later (db w) r = r" if "r \<in> set (row # rows)" for r
      using later_member [OF Cons.prems(3)] that Cons.prems(2) by blast
    have "filter (\<lambda>r. ob_status (later (db w) r) = SENT) (row # rows) = []"
      using lr Cons.prems(4) by (auto simp: filter_empty_conv)
    then show ?thesis using fin lr Cons.prems(3) by (simp add: list_all_iff adv.P_refl)
  next
    case (sent ls t x')
    have le: "message_le row (sent_row row)" using row(2) by (simp add: message_le_def sent_row_def)
    have f: "ob_id (sent_row y) = ob_id y" for y by (simp add: sent_row_def)
    have att: "attempted row (sent_row row)" by (simp add: attempted_def)
    note w1 = taken_row [OF Cons.prems(3) row(1,2) f att le sent(2,3) kept]
    show ?thesis
      by (rule taken [where f = sent_row, OF sent(1) _ w1(1-3) f w1(4) att]) (simp_all add: sent_row_def)
  next
    case (failed ls t x' err t' dead go_on)
    have le: "message_le row (failed_row err t' dead row)" using row(2) by (simp add: message_le_def failed_row_def)
    have f: "ob_id (failed_row err t' dead y) = ob_id y" for y by (simp add: failed_row_def)
    have att: "attempted row (failed_row err t' dead row)" by (auto simp: attempted_def)
    note w1 = taken_row [OF Cons.prems(3) row(1,2) f att le failed(3,4) kept]
    show ?thesis
      by (rule taken [where f = "failed_row err t' dead", OF failed(1) _ w1(1-3) f w1(4) att]) (use failed(2) in \<open>simp_all add: failed_row_def\<close>)
  qed
qed

definition due :: "nat \<Rightarrow> 'x world \<Rightarrow> outbox_row list" where
  "due limit w = take limit (filter (\<lambda>r. ob_status r = PENDING \<and> ob_next r \<le> clk w) (d_outbox (db w)))"

lemma due_props:
  assumes "distinct (map ob_id (d_outbox (db w)))"
  shows "distinct (map ob_id (due limit w))" "set (due limit w) \<subseteq> set (d_outbox (db w))"
    "\<forall>r\<in>set (due limit w). ob_status r = PENDING"
proof -
  have "distinct (map ob_id (filter P (d_outbox (db w))))" for P using assms by (simp add: distinct_map_filter)
  then show "distinct (map ob_id (due limit w))" by (simp add: due_def take_map [symmetric] distinct_take)
  show "set (due limit w) \<subseteq> set (d_outbox (db w))" "\<forall>r\<in>set (due limit w). ob_status r = PENDING"
    unfolding due_def by (auto dest: in_set_takeD)
qed

lemma flush_spec:
  assumes "dispatcher_ok dp" "ledger_inv (db w)" "flush dp limit w = (x, w')"
  shows "x = Inr (length (filter (\<lambda>r. ob_status (later (db w') r) = SENT) (due limit w)))
    \<and> flushed (later (db w')) (due limit w) \<and> advances w w'"
proof -
  have ids: "distinct (map ob_id (d_outbox (db w)))"
    using assms(2) fresh_ids_distinct by (auto simp: ledger_inv_def tables_inv_def)
  obtain b w1 where a: "acquire_lease LEASE_NAME (dp_owner dp) LEASE_TTL_SECONDS w = (Inr b, w1)"
    and c: "if b then \<exists>ls. w1 = w\<lparr>db := (db w)\<lparr>d_leases := ls\<rparr>\<rparr> else w1 = w"
    using acquire_lease_ex by blast
  have out: "d_outbox (db w1) = d_outbox (db w)" "clk w1 = clk w" using c by (auto split: if_splits)
  have adv: "advances w w1" using keepsD [OF safe_lease(1) a] .
  show ?thesis
  proof (cases b)
    case True
    have "flush_rows dp (due limit w) 0 w1 = (x, w')"
      using assms(3) a True out by (simp add: flush_def bindE_apply pending_outbox_def due_def)
    then show ?thesis
      using flush_rows_spec [OF assms(1) due_props(1) [OF ids], of limit w1 0 x w'] due_props(2,3) [OF ids, of limit]
        ids out adv adv.P_trans by fastforce
  next
    case False
    then have x: "x = Inr 0" "w' = w" using assms(3) a c by (auto simp: flush_def bindE_apply)
    have l: "later (db w) r = r" if "r \<in> set (due limit w)" for r
      using later_member [OF ids] due_props(2) [OF ids] that by blast
    have "flushed (later (db w)) (due limit w)"
      using l by (cases "due limit w") (auto simp: list_all_iff)
    moreover have "filter (\<lambda>r. ob_status (later (db w) r) = SENT) (due limit w) = []"
      using l due_props(3) [OF ids, of limit] by (auto simp: filter_empty_conv)
    ultimately show ?thesis using x by (simp add: adv.P_refl)
  qed
qed

section \<open>What reaches the outside\<close>

text \<open>
  A control plane and a notifier with any behaviour: the answer to a call and the time it takes depend on all calls made so far, which
  are recorded in order.
\<close>

datatype delivery = Post string "(string \<times> jval) list" string | Notify jval

record outside_calls =
  oc_answer :: "delivery list \<Rightarrow> delivery \<Rightarrow> exn + unit"
  oc_delay :: "delivery list \<Rightarrow> delivery \<Rightarrow> nat"
  oc_notifier :: bool

definition told :: "outside_calls \<Rightarrow> delivery \<Rightarrow> (delivery list world, unit) eff" where
  "told oc c w = (oc_answer oc (ext w) c, w\<lparr>clk := clk w + int (oc_delay oc (ext w) c), ext := ext w @ [c]\<rparr>)"

definition recording :: "outside_calls \<Rightarrow> int \<Rightarrow> string \<Rightarrow> delivery list dispatcher" where
  "recording oc max_attempts ow = \<lparr>dp_post = (\<lambda>kind payload key. told oc (Post kind payload key)),
     dp_send = (if oc_notifier oc then Some (\<lambda>t. told oc (Notify t)) else None), dp_max_attempts = max_attempts, dp_owner = ow\<rparr>"

text \<open>The call that delivers a message, the answer the dispatcher gets, and what the message becomes at the time \<open>t\<close> of the answer.\<close>

definition call_of :: "outside_calls \<Rightarrow> outbox_row \<Rightarrow> delivery list" where
  "call_of oc r = (if ob_kind r = ''telegram''
     then (case map_of (ob_payload r) ''text'' of Some t \<Rightarrow> if oc_notifier oc then [Notify t] else [] | None \<Rightarrow> [])
     else if ob_kind r \<in> set CP_KINDS then [Post (ob_kind r) (ob_payload r) (ob_key r)] else [])"

definition answer_to :: "outside_calls \<Rightarrow> delivery list \<Rightarrow> outbox_row \<Rightarrow> exn + unit" where
  "answer_to oc calls r = (case call_of oc r of c # _ \<Rightarrow> oc_answer oc calls c
     | [] \<Rightarrow> if ob_kind r \<noteq> ''telegram'' then Inl (ValueError (''unknown outbox kind '' @ ob_kind r))
             else if oc_notifier oc then Inl (KeyError ''text'') else Inr ())"

definition outcome_row :: "int \<Rightarrow> exn + unit \<Rightarrow> time \<Rightarrow> outbox_row \<Rightarrow> outbox_row \<Rightarrow> outbox_row" where
  "outcome_row max_attempts answer t r = (case answer of
     Inr _ \<Rightarrow> sent_row
   | Inl e \<Rightarrow> (case e of
       ControlPlaneRejected m \<Rightarrow> failed_row m t True
     | _ \<Rightarrow> failed_row (exn_str e) (t + seconds (retry_delay (ob_attempts r + 1))) (max_attempts \<le> ob_attempts r + 1)))"

text \<open>The loop stops after a control-plane message that failed without being rejected for good.\<close>

definition goes_on :: "outbox_row \<Rightarrow> exn + unit \<Rightarrow> bool" where
  "goes_on r answer \<longleftrightarrow> ob_kind r \<notin> set CP_KINDS \<or> answer = Inr () \<or> (\<exists>m. answer = Inl (ControlPlaneRejected m))"

text \<open>
  The reference for a flush: the messages \<open>rows\<close> are delivered one after the other, each by its one call, and become what the
  answer makes of them, until the loop stops; the messages after that are left as they are. \<open>became\<close> is the message at the end, the calls
  made before and after are \<open>calls\<close> and \<open>calls'\<close>, and the clock was between \<open>t\<close> and \<open>t'\<close>.
\<close>

fun delivers :: "outside_calls \<Rightarrow> int \<Rightarrow> (outbox_row \<Rightarrow> outbox_row) \<Rightarrow> outbox_row list \<Rightarrow> delivery list \<Rightarrow> time \<Rightarrow> delivery list \<Rightarrow> time \<Rightarrow> bool" where
  "delivers oc n became [] calls t calls' t' \<longleftrightarrow> calls' = calls \<and> t' = t"
| "delivers oc n became (r # rs) calls t calls' t' \<longleftrightarrow> (\<exists>u\<ge>t. became r = outcome_row n (answer_to oc calls r) u r r
     \<and> (if goes_on r (answer_to oc calls r) then delivers oc n became rs (calls @ call_of oc r) u calls' t'
         else calls' = calls @ call_of oc r \<and> t' = u \<and> list_all (\<lambda>x. became x = x) rs))"

lemma recording_ok: "dispatcher_ok (recording oc n ow)"
proof -
  have t: "network (told oc c)" for c
    unfolding network_def
  proof
    fix w :: "delivery list world"
    show "\<exists>t x. clk w \<le> t \<and> snd (told oc c w) = w\<lparr>clk := t, ext := x\<rparr>"
      by (intro exI [of _ "clk w + int (oc_delay oc (ext w) c)"] exI [of _ "ext w @ [c]"]) (simp add: told_def)
  qed
  then show ?thesis by (auto simp: dispatcher_ok_def recording_def split: if_splits)
qed

definition own_lease :: "string \<Rightarrow> 'x world \<Rightarrow> bool" where
  "own_lease ow w \<longleftrightarrow> (\<exists>e. map_of (d_leases (db w)) LEASE_NAME = Some (ow, e))"

lemma own_lease_renews:
  assumes "own_lease ow w"
  shows "\<exists>ls. acquire_lease LEASE_NAME ow ttl w = (Inr True, w\<lparr>db := (db w)\<lparr>d_leases := ls\<rparr>\<rparr>) \<and> own_lease ow (w\<lparr>db := (db w)\<lparr>d_leases := ls\<rparr>\<rparr>)"
  using assms by (auto simp: own_lease_def acquire_lease_result update_conv')

lemma acquired_own: "acquire_lease LEASE_NAME ow ttl w = (Inr True, w') \<Longrightarrow> own_lease ow w'"
  by (auto simp: own_lease_def acquire_lease_result update_conv' split: option.splits if_splits)

lemma deliver_recording:
  "\<exists>d. deliver (recording oc n ow) r w = (answer_to oc (ext w) r, w\<lparr>clk := clk w + int d, ext := ext w @ call_of oc r\<rparr>)"
proof -
  have e: "w = w\<lparr>clk := clk w + int 0, ext := ext w @ []\<rparr>" by simp
  show ?thesis
    by (auto simp: deliver_def recording_def answer_to_def call_of_def told_def CP_KINDS_def split: option.split intro: exI [of _ 0])
qed

lemma handle_failure_result:
  "handle_failure dp r e w = (Inr (0, goes_on r (Inl e)),
     w\<lparr>db := upd_outbox (ob_id r) (outcome_row (dp_max_attempts dp) (Inl e) (clk w) r) (db w)\<rparr>)"
  by (cases e) (simp_all add: handle_failure_def Let_def thenE_def bindE_apply mark_results outcome_row_def goes_on_def)

lemma flush_row_recording:
  assumes "own_lease ow w"
  shows "\<exists>d ls. let a = answer_to oc (ext w) r in
     flush_row (recording oc n ow) r w = (Inr (if a = Inr () then 1 else 0, goes_on r a),
       w\<lparr>db := upd_outbox (ob_id r) (outcome_row n a (clk w + int d) r) ((db w)\<lparr>d_leases := ls\<rparr>), clk := clk w + int d, ext := ext w @ call_of oc r\<rparr>)
     \<and> own_lease ow (w\<lparr>db := (db w)\<lparr>d_leases := ls\<rparr>\<rparr>)"
proof -
  let ?dp = "recording oc n ow"
  have dp: "dp_owner ?dp = ow" "dp_max_attempts ?dp = n" by (simp_all add: recording_def)
  obtain ls where l: "acquire_lease LEASE_NAME ow LEASE_TTL_SECONDS w = (Inr True, w\<lparr>db := (db w)\<lparr>d_leases := ls\<rparr>\<rparr>)"
      "own_lease ow (w\<lparr>db := (db w)\<lparr>d_leases := ls\<rparr>\<rparr>)" using own_lease_renews [OF assms] by blast
  let ?w1 = "w\<lparr>db := (db w)\<lparr>d_leases := ls\<rparr>\<rparr>" and ?a = "answer_to oc (ext w) r"
  obtain d where d: "deliver ?dp r ?w1 = (?a, ?w1\<lparr>clk := clk w + int d, ext := ext w @ call_of oc r\<rparr>)"
    using deliver_recording [of oc n ow r ?w1] by auto
  show ?thesis
  proof (cases ?a)
    case (Inr u)
    then show ?thesis using l d dp
      by (intro exI [of _ d] exI [of _ ls])
        (simp add: flush_row_def bindE_apply tryE_def thenE_def mark_results outcome_row_def goes_on_def Let_def)
  next
    case (Inl e)
    then show ?thesis using l d dp
      by (intro exI [of _ d] exI [of _ ls]) (simp add: flush_row_def bindE_apply tryE_def thenE_def handle_failure_result Let_def)
  qed
qed

lemma outcome_facts:
  "ob_id (outcome_row n a t r x) = ob_id x" "ob_status (outcome_row n a t r x) = SENT \<longleftrightarrow> a = Inr ()"
  "\<not> goes_on r a \<Longrightarrow> ob_kind r \<in> set CP_KINDS"
  by (auto simp: outcome_row_def sent_row_def failed_row_def goes_on_def split: sum.split exn.split)

lemma flush_rows_recording:
  assumes "distinct (map ob_id rows)" "set rows \<subseteq> set (d_outbox (db w))" "distinct (map ob_id (d_outbox (db w)))"
    "\<forall>r\<in>set rows. ob_status r = PENDING" "own_lease ow w" "flush_rows (recording oc n ow) rows k w = (x, w')"
  shows "delivers oc n (later (db w')) rows (ext w) (clk w) (ext w') (clk w')"
  using assms
proof (induction rows arbitrary: k w)
  case (Cons row rows)
  let ?dp = "recording oc n ow" and ?a = "answer_to oc (ext w) row"
  obtain d ls where step: "flush_row ?dp row w = (Inr (if ?a = Inr () then 1 else 0, goes_on row ?a),
       w\<lparr>db := upd_outbox (ob_id row) (outcome_row n ?a (clk w + int d) row) ((db w)\<lparr>d_leases := ls\<rparr>), clk := clk w + int d,
         ext := ext w @ call_of oc row\<rparr>)" (is "_ = (_, ?w1)") and lease: "own_lease ow (w\<lparr>db := (db w)\<lparr>d_leases := ls\<rparr>\<rparr>)"
    using flush_row_recording [OF Cons.prems(5), of oc row n] unfolding Let_def by blast
  let ?f = "outcome_row n ?a (clk w + int d) row"
  have out: "d_outbox (db ?w1) = map (\<lambda>r. if ob_id r = ob_id row then ?f r else r) (d_outbox (db w))" by (simp add: upd_outbox_def)
  have ids: "distinct (map ob_id (d_outbox (db ?w1)))" unfolding out using Cons.prems(3) by (simp add: outcome_facts(1) comp_def if_distrib cong: if_cong)
  have mem: "row \<in> set (d_outbox (db w))" "ob_id row \<notin> ob_id ` set rows" using Cons.prems(1,2) by auto
  have taken: "?f row \<in> set (d_outbox (db ?w1))" unfolding out using mem(1) by force
  have sub: "set rows \<subseteq> set (d_outbox (db ?w1))"
  proof
    fix r assume r: "r \<in> set rows"
    then have "ob_id r \<noteq> ob_id row" using mem(2) by (metis image_eqI)
    then show "r \<in> set (d_outbox (db ?w1))" unfolding out using r Cons.prems(2) by force
  qed
  have own: "own_lease ow ?w1" using lease by (simp add: own_lease_def upd_outbox_def)
  show ?case
  proof (cases "goes_on row ?a")
    case True
    have rest: "flush_rows ?dp rows (k + (if ?a = Inr () then 1 else 0)) ?w1 = (x, w')"
      using Cons.prems(6) step True by (simp add: bindE_apply)
    have ih: "delivers oc n (later (db w')) rows (ext ?w1) (clk ?w1) (ext w') (clk w')"
      by (rule Cons.IH [OF _ sub ids _ own rest]) (use Cons.prems(1,4) in simp_all)
    have spec: "distinct (map ob_id (d_outbox (db w')))" "\<And>r. r \<in> set (d_outbox (db ?w1)) \<Longrightarrow> ob_id r \<notin> ob_id ` set rows \<Longrightarrow> r \<in> set (d_outbox (db w'))"
      using flush_rows_spec [OF recording_ok _ sub ids _ rest] Cons.prems(1,4) by auto
    have "?f row \<in> set (d_outbox (db w'))" using spec(2) [OF taken] mem(2) by (simp add: outcome_facts(1))
    then have l: "later (db w') row = ?f row" using later_member' [OF spec(1)] by (simp add: outcome_facts(1))
    show ?thesis using ih l True by (auto intro!: exI [of _ "clk w + int d"])
  next
    case False
    have fin: "w' = ?w1" using Cons.prems(6) step False by (simp add: bindE_apply)
    have l: "later (db ?w1) row = ?f row" using later_member' [OF ids taken] by (simp add: outcome_facts(1))
    have lr: "list_all (\<lambda>x. later (db ?w1) x = x) rows" using sub later_member [OF ids] by (auto simp: list_all_iff)
    show ?thesis unfolding fin using l lr False by (auto intro!: exI [of _ "clk w + int d"])
  qed
qed simp

lemma delivers_calls:
  "delivers oc n became rows calls t calls' t' \<Longrightarrow>
   \<exists>k. calls' = calls @ concat (map (call_of oc) (take k rows)) \<and> list_all (\<lambda>r. became r = r) (drop k rows)"
proof (induction rows arbitrary: calls t)
  case (Cons r rows)
  then obtain u where u: "if goes_on r (answer_to oc calls r) then delivers oc n became rows (calls @ call_of oc r) u calls' t'
         else calls' = calls @ call_of oc r \<and> t' = u \<and> list_all (\<lambda>x. became x = x) rows" by auto
  show ?case
  proof (cases "goes_on r (answer_to oc calls r)")
    case True
    then obtain k where "calls' = (calls @ call_of oc r) @ concat (map (call_of oc) (take k rows))" "list_all (\<lambda>r. became r = r) (drop k rows)"
      using Cons.IH [of "calls @ call_of oc r" u] u by auto
    then show ?thesis by (intro exI [of _ "Suc k"]) simp
  next
    case False
    then show ?thesis using u by (intro exI [of _ 1]) simp
  qed
qed simp

text \<open>
  C17: a flush delivers the due messages in order and never raises. Let the control plane and the notifier answer each call in any way that may depend on the calls before. A flush that gets the
  lease makes one call per message (posting its kind, payload and key, or sending its text), in the order of their ids, and none
  besides; a message is marked sent only after its call was answered, dead-lettered if it was rejected for good, and otherwise put off by
  its growing delay; after a control-plane message that failed in this way no other message is delivered or changed. It returns the number of messages
  it marked sent. A flush that does not get the lease does nothing. This speaks of one flush: the next one may overtake a message that was put off.
\<close>

theorem flush_in_order:
  assumes "ledger_inv (db w)" "flush (recording oc n ow) limit w = (x, w')"
  shows "(if fst (acquire_lease LEASE_NAME ow LEASE_TTL_SECONDS w) = Inr True
      then x = Inr (length (filter (\<lambda>r. ob_status (later (db w') r) = SENT) (due limit w)))
        \<and> delivers oc n (later (db w')) (due limit w) (ext w) (clk w) (ext w') (clk w')
        \<and> (\<exists>k. ext w' = ext w @ concat (map (call_of oc) (take k (due limit w))) \<and> list_all (\<lambda>r. later (db w') r = r) (drop k (due limit w)))
      else x = Inr 0 \<and> w' = w)
    \<and> sorted_wrt (<) (map ob_id (due limit w)) \<and> advances w w'"
proof -
  let ?dp = "recording oc n ow"
  have fresh: "sorted_wrt (<) (map ob_id (d_outbox (db w)))" using assms(1) by (simp add: ledger_inv_def tables_inv_def fresh_ids_def)
  then have ids: "distinct (map ob_id (d_outbox (db w)))" by (simp add: strict_sorted_iff)
  have sorted: "sorted_wrt (<) (map ob_id (due limit w))"
    using fresh by (simp add: due_def sorted_wrt_map sorted_wrt_filter sorted_wrt_take)
  note spec = flush_spec [OF recording_ok assms]
  obtain b w1 where a: "acquire_lease LEASE_NAME ow LEASE_TTL_SECONDS w = (Inr b, w1)"
    and c: "if b then \<exists>ls. w1 = w\<lparr>db := (db w)\<lparr>d_leases := ls\<rparr>\<rparr> else w1 = w"
    using acquire_lease_ex by blast
  have ow: "dp_owner ?dp = ow" by (simp add: recording_def)
  show ?thesis
  proof (cases b)
    case True
    then have out: "d_outbox (db w1) = d_outbox (db w)" "clk w1 = clk w" "ext w1 = ext w" using c by auto
    have "flush_rows ?dp (due limit w) 0 w1 = (x, w')"
      using assms(2) a True out ow by (simp add: flush_def bindE_apply pending_outbox_def due_def)
    then have "delivers oc n (later (db w')) (due limit w) (ext w1) (clk w1) (ext w') (clk w')"
      using flush_rows_recording [of "due limit w" w1 ow oc n 0 x w'] due_props [OF ids, of limit] ids out acquired_own a True by metis
    then show ?thesis using spec sorted True a out delivers_calls by fastforce
  next
    case False
    then have "x = Inr 0 \<and> w' = w" using assms(2) a c ow by (simp add: flush_def bindE_apply)
    then show ?thesis using False a sorted by (simp add: adv.P_refl)
  qed
qed

definition demo_message :: "int \<Rightarrow> string \<Rightarrow> outbox_row" where
  "demo_message i kind = \<lparr>ob_id = i, ob_kind = kind, ob_key = str_int i, ob_payload = [], ob_status = PENDING,
     ob_attempts = 0, ob_next = 0, ob_error = None\<rparr>"

definition demo_dispatcher :: "unit dispatcher" where
  "demo_dispatcher = \<lparr>dp_post = (\<lambda>kind _ _. if kind = ''orders'' then raise (ControlPlaneUnavailable ''down'') else ret ()),
     dp_send = None, dp_max_attempts = 50, dp_owner = ''p''\<rparr>"

text \<open>A control plane that does not answer the first call that posts an order, and nothing after it.\<close>

definition demo_calls :: outside_calls where
  "demo_calls = \<lparr>oc_answer = (\<lambda>calls c. case c of Post kind p k \<Rightarrow> if kind = ''orders'' \<and> length calls \<le> 1 then Inl (ControlPlaneUnavailable ''down'') else Inr ()
       | Notify t \<Rightarrow> Inr ()), oc_delay = (\<lambda>_ _. 0), oc_notifier = False\<rparr>"

definition demo_outbox :: "delivery list world" where
  "demo_outbox = \<lparr>db = empty_ledger\<lparr>d_outbox := [demo_message 1 ''fills'', demo_message 2 ''orders'', demo_message 3 ''fills''],
     d_next_outbox := 4\<rparr>, depth = 0, clk = 0, ext = []\<rparr>"

lemma demo_outbox_inv: "ledger_inv (db demo_outbox)"
  by (simp add: ledger_inv_def orders_inv_def fills_inv_def tables_inv_def fresh_ids_def exids_unique_def trades_unique_def
      demo_outbox_def demo_message_def empty_ledger_def str_int_def str_nat_aux.simps digit_char_def)

lemma demo_first_flush:
  "fst (flush (recording demo_calls 50 ''p'') 200 demo_outbox) = Inr 1
   \<and> ext (snd (flush (recording demo_calls 50 ''p'') 200 demo_outbox)) = [Post ''fills'' [] ''1'', Post ''orders'' [] ''2'']
   \<and> map ob_status (d_outbox (db (snd (flush (recording demo_calls 50 ''p'') 200 demo_outbox)))) = [SENT, PENDING, PENDING]"
  by code_simp

theorem flush_in_order_witness:
  "let r = flush (recording demo_calls 50 ''p'') 200 demo_outbox in
   fst r = Inr (length (filter (\<lambda>m. ob_status (later (db (snd r)) m) = SENT) (due 200 demo_outbox))) \<and> fst r = Inr 1
   \<and> delivers demo_calls 50 (later (db (snd r))) (due 200 demo_outbox) [] 0 (ext (snd r)) (clk (snd r))
   \<and> ext (snd r) = [Post ''fills'' [] ''1'', Post ''orders'' [] ''2'']"
proof -
  have "fst (acquire_lease LEASE_NAME ''p'' LEASE_TTL_SECONDS demo_outbox) = Inr True"
    by (simp add: acquire_lease_result demo_outbox_def empty_ledger_def)
  then show ?thesis
    using flush_in_order [OF demo_outbox_inv surjective_pairing, where oc = demo_calls and n = 50 and ow = "''p''" and limit = 200] demo_first_flush
    by (simp add: Let_def) (simp add: demo_outbox_def)
qed

text \<open>
  Between flushes the order is lost. The second message waits two seconds for its next attempt; the flush one second later no longer
  finds it due and delivers the third message, which was queued after it.
\<close>

theorem later_flush_overtakes:
  "let w1 = snd (flush (recording demo_calls 50 ''p'') 200 demo_outbox);
       w2 = snd (flush (recording demo_calls 50 ''p'') 200 (w1\<lparr>clk := clk w1 + seconds 1\<rparr>));
       w3 = snd (flush (recording demo_calls 50 ''p'') 200 (w2\<lparr>clk := clk w2 + seconds 1\<rparr>))
   in ext w3 = [Post ''fills'' [] ''1'', Post ''orders'' [] ''2'', Post ''fills'' [] ''3'', Post ''orders'' [] ''2'']
     \<and> map ob_status (d_outbox (db w2)) = [SENT, PENDING, SENT] \<and> map ob_status (d_outbox (db w3)) = [SENT, SENT, SENT]"
  by code_simp

end
