(* ===== verification/Executor.thy ===== *)
theory Executor
  imports Outbox
begin

text \<open>
  The execution boundary: the interface \<^verbatim>\<open>engine/execution/base.py\<close> as a record of calls, and the
  PAPER executor \<^verbatim>\<open>engine/execution/paper.py\<close>, a simulated exchange whose order book lives in the
  key-value table. The locale \<open>execution\<close> is the contract the services rely on: whatever a call
  answers or raises, the ledger only advances. It is interpreted for the PAPER executor here and
  for the Binance executor in theory Binance.
\<close>

section \<open>The interface\<close>

record 'x executor =
  ex_name :: string
  ex_rules :: "string \<Rightarrow> ('x world, symbol_rules) eff"
  ex_submit :: "order \<Rightarrow> symbol_rules \<Rightarrow> ('x world, submit_outcome) eff"
  ex_query :: "order \<Rightarrow> ('x world, report option) eff"
  ex_query_by_id :: "string \<Rightarrow> string \<Rightarrow> ('x world, report option) eff"
  ex_fills :: "order \<Rightarrow> ('x world, xfill list) eff"
  ex_cancel :: "order \<Rightarrow> ('x world, submit_outcome) eff"
  ex_open_orders :: "string \<Rightarrow> ('x world, report list) eff"
  ex_recent_fills :: "string \<Rightarrow> int \<Rightarrow> ('x world, xfill list) eff"
  ex_balances :: "('x world, balance_snapshot) eff"
  ex_time :: "('x world, int) eff"

locale execution =
  fixes ex :: "'x executor"
  assumes rules_safe: "safe (ex_rules ex symbol)"
    and submit_safe: "safe (ex_submit ex od rules)"
    and query_safe: "safe (ex_query ex od)"
    and query_by_id_safe: "safe (ex_query_by_id ex symbol x)"
    and fills_safe: "safe (ex_fills ex od)"
    and cancel_safe: "safe (ex_cancel ex od)"
    and open_orders_safe: "safe (ex_open_orders ex symbol)"
    and recent_fills_safe: "safe (ex_recent_fills ex symbol since)"
    and balances_safe: "safe (ex_balances ex)"
    and time_safe: "safe (ex_time ex)"

section \<open>The PAPER executor\<close>

text \<open>\<^verbatim>\<open>int(now.timestamp() * 1000)\<close>, in floats.\<close>

definition now_ms :: "time \<Rightarrow> int" where
  "now_ms t = round_down_int (fmul (flt_round (of_int t / 1000000)) 1000)"

definition outcome :: "submit_outcome_kind \<Rightarrow> string \<Rightarrow> int option \<Rightarrow> submit_outcome" where
  "outcome kind err code = \<lparr>so_kind = kind, so_report = None, so_fills = [], so_error = Some err, so_error_code = code\<rparr>"

definition acknowledged :: "report option \<Rightarrow> xfill list \<Rightarrow> submit_outcome" where
  "acknowledged r fs = \<lparr>so_kind = OUT_ACKNOWLEDGED, so_report = r, so_fills = fs, so_error = None, so_error_code = None\<rparr>"

definition remove_char :: "char \<Rightarrow> string \<Rightarrow> string" where
  "remove_char c s = filter (\<lambda>x. x \<noteq> c) s"

definition paper_symbol_rules :: "string \<Rightarrow> ('x world, symbol_rules) eff" where
  "paper_symbol_rules symbol = bindE (liftE (assets symbol)) (\<lambda>(base, quote).
     ret \<lparr>sr_symbol = symbol, sr_exchange_symbol = remove_char (CHR ''/'') symbol, sr_base = base, sr_quote = quote,
          sr_step = 1 / 10 ^ 8, sr_min_qty = 0, sr_tick = 1 / 10 ^ 8, sr_min_notional = 0\<rparr>)"

definition paper_key :: "string \<Rightarrow> string" where
  "paper_key coid = ''paper_order:'' @ coid"

definition paper_record :: "order \<Rightarrow> symbol_rules \<Rightarrow> rat \<Rightarrow> rat \<Rightarrow> int \<Rightarrow> (string \<times> jval) list" where
  "paper_record od rules fee_rate price ms =
     (let qty = round_qty rules (o_requested od); quote = dmul qty price in
      [(''client_order_id'', JStr (o_coid od)), (''exchange_order_id'', JStr (''P'' @ str_int (o_id od))),
       (''symbol'', JStr (o_symbol od)), (''side'', JStr (o_side od)), (''type'', JStr (o_type od)), (''status'', JStr ''FILLED''),
       (''orig_qty'', JDec qty), (''executed_qty'', JDec qty), (''cum_quote'', JDec quote), (''time'', JInt ms),
       (''trade'', JObj [(''id'', JStr (''PT'' @ str_int (o_id od))), (''qty'', JDec qty), (''price'', JDec price),
                         (''quote'', JDec quote), (''commission'', JDec (dmul quote fee_rate)),
                         (''commission_asset'', JStr (sr_quote rules))])])"

text \<open>\<^verbatim>\<open>OrderStatus(text)\<close>\<close>

definition status_of :: "string \<Rightarrow> exn + order_status" where
  "status_of s = (case find (\<lambda>st. status_value st = s)
       [INTENT_CREATED, SUBMITTING, NEW, PARTIALLY_FILLED, FILLED, CANCELED, REJECTED, EXPIRED] of
     None \<Rightarrow> Inl (ValueError (s @ '' is not a valid OrderStatus'')) | Some st \<Rightarrow> Inr st)"

definition jstr :: "string \<Rightarrow> (string \<times> jval) list \<Rightarrow> exn + string" where
  "jstr k d = bindR (jget k d) as_str"

definition jdec :: "string \<Rightarrow> (string \<times> jval) list \<Rightarrow> exn + rat" where
  "jdec k d = bindR (jget k d) as_dec"

definition paper_report :: "(string \<times> jval) list \<Rightarrow> exn + report" where
  "paper_report r =
     bindR (jstr ''client_order_id'' r) (\<lambda>coid. bindR (jstr ''exchange_order_id'' r) (\<lambda>exid.
     bindR (jstr ''symbol'' r) (\<lambda>symbol. bindR (jstr ''side'' r) (\<lambda>side. bindR (jstr ''type'' r) (\<lambda>ty.
     bindR (bindR (jstr ''status'' r) status_of) (\<lambda>st. bindR (jdec ''orig_qty'' r) (\<lambda>orig.
     bindR (jdec ''executed_qty'' r) (\<lambda>exq. bindR (jdec ''cum_quote'' r) (\<lambda>cq.
     bindR (bindR (jget ''time'' r) as_int) (\<lambda>ms.
       Inr \<lparr>r_coid = coid, r_symbol = symbol, r_side = side, r_type = ty, r_status = st, r_orig_qty = orig,
            r_executed = exq, r_cumquote = cq, r_exid = Some exid, r_price = None, r_stop = None,
            r_update_ms = Some ms, r_reject = None, r_raw = []\<rparr>))))))))))"

definition paper_fills :: "(string \<times> jval) list \<Rightarrow> exn + xfill list" where
  "paper_fills r =
     bindR (bindR (jget ''trade'' r) as_obj) (\<lambda>t. bindR (jstr ''id'' t) (\<lambda>i. bindR (jstr ''exchange_order_id'' r) (\<lambda>exid.
     bindR (jstr ''client_order_id'' r) (\<lambda>coid. bindR (jstr ''symbol'' r) (\<lambda>symbol. bindR (jstr ''side'' r) (\<lambda>side.
     bindR (jdec ''qty'' t) (\<lambda>q. bindR (jdec ''price'' t) (\<lambda>p. bindR (jdec ''quote'' t) (\<lambda>qu. bindR (jdec ''commission'' t) (\<lambda>c.
     bindR (jstr ''commission_asset'' t) (\<lambda>ca. bindR (bindR (jget ''time'' r) as_int) (\<lambda>ms.
       Inr [\<lparr>xf_trade_id = i, xf_exid = Some exid, xf_coid = Some coid, xf_symbol = symbol, xf_side = side, xf_qty = q,
             xf_price = p, xf_quote = qu, xf_commission = c, xf_commission_asset = Some ca, xf_time_ms = ms,
             xf_key = ''paper:'' @ symbol @ '':'' @ exid @ '':'' @ i @ '':TRADE'', xf_is_maker = None\<rparr>]))))))))))))"

text \<open>A stored order: absent, null and empty objects are all "no such order".\<close>

definition paper_lookup :: "string \<Rightarrow> ('x world, (string \<times> jval) list option) eff" where
  "paper_lookup coid = bindE (kv_get (paper_key coid)) (\<lambda>v. case v of
     None \<Rightarrow> ret None
   | Some j \<Rightarrow> if jtrue j then bindE (liftE (as_obj j)) (\<lambda>d. ret (Some d)) else ret None)"

definition paper_submit :: "rat \<Rightarrow> order \<Rightarrow> symbol_rules \<Rightarrow> ('x world, submit_outcome) eff" where
  "paper_submit fee_rate od rules = bindE (kv_get (paper_key (o_coid od))) (\<lambda>existing.
     if (case existing of None \<Rightarrow> False | Some j \<Rightarrow> jtrue j)
     then ret (outcome OUT_REJECTED ''Duplicate order sent.'' (Some (- 2010)))
     else if o_type od \<noteq> MARKET then ret (outcome OUT_REJECTED ''PAPER supports MARKET orders only'' None)
     else case o_ref od of
       None \<Rightarrow> ret (outcome OUT_REJECTED ''PAPER order needs a reference price'' None)
     | Some price \<Rightarrow>
         if price \<le> 0 then ret (outcome OUT_REJECTED ''PAPER order needs a reference price'' None)
         else bindE now (\<lambda>t. let r = paper_record od rules fee_rate price (now_ms t) in
           thenE (kv_set (paper_key (o_coid od)) (JObj r))
             (bindE (liftE (paper_report r)) (\<lambda>report. bindE (liftE (paper_fills r)) (\<lambda>fs.
               ret (acknowledged (Some report) fs))))))"

definition paper_query :: "order \<Rightarrow> ('x world, report option) eff" where
  "paper_query od = bindE (paper_lookup (o_coid od)) (\<lambda>r. case r of
     None \<Rightarrow> ret None | Some d \<Rightarrow> bindE (liftE (paper_report d)) (\<lambda>rep. ret (Some rep)))"

definition paper_query_fills :: "order \<Rightarrow> ('x world, xfill list) eff" where
  "paper_query_fills od = bindE (paper_lookup (o_coid od)) (\<lambda>r. case r of
     None \<Rightarrow> ret [] | Some d \<Rightarrow> liftE (paper_fills d))"

definition paper_cancel :: "order \<Rightarrow> ('x world, submit_outcome) eff" where
  "paper_cancel od = ret (outcome OUT_REJECTED ''PAPER orders fill immediately; nothing to cancel'' None)"

definition paper_balance_snapshot :: "('x world, string \<times> rat \<times> string \<times> rat) eff \<Rightarrow> ('x world, balance_snapshot) eff" where
  "paper_balance_snapshot cash_fn = bindE cash_fn (\<lambda>(quote, cash, base, qty). bindE now (\<lambda>t.
     ret \<lparr>bs_balances = AList.update base (qty, 0) [(quote, (cash, 0))], bs_as_of_ms = now_ms t\<rparr>))"

definition paper_executor :: "config \<Rightarrow> 'x executor" where
  "paper_executor cfg = \<lparr>ex_name = ''paper'', ex_rules = paper_symbol_rules,
     ex_submit = paper_submit (py_repr (PAPER_FEE_RATE cfg)), ex_query = paper_query,
     ex_query_by_id = (\<lambda>_ _. ret None), ex_fills = paper_query_fills, ex_cancel = paper_cancel,
     ex_open_orders = (\<lambda>_. ret []), ex_recent_fills = (\<lambda>_ _. ret []),
     ex_balances = paper_balance_snapshot (paper_balances cfg (SYMBOL cfg)),
     ex_time = bindE now (\<lambda>t. ret (now_ms t))\<rparr>"

lemma safe_paper_balances [keeps_intros]: "safe (paper_balances cfg symbol)"
  unfolding paper_balances_def paper_cash_def pos_get_def
  by (intro keeps_intros) (auto intro!: keeps_intros split: prod.split)

interpretation paper: execution "paper_executor cfg"
proof (unfold_locales, goal_cases)
  case (2 od rules)
  then show ?case
    by (auto simp: paper_executor_def paper_submit_def Let_def intro!: keeps_intros split: option.split)
qed (auto simp: paper_executor_def paper_symbol_rules_def paper_query_def paper_query_fills_def paper_lookup_def
    paper_cancel_def paper_balance_snapshot_def intro!: keeps_intros split: option.split prod.split)

end
