(* ===== verification/Orders.thy ===== *)
theory Orders
  imports Executor
begin

text \<open>
  The order service: \<^verbatim>\<open>engine/application/order_service.py\<close>, the only path through which orders
  are submitted and exchange data is applied. One definition per method; the executor, the
  configuration and the SHA-256 digest are the fields of \<open>'x services\<close>. The lemmas show, for every
  executor that satisfies the contract, that no operation undoes what the ledger recorded, that an
  order is stored as SUBMITTING before the exchange can see it and is sent at most once per
  intent, that an execution moves the position exactly once and the position stays the accounting
  of the fills, and that a contradiction by the exchange is raised with its alert recorded.
\<close>

record 'x services =
  sv_cfg :: config
  sv_ex :: "'x executor"
  sv_sha :: "string \<Rightarrow> string"

abbreviation sv_bot :: "'x services \<Rightarrow> string" where
  "sv_bot sv \<equiv> BOT_INSTANCE_ID (sv_cfg sv)"

section \<open>The methods\<close>

definition enqueue_order :: "order \<Rightarrow> ('x world, unit) eff" where
  "enqueue_order od = bindE (intent_signal_id (o_intent od)) (\<lambda>sig.
     thenE (enqueue ''orders'' (''order:'' @ o_coid od @ '':v'' @ str_int (o_version od))
              (order_payload od @ [(''signal_id'', jopt JStr sig)])) (ret ()))"

definition save_and_enqueue :: "order \<Rightarrow> ('x world, order) eff" where
  "save_and_enqueue od = bindE (save_order od) (\<lambda>od. thenE (enqueue_order od) (ret od))"

definition record_conflict :: "'x services \<Rightarrow> string \<Rightarrow> string \<Rightarrow> string \<Rightarrow> string \<Rightarrow> ('x world, unit) eff" where
  "record_conflict sv coid exchange_status message source = bindE (getE in_transaction) (\<lambda>inside.
     if inside then ret ()
     else enqueue_event (sv_bot sv) ''ORDER_STATE_CONFLICT'' message ''CRITICAL''
            [(''client_order_id'', JStr coid), (''source'', JStr source)]
            (Some (''conflict:'' @ coid @ '':'' @ exchange_status)) True)"

text \<open>The local order of a report or of an execution: by client id, else by exchange id.\<close>

definition find_order :: "'x services \<Rightarrow> string option \<Rightarrow> string option \<Rightarrow> ('x world, order option) eff" where
  "find_order sv coid exid = bindE (if truthy coid then get_order (the coid) else ret None) (\<lambda>od.
     if od = None \<and> truthy exid then get_order_by_exchange_id (ex_name (sv_ex sv)) (the exid) else ret od)"

text \<open>
  The transaction of \<^verbatim>\<open>apply_report\<close>: no local order, or the order with the conflict found, if
  any. \<^verbatim>\<open>get_order\<close> is called with whatever client id the report has, empty or not.
\<close>

definition report_transaction :: "'x services \<Rightarrow> report \<Rightarrow> ('x world, (order \<times> string option) option) eff" where
  "report_transaction sv r = transaction
     (bindE (get_order (r_coid r)) (\<lambda>o1.
      bindE (if o1 = None \<and> truthy (r_exid r) then get_order_by_exchange_id (ex_name (sv_ex sv)) (the (r_exid r))
             else ret o1) (\<lambda>o2.
        case o2 of None \<Rightarrow> ret None
        | Some od \<Rightarrow> bindE now (\<lambda>t. case apply_report r t od of
              (Inl (IllegalTransition m), od') \<Rightarrow> ret (Some (od', Some m))
            | (Inl e, _) \<Rightarrow> raise e
            | (Inr changed, od') \<Rightarrow>
                if changed then bindE (save_and_enqueue od') (\<lambda>od''. ret (Some (od'', None)))
                else ret (Some (od', None))))))"

definition service_apply_report :: "'x services \<Rightarrow> report \<Rightarrow> string \<Rightarrow> ('x world, order option) eff" where
  "service_apply_report sv r source = bindE (report_transaction sv r) (\<lambda>res. case res of
     None \<Rightarrow> ret None
   | Some (od, None) \<Rightarrow> ret (Some od)
   | Some (od, Some m) \<Rightarrow>
       thenE (record_conflict sv (o_coid od) (status_value (r_status r)) m source) (raise (OrderConflict m)))"

definition make_fill :: "order \<Rightarrow> xfill \<Rightarrow> time \<Rightarrow> fill" where
  "make_fill od xf t = \<lparr>f_order_id = o_id od, f_coid = o_coid od, f_symbol = o_symbol od, f_side = o_side od,
     f_qty = xf_qty xf, f_price = xf_price xf, f_quote = xf_quote xf, f_commission = xf_commission xf,
     f_commission_asset = xf_commission_asset xf,
     f_time = (if xf_time_ms xf \<noteq> 0 then xf_time_ms xf * 1000 else t),
     f_key = xf_key xf, f_trade_id = Some (xf_trade_id xf), f_id = 0\<rparr>"

text \<open>The block of \<^verbatim>\<open>ingest_fill\<close> under its transaction, and what follows the position update.\<close>

definition announce_fill :: "'x services \<Rightarrow> order \<Rightarrow> fill \<Rightarrow> apply_result \<Rightarrow> ('x world, bool) eff" where
  "announce_fill sv od f res =
     thenE (enqueue ''fills'' (''fill:'' @ f_key f) (fill_payload f))
     (thenE (enqueue ''positions'' (''position:'' @ o_symbol od @ '':fill:'' @ f_key f)
               (position_payload (ar_position res)))
     (thenE (whenE (ar_anomalies res \<noteq> [])
               (enqueue_event (sv_bot sv) ''POSITION_ANOMALY'' (join '','' (ar_anomalies res)) ''CRITICAL''
                  [(''event_key'', JStr (f_key f))] (Some (''anomaly:'' @ f_key f)) True))
            (ret True)))"

definition ingest_body :: "'x services \<Rightarrow> xfill \<Rightarrow> ('x world, bool) eff" where
  "ingest_body sv xf = bindE (find_order sv (xf_coid xf) (xf_exid xf)) (\<lambda>found. case found of
     None \<Rightarrow> ret False
   | Some od \<Rightarrow> bindE now (\<lambda>t. let f = make_fill od xf t in
       bindE (insert_fill f) (\<lambda>new.
         if \<not> new then ret False
         else bindE (pos_apply_fill (sv_cfg sv) f) (announce_fill sv od f))))"

definition ingest_fill :: "'x services \<Rightarrow> xfill \<Rightarrow> string \<Rightarrow> ('x world, bool) eff" where
  "ingest_fill sv xf source = transaction (ingest_body sv xf)"

definition ingest_order_fills :: "'x services \<Rightarrow> order option \<Rightarrow> ('x world, unit) eff" where
  "ingest_order_fills sv od = (case od of None \<Rightarrow> ret ()
   | Some od \<Rightarrow> if \<not> truthy (o_exid od) then ret ()
       else bindE (ex_fills (sv_ex sv) od) (\<lambda>xfs.
         forE xfs (\<lambda>xf. thenE (ingest_fill sv xf ''rest_trades'') (ret ()))))"

definition refresh :: "'x services \<Rightarrow> order \<Rightarrow> ('x world, order option) eff" where
  "refresh sv od = bindE (ex_query (sv_ex sv) od) (\<lambda>rep.
     thenE (case rep of None \<Rightarrow> ret () | Some r \<Rightarrow> thenE (service_apply_report sv r ''rest_query'') (ret ()))
       (bindE (get_order (o_coid od)) (\<lambda>cur.
         thenE (ingest_order_fills sv cur) (get_order (o_coid od)))))"

definition none_error :: exn where
  "none_error = AttributeError ''NoneType''"

text \<open>A read-modify-write of one order in one transaction.\<close>

definition update_order :: "string \<Rightarrow> (order, bool) eff \<Rightarrow> (order \<Rightarrow> ('x world, unit) eff) \<Rightarrow> ('x world, unit) eff" where
  "update_order coid change after = transaction
     (bindE (get_order coid) (\<lambda>fresh. case fresh of None \<Rightarrow> raise none_error
      | Some od \<Rightarrow> bindE (objE change od) (\<lambda>(changed, od).
          if changed then bindE (save_and_enqueue od) after else ret ())))"

definition reject_order :: "string \<Rightarrow> string \<Rightarrow> ('x world, unit) eff" where
  "reject_order coid reason = bindE now (\<lambda>t. update_order coid (mark_rejected reason t) (\<lambda>_. ret ()))"

definition resolve_ambiguous :: "'x services \<Rightarrow> order \<Rightarrow> ('x world, string) eff" where
  "resolve_ambiguous sv od =
     (if is_terminal (o_status od) then ret ''resolved''
      else bindE (tryE (bindE (ex_query (sv_ex sv) od) (\<lambda>r. ret (Some r))) (\<lambda>_. ret None)) (\<lambda>queried.
        case queried of
          None \<Rightarrow> ret ''pending''
        | Some (Some rep) \<Rightarrow>
            thenE (service_apply_report sv rep ''rest_query'')
              (bindE (get_order (o_coid od)) (\<lambda>cur.
                thenE (ingest_order_fills sv cur) (ret ''resolved'')))
        | Some None \<Rightarrow> bindE now (\<lambda>t.
            let age = t - (case o_submitted od of None \<Rightarrow> t | Some s \<Rightarrow> s) in
            if age < seconds (AMBIGUOUS_ORDER_GRACE_SECONDS (sv_cfg sv)) then ret ''pending''
            else thenE (reject_order (o_coid od)
                          (NOT_FOUND_REASON @ '' after '' @ str_int (round_down_int (of_int age / 1000000)) @ ''s''))
                   (ret ''resolved''))))"

definition new_order :: "'x services \<Rightarrow> intent \<Rightarrow> symbol_rules \<Rightarrow> order" where
  "new_order sv it rules = \<lparr>o_bot = sv_bot sv, o_exchange = ex_name (sv_ex sv), o_symbol = oi_symbol it,
     o_side = oi_side it, o_type = oi_type it, o_purpose = oi_purpose it,
     o_coid = make_client_order_id (sv_sha sv) (CLIENT_ORDER_ID_PREFIX (sv_cfg sv)) (oi_id it),
     o_intent = oi_id it, o_requested = round_qty rules (oi_qty it), o_status = INTENT_CREATED, o_id = 0,
     o_exid = None, o_executed = 0, o_cumquote = 0, o_avg = None, o_limit = oi_limit it, o_stop = oi_stop it,
     o_ref = oi_ref it, o_ambiguous = False, o_reject = None, o_submitted = None, o_acked = None,
     o_last_update = None, o_last_update_ms = None, o_terminal_at = None, o_raw = [], o_version = 0\<rparr>"

text \<open>Recording the order before the network call: \<open>Inl\<close> the order another caller recorded.\<close>

definition persist_submission :: "'x services \<Rightarrow> intent \<Rightarrow> symbol_rules \<Rightarrow> ('x world, order option + order) eff" where
  "persist_submission sv it rules = bindE now (\<lambda>t.
     bindE (objE (mark_submitting t) (new_order sv it rules)) (\<lambda>(_, od). transaction
       (bindE (insert_intent_and_order it od) (\<lambda>(new, od).
          if \<not> new then bindE (get_order_by_intent (oi_id it)) (\<lambda>e. ret (Inl e))
          else bindE (save_and_enqueue od) (\<lambda>od. ret (Inr od))))))"

definition error_text :: "string option \<Rightarrow> string" where
  "error_text e = (case e of None \<Rightarrow> ''None'' | Some s \<Rightarrow> s)"

definition rejection_reason :: "submit_outcome \<Rightarrow> string" where
  "rejection_reason oc = strip
     ((if truthy_int (so_error_code oc) then str_int (the (so_error_code oc)) else []) @ '' ''
      @ (if truthy (so_error oc) then the (so_error oc) else ''rejected''))"

definition settle_outcome :: "'x services \<Rightarrow> order \<Rightarrow> submit_outcome \<Rightarrow> ('x world, unit) eff" where
  "settle_outcome sv od oc = (case so_kind oc of
     OUT_ACKNOWLEDGED \<Rightarrow> (case so_report oc of None \<Rightarrow> raise none_error
       | Some r \<Rightarrow> thenE (service_apply_report sv r ''rest_submit'')
           (forE (so_fills oc) (\<lambda>xf. thenE (ingest_fill sv xf ''rest_submit'') (ret ()))))
   | OUT_REJECTED \<Rightarrow> reject_order (o_coid od) (rejection_reason oc)
   | OUT_AMBIGUOUS \<Rightarrow>
       thenE (update_order (o_coid od) (thenE (updE (\<lambda>od. od\<lparr>o_ambiguous := True\<rparr>)) (ret True))
          (\<lambda>_. enqueue_event (sv_bot sv) ''ORDER_SUBMISSION_AMBIGUOUS'' (o_coid od @ '': '' @ error_text (so_error oc))
                 ''WARNING'' [(''client_order_id'', JStr (o_coid od))] (Some (''ambiguous:'' @ o_coid od)) False))
       (bindE (get_order (o_coid od)) (\<lambda>cur. case cur of None \<Rightarrow> raise none_error
          | Some cur \<Rightarrow> thenE (resolve_ambiguous sv cur) (ret ()))))"

definition submit_intent :: "'x services \<Rightarrow> intent \<Rightarrow> symbol_rules \<Rightarrow> ('x world, order option) eff" where
  "submit_intent sv it rules = bindE (get_order_by_intent (oi_id it)) (\<lambda>existing. case existing of
     Some od \<Rightarrow> ret (Some od)
   | None \<Rightarrow> bindE (persist_submission sv it rules) (\<lambda>p. case p of
       Inl e \<Rightarrow> ret e
     | Inr od \<Rightarrow> bindE (tryE (ex_submit (sv_ex sv) od rules)
                     (\<lambda>e. ret (outcome OUT_AMBIGUOUS (take 300 (exn_str e)) None))) (\<lambda>oc.
         thenE (settle_outcome sv od oc) (get_order (o_coid od)))))"

fun is_conflict :: "exn \<Rightarrow> bool" where
  "is_conflict (OrderConflict m) = True"
| "is_conflict _ = False"

definition cancel_order :: "'x services \<Rightarrow> order \<Rightarrow> ('x world, order option) eff" where
  "cancel_order sv od = bindE (ex_cancel (sv_ex sv) od) (\<lambda>oc.
     thenE (if so_kind oc = OUT_ACKNOWLEDGED \<and> so_report oc \<noteq> None
            then thenE (service_apply_report sv (the (so_report oc)) ''rest_cancel'') (ret ()) else ret ())
       (tryE (refresh sv od) (\<lambda>e. if is_conflict e then raise e else get_order (o_coid od))))"

definition fill_quantity :: "order \<Rightarrow> ('x world, rat) eff" where
  "fill_quantity od = bindE (fills_for_order (o_id od)) (\<lambda>fs. ret (dsum (map f_qty fs)))"

definition non_terminal :: "'x services \<Rightarrow> string option \<Rightarrow> ('x world, order list) eff" where
  "non_terminal sv symbol = non_terminal_orders (sv_bot sv) symbol"

section \<open>Every operation only advances the ledger\<close>

text \<open>Composition at one world, where what was just read is still there.\<close>

lemmas advances_bindE = adv.bindE_at

lemma advances_transaction:
  assumes "advances (w\<lparr>depth := depth w + 1\<rparr>) (snd (m (w\<lparr>depth := depth w + 1\<rparr>)))"
  shows "advances w (snd (transaction m w))"
proof -
  obtain r w' where "m (w\<lparr>depth := depth w + 1\<rparr>) = (r, w')" by (cases "m (w\<lparr>depth := depth w + 1\<rparr>)")
  then show ?thesis using assms by (cases r) (auto simp: transaction_def advances_def Let_def)
qed

lemma save_order_advances:
  assumes "r \<in> set (d_orders (db w))" "order_le r od" "o_version od = o_version r"
  shows "advances w (snd (save_order od w))"
proof -
  have inv: "ledger_inv (db w) \<longrightarrow> ledger_inv (db (snd (save_order od w)))"
    using keepsS [OF keeps_inv_save_order, of w od] by simp
  let ?f = "\<lambda>row. if same_row od row then update_row od row else row"
  have res: "snd (save_order od w) = w \<or> snd (save_order od w) = w\<lparr>db := (db w)\<lparr>d_orders := map ?f (d_orders (db w))\<rparr>\<rparr>"
    by (simp add: save_order_def transaction_def Let_def)
  have "ledger_le (db w) ((db w)\<lparr>d_orders := map ?f (d_orders (db w))\<rparr>)" if i: "ledger_inv (db w)"
  proof (rule ledger_leI)
    fix a
    assume a: "a \<in> set (d_orders (db w))"
    have "order_le a (?f a)"
    proof (cases "same_row od a")
      case True
      have "o_id a = o_id r" using True assms(2) by (simp add: same_row_def order_le_def order_key_def)
      then have "a = r" using orders_unique(1) [OF _ a assms(1)] i by (simp add: ledger_inv_def)
      then show ?thesis using True assms(2) by (simp add: order_le_def order_key_def update_row_def)
    qed simp
    then show "\<exists>b\<in>set (d_orders ((db w)\<lparr>d_orders := map ?f (d_orders (db w))\<rparr>)). order_le a b"
    proof (rule bexI)
      show "?f a \<in> set (d_orders ((db w)\<lparr>d_orders := map ?f (d_orders (db w))\<rparr>))"
      proof -
        have "d_orders ((db w)\<lparr>d_orders := rows\<rparr>) = rows" for rows by simp
        then show ?thesis using imageI [OF a, of ?f] by (simp only: set_map)
      qed
    qed
  qed auto
  then show ?thesis using res inv by (auto simp: advances_def)
qed

lemma safe_enqueue_order [keeps_intros]: "safe (enqueue_order od)"
  unfolding enqueue_order_def by (intro keeps_intros)

lemma save_and_enqueue_advances:
  assumes "r \<in> set (d_orders (db w))" "order_le r od" "o_version od = o_version r"
  shows "advances w (snd (save_and_enqueue od w))"
  unfolding save_and_enqueue_def
  by (intro advances_bindE save_order_advances [OF assms] keepsS [of advances] keeps_intros)

text \<open>Reading an order and changing it in one transaction.\<close>

lemma find_orderD: "find P (d_orders (db w)) = Some od \<Longrightarrow> od \<in> set (d_orders (db w))"
  by (auto dest: find_SomeD)

lemma safe_update_order:
  assumes "\<And>od. order_le od (snd (change od))" "\<And>od. o_version (snd (change od)) = o_version od" "\<And>od. safe (after od)"
  shows "safe (update_order coid change after)"
  unfolding update_order_def
proof (intro keepsI advances_transaction advances_bindE)
  fix w :: "'a world" and fresh w'
  assume g: "get_order coid (w\<lparr>depth := depth w + 1\<rparr>) = (Inr fresh, w')"
  show "advances w' (snd ((case fresh of None \<Rightarrow> raise none_error | Some od \<Rightarrow> bindE (objE change od) (\<lambda>(changed, od).
          if changed then bindE (save_and_enqueue od) after else ret ())) w'))"
  proof (cases fresh)
    case (Some od)
    have od: "od \<in> set (d_orders (db w'))" using g Some by (auto simp: get_order_def dest: find_orderD)
    obtain r od' where c: "change od = (r, od')" by (cases "change od")
    have le: "order_le od od'" "o_version od' = o_version od" using assms(1,2) [of od] c by simp_all
    show ?thesis
    proof (cases r)
      case (Inr b)
      have "advances w' (snd (bindE (save_and_enqueue od') after w'))"
        by (intro advances_bindE save_and_enqueue_advances [OF od le] keepsS [OF assms(3)])
      then show ?thesis using c Inr Some by (simp add: objE_Inr adv.P_refl)
    qed (use c Some in \<open>simp add: objE_Inl adv.P_refl\<close>)
  qed (simp add: adv.P_refl)
qed (simp add: get_order_def adv.P_refl)

lemma mark_rejected_le: "order_le od (snd (mark_rejected reason t od))"
  by (rule mark_rejected_cases [of od reason t]) (auto intro: rejected_le)

lemma mark_rejected_version: "o_version (snd (mark_rejected reason t od)) = o_version od"
  by (rule mark_rejected_cases [of od reason t]) auto

lemma safe_reject_order [keeps_intros]: "safe (reject_order coid reason)"
  unfolding reject_order_def
  by (intro keeps_intros safe_update_order mark_rejected_le mark_rejected_version)

lemma ambiguous_le: "order_le od (od\<lparr>o_ambiguous := b\<rparr>)"
  by (simp add: order_le_def order_key_def)

lemma safe_report_transaction [keeps_intros]: "safe (report_transaction sv r)"
  unfolding report_transaction_def
proof (intro keepsI advances_transaction advances_bindE)
  fix w :: "'a world" and o1 w1 o2 w2
  assume g1: "get_order (r_coid r) (w\<lparr>depth := depth w + 1\<rparr>) = (Inr o1, w1)"
    and g2: "(if o1 = None \<and> truthy (r_exid r) then get_order_by_exchange_id (ex_name (sv_ex sv)) (the (r_exid r))
             else ret o1) w1 = (Inr o2, w2)"
  show "advances w2 (snd ((case o2 of None \<Rightarrow> ret None
        | Some od \<Rightarrow> bindE now (\<lambda>t. case apply_report r t od of
              (Inl (IllegalTransition m), od') \<Rightarrow> ret (Some (od', Some m))
            | (Inl e, _) \<Rightarrow> raise e
            | (Inr changed, od') \<Rightarrow>
                if changed then bindE (save_and_enqueue od') (\<lambda>od''. ret (Some (od'', None)))
                else ret (Some (od', None)))) w2))"
  proof (cases o2)
    case (Some od)
    have od: "od \<in> set (d_orders (db w2))"
      using g1 g2 Some by (auto simp: get_order_def get_order_by_exchange_id_def dest: find_orderD split: if_splits)
    obtain x od' where a: "apply_report r (clk w2) od = (x, od')" by (cases "apply_report r (clk w2) od")
    have le: "order_le od od'" using apply_report_le [of od r "clk w2"] a by simp
    have v: "o_version od' = o_version od" using apply_report_version [of r "clk w2" od] a by simp
    have "advances w2 (snd (bindE (save_and_enqueue od') (\<lambda>od''. ret (Some (od'', None))) w2))"
      by (intro advances_bindE save_and_enqueue_advances [OF od le v]) (simp add: adv.P_refl)
    then show ?thesis using Some a by (auto simp: adv.P_refl split: sum.split exn.split)
  qed (simp add: adv.P_refl)
qed (auto simp: get_order_def get_order_by_exchange_id_def adv.P_refl)

text \<open>What the insertion of an intent with its order leaves behind.\<close>

definition with_order :: "intent \<Rightarrow> order \<Rightarrow> ledger \<Rightarrow> ledger" where
  "with_order it od d = d\<lparr>d_intents := d_intents d @ [it], d_orders := d_orders d @ [order_row od (d_next_order d)],
     d_next_order := d_next_order d + 1\<rparr>"

definition order_clash :: "order \<Rightarrow> ledger \<Rightarrow> bool" where
  "order_clash od d \<longleftrightarrow> o_coid od \<in> o_coid ` set (d_orders d) \<or> o_intent od \<in> o_intent ` set (d_orders d)"

lemma insert_intent_result:
  "insert_intent_and_order it od w =
     (if oi_id it \<in> oi_id ` set (d_intents (db w)) then (Inr (False, od), w)
      else if order_clash od (db w) then
        (Inl (IntegrityError ''UNIQUE constraint failed: orders''),
         if depth w = 0 then w else w\<lparr>db := (db w)\<lparr>d_intents := d_intents (db w) @ [it]\<rparr>\<rparr>)
      else (Inr (True, od\<lparr>o_id := d_next_order (db w)\<rparr>), w\<lparr>db := with_order it od (db w)\<rparr>))"
  by (simp add: insert_intent_and_order_def transaction_def Let_def order_clash_def with_order_def)

lemma insert_intent_advances:
  assumes "o_intent od = oi_id it"
  shows "advances w (snd (insert_intent_and_order it od w))"
proof -
  have inv: "ledger_inv (db w) \<longrightarrow> ledger_inv (db (snd (insert_intent_and_order it od w)))"
    using keepsS [OF keeps_inv_insert_intent [OF assms], of w] by simp
  have "ledger_le (db w) ((db w)\<lparr>d_intents := d_intents (db w) @ [it]\<rparr>)" "ledger_le (db w) (with_order it od (db w))"
    by (rule ledger_leI; auto simp: with_order_def intro: order_le_refl)+
  then show ?thesis using inv by (auto simp: insert_intent_result advances_def)
qed

lemma new_row_le: "order_le (order_row od i) (od\<lparr>o_id := i\<rparr>)"
  if "0 \<le> o_executed od" "0 \<le> o_cumquote od"
  using that by (simp add: order_le_def order_key_def order_row_def truthy_def)

lemma mark_submitting_new:
  "mark_submitting t (new_order sv it rules) = (Inr (), (new_order sv it rules)\<lparr>o_status := SUBMITTING, o_submitted := Some t\<rparr>)"
  by (simp add: mark_submitting_def transition_def new_order_def can_transition_def thenE_def bindE_apply)

lemma objE_submitting:
  "objE (mark_submitting t) (new_order sv it rules)
     = ret ((), (new_order sv it rules)\<lparr>o_status := SUBMITTING, o_submitted := Some t\<rparr>)"
  by (rule objE_Inr) (rule mark_submitting_new)

lemma safe_persist_submission [keeps_intros]: "safe (persist_submission sv it rules)"
proof -
  let ?od = "\<lambda>t. (new_order sv it rules)\<lparr>o_status := SUBMITTING, o_submitted := Some t\<rparr>"
  have "safe (transaction (bindE (insert_intent_and_order it (?od t)) (\<lambda>(new, od).
          if \<not> new then bindE (get_order_by_intent (oi_id it)) (\<lambda>e. ret (Inl e))
          else bindE (save_and_enqueue od) (\<lambda>od. ret (Inr od)))) :: ('a world, order option + order) eff)" for t
  proof (intro keepsI advances_transaction advances_bindE insert_intent_advances)
    fix w :: "'a world" and a w'
    assume i: "insert_intent_and_order it (?od t) (w\<lparr>depth := depth w + 1\<rparr>) = (Inr a, w')"
    show "advances w' (snd ((case a of (new, od) \<Rightarrow>
          if \<not> new then bindE (get_order_by_intent (oi_id it)) (\<lambda>e. ret (Inl e))
          else bindE (save_and_enqueue od) (\<lambda>od. ret (Inr od) :: ('a world, order option + order) eff)) w'))"
    proof (cases "fst a")
      case True
      let ?i = "d_next_order (db w)"
      have a: "a = (True, (?od t)\<lparr>o_id := ?i\<rparr>)" and w': "w' = w\<lparr>depth := depth w + 1, db := with_order it (?od t) (db w)\<rparr>"
        using i True by (auto simp: insert_intent_result split: if_splits)
      have row: "order_row (?od t) ?i \<in> set (d_orders (db w'))" by (simp add: w' with_order_def)
      have "advances w' (snd (bindE (save_and_enqueue ((?od t)\<lparr>o_id := ?i\<rparr>)) (\<lambda>od. ret (Inr od) :: ('a world, order option + order) eff) w'))"
        by (intro advances_bindE save_and_enqueue_advances [OF row] new_row_le)
          (simp_all add: new_order_def order_row_def adv.P_refl)
      then show ?thesis by (simp add: a)
    next
      case False
      have "safe (bindE (get_order_by_intent (oi_id it)) (\<lambda>e. ret (Inl e)) :: ('a world, order option + order) eff)"
        by (intro keeps_intros)
      then show ?thesis using False keepsS by (auto split: prod.split)
    qed
  qed (simp add: new_order_def)
  then show ?thesis
    unfolding persist_submission_def
    by (intro adv.keeps_bindE [OF safe_now]) (simp only: objE_submitting bindE_simps prod.case)
qed

lemma safe_record_conflict [keeps_intros]: "safe (record_conflict sv c st m src)"
  unfolding record_conflict_def by (intro keeps_intros)

lemma safe_find_order [keeps_intros]: "safe (find_order sv c x)"
  unfolding find_order_def by (intro keeps_intros)

lemma safe_service_apply_report [keeps_intros]: "safe (service_apply_report sv r src)"
  unfolding service_apply_report_def
  by (intro adv.keeps_bindE safe_report_transaction) (auto split: option.split prod.split intro!: keeps_intros)

lemma safe_pos_apply_fill [keeps_intros]: "safe (pos_apply_fill cfg f)"
  unfolding pos_apply_fill_def by (intro keeps_intros) (auto split: prod.split intro!: keeps_intros)

lemma safe_ingest_fill [keeps_intros]: "safe (ingest_fill sv xf src)"
  unfolding ingest_fill_def ingest_body_def announce_fill_def Let_def by (intro keeps_intros)

context execution
begin

lemma safe_ingest_order_fills:
  assumes sv: "sv_ex sv = ex"
  shows "safe (ingest_order_fills sv od)"
  unfolding ingest_order_fills_def sv by (auto intro!: keeps_intros fills_safe split: option.split)

lemma safe_refresh:
  assumes sv: "sv_ex sv = ex"
  shows "safe (refresh sv od)"
  unfolding refresh_def sv by (intro keeps_intros safe_ingest_order_fills [OF sv]) (simp_all add: query_safe)

lemma safe_resolve_ambiguous:
  assumes sv: "sv_ex sv = ex"
  shows "safe (resolve_ambiguous sv od)"
  unfolding resolve_ambiguous_def sv Let_def
  by (intro adv.keeps_if adv.keeps_bindE adv.keeps_tryE adv.keeps_ret)
    (auto split: option.split intro!: keeps_intros safe_ingest_order_fills [OF sv] query_safe)

lemma safe_settle_outcome:
  assumes sv: "sv_ex sv = ex"
  shows "safe (settle_outcome sv od oc)"
  unfolding settle_outcome_def sv
  by (auto split: submit_outcome_kind.split option.split simp: thenE_def bindE_apply ambiguous_le
      intro!: keeps_intros safe_resolve_ambiguous [OF sv] safe_update_order)

lemma safe_submit_intent:
  assumes sv: "sv_ex sv = ex"
  shows "safe (submit_intent sv it rules)"
  unfolding submit_intent_def sv
  by (intro adv.keeps_bindE safe_reads)
    (auto split: option.split sum.split intro!: keeps_intros safe_settle_outcome [OF sv] submit_safe)

lemma safe_cancel_order:
  assumes sv: "sv_ex sv = ex"
  shows "safe (cancel_order sv od)"
  unfolding cancel_order_def sv by (intro keeps_intros safe_refresh [OF sv]) (simp_all add: cancel_safe)

end

text \<open>
  The order service never undoes what was recorded. For every executor that keeps the
  contract, each operation of the order service, however it ends, keeps the ledger's uniqueness
  invariant, moves orders only forward (identity kept, status along the state machine, executed
  quantities never smaller, exchange ids kept), only adds intents, fills and processed events, keeps
  messages that were sent, and restores the transaction depth.
\<close>

theorem order_service_advances:
  assumes "execution (sv_ex sv)"
  shows "safe (submit_intent sv it rules) \<and> safe (resolve_ambiguous sv od) \<and> safe (service_apply_report sv rep src)
    \<and> safe (ingest_fill sv xf src) \<and> safe (refresh sv od) \<and> safe (cancel_order sv od)"
  using execution.safe_submit_intent [OF assms] execution.safe_resolve_ambiguous [OF assms] safe_service_apply_report
    safe_ingest_fill execution.safe_refresh [OF assms] execution.safe_cancel_order [OF assms] by blast

definition demo_services :: "unit services" where
  "demo_services = \<lparr>sv_cfg = demo_config, sv_ex = paper_executor demo_config, sv_sha = (\<lambda>s. replicate 64 (CHR ''a''))\<rparr>"

definition demo_rules :: symbol_rules where
  "demo_rules = \<lparr>sr_symbol = ''BTC/USDT'', sr_exchange_symbol = ''BTCUSDT'', sr_base = ''BTC'', sr_quote = ''USDT'',
     sr_step = 1 / 10 ^ 8, sr_min_qty = 0, sr_tick = 1 / 10 ^ 8, sr_min_notional = 0\<rparr>"

definition demo_intent :: intent where
  "demo_intent = \<lparr>oi_id = ''i1'', oi_bot = ''bot'', oi_symbol = ''BTC/USDT'', oi_side = BUY, oi_type = MARKET, oi_qty = 1,
     oi_purpose = ENTRY, oi_strategy_name = ''s'', oi_strategy_version = ''1'', oi_signal_id = None, oi_limit = None,
     oi_stop = None, oi_ref = Some 100, oi_created_at = 0\<rparr>"

lemma demo_execution: "execution (sv_ex demo_services)"
  unfolding demo_services_def by (simp add: paper.execution_axioms)

theorem order_service_advances_witness:
  "safe (submit_intent demo_services demo_intent demo_rules) \<and> safe (resolve_ambiguous demo_services base_order)
    \<and> safe (service_apply_report demo_services (demo_report FILLED 1 100 5) ''ws'')
    \<and> safe (ingest_fill demo_services \<lparr>xf_trade_id = ''t2'', xf_exid = None, xf_coid = Some ''cb1-1'', xf_symbol = ''BTC/USDT'',
         xf_side = BUY, xf_qty = 1, xf_price = 100, xf_quote = 100, xf_commission = 0, xf_commission_asset = None, xf_time_ms = 5,
         xf_key = ''b'', xf_is_maker = None\<rparr> ''ws'')
    \<and> safe (refresh demo_services base_order)
    \<and> safe (cancel_order demo_services base_order)"
  by (rule order_service_advances) (rule demo_execution)

section \<open>Recorded before sent, sent at most once\<close>

text \<open>What the exchange call of an order finds in the ledger.\<close>

definition persisted :: "intent \<Rightarrow> order \<Rightarrow> 'x world \<Rightarrow> bool" where
  "persisted it od w \<longleftrightarrow> depth w = 0 \<and> o_intent od = oi_id it \<and> it \<in> set (d_intents (db w))
     \<and> find (\<lambda>r. o_coid r = o_coid od) (d_orders (db w)) = Some od \<and> o_status od = SUBMITTING \<and> o_submitted od \<noteq> None
     \<and> (\<exists>m\<in>set (d_outbox (db w)). ob_key m = ''order:'' @ o_coid od @ '':v'' @ str_int (o_version od))"

lemma find_append_new: "\<forall>x\<in>set xs. \<not> P x \<Longrightarrow> find P (xs @ ys) = find P ys"
  by (induction xs) auto

lemma enqueue_result:
  "enqueue kind key payload w = (if key \<in> ob_key ` set (d_outbox (db w)) then (Inr False, w)
     else (Inr True, w\<lparr>db := (db w)\<lparr>d_outbox := d_outbox (db w) @ [\<lparr>ob_id = d_next_outbox (db w), ob_kind = kind, ob_key = key,
       ob_payload = payload, ob_status = PENDING, ob_attempts = 0, ob_next = clk w, ob_error = None\<rparr>],
       d_next_outbox := d_next_outbox (db w) + 1\<rparr>\<rparr>))"
  by (simp add: enqueue_def transaction_def Let_def)

lemma enqueue_order_result:
  "\<exists>d'. enqueue_order od w = (Inr (), w\<lparr>db := d'\<rparr>) \<and> d_orders d' = d_orders (db w) \<and> d_intents d' = d_intents (db w)
     \<and> d_fills d' = d_fills (db w) \<and> d_positions d' = d_positions (db w)
     \<and> (\<exists>m\<in>set (d_outbox d'). ob_key m = ''order:'' @ o_coid od @ '':v'' @ str_int (o_version od))"
proof -
  have "\<exists>d'. enqueue kind key payload w = (x, w\<lparr>db := d'\<rparr>) \<and> d_orders d' = d_orders (db w) \<and> d_intents d' = d_intents (db w)
     \<and> d_fills d' = d_fills (db w) \<and> d_positions d' = d_positions (db w) \<and> (\<exists>m\<in>set (d_outbox d'). ob_key m = key)"
    if "x = Inr (key \<notin> ob_key ` set (d_outbox (db w)))" for kind key payload x
  proof (cases "key \<in> ob_key ` set (d_outbox (db w))")
    case True
    then show ?thesis using that by (intro exI [of _ "db w"]) (auto simp: enqueue_result)
  next
    case False
    then show ?thesis using that
      by (intro exI [of _ "(db w)\<lparr>d_outbox := d_outbox (db w) @ [\<lparr>ob_id = d_next_outbox (db w), ob_kind = kind, ob_key = key,
            ob_payload = payload, ob_status = PENDING, ob_attempts = 0, ob_next = clk w, ob_error = None\<rparr>],
            d_next_outbox := d_next_outbox (db w) + 1\<rparr>"]) (simp add: enqueue_result)
  qed
  note one = this
  let ?p = "order_payload od @ [(''signal_id'', jopt JStr (case find (\<lambda>it. oi_id it = o_intent od) (d_intents (db w)) of
     None \<Rightarrow> None | Some it \<Rightarrow> oi_signal_id it))]" and ?k = "''order:'' @ o_coid od @ '':v'' @ str_int (o_version od)"
  obtain d' where d': "enqueue ''orders'' ?k ?p w = (Inr (?k \<notin> ob_key ` set (d_outbox (db w))), w\<lparr>db := d'\<rparr>)"
    "d_orders d' = d_orders (db w) \<and> d_intents d' = d_intents (db w) \<and> d_fills d' = d_fills (db w)
      \<and> d_positions d' = d_positions (db w) \<and> (\<exists>m\<in>set (d_outbox d'). ob_key m = ?k)"
    using one [OF refl, of "''orders''" ?k ?p] by blast
  have "enqueue_order od w = (Inr (), w\<lparr>db := d'\<rparr>)"
    by (simp only: enqueue_order_def intent_signal_id_def thenE_def bindE_apply db_get_apply prod.case sum.case d'(1) ret_apply)
  then show ?thesis using d'(2) by blast
qed

lemma persist_submission_cases:
  assumes "persist_submission sv it rules w = (r, w')" "depth w = 0"
  obtains (unsent) "w' = w" "(\<exists>e. r = Inl e) \<or> (\<exists>od. r = Inr (Inl od))"
  | (recorded) od where "r = Inr (Inr od)" "persisted it od w'"
proof -
  let ?od = "(new_order sv it rules)\<lparr>o_status := SUBMITTING, o_submitted := Some (clk w)\<rparr>" and ?n = "d_next_order (db w)"
  let ?w1 = "w\<lparr>depth := 1\<rparr>"
  have p: "persist_submission sv it rules w = transaction
       (bindE (insert_intent_and_order it ?od) (\<lambda>(new, od).
          if \<not> new then bindE (get_order_by_intent (oi_id it)) (\<lambda>e. ret (Inl e))
          else bindE (save_and_enqueue od) (\<lambda>od. ret (Inr od)))) w"
    by (simp add: persist_submission_def objE_submitting)
  consider (taken) "oi_id it \<in> oi_id ` set (d_intents (db w))"
    | (clash) "oi_id it \<notin> oi_id ` set (d_intents (db w))" "order_clash ?od (db w)"
    | (new) "oi_id it \<notin> oi_id ` set (d_intents (db w))" "\<not> order_clash ?od (db w)" by blast
  then show thesis
  proof cases
    case taken
    then have "persist_submission sv it rules w = (Inr (Inl (find (\<lambda>od. o_intent od = oi_id it) (d_orders (db w)))), w)"
      using assms(2) by (simp add: p transaction_def insert_intent_result bindE_apply get_order_by_intent_def)
    then have "r = Inr (Inl (find (\<lambda>od. o_intent od = oi_id it) (d_orders (db w))))" "w' = w" using assms(1) by simp_all
    then show ?thesis by (intro unsent) blast+
  next
    case clash
    then have "persist_submission sv it rules w = (Inl (IntegrityError ''UNIQUE constraint failed: orders''), w)"
      using assms(2) by (simp add: p transaction_def insert_intent_result bindE_apply)
    then have "r = Inl (IntegrityError ''UNIQUE constraint failed: orders'')" "w' = w" using assms(1) by simp_all
    then show ?thesis by (intro unsent) blast+
  next
    case new
    let ?row = "order_row ?od ?n" and ?od1 = "?od\<lparr>o_id := ?n\<rparr>"
    let ?d1 = "with_order it ?od (db w)"
    let ?f = "\<lambda>row. if same_row ?od1 row then update_row ?od1 row else row"
    have same: "same_row ?od1 ?row" by (simp add: same_row_def order_row_def new_order_def)
    have upd: "update_row ?od1 ?row = ?od1\<lparr>o_version := 1\<rparr>" by (simp add: update_row_def order_row_def new_order_def)
    let ?d2 = "?d1\<lparr>d_orders := map ?f (d_orders ?d1)\<rparr>" and ?od2 = "?od1\<lparr>o_version := 1\<rparr>"
    have save: "save_order ?od1 (?w1\<lparr>db := ?d1\<rparr>) = (Inr ?od2, ?w1\<lparr>db := ?d2\<rparr>)"
    proof -
      have "\<not> exid_taken ?od1 (d_orders ?d1)" by (simp add: exid_taken_def new_order_def)
      moreover have "\<exists>row\<in>set (d_orders ?d1). same_row ?od1 row" using same by (simp add: with_order_def)
      ultimately show ?thesis by (simp add: save_order_def transaction_def Let_def new_order_def)
    qed
    obtain d' where d': "enqueue_order ?od2 (?w1\<lparr>db := ?d2\<rparr>) = (Inr (), ?w1\<lparr>db := d'\<rparr>)" "d_orders d' = d_orders ?d2"
      "d_intents d' = d_intents ?d2"
      "\<exists>m\<in>set (d_outbox d'). ob_key m = ''order:'' @ o_coid ?od2 @ '':v'' @ str_int (o_version ?od2)"
      using enqueue_order_result [of ?od2 "?w1\<lparr>db := ?d2\<rparr>"] by auto
    have res: "persist_submission sv it rules w = (Inr (Inr ?od2), w\<lparr>db := d'\<rparr>)"
      unfolding p using new assms(2) save d'(1)
      by (simp add: transaction_def insert_intent_result bindE_apply save_and_enqueue_def thenE_def)
    have "\<forall>x\<in>set (d_orders (db w)). o_coid x \<noteq> o_coid ?od" using new(2) unfolding order_clash_def by (metis imageI)
    then have "\<forall>x\<in>set (map ?f (d_orders (db w))). o_coid x \<noteq> o_coid ?od" by (auto simp: update_row_def)
    then have f: "find (\<lambda>r. o_coid r = o_coid ?od) (map ?f (d_orders (db w)) @ [?od2]) = Some ?od2"
      by (subst find_append_new) simp_all
    have o2: "d_orders ?d2 = map ?f (d_orders (db w)) @ [?od2]" using same upd by (simp add: with_order_def)
    have "persisted it ?od2 (w\<lparr>db := d'\<rparr>)"
      using f d' o2 assms(2) by (simp add: persisted_def with_order_def new_order_def)
    then show ?thesis using res assms(1) by (intro recorded [of ?od2]) simp_all
  qed
qed

text \<open>The executor with another way of sending orders.\<close>

definition send_with :: "'x services \<Rightarrow> (order \<Rightarrow> symbol_rules \<Rightarrow> ('x world, submit_outcome) eff) \<Rightarrow> 'x services" where
  "send_with sv s = sv\<lparr>sv_ex := (sv_ex sv)\<lparr>ex_submit := s\<rparr>\<rparr>"

lemma send_with_simps [simp]:
  "sv_cfg (send_with sv s) = sv_cfg sv" "sv_sha (send_with sv s) = sv_sha sv"
  "ex_name (sv_ex (send_with sv s)) = ex_name (sv_ex sv)" "ex_query (sv_ex (send_with sv s)) = ex_query (sv_ex sv)"
  "ex_fills (sv_ex (send_with sv s)) = ex_fills (sv_ex sv)" "ex_submit (sv_ex (send_with sv s)) = s"
  by (simp_all add: send_with_def)

lemma send_with_same:
  "persist_submission (send_with sv s) it rules = persist_submission sv it rules"
  "settle_outcome (send_with sv s) od oc = settle_outcome sv od oc"
proof -
  have n: "new_order (send_with sv s) it rules = new_order sv it rules" by (simp add: new_order_def)
  show "persist_submission (send_with sv s) it rules = persist_submission sv it rules"
    by (simp add: persist_submission_def n)
  have c: "record_conflict (send_with sv s) = record_conflict sv"
    unfolding record_conflict_def [abs_def] send_with_simps ..
  have f: "find_order (send_with sv s) = find_order sv"
    unfolding find_order_def [abs_def] send_with_simps ..
  have t: "report_transaction (send_with sv s) = report_transaction sv"
    unfolding report_transaction_def [abs_def] send_with_simps ..
  have a: "service_apply_report (send_with sv s) = service_apply_report sv"
    unfolding service_apply_report_def [abs_def] c t ..
  have i: "ingest_fill (send_with sv s) = ingest_fill sv"
    unfolding ingest_fill_def [abs_def] ingest_body_def announce_fill_def f send_with_simps ..
  have o: "ingest_order_fills (send_with sv s) = ingest_order_fills sv"
    unfolding ingest_order_fills_def [abs_def] i send_with_simps ..
  have r: "resolve_ambiguous (send_with sv s) = resolve_ambiguous sv"
    unfolding resolve_ambiguous_def [abs_def] a o send_with_simps ..
  show "settle_outcome (send_with sv s) od oc = settle_outcome sv od oc"
    unfolding settle_outcome_def a i r send_with_simps ..
qed

text \<open>
  C4: an order is recorded before the exchange can see it. The exchange is called only from
  states in which the intent and the order are committed, the order as SUBMITTING with its
  submission time and found under its client id, and its message waits in the outbox: replacing
  the exchange call by anything that agrees on those states does not change \<open>submit_intent\<close>.
\<close>

theorem sent_after_recorded:
  assumes "depth w = 0" and "\<And>od w1. persisted it od w1 \<Longrightarrow> s1 od rules w1 = s2 od rules w1"
  shows "submit_intent (send_with sv s1) it rules w = submit_intent (send_with sv s2) it rules w"
proof (cases "find (\<lambda>od. o_intent od = oi_id it) (d_orders (db w))")
  case None
  obtain r w1 where p: "persist_submission sv it rules w = (r, w1)" by fastforce
  show ?thesis
    using p assms(1)
  proof (cases rule: persist_submission_cases)
    case (recorded od)
    then show ?thesis
      using p None assms(2) [of od w1]
      by (simp add: submit_intent_def get_order_by_intent_def bindE_apply send_with_same tryE_def)
  qed (use p None in \<open>auto simp: submit_intent_def get_order_by_intent_def bindE_apply send_with_same\<close>)
qed (simp add: submit_intent_def get_order_by_intent_def)

theorem sent_after_recorded_witness:
  "let ok = (\<lambda>od rules. ret (outcome OUT_AMBIGUOUS ''timeout'' None));
       careful = (\<lambda>od rules w. if find (\<lambda>r. o_coid r = o_coid od) (d_orders (db w)) = Some od then ok od rules w
                                else raise (Other ''not recorded'') w);
       w = \<lparr>db = empty_ledger, depth = 0, clk = 0, ext = ()\<rparr>
   in submit_intent (send_with demo_services ok) demo_intent demo_rules w
      = submit_intent (send_with demo_services careful) demo_intent demo_rules w"
  unfolding Let_def by (rule sent_after_recorded) (auto simp: persisted_def)

text \<open>
  C3: at most one order per intent. Once \<open>submit_intent\<close> has run for an intent, however it ended,
  then either it sent and recorded nothing at all, or from then on, in every later state of the
  ledger and with any executor, \<open>submit_intent\<close> for that intent returns the recorded order and
  changes nothing, so that the exchange is not called again.
\<close>

theorem submit_intent_once:
  assumes "execution (sv_ex sv)" "ledger_inv (db w)" "depth w = 0" "submit_intent sv it rules w = (r, w')"
    and "advances w' w''" "oi_id it' = oi_id it"
  shows "w' = w \<or> (\<exists>od. o_intent od = oi_id it \<and> submit_intent sv' it' rules' w'' = (Inr (Some od), w''))"
proof (cases "\<exists>od \<in> set (d_orders (db w)). o_intent od = oi_id it")
  case True
  then show ?thesis
    using assms(4) by (auto simp: submit_intent_def get_order_by_intent_def find_None_iff split: option.splits)
next
  case False
  then have none: "find (\<lambda>od. o_intent od = oi_id it) (d_orders (db w)) = None" by (auto simp: find_None_iff)
  obtain p w1 where p: "persist_submission sv it rules w = (p, w1)" by fastforce
  have inv1: "ledger_inv (db w1)" using keepsD [OF safe_persist_submission p] assms(2) by (simp add: advances_def)
  show ?thesis
    using p assms(3)
  proof (cases rule: persist_submission_cases)
    case unsent
    then show ?thesis using assms(4) p none
      by (auto simp: submit_intent_def get_order_by_intent_def bindE_apply)
  next
    case (recorded od)
    have "advances w1 w'"
    proof -
      have "safe (bindE (tryE (ex_submit (sv_ex sv) od rules) (\<lambda>e. ret (outcome OUT_AMBIGUOUS (take 300 (exn_str e)) None)))
          (\<lambda>oc. thenE (settle_outcome sv od oc) (get_order (o_coid od))))"
        by (intro keeps_intros execution.submit_safe [OF assms(1)] execution.safe_settle_outcome [OF assms(1) refl])
      moreover have "bindE (tryE (ex_submit (sv_ex sv) od rules) (\<lambda>e. ret (outcome OUT_AMBIGUOUS (take 300 (exn_str e)) None)))
          (\<lambda>oc. thenE (settle_outcome sv od oc) (get_order (o_coid od))) w1 = (r, w')"
        using assms(4) p none recorded by (simp add: submit_intent_def get_order_by_intent_def bindE_apply)
      ultimately show ?thesis by (rule keepsD)
    qed
    then have "ledger_le (db w1) (db w'')"
      using assms(5) inv1 by (auto simp: advances_def intro: ledger_le_trans)
    moreover have "od \<in> set (d_orders (db w1))" "o_intent od = oi_id it"
      using recorded(2) by (auto simp: persisted_def dest: find_orderD)
    ultimately obtain od' where "od' \<in> set (d_orders (db w''))" "o_intent od' = oi_id it"
      by (auto simp: ledger_le_def order_le_def order_key_def)
    then obtain od2 where "find (\<lambda>od. o_intent od = oi_id it) (d_orders (db w'')) = Some od2"
      by (cases "find (\<lambda>od. o_intent od = oi_id it) (d_orders (db w''))") (auto simp: find_None_iff)
    then show ?thesis
      using find_SomeD [of _ "d_orders (db w'')" od2] assms(6)
      by (auto simp: submit_intent_def get_order_by_intent_def)
  qed
qed

theorem submit_intent_once_witness:
  "let w = \<lparr>db = empty_ledger, depth = 0, clk = 0, ext = ()\<rparr>; w' = snd (submit_intent demo_services demo_intent demo_rules w) in
   w' = w \<or> (\<exists>od. o_intent od = oi_id demo_intent
      \<and> submit_intent demo_services demo_intent demo_rules w' = (Inr (Some od), w'))"
  unfolding Let_def
proof (rule submit_intent_once)
  show "execution (sv_ex demo_services)" by (rule demo_execution)
  show "ledger_inv (db \<lparr>db = empty_ledger, depth = 0, clk = 0, ext = ()\<rparr>)" by (simp add: ledger_inv_empty)
  show "submit_intent demo_services demo_intent demo_rules \<lparr>db = empty_ledger, depth = 0, clk = 0, ext = ()\<rparr>
    = (fst (submit_intent demo_services demo_intent demo_rules \<lparr>db = empty_ledger, depth = 0, clk = 0, ext = ()\<rparr>),
       snd (submit_intent demo_services demo_intent demo_rules \<lparr>db = empty_ledger, depth = 0, clk = 0, ext = ()\<rparr>))"
    by simp
qed (simp_all add: adv.P_refl)

section \<open>Contradictions are raised and recorded\<close>

text \<open>The local order a report is about.\<close>

definition report_order :: "'x services \<Rightarrow> report \<Rightarrow> ledger \<Rightarrow> order option" where
  "report_order sv r d = (case find (\<lambda>od. o_coid od = r_coid r) (d_orders d) of
     Some od \<Rightarrow> Some od
   | None \<Rightarrow> if truthy (r_exid r)
       then find (\<lambda>od. o_exchange od = ex_name (sv_ex sv) \<and> o_exid od = Some (the (r_exid r))) (d_orders d) else None)"

text \<open>Calls that leave orders, fills and positions alone.\<close>

definition same_books :: "ledger \<Rightarrow> ledger \<Rightarrow> bool" where
  "same_books d d' \<longleftrightarrow> d_orders d' = d_orders d \<and> d_fills d' = d_fills d \<and> d_positions d' = d_positions d"

interpretation books: ledger_preorder same_books
  by unfold_locales (auto simp: same_books_def)

lemma enqueue_books: "keeps (\<lambda>w w'. same_books (db w) (db w')) (enqueue kind key payload)"
  by (rule keepsI) (simp add: enqueue_result same_books_def)

lemma enqueue_event_books: "keeps (\<lambda>w w'. same_books (db w) (db w')) (enqueue_event b ty m sev p k al)"
  unfolding enqueue_event_def Let_def
  by (intro books.world.keeps_bindE books.world.keeps_thenE books.world.keeps_whenE books.keeps_now enqueue_books
      books.world.keeps_ret)

lemma enqueue_has: "\<exists>m\<in>set (d_outbox (db (snd (enqueue kind key payload w)))). ob_key m = key"
  by (auto simp: enqueue_result)

lemma enqueue_keeps_keys: "ob_key ` set (d_outbox (db w)) \<subseteq> ob_key ` set (d_outbox (db (snd (enqueue kind key payload w))))"
  by (auto simp: enqueue_result)

lemma ex_image: "\<exists>m\<in>S. f m = k \<Longrightarrow> k \<in> f ` S"
  by blast

lemma enqueue_event_alert:
  assumes "truthy (Some key)"
  shows "\<exists>w'. enqueue_event b ty msg sev p (Some key) True w = (Inr (), w') \<and> depth w' = depth w
    \<and> same_books (db w) (db w') \<and> {key, ''tg:'' @ key} \<subseteq> ob_key ` set (d_outbox (db w'))"
proof -
  obtain x1 w1 where e1: "enqueue ''events'' key [(''event_type'', JStr ty), (''severity'', JStr sev), (''message'', JStr msg),
      (''payload'', JObj p), (''occurred_at'', JTime (clk w))] w = (Inr x1, w1)"
    by (cases "key \<in> ob_key ` set (d_outbox (db w))") (auto simp: enqueue_result)
  obtain x2 w2 where e2: "enqueue ''telegram'' (''tg:'' @ key)
      [(''text'', JStr (''['' @ b @ ''] '' @ sev @ '' '' @ ty @ '': '' @ msg))] w1 = (Inr x2, w2)"
    by (cases "(''tg:'' @ key) \<in> ob_key ` set (d_outbox (db w1))") (auto simp: enqueue_result)
  have ev: "enqueue_event b ty msg sev p (Some key) True w = (Inr (), w2)"
    using assms by (simp only: enqueue_event_def Let_def now_apply if_True option.sel thenE_def bindE_apply e1 e2 prod.case
        sum.case whenE_simps ret_apply)
  have depth: "depth w2 = depth w" using keepsD [OF safe_enqueue_event ev] by (simp add: advances_def)
  have books: "same_books (db w) (db w2)" using keepsD [OF enqueue_event_books ev] .
  have k1: "\<exists>m\<in>set (d_outbox (db w1)). ob_key m = key"
    using enqueue_has [of "''events''" key "[(''event_type'', JStr ty), (''severity'', JStr sev), (''message'', JStr msg),
      (''payload'', JObj p), (''occurred_at'', JTime (clk w))]" w] by (simp only: e1 snd_conv)
  have sub: "ob_key ` set (d_outbox (db w1)) \<subseteq> ob_key ` set (d_outbox (db w2))"
    using enqueue_keeps_keys [of w1 "''telegram''" "''tg:'' @ key"
        "[(''text'', JStr (''['' @ b @ ''] '' @ sev @ '' '' @ ty @ '': '' @ msg))]"] by (simp only: e2 snd_conv)
  have k2: "\<exists>m\<in>set (d_outbox (db w2)). ob_key m = ''tg:'' @ key"
    using enqueue_has [of "''telegram''" "''tg:'' @ key"
        "[(''text'', JStr (''['' @ b @ ''] '' @ sev @ '' '' @ ty @ '': '' @ msg))]" w1] by (simp only: e2 snd_conv)
  have "key \<in> ob_key ` set (d_outbox (db w2))" by (rule subsetD [OF sub ex_image [OF k1]])
  then have "{key, ''tg:'' @ key} \<subseteq> ob_key ` set (d_outbox (db w2))" using ex_image [OF k2] by (simp only: insert_subset empty_subsetI simp_thms)
  then show ?thesis using ev depth books by (intro exI [of _ w2] conjI)
qed

text \<open>
  A contradiction is never lost. When the exchange contradicts a terminal local order,
  \<open>apply_report\<close> outside of a caller's transaction raises \<open>OrderConflict\<close>, leaves every order, fill and
  position as it was, and has recorded the conflict event and its operator alert in the outbox.
\<close>

theorem conflict_recorded:
  assumes "report_order sv r (db w) = Some od" "conflicts r od" "depth w = 0"
  shows "\<exists>m w'. service_apply_report sv r source w = (Inl (OrderConflict m), w') \<and> same_books (db w) (db w')
    \<and> {''conflict:'' @ o_coid od @ '':'' @ status_value (r_status r),
       ''tg:'' @ ''conflict:'' @ o_coid od @ '':'' @ status_value (r_status r)} \<subseteq> ob_key ` set (d_outbox (db w'))"
proof -
  obtain m where a: "apply_report r (clk w) od = (Inl (IllegalTransition m), snd (report_amounts r od))"
    by (cases rule: apply_report_cases [of r od "clk w"]) (use assms(2) in auto)
  let ?od = "snd (report_amounts r od)"
  obtain c od1 where am: "report_amounts r od = (c, od1)" by (cases "report_amounts r od")
  have coid: "o_coid ?od = o_coid od" using report_amounts_eq(3) [OF am] am by simp
  have t: "report_transaction sv r w = (Inr (Some (?od, Some m)), w)"
  proof (cases "find (\<lambda>od. o_coid od = r_coid r) (d_orders (db w))")
    case None
    then have "truthy (r_exid r)" "find (\<lambda>od. o_exchange od = ex_name (sv_ex sv) \<and> o_exid od = Some (the (r_exid r)))
        (d_orders (db w)) = Some od"
      using assms(1) by (auto simp: report_order_def split: if_splits)
    then show ?thesis using None a assms(3)
      by (simp add: report_transaction_def transaction_def get_order_def get_order_by_exchange_id_def)
  next
    case (Some od')
    then have "od' = od" using assms(1) by (simp add: report_order_def)
    then show ?thesis using Some a assms(3) by (simp add: report_transaction_def transaction_def get_order_def)
  qed
  let ?key = "''conflict:'' @ o_coid od @ '':'' @ status_value (r_status r)"
  have key: "truthy (Some ?key)" by (simp add: truthy_def)
  obtain w' where w': "enqueue_event (sv_bot sv) ''ORDER_STATE_CONFLICT'' m ''CRITICAL''
            [(''client_order_id'', JStr (o_coid od)), (''source'', JStr source)] (Some ?key) True w = (Inr (), w')"
    "same_books (db w) (db w')" "{?key, ''tg:'' @ ?key} \<subseteq> ob_key ` set (d_outbox (db w'))"
    using enqueue_event_alert [OF key] by blast
  have "service_apply_report sv r source w = (Inl (OrderConflict m), w')"
    using w'(1) assms(3)
    by (simp only: service_apply_report_def bindE_apply t coid prod.case sum.case option.case thenE_def record_conflict_def
        getE_apply in_transaction_def less_irrefl if_False raise_apply)
  then show ?thesis using w'(2,3) by blast
qed

theorem conflict_recorded_witness:
  "let od = base_order\<lparr>o_status := FILLED\<rparr>; r = (demo_report CANCELED 0 0 5)\<lparr>r_coid := ''cb1-1''\<rparr>;
       w = \<lparr>db = empty_ledger\<lparr>d_orders := [od]\<rparr>, depth = 0, clk = 0, ext = ()\<rparr> in
   \<exists>m w'. service_apply_report demo_services r ''ws'' w = (Inl (OrderConflict m), w') \<and> same_books (db w) (db w')
    \<and> {''conflict:'' @ o_coid od @ '':'' @ status_value (r_status r),
       ''tg:'' @ ''conflict:'' @ o_coid od @ '':'' @ status_value (r_status r)} \<subseteq> ob_key ` set (d_outbox (db w'))"
  unfolding Let_def
  by (rule conflict_recorded) (simp_all add: report_order_def base_order_def demo_report_def conflicts_def)

section \<open>A fill moves the position exactly once\<close>

text \<open>The accounting of a fill does not depend on the id of its row.\<close>

lemma fill_id_parts:
  "note_other_fee b q (f\<lparr>f_id := i\<rparr>) = note_other_fee b q f" "received b (f\<lparr>f_id := i\<rparr>) = received b f"
  "delivered b (f\<lparr>f_id := i\<rparr>) = delivered b f" "buy_cost q (f\<lparr>f_id := i\<rparr>) = buy_cost q f"
  "sell_proceeds q (f\<lparr>f_id := i\<rparr>) = sell_proceeds q f" "f_side (f\<lparr>f_id := i\<rparr>) = f_side f"
  "f_symbol (f\<lparr>f_id := i\<rparr>) = f_symbol f" "f_time (f\<lparr>f_id := i\<rparr>) = f_time f"
  by (simp_all add: note_other_fee_def [abs_def] received_def delivered_def buy_cost_def sell_proceeds_def fee_in_def
      fill_gross_def cong: if_cong option.case_cong)

lemma fill_id_irrelevant [simp]:
  "apply_fill_to_position (f\<lparr>f_id := i\<rparr>) = apply_fill_to_position f"
proof -
  have "apply_buy b q (f\<lparr>f_id := i\<rparr>) = apply_buy b q f" for b q unfolding apply_buy_def [abs_def] fill_id_parts ..
  moreover have e: "sell_exceeds b (f\<lparr>f_id := i\<rparr>) = sell_exceeds b f" for b
    unfolding sell_exceeds_def [abs_def] fill_id_parts ..
  moreover have r: "sell_realized b q (f\<lparr>f_id := i\<rparr>) = sell_realized b q f" for b q
    unfolding sell_realized_def [abs_def] fill_id_parts e ..
  moreover have "apply_sell b q (f\<lparr>f_id := i\<rparr>) = apply_sell b q f" for b q
    unfolding apply_sell_def [abs_def] fill_id_parts r ..
  ultimately show ?thesis unfolding apply_fill_to_position_def [abs_def] fill_id_parts by presburger
qed

lemma apply_fill_owner:
  assumes "apply_fill_to_position f p = (r, p')"
  shows "p_bot p' = p_bot p" "p_symbol p' = p_symbol p"
  using assms by (auto simp: apply_fill_to_position_def Let_def note_other_fee_def apply_buy_def apply_sell_def
      split: sum.splits prod.splits if_splits option.splits)

lemma position_of_owner: "p_bot (position_of b s d) = b" "p_symbol (position_of b s d) = s"
  by (auto simp: position_of_def new_position_def split: option.splits dest: find_SomeD)

lemma position_of_upsert:
  "position_of b s (d\<lparr>d_positions := upsert position_key p (d_positions d)\<rparr>)
     = (if p_bot p = b \<and> p_symbol p = s then p else position_of b s d)"
  using find_upsert [of position_key "(b, s)" p "d_positions d"]
  by (simp add: position_of_def position_key_def cong: if_cong)

text \<open>Every order of the ledger belongs to the bot of this process.\<close>

definition own_orders :: "string \<Rightarrow> ledger \<Rightarrow> bool" where
  "own_orders b d \<longleftrightarrow> (\<forall>od\<in>set (d_orders d). o_bot od = b)"

lemma synced_add:
  assumes "synced b s d" "od \<in> set (d_orders d)" "o_bot od = b" "f_order_id f = o_id od"
    and "apply_fill_to_position f (position_of b (f_symbol f) d) = (Inr x, p')"
    and d': "d_orders d' = d_orders d" "d_fills d' = d_fills d @ [f\<lparr>f_id := i\<rparr>]"
      "d_positions d' = upsert position_key (p'\<lparr>p_updated := t\<rparr>) (d_positions d)"
  shows "synced b s d'"
proof -
  have owner: "p_bot p' = b" "p_symbol p' = f_symbol f"
    using apply_fill_owner [OF assms(5)] position_of_owner by simp_all
  have pos: "position_of b s d' = (if f_symbol f = s then p'\<lparr>p_updated := t\<rparr> else position_of b s d)"
    using position_of_upsert [of b s "p'\<lparr>p_updated := t\<rparr>" d] owner d'(3) by (simp add: position_of_def)
  have arr: "arrived b s d' = arrived b s d @ (if f_symbol f = s then [f\<lparr>f_id := i\<rparr>] else [])"
    using d' assms(2-4) by (auto simp: arrived_def)
  obtain a p where run: "apply_fills (arrived b s d) (new_position b s) = (Inr a, p)" "book (position_of b s d) = book p"
    using assms(1) by (auto simp: synced_def split: prod.splits sum.splits)
  show ?thesis
  proof (cases "f_symbol f = s")
    case True
    have "fst (apply_fill_to_position f p) = Inr x \<and> book (snd (apply_fill_to_position f p)) = book p'"
      using apply_fill_book [OF run(2), of f] assms(5) True by simp
    then obtain p2 where p2: "apply_fill_to_position f p = (Inr x, p2)" "book p2 = book p'" by (metis prod.collapse)
    obtain dl an where x: "x = (dl, an)" by (cases x)
    have "apply_fills (arrived b s d @ [f\<lparr>f_id := i\<rparr>]) (new_position b s) = (Inr (a @ an), p2)"
      by (rule apply_fills_append [OF run(1)]) (simp add: p2(1) x)
    then show ?thesis using True arr pos p2(2) by (simp add: synced_def)
  next
    case False
    then show ?thesis using arr pos run by (simp add: synced_def)
  qed
qed

lemma synced_books: "same_books d d' \<Longrightarrow> synced b s d' = synced b s d"
proof -
  assume "same_books d d'"
  then have "arrived b s d' = arrived b s d" "position_of b s d' = position_of b s d"
    by (simp_all add: same_books_def arrived_def position_of_def)
  then show "synced b s d' = synced b s d" unfolding synced_def by presburger
qed

lemma insert_fill_result:
  "insert_fill f w = (if fill_taken f (db w) then (Inr False, w)
     else (Inr True, w\<lparr>db := (db w)\<lparr>d_fills := d_fills (db w) @ [f\<lparr>f_id := d_next_fill (db w)\<rparr>],
       d_next_fill := d_next_fill (db w) + 1\<rparr>\<rparr>))"
  by (simp add: insert_fill_def transaction_def Let_def)

lemma pos_apply_fill_result:
  "pos_apply_fill cfg f w = (case apply_fill_to_position f (position_of (BOT_INSTANCE_ID cfg) (f_symbol f) (db w)) of
     (Inl e, _) \<Rightarrow> (Inl e, w)
   | (Inr (dl, an), p) \<Rightarrow> (Inr \<lparr>ar_position = p\<lparr>p_updated := Some (clk w)\<rparr>, ar_realized_delta = dl, ar_anomalies = an\<rparr>,
       w\<lparr>db := (db w)\<lparr>d_positions := upsert position_key (p\<lparr>p_updated := Some (clk w)\<rparr>) (d_positions (db w))\<rparr>\<rparr>))"
  by (simp add: pos_apply_fill_def get_position_def objE_def bindE_apply save_position_result split: prod.split sum.split)

lemma find_order_result:
  "\<exists>found. find_order sv c x w = (Inr found, w) \<and> (\<forall>od. found = Some od \<longrightarrow> od \<in> set (d_orders (db w)))"
  by (auto simp: find_order_def get_order_def get_order_by_exchange_id_def dest: find_orderD)

lemma announce_fill_cases:
  assumes "announce_fill sv od f res w = (r, w')"
  shows "same_books (db w) (db w')" "r = Inr b \<Longrightarrow> b"
proof -
  have "keeps (\<lambda>w w'. same_books (db w) (db w')) (announce_fill sv od f res)"
    unfolding announce_fill_def
    by (intro books.world.keeps_thenE books.world.keeps_whenE books.world.keeps_ret enqueue_books enqueue_event_books)
  then show "same_books (db w) (db w')" using assms by (rule keepsD)
  show "r = Inr b \<Longrightarrow> b" using assms
    by (auto simp: announce_fill_def thenE_def elim!: bindE_cases)
qed

text \<open>How the block of \<open>ingest_fill\<close> ends.\<close>

lemma ingest_body_cases:
  assumes "ingest_body sv xf w = (r, w')"
  obtains (nothing) "r = Inr False" "w' = w"
  | (raises) e where "r = Inl e"
  | (recorded) f od x p' where "r = Inr True" "od \<in> set (d_orders (db w))" "f_order_id f = o_id od" "f_key f = xf_key xf"
      "\<not> fill_taken f (db w)" "apply_fill_to_position f (position_of (sv_bot sv) (f_symbol f) (db w)) = (Inr x, p')"
      "d_orders (db w') = d_orders (db w)" "d_fills (db w') = d_fills (db w) @ [f\<lparr>f_id := d_next_fill (db w)\<rparr>]"
      "d_positions (db w') = upsert position_key (p'\<lparr>p_updated := Some (clk w)\<rparr>) (d_positions (db w))"
proof -
  obtain found where fo: "find_order sv (xf_coid xf) (xf_exid xf) w = (Inr found, w)"
    and mem: "\<forall>od. found = Some od \<longrightarrow> od \<in> set (d_orders (db w))" using find_order_result by blast
  show thesis
  proof (cases found)
    case None
    then have "r = Inr False" "w' = w" using assms fo by (simp_all add: ingest_body_def bindE_apply)
    then show ?thesis by (rule nothing)
  next
    case (Some od)
    let ?f = "make_fill od xf (clk w)"
    have f: "f_order_id ?f = o_id od" "f_key ?f = xf_key xf" by (simp_all add: make_fill_def)
    show ?thesis
    proof (cases "fill_taken ?f (db w)")
      case True
      then have "r = Inr False" "w' = w"
        using assms fo Some by (simp_all add: ingest_body_def bindE_apply Let_def insert_fill_result)
      then show ?thesis by (rule nothing)
    next
      case False
      let ?w1 = "w\<lparr>db := (db w)\<lparr>d_fills := d_fills (db w) @ [?f\<lparr>f_id := d_next_fill (db w)\<rparr>],
        d_next_fill := d_next_fill (db w) + 1\<rparr>\<rparr>"
      have rest: "bindE (pos_apply_fill (sv_cfg sv) ?f) (announce_fill sv od ?f) ?w1 = (r, w')"
        using assms fo Some False by (simp add: ingest_body_def bindE_apply Let_def insert_fill_result)
      have pos: "position_of (sv_bot sv) (f_symbol ?f) (db ?w1) = position_of (sv_bot sv) (f_symbol ?f) (db w)"
        by (simp add: position_of_def)
      obtain x p' where a: "apply_fill_to_position ?f (position_of (sv_bot sv) (f_symbol ?f) (db w)) = (x, p')" by fastforce
      show ?thesis
      proof (cases x)
        case (Inl e)
        then have "r = Inl e" using rest a pos by (simp add: bindE_apply pos_apply_fill_result)
        then show ?thesis by (rule raises)
      next
        case (Inr da)
        obtain dl an where da: "da = (dl, an)" by (cases da)
        let ?w2 = "?w1\<lparr>db := (db ?w1)\<lparr>d_positions := upsert position_key (p'\<lparr>p_updated := Some (clk w)\<rparr>) (d_positions (db w))\<rparr>\<rparr>"
        let ?res = "\<lparr>ar_position = p'\<lparr>p_updated := Some (clk w)\<rparr>, ar_realized_delta = dl, ar_anomalies = an\<rparr>"
        have ann: "announce_fill sv od ?f ?res ?w2 = (r, w')"
          using rest a pos Inr da by (simp add: bindE_apply pos_apply_fill_result)
        show ?thesis
        proof (cases r)
          case (Inr b)
          then have "r = Inr True" using announce_fill_cases(2) [OF ann] by simp
          then show ?thesis
            by (rule recorded [OF _ mem [rule_format, OF Some] f False])
              (use a \<open>x = Inr da\<close> announce_fill_cases(1) [OF ann] in \<open>simp_all add: same_books_def\<close>)
        qed (rule raises)
      qed
    qed
  qed
qed

text \<open>
  C5: an execution moves the position exactly once, and the position stays the accounting of the
  recorded fills. \<open>ingest_fill\<close>, run outside of a caller's transaction, either records the execution,
  which was not recorded before, together with its effect on the position; or changes nothing (an
  unknown order, an execution seen before, or an exception, which rolls everything back). In all
  cases every position that was the accounting of its fills in their order of arrival still is.
\<close>

theorem ingest_fill_synced:
  assumes "own_orders (sv_bot sv) (db w)" "depth w = 0" "ingest_fill sv xf source w = (r, w')"
  shows "(r = Inr True \<and> (\<exists>f. f_key f = xf_key xf \<and> \<not> fill_taken f (db w) \<and> d_fills (db w') = d_fills (db w) @ [f])
      \<or> r \<noteq> Inr True \<and> db w' = db w)
    \<and> (\<forall>symbol. synced (sv_bot sv) symbol (db w) \<longrightarrow> synced (sv_bot sv) symbol (db w'))"
proof -
  obtain w1 where m: "ingest_body sv xf (w\<lparr>depth := 1\<rparr>) = (r, w1)" and w': "db w' = (if \<exists>e. r = Inl e then db w else db w1)"
    using assms(2,3) by (auto simp: ingest_fill_def transaction_def Let_def split: prod.splits sum.splits)
  show ?thesis
    using m
  proof (cases rule: ingest_body_cases)
    case (recorded f od x p')
    have "synced (sv_bot sv) s (db w1)" if "synced (sv_bot sv) s (db w)" for s
      using synced_add [OF that _ _ recorded(3)] recorded assms(1) by (simp add: own_orders_def)
    moreover have "\<not> fill_taken (f\<lparr>f_id := i\<rparr>) (db w)" for i using recorded(5) by (auto simp: fill_taken_def)
    moreover have "f_key (f\<lparr>f_id := i\<rparr>) = xf_key xf" for i using recorded(4) by simp
    ultimately show ?thesis using w' recorded(1,8) by auto
  qed (use w' in auto)
qed

theorem ingest_fill_synced_witness:
  "let w = traded [demo_trade BUY 1 100 1 ''a''] 1 0;
       xf = \<lparr>xf_trade_id = ''t2'', xf_exid = None, xf_coid = Some ''cb1-1'', xf_symbol = ''BTC/USDT'', xf_side = BUY, xf_qty = 1,
         xf_price = 100, xf_quote = 100, xf_commission = 0, xf_commission_asset = None, xf_time_ms = 5, xf_key = ''b'',
         xf_is_maker = None\<rparr>;
       r = fst (ingest_fill demo_services xf ''ws'' w); w' = snd (ingest_fill demo_services xf ''ws'' w) in
   (r = Inr True \<and> (\<exists>f. f_key f = ''b'' \<and> \<not> fill_taken f (db w) \<and> d_fills (db w') = d_fills (db w) @ [f])
      \<or> r \<noteq> Inr True \<and> db w' = db w)
    \<and> (\<forall>symbol. synced ''bot'' symbol (db w) \<longrightarrow> synced ''bot'' symbol (db w'))"
proof -
  let ?xf = "\<lparr>xf_trade_id = ''t2'', xf_exid = None, xf_coid = Some ''cb1-1'', xf_symbol = ''BTC/USDT'', xf_side = BUY, xf_qty = 1,
         xf_price = 100, xf_quote = 100, xf_commission = 0, xf_commission_asset = None, xf_time_ms = 5, xf_key = ''b'',
         xf_is_maker = None\<rparr>" and ?w = "traded [demo_trade BUY 1 100 1 ''a''] 1 0"
  have b: "sv_bot demo_services = ''bot''" by (simp add: demo_services_def demo_config_def)
  show ?thesis
    using ingest_fill_synced [of demo_services ?w ?xf "''ws''" "fst (ingest_fill demo_services ?xf ''ws'' ?w)"
        "snd (ingest_fill demo_services ?xf ''ws'' ?w)"]
    by (simp add: b Let_def own_orders_def traded_def base_order_def)
qed

end
