(* ===== verification/Ingestion.thy ===== *)
theory Ingestion
  imports Orders
begin

text \<open>
  Applying normalised user-stream events: \<^verbatim>\<open>engine/application/stream_ingestion.py\<close>, with the event
  type of \<^verbatim>\<open>engine/exchanges/binance/normalizer.py\<close>. The processed-event row, the order update and
  the fill with its position update are one transaction. The lemmas show that handling an event
  only advances the ledger, that an event that was recorded as processed is never applied again,
  and that a contradiction rolls the whole event back and leaves only its alert.
\<close>

section \<open>Events and results\<close>

record stream_event =
  se_kind :: string
  se_key :: string
  se_type :: string
  se_report :: "report option"
  se_fill :: "xfill option"
  se_balances :: "balance_snapshot option"

datatype ingest_outcome = Applied | Duplicate | Foreign | Unknown_bot_order | Conflict | Balance | Terminated | Ignored

fun needs_reconciliation :: "ingest_outcome \<Rightarrow> bool" where
  "needs_reconciliation Terminated = True"
| "needs_reconciliation Unknown_bot_order = True"
| "needs_reconciliation Conflict = True"
| "needs_reconciliation _ = False"

section \<open>The handler\<close>

text \<open>The prefix by which the service recognises its own client order ids.\<close>

definition own_prefix :: "config \<Rightarrow> string" where
  "own_prefix cfg = safe_prefix (CLIENT_ORDER_ID_PREFIX cfg) @ ''-''"

definition balances_key :: "config \<Rightarrow> string" where
  "balances_key cfg = ''balances:'' @ BOT_INSTANCE_ID cfg"

definition balance_entry :: "rat \<times> rat \<Rightarrow> jval" where
  "balance_entry b = JObj [(''free'', JDec (fst b)), (''locked'', JDec (snd b))]"

definition handle_balance :: "'x services \<Rightarrow> balance_snapshot \<Rightarrow> ('x world, ingest_outcome) eff" where
  "handle_balance sv b = bindE (kv_get (balances_key (sv_cfg sv))) (\<lambda>stored.
     bindE (case stored of None \<Rightarrow> ret [] | Some j \<Rightarrow> if jtrue j then liftE (as_obj j) else ret []) (\<lambda>current.
       thenE (kv_set (balances_key (sv_cfg sv))
                (JObj (foldl (\<lambda>d (asset, amounts). AList.update asset (balance_entry amounts) d) current (bs_balances b))))
         (ret Balance)))"

definition apply_event :: "'x services \<Rightarrow> stream_event \<Rightarrow> report \<Rightarrow> string \<Rightarrow> ('x world, ingest_outcome) eff" where
  "apply_event sv ev r source = transaction
     (bindE (mark_event_processed (se_key ev) source (Some (se_type ev))) (\<lambda>new.
        if \<not> new then ret Duplicate
        else thenE (service_apply_report sv r source)
               (case se_fill ev of None \<Rightarrow> ret Applied
                | Some xf \<Rightarrow> thenE (ingest_fill sv xf source) (ret Applied))))"

definition handle_order_event :: "'x services \<Rightarrow> stream_event \<Rightarrow> report \<Rightarrow> string \<Rightarrow> ('x world, ingest_outcome) eff" where
  "handle_order_event sv ev r source = bindE (get_order (r_coid r)) (\<lambda>o1.
     bindE (if o1 = None \<and> truthy (r_exid r) then get_order_by_exchange_id (ex_name (sv_ex sv)) (the (r_exid r))
            else ret o1) (\<lambda>local.
       if local = None then ret (if startswith (r_coid r) (own_prefix (sv_cfg sv)) then Unknown_bot_order else Foreign)
       else tryE (apply_event sv ev r source) (\<lambda>e. case e of
              OrderConflict m \<Rightarrow> thenE (record_conflict sv (r_coid r) (status_value (r_status r)) m source) (ret Conflict)
            | _ \<Rightarrow> raise e)))"

definition handle_event :: "'x services \<Rightarrow> stream_event \<Rightarrow> string \<Rightarrow> ('x world, ingest_outcome) eff" where
  "handle_event sv ev source =
     (if se_kind ev = ''TERMINATED'' then ret Terminated
      else if se_kind ev = ''BALANCE'' then
        (case se_balances ev of None \<Rightarrow> raise none_error | Some b \<Rightarrow> handle_balance sv b)
      else if se_kind ev \<noteq> ''ORDER'' then ret Ignored
      else case se_report ev of None \<Rightarrow> raise none_error | Some r \<Rightarrow> handle_order_event sv ev r source)"

section \<open>Handling only advances the ledger\<close>

lemma safe_apply_event [keeps_intros]: "safe (apply_event sv ev r source)"
  unfolding apply_event_def by (intro keeps_intros)

lemma safe_handle_balance [keeps_intros]: "safe (handle_balance sv b)"
  unfolding handle_balance_def by (intro keeps_intros)

lemma safe_handle_order_event [keeps_intros]: "safe (handle_order_event sv ev r source)"
  unfolding handle_order_event_def by (auto intro!: keeps_intros split: exn.split)

lemma safe_handle_event [keeps_intros]: "safe (handle_event sv ev source)"
  unfolding handle_event_def by (intro keeps_intros)

section \<open>Recognising the bot's own orders\<close>

text \<open>
  The bot recognises its own client order ids by \<open>own_prefix\<close> exactly when the configured prefix
  has a letter or digit. Without one, \<open>make_client_order_id\<close> falls back to the prefix \<open>cb\<close> and the
  handler to the bare dash, so that an event of an unrecorded order of the bot is taken for foreign.
\<close>

theorem recognises_own_orders:
  "startswith (make_client_order_id sha (CLIENT_ORDER_ID_PREFIX cfg) iid) (own_prefix cfg)
   \<longleftrightarrow> filter isalnum (CLIENT_ORDER_ID_PREFIX cfg) \<noteq> []"
proof (cases "filter isalnum (CLIENT_ORDER_ID_PREFIX cfg) = []")
  case True
  then show ?thesis by (simp add: make_client_order_id_def own_prefix_def safe_prefix_def startswith_def Let_def)
next
  case False
  then have "safe_prefix (CLIENT_ORDER_ID_PREFIX cfg) \<noteq> []" by (simp add: safe_prefix_def)
  then have "make_client_order_id sha (CLIENT_ORDER_ID_PREFIX cfg) iid
      = own_prefix cfg @ take (35 - length (safe_prefix (CLIENT_ORDER_ID_PREFIX cfg))) (sha iid)"
    by (simp add: make_client_order_id_def own_prefix_def Let_def)
  then show ?thesis using False by (metis startswith_append)
qed

section \<open>An order event is applied once, or leaves no trace\<close>

definition same_record :: "ledger \<Rightarrow> ledger \<Rightarrow> bool" where
  "same_record d d' \<longleftrightarrow> same_books d d' \<and> d_processed d' = d_processed d"

interpretation recorded: ledger_preorder same_record
  by unfold_locales (auto simp: same_record_def same_books_def)

lemma record_conflict_record: "keeps (\<lambda>w w'. same_record (db w) (db w')) (record_conflict sv c st m src)"
proof -
  have q: "keeps (\<lambda>w w'. same_record (db w) (db w')) (enqueue kind key payload)" for kind key payload
    by (rule keepsI) (simp add: enqueue_result same_record_def same_books_def)
  show ?thesis
    unfolding record_conflict_def enqueue_event_def Let_def
    by (intro recorded.world.keeps_bindE recorded.world.keeps_thenE recorded.world.keeps_whenE recorded.world.keeps_if
        recorded.world.keeps_getE recorded.keeps_now recorded.world.keeps_ret q)
qed

text \<open>The local order of an event, and the event handler as a case distinction on the transaction's end.\<close>

lemma mark_event_result:
  "mark_event_processed key source ty w = (if key \<in> fst ` set (d_processed (db w)) then (Inr False, w)
     else (Inr True, w\<lparr>db := (db w)\<lparr>d_processed := d_processed (db w) @ [(key, source, ty, clk w)]\<rparr>\<rparr>))"
  by (simp add: mark_event_processed_def transaction_def Let_def)

lemma apply_event_cases:
  obtains (duplicate) "se_key ev \<in> fst ` set (d_processed (db w))" "apply_event sv ev r source w = (Inr Duplicate, w)"
  | (applied) w' where "se_key ev \<notin> fst ` set (d_processed (db w))" "apply_event sv ev r source w = (Inr Applied, w')"
      "ledger_inv (db w) \<longrightarrow> (\<exists>x. prefix (d_processed (db w) @ [(se_key ev, source, Some (se_type ev), x)]) (d_processed (db w')))"
  | (raised) e w' where "se_key ev \<notin> fst ` set (d_processed (db w))" "apply_event sv ev r source w = (Inl e, w')"
proof (cases "se_key ev \<in> fst ` set (d_processed (db w))")
  case True
  then show ?thesis
    by (intro duplicate) (simp_all add: apply_event_def transaction_def bindE_apply mark_event_result)
next
  case False
  let ?w0 = "w\<lparr>depth := depth w + 1\<rparr>"
  let ?w1 = "?w0\<lparr>db := (db w)\<lparr>d_processed := d_processed (db w) @ [(se_key ev, source, Some (se_type ev), clk w)]\<rparr>\<rparr>"
  let ?rest = "thenE (service_apply_report sv r source) (case se_fill ev of None \<Rightarrow> ret Applied
                | Some xf \<Rightarrow> thenE (ingest_fill sv xf source) (ret Applied))"
  have m: "mark_event_processed (se_key ev) source (Some (se_type ev)) ?w0 = (Inr True, ?w1)"
    using False by (simp add: mark_event_result)
  obtain x w2 where x: "?rest ?w1 = (x, w2)" by (cases "?rest ?w1")
  have "safe ?rest" by (intro keeps_intros)
  then have adv: "advances ?w1 w2" using x by (rule keepsD)
  have ok: "x = Inr Applied" if "x = Inr b" for b
    using x that by (auto simp: thenE_def bindE_apply split: option.splits prod.splits sum.splits)
  have "bindE (mark_event_processed (se_key ev) source (Some (se_type ev))) (\<lambda>new. if \<not> new then ret Duplicate else ?rest) ?w0
      = (x, w2)"
    by (simp only: bindE_apply m prod.case sum.case not_True_eq_False if_False x)
  then have body: "apply_event sv ev r source w = transaction (\<lambda>v. (x, w2)) w"
    unfolding apply_event_def transaction_def Let_def by (simp only: prod.case)
  show ?thesis
  proof (cases x)
    case (Inl e)
    then show ?thesis by (intro raised [OF False]) (simp add: body transaction_def Let_def)
  next
    case (Inr b)
    have "ledger_inv (db w) \<longrightarrow> ledger_inv (db ?w1)"
      using keepsS [OF keeps_inv_mark_event, of ?w0 "se_key ev" source "Some (se_type ev)"] m by simp
    then have "ledger_inv (db w) \<longrightarrow> prefix (d_processed (db w) @ [(se_key ev, source, Some (se_type ev), clk w)]) (d_processed (db w2))"
      using adv by (simp add: advances_def ledger_le_def)
    then show ?thesis using ok [OF Inr] by (intro applied [OF False]) (auto simp: body transaction_def Let_def)
  qed
qed

lemma handle_order_event_eq:
  "handle_order_event sv ev r source w =
     (if report_order sv r (db w) = None
      then (Inr (if startswith (r_coid r) (own_prefix (sv_cfg sv)) then Unknown_bot_order else Foreign), w)
      else tryE (apply_event sv ev r source) (\<lambda>e. case e of
              OrderConflict m \<Rightarrow> thenE (record_conflict sv (r_coid r) (status_value (r_status r)) m source) (ret Conflict)
            | _ \<Rightarrow> raise e) w)"
  by (cases "find (\<lambda>od. o_coid od = r_coid r) (d_orders (db w))")
    (simp_all add: handle_order_event_def report_order_def get_order_def get_order_by_exchange_id_def)

text \<open>
  An order event is applied as a whole or not at all. Handled outside of a caller's transaction, an
  order event that does not end as applied (a duplicate, a foreign or unknown order, a
  contradiction, or any exception half way) leaves orders, fills, positions and the list of
  processed events exactly as they were.
\<close>

theorem ingest_atomic:
  assumes "se_kind ev = ''ORDER''" "depth w = 0" "handle_event sv ev source w = (x, w')" "x \<noteq> Inr Applied"
  shows "same_record (db w) (db w')"
proof (cases "se_report ev")
  case None
  then show ?thesis using assms by (auto simp: handle_event_def recorded.Q_refl)
next
  case (Some r)
  have h: "handle_order_event sv ev r source w = (x, w')" using assms(1,3) Some by (simp add: handle_event_def)
  show ?thesis
  proof (cases "report_order sv r (db w) = None")
    case True
    then show ?thesis using h by (auto simp: handle_order_event_eq recorded.Q_refl)
  next
    case False
    show ?thesis
    proof (cases rule: apply_event_cases [of ev w sv r source])
      case duplicate
      then show ?thesis using h False by (auto simp: handle_order_event_eq tryE_def recorded.Q_refl)
    next
      case (applied w1)
      then show ?thesis using h False assms(4) by (auto simp: handle_order_event_eq tryE_def)
    next
      case (raised e w1)
      have undone: "db w1 = db w" using assms(2) raised(2) unfolding apply_event_def by (rule transaction_rollback)
      have "same_record (db w1) (db (snd (thenE (record_conflict sv (r_coid r) (status_value (r_status r)) m source) (ret Conflict) w1)))" for m
        by (rule keepsS, intro recorded.world.keeps_thenE record_conflict_record recorded.world.keeps_ret)
      then show ?thesis using h False raised(2) undone
        by (auto simp: handle_order_event_eq tryE_def recorded.Q_refl split: exn.splits dest!: arg_cong [of _ _ snd])
    qed
  qed
qed

definition demo_event :: "report \<Rightarrow> stream_event" where
  "demo_event r = \<lparr>se_kind = ''ORDER'', se_key = ''binance:main:BTCUSDT:7:1:TRADE'', se_type = ''executionReport'',
     se_report = Some r, se_fill = None, se_balances = None\<rparr>"

theorem ingest_atomic_witness:
  "let ev = demo_event ((demo_report NEW 0 0 5)\<lparr>r_coid := ''cb1-unknown''\<rparr>);
       w = \<lparr>db = empty_ledger\<lparr>d_orders := [base_order]\<rparr>, depth = 0, clk = 0, ext = ()\<rparr> in
   same_record (db w) (db (snd (handle_event demo_services ev ''ws'' w)))"
  unfolding Let_def
  by (rule ingest_atomic [OF _ _ surjective_pairing])
    (simp_all add: demo_event_def handle_event_def handle_order_event_eq report_order_def base_order_def demo_report_def)

text \<open>
  C6: an event is applied at most once. After an order event was applied, whatever else the engine
  does meanwhile, delivering the same event again (by the stream or any other source) changes nothing.
\<close>

theorem ingest_at_most_once:
  assumes "ledger_inv (db w)" "se_kind ev = ''ORDER''" "handle_event sv ev source w = (Inr Applied, w1)"
    and "advances w1 w2" "se_key ev' = se_key ev" "se_kind ev' = ''ORDER''"
  shows "snd (handle_event sv ev' source' w2) = w2 \<and> fst (handle_event sv ev' source' w2) \<noteq> Inr Applied"
proof -
  obtain r where r: "se_report ev = Some r" "handle_order_event sv ev r source w = (Inr Applied, w1)"
    using assms(2,3) by (cases "se_report ev") (auto simp: handle_event_def)
  then have "report_order sv r (db w) \<noteq> None" by (simp add: handle_order_event_eq split: if_splits)
  then have "\<exists>x. prefix (d_processed (db w) @ [(se_key ev, source, Some (se_type ev), x)]) (d_processed (db w1))"
    using r(2) assms(1)
    by (cases rule: apply_event_cases [of ev w sv r source])
      (auto simp: handle_order_event_eq tryE_def thenE_def bindE_apply split: exn.splits prod.splits sum.splits)
  moreover have "ledger_inv (db w1)"
    using keepsD [OF safe_handle_event assms(3)] assms(1) by (simp add: advances_def)
  then have "prefix (d_processed (db w1)) (d_processed (db w2))"
    using assms(4) by (simp add: advances_def ledger_le_def)
  ultimately have seen: "se_key ev' \<in> fst ` set (d_processed (db w2))"
    unfolding assms(5) by (force simp: prefix_def)
  have "snd (handle_order_event sv ev' r' source' w2) = w2 \<and> fst (handle_order_event sv ev' r' source' w2) \<noteq> Inr Applied" for r'
    by (cases rule: apply_event_cases [of ev' w2 sv r' source'])
      (use seen in \<open>auto simp: handle_order_event_eq tryE_def\<close>)
  then show ?thesis
    using assms(6) by (auto simp: handle_event_def split: option.split)
qed

definition filled_order :: order where
  "filled_order = base_order\<lparr>o_status := FILLED, o_executed := 1, o_cumquote := 100, o_avg := Some 100, o_exid := Some ''42'', o_acked := Some 0,
     o_last_update_ms := Some 5\<rparr>"

definition filled_world :: "unit world" where
  "filled_world = \<lparr>db = empty_ledger\<lparr>d_intents := [demo_intent\<lparr>oi_id := ''i1''\<rparr>], d_orders := [filled_order], d_next_order := 2\<rparr>,
     depth = 0, clk = 0, ext = ()\<rparr>"

theorem ingest_at_most_once_witness:
  "let ev = demo_event ((demo_report FILLED 1 100 5)\<lparr>r_coid := ''cb1-1''\<rparr>);
       w1 = snd (handle_event demo_services ev ''ws'' filled_world) in
   handle_event demo_services ev ''ws'' filled_world = (Inr Applied, w1)
   \<and> snd (handle_event demo_services ev ''ws_replay'' w1) = w1"
proof -
  let ?r = "(demo_report FILLED 1 100 5)\<lparr>r_coid := ''cb1-1''\<rparr>"
  let ?ev = "demo_event ?r"
  have "fst (apply_report ?r 0 filled_order) = Inr False" by code_simp
  then obtain od where a: "apply_report ?r 0 filled_order = (Inr False, od)" by (metis prod.collapse)
  have c: "o_coid filled_order = ''cb1-1''" by (simp add: filled_order_def base_order_def)
  have inv: "ledger_inv (db filled_world)"
    by (simp add: filled_world_def filled_order_def base_order_def demo_intent_def ledger_inv_def orders_inv_def fills_inv_def tables_inv_def
        fresh_ids_def exids_unique_def trades_unique_def empty_ledger_def)
  have "fst (handle_event demo_services ?ev ''ws'' filled_world) = Inr Applied"
    using a c
    by (simp add: demo_event_def handle_event_def handle_order_event_eq report_order_def filled_world_def tryE_def apply_event_def
        transaction_def bindE_apply mark_event_result thenE_def service_apply_report_def report_transaction_def get_order_def
        empty_ledger_def Let_def)
  then have h: "handle_event demo_services ?ev ''ws'' filled_world
      = (Inr Applied, snd (handle_event demo_services ?ev ''ws'' filled_world))" by (metis prod.collapse)
  have "se_kind ?ev = ''ORDER''" by (simp add: demo_event_def)
  from h ingest_at_most_once [OF inv this h adv.P_refl refl this, of "''ws_replay''"] show ?thesis
    unfolding Let_def by blast
qed

end
