(* ===== verification/Normalizer.thy ===== *)
theory Normalizer
  imports Texts Ingestion
begin

text \<open>
  Raw Binance payloads, REST and user data stream, to the engine's types:
  \<^verbatim>\<open>engine/exchanges/binance/normalizer.py\<close>. A payload is a JSON object in insertion order. The lemmas show that a
  status that is only pending is never taken for a final one, that one execution has one
  event key whichever of the three ways it arrives, and that different executions have different keys.
\<close>

section \<open>Payload fields\<close>

type_synonym payload = "(string \<times> jval) list"

text \<open>\<^verbatim>\<open>str(v)\<close> of the scalars of a payload; an object or a list is never formatted by this code and raises here.\<close>

fun str_of :: "jval \<Rightarrow> exn + string" where
  "str_of (JStr s) = Inr s"
| "str_of (JInt n) = Inr (str_int n)"
| "str_of (JBool b) = Inr (if b then ''True'' else ''False'')"
| "str_of JNull = Inr ''None''"
| "str_of (JDec x) = Inr (dec_text x)"
| "str_of (JTime t) = Inr (iso t)"
| "str_of _ = Inl type_error"

text \<open>\<^verbatim>\<open>raw.get(k)\<close> and \<^verbatim>\<open>raw.get(k, default)\<close>.\<close>

definition got :: "string \<Rightarrow> payload \<Rightarrow> jval" where
  "got k d = dict_get d k JNull"

definition text_or_empty :: "string \<Rightarrow> payload \<Rightarrow> exn + string" where
  "text_or_empty k d = as_str (dict_get d k (JStr []))"

text \<open>\<^verbatim>\<open>a or b\<close>, and a field that is a text or absent.\<close>

definition or_else :: "jval \<Rightarrow> jval \<Rightarrow> jval" where
  "or_else a b = (if jtrue a then a else b)"

fun text_option :: "jval \<Rightarrow> exn + string option" where
  "text_option JNull = Inr None"
| "text_option (JStr s) = Inr (Some s)"
| "text_option _ = Inl type_error"

fun int_option :: "jval \<Rightarrow> exn + int option" where
  "int_option JNull = Inr None"
| "int_option (JInt n) = Inr (Some n)"
| "int_option _ = Inl type_error"

fun bool_option :: "jval \<Rightarrow> exn + bool option" where
  "bool_option JNull = Inr None"
| "bool_option (JBool b) = Inr (Some b)"
| "bool_option _ = Inl type_error"

text \<open>\<^verbatim>\<open>int(v)\<close>.\<close>

fun int_of :: "jval \<Rightarrow> exn + int" where
  "int_of (JInt n) = Inr n"
| "int_of (JBool b) = Inr (if b then 1 else 0)"
| "int_of (JStr s) = py_int s"
| "int_of (JDec x) = Inr (round_down_int x)"
| "int_of _ = Inl type_error"

definition amount :: "jval \<Rightarrow> exn + rat" where
  "amount v = (if v = JNull \<or> v = JStr [] then Inr 0 else bindR (str_of v) py_dec)"

text \<open>A price that is absent when the field is one of the given empty values.\<close>

definition price_unless :: "jval list \<Rightarrow> jval \<Rightarrow> exn + rat option" where
  "price_unless empties v = (if v \<in> set empties then Inr None else bindR (amount v) (\<lambda>x. Inr (Some x)))"

section \<open>Statuses, keys and symbols\<close>

definition STATUS :: "(string \<times> order_status) list" where
  "STATUS = [(''NEW'', NEW), (''PENDING_NEW'', NEW), (''PARTIALLY_FILLED'', PARTIALLY_FILLED), (''FILLED'', FILLED),
     (''CANCELED'', CANCELED), (''PENDING_CANCEL'', NEW), (''REJECTED'', REJECTED), (''EXPIRED'', EXPIRED),
     (''EXPIRED_IN_MATCH'', EXPIRED)]"

definition map_status :: "jval \<Rightarrow> exn + order_status" where
  "map_status v = (case v of
     JStr s \<Rightarrow> (case map_of STATUS s of None \<Rightarrow> Inl (UnknownExchangeStatus s) | Some st \<Rightarrow> Inr st)
   | _ \<Rightarrow> bindR (str_of v) (\<lambda>s. Inl (UnknownExchangeStatus s)))"

definition order_event_key :: "string \<Rightarrow> string \<Rightarrow> string \<Rightarrow> string \<Rightarrow> string \<Rightarrow> string" where
  "order_event_key account esym oid eid exec_type =
     ''binance:'' @ account @ '':'' @ esym @ '':'' @ oid @ '':'' @ eid @ '':'' @ exec_type"

definition fill_event_key :: "string \<Rightarrow> string \<Rightarrow> string \<Rightarrow> string \<Rightarrow> string" where
  "fill_event_key account esym oid tid = ''binance:'' @ account @ '':'' @ esym @ '':'' @ oid @ '':'' @ tid @ '':TRADE''"

definition exchange_symbol :: "string \<Rightarrow> string" where
  "exchange_symbol s = remove_char (CHR ''/'') s"

definition internal :: "string list \<Rightarrow> string \<Rightarrow> string" where
  "internal symbols s = (case find (\<lambda>i. exchange_symbol i = s) (rev symbols) of None \<Rightarrow> s | Some i \<Rightarrow> i)"

section \<open>REST payloads\<close>

definition report_client_id :: "payload \<Rightarrow> exn + string" where
  "report_client_id raw =
     (if got ''status'' raw = JStr ''CANCELED'' \<and> jtrue (got ''origClientOrderId'' raw)
      then as_str (got ''origClientOrderId'' raw) else bindR (jget ''clientOrderId'' raw) as_str)"

definition rest_order_report :: "payload \<Rightarrow> string list \<Rightarrow> exn + report" where
  "rest_order_report raw symbols =
     bindR (bindR (jget ''status'' raw) map_status) (\<lambda>st.
     bindR (report_client_id raw) (\<lambda>coid.
     bindR (if got ''orderId'' raw = JNull then Inr None else bindR (str_of (got ''orderId'' raw)) (\<lambda>s. Inr (Some s))) (\<lambda>exid.
     bindR (bindR (jget ''symbol'' raw) as_str) (\<lambda>esym.
     bindR (text_or_empty ''side'' raw) (\<lambda>side.
     bindR (text_or_empty ''type'' raw) (\<lambda>ty.
     bindR (amount (got ''origQty'' raw)) (\<lambda>orig.
     bindR (amount (got ''executedQty'' raw)) (\<lambda>executed.
     bindR (amount (got ''cummulativeQuoteQty'' raw)) (\<lambda>quote.
     bindR (price_unless [JNull, JStr []] (got ''price'' raw)) (\<lambda>price.
     bindR (price_unless [JNull, JStr [], JStr ''0.00000000''] (got ''stopPrice'' raw)) (\<lambda>stop.
     bindR (int_option (or_else (or_else (got ''updateTime'' raw) (got ''transactTime'' raw)) (got ''workingTime'' raw))) (\<lambda>ms.
       Inr \<lparr>r_coid = coid, r_symbol = internal symbols esym, r_side = side, r_type = ty, r_status = st, r_orig_qty = orig,
            r_executed = executed, r_cumquote = quote, r_exid = exid, r_price = price, r_stop = stop, r_update_ms = ms,
            r_reject = None, r_raw = filter (\<lambda>kv. fst kv \<noteq> ''fills'') raw\<rparr>))))))))))))"

definition response_fill :: "payload \<Rightarrow> string \<Rightarrow> string list \<Rightarrow> payload \<Rightarrow> exn + xfill" where
  "response_fill raw account symbols f =
     bindR (bindR (jget ''qty'' f) amount) (\<lambda>qty.
     bindR (bindR (jget ''price'' f) amount) (\<lambda>price.
     bindR (bindR (jget ''tradeId'' f) str_of) (\<lambda>tid.
     bindR (bindR (jget ''orderId'' raw) str_of) (\<lambda>oid.
     bindR (text_option (got ''clientOrderId'' raw)) (\<lambda>coid.
     bindR (bindR (jget ''symbol'' raw) as_str) (\<lambda>esym.
     bindR (text_or_empty ''side'' raw) (\<lambda>side.
     bindR (amount (got ''commission'' f)) (\<lambda>fee.
     bindR (text_option (got ''commissionAsset'' f)) (\<lambda>fee_asset.
     bindR (int_of (or_else (got ''transactTime'' raw) (JInt 0))) (\<lambda>ms.
       Inr \<lparr>xf_trade_id = tid, xf_exid = Some oid, xf_coid = coid, xf_symbol = internal symbols esym, xf_side = side,
            xf_qty = qty, xf_price = price, xf_quote = dmul qty price, xf_commission = fee, xf_commission_asset = fee_asset,
            xf_time_ms = ms, xf_key = fill_event_key account esym oid tid, xf_is_maker = None\<rparr>))))))))))"

text \<open>A list of objects of a payload.\<close>

fun as_objs :: "jval \<Rightarrow> exn + payload list" where
  "as_objs (JArr xs) = mapR as_obj xs"
| "as_objs _ = Inl type_error"

definition rest_response_fills :: "payload \<Rightarrow> string \<Rightarrow> string list \<Rightarrow> exn + xfill list" where
  "rest_response_fills raw account symbols =
     bindR (as_objs (or_else (got ''fills'' raw) (JArr []))) (mapR (response_fill raw account symbols))"

definition rest_trade_fill :: "payload \<Rightarrow> string \<Rightarrow> string list \<Rightarrow> string option \<Rightarrow> exn + xfill" where
  "rest_trade_fill raw account symbols client_order_id =
     bindR (bindR (jget ''id'' raw) str_of) (\<lambda>tid.
     bindR (bindR (jget ''orderId'' raw) str_of) (\<lambda>oid.
     bindR (bindR (jget ''symbol'' raw) as_str) (\<lambda>esym.
     bindR (bindR (jget ''qty'' raw) amount) (\<lambda>qty.
     bindR (bindR (jget ''price'' raw) amount) (\<lambda>price.
     bindR (amount (got ''quoteQty'' raw)) (\<lambda>quote.
     bindR (amount (got ''commission'' raw)) (\<lambda>fee.
     bindR (text_option (got ''commissionAsset'' raw)) (\<lambda>fee_asset.
     bindR (bindR (jget ''time'' raw) int_of) (\<lambda>ms.
     bindR (bool_option (got ''isMaker'' raw)) (\<lambda>maker.
       Inr \<lparr>xf_trade_id = tid, xf_exid = Some oid, xf_coid = client_order_id, xf_symbol = internal symbols esym,
            xf_side = (if jtrue (got ''isBuyer'' raw) then BUY else SELL),
            xf_qty = qty, xf_price = price, xf_quote = quote, xf_commission = fee, xf_commission_asset = fee_asset,
            xf_time_ms = ms, xf_key = fill_event_key account esym oid tid, xf_is_maker = maker\<rparr>))))))))))"

text \<open>The balances of a list of objects with the given names of the asset, the free and the locked amount.\<close>

definition balance_rows :: "string \<Rightarrow> string \<Rightarrow> string \<Rightarrow> payload list \<Rightarrow> exn + (string \<times> rat \<times> rat) list" where
  "balance_rows asset free locked rows = bindR (mapR (\<lambda>b.
     bindR (bindR (jget asset b) as_str) (\<lambda>a. bindR (bindR (jget free b) amount) (\<lambda>f.
     bindR (bindR (jget locked b) amount) (\<lambda>l. Inr (a, f, l))))) rows)
     (\<lambda>kvs. Inr (foldl (\<lambda>d (a, v). AList.update a v d) [] kvs))"

definition rest_balances :: "payload \<Rightarrow> int \<Rightarrow> exn + balance_snapshot" where
  "rest_balances raw as_of =
     bindR (as_objs (dict_get raw ''balances'' (JArr []))) (\<lambda>rows.
     bindR (balance_rows ''asset'' ''free'' ''locked'' rows) (\<lambda>balances.
     bindR (int_of (or_else (got ''updateTime'' raw) (JInt as_of))) (\<lambda>ms.
       Inr \<lparr>bs_balances = balances, bs_as_of_ms = ms\<rparr>)))"

section \<open>The user data stream\<close>

definition unwrap :: "payload \<Rightarrow> jval option \<times> payload option" where
  "unwrap message = (case map_of message ''event'' of
     Some (JObj ev) \<Rightarrow> (Some (got ''subscriptionId'' message), Some ev)
   | _ \<Rightarrow> if map_of message ''e'' \<noteq> None then (None, Some message) else (None, None))"

text \<open>The raw fields kept with a report, and the execution carried by an event, if any.\<close>

definition REPORT_KEYS :: "string list" where
  "REPORT_KEYS = [''e'', ''E'', ''s'', ''c'', ''C'', ''S'', ''o'', ''x'', ''X'', ''r'', ''i'', ''z'', ''Z'', ''T'', ''I'']"

definition event_client_id :: "payload \<Rightarrow> exn + string" where
  "event_client_id ev = (if jtrue (got ''C'' ev) then as_str (got ''C'' ev) else bindR (jget ''c'' ev) as_str)"

definition event_report :: "payload \<Rightarrow> string list \<Rightarrow> string \<Rightarrow> string \<Rightarrow> exn + report" where
  "event_report ev symbols esym coid =
     bindR (bindR (jget ''i'' ev) str_of) (\<lambda>oid.
     bindR (text_or_empty ''S'' ev) (\<lambda>side.
     bindR (text_or_empty ''o'' ev) (\<lambda>ty.
     bindR (bindR (jget ''X'' ev) map_status) (\<lambda>st.
     bindR (amount (got ''q'' ev)) (\<lambda>orig.
     bindR (amount (got ''z'' ev)) (\<lambda>executed.
     bindR (amount (got ''Z'' ev)) (\<lambda>quote.
     bindR (if jtrue (got ''p'' ev) then bindR (amount (got ''p'' ev)) (\<lambda>x. Inr (Some x)) else Inr None) (\<lambda>price.
     bindR (price_unless [JNull, JStr [], JStr ''0.00000000''] (got ''P'' ev)) (\<lambda>stop.
     bindR (int_option (or_else (got ''T'' ev) (got ''E'' ev))) (\<lambda>ms.
     bindR (if got ''r'' ev = JStr ''NONE'' then Inr None else text_option (got ''r'' ev)) (\<lambda>reject.
       Inr \<lparr>r_coid = coid, r_symbol = internal symbols esym, r_side = side, r_type = ty, r_status = st, r_orig_qty = orig,
            r_executed = executed, r_cumquote = quote, r_exid = Some oid, r_price = price, r_stop = stop, r_update_ms = ms,
            r_reject = reject, r_raw = map (\<lambda>k. (k, got k ev)) REPORT_KEYS\<rparr>)))))))))))"

definition event_fill :: "payload \<Rightarrow> string \<Rightarrow> string list \<Rightarrow> string \<Rightarrow> string \<Rightarrow> exn + xfill option" where
  "event_fill ev account symbols esym coid =
     bindR (if got ''x'' ev = JStr ''TRADE'' then bindR (int_of (dict_get ev ''t'' (JInt (- 1)))) (\<lambda>t. Inr (0 \<le> t)) else Inr False) (\<lambda>trade.
     if \<not> trade then Inr None else
     bindR (amount (got ''l'' ev)) (\<lambda>qty.
     bindR (amount (got ''L'' ev)) (\<lambda>price.
     bindR (bindR (jget ''t'' ev) str_of) (\<lambda>tid.
     bindR (bindR (jget ''i'' ev) str_of) (\<lambda>oid.
     bindR (text_or_empty ''S'' ev) (\<lambda>side.
     bindR (if got ''Y'' ev = JNull then Inr (dmul qty price) else amount (got ''Y'' ev)) (\<lambda>quote.
     bindR (amount (got ''n'' ev)) (\<lambda>fee.
     bindR (text_option (got ''N'' ev)) (\<lambda>fee_asset.
     bindR (int_of (or_else (got ''T'' ev) (got ''E'' ev))) (\<lambda>ms.
     bindR (bool_option (got ''m'' ev)) (\<lambda>maker.
       Inr (Some \<lparr>xf_trade_id = tid, xf_exid = Some oid, xf_coid = Some coid, xf_symbol = internal symbols esym, xf_side = side,
            xf_qty = qty, xf_price = price, xf_quote = quote, xf_commission = fee, xf_commission_asset = fee_asset,
            xf_time_ms = ms, xf_key = fill_event_key account esym oid tid, xf_is_maker = maker\<rparr>))))))))))))"

definition plain_event :: "string \<Rightarrow> string \<Rightarrow> string \<Rightarrow> stream_event" where
  "plain_event kind key ty = \<lparr>se_kind = kind, se_key = key, se_type = ty, se_report = None, se_fill = None, se_balances = None\<rparr>"

definition normalize_event :: "payload \<Rightarrow> string \<Rightarrow> string list \<Rightarrow> exn + stream_event" where
  "normalize_event ev account symbols = (let etype = got ''e'' ev in
     if etype = JStr ''executionReport'' then
       bindR (bindR (jget ''s'' ev) as_str) (\<lambda>esym.
       bindR (event_client_id ev) (\<lambda>coid.
       bindR (event_report ev symbols esym coid) (\<lambda>rep.
       bindR (event_fill ev account symbols esym coid) (\<lambda>xf.
       bindR (bindR (jget ''i'' ev) str_of) (\<lambda>oid.
       bindR (str_of (dict_get ev ''I'' (got ''E'' ev))) (\<lambda>eid.
       bindR (str_of (dict_get ev ''x'' (JStr []))) (\<lambda>ty.
         Inr \<lparr>se_kind = ''ORDER'', se_key = order_event_key account esym oid eid ty, se_type = ''executionReport'',
              se_report = Some rep, se_fill = xf, se_balances = None\<rparr>)))))))
     else if etype = JStr ''outboundAccountPosition'' then
       bindR (as_objs (dict_get ev ''B'' (JArr []))) (\<lambda>rows.
       bindR (balance_rows ''a'' ''f'' ''l'' rows) (\<lambda>balances.
       bindR (str_of (got ''u'' ev)) (\<lambda>u. bindR (str_of (got ''E'' ev)) (\<lambda>t.
       bindR (int_of (or_else (got ''u'' ev) (got ''E'' ev))) (\<lambda>ms.
         Inr \<lparr>se_kind = ''BALANCE'', se_key = ''binance:'' @ account @ '':account:'' @ u @ '':'' @ t,
              se_type = ''outboundAccountPosition'', se_report = None, se_fill = None,
              se_balances = Some \<lparr>bs_balances = balances, bs_as_of_ms = ms\<rparr>\<rparr>)))))
     else if etype = JStr ''eventStreamTerminated'' then
       bindR (str_of (got ''E'' ev)) (\<lambda>t.
         Inr (plain_event ''TERMINATED'' (''binance:'' @ account @ '':terminated:'' @ t) ''eventStreamTerminated''))
     else
       bindR (str_of etype) (\<lambda>ty. bindR (str_of (got ''E'' ev)) (\<lambda>t.
         Inr (plain_event ''IGNORED'' (''binance:'' @ account @ '':'' @ ty @ '':'' @ t) ty))))"

section \<open>A pending status is never final\<close>

text \<open>The texts that are read as a final status are exactly the final ones of the exchange.\<close>

lemma map_status_terminal:
  "(\<exists>st. map_status v = Inr st \<and> is_terminal st)
     \<longleftrightarrow> v \<in> JStr ` {''FILLED'', ''CANCELED'', ''REJECTED'', ''EXPIRED'', ''EXPIRED_IN_MATCH''}"
proof (cases v)
  case (JStr s)
  show ?thesis by (auto simp: JStr map_status_def STATUS_def is_terminal_def TERMINAL_STATUSES_def split: option.splits if_splits)
qed (auto simp: map_status_def bindR_def split: sum.splits)

section \<open>One execution, one event key\<close>

lemma ingest_again:
  assumes "ingest_fill sv xf src w = (Inr True, w1)" "ledger_inv (db w)" "advances w1 w2" "xf_key tf = xf_key xf"
  shows "ingest_fill sv tf src' w2 = (Inr False, w2)"
proof -
  obtain v where v: "ingest_body sv xf (w\<lparr>depth := depth w + 1\<rparr>) = (Inr True, v)" "db w1 = db v"
    using assms(1) by (auto simp: ingest_fill_def transaction_def Let_def split: prod.splits sum.splits if_splits)
  obtain f where f: "f \<in> set (d_fills (db w1))" "f_key f = xf_key xf"
    using v(1)
  proof (cases rule: ingest_body_cases)
    case (recorded g od x p')
    then show ?thesis using that [of "g\<lparr>f_id := d_next_fill (db w)\<rparr>"] v(2) by simp
  qed simp_all
  have "ledger_inv (db w1)" using keepsD [OF safe_ingest_fill assms(1)] assms(2) by (simp add: advances_def)
  then have "f \<in> set (d_fills (db w2))" using assms(3) f(1) by (auto simp: advances_def ledger_le_def dest: set_mono_prefix)
  then have taken: "fill_taken (make_fill od tf t) (db w2)" for od t
    using f(2) assms(4) by (auto simp: fill_taken_def make_fill_def)
  let ?v = "w2\<lparr>depth := depth w2 + 1\<rparr>"
  obtain found where "find_order sv (xf_coid tf) (xf_exid tf) ?v = (Inr found, ?v)" using find_order_result by blast
  then have "ingest_body sv tf ?v = (Inr False, ?v)"
    using taken by (cases found) (simp_all add: ingest_body_def bindE_apply Let_def insert_fill_result)
  then show ?thesis by (simp add: ingest_fill_def transaction_def Let_def)
qed

lemma event_key:
  assumes "normalize_event ev account symbols = Inr e" "se_fill e = Some xf"
  shows "\<exists>s oid tid. bindR (jget ''s'' ev) as_str = Inr s \<and> bindR (jget ''i'' ev) str_of = Inr oid
    \<and> bindR (jget ''t'' ev) str_of = Inr tid \<and> xf_key xf = fill_event_key account s oid tid"
proof -
  have "got ''e'' ev = JStr ''executionReport''"
    using assms by (auto simp: normalize_event_def Let_def plain_event_def bindR_Inr split: if_splits)
  then obtain s coid where s: "bindR (jget ''s'' ev) as_str = Inr s" and xf: "event_fill ev account symbols s coid = Inr (Some xf)"
    using assms by (auto simp: normalize_event_def Let_def elim!: bindR_InrE)
  then show ?thesis
    by (auto simp: event_fill_def split: if_splits elim!: bindR_InrE)
qed

lemma trade_key:
  assumes "rest_trade_fill row account symbols coid = Inr tf"
  shows "\<exists>s oid tid. bindR (jget ''symbol'' row) as_str = Inr s \<and> bindR (jget ''orderId'' row) str_of = Inr oid
    \<and> bindR (jget ''id'' row) str_of = Inr tid \<and> xf_key tf = fill_event_key account s oid tid"
  using assms by (auto simp: rest_trade_fill_def elim!: bindR_InrE)

lemma response_key:
  assumes "response_fill raw account symbols f = Inr rf"
  shows "\<exists>s oid tid. bindR (jget ''symbol'' raw) as_str = Inr s \<and> bindR (jget ''orderId'' raw) str_of = Inr oid
    \<and> bindR (jget ''tradeId'' f) str_of = Inr tid \<and> xf_key rf = fill_event_key account s oid tid"
  using assms by (auto simp: response_fill_def elim!: bindR_InrE)

text \<open>
  C10: the same execution, received from the user data stream and from the trade history, in either order and with
  anything done by the engine in between, moves the ledger once: the second one is reported not
  new and changes nothing.
\<close>

theorem stream_and_rest_once:
  assumes "normalize_event ev account symbols = Inr e" "se_fill e = Some xf"
    and "rest_trade_fill row account symbols' coid = Inr tf"
    and "bindR (jget ''s'' ev) as_str = bindR (jget ''symbol'' row) as_str"
    and "bindR (jget ''i'' ev) str_of = bindR (jget ''orderId'' row) str_of"
    and "bindR (jget ''t'' ev) str_of = bindR (jget ''id'' row) str_of"
    and "(first, second) \<in> {(xf, tf), (tf, xf)}"
    and "ingest_fill sv first src w = (Inr True, w1)" "ledger_inv (db w)" "advances w1 w2"
  shows "ingest_fill sv second src' w2 = (Inr False, w2)"
proof (rule ingest_again [OF assms(8,9,10)])
  have "xf_key xf = xf_key tf"
    using event_key [OF assms(1,2)] trade_key [OF assms(3)] assms(4,5,6) by auto
  then show "xf_key second = xf_key first" using assms(7) by auto
qed

definition demo_execution :: payload where
  "demo_execution = [(''e'', JStr ''executionReport''), (''E'', JInt 9), (''s'', JStr ''BTCUSDT''), (''c'', JStr ''cb1-1''), (''S'', JStr ''BUY''),
     (''o'', JStr ''MARKET''), (''x'', JStr ''TRADE''), (''X'', JStr ''FILLED''), (''i'', JInt 7), (''t'', JInt 12), (''q'', JStr ''1''), (''z'', JStr ''1''),
     (''Z'', JStr ''100''), (''l'', JStr ''1''), (''L'', JStr ''100''), (''T'', JInt 9)]"

definition demo_row :: payload where
  "demo_row = [(''symbol'', JStr ''BTCUSDT''), (''id'', JStr ''12''), (''orderId'', JInt 7), (''price'', JStr ''100.00''), (''qty'', JStr ''1.0''),
     (''quoteQty'', JStr ''100''), (''time'', JInt 9), (''isBuyer'', JBool True)]"

definition known_order :: "unit world" where
  "known_order = (traded [] 0 0)\<lparr>db := (db (traded [] 0 0))\<lparr>d_intents := [demo_intent\<lparr>oi_id := ''i1''\<rparr>], d_next_order := 2\<rparr>\<rparr>"

theorem stream_and_rest_once_witness:
  "let xf = the (se_fill (projr (normalize_event demo_execution ''main'' [''BTC/USDT''])));
       tf = projr (rest_trade_fill demo_row ''main'' [''BTC/USDT''] (Some ''cb1-1''));
       w = known_order; w1 = snd (ingest_fill demo_services xf ''ws'' w) in
   fst (ingest_fill demo_services xf ''ws'' w) = Inr True \<and> ingest_fill demo_services tf ''rest_trades'' w1 = (Inr False, w1)"
proof -
  let ?e = "projr (normalize_event demo_execution ''main'' [''BTC/USDT''])"
  let ?tf = "projr (rest_trade_fill demo_row ''main'' [''BTC/USDT''] (Some ''cb1-1''))"
  let ?w1 = "snd (ingest_fill demo_services (the (se_fill ?e)) ''ws'' known_order)"
  have "\<not> isl (normalize_event demo_execution ''main'' [''BTC/USDT''])" by code_simp
  then have e: "normalize_event demo_execution ''main'' [''BTC/USDT''] = Inr ?e" by (simp add: sum.expand isl_def split: sum.splits)
  have "\<not> Option.is_none (se_fill ?e)" by code_simp
  then have xf: "se_fill ?e = Some (the (se_fill ?e))" by (simp add: Option.is_none_def)
  have "\<not> isl (rest_trade_fill demo_row ''main'' [''BTC/USDT''] (Some ''cb1-1''))" by code_simp
  then have tf: "rest_trade_fill demo_row ''main'' [''BTC/USDT''] (Some ''cb1-1'') = Inr ?tf" by (simp add: sum.expand)
  have first: "fst (ingest_fill demo_services (the (se_fill ?e)) ''ws'' known_order) = Inr True" by code_simp
  then have ran: "ingest_fill demo_services (the (se_fill ?e)) ''ws'' known_order = (Inr True, ?w1)" by (metis prod.collapse)
  have ids: "bindR (jget ''s'' demo_execution) as_str = bindR (jget ''symbol'' demo_row) as_str"
    "bindR (jget ''i'' demo_execution) str_of = bindR (jget ''orderId'' demo_row) str_of"
    "bindR (jget ''t'' demo_execution) str_of = bindR (jget ''id'' demo_row) str_of" by code_simp+
  have inv: "ledger_inv (db known_order)"
    by (simp add: known_order_def traded_def base_order_def empty_ledger_def demo_intent_def ledger_inv_def orders_inv_def
        fills_inv_def tables_inv_def fresh_ids_def exids_unique_def trades_unique_def)
  have "ingest_fill demo_services ?tf ''rest_trades'' ?w1 = (Inr False, ?w1)"
    by (rule stream_and_rest_once [OF e xf tf ids _ ran inv adv.P_refl]) simp
  then show ?thesis using first by (simp only: Let_def)
qed

lemma split_at: "c \<notin> set a \<Longrightarrow> c \<notin> set b \<Longrightarrow> a @ c # x = b @ c # y \<longleftrightarrow> a = b \<and> x = y"
proof (induction a arbitrary: b)
  case (Cons h a)
  then show ?case by (cases b) auto
qed (auto simp: Cons_eq_append_conv)

lemma str_int_no_colon: "CHR '':'' \<notin> set (str_int n)"
proof -
  have "CHR '':'' \<notin> set (str_nat_aux m)" if "0 \<le> m" for m
    using str_nat_digits [OF that] by (auto simp: list_all_iff is_digit_def char_between_def)
  then show ?thesis by (auto simp: str_int_def)
qed

lemma str_int_inj: "str_int m = str_int n \<longleftrightarrow> m = n"
  using py_int_str_int by (metis sum.inject(2))

text \<open>
  Different executions have different event keys: for symbols without a colon, as the exchange's are, and integer
  identifiers, the key of an account determines symbol, order and trade.
\<close>

theorem fill_keys_distinct:
  assumes "CHR '':'' \<notin> set s" "CHR '':'' \<notin> set s'"
  shows "fill_event_key account s (str_int oid) (str_int tid) = fill_event_key account s' (str_int oid') (str_int tid')
     \<longleftrightarrow> s = s' \<and> oid = oid' \<and> tid = tid'"
  using assms split_at [OF assms] split_at [OF str_int_no_colon str_int_no_colon]
  by (simp add: fill_event_key_def str_int_inj)

theorem fill_keys_distinct_witness:
  "fill_event_key ''main'' ''BTCUSDT'' (str_int 7) (str_int 12) \<noteq> fill_event_key ''main'' ''BTCUSDT'' (str_int 71) (str_int 2)"
  using fill_keys_distinct [of "''BTCUSDT''" "''BTCUSDT''" "''main''" 7 12 71 2] by simp

end
