(* ===== verification/Outside.thy ===== *)
theory Outside
  imports Progress
begin

text \<open>
  Calls that leave the process: an answer of the outside world, which may depend on everything it saw so far
  (its own state), and the time that passed. Such a call cannot write the database or its transaction, so
  it is safe for every behaviour of the outside.
\<close>

definition outside :: "('x \<Rightarrow> 'a \<times> 'x \<times> nat) \<Rightarrow> ('x world, 'a) eff" where
  "outside f w = (case f (ext w) of (a, x, micros) \<Rightarrow> (Inr a, w\<lparr>ext := x, clk := clk w + int micros\<rparr>))"

lemma outside_db [simp]: "db (snd (outside f w)) = db w" "depth (snd (outside f w)) = depth w"
  by (simp_all add: outside_def case_prod_beta)

lemma outside_returns: "\<exists>a. fst (outside f w) = Inr a"
  by (simp add: outside_def case_prod_beta)

lemma safe_outside [keeps_intros]: "safe (outside f)"
  by (rule keepsI) (simp add: advances_def outside_def case_prod_beta)

end
