(* ===== verification/Rest_Client.thy ===== *)
theory Rest_Client
  imports Normalizer Outside "HOL-Library.List_Lexorder" "HOL-Library.Char_ord"
begin

text \<open>
  The Binance REST client \<^verbatim>\<open>engine/exchanges/binance/rest_client.py\<close> and the signing of WebSocket requests
  \<^verbatim>\<open>signer.py\<close>. The endpoints of CCXT are arguments: functions of the request and of the state of the outside
  world. An exception of CCXT is its class name, the qualified names of the classes it is an instance of, and its text.
\<close>

record api_error =
  ae_name :: string
  ae_classes :: "string list"
  ae_text :: string

text \<open>What the client raises: its own \<^verbatim>\<open>OrderNotFound\<close>, or the library's exception unchanged.\<close>

datatype rest_error = Order_not_found string | Failed api_error

type_synonym 'y endpoint = "payload \<Rightarrow> 'y \<Rightarrow> (api_error + jval) \<times> 'y \<times> nat"

record 'y api =
  ep_new_order :: "'y endpoint"
  ep_get_order :: "'y endpoint"
  ep_cancel_order :: "'y endpoint"
  ep_open_orders :: "'y endpoint"
  ep_my_trades :: "'y endpoint"
  ep_account :: "'y endpoint"
  ep_exchange_info :: "'y endpoint"
  ep_time :: "'y endpoint"

text \<open>The state outside the database: the executor's cache of symbol rules and the rest of the world.\<close>

record 'y outer =
  ou_rules :: "(string \<times> symbol_rules) list"
  ou_rest :: 'y

definition classify_call :: "api_error + jval \<Rightarrow> rest_error + jval" where
  "classify_call r = (case r of
     Inl e \<Rightarrow> Inl (if ''ccxt.OrderNotFound'' \<in> set (ae_classes e) then Order_not_found (ae_text e) else Failed e)
   | Inr v \<Rightarrow> Inr v)"

definition rest_call :: "'y endpoint \<Rightarrow> payload \<Rightarrow> ('y outer world, rest_error + jval) eff" where
  "rest_call fn params = outside (\<lambda>x. case fn params (ou_rest x) of (r, y, micros) \<Rightarrow> (classify_call r, x\<lparr>ou_rest := y\<rparr>, micros))"

lemma safe_rest_call [keeps_intros]: "safe (rest_call fn params)"
  unfolding rest_call_def by (rule safe_outside)

text \<open>A call whose exceptions are not handled.\<close>

fun rest_exn :: "rest_error \<Rightarrow> exn" where
  "rest_exn (Order_not_found m) = Other m"
| "rest_exn (Failed e) = Other (ae_text e)"

definition must :: "('s, rest_error + 'a) eff \<Rightarrow> ('s, 'a) eff" where
  "must m = bindE m (\<lambda>r. case r of Inl e \<Rightarrow> raise (rest_exn e) | Inr v \<Rightarrow> ret v)"

section \<open>The methods\<close>

definition rest_new_order :: "'y api \<Rightarrow> payload \<Rightarrow> ('y outer world, rest_error + jval) eff" where
  "rest_new_order api params = rest_call (ep_new_order api) params"

definition rest_get_order :: "'y api \<Rightarrow> string \<Rightarrow> string option \<Rightarrow> string option \<Rightarrow> ('y outer world, rest_error + jval) eff" where
  "rest_get_order api esym coid exid = rest_call (ep_get_order api)
     [(''symbol'', JStr esym),
      if truthy coid then (''origClientOrderId'', JStr (the coid)) else (''orderId'', jopt JStr exid)]"

definition rest_cancel_order :: "'y api \<Rightarrow> string \<Rightarrow> string \<Rightarrow> ('y outer world, rest_error + jval) eff" where
  "rest_cancel_order api esym coid = rest_call (ep_cancel_order api) [(''symbol'', JStr esym), (''origClientOrderId'', JStr coid)]"

definition rest_open_orders :: "'y api \<Rightarrow> string \<Rightarrow> ('y outer world, rest_error + jval) eff" where
  "rest_open_orders api esym = rest_call (ep_open_orders api) [(''symbol'', JStr esym)]"

definition trade_params :: "string \<Rightarrow> string option \<Rightarrow> int option \<Rightarrow> int option \<Rightarrow> nat \<Rightarrow> payload" where
  "trade_params esym oid start_ms from_id limit = [(''symbol'', JStr esym), (''limit'', JInt (int limit))] @
     (case oid of Some i \<Rightarrow> [(''orderId'', JStr i)] | None \<Rightarrow>
       (case from_id of Some n \<Rightarrow> [(''fromId'', JInt n)] | None \<Rightarrow>
         (case start_ms of Some t \<Rightarrow> [(''startTime'', JInt t)] | None \<Rightarrow> [])))"

definition rest_my_trades ::
  "'y api \<Rightarrow> string \<Rightarrow> string option \<Rightarrow> int option \<Rightarrow> int option \<Rightarrow> nat \<Rightarrow> ('y outer world, rest_error + jval) eff" where
  "rest_my_trades api esym oid start_ms from_id limit = rest_call (ep_my_trades api) (trade_params esym oid start_ms from_id limit)"

definition rest_account :: "'y api \<Rightarrow> ('y outer world, rest_error + jval) eff" where
  "rest_account api = rest_call (ep_account api) [(''omitZeroBalances'', JStr ''true'')]"

fun first_of :: "jval \<Rightarrow> exn + jval" where
  "first_of (JArr (x # xs)) = Inr x"
| "first_of (JArr []) = Inl (Other ''list index out of range'')"
| "first_of _ = Inl type_error"

definition rest_exchange_info :: "'y api \<Rightarrow> string \<Rightarrow> ('y outer world, payload) eff" where
  "rest_exchange_info api esym = bindE (must (rest_call (ep_exchange_info api) [(''symbol'', JStr esym)])) (\<lambda>info.
     liftE (bindR (as_obj info) (\<lambda>d. bindR (jget ''symbols'' d) (\<lambda>l. bindR (first_of l) as_obj))))"

definition rest_server_time :: "'y api \<Rightarrow> ('y outer world, int) eff" where
  "rest_server_time api = bindE (must (rest_call (ep_time api) [])) (\<lambda>v.
     liftE (bindR (as_obj v) (\<lambda>d. bindR (jget ''serverTime'' d) int_of)))"

lemma safe_must [keeps_intros]: "safe m \<Longrightarrow> safe (must m)"
  unfolding must_def by (auto intro!: keeps_intros split: sum.split)

lemma safe_rest [keeps_intros]:
  "safe (rest_new_order api params)" "safe (rest_get_order api s c x)" "safe (rest_cancel_order api s c')" "safe (rest_open_orders api s)"
  "safe (rest_my_trades api s oid t f n)" "safe (rest_account api)" "safe (rest_exchange_info api s)" "safe (rest_server_time api)"
  unfolding rest_new_order_def rest_get_order_def rest_cancel_order_def rest_open_orders_def rest_my_trades_def rest_account_def
    rest_exchange_info_def rest_server_time_def by (intro keeps_intros)+

section \<open>Classifying failures\<close>

definition DEFINITIVE :: "string list" where
  "DEFINITIVE = [''ccxt.InsufficientFunds'', ''ccxt.InvalidOrder'', ''ccxt.BadSymbol'', ''ccxt.AuthenticationError'',
     ''ccxt.PermissionDenied'', ''ccxt.BadRequest'', ''ccxt.AccountSuspended'']"

fun is_definitive_rejection :: "rest_error \<Rightarrow> bool" where
  "is_definitive_rejection (Order_not_found m) = False"
| "is_definitive_rejection (Failed e) \<longleftrightarrow>
     ''ccxt.NetworkError'' \<notin> set (ae_classes e) \<and> (\<exists>c\<in>set DEFINITIVE. c \<in> set (ae_classes e))"

text \<open>The first match of \<^verbatim>\<open>"code"\s*:\s*(-?\d+)\<close> in a text.\<close>

definition code_here :: "string \<Rightarrow> int option" where
  "code_here s = (if \<not> startswith s ''\"code\"'' then None else
     case dropWhile is_space (drop 6 s) of
       [] \<Rightarrow> None
     | c # rest \<Rightarrow> if c \<noteq> CHR '':'' then None else
         (let body = dropWhile is_space rest; neg = startswith body ''-''; ds = takeWhile is_digit (if neg then tl body else body) in
          if ds = [] then None else Some ((if neg then - 1 else 1) * digits_val ds)))"

fun find_code :: "string \<Rightarrow> int option" where
  "find_code [] = None"
| "find_code (c # cs) = (case code_here (c # cs) of Some n \<Rightarrow> Some n | None \<Rightarrow> find_code cs)"

fun rest_error_text :: "rest_error \<Rightarrow> string" where
  "rest_error_text (Order_not_found m) = m"
| "rest_error_text (Failed e) = ae_text e"

fun rest_error_name :: "rest_error \<Rightarrow> string" where
  "rest_error_name (Order_not_found m) = ''OrderNotFound''"
| "rest_error_name (Failed e) = ae_name e"

definition error_code :: "rest_error \<Rightarrow> int option" where
  "error_code e = find_code (rest_error_text e)"

section \<open>Signing (signer.py)\<close>

text \<open>\<open>hmac\<close> is the hexadecimal HMAC-SHA256 of a text under a secret.\<close>

definition ws_signature_payload :: "payload \<Rightarrow> exn + string" where
  "ws_signature_payload params =
     bindR (mapR (\<lambda>(k, v). bindR (str_of v) (\<lambda>t. Inr (k @ ''='' @ t)))
              (sort_key fst (filter (\<lambda>kv. fst kv \<noteq> ''signature'') params)))
       (\<lambda>parts. Inr (join ''&'' parts))"

definition sign_ws_params :: "(string \<Rightarrow> string \<Rightarrow> string) \<Rightarrow> payload \<Rightarrow> string \<Rightarrow> exn + string" where
  "sign_ws_params hmac params secret = bindR (ws_signature_payload params) (\<lambda>t. Inr (hmac secret t))"

definition signed_ws_params :: "(string \<Rightarrow> string \<Rightarrow> string) \<Rightarrow> payload \<Rightarrow> string \<Rightarrow> exn + payload" where
  "signed_ws_params hmac params secret =
     bindR (sign_ws_params hmac params secret) (\<lambda>s. Inr (AList.update ''signature'' (JStr s) params))"

lemma filter_update: "filter (\<lambda>kv. fst kv \<noteq> k) (AList.update k v d) = filter (\<lambda>kv. fst kv \<noteq> k) d"
  by (induction d) auto

text \<open>
  A signed request carries the signature of exactly its other parameters: signing again what was signed changes
  nothing, and the same parameters in any order have the same signature.
\<close>

theorem signature_covers_params:
  assumes "signed_ws_params hmac params secret = Inr out" "distinct (map fst params)" "mset other = mset params"
  shows "map_of out ''signature'' = Some (JStr (projr (sign_ws_params hmac out secret)))
    \<and> signed_ws_params hmac out secret = Inr out
    \<and> sign_ws_params hmac other secret = sign_ws_params hmac params secret"
proof -
  obtain s where s: "sign_ws_params hmac params secret = Inr s" "out = AList.update ''signature'' (JStr s) params"
    using assms(1) by (auto simp: signed_ws_params_def elim!: bindR_InrE)
  have same: "sign_ws_params hmac out secret = sign_ws_params hmac params secret"
    by (simp add: sign_ws_params_def ws_signature_payload_def s(2) filter_update)
  have again: "AList.update ''signature'' (JStr s) out = out"
    unfolding s(2) by (induction params) auto
  have "inj_on fst (set params)" using assms(2) by (simp add: distinct_map)
  moreover have "set other = set params" using assms(3) by (metis set_mset_mset)
  ultimately have inj: "inj_on fst (set (filter (\<lambda>kv. fst kv \<noteq> ''signature'') other))" by (auto simp: inj_on_def)
  have "sort_key fst (filter (\<lambda>kv. fst kv \<noteq> ''signature'') other) = sort_key fst (filter (\<lambda>kv. fst kv \<noteq> ''signature'') params)"
    by (rule sort_key_inj_key_eq) (use assms(2,3) inj in auto)
  then have "sign_ws_params hmac other secret = sign_ws_params hmac params secret"
    by (simp add: sign_ws_params_def ws_signature_payload_def)
  then show ?thesis using s same again by (simp add: signed_ws_params_def update_conv')
qed

theorem signature_covers_params_witness:
  "let params = [(''timestamp'', JInt 5), (''apiKey'', JStr ''k'')]; out = params @ [(''signature'', JStr ''s.apiKey=k&timestamp=5'')] in
   signed_ws_params (\<lambda>key t. key @ ''.'' @ t) out ''s'' = Inr out
   \<and> sign_ws_params (\<lambda>key t. key @ ''.'' @ t) (rev params) ''s'' = sign_ws_params (\<lambda>key t. key @ ''.'' @ t) params ''s''"
proof -
  let ?params = "[(''timestamp'', JInt 5), (''apiKey'', JStr ''k'')]"
  let ?out = "?params @ [(''signature'', JStr ''s.apiKey=k&timestamp=5'')]"
  have "signed_ws_params (\<lambda>key t. key @ ''.'' @ t) ?params ''s'' = Inr ?out" by code_simp
  from signature_covers_params [OF this, of "rev ?params"] show ?thesis by simp
qed

end
