(* ===== verification/Reconciliation.thy ===== *)
theory Reconciliation
  imports Ingestion "HOL-Library.List_Lexorder" "HOL-Library.Char_ord"
begin

text \<open>
  The reconciliation service \<^verbatim>\<open>engine/application/reconciliation_service.py\<close>: it rebuilds the local
  state from the exchange's and decides whether trading may go on. The body of \<^verbatim>\<open>run\<close> is a sequence
  of steps over the world and the run's local variables (the mismatches found, the summary, the
  number of pending ambiguous orders), which survive an exception and are persisted with the
  failed run. The lemmas show that a run only advances the ledger whatever the exchange answers,
  that it ends HEALTHY only without critical findings, and how it leaves the HALTED state.
\<close>

section \<open>Results and the run's local variables\<close>

record recon_result =
  rc_status :: recon_status
  rc_reason :: string
  rc_mismatches :: "mismatch list"
  rc_summary :: "(string \<times> jval) list"
  rc_run_key :: string

definition critical :: "mismatch list \<Rightarrow> mismatch list" where
  "critical mms = filter (\<lambda>m. mm_severity m = CRITICAL \<and> \<not> mm_resolved m) mms"

definition mm :: "string \<Rightarrow> severity \<Rightarrow> string option \<Rightarrow> (string \<times> jval) list \<Rightarrow> mismatch" where
  "mm kind sev coid detail = \<lparr>mm_kind = kind, mm_severity = sev, mm_coid = coid, mm_detail = detail, mm_resolved = False\<rparr>"

record 'x recon_ctx =
  rx_world :: "'x world"
  rx_mismatches :: "mismatch list"
  rx_summary :: "(string \<times> jval) list"
  rx_pending :: int

text \<open>A call on the world from within the run, and the updates of the local variables.\<close>

definition call :: "('x world, 'a) eff \<Rightarrow> ('x recon_ctx, 'a) eff" where
  "call m c = (case m (rx_world c) of (r, w) \<Rightarrow> (r, c\<lparr>rx_world := w\<rparr>))"

definition found :: "mismatch \<Rightarrow> ('x recon_ctx, unit) eff" where
  "found m = updE (\<lambda>c. c\<lparr>rx_mismatches := rx_mismatches c @ [m]\<rparr>)"

definition summarise :: "string \<Rightarrow> jval \<Rightarrow> ('x recon_ctx, unit) eff" where
  "summarise k v = updE (\<lambda>c. c\<lparr>rx_summary := AList.update k v (rx_summary c)\<rparr>)"

text \<open>\<^verbatim>\<open>except OrderConflict as exc\<close> of the loops over orders.\<close>

definition catch_conflict :: "string \<Rightarrow> ('x recon_ctx, unit) eff \<Rightarrow> ('x recon_ctx, unit) eff" where
  "catch_conflict coid m = tryE m (\<lambda>e. case e of
     OrderConflict msg \<Rightarrow> found (mm ''ORDER_STATE_CONFLICT'' CRITICAL (Some coid) [(''error'', JStr msg)])
   | _ \<Rightarrow> raise e)"

section \<open>The steps of a run\<close>

definition set_state ::
  "config \<Rightarrow> recon_status \<Rightarrow> string \<Rightarrow> bool \<Rightarrow> (recon_state \<Rightarrow> recon_state) \<Rightarrow> ('x world, recon_state) eff" where
  "set_state cfg status reason success flags = bindE (get_recon_state (BOT_INSTANCE_ID cfg)) (\<lambda>st. bindE now (\<lambda>t.
     let st = st\<lparr>rs_status := status, rs_reason := reason\<rparr>;
         st = (if success then st\<lparr>rs_last_success := Some t\<rparr> else st);
         st = flags st
     in thenE (save_recon_state st) (ret st)))"

definition touch :: "config \<Rightarrow> ('x world, unit) eff" where
  "touch cfg = bindE (get_recon_state (BOT_INSTANCE_ID cfg)) save_recon_state"

text \<open>Steps 2 to 4: the local orders that are not terminal.\<close>

definition check_local :: "'x services \<Rightarrow> order \<Rightarrow> ('x recon_ctx, unit) eff" where
  "check_local sv od = catch_conflict (o_coid od)
     (if o_ambiguous od \<or> o_status od = SUBMITTING
      then bindE (call (resolve_ambiguous sv od)) (\<lambda>res. whenE (res = ''pending'')
             (thenE (updE (\<lambda>c. c\<lparr>rx_pending := rx_pending c + 1\<rparr>))
               (found (mm ''AMBIGUOUS_ORDER_PENDING'' WARNING (Some (o_coid od))
                  [(''status'', JStr (status_value (o_status od)))]))))
      else thenE (call (refresh sv od)) (ret ()))"

text \<open>Recently terminal orders are verified against the exchange.\<close>

definition TERMINAL_VERIFY_LIMIT :: nat where "TERMINAL_VERIFY_LIMIT = 20"

definition hours :: "int \<Rightarrow> int" where "hours n = seconds (3600 * n)"

definition recent_terminal :: "time \<Rightarrow> order list \<Rightarrow> order list" where
  "recent_terminal horizon orders = take TERMINAL_VERIFY_LIMIT (filter (\<lambda>od. is_terminal (o_status od) \<and> truthy (o_exid od)
     \<and> (case o_terminal_at od of None \<Rightarrow> False | Some t \<Rightarrow> horizon \<le> t)
     \<and> \<not> startswith (or_empty (o_reject od)) ''NOT_FOUND'') orders)"

definition verify_terminal :: "'x services \<Rightarrow> order \<Rightarrow> ('x recon_ctx, unit) eff" where
  "verify_terminal sv od = catch_conflict (o_coid od)
     (bindE (call (ex_query (sv_ex sv) od)) (\<lambda>rep. case rep of
        None \<Rightarrow> found (mm ''TERMINAL_ORDER_MISSING_ON_EXCHANGE'' CRITICAL (Some (o_coid od)) [])
      | Some r \<Rightarrow> if r_status r = o_status od \<and> r_executed r = o_executed od then ret ()
          else thenE (call (service_apply_report sv r ''reconciliation''))
            (bindE (call (get_order (o_coid od))) (\<lambda>cur. case cur of
               None \<Rightarrow> raise none_error
             | Some cur \<Rightarrow> whenE (r_executed r < o_executed cur)
                 (found (mm ''EXECUTED_QTY_EXCEEDS_EXCHANGE'' CRITICAL (Some (o_coid od))
                    [(''local'', JDec (o_executed cur)), (''exchange'', JDec (r_executed r))]))))))"

text \<open>Open orders of the exchange that the local state does not know.\<close>

definition check_exchange_open :: "'x services \<Rightarrow> report \<Rightarrow> ('x recon_ctx, unit) eff" where
  "check_exchange_open sv rep = bindE (call (get_order (r_coid rep))) (\<lambda>od.
     whenE (od = None) (let ours = startswith (r_coid rep) (own_prefix (sv_cfg sv)) in
       found (mm (if ours then ''UNKNOWN_BOT_ORDER'' else ''FOREIGN_OPEN_ORDER'') (if ours then CRITICAL else WARNING)
         (Some (r_coid rep)) [(''exchange_order_id'', jopt JStr (r_exid rep)), (''status'', JStr (status_value (r_status rep)))])))"

text \<open>Step 5: one recent execution; the accumulator counts the new and the unknown ones.\<close>

definition count_fill :: "bool \<Rightarrow> int \<times> int \<Rightarrow> int \<times> int" where
  "count_fill new acc = (if new then (fst acc + 1, snd acc) else acc)"

definition recover_fill :: "'x services \<Rightarrow> xfill \<Rightarrow> int \<times> int \<Rightarrow> ('x recon_ctx, int \<times> int) eff" where
  "recover_fill sv xf acc =
     bindE (if truthy (xf_exid xf) then call (get_order_by_exchange_id (ex_name (sv_ex sv)) (the (xf_exid xf))) else ret None) (\<lambda>known.
     if known \<noteq> None then bindE (call (ingest_fill sv xf ''reconciliation'')) (\<lambda>new. ret (count_fill new acc))
     else bindE (if truthy (xf_exid xf) then call (ex_query_by_id (sv_ex sv) (SYMBOL (sv_cfg sv)) (the (xf_exid xf))) else ret None) (\<lambda>rep.
       let coid = map_option r_coid rep in
       bindE (if truthy coid then call (get_order (the coid)) else ret None) (\<lambda>od. case od of
         None \<Rightarrow> (let ours = truthy coid \<and> startswith (the coid) (own_prefix (sv_cfg sv)) in
           thenE (found (mm (if ours then ''UNKNOWN_BOT_FILL'' else ''FOREIGN_FILL'') (if ours then CRITICAL else WARNING) coid
                    [(''event_key'', JStr (xf_key xf)), (''exchange_order_id'', jopt JStr (xf_exid xf))]))
             (ret (fst acc, snd acc + 1)))
       | Some _ \<Rightarrow> thenE (call (service_apply_report sv (the rep) ''reconciliation''))
           (bindE (call (ingest_fill sv xf ''reconciliation'')) (\<lambda>new. ret (count_fill new acc))))))"

text \<open>The executed quantity of every order must be explained by its recorded fills.\<close>

definition check_explained :: "'x services \<Rightarrow> rat \<Rightarrow> order \<Rightarrow> ('x recon_ctx, unit) eff" where
  "check_explained sv tol od =
     (if o_executed od \<le> 0 \<or> o_status od = SUBMITTING then ret ()
      else bindE (call (fill_quantity od)) (\<lambda>have.
        if \<bar>dsub have (o_executed od)\<bar> \<le> tol then ret ()
        else thenE (call (ingest_order_fills sv (Some od)))
          (bindE (call (fill_quantity od)) (\<lambda>have.
             whenE (tol < \<bar>dsub have (o_executed od)\<bar>)
               (found (mm ''FILLS_INCOMPLETE'' CRITICAL (Some (o_coid od))
                  [(''executed'', JDec (o_executed od)), (''fills'', JDec have)]))))))"

text \<open>Steps 6 and 7: balances, position rebuild and sanity checks.\<close>

definition rebuild_position :: "'x services \<Rightarrow> symbol_rules \<Rightarrow> rat \<Rightarrow> string \<Rightarrow> ('x recon_ctx, position) eff" where
  "rebuild_position sv rules tol run_key = (let cfg = sv_cfg sv; symbol = SYMBOL cfg in
     bindE (call (ex_balances (sv_ex sv))) (\<lambda>balances.
     bindE (call (pos_get cfg symbol)) (\<lambda>before.
     bindE (call (pos_rebuild cfg symbol True)) (\<lambda>(rebuilt, anomalies).
     thenE (whenE (tol < \<bar>dsub (p_qty before) (p_qty rebuilt)\<bar>)
              (found ((mm ''POSITION_CORRECTED'' WARNING None [(''before'', JDec (p_qty before)), (''after'', JDec (p_qty rebuilt))])
                 \<lparr>mm_resolved := True\<rparr>)))
     (thenE (forE anomalies (\<lambda>a. found (mm ''POSITION_ANOMALY'' CRITICAL None [(''anomaly'', JStr a)])))
     (let base_total = total balances (sr_base rules) in
      thenE (whenE (tol < dsub (p_qty rebuilt) base_total)
               (found (mm ''BALANCE_BELOW_POSITION'' CRITICAL None
                  [(''position'', JDec (p_qty rebuilt)), (''base_balance'', JDec base_total)])))
      (thenE (summarise ''position_qty'' (JDec (p_qty rebuilt)))
      (thenE (summarise ''base_balance'' (JDec base_total))
      (thenE (summarise ''quote_balance'' (JDec (total balances (sr_quote rules))))
      (thenE (call (kv_set (balances_key cfg) (JObj (map (\<lambda>(k, b). (k, balance_entry b)) (bs_balances balances)))))
      (thenE (call (enqueue ''positions'' (''position:'' @ symbol @ '':recon:'' @ run_key) (position_payload rebuilt)))
        (ret rebuilt))))))))))))"

definition check_protective_stop :: "'x services \<Rightarrow> symbol_rules \<Rightarrow> position \<Rightarrow> ('x recon_ctx, unit) eff" where
  "check_protective_stop sv rules rebuilt =
     whenE (PROTECTIVE_STOP_MODE (sv_cfg sv) = ''exchange'' \<and> is_open rebuilt (Some rules))
       (bindE (call (non_terminal sv (Some (SYMBOL (sv_cfg sv))))) (\<lambda>ods.
          whenE (\<not> (\<exists>od\<in>set ods. o_purpose od = PROTECTIVE_STOP))
            (found (mm ''PROTECTIVE_STOP_MISSING'' WARNING None [(''position'', JDec (p_qty rebuilt))]))))"

definition list_own :: "'x services \<Rightarrow> ('x recon_ctx, order list) eff" where
  "list_own sv = call (list_orders (sv_bot sv) (Some (SYMBOL (sv_cfg sv))) 100)"

text \<open>The block of \<^verbatim>\<open>run\<close> under its \<^verbatim>\<open>try\<close>, in four parts.\<close>

definition recon_orders :: "'x services \<Rightarrow> ('x recon_ctx, time) eff" where
  "recon_orders sv = (let cfg = sv_cfg sv; symbol = SYMBOL cfg in
     bindE (call (non_terminal sv (Some symbol))) (\<lambda>local_open.
     thenE (summarise ''local_non_terminal_before'' (JInt (int (length local_open))))
     (bindE (call (ex_open_orders (sv_ex sv) symbol)) (\<lambda>exchange_open.
     thenE (summarise ''exchange_open_orders'' (JInt (int (length exchange_open))))
     (thenE (forE local_open (check_local sv))
     (bindE (call now) (\<lambda>t. let horizon = t - hours (RECENT_FILLS_LOOKBACK_HOURS cfg) in
     bindE (list_own sv) (\<lambda>orders.
     thenE (forE (recent_terminal horizon orders) (verify_terminal sv))
     (thenE (forE exchange_open (check_exchange_open sv)) (ret horizon))))))))))"

definition recon_fills :: "'x services \<Rightarrow> rat \<Rightarrow> time \<Rightarrow> time option \<Rightarrow> ('x recon_ctx, unit) eff" where
  "recon_fills sv tol horizon last_success =
     (let since = (case last_success of None \<Rightarrow> horizon | Some t \<Rightarrow> max horizon (t - seconds 600)) in
      bindE (call (ex_recent_fills (sv_ex sv) (SYMBOL (sv_cfg sv)) (now_ms since))) (\<lambda>xfs.
      bindE (foldE (recover_fill sv) xfs (0, 0)) (\<lambda>(new_fills, unknown).
      thenE (summarise ''recovered_fills'' (JInt new_fills))
      (thenE (summarise ''unknown_fills'' (JInt unknown))
      (bindE (list_own sv) (\<lambda>orders. forE orders (check_explained sv tol)))))))"

definition recon_body :: "'x services \<Rightarrow> time option \<Rightarrow> string \<Rightarrow> ('x recon_ctx, unit) eff" where
  "recon_body sv last_success run_key =
     bindE (call (ex_rules (sv_ex sv) (SYMBOL (sv_cfg sv)))) (\<lambda>rules. let tol = max (sr_step rules) (1 / 10 ^ 8) in
     bindE (recon_orders sv) (\<lambda>horizon.
     thenE (recon_fills sv tol horizon last_success)
     (bindE (rebuild_position sv rules tol run_key) (\<lambda>rebuilt.
     thenE (check_protective_stop sv rules rebuilt)
     (bindE (call (non_terminal sv (Some (SYMBOL (sv_cfg sv))))) (\<lambda>ods.
       summarise ''local_non_terminal_after'' (JInt (int (length ods)))))))))"

section \<open>A run\<close>

text \<open>\<^verbatim>\<open>type(exc).__name__\<close>; the class of an exception of code outside the repository is not known.\<close>

fun exn_name :: "exn \<Rightarrow> string" where
  "exn_name (IllegalTransition m) = ''IllegalTransition''"
| "exn_name (OrderConflict m) = ''OrderConflict''"
| "exn_name (ConcurrentModification m) = ''ConcurrentModification''"
| "exn_name (IntegrityError m) = ''IntegrityError''"
| "exn_name (ControlPlaneUnavailable m) = ''ControlPlaneUnavailable''"
| "exn_name (ControlPlaneRejected m) = ''ControlPlaneRejected''"
| "exn_name (ValueError m) = ''ValueError''"
| "exn_name (KeyError m) = ''KeyError''"
| "exn_name (AttributeError m) = ''AttributeError''"
| "exn_name (UnknownExchangeStatus m) = ''UnknownExchangeStatus''"
| "exn_name (RuntimeError m) = ''RuntimeError''"
| "exn_name (StaleConnection m) = ''StaleConnection''"
| "exn_name (SubscriptionFailed m) = ''SubscriptionFailed''"
| "exn_name (Other m) = ''Exception''"

definition mismatch_json :: "mismatch \<Rightarrow> jval" where
  "mismatch_json m = JObj [(''kind'', JStr (mm_kind m)), (''severity'', JStr (severity_value (mm_severity m))),
     (''client_order_id'', jopt JStr (mm_coid m)), (''detail'', JObj (mm_detail m)), (''resolved'', JBool (mm_resolved m))]"

definition persist_run :: "config \<Rightarrow> recon_result \<Rightarrow> string \<Rightarrow> time \<Rightarrow> ('x world, unit) eff" where
  "persist_run cfg res reason started =
     thenE (record_recon_run (rc_run_key res) (BOT_INSTANCE_ID cfg) reason (recon_value (rc_status res)) started
              (rc_summary res) (rc_mismatches res))
     (bindE now (\<lambda>t. thenE (enqueue ''reconciliation'' (''recon:'' @ rc_run_key res)
        [(''run_key'', JStr (rc_run_key res)), (''reason'', JStr reason), (''status'', JStr (recon_value (rc_status res))),
         (''detail'', JStr (rc_reason res)), (''started_at'', JTime started), (''finished_at'', JTime t),
         (''summary'', JObj (rc_summary res)), (''mismatches'', JArr (map mismatch_json (rc_mismatches res)))]) (ret ())))"

text \<open>The verdict of a run that could look at everything.\<close>

definition verdict :: "recon_state \<Rightarrow> bool \<Rightarrow> mismatch list \<Rightarrow> int \<Rightarrow> recon_status \<times> string" where
  "verdict previous operator_ack mms pending =
     (if critical mms \<noteq> [] then (HALTED, join ''; '' (sort (remdups (map mm_kind (critical mms)))))
      else if pending \<noteq> 0 then (RECONCILING, str_int pending @ '' ambiguous order(s) inside grace window'')
      else if rs_status previous = HALTED \<and> \<not> operator_ack
      then (HALTED, ''clean, awaiting operator acknowledgement (was HALTED: '' @ rs_reason previous @ '')'')
      else (HEALTHY, ''reconciled''))"

definition finish_run :: "config \<Rightarrow> recon_result \<Rightarrow> string \<Rightarrow> time \<Rightarrow> ('x world, recon_result) eff" where
  "finish_run cfg res reason started =
     thenE (persist_run cfg res reason started)
     (thenE (set_state cfg (rc_status res) (rc_reason res) (rc_status res = HEALTHY) id)
     (thenE (whenE (rc_status res = HALTED \<and> critical (rc_mismatches res) \<noteq> [])
        (enqueue_event (BOT_INSTANCE_ID cfg) ''RECONCILIATION_HALTED'' (rc_reason res) ''CRITICAL''
           [(''run_key'', JStr (rc_run_key res)), (''mismatches'', JArr (map mismatch_json (critical (rc_mismatches res))))]
           (Some (''halt:'' @ rc_run_key res)) True))
      (ret res)))"

definition failed_run :: "config \<Rightarrow> recon_result \<Rightarrow> string \<Rightarrow> time \<Rightarrow> ('x world, recon_result) eff" where
  "failed_run cfg res reason started =
     thenE (persist_run cfg res reason started)
     (thenE (set_state cfg (rc_status res) (rc_reason res) False id) (ret res))"

text \<open>\<open>nonce\<close> is the run's random \<^verbatim>\<open>uuid4().hex[:8]\<close>.\<close>

definition recon_run :: "'x services \<Rightarrow> string \<Rightarrow> string \<Rightarrow> bool \<Rightarrow> ('x world, recon_result) eff" where
  "recon_run sv nonce reason operator_ack = (let cfg = sv_cfg sv in
     bindE now (\<lambda>started.
     bindE (get_recon_state (BOT_INSTANCE_ID cfg)) (\<lambda>previous.
     let run_key = ''recon:'' @ BOT_INSTANCE_ID cfg @ '':'' @ iso started @ '':'' @ nonce in
     thenE (set_state cfg RECONCILING (''reconciling ('' @ reason @ '')'') False id)
       (\<lambda>w. case recon_body sv (rs_last_success previous) run_key
                  \<lparr>rx_world = w, rx_mismatches = [], rx_summary = [(''reason'', JStr reason)], rx_pending = 0\<rparr> of
          (Inl e, c) \<Rightarrow> failed_run cfg
             \<lparr>rc_status = DEGRADED, rc_reason = ''reconciliation failed: '' @ exn_name e @ '': '' @ take 200 (exn_str e),
              rc_mismatches = rx_mismatches c, rc_summary = rx_summary c, rc_run_key = run_key\<rparr> reason started (rx_world c)
        | (Inr _, c) \<Rightarrow> (case verdict previous operator_ack (rx_mismatches c) (rx_pending c) of (status, why) \<Rightarrow>
             finish_run cfg \<lparr>rc_status = status, rc_reason = why, rc_mismatches = rx_mismatches c,
               rc_summary = rx_summary c, rc_run_key = run_key\<rparr> reason started (rx_world c))))))"

section \<open>A run only advances the ledger\<close>

definition rx_le :: "'x recon_ctx \<Rightarrow> 'x recon_ctx \<Rightarrow> bool" where
  "rx_le c c' \<longleftrightarrow> advances (rx_world c) (rx_world c') \<and> prefix (rx_mismatches c) (rx_mismatches c')"

interpretation rx: step_preorder rx_le
  by unfold_locales (auto simp: rx_le_def intro: adv.P_refl adv.P_trans)

abbreviation rx_safe :: "('x recon_ctx, 'a) eff \<Rightarrow> bool" where
  "rx_safe \<equiv> keeps rx_le"

lemma rx_safe_call [keeps_intros]:
  fixes m :: "('x world, 'a) eff"
  assumes "safe m"
  shows "rx_safe (call m)"
proof (rule keepsI)
  fix c :: "'x recon_ctx"
  have "advances (rx_world c) (snd (m (rx_world c)))" by (rule keepsS [OF assms])
  then show "rx_le c (snd (call m c))" by (simp add: call_def rx_le_def case_prod_beta)
qed

lemma rx_safe_locals [keeps_intros]:
  "rx_safe (found m)" "rx_safe (summarise k v)" "rx_safe (updE (\<lambda>c :: 'x recon_ctx. c\<lparr>rx_pending := f c\<rparr>))"
  by (auto simp: keeps_def found_def summarise_def rx_le_def adv.P_refl)

lemma rx_safe_catch [keeps_intros]: "rx_safe m \<Longrightarrow> rx_safe (catch_conflict coid m)"
  unfolding catch_conflict_def by (intro rx.keeps_tryE) (auto split: exn.split intro!: keeps_intros)

lemma rx_safe_list_own [keeps_intros]: "rx_safe (list_own sv)" "rx_safe (check_exchange_open sv rep)"
  "rx_safe (call (non_terminal sv x))" "rx_safe (check_protective_stop sv rules p)" "safe (fill_quantity od)"
  unfolding list_own_def check_exchange_open_def non_terminal_def check_protective_stop_def Let_def fill_quantity_def
  by (intro keeps_intros)+

lemma safe_pos_reads [keeps_intros]: "safe (pos_get cfg symbol)" "safe (pos_rebuild cfg symbol persist)"
  unfolding pos_get_def pos_rebuild_def Let_def by (auto intro!: keeps_intros split: prod.split)

context execution
begin

lemma safe_recon_body:
  assumes sv: "sv_ex sv = ex"
  shows "rx_safe (recon_body sv last_success run_key)"
proof -
  note [keeps_intros] = safe_ingest_order_fills [OF sv] safe_refresh [OF sv] safe_resolve_ambiguous [OF sv]
  note calls = rules_safe query_safe query_by_id_safe open_orders_safe recent_fills_safe balances_safe
  have loc: "rx_safe (check_local sv od)" for od
    unfolding check_local_def by (intro keeps_intros)
  have ver: "rx_safe (verify_terminal sv od)" for od
    unfolding verify_terminal_def sv by (intro keeps_intros calls)
  have fill: "rx_safe (recover_fill sv xf acc)" for xf acc
    unfolding recover_fill_def sv Let_def by (intro keeps_intros calls)
  have expl: "rx_safe (check_explained sv tol od)" for tol od
    unfolding check_explained_def by (intro keeps_intros)
  have reb: "rx_safe (rebuild_position sv rules tol run_key)" for rules tol
    unfolding rebuild_position_def sv Let_def
    by (intro keeps_intros calls) (auto split: prod.split intro!: keeps_intros)
  have ords: "rx_safe (recon_orders sv)"
    unfolding recon_orders_def sv Let_def by (intro keeps_intros calls loc ver)
  have fills: "rx_safe (recon_fills sv tol horizon last_success)" for tol horizon
    unfolding recon_fills_def sv Let_def
    by (intro keeps_intros calls fill) (auto split: prod.split intro!: keeps_intros expl)
  show ?thesis
    unfolding recon_body_def Let_def by (intro keeps_intros reb ords fills) (simp add: sv calls)
qed

end

lemma safe_set_state [keeps_intros]: "safe (set_state cfg st reason success flags)"
  unfolding set_state_def Let_def by (intro keeps_intros)

lemma safe_run_ends [keeps_intros]:
  "safe (persist_run cfg res reason started)" "safe (finish_run cfg res reason started)" "safe (failed_run cfg res reason started)"
  unfolding finish_run_def failed_run_def persist_run_def by (intro keeps_intros)+

text \<open>How a run goes: its first state, what the body left, and the verdict.\<close>

definition run_key_of :: "config \<Rightarrow> string \<Rightarrow> time \<Rightarrow> string" where
  "run_key_of cfg nonce started = ''recon:'' @ BOT_INSTANCE_ID cfg @ '':'' @ iso started @ '':'' @ nonce"

definition run_started :: "config \<Rightarrow> string \<Rightarrow> 'x world \<Rightarrow> 'x world" where
  "run_started cfg reason w = snd (set_state cfg RECONCILING (''reconciling ('' @ reason @ '')'') False id w)"

definition run_ctx :: "'x services \<Rightarrow> string \<Rightarrow> 'x world \<Rightarrow> 'x recon_ctx" where
  "run_ctx sv reason w = \<lparr>rx_world = run_started (sv_cfg sv) reason w, rx_mismatches = [],
     rx_summary = [(''reason'', JStr reason)], rx_pending = 0\<rparr>"

lemma save_recon_result:
  "save_recon_state st w = (Inr (), w\<lparr>db := (db w)\<lparr>d_recon := upsert rs_bot (st\<lparr>rs_updated := Some (clk w)\<rparr>) (d_recon (db w))\<rparr>\<rparr>)"
  by (simp add: save_recon_state_def transaction_def Let_def)

lemma set_state_result:
  "\<exists>st'. set_state cfg status reason success flags w = (Inr st', w\<lparr>db := (db w)\<lparr>d_recon := upsert rs_bot (st'\<lparr>rs_updated := Some (clk w)\<rparr>) (d_recon (db w))\<rparr>\<rparr>)
     \<and> st' = flags ((recon_state_of (BOT_INSTANCE_ID cfg) (db w))\<lparr>rs_status := status, rs_reason := reason,
          rs_last_success := (if success then Some (clk w) else rs_last_success (recon_state_of (BOT_INSTANCE_ID cfg) (db w)))\<rparr>)"
proof -
  have "set_state cfg status reason success flags w = (Inr (flags ((recon_state_of (BOT_INSTANCE_ID cfg) (db w))\<lparr>rs_status := status, rs_reason := reason,
          rs_last_success := (if success then Some (clk w) else rs_last_success (recon_state_of (BOT_INSTANCE_ID cfg) (db w)))\<rparr>)),
     w\<lparr>db := (db w)\<lparr>d_recon := upsert rs_bot ((flags ((recon_state_of (BOT_INSTANCE_ID cfg) (db w))\<lparr>rs_status := status, rs_reason := reason,
          rs_last_success := (if success then Some (clk w) else rs_last_success (recon_state_of (BOT_INSTANCE_ID cfg) (db w)))\<rparr>))
            \<lparr>rs_updated := Some (clk w)\<rparr>) (d_recon (db w))\<rparr>\<rparr>)"
    by (cases success) (simp_all add: set_state_def get_recon_state_def Let_def thenE_def bindE_apply save_recon_result)
  then show ?thesis by blast
qed

lemma recon_run_eq:
  "recon_run sv nonce reason ack w =
     (case recon_body sv (rs_last_success (recon_state_of (sv_bot sv) (db w))) (run_key_of (sv_cfg sv) nonce (clk w)) (run_ctx sv reason w) of
          (Inl e, c) \<Rightarrow> failed_run (sv_cfg sv)
             \<lparr>rc_status = DEGRADED, rc_reason = ''reconciliation failed: '' @ exn_name e @ '': '' @ take 200 (exn_str e),
              rc_mismatches = rx_mismatches c, rc_summary = rx_summary c, rc_run_key = run_key_of (sv_cfg sv) nonce (clk w)\<rparr>
             reason (clk w) (rx_world c)
        | (Inr _, c) \<Rightarrow> (case verdict (recon_state_of (sv_bot sv) (db w)) ack (rx_mismatches c) (rx_pending c) of (status, why) \<Rightarrow>
             finish_run (sv_cfg sv) \<lparr>rc_status = status, rc_reason = why, rc_mismatches = rx_mismatches c,
               rc_summary = rx_summary c, rc_run_key = run_key_of (sv_cfg sv) nonce (clk w)\<rparr> reason (clk w) (rx_world c)))"
proof -
  obtain st where st: "set_state (sv_cfg sv) RECONCILING (''reconciling ('' @ reason @ '')'') False id w = (Inr st, run_started (sv_cfg sv) reason w)"
    unfolding run_started_def using set_state_result [of "sv_cfg sv" RECONCILING _ False id w] by (metis snd_conv)
  show ?thesis
    by (simp only: recon_run_def Let_def get_recon_state_def thenE_def bindE_apply now_apply db_get_apply st prod.case sum.case
        run_ctx_def run_key_of_def)
qed

lemma recon_run_cases:
  obtains (failed) e c res where
      "recon_body sv (rs_last_success (recon_state_of (sv_bot sv) (db w))) (run_key_of (sv_cfg sv) nonce (clk w)) (run_ctx sv reason w) = (Inl e, c)"
      "recon_run sv nonce reason ack w = failed_run (sv_cfg sv) res reason (clk w) (rx_world c)" "rc_status res = DEGRADED"
      "rc_mismatches res = rx_mismatches c" "rc_run_key res = run_key_of (sv_cfg sv) nonce (clk w)"
  | (finished) c res where
      "recon_body sv (rs_last_success (recon_state_of (sv_bot sv) (db w))) (run_key_of (sv_cfg sv) nonce (clk w)) (run_ctx sv reason w) = (Inr (), c)"
      "recon_run sv nonce reason ack w = finish_run (sv_cfg sv) res reason (clk w) (rx_world c)"
      "(rc_status res, rc_reason res) = verdict (recon_state_of (sv_bot sv) (db w)) ack (rx_mismatches c) (rx_pending c)"
      "rc_mismatches res = rx_mismatches c" "rc_run_key res = run_key_of (sv_cfg sv) nonce (clk w)"
proof (cases "recon_body sv (rs_last_success (recon_state_of (sv_bot sv) (db w))) (run_key_of (sv_cfg sv) nonce (clk w)) (run_ctx sv reason w)")
  case (Pair r c)
  show thesis
  proof (cases r)
    case (Inl e)
    show thesis by (rule failed [OF Pair [unfolded Inl]], unfold recon_run_eq Pair Inl prod.case sum.case) (rule refl, simp_all)
  next
    case (Inr u)
    obtain status why where v: "verdict (recon_state_of (sv_bot sv) (db w)) ack (rx_mismatches c) (rx_pending c) = (status, why)"
      by (cases "verdict (recon_state_of (sv_bot sv) (db w)) ack (rx_mismatches c) (rx_pending c)")
    have P: "recon_body sv (rs_last_success (recon_state_of (sv_bot sv) (db w))) (run_key_of (sv_cfg sv) nonce (clk w)) (run_ctx sv reason w) = (Inr (), c)"
      using Pair Inr by simp
    show thesis by (rule finished [OF P], unfold recon_run_eq P v prod.case sum.case) (rule refl, simp_all)
  qed
qed

text \<open>The exceptions a call may end with.\<close>

definition raises_only :: "(exn \<Rightarrow> bool) \<Rightarrow> ('s, 'a) eff \<Rightarrow> bool" where
  "raises_only P m \<longleftrightarrow> (\<forall>s e. fst (m s) = Inl e \<longrightarrow> P e)"

definition is_integrity :: "exn \<Rightarrow> bool" where
  "is_integrity e \<longleftrightarrow> (\<exists>m. e = IntegrityError m)"

lemma safe_recon_run:
  assumes "execution (sv_ex sv)"
  shows "safe (recon_run sv nonce reason ack)"
proof (rule keepsI)
  have body: "rx_safe (recon_body sv last_success run_key)" for last_success run_key
    using execution.safe_recon_body [OF assms refl] .
  fix w
  have "advances w (rx_world (run_ctx sv reason w))"
    unfolding run_ctx_def run_started_def by (simp add: keepsS [OF safe_set_state])
  then have step: "advances w (rx_world c)"
    if "recon_body sv (rs_last_success (recon_state_of (sv_bot sv) (db w))) (run_key_of (sv_cfg sv) nonce (clk w)) (run_ctx sv reason w) = (r, c)"
    for r c
    using keepsD [OF body that] by (auto simp: rx_le_def intro: adv.P_trans)
  show "advances w (snd (recon_run sv nonce reason ack w))"
  proof (cases rule: recon_run_cases [of sv w nonce reason ack])
    case (failed e c res)
    show ?thesis unfolding failed(2) by (rule adv.P_trans [OF step [OF failed(1)]], rule keepsS, intro keeps_intros)
  next
    case (finished c res)
    show ?thesis unfolding finished(2) by (rule adv.P_trans [OF step [OF finished(1)]], rule keepsS, intro keeps_intros)
  qed
qed

text \<open>
  C12: reconciliation never damages the ledger. For every executor that satisfies its contract, whatever the
  exchange answers and whether the run succeeds or fails half way, a run keeps the uniqueness
  invariant, removes no record and moves no order backwards; and it reports the failures of the exchange as
  DEGRADED instead of raising: the only exception a run raises itself is a duplicate run key.
\<close>

theorem recon_run_contained:
  assumes "execution (sv_ex sv)"
  shows "safe (recon_run sv nonce reason ack) \<and> raises_only is_integrity (recon_run sv nonce reason ack)"
  unfolding raises_only_def is_integrity_def
proof (intro conjI allI impI)
  show "safe (recon_run sv nonce reason ack)" by (rule safe_recon_run [OF assms])
  have persist: "\<exists>m. e = IntegrityError m" if "fst (persist_run cfg res reason started v) = Inl e" for cfg res started v e
    using that by (auto simp: persist_run_def record_recon_run_def transaction_def Let_def thenE_def bindE_apply enqueue_result
        split: if_splits)
  have ev: "\<exists>v'. enqueue_event b ty msg sev p k al v = (Inr (), v')" for b ty msg sev p k al v
    by (auto simp: enqueue_event_def Let_def thenE_def bindE_apply enqueue_result whenE_def)
  have st: "\<exists>st' v'. set_state cfg st msg ok flags v = (Inr st', v')" for cfg st msg ok flags v
    using set_state_result by blast
  have "\<exists>m. e = IntegrityError m" if "fst (finish_run cfg res reason started v) = Inl e" for cfg res started v e
  proof (cases "persist_run cfg res reason started v")
    case (Pair r v')
    have "fst (thenE (set_state cfg (rc_status res) (rc_reason res) (rc_status res = HEALTHY) id)
       (thenE (whenE b (enqueue_event bot ty msg sev p k al)) (ret res)) v') = Inr res" for b bot ty msg sev p k al
    proof -
      obtain s1 v1 where "set_state cfg (rc_status res) (rc_reason res) (rc_status res = HEALTHY) id v' = (Inr s1, v1)" using st by blast
      moreover obtain v2 where "enqueue_event bot ty msg sev p k al v1 = (Inr (), v2)" using ev by blast
      ultimately show ?thesis by (cases b) (simp_all add: thenE_def bindE_apply)
    qed
    then show ?thesis using that Pair persist [of cfg res started v]
      by (cases r) (simp_all add: finish_run_def thenE_def bindE_apply)
  qed
  moreover have "\<exists>m. e = IntegrityError m" if "fst (failed_run cfg res reason started v) = Inl e" for cfg res started v e
  proof (cases "persist_run cfg res reason started v")
    case (Pair r v')
    obtain s1 v1 where "set_state cfg (rc_status res) (rc_reason res) False id v' = (Inr s1, v1)" using st by blast
    then show ?thesis using that Pair persist [of cfg res started v]
      by (cases r) (simp_all add: failed_run_def thenE_def bindE_apply)
  qed
  ultimately show "\<exists>m. e = IntegrityError m" if "fst (recon_run sv nonce reason ack w) = Inl e" for w e
    using that by (cases rule: recon_run_cases [of sv w nonce reason ack]) auto
qed

theorem recon_run_contained_witness:
  "safe (recon_run demo_services ''0123abcd'' ''startup'' False)
   \<and> raises_only is_integrity (recon_run demo_services ''0123abcd'' ''startup'' False)"
  using recon_run_contained [OF demo_execution] by blast

section \<open>The verdict\<close>

lemma recon_state_of_upsert: "rs_bot st = b \<Longrightarrow> recon_state_of b (d\<lparr>d_recon := upsert rs_bot st (d_recon d)\<rparr>) = st"
  by (simp add: recon_state_of_def find_upsert)

lemma recon_state_bot [simp]: "rs_bot (recon_state_of b d) = b"
  by (auto simp: recon_state_of_def split: option.splits dest: find_SomeD)

lemma set_state_saved:
  assumes "\<And>st. rs_bot (flags st) = rs_bot st" "set_state cfg status reason success flags w = (Inr st, w')"
  shows "recon_state_of (BOT_INSTANCE_ID cfg) (db w') = st\<lparr>rs_updated := Some (clk w)\<rparr>"
    and "st = flags ((recon_state_of (BOT_INSTANCE_ID cfg) (db w))\<lparr>rs_status := status, rs_reason := reason,
          rs_last_success := (if success then Some (clk w) else rs_last_success (recon_state_of (BOT_INSTANCE_ID cfg) (db w)))\<rparr>)"
    and "depth w' = depth w"
  using set_state_result [of cfg status reason success flags w] assms
  by (auto intro!: recon_state_of_upsert)

definition same_recon :: "ledger \<Rightarrow> ledger \<Rightarrow> bool" where
  "same_recon d d' \<longleftrightarrow> d_recon d' = d_recon d"

interpretation state_kept: ledger_preorder same_recon
  by unfold_locales (auto simp: same_recon_def)

lemma enqueue_event_recon: "keeps (\<lambda>w w'. same_recon (db w) (db w')) (enqueue_event b ty m sev p k al)"
proof -
  have q: "keeps (\<lambda>w w'. same_recon (db w) (db w')) (enqueue kind key payload)" for kind key payload
    by (rule keepsI) (simp add: enqueue_result same_recon_def)
  show ?thesis
    unfolding enqueue_event_def Let_def
    by (intro state_kept.world.keeps_bindE state_kept.world.keeps_thenE state_kept.world.keeps_whenE state_kept.keeps_now
        state_kept.world.keeps_ret q)
qed

text \<open>What the ends of a run leave in the state row and, for a halt, in the outbox.\<close>

lemma failed_run_saved:
  assumes "failed_run cfg res reason started w = (Inr x, w')"
  shows "x = res" "rs_status (recon_state_of (BOT_INSTANCE_ID cfg) (db w')) = rc_status res"
    "rs_reason (recon_state_of (BOT_INSTANCE_ID cfg) (db w')) = rc_reason res"
proof -
  obtain v st where "set_state cfg (rc_status res) (rc_reason res) False id v = (Inr st, w')" "x = res"
    using assms unfolding failed_run_def by (elim thenE_InrE thenE_ret_InrE) (rule that)
  then show "x = res" "rs_status (recon_state_of (BOT_INSTANCE_ID cfg) (db w')) = rc_status res"
    "rs_reason (recon_state_of (BOT_INSTANCE_ID cfg) (db w')) = rc_reason res"
    using set_state_saved [of id cfg "rc_status res" "rc_reason res" False v st w'] by simp_all
qed

lemma finish_run_saved:
  assumes "finish_run cfg res reason started w = (Inr x, w')"
  shows "x = res" "rs_status (recon_state_of (BOT_INSTANCE_ID cfg) (db w')) = rc_status res"
    "rs_reason (recon_state_of (BOT_INSTANCE_ID cfg) (db w')) = rc_reason res"
    "rc_status res = HALTED \<Longrightarrow> critical (rc_mismatches res) \<noteq> [] \<Longrightarrow>
      {''halt:'' @ rc_run_key res, ''tg:'' @ ''halt:'' @ rc_run_key res} \<subseteq> ob_key ` set (d_outbox (db w'))"
proof -
  let ?alert = "whenE (rc_status res = HALTED \<and> critical (rc_mismatches res) \<noteq> [])
        (enqueue_event (BOT_INSTANCE_ID cfg) ''RECONCILIATION_HALTED'' (rc_reason res) ''CRITICAL''
           [(''run_key'', JStr (rc_run_key res)), (''mismatches'', JArr (map mismatch_json (critical (rc_mismatches res))))]
           (Some (''halt:'' @ rc_run_key res)) True)"
  obtain v st v1 u where s: "set_state cfg (rc_status res) (rc_reason res) (rc_status res = HEALTHY) id v = (Inr st, v1)"
    and al: "?alert v1 = (Inr u, w')" and x: "x = res"
    using assms unfolding finish_run_def by (elim thenE_InrE thenE_ret_InrE) (rule that)
  show "x = res" by (rule x)
  have "same_recon (db v1) (db w')"
    using keepsD [where P = "\<lambda>w w'. same_recon (db w) (db w')", OF state_kept.world.keeps_whenE [OF enqueue_event_recon] al] .
  then have same: "recon_state_of b (db w') = recon_state_of b (db v1)" for b
    by (simp add: same_recon_def recon_state_of_def)
  show "rs_status (recon_state_of (BOT_INSTANCE_ID cfg) (db w')) = rc_status res"
    "rs_reason (recon_state_of (BOT_INSTANCE_ID cfg) (db w')) = rc_reason res"
    using set_state_saved [OF _ s] by (simp_all add: same)
  assume h: "rc_status res = HALTED" "critical (rc_mismatches res) \<noteq> []"
  have "truthy (Some (''halt:'' @ rc_run_key res))" by (simp add: truthy_def)
  then obtain w2 where w2: "enqueue_event (BOT_INSTANCE_ID cfg) ''RECONCILIATION_HALTED'' (rc_reason res) ''CRITICAL''
           [(''run_key'', JStr (rc_run_key res)), (''mismatches'', JArr (map mismatch_json (critical (rc_mismatches res))))]
           (Some (''halt:'' @ rc_run_key res)) True v1 = (Inr (), w2)"
    "{''halt:'' @ rc_run_key res, ''tg:'' @ ''halt:'' @ rc_run_key res} \<subseteq> ob_key ` set (d_outbox (db w2))"
    using enqueue_event_alert [of "''halt:'' @ rc_run_key res"] by metis
  have "w' = w2" using al w2(1) h by (simp only: whenE_def simp_thms if_True prod.inject)
  then show "{''halt:'' @ rc_run_key res, ''tg:'' @ ''halt:'' @ rc_run_key res} \<subseteq> ob_key ` set (d_outbox (db w'))"
    using w2(2) by (simp only:)
qed


section \<open>The HALTED state does not survive a failed run\<close>

text \<open>Services whose exchange cannot be reached, and a run on an account without orders and fills.\<close>

definition offline :: "'x services \<Rightarrow> 'x services" where
  "offline sv = sv\<lparr>sv_ex := (sv_ex sv)\<lparr>ex_rules := (\<lambda>symbol. raise (Other ''timeout''))\<rparr>\<rparr>"

lemma offline_run:
  "\<exists>res. recon_run (offline sv) nonce reason ack w = failed_run (sv_cfg sv) res reason (clk w) (run_started (sv_cfg sv) reason w)
     \<and> rc_status res = DEGRADED \<and> rc_run_key res = run_key_of (sv_cfg sv) nonce (clk w)"
proof -
  have b: "recon_body (offline sv) l k (run_ctx (offline sv) reason w) = (Inl (Other ''timeout''), run_ctx (offline sv) reason w)" for l k
    by (simp add: offline_def recon_body_def call_def bindE_apply)
  have c: "sv_cfg (offline sv) = sv_cfg sv" "rx_world (run_ctx (offline sv) reason w) = run_started (sv_cfg sv) reason w"
    by (simp_all add: offline_def run_ctx_def)
  show ?thesis
    by (cases rule: recon_run_cases [of "offline sv" w nonce reason ack]) (use b c in \<open>auto simp: recon_run_eq\<close>)
qed

definition no_books :: "ledger \<Rightarrow> bool" where
  "no_books d \<longleftrightarrow> d_orders d = [] \<and> d_fills d = [] \<and> d_positions d = []"

lemma recon_orders_empty:
  "no_books (db (rx_world c)) \<Longrightarrow> \<exists>h c'. recon_orders demo_services c = (Inr h, c') \<and> rx_world c' = rx_world c
     \<and> rx_mismatches c' = rx_mismatches c \<and> rx_pending c' = rx_pending c"
  by (simp add: recon_orders_def demo_services_def paper_executor_def call_def bindE_apply thenE_def summarise_def
      non_terminal_def non_terminal_orders_def no_books_def list_own_def list_orders_def recent_terminal_def Let_def)

lemma recon_fills_empty:
  "no_books (db (rx_world c)) \<Longrightarrow> \<exists>c'. recon_fills demo_services tol h ls c = (Inr (), c') \<and> rx_world c' = rx_world c
     \<and> rx_mismatches c' = rx_mismatches c \<and> rx_pending c' = rx_pending c"
  by (simp add: recon_fills_def demo_services_def paper_executor_def call_def bindE_apply thenE_def summarise_def
      no_books_def list_own_def list_orders_def Let_def)

lemma persist_run_new:
  assumes "rc_run_key res \<notin> rr_key ` set (d_runs (db w))"
  shows "\<exists>w'. persist_run cfg res reason started w = (Inr (), w') \<and> rr_key ` set (d_runs (db w')) = insert (rc_run_key res) (rr_key ` set (d_runs (db w)))
     \<and> same_books (db w) (db w') \<and> clk w' = clk w"
  using assms by (auto simp: persist_run_def record_recon_run_def transaction_def Let_def thenE_def bindE_apply enqueue_result
      same_books_def)

lemma rebuild_empty:
  assumes "no_books (db (rx_world c))"
  shows "\<exists>p c'. rebuild_position demo_services demo_rules (1 / 10 ^ 8) key c = (Inr p, c')
     \<and> rx_mismatches c' = rx_mismatches c \<and> rx_pending c' = rx_pending c \<and> d_orders (db (rx_world c')) = []
     \<and> d_runs (db (rx_world c')) = d_runs (db (rx_world c))"
proof -
  have z: "dsub 0 0 = 0" "dadd 0 0 = 0" by (simp_all add: dsub_def dadd_def dec.R_eq_zero)
  have sp: "assets ''BTC/USDT'' = Inr (''BTC'', ''USDT'')" by code_simp
  have cfg: "SYMBOL demo_config = ''BTC/USDT''" "BOT_INSTANCE_ID demo_config = ''bot''" by (simp_all add: demo_config_def)
  have pos: "position_of ''bot'' s d = new_position ''bot'' s" if "d_positions d = []" for s d
    using that by (simp add: position_of_def)
  have q: "p_qty (new_position b s) = 0" for b s by (simp add: new_position_def)
  have reb: "\<exists>p w'. pos_rebuild demo_config ''BTC/USDT'' True w = (Inr (p, []), w') \<and> p_qty p = 0
       \<and> d_orders (db w') = [] \<and> d_runs (db w') = d_runs (db w)" if "no_books (db w)" for w :: "unit world"
    using that by (simp add: pos_rebuild_def get_position_def cfg pos no_books_def list_fills_def fills_of_def bindE_apply Let_def
        q objE_def save_position_result)
  have bal: "\<exists>b. ex_balances (sv_ex demo_services) w = (Inr b, w) \<and> total b ''BTC'' = 0" if "no_books (db w)" for w :: "unit world"
    using that by (simp add: demo_services_def paper_executor_def paper_balance_snapshot_def paper_balances_def paper_cash_def cfg sp
        list_fills_def fills_of_def no_books_def bindE_apply pos_get_def get_position_def pos q total_def z)
  let ?w = "rx_world c"
  obtain b where b: "ex_balances (sv_ex demo_services) ?w = (Inr b, ?w)" "total b ''BTC'' = 0" using bal [OF assms] by blast
  obtain p w' where p: "pos_rebuild demo_config ''BTC/USDT'' True ?w = (Inr (p, []), w')" "p_qty p = 0" "d_orders (db w') = []"
      "d_runs (db w') = d_runs (db ?w)"
    using reb [OF assms] by blast
  have g: "pos_get demo_config ''BTC/USDT'' ?w = (Inr (new_position ''bot'' ''BTC/USDT''), ?w)"
    using assms by (simp add: pos_get_def get_position_def cfg pos no_books_def)
  have sv: "sv_cfg demo_services = demo_config" "sr_base demo_rules = ''BTC''" by (simp_all add: demo_services_def demo_rules_def)
  show ?thesis
    by (simp add: rebuild_position_def sv cfg call_def bindE_apply thenE_def b p g q z Let_def summarise_def kv_set_def transaction_def
        enqueue_result split: prod.split)
qed

lemma clean_body:
  fixes c :: "unit recon_ctx"
  assumes "no_books (db (rx_world c))" "rx_mismatches c = []" "rx_pending c = 0"
  shows "\<exists>c'. recon_body demo_services since key c = (Inr (), c') \<and> rx_mismatches c' = [] \<and> rx_pending c' = 0
    \<and> d_runs (db (rx_world c')) = d_runs (db (rx_world c))"
proof -
  have sv: "sv_cfg demo_services = demo_config" "BOT_INSTANCE_ID demo_config = ''bot''" "SYMBOL demo_config = ''BTC/USDT''"
    "PROTECTIVE_STOP_MODE demo_config = ''software''" by (simp_all add: demo_services_def demo_config_def)
  let ?w = "rx_world c"
  have sp: "assets ''BTC/USDT'' = Inr (''BTC'', ''USDT'')" "remove_char (CHR ''/'') ''BTC/USDT'' = ''BTCUSDT''" by code_simp+
  have r0: "call (ex_rules (sv_ex demo_services) ''BTC/USDT'') c = (Inr demo_rules, c)"
    by (simp add: call_def demo_services_def paper_executor_def paper_symbol_rules_def sp demo_rules_def)
  obtain h c1 where c1: "recon_orders demo_services c = (Inr h, c1)" "rx_world c1 = ?w" "rx_mismatches c1 = []" "rx_pending c1 = 0"
    using recon_orders_empty [of c] assms by metis
  obtain c2 where c2: "recon_fills demo_services (1 / 10 ^ 8) h since c1 = (Inr (), c2)" "rx_world c2 = ?w" "rx_mismatches c2 = []" "rx_pending c2 = 0"
    using recon_fills_empty [of c1 "1 / 10 ^ 8" h since] assms(1) c1 by metis
  obtain p c3 where c3: "rebuild_position demo_services demo_rules (1 / 10 ^ 8) key c2 = (Inr p, c3)" "rx_mismatches c3 = []"
    "rx_pending c3 = 0" "d_orders (db (rx_world c3)) = []" "d_runs (db (rx_world c3)) = d_runs (db ?w)"
    using rebuild_empty [of c2 key] assms(1) c2 by metis
  have tol: "max (sr_step demo_rules) (1 / 10 ^ 8) = 1 / 10 ^ 8" by (simp add: demo_rules_def)
  have stop: "check_protective_stop demo_services demo_rules p c3 = (Inr (), c3)"
    by (simp add: check_protective_stop_def sv)
  have non: "call (non_terminal demo_services (Some ''BTC/USDT'')) c3 = (Inr [], c3)"
    using c3(4) by (simp add: call_def non_terminal_def non_terminal_orders_def)
  have "recon_body demo_services since key c = summarise ''local_non_terminal_after'' (JInt 0) c3"
    by (simp only: recon_body_def Let_def bindE_apply thenE_def sv r0 tol c1(1) c2(1) [unfolded sv] c3(1) [unfolded sv(1)] stop non prod.case sum.case
        list.size of_nat_0)
  then show ?thesis using c3 by (simp add: summarise_def)
qed

lemma clean_run:
  fixes w :: "unit world"
  assumes "no_books (db w)" "run_key_of demo_config nonce (clk w) \<notin> rr_key ` set (d_runs (db w))"
    and "rs_status (recon_state_of ''bot'' (db w)) = HALTED \<longrightarrow> ack"
  shows "\<exists>res w'. recon_run demo_services nonce reason ack w = (Inr res, w') \<and> rc_status res = HEALTHY"
proof -
  let ?l = "rs_last_success (recon_state_of (sv_bot demo_services) (db w))" and ?k = "run_key_of (sv_cfg demo_services) nonce (clk w)"
  have sv: "sv_cfg demo_services = demo_config" "BOT_INSTANCE_ID demo_config = ''bot''" by (simp_all add: demo_services_def demo_config_def)
  let ?c0 = "run_ctx demo_services reason w"
  have c0: "no_books (db (rx_world ?c0))" "d_runs (db (rx_world ?c0)) = d_runs (db w)" "rx_mismatches ?c0 = []" "rx_pending ?c0 = 0"
    using set_state_result [of demo_config RECONCILING "''reconciling ('' @ reason @ '')''" False id w] assms(1)
    by (auto simp: run_ctx_def run_started_def no_books_def sv)
  obtain c where c: "recon_body demo_services ?l ?k ?c0 = (Inr (), c)" "rx_mismatches c = []" "rx_pending c = 0"
    "d_runs (db (rx_world c)) = d_runs (db w)" using clean_body [OF c0(1,3,4), of ?l ?k] c0(2) by auto
  have v: "verdict (recon_state_of (sv_bot demo_services) (db w)) ack [] 0 = (HEALTHY, ''reconciled'')"
    using assms(3) by (simp add: verdict_def critical_def sv)
  let ?res = "\<lparr>rc_status = HEALTHY, rc_reason = ''reconciled'', rc_mismatches = [], rc_summary = rx_summary c, rc_run_key = ?k\<rparr>"
  have "recon_run demo_services nonce reason ack w = finish_run demo_config ?res reason (clk w) (rx_world c)"
    unfolding recon_run_eq c(1) by (simp only: c(2,3) v [unfolded sv(1)] prod.case sum.case sv(1))
  moreover have "rc_run_key ?res \<notin> rr_key ` set (d_runs (db (rx_world c)))" using assms(2) c(4) sv(1) by simp
  then obtain w1 where "persist_run demo_config ?res reason (clk w) (rx_world c) = (Inr (), w1)"
    using persist_run_new by blast
  moreover obtain st w2 where "set_state demo_config HEALTHY ''reconciled'' True id w1 = (Inr st, w2)" using set_state_result by blast
  ultimately show ?thesis by (intro exI [of _ ?res] exI [of _ w2]) (simp add: finish_run_def thenE_def bindE_apply)
qed

definition halted_world :: "unit world" where
  "halted_world = \<lparr>db = empty_ledger\<lparr>d_recon := [\<lparr>rs_bot = ''bot'', rs_status = HALTED, rs_reason = ''FILLS_INCOMPLETE'', rs_updated = Some 0,
     rs_last_success = None, rs_ws_connected = True, rs_last_ws_event = None, rs_last_ack = None\<rparr>]\<rparr>, depth = 0, clk = 0, ext = ()\<rparr>"

text \<open>
  C24: a failed run forgets the halt. An account in the state HALTED, which only an operator's acknowledgement
  should release, is reconciled twice without acknowledgement: the first run fails on a network error and
  leaves DEGRADED, the second finds nothing wrong and, the previous state no longer being
  HALTED, declares the account HEALTHY.
\<close>

theorem halt_latch_lost:
  "\<exists>r1 w1 r2 w2. recon_run (offline demo_services) ''n1'' ''periodic'' False halted_world = (Inr r1, w1)
     \<and> recon_run demo_services ''n2'' ''periodic'' False w1 = (Inr r2, w2)
     \<and> rs_status (recon_state_of ''bot'' (db halted_world)) = HALTED \<and> rs_status (recon_state_of ''bot'' (db w1)) = DEGRADED
     \<and> rs_status (recon_state_of ''bot'' (db w2)) = HEALTHY"
proof -
  have sv: "sv_cfg demo_services = demo_config" "BOT_INSTANCE_ID demo_config = ''bot''" "sv_cfg (offline demo_services) = demo_config"
    by (simp_all add: demo_services_def demo_config_def offline_def)
  let ?w0 = "run_started demo_config ''periodic'' halted_world"
  obtain r1 where r1: "recon_run (offline demo_services) ''n1'' ''periodic'' False halted_world = failed_run demo_config r1 ''periodic'' 0 ?w0"
    "rc_status r1 = DEGRADED" "rc_run_key r1 = run_key_of demo_config ''n1'' 0"
    using offline_run [of demo_services "''n1''" "''periodic''" False halted_world] by (auto simp: sv halted_world_def)
  have w0: "d_runs (db ?w0) = []" "no_books (db ?w0)" "clk ?w0 = 0"
    using set_state_result [of demo_config RECONCILING "''reconciling ('' @ ''periodic'' @ '')''" False id halted_world]
    by (auto simp: run_started_def no_books_def halted_world_def empty_ledger_def)
  then obtain v where v: "persist_run demo_config r1 ''periodic'' 0 ?w0 = (Inr (), v)" "rr_key ` set (d_runs (db v)) = {run_key_of demo_config ''n1'' 0}"
    "no_books (db v)" "clk v = 0"
    using persist_run_new [of r1 ?w0 demo_config "''periodic''" 0] r1(3) by (auto simp: same_books_def no_books_def)
  obtain st w1 where w1: "set_state demo_config (rc_status r1) (rc_reason r1) False id v = (Inr st, w1)"
    "rr_key ` set (d_runs (db w1)) = {run_key_of demo_config ''n1'' 0}" "no_books (db w1)" "clk w1 = 0"
    using set_state_result [of demo_config "rc_status r1" "rc_reason r1" False id v] v by (auto simp: no_books_def)
  have f: "failed_run demo_config r1 ''periodic'' 0 ?w0 = (Inr r1, w1)"
    using v w1 by (simp add: failed_run_def thenE_def bindE_apply)
  have st1: "rs_status (recon_state_of ''bot'' (db w1)) = DEGRADED" using failed_run_saved(2) [OF f] r1(2) by (simp add: sv)
  have "run_key_of demo_config ''n2'' (clk w1) \<notin> rr_key ` set (d_runs (db w1))" using w1 by (simp add: run_key_of_def)
  then obtain r2 w2 where r2: "recon_run demo_services ''n2'' ''periodic'' False w1 = (Inr r2, w2)" "rc_status r2 = HEALTHY"
    using clean_run [OF w1(3), of "''n2''" False "''periodic''"] st1 by auto
  have "rs_status (recon_state_of ''bot'' (db w2)) = HEALTHY"
  proof (cases rule: recon_run_cases [of demo_services w1 "''n2''" "''periodic''" False])
    case (failed e c res)
    then show ?thesis using r2 failed_run_saved [of "sv_cfg demo_services" res "''periodic''" "clk w1" "rx_world c" r2 w2] by (simp add: sv)
  next
    case (finished c res)
    then show ?thesis using r2 finish_run_saved [of "sv_cfg demo_services" res "''periodic''" "clk w1" "rx_world c" r2 w2] by (simp add: sv)
  qed
  moreover have "rs_status (recon_state_of ''bot'' (db halted_world)) = HALTED" by (simp add: halted_world_def recon_state_of_def)
  ultimately show ?thesis using r1(1) f st1 r2(1) by (intro exI [of _ r1] exI [of _ w1] exI [of _ r2] exI [of _ w2]) simp
qed


end
