(* ===== verification/Risk.thy ===== *)
theory Risk
  imports Reconciliation
begin

text \<open>
  Risk controls: the V1 arithmetic of \<^verbatim>\<open>risk_manager.py\<close> on floats, the entry rules of
  \<^verbatim>\<open>engine/risk/rules.py\<close> and the \<^verbatim>\<open>RiskManager\<close> of \<^verbatim>\<open>engine/risk/manager.py\<close>, whose daily state is
  a JSON object in the key-value table. The lemmas show that the loss check never lifts a halt (Daily_Halt follows it
  through a whole day of the engine) and that an accepted size is tradeable and does not exceed the balance.
\<close>

section \<open>The V1 arithmetic (risk\_manager.py)\<close>

record risk_state =
  ks_equity :: rat
  ks_day_start :: rat
  ks_halted :: bool

definition position_size :: "rat \<Rightarrow> rat \<Rightarrow> rat \<Rightarrow> rat \<Rightarrow> rat" where
  "position_size eq price risk_pct stop_loss_pct =
     (if eq \<le> 0 \<or> price \<le> 0 \<or> risk_pct \<le> 0 \<or> stop_loss_pct \<le> 0 then 0
      else let risk_amount = fmul eq (fdiv risk_pct 100);
               position_value = min (fdiv risk_amount (fdiv stop_loss_pct 100)) eq
           in max 0 (fdiv position_value price))"

definition stop_loss_price :: "rat \<Rightarrow> string \<Rightarrow> rat \<Rightarrow> rat" where
  "stop_loss_price entry_price side stop_loss_pct =
     (if side = ''long'' then fmul entry_price (fsub 1 (fdiv stop_loss_pct 100))
      else fmul entry_price (fadd 1 (fdiv stop_loss_pct 100)))"

definition check_daily_loss_limit :: "risk_state \<Rightarrow> rat \<Rightarrow> bool \<times> risk_state" where
  "check_daily_loss_limit st limit_pct =
     (if ks_day_start st \<le> 0 then (ks_halted st, st)
      else let drawdown_pct = fmul (fdiv (fsub (ks_day_start st) (ks_equity st)) (ks_day_start st)) 100;
               st = (if limit_pct \<le> drawdown_pct then st\<lparr>ks_halted := True\<rparr> else st)
           in (ks_halted st, st))"

definition reset_day :: "risk_state \<Rightarrow> risk_state" where
  "reset_day st = st\<lparr>ks_day_start := ks_equity st, ks_halted := False\<rparr>"

section \<open>Entry rules (rules.py)\<close>

definition rule_max_open_positions :: "int \<Rightarrow> int \<Rightarrow> bool \<times> string" where
  "rule_max_open_positions open_count limit =
     (open_count < limit, ''open positions '' @ str_int open_count @ '' >= MAX_OPEN_POSITIONS '' @ str_int limit)"

definition rule_not_daily_halted :: "bool \<Rightarrow> bool \<times> string" where
  "rule_not_daily_halted halted = (\<not> halted, ''daily loss limit reached'')"

definition rule_min_notional :: "symbol_rules \<Rightarrow> rat \<Rightarrow> rat \<Rightarrow> bool \<times> string" where
  "rule_min_notional rules qty price = (is_tradeable rules qty price,
     ''qty '' @ dec_text qty @ '' @ '' @ dec_text price @ '' below exchange minimums (minQty '' @ dec_text (sr_min_qty rules)
       @ '', minNotional '' @ dec_text (sr_min_notional rules) @ '')'')"

section \<open>RiskManager (manager.py)\<close>

definition risk_key :: "config \<Rightarrow> string" where
  "risk_key cfg = ''risk:'' @ BOT_INSTANCE_ID cfg"

text \<open>\<^verbatim>\<open>self.store.kv_get(self.key) or {}\<close>\<close>

definition risk_row :: "config \<Rightarrow> ('x world, (string \<times> jval) list) eff" where
  "risk_row cfg = bindE (kv_get (risk_key cfg)) (\<lambda>v. case v of
     None \<Rightarrow> ret [] | Some j \<Rightarrow> if jtrue j then liftE (as_obj j) else ret [])"

definition flag :: "string \<Rightarrow> (string \<times> jval) list \<Rightarrow> bool" where
  "flag k d \<longleftrightarrow> (case map_of d k of None \<Rightarrow> False | Some j \<Rightarrow> jtrue j)"

definition new_day :: "string \<Rightarrow> rat \<Rightarrow> (string \<times> jval) list" where
  "new_day today eq = [(''date'', JStr today), (''day_start_equity'', JDec eq), (''halted'', JBool False)]"

definition update_daily :: "config \<Rightarrow> rat \<Rightarrow> string \<Rightarrow> ('x world, bool) eff" where
  "update_daily cfg eq today = bindE (risk_row cfg) (\<lambda>st.
     let st = (if map_of st ''date'' = Some (JStr today) then st else new_day today eq) in
     bindE (liftE (jdec ''day_start_equity'' st)) (\<lambda>start.
       let (halted, _) = check_daily_loss_limit \<lparr>ks_equity = flt_round eq, ks_day_start = flt_round start,
             ks_halted = flag ''halted'' st\<rparr> (DAILY_LOSS_LIMIT_PCT cfg) in
       thenE (kv_set (risk_key cfg) (JObj (AList.update ''halted'' (JBool halted) st))) (ret halted)))"

definition is_daily_halted :: "config \<Rightarrow> ('x world, bool) eff" where
  "is_daily_halted cfg = bindE (risk_row cfg) (\<lambda>st. ret (flag ''halted'' st))"

definition size_entry :: "config \<Rightarrow> rat \<Rightarrow> rat \<Rightarrow> symbol_rules \<Rightarrow> rat option \<Rightarrow> rat \<times> string option" where
  "size_entry cfg eq price rules quote_free =
     (let qty = py_repr (position_size (flt_round eq) (flt_round price) (RISK_PER_TRADE_PCT cfg) (STOP_LOSS_PCT cfg));
          qty = (case quote_free of Some q \<Rightarrow> if 0 < price then min qty (ddiv q price) else qty | None \<Rightarrow> qty);
          qty = round_qty rules qty;
          (ok, reason) = rule_min_notional rules qty price
      in if ok then (qty, None) else (0, Some reason))"

definition stop_price_for :: "config \<Rightarrow> rat \<Rightarrow> rat" where
  "stop_price_for cfg entry_price = py_repr (stop_loss_price (flt_round entry_price) ''long'' (STOP_LOSS_PCT cfg))"

definition entry_checks :: "config \<Rightarrow> int \<Rightarrow> ('x world, string list) eff" where
  "entry_checks cfg open_positions = bindE (is_daily_halted cfg) (\<lambda>halted.
     ret (map snd (filter (\<lambda>r. \<not> fst r)
       [rule_max_open_positions open_positions (MAX_OPEN_POSITIONS cfg), rule_not_daily_halted halted])))"

section \<open>The loss check never lifts a halt\<close>

lemma halted_stays: "ks_halted st \<Longrightarrow> fst (check_daily_loss_limit st limit)"
  by (simp add: check_daily_loss_limit_def)

lemma safe_risk [keeps_intros]: "safe (risk_row cfg)" "safe (is_daily_halted cfg)" "safe (update_daily cfg eq today)"
    "safe (entry_checks cfg n)"
  unfolding risk_row_def is_daily_halted_def update_daily_def entry_checks_def Let_def
  by (auto intro!: keeps_intros split: option.split prod.split)

section \<open>An accepted size is tradeable and affordable\<close>

lemma dec_round_py_repr: "dec_round (py_repr x) = py_repr x"
proof -
  have "\<exists>n. 1 \<le> n \<and> n \<le> 17 \<and> py_repr x = round_sig 10 n x"
  proof (cases "find (\<lambda>n. flt_round (round_sig 10 n x) = x) [1..16]")
    case (Some n)
    then have "n \<in> set [1..16]" by (auto dest: find_SomeD)
    then show ?thesis using Some by (intro exI [of _ n]) (simp add: py_repr_def)
  next
    case None
    then show ?thesis by (intro exI [of _ 17]) (simp add: py_repr_def)
  qed
  then obtain n where n: "1 \<le> n" "n \<le> 17" "py_repr x = round_sig 10 n x" by blast
  obtain m e where m: "round_sig 10 n x = of_int m * of_int 10 powi e" "\<bar>m\<bar> \<le> 10 ^ nat n"
    using round_sig_representable [of 10 n x] n(1) unfolding representable_def by auto
  have "(10 :: int) ^ nat n \<le> 10 ^ nat 28" using n(2) by (intro power_increasing) auto
  then have "representable 10 28 (round_sig 10 n x)" unfolding representable_def
    using m by (intro exI [of _ m] exI [of _ e]) auto
  then show ?thesis by (simp add: n(3) dec_round_representable)
qed

lemma position_size_nonneg: "0 \<le> position_size eq price r sl"
  by (simp add: position_size_def Let_def)

lemma py_repr_nonneg: "0 \<le> x \<Longrightarrow> 0 \<le> py_repr x"
  using py_repr_pos [of x] by (cases "x = 0") (auto simp: py_repr_def round_sig_0 split: option.splits)

text \<open>
  C21: the entry size never asks for more than the free balance. For a price that is positive, a free balance
  and an exchange step that is a power of ten, an accepted size is tradeable under the exchange's minimums and its
  cost at the price exceeds the free balance by no more than the rounding of one 28-digit division;
  a rejected one is zero.
\<close>

theorem size_entry_affordable:
  assumes "size_entry cfg eq price rules (Some free) = (q, why)" "sr_step rules = 10 powi k" "0 \<le> free" "0 < price"
  shows "if why = None then is_tradeable rules q price \<and> q * price \<le> free * (1 + 10 powi (- 27)) else q = 0"
proof -
  let ?v1 = "py_repr (position_size (flt_round eq) (flt_round price) (RISK_PER_TRADE_PCT cfg) (STOP_LOSS_PCT cfg))"
  let ?m = "min ?v1 (ddiv free price)"
  have s: "(if is_tradeable rules (round_qty rules ?m) price then (round_qty rules ?m, None)
      else (0, Some (snd (rule_min_notional rules (round_qty rules ?m) price)))) = (q, why)"
    using assms(1,4) by (simp add: size_entry_def rule_min_notional_def Let_def split: if_splits)
  have d: "0 \<le> ddiv free price" using assms(3,4) by (simp add: ddiv_nonneg)
  have m: "0 \<le> ?m" "dec_round ?m = ?m"
    using d py_repr_nonneg [OF position_size_nonneg] by (simp_all add: min_def dec_round_py_repr ddiv_def dec.R_idem)
  have "q \<le> ddiv free price" if "why = None"
  proof -
    have "q = floor_to_step ?m (10 powi k)" using s that assms(2) by (simp add: round_qty_def split: if_splits)
    also have "\<dots> = of_int \<lfloor>?m / 10 powi k\<rfloor> * 10 powi k" by (rule floor_to_step_exact [OF m])
    also have "\<dots> \<le> ?m / 10 powi k * 10 powi k" by (intro mult_right_mono) auto
    also have "\<dots> \<le> ddiv free price" by simp
    finally show ?thesis .
  qed
  moreover have "ddiv free price * price \<le> free * (1 + 10 powi (- 27))"
  proof -
    have "ddiv free price \<le> free / price + free / price * 10 powi (- 27) / 2"
      using dec_round_error [of "free / price"] assms(3,4) by (simp add: ddiv_def abs_le_iff)
    also have "\<dots> \<le> free / price * (1 + 10 powi (- 27))"
    proof -
      have half: "a + b / 2 \<le> a + b" if "0 \<le> b" for a b :: rat using that by simp
      have "0 \<le> free / price * 10 powi (- 27)" using assms(3,4) by simp
      then show ?thesis unfolding distrib_left mult_1_right by (rule half)
    qed
    finally have "ddiv free price * price \<le> free / price * (1 + 10 powi (- 27)) * price"
      using assms(4) by (intro mult_right_mono) auto
    also have "\<dots> = free * (1 + 10 powi (- 27))" using assms(4) by simp
    finally show ?thesis .
  qed
  ultimately have "q * price \<le> free * (1 + 10 powi (- 27))" if "why = None"
    using that assms(4) by (meson less_imp_le mult_right_mono order_trans)
  then show ?thesis using s by (auto split: if_splits)
qed

theorem size_entry_affordable_witness:
  "let (q, why) = size_entry demo_config 1000 100 demo_rules (Some 250) in
   if why = None then is_tradeable demo_rules q 100 \<and> q * 100 \<le> 250 * (1 + 10 powi (- 27)) else q = 0"
proof -
  have "sr_step demo_rules = 10 powi (- 8)" by (simp add: demo_rules_def power_int_def power_divide)
  from size_entry_affordable [OF surjective_pairing this, where price = 100 and free = 250 and cfg = demo_config and eq = 1000] show ?thesis
    by (simp only: case_prod_beta Let_def) simp
qed

end
