(* ===== verification/Strategy.thy ===== *)
theory Strategy
  imports Texts Config
begin

text \<open>
  From indicator values to a signal: the rules of \<^verbatim>\<open>strategy.py\<close>, the headline scores of
  \<^verbatim>\<open>sentiment.py\<close>, the strategy interface \<^verbatim>\<open>engine/strategy/strategy_service.py\<close> and the model layer
  \<^verbatim>\<open>engine/strategy/ai_strategy.py\<close>. Numbers are floats. The VADER analyser, the model's
  probability and the unpickling of the model file are arguments. The lemmas show that with the default
  thresholds a signal needs the trend on its side, that a veto model can only turn a BUY into a
  HOLD, and that a model file is unpickled only after its digest was verified.
\<close>

section \<open>Headline sentiment (sentiment.py)\<close>

definition POSITIVE_WORDS :: "string list" where
  "POSITIVE_WORDS = [''surge'', ''rally'', ''bullish'', ''soar'', ''gain'', ''gains'', ''breakout'', ''record'',
     ''inflow'', ''inflows'', ''adoption'', ''approval'', ''approved'', ''upgrade'', ''partnership'',
     ''recover'', ''recovery'', ''rebound'', ''buy'', ''accumulate'']"

definition NEGATIVE_WORDS :: "string list" where
  "NEGATIVE_WORDS = [''crash'', ''plunge'', ''bearish'', ''selloff'', ''sell-off'', ''hack'', ''hacked'', ''exploit'',
     ''ban'', ''banned'', ''lawsuit'', ''fraud'', ''collapse'', ''outflow'', ''outflows'',
     ''liquidation'', ''liquidated'', ''warning'', ''decline'', ''fear'', ''regulation'', ''crackdown'']"

text \<open>\<^verbatim>\<open>text.split()\<close>: the maximal runs of characters that are not white space.\<close>

fun split_words :: "string \<Rightarrow> string \<Rightarrow> string list" where
  "split_words w [] = (if w = [] then [] else [rev w])"
| "split_words w (c # cs) =
     (if is_space c then (if w = [] then split_words [] cs else rev w # split_words [] cs) else split_words (c # w) cs)"

definition fallback_score :: "string \<Rightarrow> rat" where
  "fallback_score text =
     (let words = split_words [] (map (\<lambda>c. if c = CHR '','' \<or> c = CHR ''.'' then CHR '' '' else c) (lower text));
          pos = length (filter (\<lambda>w. w \<in> set POSITIVE_WORDS) words);
          neg = length (filter (\<lambda>w. w \<in> set NEGATIVE_WORDS) words)
      in if pos + neg = 0 then 0 else fdiv (of_nat pos - of_nat neg) (of_nat (pos + neg)))"

definition score_text :: "(string \<Rightarrow> rat) option \<Rightarrow> string \<Rightarrow> rat" where
  "score_text vader text = (case vader of Some analyse \<Rightarrow> analyse text | None \<Rightarrow> fallback_score text)"

record sentiment =
  sn_score :: rat
  sn_label :: string
  sn_count :: nat
  sn_breakdown :: "(string \<times> rat) list"

definition score_headlines :: "(string \<Rightarrow> rat) option \<Rightarrow> string list \<Rightarrow> sentiment" where
  "score_headlines vader titles =
     (if titles = [] then \<lparr>sn_score = 0, sn_label = ''neutral'', sn_count = 0, sn_breakdown = []\<rparr>
      else let avg = fdiv (foldl fadd 0 (map (score_text vader) titles)) (of_nat (length titles));
               label = (if flt_round (15 / 100) < avg then ''positive''
                        else if avg < - flt_round (15 / 100) then ''negative'' else ''neutral'')
           in \<lparr>sn_score = fround 3 avg, sn_label = label, sn_count = length titles,
               sn_breakdown = sort_key snd (map (\<lambda>t. (t, fround 3 (score_text vader t))) titles)\<rparr>)"

section \<open>The V1 rules (strategy.py)\<close>

record signal =
  sg_action :: string
  sg_score :: rat
  sg_reasons :: "string list"

text \<open>The indicator columns of the evaluated candle.\<close>

record indicators =
  in_ema_fast :: rat
  in_ema_mid :: rat
  in_ema_slow :: rat
  in_rsi :: rat
  in_macd_hist :: rat

definition trend_score :: "indicators \<Rightarrow> rat \<times> string" where
  "trend_score r =
     (if in_ema_mid r < in_ema_fast r \<and> in_ema_slow r < in_ema_mid r then (2, ''Bullish trend: EMA20 > EMA50 > EMA200'')
      else if in_ema_fast r < in_ema_mid r \<and> in_ema_mid r < in_ema_slow r then (- 2, ''Bearish trend: EMA20 < EMA50 < EMA200'')
      else (0, ''No clear EMA trend stack''))"

definition momentum_score :: "config \<Rightarrow> indicators \<Rightarrow> rat \<times> string" where
  "momentum_score cfg r =
     (let (s1, r1) = (if in_rsi r < RSI_OVERSOLD cfg then (1, '' (oversold - potential bounce)'')
                      else if RSI_OVERBOUGHT cfg < in_rsi r then (- 1, '' (overbought - potential pullback)'')
                      else (0, []));
          (s2, r2) = (if 0 < in_macd_hist r then (fadd s1 (1 / 2), '', MACD histogram positive'')
                      else (fsub s1 (1 / 2), '', MACD histogram negative''))
      in (s2, ''RSI '' @ fixed 1 (in_rsi r) @ r1 @ r2))"

text \<open>\<open>dominance\<close>: the BTC dominance of the market data, absent when there is no data.\<close>

definition regime_score :: "string \<Rightarrow> rat option \<Rightarrow> rat \<times> string" where
  "regime_score symbol dominance = (case dominance of
     None \<Rightarrow> (0, ''Market-wide data unavailable'')
   | Some pct \<Rightarrow>
       if startswith (upper symbol) ''BTC''
       then (0, ''Trading BTC directly - dominance ('' @ fixed 1 pct @ ''%) not used as a filter'')
       else if 55 < pct then (- 1, ''BTC dominance high ('' @ fixed 1 pct @ ''%) - unfavorable backdrop for altcoins'')
       else (1, ''BTC dominance moderate/low ('' @ fixed 1 pct @ ''%) - more room for altcoins''))"

definition sentiment_score :: "sentiment option \<Rightarrow> rat \<times> string" where
  "sentiment_score s = (case s of
     None \<Rightarrow> (0, ''No recent news sentiment available'')
   | Some s \<Rightarrow> if sn_count s = 0 then (0, ''No recent news sentiment available'')
       else (fmul (sn_score s) (3 / 2), ''News sentiment '' @ sn_label s @ '' ('' @ signed 2 (sn_score s) @ '' avg over ''
              @ str_int (int (sn_count s)) @ '' headlines)''))"

definition analyze :: "config \<Rightarrow> indicators \<Rightarrow> string \<Rightarrow> rat option \<Rightarrow> sentiment option \<Rightarrow> signal" where
  "analyze cfg r symbol dominance sent =
     (let parts = [trend_score r, momentum_score cfg r, regime_score symbol dominance, sentiment_score sent];
          total = foldl fadd 0 (map fst parts);
          action = (if SCORE_BUY_THRESHOLD cfg \<le> total then ''BUY''
                    else if total \<le> SCORE_SELL_THRESHOLD cfg then ''SELL'' else ''HOLD'')
      in \<lparr>sg_action = action, sg_score = fround 2 total, sg_reasons = map snd parts\<rparr>)"

section \<open>Strategies (strategy\_service.py, ai\_strategy.py)\<close>

text \<open>\<open>'c\<close> is the candle frame; \<open>mc_row\<close> are the indicators of its last row.\<close>

record 'c market_context =
  mc_symbol :: string
  mc_candles :: 'c
  mc_row :: indicators
  mc_dominance :: "rat option"
  mc_sentiment :: "sentiment option"

record 'c strategy =
  sy_name :: string
  sy_version :: string
  sy_evaluate :: "'c market_context \<Rightarrow> exn + signal"

definition multi_factor :: "config \<Rightarrow> 'c strategy" where
  "multi_factor cfg = \<lparr>sy_name = STRATEGY_NAME cfg, sy_version = STRATEGY_VERSION cfg,
     sy_evaluate = (\<lambda>ctx. Inr (analyze cfg (mc_row ctx) (mc_symbol ctx) (mc_dominance ctx) (mc_sentiment ctx)))\<rparr>"

text \<open>A trained model: its metadata and its probability for a candle frame, which may raise.\<close>

record 'c artifact =
  am_features :: "string list"
  am_feature_version :: string
  am_sklearn :: string
  am_mode :: string
  am_threshold :: rat
  am_exit_p :: rat
  am_edge :: rat
  am_probability :: "'c \<Rightarrow> exn + rat"

definition FEATURES :: "string list" where
  "FEATURES = [''ret_1'', ''ret_3'', ''ret_6'', ''ret_12'', ''ret_24'', ''ret_72'', ''vol_24'', ''vol_72'', ''rsi'', ''macd_hist_pct'',
     ''dist_ema_fast'', ''dist_ema_mid'', ''dist_ema_slow'', ''ema_stack'', ''bb_pctb'', ''atr_pct'', ''range_pct'', ''volume_z'',
     ''hour_sin'', ''hour_cos'', ''dow_sin'', ''dow_cos'', ''v1_score'',
     ''taker_buy_ratio'', ''taker_ratio_24'', ''taker_ratio_delta'', ''trades_z'', ''avg_trade_size_z'', ''quote_vol_z'']"

definition FEATURE_VERSION :: string where "FEATURE_VERSION = ''f2''"

definition model_rejected :: "string \<Rightarrow> exn" where
  "model_rejected m = RuntimeError m"

text \<open>
  The process that loads models: the files it sees and, as the trace of what was executed, the contents
  it has unpickled. \<open>sha\<close> is the SHA-256 digest, \<open>unpickle\<close> is \<^verbatim>\<open>joblib.load\<close>.
\<close>

record loader =
  ld_files :: "string \<Rightarrow> string option"
  ld_unpickled :: "string list"

definition load_verified ::
  "(string \<Rightarrow> string) \<Rightarrow> (string \<Rightarrow> exn + 'c artifact) \<Rightarrow> string \<Rightarrow> string \<Rightarrow> string \<Rightarrow> (loader, 'c artifact) eff" where
  "load_verified sha unpickle sklearn path expected = bindE (getE (\<lambda>l. ld_files l path)) (\<lambda>content. case content of
     None \<Rightarrow> raise (Other ''FileNotFoundError'')
   | Some c \<Rightarrow>
       if sha c \<noteq> lower expected
       then raise (model_rejected (''model hash '' @ take 12 (sha c) @ '' does not match ML_MODEL_SHA256; refusing to load it''))
       else thenE (updE (\<lambda>l. l\<lparr>ld_unpickled := ld_unpickled l @ [c]\<rparr>))
         (bindE (liftE (unpickle c)) (\<lambda>art.
            if am_features art \<noteq> FEATURES \<or> am_feature_version art \<noteq> FEATURE_VERSION
            then raise (model_rejected ''model was trained on a different feature set'')
            else if am_sklearn art \<noteq> sklearn
            then raise (model_rejected (''model trained with scikit-learn '' @ am_sklearn art @ '', installed '' @ sklearn))
            else ret art)))"

definition ai_note :: "'c artifact \<Rightarrow> rat \<Rightarrow> string" where
  "ai_note art p = ''AI p(24h up > '' @ fixed 2 (fmul (am_edge art) 100) @ ''%) = '' @ fixed 2 p @ '' (threshold ''
     @ fixed 2 (am_threshold art) @ '')''"

definition ai_evaluate :: "config \<Rightarrow> 'c artifact \<Rightarrow> 'c market_context \<Rightarrow> exn + signal" where
  "ai_evaluate cfg art ctx = bindR (sy_evaluate (multi_factor cfg) ctx) (\<lambda>base.
     bindR (am_probability art (mc_candles ctx)) (\<lambda>p. let note = ai_note art p in
       Inr (if am_mode art = ''veto'' then
              let vetoed = sg_action base = ''BUY'' \<and> p < am_threshold art in
              \<lparr>sg_action = (if vetoed then ''HOLD'' else sg_action base), sg_score = sg_score base,
               sg_reasons = sg_reasons base @ [if vetoed then note @ '' - V1 buy vetoed'' else note]\<rparr>
            else \<lparr>sg_action = (if am_threshold art \<le> p then ''BUY'' else if p < am_exit_p art then ''SELL'' else ''HOLD''),
                  sg_score = fround 4 p, sg_reasons = note # sg_reasons base\<rparr>)))"

definition ai_strategy ::
  "(string \<Rightarrow> string) \<Rightarrow> (string \<Rightarrow> exn + 'c artifact) \<Rightarrow> string \<Rightarrow> config \<Rightarrow> 'c artifact option \<Rightarrow> (loader, 'c strategy) eff" where
  "ai_strategy sha unpickle sklearn cfg given =
     bindE (case given of Some art \<Rightarrow> ret art | None \<Rightarrow> load_verified sha unpickle sklearn (ML_MODEL_PATH cfg) (ML_MODEL_SHA256 cfg)) (\<lambda>art.
       if am_mode art \<noteq> STRATEGY_MODE cfg
       then raise (model_rejected (''model was validated for mode '' @ quoted (am_mode art) @ '', STRATEGY_MODE is '' @ quoted (STRATEGY_MODE cfg)))
       else ret \<lparr>sy_name = STRATEGY_NAME cfg @ ''+ai'',
                 sy_version = STRATEGY_VERSION cfg @ ''+'' @ am_mode art @ ''-''
                   @ take 8 (if ML_MODEL_SHA256 cfg = [] then ''inline'' else ML_MODEL_SHA256 cfg),
                 sy_evaluate = ai_evaluate cfg art\<rparr>)"

definition build_strategy ::
  "(string \<Rightarrow> string) \<Rightarrow> (string \<Rightarrow> exn + 'c artifact) \<Rightarrow> string \<Rightarrow> config \<Rightarrow> (loader, 'c strategy) eff" where
  "build_strategy sha unpickle sklearn cfg =
     (if STRATEGY_MODE cfg = ''v1'' then ret (multi_factor cfg) else ai_strategy sha unpickle sklearn cfg None)"

section \<open>A signal needs the trend on its side\<close>

lemma flt_round_small_half: "n \<in> {- 8..8} \<Longrightarrow> flt_round (of_int n / 2) = of_int n / 2"
proof -
  assume "n \<in> {- 8..8}"
  then have n: "\<bar>n\<bar> \<le> 2 ^ nat 53" by auto
  have "representable 2 53 (of_int n / 2)" unfolding representable_def
    using n by (intro exI [of _ n] exI [of _ "- 1"]) (simp add: power_int_def)
  then show ?thesis unfolding flt_round_def by (intro round_sig_exact) auto
qed

lemma momentum_values: "\<exists>n\<in>{- 3, - 1, 1, 3}. fst (momentum_score cfg r) = of_int n / 2"
proof -
  have h: "fadd 1 (1 / 2) = 3 / 2" "fadd (- 1) (1 / 2) = - (1 / 2)" "fadd 0 (1 / 2) = 1 / 2"
    "fsub 1 (1 / 2) = 1 / 2" "fsub (- 1) (1 / 2) = - (3 / 2)" "fsub 0 (1 / 2) = - (1 / 2)"
    using flt_round_small_half [of 3] flt_round_small_half [of "- 1"] flt_round_small_half [of 1] flt_round_small_half [of "- 3"]
    by (simp_all add: fadd_def fsub_def)
  show ?thesis by (simp add: momentum_score_def Let_def h)
qed

text \<open>The total of the four parts, when the last two are zero.\<close>

lemma total_two:
  assumes "a \<in> {- 2, 0, 2}" "n \<in> {- 3, - 1, 1, 3}"
  shows "foldl fadd 0 [of_int a, of_int n / 2, 0, 0] = (of_int (2 * a + n) / 2 :: rat)"
proof -
  have a: "fadd 0 (of_int a) = of_int a"
    using assms(1) flt_round_small_half [of "2 * a"] by (auto simp: fadd_def)
  have s: "of_int a + of_int n / 2 = (of_int (2 * a + n) / 2 :: rat)" by (simp add: field_simps)
  have "2 * a + n \<in> {- 8..8}" using assms by auto
  then have r: "flt_round (of_int (2 * a + n) / 2) = of_int (2 * a + n) / 2" by (rule flt_round_small_half)
  have "fadd (of_int a) (of_int n / 2) = of_int (2 * a + n) / 2" unfolding fadd_def s by (rule r)
  moreover have "fadd (of_int (2 * a + n) / 2) 0 = of_int (2 * a + n) / 2" unfolding fadd_def add_0_right by (rule r)
  ultimately show ?thesis by (simp only: foldl.simps a)
qed

text \<open>
  With the V1 thresholds and BTC, momentum alone never opens or closes a position. Without news, the strategy says
  BUY exactly when the averages are stacked upwards and the momentum score is positive, and SELL
  exactly when they are stacked downwards and it is negative, whatever the market-wide data.
\<close>

theorem btc_signal_needs_trend:
  assumes "v1_parameters cfg" "startswith (upper symbol) ''BTC''"
  shows "(sg_action (analyze cfg r symbol dominance None) = ''BUY''
            \<longleftrightarrow> in_ema_mid r < in_ema_fast r \<and> in_ema_slow r < in_ema_mid r \<and> 0 < fst (momentum_score cfg r))
    \<and> (sg_action (analyze cfg r symbol dominance None) = ''SELL''
            \<longleftrightarrow> in_ema_fast r < in_ema_mid r \<and> in_ema_mid r < in_ema_slow r \<and> fst (momentum_score cfg r) < 0)"
proof -
  obtain n where n: "n \<in> {- 3, - 1, 1, 3}" "fst (momentum_score cfg r) = of_int n / 2" using momentum_values [of cfg r] by blast
  obtain a :: int where a: "a \<in> {- 2, 0, 2}" "fst (trend_score r) = of_int a"
    "a = 2 \<longleftrightarrow> in_ema_mid r < in_ema_fast r \<and> in_ema_slow r < in_ema_mid r"
    "a = - 2 \<longleftrightarrow> in_ema_fast r < in_ema_mid r \<and> in_ema_mid r < in_ema_slow r"
  proof (rule that [of "if in_ema_mid r < in_ema_fast r \<and> in_ema_slow r < in_ema_mid r then 2
      else if in_ema_fast r < in_ema_mid r \<and> in_ema_mid r < in_ema_slow r then - 2 else 0"])
  qed (auto simp: trend_score_def)
  have z: "fst (regime_score symbol dominance) = 0" "fst (sentiment_score None) = 0"
    using assms(2) by (simp_all add: regime_score_def sentiment_score_def split: option.split)
  have t: "foldl fadd 0 (map fst [trend_score r, momentum_score cfg r, regime_score symbol dominance, sentiment_score None])
      = of_int (2 * a + n) / 2"
    using total_two [OF a(1) n(1)] by (simp add: n(2) a(2) z)
  have act: "sg_action (analyze cfg r symbol dominance None) = (if (5 :: rat) / 2 \<le> of_int (2 * a + n) / 2 then ''BUY''
      else if of_int (2 * a + n) / 2 \<le> - ((5 :: rat) / 2) then ''SELL'' else ''HOLD'')"
    using assms(1) unfolding analyze_def Let_def t by (simp add: v1_parameters_def)
  have "((5 :: rat) / 2 \<le> of_int (2 * a + n) / 2) = (5 \<le> 2 * a + n)" "(of_int (2 * a + n) / 2 \<le> - ((5 :: rat) / 2)) = (2 * a + n \<le> - 5)"
  proof -
    have "(5 \<le> (of_int k :: rat)) = (5 \<le> k)" "((of_int k :: rat) \<le> - 5) = (k \<le> - 5)" for k
      by (metis of_int_le_iff of_int_numeral) (metis of_int_le_iff of_int_neg_numeral)
    then show "((5 :: rat) / 2 \<le> of_int (2 * a + n) / 2) = (5 \<le> 2 * a + n)"
      "(of_int (2 * a + n) / 2 \<le> - ((5 :: rat) / 2)) = (2 * a + n \<le> - 5)"
      by (simp_all only: minus_divide_left divide_le_cancel) simp_all
  qed
  then have "(sg_action (analyze cfg r symbol dominance None) = ''BUY'' \<longleftrightarrow> 5 \<le> 2 * a + n)
      \<and> (sg_action (analyze cfg r symbol dominance None) = ''SELL'' \<longleftrightarrow> 2 * a + n \<le> - 5)"
    unfolding act by auto
  moreover have "5 \<le> 2 * a + n \<longleftrightarrow> a = 2 \<and> 0 < n" "2 * a + n \<le> - 5 \<longleftrightarrow> a = - 2 \<and> n < 0" using a(1) n(1) by auto
  ultimately show ?thesis using a(3,4) by (simp add: n(2))
qed

section \<open>The model layer\<close>

text \<open>
  A veto model can only stop a buy. In veto mode the signal is the V1 signal, score included, except
  that a BUY whose probability is below the threshold becomes a HOLD; sells are always V1's.
\<close>

theorem veto_only_blocks:
  assumes "am_mode art = ''veto''" "ai_evaluate cfg art ctx = Inr s"
  shows "\<exists>base p. sy_evaluate (multi_factor cfg) ctx = Inr base \<and> am_probability art (mc_candles ctx) = Inr p
    \<and> sg_score s = sg_score base
    \<and> sg_action s = (if sg_action base = ''BUY'' \<and> p < am_threshold art then ''HOLD'' else sg_action base)"
  using assms by (auto simp: ai_evaluate_def Let_def elim!: bindR_InrE)

text \<open>
  No unverified code is executed. Building the configured strategy unpickles nothing in V1 mode, and otherwise
  at most the configured model file, and only when its SHA-256 digest is the configured one; a strategy
  with a model runs in the mode the model was validated for.
\<close>

theorem only_verified_models:
  assumes "build_strategy sha unpickle sklearn cfg l = (x, l')"
  shows "ld_unpickled l' = ld_unpickled l \<or> STRATEGY_MODE cfg \<noteq> ''v1'' \<and> (\<exists>c. ld_files l (ML_MODEL_PATH cfg) = Some c
      \<and> sha c = lower (ML_MODEL_SHA256 cfg) \<and> ld_unpickled l' = ld_unpickled l @ [c])"
proof (cases "STRATEGY_MODE cfg = ''v1''")
  case False
  obtain y l1 where y: "load_verified sha unpickle sklearn (ML_MODEL_PATH cfg) (ML_MODEL_SHA256 cfg) l = (y, l1)" by force
  have "l' = l1" using assms False y
    by (auto simp: build_strategy_def ai_strategy_def bindE_apply split: sum.splits if_splits)
  moreover have "ld_unpickled l1 = ld_unpickled l \<or> (\<exists>c. ld_files l (ML_MODEL_PATH cfg) = Some c
      \<and> sha c = lower (ML_MODEL_SHA256 cfg) \<and> ld_unpickled l1 = ld_unpickled l @ [c])"
    using y by (auto simp: load_verified_def bindE_apply thenE_def split: option.splits if_splits sum.splits)
  ultimately show ?thesis using False by blast
qed (use assms in \<open>simp add: build_strategy_def\<close>)

text \<open>
  A headline score without the VADER analyser always lies between -1 and 1.
\<close>

theorem fallback_score_bounds: "\<bar>fallback_score text\<bar> \<le> 1"
proof -
  have one: "flt_round 1 = 1" "flt_round (- 1) = - 1"
    using flt_round_small_half [of 2] flt_round_small_half [of "- 2"] by simp_all
  have "\<bar>fdiv (of_nat p - of_nat n) (of_nat (p + n))\<bar> \<le> 1" if "p + n \<noteq> 0" for p n :: nat
  proof -
    have q: "0 < (of_nat (p + n) :: rat)" using that by (simp only: of_nat_0_less_iff)
    have "of_nat p - of_nat n \<le> (of_nat (p + n) :: rat)" "- (of_nat (p + n) :: rat) \<le> of_nat p - of_nat n" by simp_all
    then have "(of_nat p - of_nat n) / of_nat (p + n) \<le> (1 :: rat)" "- 1 \<le> (of_nat p - of_nat n) / (of_nat (p + n) :: rat)"
      using q by (simp_all only: pos_divide_le_eq pos_le_divide_eq mult_1_left mult_minus1)
    then have "fdiv (of_nat p - of_nat n) (of_nat (p + n)) \<le> 1" "- 1 \<le> fdiv (of_nat p - of_nat n) (of_nat (p + n))"
      using flt.R_upper [OF one(1)] flt.R_lower [OF one(2)] unfolding fdiv_def by blast+
    then show ?thesis by (intro abs_leI) (simp_all only: minus_le_iff)
  qed
  then show ?thesis by (simp add: fallback_score_def Let_def)
qed

section \<open>The properties at concrete inputs\<close>

definition demo_indicators :: indicators where
  "demo_indicators = \<lparr>in_ema_fast = 3, in_ema_mid = 2, in_ema_slow = 1, in_rsi = 30, in_macd_hist = 1\<rparr>"

definition demo_artifact :: "unit artifact" where
  "demo_artifact = \<lparr>am_features = FEATURES, am_feature_version = FEATURE_VERSION, am_sklearn = ''1.5'', am_mode = ''veto'',
     am_threshold = 6 / 10, am_exit_p = 3 / 10, am_edge = 1 / 100, am_probability = (\<lambda>_. Inr (1 / 2))\<rparr>"

definition demo_context :: "unit market_context" where
  "demo_context = \<lparr>mc_symbol = ''BTC/USDT'', mc_candles = (), mc_row = demo_indicators, mc_dominance = Some 60, mc_sentiment = None\<rparr>"

theorem btc_signal_needs_trend_witness:
  "sg_action (analyze demo_config demo_indicators ''BTC/USDT'' (Some 60) None) = ''BUY''"
proof -
  have "v1_parameters demo_config" by (simp add: v1_parameters_def demo_config_def)
  moreover have "startswith (upper ''BTC/USDT'') ''BTC''" "0 < fst (momentum_score demo_config demo_indicators)" by code_simp+
  ultimately show ?thesis
    using btc_signal_needs_trend [of demo_config "''BTC/USDT''" demo_indicators "Some 60"] by (simp add: demo_indicators_def)
qed

theorem veto_only_blocks_witness:
  "\<exists>s. ai_evaluate demo_config demo_artifact demo_context = Inr s \<and> sg_action s = ''HOLD''"
proof -
  obtain s where s: "ai_evaluate demo_config demo_artifact demo_context = Inr s"
    by (simp add: ai_evaluate_def multi_factor_def demo_artifact_def Let_def)
  have "sg_action (analyze demo_config demo_indicators ''BTC/USDT'' (Some 60) None) = ''BUY''" by code_simp
  then show ?thesis
    using s veto_only_blocks [OF _ s] by (auto simp: demo_artifact_def multi_factor_def demo_context_def)
qed

theorem only_verified_models_witness:
  "let l = \<lparr>ld_files = (\<lambda>_. Some ''model''), ld_unpickled = []\<rparr>;
       l' = snd (build_strategy id (\<lambda>_. Inr demo_artifact) ''1.5''
         (demo_config\<lparr>STRATEGY_MODE := ''veto'', ML_MODEL_SHA256 := ''model''\<rparr>) l) in
   ld_unpickled l' = ld_unpickled l \<or> (\<exists>c. ld_files l (ML_MODEL_PATH demo_config) = Some c \<and> ld_unpickled l' = ld_unpickled l @ [c])"
  unfolding Let_def
  using only_verified_models [OF surjective_pairing, of id "\<lambda>_. Inr demo_artifact" "''1.5''"
      "demo_config\<lparr>STRATEGY_MODE := ''veto'', ML_MODEL_SHA256 := ''model''\<rparr>" "\<lparr>ld_files = (\<lambda>_. Some ''model''), ld_unpickled = []\<rparr>"]
  by auto

end
