(* ===== verification/Market.thy ===== *)
theory Market
  imports Risk Strategy
begin

text \<open>
  Market data: \<^verbatim>\<open>engine/market_data/fetcher.py\<close>. A candle frame is the list of its candles; the
  downloads (candles, market-wide data, news) are calls on the world and the pandas indicator columns
  of the last candle are a function of the frame, both fields of \<open>'x market\<close>. The lemmas show
  that the strategy only sees candles that have closed, fresh enough, and that a candle that closed before a
  position was opened never triggers its stop.
\<close>

section \<open>Candles and snapshots\<close>

record candle =
  cd_time :: time
  cd_open :: rat
  cd_high :: rat
  cd_low :: rat
  cd_close :: rat
  cd_volume :: rat

definition timeframe_units :: "(char \<times> int) list" where
  "timeframe_units = [(CHR ''m'', 60), (CHR ''h'', 3600), (CHR ''d'', 86400), (CHR ''w'', 604800)]"

definition timeframe_seconds :: "string \<Rightarrow> exn + int" where
  "timeframe_seconds tf = bindR (py_int (butlast tf)) (\<lambda>n.
     if tf = [] then Inl (Other ''IndexError'') else case map_of timeframe_units (last tf) of
       None \<Rightarrow> Inl (KeyError [last tf]) | Some u \<Rightarrow> Inr (n * u))"

record market_snapshot =
  ms_valid :: bool
  ms_reason :: string
  ms_candles :: "candle list"
  ms_row :: indicators
  ms_candle_ts :: string
  ms_mark_price :: rat
  ms_signal_price :: rat
  ms_recent :: "(time \<times> rat) list"
  ms_dominance :: "rat option"
  ms_sentiment :: "sentiment option"
  ms_headlines :: "headline list"

definition no_row :: indicators where
  "no_row = \<lparr>in_ema_fast = 0, in_ema_mid = 0, in_ema_slow = 0, in_rsi = 0, in_macd_hist = 0\<rparr>"

text \<open>An invalid snapshot; its other fields are the defaults and are not read.\<close>

definition invalid :: "string \<Rightarrow> market_snapshot" where
  "invalid reason = \<lparr>ms_valid = False, ms_reason = reason, ms_candles = [], ms_row = no_row, ms_candle_ts = [],
     ms_mark_price = 0, ms_signal_price = 0, ms_recent = [], ms_dominance = None, ms_sentiment = None, ms_headlines = []\<rparr>"

definition stop_check_low :: "market_snapshot \<Rightarrow> time option \<Rightarrow> rat option" where
  "stop_check_low snap opened_at =
     (let lows = map snd (filter (\<lambda>(close_time, _). case opened_at of None \<Rightarrow> True | Some t \<Rightarrow> t < close_time) (ms_recent snap))
      in case lows of [] \<Rightarrow> None | l # ls \<Rightarrow> Some (foldl min l ls))"

record 'x market =
  mk_cfg :: config
  mk_ohlcv :: "string \<Rightarrow> ('x world, candle list option) eff"
  mk_global :: "('x world, rat option) eff"
  mk_news :: "('x world, headline list) eff"
  mk_indicators :: "candle list \<Rightarrow> indicators"
  mk_vader :: "(string \<Rightarrow> rat) option"

section \<open>Taking a snapshot\<close>

text \<open>The frame the strategy evaluates, and whether its last candle is too old. A \<^verbatim>\<open>timedelta\<close> times a float
  is rounded to the nearest microsecond.\<close>

definition evaluated :: "config \<Rightarrow> time \<Rightarrow> int \<Rightarrow> candle list \<Rightarrow> candle list" where
  "evaluated cfg t tf raw = (if SIGNAL_ON_CLOSED_CANDLES cfg \<and> t < cd_time (last raw) + tf then butlast raw else raw)"

definition candle_age :: "time \<Rightarrow> int \<Rightarrow> candle list \<Rightarrow> int" where
  "candle_age t tf frame = t - (cd_time (last frame) + tf)"

definition max_age :: "config \<Rightarrow> int \<Rightarrow> int" where
  "max_age cfg tf = half_even (of_int tf * MARKET_DATA_MAX_AGE_CANDLES cfg)"

definition headline_titles :: "headline list \<Rightarrow> exn + string list" where
  "headline_titles hs = mapR (\<lambda>h. case h_title h of None \<Rightarrow> Inl (KeyError ''title'') | Some t \<Rightarrow> Inr t) hs"

definition snapshot :: "'x market \<Rightarrow> string \<Rightarrow> bool \<Rightarrow> ('x world, market_snapshot) eff" where
  "snapshot mk symbol with_context = (let cfg = mk_cfg mk in
     bindE now (\<lambda>t.
     bindE (tryE (bindE (mk_ohlcv mk symbol) (\<lambda>r. ret (Inr r))) (\<lambda>e. ret (Inl e))) (\<lambda>fetched. case fetched of
       Inl e \<Rightarrow> ret (invalid (''candle fetch failed: '' @ exn_name e))
     | Inr None \<Rightarrow> ret (invalid ''insufficient candles (0)'')
     | Inr (Some raw) \<Rightarrow>
         if int (length raw) < EMA_SLOW cfg + 5
         then ret (invalid (''insufficient candles ('' @ str_int (int (length raw)) @ '')''))
         else bindE (liftE (timeframe_seconds (TIMEFRAME cfg))) (\<lambda>secs. let tf = seconds secs; frame = evaluated cfg t tf raw in
           if max_age cfg tf < candle_age t tf frame
           then ret (invalid (''stale market data: evaluated candle closed '' @ str_int (round_down_int (of_int (candle_age t tf frame) / 1000000)) @ ''s ago''))
           else bindE (if with_context
                       then bindE (mk_global mk) (\<lambda>dominance. bindE (mk_news mk) (\<lambda>hs.
                              bindE (liftE (headline_titles hs)) (\<lambda>titles.
                                ret (dominance, hs, if hs = [] then None else Some (score_headlines (mk_vader mk) titles)))))
                       else ret (None, [], None)) (\<lambda>(dominance, hs, sent).
                  ret \<lparr>ms_valid = True, ms_reason = ''ok'', ms_candles = frame, ms_row = mk_indicators mk frame,
                       ms_candle_ts = iso (cd_time (last frame)), ms_mark_price = py_repr (cd_close (last raw)),
                       ms_signal_price = py_repr (cd_close (last frame)),
                       ms_recent = map (\<lambda>c. (cd_time c + tf, py_repr (cd_low c))) (drop (length raw - 2) raw),
                       ms_dominance = dominance, ms_sentiment = sent, ms_headlines = hs\<rparr>)))))"

section \<open>Only closed, fresh candles are evaluated\<close>

text \<open>Consecutive candles are at least one interval apart.\<close>

fun spaced :: "int \<Rightarrow> candle list \<Rightarrow> bool" where
  "spaced tf [] \<longleftrightarrow> True"
| "spaced tf [c] \<longleftrightarrow> True"
| "spaced tf (c # d # cs) \<longleftrightarrow> cd_time c + tf \<le> cd_time d \<and> spaced tf (d # cs)"

lemma spaced_last: "spaced tf (cs @ [c, d]) \<Longrightarrow> cd_time c + tf \<le> cd_time d"
proof (induction cs)
  case (Cons x cs)
  then show ?case by (cases cs) auto
qed simp

lemma evaluated_closed:
  assumes "SIGNAL_ON_CLOSED_CANDLES cfg" "spaced tf raw" "cd_time (last raw) \<le> t" "2 \<le> length raw"
  shows "cd_time (last (evaluated cfg t tf raw)) + tf \<le> t"
proof (cases "t < cd_time (last raw) + tf")
  case True
  obtain cs c d where raw: "raw = cs @ [c, d]"
  proof (cases raw rule: rev_cases)
    case (snoc xs d)
    then show thesis using assms(4) by (cases xs rule: rev_cases) (auto intro: that)
  qed (use assms(4) in simp)
  have "evaluated cfg t tf raw = cs @ [c]" using True assms(1) by (simp add: evaluated_def raw butlast_append)
  then show ?thesis using spaced_last [of tf cs c d] assms(2,3) by (simp add: raw)
qed (simp add: evaluated_def)

text \<open>
  The strategy never looks ahead and never acts on stale data. When the exchange's candles are at least one
  interval apart and none lies in the future, a valid snapshot evaluates the indicators of a frame whose last
  candle has already closed, no longer ago than the configured number of intervals.
\<close>

theorem snapshot_closed_and_fresh:
  assumes "snapshot mk symbol ctx w = (Inr snap, w')" "ms_valid snap"
    and "SIGNAL_ON_CLOSED_CANDLES (mk_cfg mk)" "0 \<le> EMA_SLOW (mk_cfg mk)"
    and "timeframe_seconds (TIMEFRAME (mk_cfg mk)) = Inr secs"
    and "\<And>raw v. mk_ohlcv mk symbol w = (Inr (Some raw), v) \<Longrightarrow> spaced (seconds secs) raw \<and> cd_time (last raw) \<le> clk w"
  shows "ms_row snap = mk_indicators mk (ms_candles snap) \<and> cd_time (last (ms_candles snap)) + seconds secs \<le> clk w
    \<and> clk w - (cd_time (last (ms_candles snap)) + seconds secs) \<le> max_age (mk_cfg mk) (seconds secs)"
proof -
  obtain raw v where raw: "mk_ohlcv mk symbol w = (Inr (Some raw), v)"
    using assms(1,2) by (auto simp: snapshot_def Let_def bindE_apply tryE_def invalid_def split: sum.splits option.splits prod.splits)
  have len: "\<not> int (length raw) < EMA_SLOW (mk_cfg mk) + 5"
    using assms(1,2) by (auto simp: snapshot_def Let_def bindE_apply tryE_def invalid_def raw split: if_splits)
  let ?cl = "evaluated (mk_cfg mk) (clk w) (seconds secs) raw"
  have age: "\<not> max_age (mk_cfg mk) (seconds secs) < candle_age (clk w) (seconds secs) ?cl"
    using assms(1,2) len by (auto simp: snapshot_def Let_def bindE_apply tryE_def invalid_def raw assms(5) split: if_splits)
  have snap: "ms_candles snap = ?cl \<and> ms_row snap = mk_indicators mk ?cl"
    using assms(1) len age by (auto simp: snapshot_def Let_def bindE_apply tryE_def raw assms(5) split: if_splits sum.splits prod.splits)
  have "2 \<le> length raw" using len assms(4) by linarith
  then have "cd_time (last ?cl) + seconds secs \<le> clk w"
    using evaluated_closed [OF assms(3)] assms(6) [OF raw] by blast
  then show ?thesis using snap age by (simp add: candle_age_def)
qed

text \<open>
  A wick from before the entry never triggers the stop. The low that is compared with the stop is the least one
  among the recent candles that closed after the position was opened, if there is any.
\<close>

theorem stop_low_after_entry:
  "stop_check_low snap (Some opened) =
     (let after = {c \<in> set (ms_recent snap). opened < fst c} in if after = {} then None else Some (Min (snd ` after)))"
proof -
  have m: "Some (foldl min l ls) = Some (Min (set (l # ls)))" for l :: rat and ls
    using Min.set_eq_fold [of l ls] by (simp only: foldl_conv_fold min.commute)
  let ?f = "filter (\<lambda>(close_time, _). opened < close_time) (ms_recent snap)"
  have s: "{c \<in> set (ms_recent snap). opened < fst c} = set ?f" by auto
  show ?thesis
    unfolding s Let_def stop_check_low_def
    by (cases ?f) (use m in \<open>auto simp: case_prod_beta\<close>)
qed

definition demo_candles :: "candle list" where
  "demo_candles = map (\<lambda>h. \<lparr>cd_time = h * 3600000000, cd_open = 100, cd_high = 101, cd_low = 99, cd_close = 100, cd_volume = 1\<rparr>)
     [0, 1, 2, 3, 4, 5]"

definition demo_market :: "unit market" where
  "demo_market = \<lparr>mk_cfg = demo_config\<lparr>EMA_SLOW := 1\<rparr>, mk_ohlcv = (\<lambda>_. ret (Some demo_candles)), mk_global = ret None, mk_news = ret [],
     mk_indicators = (\<lambda>_. demo_indicators), mk_vader = None\<rparr>"

theorem snapshot_closed_and_fresh_witness:
  "let w = \<lparr>db = empty_ledger, depth = 0, clk = 20000000000, ext = ()\<rparr> in
   \<exists>snap w'. snapshot demo_market ''BTC/USDT'' True w = (Inr snap, w')
    \<and> ms_row snap = demo_indicators \<and> cd_time (last (ms_candles snap)) + 3600000000 \<le> clk w"
  unfolding Let_def
proof -
  let ?w = "\<lparr>db = empty_ledger, depth = 0, clk = 20000000000, ext = ()\<rparr> :: unit world"
  have tf: "timeframe_seconds (TIMEFRAME (mk_cfg demo_market)) = Inr 3600"
    by (simp add: demo_market_def demo_config_def) code_simp
  have len: "length demo_candles = 6" "cd_time (last demo_candles) = 18000000000" "cd_time (last (butlast demo_candles)) = 14400000000"
    by (simp_all add: demo_candles_def)
  have fields: "mk_cfg demo_market = demo_config\<lparr>EMA_SLOW := 1\<rparr>" "mk_ohlcv demo_market s = ret (Some demo_candles)"
      "mk_global demo_market = ret None" "mk_news demo_market = ret []" "mk_indicators demo_market c = demo_indicators" for s c
    by (simp_all add: demo_market_def)
  have cfg: "SIGNAL_ON_CLOSED_CANDLES demo_config" "MARKET_DATA_MAX_AGE_CANDLES demo_config = 2"
    by (simp_all add: demo_config_def)
  have age: "\<not> max_age demo_config (seconds 3600) < candle_age 20000000000 (seconds 3600) (butlast demo_candles)"
    by (simp add: max_age_def candle_age_def cfg len seconds_def half_even_def)
  have "\<exists>snap w'. snapshot demo_market ''BTC/USDT'' True ?w = (Inr snap, w') \<and> ms_valid snap"
    using age tf
    by (simp add: snapshot_def Let_def bindE_apply tryE_def fields len evaluated_def cfg seconds_def headline_titles_def max_age_def)
  then obtain snap w' where snap: "snapshot demo_market ''BTC/USDT'' True ?w = (Inr snap, w')" "ms_valid snap" by blast
  have sp: "spaced (seconds 3600) demo_candles" by (simp add: demo_candles_def seconds_def)
  have "ms_row snap = mk_indicators demo_market (ms_candles snap) \<and> cd_time (last (ms_candles snap)) + seconds 3600 \<le> clk ?w
    \<and> clk ?w - (cd_time (last (ms_candles snap)) + seconds 3600) \<le> max_age (mk_cfg demo_market) (seconds 3600)"
    by (rule snapshot_closed_and_fresh [OF snap _ _ tf]) (simp_all add: fields cfg sp len)
  then show "\<exists>snap w'. snapshot demo_market ''BTC/USDT'' True ?w = (Inr snap, w')
    \<and> ms_row snap = demo_indicators \<and> cd_time (last (ms_candles snap)) + 3600000000 \<le> clk ?w"
    using snap(1) by (intro exI [of _ snap] exI [of _ w']) (simp add: fields seconds_def)
qed

end
