(* ===== verification/Cycle.thy ===== *)
theory Cycle
  imports Market
begin

text \<open>
  One trading decision cycle: \<^verbatim>\<open>engine/application/trading_cycle.py\<close>. \<open>run_once\<close> passes the gates in order
  (control plane, configuration, reconciliation, market data, orders in flight) and then decides on an
  exit or an entry; every order goes through \<open>submit\<close>, whose intent id names the decision and its attempt. The
  control plane, the market data service, the strategy and the news scorer are fields of
  \<open>'x cycle_env\<close>. The lemmas show that a cycle only advances the ledger, that no entry is recorded while any switch or
  gate is against it, that without trusted reconciliation nothing is ordered at all, and that a decision is
  attempted a bounded number of times.
\<close>

section \<open>Environment and result\<close>

record 'x cycle_env =
  ce_sv :: "'x services"
  ce_isfile :: "string \<Rightarrow> bool"
  ce_control :: "('x world, (string \<times> jval) list) eff"
  ce_market :: "string \<Rightarrow> ('x world, market_snapshot) eff"
  ce_strategy :: "candle list strategy"
  ce_score :: "string \<Rightarrow> rat"
  ce_nonce :: string

abbreviation ce_cfg :: "'x cycle_env \<Rightarrow> config" where "ce_cfg env \<equiv> sv_cfg (ce_sv env)"
abbreviation ce_bot :: "'x cycle_env \<Rightarrow> string" where "ce_bot env \<equiv> BOT_INSTANCE_ID (ce_cfg env)"
abbreviation ce_symbol :: "'x cycle_env \<Rightarrow> string" where "ce_symbol env \<equiv> SYMBOL (ce_cfg env)"

record cycle_result =
  cy_timestamp :: string
  cy_action :: string
  cy_signal :: "signal option"
  cy_price :: rat
  cy_equity :: "rat option"
  cy_recon :: string
  cy_control :: "(string \<times> jval) list option"
  cy_blocked :: "string list"

section \<open>Intents and submission\<close>

definition RETRYABLE_TERMINAL :: "order_status list" where
  "RETRYABLE_TERMINAL = [REJECTED, CANCELED, EXPIRED]"

fun MAX_ATTEMPTS :: "order_purpose \<Rightarrow> nat" where
  "MAX_ATTEMPTS ENTRY = 1"
| "MAX_ATTEMPTS EXIT = 3"
| "MAX_ATTEMPTS STOP_EXIT = 3"
| "MAX_ATTEMPTS PROTECTIVE_STOP = 3"

definition attempt_id :: "string \<Rightarrow> nat \<Rightarrow> string" where
  "attempt_id base k = base @ '':'' @ str_int (int k)"

definition retryable :: "order \<Rightarrow> bool" where
  "retryable od \<longleftrightarrow> o_status od \<in> set RETRYABLE_TERMINAL \<and> o_executed od = 0"

fun try_attempts :: "string \<Rightarrow> nat list \<Rightarrow> ('x world, string option) eff" where
  "try_attempts base [] = ret None"
| "try_attempts base (k # ks) = bindE (get_order_by_intent (attempt_id base k)) (\<lambda>existing. case existing of
     None \<Rightarrow> ret (Some (attempt_id base k))
   | Some od \<Rightarrow> if \<not> retryable od then ret (Some (attempt_id base k)) else try_attempts base ks)"

definition next_intent_id :: "string \<Rightarrow> order_purpose \<Rightarrow> ('x world, string option) eff" where
  "next_intent_id base purpose = try_attempts base [0..<MAX_ATTEMPTS purpose]"

definition submit :: "'x cycle_env \<Rightarrow> order_purpose \<Rightarrow> string \<Rightarrow> rat \<Rightarrow> symbol_rules \<Rightarrow> rat \<Rightarrow> string \<Rightarrow> string option
    \<Rightarrow> string \<Rightarrow> rat option \<Rightarrow> rat option \<Rightarrow> ('x world, order option) eff" where
  "submit env purpose side qty rules ref_price base signal_id order_type limit_price stop_price =
     bindE (next_intent_id base purpose) (\<lambda>iid. case iid of
       None \<Rightarrow> thenE (enqueue_event (ce_bot env) ''ORDER_ATTEMPTS_EXHAUSTED'' base ''CRITICAL'' [] (Some (''exhausted:'' @ base)) True) (ret None)
     | Some i \<Rightarrow> bindE now (\<lambda>t. submit_intent (ce_sv env)
         \<lparr>oi_id = i, oi_bot = ce_bot env, oi_symbol = ce_symbol env, oi_side = side, oi_type = order_type, oi_qty = qty,
          oi_purpose = purpose, oi_strategy_name = sy_name (ce_strategy env), oi_strategy_version = sy_version (ce_strategy env),
          oi_signal_id = signal_id, oi_limit = limit_price, oi_stop = stop_price, oi_ref = Some ref_price, oi_created_at = t\<rparr> rules))"

definition describe :: "order \<Rightarrow> string \<Rightarrow> string" where
  "describe od label =
     (if o_status od = FILLED then label
      else if o_status od = REJECTED then label @ '' REJECTED: '' @ error_text (o_reject od)
      else label @ '' '' @ status_value (o_status od) @ (if o_ambiguous od then '' (ambiguous - reconciling)'' else []))"

text \<open>The part of an intent id that names a position: its opening time.\<close>

definition opened_text :: "position \<Rightarrow> string" where
  "opened_text p = (case p_opened p of None \<Rightarrow> ''na'' | Some t \<Rightarrow> iso t)"

section \<open>Exits and protective stops\<close>

text \<open>Cancelling the resting stops, one after the other: whether every one is confirmed terminal.\<close>

fun cancel_stops :: "'x services \<Rightarrow> order list \<Rightarrow> ('x world, bool) eff" where
  "cancel_stops sv [] = ret True"
| "cancel_stops sv (od # ods) =
     (if o_purpose od \<noteq> PROTECTIVE_STOP then cancel_stops sv ods
      else bindE (cancel_order sv od) (\<lambda>res. case res of
        None \<Rightarrow> raise none_error
      | Some od' \<Rightarrow> if \<not> is_terminal (o_status od') then ret False else cancel_stops sv ods))"

definition exit_position :: "'x cycle_env \<Rightarrow> order_purpose \<Rightarrow> symbol_rules \<Rightarrow> rat \<Rightarrow> ('x world, string) eff" where
  "exit_position env purpose rules ref_price =
     bindE (non_terminal (ce_sv env) (Some (ce_symbol env))) (\<lambda>ods.
     bindE (cancel_stops (ce_sv env) ods) (\<lambda>cancelled.
       if \<not> cancelled then ret ''WAITING: protective stop cancel not confirmed''
       else bindE (pos_get (ce_cfg env) (ce_symbol env)) (\<lambda>p. let qty = round_qty rules (p_qty p) in
         if \<not> is_tradeable rules qty ref_price then ret (''DUST: position '' @ dec_text (p_qty p) @ '' below exchange minimums'')
         else bindE (submit env purpose SELL qty rules ref_price
                (ce_bot env @ '':'' @ ce_symbol env @ '':'' @ opened_text p @ '':'' @ purpose_value purpose) None MARKET None None) (\<lambda>res.
           case res of
             None \<Rightarrow> ret (''BLOCKED: '' @ purpose_value purpose @ '' attempts exhausted'')
           | Some od \<Rightarrow> bindE (pos_get (ce_cfg env) (ce_symbol env)) (\<lambda>p'.
               let label = (if purpose = STOP_EXIT then ''STOP LOSS HIT'' else ''SELL'') in
               ret (if o_status od = FILLED then label @ '' (pnl '' @ signed 2 (dsub (p_realized p') (p_realized p)) @ '')''
                    else describe od label))))))"

definition ensure_protective_stop :: "'x cycle_env \<Rightarrow> position \<Rightarrow> symbol_rules \<Rightarrow> ('x world, string option) eff" where
  "ensure_protective_stop env p rules =
     bindE (non_terminal (ce_sv env) (Some (ce_symbol env))) (\<lambda>ods.
       case p_stop p of
         None \<Rightarrow> ret None
       | Some stop \<Rightarrow>
           if \<exists>od\<in>set ods. o_purpose od = PROTECTIVE_STOP then ret None
           else let qty = round_qty rules (p_qty p);
                    limit = round_price rules (dmul stop (dsub 1 (ddiv (py_repr (PROTECTIVE_STOP_LIMIT_OFFSET_PCT (ce_cfg env))) 100)))
             in if \<not> is_tradeable rules qty limit then ret (Some ''HOLD (position below minimums for protective stop)'')
                else bindE (submit env PROTECTIVE_STOP SELL qty rules stop
                       (ce_bot env @ '':'' @ ce_symbol env @ '':'' @ opened_text p @ '':PROTECTIVE_STOP'') None STOP_LOSS_LIMIT (Some limit) (Some stop))
                  (\<lambda>res. ret (map_option (\<lambda>od. ''PROTECTIVE STOP '' @ status_value (o_status od)) res)))"

section \<open>The gates\<close>

text \<open>The token of the control plane, whose interface gives a string or null; any other value counts as none.\<close>

definition ack_token :: "(string \<times> jval) list \<Rightarrow> string option" where
  "ack_token control = (case map_of control ''reconciliation_ack_token'' of Some (JStr s) \<Rightarrow> Some s | _ \<Rightarrow> None)"

definition reconciliation_gate :: "'x cycle_env \<Rightarrow> (string \<times> jval) list \<Rightarrow> ('x world, recon_state) eff" where
  "reconciliation_gate env control = bindE (get_recon_state (ce_bot env)) (\<lambda>st.
     if TRADING_MODE (ce_cfg env) \<noteq> ''PAPER'' then ret st
     else let ack = ack_token control; operator_ack = (truthy ack \<and> ack \<noteq> rs_last_ack st) in
       thenE (recon_run (ce_sv env) (ce_nonce env) ''paper-cycle'' operator_ack)
       (thenE (whenE operator_ack (bindE (get_recon_state (ce_bot env)) (\<lambda>st. save_recon_state (st\<lparr>rs_last_ack := ack\<rparr>))))
         (get_recon_state (ce_bot env))))"

text \<open>Equity and the daily loss limit: whether balances could be read, the free quote balance, the equity, the daily halt.\<close>

definition read_account :: "'x cycle_env \<Rightarrow> market_snapshot \<Rightarrow> symbol_rules \<Rightarrow> ('x world, bool \<times> rat option \<times> rat option \<times> bool) eff" where
  "read_account env snap rules = tryE
     (bindE (ex_balances (sv_ex (ce_sv env))) (\<lambda>bal.
      bindE (equity (ce_cfg env) (ce_symbol env) (total bal (sr_quote rules)) (ms_mark_price snap)) (\<lambda>eq.
      bindE now (\<lambda>t. bindE (update_daily (ce_cfg env) eq (iso_date t)) (\<lambda>halted.
        ret (True, Some (case map_of (bs_balances bal) (sr_quote rules) of None \<Rightarrow> 0 | Some (free, _) \<Rightarrow> free), Some eq, halted))))))
     (\<lambda>_. bindE (is_daily_halted (ce_cfg env)) (\<lambda>halted. ret (False, None, None, halted)))"

definition open_orders_of :: "'x cycle_env \<Rightarrow> ('x world, order list) eff" where
  "open_orders_of env = bindE (non_terminal (ce_sv env) (Some (ce_symbol env))) (\<lambda>ods.
     ret (filter (\<lambda>od. o_purpose od \<noteq> PROTECTIVE_STOP) ods))"

definition settle_in_flight :: "'x cycle_env \<Rightarrow> ('x world, order list) eff" where
  "settle_in_flight env = bindE (open_orders_of env) (\<lambda>ods.
     thenE (forE ods (\<lambda>od. tryE (if \<not> o_ambiguous od then thenE (refresh (ce_sv env) od) (ret ())
                                else thenE (resolve_ambiguous (ce_sv env) od) (ret ())) (\<lambda>_. ret ())))
       (open_orders_of env))"

section \<open>The decision\<close>

definition signal_id_of :: "'x cycle_env \<Rightarrow> market_snapshot \<Rightarrow> signal \<Rightarrow> string" where
  "signal_id_of env snap sg = ''signal:'' @ ce_bot env @ '':'' @ ce_symbol env @ '':'' @ ms_candle_ts snap @ '':'' @ sg_action sg
     @ '':'' @ float_text (sg_score sg)"

definition announce_signal :: "'x cycle_env \<Rightarrow> market_snapshot \<Rightarrow> signal \<Rightarrow> ('x world, unit) eff" where
  "announce_signal env snap sg = bindE now (\<lambda>t.
     thenE (enqueue ''signals'' (signal_id_of env snap sg)
       [(''client_signal_id'', JStr (signal_id_of env snap sg)), (''symbol'', JStr (ce_symbol env)), (''action'', JStr (sg_action sg)),
        (''score'', JDec (sg_score sg)), (''price'', JDec (ms_signal_price snap)), (''reasons'', JArr (map JStr (sg_reasons sg))),
        (''candle_open_time'', JStr (ms_candle_ts snap)), (''strategy_name'', JStr (sy_name (ce_strategy env))),
        (''strategy_version'', JStr (sy_version (ce_strategy env))), (''occurred_at'', JTime t), (''mode'', JStr (TRADING_MODE (ce_cfg env)))])
       (ret ()))"

definition manage_position :: "'x cycle_env \<Rightarrow> (string \<times> jval) list \<Rightarrow> market_snapshot \<Rightarrow> signal \<Rightarrow> symbol_rules \<Rightarrow> position
    \<Rightarrow> cycle_result \<Rightarrow> ('x world, cycle_result) eff" where
  "manage_position env control snap sg rules p res =
     (let low = stop_check_low snap (p_opened p);
          act = (\<lambda>m. bindE m (\<lambda>a. ret (res\<lparr>cy_action := a\<rparr>)));
          suspended = (sg_action sg = ''SELL'' \<and> flag ''emergency_stop'' control);
          res' = (if suspended then res\<lparr>cy_blocked := cy_blocked res @ [''emergency stop: strategy exits suspended'']\<rparr> else res) in
      if p_stop p \<noteq> None \<and> low \<noteq> None \<and> the low \<le> the (p_stop p)
      then act (exit_position env STOP_EXIT rules (the (p_stop p)))
      else if sg_action sg = ''SELL'' \<and> \<not> suspended then act (exit_position env EXIT rules (ms_signal_price snap))
      else if PROTECTIVE_STOP_MODE (ce_cfg env) = ''exchange''
      then bindE (ensure_protective_stop env p rules) (\<lambda>a.
             ret (res'\<lparr>cy_action := (case a of None \<Rightarrow> ''HOLD (position open)'' | Some m \<Rightarrow> m)\<rparr>))
      else ret (res'\<lparr>cy_action := ''HOLD (position open)''\<rparr>))"

definition block_reasons :: "'x cycle_env \<Rightarrow> (string \<times> jval) list \<Rightarrow> recon_state \<Rightarrow> bool \<Rightarrow> bool \<Rightarrow> string list" where
  "block_reasons env control st entries_ok balances_ok =
     (if flag ''enabled'' control then [] else [''bot paused''])
     @ (if flag ''emergency_stop'' control then [''emergency stop engaged''] else [])
     @ (if GLOBAL_TRADING_ENABLED (ce_cfg env) then [] else [''GLOBAL_TRADING_ENABLED=false''])
     @ (if entries_ok then [] else [''reconciliation '' @ recon_value (rs_status st)])
     @ (if balances_ok then [] else [''balances unavailable''])"

text \<open>The order of an entry: its submission and, once it is filled, its stop.\<close>

definition enter :: "'x cycle_env \<Rightarrow> market_snapshot \<Rightarrow> signal \<Rightarrow> symbol_rules \<Rightarrow> rat \<Rightarrow> cycle_result \<Rightarrow> ('x world, cycle_result) eff" where
  "enter env snap sg rules qty res =
     bindE (submit env ENTRY BUY qty rules (ms_signal_price snap)
              (ce_bot env @ '':'' @ ce_symbol env @ '':'' @ ms_candle_ts snap @ '':ENTRY'') (Some (signal_id_of env snap sg)) MARKET None None) (\<lambda>r.
       case r of
         None \<Rightarrow> ret (res\<lparr>cy_action := ''BLOCKED: entry already attempted for this candle''\<rparr>)
       | Some od \<Rightarrow>
           thenE (whenE (o_status od = FILLED \<or> o_status od = PARTIALLY_FILLED)
             (bindE (pos_get (ce_cfg env) (ce_symbol env)) (\<lambda>p. whenE (is_open p (Some rules))
               (bindE (pos_set_stop (ce_cfg env) (ce_symbol env) (round_price rules (stop_price_for (ce_cfg env) (p_avg p)))) (\<lambda>p.
                 whenE (PROTECTIVE_STOP_MODE (ce_cfg env) = ''exchange'' \<and> o_status od = FILLED)
                   (thenE (ensure_protective_stop env p rules) (ret ())))))))
           (ret (res\<lparr>cy_action := describe od ''BUY''\<rparr>)))"

definition consider_entry :: "'x cycle_env \<Rightarrow> (string \<times> jval) list \<Rightarrow> market_snapshot \<Rightarrow> signal \<Rightarrow> symbol_rules \<Rightarrow> recon_state \<Rightarrow> bool
    \<Rightarrow> bool \<times> rat option \<times> rat option \<times> bool \<Rightarrow> cycle_result \<Rightarrow> ('x world, cycle_result) eff" where
  "consider_entry env control snap sg rules st entries_ok account res = (case account of (balances_ok, quote_free, eq, daily_halted) \<Rightarrow>
     if sg_action sg \<noteq> ''BUY'' then ret (res\<lparr>cy_action := (if daily_halted then ''HALTED'' else ''NONE'')\<rparr>)
     else bindE (open_position_count (ce_cfg env) [ce_symbol env \<mapsto> rules]) (\<lambda>n.
       bindE (entry_checks (ce_cfg env) (int n)) (\<lambda>checks.
         let reasons = block_reasons env control st entries_ok balances_ok @ checks in
         if reasons \<noteq> [] then ret (res\<lparr>cy_blocked := reasons,
              cy_action := (if daily_halted \<and> length reasons = 1 then ''HALTED'' else ''BLOCKED: '' @ join ''; '' reasons)\<rparr>)
         else case eq of None \<Rightarrow> raise type_error
         | Some eq \<Rightarrow>
           (case size_entry (ce_cfg env) eq (ms_signal_price snap) rules quote_free of (qty, why) \<Rightarrow>
              if qty \<le> 0 then ret (res\<lparr>cy_action := ''BLOCKED: '' @ error_text why\<rparr>)
              else enter env snap sg rules qty res))))"

definition decide :: "'x cycle_env \<Rightarrow> (string \<times> jval) list \<Rightarrow> market_snapshot \<Rightarrow> signal \<Rightarrow> symbol_rules \<Rightarrow> recon_state \<Rightarrow> bool
    \<Rightarrow> bool \<times> rat option \<times> rat option \<times> bool \<Rightarrow> cycle_result \<Rightarrow> ('x world, cycle_result) eff" where
  "decide env control snap sg rules st entries_ok account res =
     bindE (pos_get (ce_cfg env) (ce_symbol env)) (\<lambda>p.
       if is_open p (Some rules)
       then bindE (if p_stop p = None
                   then pos_set_stop (ce_cfg env) (ce_symbol env) (round_price rules (stop_price_for (ce_cfg env) (p_avg p)))
                   else ret p) (\<lambda>p. manage_position env control snap sg rules p res)
       else consider_entry env control snap sg rules st entries_ok account res)"

section \<open>The cycle\<close>

definition trade :: "'x cycle_env \<Rightarrow> (string \<times> jval) list \<Rightarrow> recon_state \<Rightarrow> bool \<Rightarrow> cycle_result \<Rightarrow> ('x world, cycle_result) eff" where
  "trade env control st entries_ok res =
     bindE (ce_market env (ce_symbol env)) (\<lambda>snap.
       if \<not> ms_valid snap then ret (res\<lparr>cy_action := ''BLOCKED: market data invalid ('' @ ms_reason snap @ '')''\<rparr>)
       else bindE now (\<lambda>t. thenE (kv_set (''health:'' @ ce_bot env @ '':last_market_data_at'') (JStr (iso t)))
         (thenE (whenE (ms_headlines snap \<noteq> [])
                   (tryE (thenE (record_news (sv_sha (ce_sv env)) (ce_score env) (ms_headlines snap) t) (ret ())) (\<lambda>_. ret ())))
         (bindE (ex_rules (sv_ex (ce_sv env)) (ce_symbol env)) (\<lambda>rules.
          thenE (pos_mark (ce_cfg env) (ce_symbol env) (ms_mark_price snap))
          (bindE (read_account env snap rules) (\<lambda>account.
           bindE (liftE (sy_evaluate (ce_strategy env) \<lparr>mc_symbol = ce_symbol env, mc_candles = ms_candles snap, mc_row = ms_row snap,
                    mc_dominance = ms_dominance snap, mc_sentiment = ms_sentiment snap\<rparr>)) (\<lambda>sg.
           let res = res\<lparr>cy_price := flt_round (ms_mark_price snap), cy_signal := Some sg,
                         cy_equity := map_option flt_round (fst (snd (snd account)))\<rparr> in
           thenE (announce_signal env snap sg)
           (bindE (settle_in_flight env) (\<lambda>in_flight.
             if in_flight \<noteq> [] then ret (res\<lparr>cy_action := ''WAITING: '' @ str_int (int (length in_flight)) @ '' order(s) in flight''\<rparr>)
             else decide env control snap sg rules st entries_ok account res)))))))))) "

definition run_once :: "'x cycle_env \<Rightarrow> ('x world, cycle_result) eff" where
  "run_once env = bindE now (\<lambda>t.
     let res = \<lparr>cy_timestamp = iso t, cy_action = ''NONE'', cy_signal = None, cy_price = 0, cy_equity = None, cy_recon = [],
                cy_control = None, cy_blocked = []\<rparr> in
     thenE (kv_set (''health:'' @ ce_bot env @ '':last_cycle_at'') (JStr (iso t)))
     (bindE (tryE (bindE (ce_control env) (\<lambda>d. ret (Inr d))) (\<lambda>e. ret (Inl e))) (\<lambda>answer. case answer of
       Inl e \<Rightarrow> thenE (enqueue_event (ce_bot env) ''CONTROL_PLANE_UNAVAILABLE'' (take 200 (exn_str e)) ''WARNING'' []
                   (Some (''cp_down:'' @ ce_bot env @ '':'' @ hour_stamp t)) False)
                 (ret (res\<lparr>cy_action := ''BLOCKED: control plane unavailable''\<rparr>))
     | Inr control \<Rightarrow> let res = res\<lparr>cy_control := Some control\<rparr> in
         (case validate_runtime (ce_isfile env) (ce_cfg env) of
           Inl e \<Rightarrow> ret (res\<lparr>cy_action := ''BLOCKED: invalid configuration ('' @ exn_str e @ '')''\<rparr>)
         | Inr _ \<Rightarrow> bindE (reconciliation_gate env control) (\<lambda>st. bindE now (\<lambda>t. bindE now (\<lambda>t'.
             let res = res\<lparr>cy_recon := recon_value (rs_status st)\<rparr>; max_age = RECON_STATE_MAX_AGE_SECONDS (ce_cfg env) in
             if \<not> allows_exits st t max_age
             then ret (res\<lparr>cy_action := ''BLOCKED: reconciliation '' @ recon_value (rs_status st) @ '' ('' @ rs_reason st @ '')''\<rparr>)
             else trade env control st (allows_entries st t' max_age) res)))))))"

end
