(* ===== verification/Gates.thy ===== *)
theory Gates
  imports Cycle
begin

text \<open>
  Which intents a call may add, and whether it may write the reconciliation state. \<open>adds W Q m\<close> says that every intent a
  call of \<open>m\<close> records satisfies \<open>Q\<close> and, unless \<open>W\<close>, that the stored reconciliation state stays as it is; it is closed
  under composition, every operation of the store except the insertion of an intent and the writing of that state satisfies it for every
  \<open>Q\<close>, and so do the services under an executor that does not write intents (locale \<open>order_execution\<close>, an
  extension of \<open>execution\<close>). From it follow the gate properties of the trading cycle.
\<close>

named_theorems adds_intros \<open>calls and the intents they add\<close>

definition only_new :: "bool \<Rightarrow> (intent \<Rightarrow> bool) \<Rightarrow> ledger \<Rightarrow> ledger \<Rightarrow> bool" where
  "only_new W Q d d' \<longleftrightarrow> (\<forall>it\<in>set (d_intents d'). it \<in> set (d_intents d) \<or> Q it) \<and> (W \<or> d_recon d' = d_recon d)"

interpretation new_intents: ledger_preorder "only_new W Q" for W Q
  by unfold_locales (auto simp: only_new_def)

abbreviation adds :: "bool \<Rightarrow> (intent \<Rightarrow> bool) \<Rightarrow> ('x world, 'a) eff \<Rightarrow> bool" where
  "adds W Q \<equiv> keeps (\<lambda>w w'. only_new W Q (db w) (db w'))"

lemmas [adds_intros] = new_intents.world.keeps_ret new_intents.world.keeps_raise new_intents.world.keeps_getE
  new_intents.world.keeps_liftE new_intents.world.keeps_objE new_intents.world.keeps_bindE new_intents.world.keeps_thenE
  new_intents.world.keeps_tryE new_intents.world.keeps_whenE new_intents.world.keeps_if new_intents.world.keeps_option
  new_intents.world.keeps_foldE new_intents.world.keeps_forE new_intents.keeps_transaction new_intents.keeps_db_get new_intents.keeps_now

lemma adds_upd: "(\<And>d. d_intents (f d) = d_intents d \<and> d_recon (f d) = d_recon d) \<Longrightarrow> adds W Q (db_upd f)"
  by (rule new_intents.keeps_db_upd) (simp add: only_new_def)

lemma adds_mono: "adds W Q m \<Longrightarrow> (\<And>it. Q it \<Longrightarrow> R it) \<Longrightarrow> (W \<Longrightarrow> V) \<Longrightarrow> adds V R m"
  by (erule keeps_mono) (auto simp: only_new_def)

lemma adds_none: "adds False (\<lambda>_. False) m \<Longrightarrow> adds W Q m"
  by (erule adds_mono) simp_all

lemma addsD: "adds W Q m \<Longrightarrow> m w = (r, w') \<Longrightarrow> it \<in> set (d_intents (db w')) \<Longrightarrow> it \<notin> set (d_intents (db w)) \<Longrightarrow> Q it"
  by (drule (1) keepsD) (auto simp: only_new_def)

lemma addsS: "adds W Q m \<Longrightarrow> only_new W Q (db w) (db (snd (m w)))"
  by (rule keepsS)

text \<open>The operations of the store.\<close>

lemma adds_reads [adds_intros]:
  "adds W Q (get_order c)" "adds W Q (get_order_by_intent i)" "adds W Q (intent_signal_id i)" "adds W Q (get_order_by_exchange_id e x)"
  "adds W Q (non_terminal_orders b s)" "adds W Q (list_orders b s n)" "adds W Q (fill_exists k)" "adds W Q (list_fills b s')"
  "adds W Q (fills_for_order j)" "adds W Q (get_position b s')" "adds W Q (list_positions b)" "adds W Q (get_recon_state b)"
  "adds W Q (kv_get k)"
  unfolding get_order_def get_order_by_intent_def intent_signal_id_def get_order_by_exchange_id_def
    non_terminal_orders_def list_orders_def fill_exists_def list_fills_def fills_for_order_def get_position_def
    list_positions_def get_recon_state_def kv_get_def
  by (intro adds_intros)+

lemma adds_writes [adds_intros]:
  "adds W Q (save_order od)" "adds W Q (insert_fill f)" "adds W Q (save_position p)" "adds W Q (mark_event_processed key src ty)"
  "adds W Q (record_recon_run key b reason status started summary mms)" "adds W Q (enqueue kind key' payload)"
  "adds W Q (kv_set k v)" "adds W Q (record_news sha score items t)"
  unfolding save_order_def insert_fill_def save_position_def mark_event_processed_def record_recon_run_def
    enqueue_def kv_set_def record_news_def Let_def
  by (intro adds_intros adds_upd; simp)+

lemma adds_save_recon_state [adds_intros]: "adds True Q (save_recon_state st)"
  by (rule keepsI) (simp add: save_recon_result only_new_def)

lemma adds_insert_intent: "Q it \<Longrightarrow> adds W Q (insert_intent_and_order it od)"
proof -
  assume q: "Q it"
  have "adds W Q (db_upd (\<lambda>d. d\<lparr>d_intents := d_intents d @ [it]\<rparr>))"
    by (rule new_intents.keeps_db_upd) (auto simp: only_new_def q)
  then show ?thesis unfolding insert_intent_and_order_def Let_def by (intro adds_intros; (assumption | simp add: adds_upd))
qed

lemma keeps_sum: "(\<And>e. x = Inl e \<Longrightarrow> keeps P (f e)) \<Longrightarrow> (\<And>a. x = Inr a \<Longrightarrow> keeps P (g a)) \<Longrightarrow>
    keeps P (case x of Inl e \<Rightarrow> f e | Inr a \<Rightarrow> g a)"
  by (cases x) simp_all

section \<open>The services\<close>

text \<open>An executor that satisfies the contract and leaves the recorded intents alone.\<close>

locale order_execution = execution ex for ex :: "'x executor" +
  assumes ex_adds: "adds False (\<lambda>_. False) (ex_rules ex symbol)" "adds False (\<lambda>_. False) (ex_submit ex od rules)"
    "adds False (\<lambda>_. False) (ex_query ex od)" "adds False (\<lambda>_. False) (ex_query_by_id ex symbol x)"
    "adds False (\<lambda>_. False) (ex_fills ex od)" "adds False (\<lambda>_. False) (ex_cancel ex od)"
    "adds False (\<lambda>_. False) (ex_open_orders ex symbol)" "adds False (\<lambda>_. False) (ex_recent_fills ex symbol since)"
    "adds False (\<lambda>_. False) (ex_balances ex)"

lemma adds_orders [adds_intros]:
  "adds W Q (enqueue_event b ty m sev p key alert)" "adds W Q (enqueue_order od)" "adds W Q (save_and_enqueue od)"
  "adds W Q (record_conflict sv c st m src)" "adds W Q (find_order sv c' x)"
  unfolding enqueue_event_def enqueue_order_def save_and_enqueue_def record_conflict_def find_order_def Let_def
  by (intro adds_intros)+

lemma adds_report_transaction [adds_intros]: "adds W Q (report_transaction sv r)"
  unfolding report_transaction_def by (auto intro!: adds_intros split: option.split prod.split sum.split exn.split)

lemma adds_service_apply_report [adds_intros]: "adds W Q (service_apply_report sv r src)"
  unfolding service_apply_report_def by (auto intro!: adds_intros split: option.split prod.split)

lemma adds_positions [adds_intros]:
  "adds W Q (pos_get cfg s)" "adds W Q (pos_apply_fill cfg f)" "adds W Q (pos_rebuild cfg s persist)" "adds W Q (pos_set_stop cfg s st)"
  "adds W Q (pos_mark cfg s pr)" "adds W Q (open_position_count cfg rl)" "adds W Q (paper_cash cfg s)" "adds W Q (equity cfg s c pr)"
  unfolding pos_get_def pos_apply_fill_def pos_rebuild_def pos_set_stop_def pos_mark_def open_position_count_def paper_cash_def
    equity_def Let_def
  by (auto intro!: adds_intros split: prod.split option.split)

lemma adds_ingest_fill [adds_intros]: "adds W Q (ingest_fill sv xf src)"
  unfolding ingest_fill_def ingest_body_def announce_fill_def Let_def by (intro adds_intros)

lemma adds_update_order [adds_intros]: "(\<And>od. adds W Q (after od)) \<Longrightarrow> adds W Q (update_order c change after)"
  unfolding update_order_def by (auto intro!: adds_intros split: option.split prod.split)

lemma adds_reject_order [adds_intros]: "adds W Q (reject_order c reason)"
  unfolding reject_order_def by (intro adds_intros)

lemma adds_persist_submission: "Q it \<Longrightarrow> adds W Q (persist_submission sv it rules)"
  unfolding persist_submission_def
  by (auto intro!: adds_intros adds_insert_intent split: prod.split)

context order_execution
begin

lemma ex_calls:
  assumes "sv_ex sv = ex"
  shows "adds W Q (ex_rules (sv_ex sv) symbol)" "adds W Q (ex_submit (sv_ex sv) od rules)" "adds W Q (ex_query (sv_ex sv) od)"
    "adds W Q (ex_query_by_id (sv_ex sv) symbol x)" "adds W Q (ex_fills (sv_ex sv) od)" "adds W Q (ex_cancel (sv_ex sv) od)"
    "adds W Q (ex_open_orders (sv_ex sv) symbol)" "adds W Q (ex_recent_fills (sv_ex sv) symbol since)" "adds W Q (ex_balances (sv_ex sv))"
  unfolding assms by (rule adds_none, rule ex_adds)+

lemma adds_ingest_order_fills: "sv_ex sv = ex \<Longrightarrow> adds W Q (ingest_order_fills sv od)"
  unfolding ingest_order_fills_def by (auto intro!: adds_intros ex_calls split: option.split)

lemma adds_refresh: "sv_ex sv = ex \<Longrightarrow> adds W Q (refresh sv od)"
  unfolding refresh_def
  by (auto intro!: adds_intros ex_calls adds_ingest_order_fills split: option.split)

lemma adds_resolve_ambiguous: "sv_ex sv = ex \<Longrightarrow> adds W Q (resolve_ambiguous sv od)"
  unfolding resolve_ambiguous_def Let_def
  by (auto intro!: adds_intros ex_calls adds_ingest_order_fills split: option.split)

lemma adds_settle_outcome: "sv_ex sv = ex \<Longrightarrow> adds W Q (settle_outcome sv od oc)"
  unfolding settle_outcome_def
  by (auto intro!: adds_intros adds_resolve_ambiguous split: option.split submit_outcome_kind.split)

lemma adds_submit_intent: "sv_ex sv = ex \<Longrightarrow> Q it \<Longrightarrow> adds W Q (submit_intent sv it rules)"
  unfolding submit_intent_def
  by (auto intro!: adds_intros adds_persist_submission ex_calls adds_settle_outcome split: option.split sum.split)

lemma adds_cancel_order: "sv_ex sv = ex \<Longrightarrow> adds W Q (cancel_order sv od)"
  unfolding cancel_order_def
  by (auto intro!: adds_intros ex_calls adds_refresh)

end

text \<open>The PAPER executor only writes its key-value table.\<close>

lemma adds_paper_balances [adds_intros]: "adds W Q (paper_balances cfg s)"
  unfolding paper_balances_def by (auto intro!: adds_intros split: prod.split)

interpretation paper_orders: order_execution "paper_executor cfg"
proof
  show "adds False (\<lambda>_. False) (ex_submit (paper_executor cfg) od rules)" for od rules
    by (auto simp: paper_executor_def paper_submit_def Let_def intro!: adds_intros split: option.split)
qed (auto simp: paper_executor_def paper_query_def paper_lookup_def paper_query_fills_def paper_symbol_rules_def
    paper_cancel_def paper_balance_snapshot_def intro!: adds_intros split: option.split prod.split)

section \<open>A reconciliation run records no intent\<close>

abbreviation rx_adds :: "bool \<Rightarrow> (intent \<Rightarrow> bool) \<Rightarrow> ('x recon_ctx, 'a) eff \<Rightarrow> bool" where
  "rx_adds W Q \<equiv> keeps (\<lambda>c c'. only_new W Q (db (rx_world c)) (db (rx_world c')))"

interpretation run_intents: step_preorder "\<lambda>c c' :: 'x recon_ctx. only_new W Q (db (rx_world c)) (db (rx_world c'))" for W Q
  by unfold_locales (auto simp: only_new_def)

lemmas [adds_intros] = run_intents.keeps_ret run_intents.keeps_raise run_intents.keeps_bindE run_intents.keeps_thenE
  run_intents.keeps_tryE run_intents.keeps_whenE run_intents.keeps_if run_intents.keeps_foldE run_intents.keeps_forE

lemma rx_adds_call [adds_intros]: "adds W Q m \<Longrightarrow> rx_adds W Q (call m)"
  by (rule keepsI) (auto simp: call_def split: prod.split dest: keepsD)

lemma rx_adds_locals [adds_intros]:
  "rx_adds W Q (found m)" "rx_adds W Q (summarise k v)" "rx_adds W Q (updE (\<lambda>c :: 'x recon_ctx. c\<lparr>rx_pending := f c\<rparr>))"
  by (auto simp: keeps_def found_def summarise_def only_new_def)

lemma rx_adds_catch [adds_intros]: "rx_adds W Q m \<Longrightarrow> rx_adds W Q (catch_conflict c m)"
  unfolding catch_conflict_def by (auto intro!: adds_intros split: exn.split)

lemma adds_set_state [adds_intros]: "adds True Q (set_state cfg status reason success f)"
  unfolding set_state_def Let_def by (intro adds_intros)

lemma adds_finish [adds_intros]: "adds True Q (finish_run cfg res reason t)" "adds True Q (failed_run cfg res reason t)"
  unfolding finish_run_def failed_run_def persist_run_def by (intro adds_intros)+

context order_execution
begin

lemma adds_check_orders:
  assumes "sv_ex sv = ex"
  shows "rx_adds W Q (check_local sv od)" "rx_adds W Q (verify_terminal sv od)" "rx_adds W Q (check_exchange_open sv rep)"
    "rx_adds W Q (check_explained sv tol od)"
  using assms unfolding check_local_def verify_terminal_def check_exchange_open_def check_explained_def Let_def
  by (auto intro!: adds_intros ex_calls adds_refresh adds_resolve_ambiguous adds_ingest_order_fills
      simp: fill_quantity_def split: option.split)

lemma adds_recover_fill: "sv_ex sv = ex \<Longrightarrow> rx_adds W Q (recover_fill sv xf acc)"
  unfolding recover_fill_def Let_def by (auto intro!: adds_intros ex_calls split: option.split)

lemma adds_rebuild_position: "sv_ex sv = ex \<Longrightarrow> rx_adds W Q (rebuild_position sv rules tol key)"
  unfolding rebuild_position_def Let_def by (auto intro!: adds_intros ex_calls split: prod.split)

lemma adds_recon_body: "sv_ex sv = ex \<Longrightarrow> rx_adds W Q (recon_body sv since key)"
  unfolding recon_body_def recon_orders_def recon_fills_def list_own_def check_protective_stop_def non_terminal_def Let_def
  by (auto intro!: adds_intros ex_calls adds_check_orders adds_recover_fill adds_rebuild_position split: prod.split option.split)

lemma adds_run_body:
  assumes "sv_ex sv = ex" "\<And>e c. adds W Q (fail e c)" "\<And>c. adds W Q (fin c)"
    and G: "\<And>w. G w = (case recon_body sv since key \<lparr>rx_world = w, rx_mismatches = [], rx_summary = s, rx_pending = 0\<rparr> of
      (Inl e, c) \<Rightarrow> fail e c (rx_world c) | (Inr u, c) \<Rightarrow> fin c (rx_world c))"
  shows "adds W Q G"
proof (rule keepsI)
  fix w :: "'x world"
  let ?c = "\<lparr>rx_world = w, rx_mismatches = [], rx_summary = s, rx_pending = 0\<rparr>"
  obtain r c where b: "recon_body sv since key ?c = (r, c)" by (cases "recon_body sv since key ?c")
  have c: "only_new W Q (db w) (db (rx_world c))" using keepsD [OF adds_recon_body [OF assms(1)] b] by simp
  show "only_new W Q (db w) (db (snd (G w)))"
    using b new_intents.Q_trans [OF c keepsS [OF assms(2)]] new_intents.Q_trans [OF c keepsS [OF assms(3)]]
    unfolding G by (cases r) auto
qed

lemma adds_recon_run:
  assumes "sv_ex sv = ex"
  shows "adds True Q (recon_run sv nonce reason ack)"
proof -
  have fin: "adds True Q (\<lambda>w. case v of (status, why) \<Rightarrow> finish_run cfg (res status why) reason t w)" for v cfg res t
    by (cases v) (simp add: adds_finish)
  show ?thesis unfolding recon_run_def Let_def
    apply (intro adds_intros)
    apply (rule adds_run_body [OF assms])
      apply (rule adds_finish(2))
     apply (rule fin)
    apply (rule refl)
    done
qed

end

section \<open>The intents of a trading cycle\<close>

lemma adds_risk [adds_intros]:
  "adds W Q (risk_row cfg)" "adds W Q (is_daily_halted cfg)" "adds W Q (update_daily cfg eq today)" "adds W Q (entry_checks cfg n)"
  unfolding risk_row_def is_daily_halted_def update_daily_def entry_checks_def Let_def
  by (auto intro!: adds_intros split: option.split prod.split)

lemma adds_non_terminal [adds_intros]: "adds W Q (non_terminal sv s)" "adds W Q (open_orders_of env)" "adds W Q (announce_signal env snap sg)"
  unfolding non_terminal_def open_orders_of_def announce_signal_def by (intro adds_intros)+

lemma safe_record_news [keeps_intros]: "safe (record_news sha score items t)"
  unfolding record_news_def Let_def
proof (intro safe_transaction adv.keeps_foldE adv.keeps_if adv.keeps_ret safe_tables)
  fix h :: headline and new
  let ?m = "bindE (db_get d_news) (\<lambda>rows. if news_key sha h (strip (or_empty (h_title h))) \<in> nw_key ` set rows then ret new
      else thenE (db_upd (\<lambda>d. d\<lparr>d_news := d_news d @ [\<lparr>nw_seen = t, nw_published = h_published h, nw_source = h_source h,
             nw_title = take 500 (strip (or_empty (h_title h))), nw_sentiment = score (strip (or_empty (h_title h))),
             nw_key = news_key sha h (strip (or_empty (h_title h)))\<rparr>]\<rparr>)) (ret (new + 1)))"
  show "keeps_inv ?m"
    by (rule keeps_inv_step) (auto simp: ledger_inv_def orders_inv_def fills_inv_def tables_inv_def)
  show "\<exists>d'. snd (?m w) = w\<lparr>db := d'\<rparr> \<and> d_orders d' = d_orders (db w) \<and> d_intents d' = d_intents (db w)
      \<and> prefix (d_fills (db w)) (d_fills d') \<and> prefix (d_processed (db w)) (d_processed d')
      \<and> (\<forall>a\<in>set (d_outbox (db w)). \<exists>b\<in>set (d_outbox d'). message_le a b)" for w
    by (auto simp: world_db_ex)
qed

lemma safe_positions [keeps_intros]:
  "safe (pos_get cfg s)" "safe (pos_set_stop cfg s st)" "safe (pos_mark cfg s pr)" "safe (open_position_count cfg rl)" "safe (equity cfg s c pr)"
  unfolding pos_get_def pos_set_stop_def pos_mark_def open_position_count_def equity_def Let_def
  by (auto intro!: keeps_intros split: prod.split option.split)

lemma safe_try_attempts [keeps_intros]: "safe (try_attempts base ks)"
  by (induction ks) (simp_all only: try_attempts.simps, (intro keeps_intros)+)

lemma safe_cycle_parts [keeps_intros]:
  "safe (next_intent_id base purpose)" "safe (non_terminal sv s)" "safe (open_orders_of env)" "safe (announce_signal env snap sg)"
  unfolding next_intent_id_def non_terminal_def open_orders_of_def announce_signal_def by (intro keeps_intros)+

lemma adds_try_attempts [adds_intros]: "adds W Q (try_attempts base ks)"
  by (induction ks) (simp_all only: try_attempts.simps, (intro adds_intros)+)

lemma adds_next_intent_id [adds_intros]: "adds W Q (next_intent_id base purpose)"
  unfolding next_intent_id_def by (intro adds_intros)

text \<open>An earlier attempt of a decision that ended without any fill.\<close>

definition attempt_failed :: "string \<Rightarrow> ledger \<Rightarrow> nat \<Rightarrow> bool" where
  "attempt_failed base d k \<longleftrightarrow> (\<exists>od\<in>set (d_orders d). o_intent od = attempt_id base k \<and> retryable od)"

text \<open>The world in which the control plane is asked: the one the cycle starts in, with its health entry.\<close>

definition asked :: "'x cycle_env \<Rightarrow> 'x world \<Rightarrow> 'x world" where
  "asked env w = snd (kv_set (''health:'' @ ce_bot env @ '':last_cycle_at'') (JStr (iso (clk w))) w)"

lemma thenE_kv_set: "thenE (kv_set k v) m w = m (snd (kv_set k v w))"
  by (simp add: kv_set_def transaction_def Let_def thenE_def bindE_apply)

lemma bindE_answer: "bindE (tryE (bindE c (\<lambda>d. ret (Inr d))) (\<lambda>e. ret (Inl e))) f w
    = (case c w of (Inl e, v) \<Rightarrow> f (Inl e) v | (Inr d, v) \<Rightarrow> f (Inr d) v)"
  by (auto simp: bindE_apply tryE_def split: prod.split sum.split)

lemma run_once_asked:
  assumes "ce_control env (asked env w) = (r, w1)"
  shows "run_once env w = (let res = \<lparr>cy_timestamp = iso (clk w), cy_action = ''NONE'', cy_signal = None, cy_price = 0,
      cy_equity = None, cy_recon = [], cy_control = None, cy_blocked = []\<rparr> in
    case r of
      Inl e \<Rightarrow> thenE (enqueue_event (ce_bot env) ''CONTROL_PLANE_UNAVAILABLE'' (take 200 (exn_str e)) ''WARNING'' []
                 (Some (''cp_down:'' @ ce_bot env @ '':'' @ hour_stamp (clk w))) False)
               (ret (res\<lparr>cy_action := ''BLOCKED: control plane unavailable''\<rparr>)) w1
    | Inr control \<Rightarrow> (case validate_runtime (ce_isfile env) (ce_cfg env) of
        Inl e \<Rightarrow> (Inr (res\<lparr>cy_control := Some control, cy_action := ''BLOCKED: invalid configuration ('' @ exn_str e @ '')''\<rparr>), w1)
      | Inr _ \<Rightarrow> bindE (reconciliation_gate env control) (\<lambda>st w2.
          (if \<not> allows_exits st (clk w2) (RECON_STATE_MAX_AGE_SECONDS (ce_cfg env))
           then (Inr (res\<lparr>cy_control := Some control, cy_recon := recon_value (rs_status st),
                    cy_action := ''BLOCKED: reconciliation '' @ recon_value (rs_status st) @ '' ('' @ rs_reason st @ '')''\<rparr>), w2)
           else trade env control st (allows_entries st (clk w2) (RECON_STATE_MAX_AGE_SECONDS (ce_cfg env)))
                  (res\<lparr>cy_control := Some control, cy_recon := recon_value (rs_status st)\<rparr>) w2)) w1))"
proof -
  have if_app: "(if b then m else n) v = (if b then m v else n v)" for b v and m n :: "('x world, cycle_result) eff" by simp
  note steps = run_once_def Let_def bindE_now thenE_kv_set asked_def [symmetric] bindE_answer prod.case sum.case ret_apply
  show ?thesis
  proof (cases r)
    case (Inr control)
    show ?thesis
    proof (cases "validate_runtime (ce_isfile env) (ce_cfg env)")
      case (Inr u)
      then show ?thesis using assms \<open>r = Inr control\<close>
        by (simp only: steps) (simp only: bindE_apply [of "reconciliation_gate env control"] bindE_now if_app ret_apply)
    qed (use assms Inr in \<open>simp only: steps\<close>)
  qed (use assms in \<open>simp only: steps\<close>)
qed

text \<open>The environment of a cycle is safe and records no intents of its own.\<close>

locale quiet_cycle = order_execution "sv_ex (ce_sv env)" for env :: "'x cycle_env" +
  assumes control_adds: "adds False (\<lambda>_. False) (ce_control env)"
    and market_adds: "adds False (\<lambda>_. False) (ce_market env s)"
    and control_safe: "safe (ce_control env)"
    and market_safe: "safe (ce_market env s)"
begin

lemmas env_calls = ex_calls [OF refl] adds_refresh [OF refl] adds_resolve_ambiguous [OF refl] adds_cancel_order [OF refl]
  adds_none [OF control_adds] adds_none [OF market_adds]

lemma submit_at:
  assumes "\<And>it k. oi_purpose it = purpose \<Longrightarrow> k < MAX_ATTEMPTS purpose \<Longrightarrow> oi_id it = attempt_id base k \<Longrightarrow>
    list_all (attempt_failed base (db w)) [0..<k] \<Longrightarrow> Q it"
  shows "only_new W Q (db w) (db (snd (submit env purpose side qty rules ref_price base signal_id ty limit stop w)))"
proof -
  have ids: "try_attempts base [m..<n] w = (Inr (Some i), u) \<Longrightarrow> list_all (attempt_failed base (db w)) [0..<m] \<Longrightarrow>
      \<exists>k<n. i = attempt_id base k \<and> list_all (attempt_failed base (db w)) [0..<k]" if "m \<le> n" for i u m n
    using that
  proof (induction rule: inc_induct)
    case (step m)
    have up: "[m..<n] = m # [Suc m..<n]" using step.hyps by (simp add: upt_rec)
    show ?case using step.hyps step.IH step.prems
      by (auto simp: up bindE_apply get_order_by_intent_def attempt_failed_def split: option.splits if_splits dest: find_SomeD)
  qed simp
  obtain r v where r: "next_intent_id base purpose w = (r, v)" by (cases "next_intent_id base purpose w")
  have v: "only_new W Q (db w) (db v)" by (rule keepsD [OF adds_next_intent_id r])
  let ?then = "\<lambda>iid. case iid of
       None \<Rightarrow> thenE (enqueue_event (ce_bot env) ''ORDER_ATTEMPTS_EXHAUSTED'' base ''CRITICAL'' [] (Some (''exhausted:'' @ base)) True) (ret None)
     | Some i \<Rightarrow> bindE now (\<lambda>t. submit_intent (ce_sv env)
         \<lparr>oi_id = i, oi_bot = ce_bot env, oi_symbol = ce_symbol env, oi_side = side, oi_type = ty, oi_qty = qty,
          oi_purpose = purpose, oi_strategy_name = sy_name (ce_strategy env), oi_strategy_version = sy_version (ce_strategy env),
          oi_signal_id = signal_id, oi_limit = limit, oi_stop = stop, oi_ref = Some ref_price, oi_created_at = t\<rparr> rules)"
  have "only_new W Q (db v) (db (snd (?then iid v)))" if e: "r = Inr iid" for iid
  proof (cases iid)
    case (Some i)
    then obtain k where "k < MAX_ATTEMPTS purpose" "i = attempt_id base k" "list_all (attempt_failed base (db w)) [0..<k]"
      using ids [of 0 "MAX_ATTEMPTS purpose" i v] r e by (auto simp: next_intent_id_def)
    then have "adds W Q (?then iid)" unfolding Some option.case by (intro adds_intros adds_submit_intent [OF refl] assms) simp_all
    then show ?thesis by (rule keepsS)
  next
    case None
    have "adds W Q (?then iid)" unfolding None option.case by (intro adds_intros)
    then show ?thesis by (rule keepsS)
  qed
  then show "only_new W Q (db w) (db (snd (submit env purpose side qty rules ref_price base signal_id ty limit stop w)))"
    unfolding submit_def by (intro new_intents.world.bindE_at) (use r v in auto)
qed

lemma adds_submit:
  assumes "\<And>it. oi_purpose it = purpose \<Longrightarrow> Q it"
  shows "adds W Q (submit env purpose side qty rules ref_price base signal_id ty limit stop)"
  by (rule keepsI) (rule submit_at, rule assms)

lemma adds_cancel_stops: "adds W Q (cancel_stops (ce_sv env) ods)"
  by (induction ods) (simp_all only: cancel_stops.simps, (intro adds_intros env_calls | assumption)+)

lemma adds_exit_position:
  assumes "\<And>it. oi_purpose it = purpose \<Longrightarrow> Q it"
  shows "adds W Q (exit_position env purpose rules ref_price)"
  unfolding exit_position_def Let_def by (intro adds_intros adds_cancel_stops adds_submit) (rule assms)

lemma adds_protective_stop:
  assumes "\<And>it. oi_purpose it = PROTECTIVE_STOP \<Longrightarrow> Q it"
  shows "adds W Q (ensure_protective_stop env p rules)"
  unfolding ensure_protective_stop_def Let_def by (intro adds_intros adds_submit) (rule assms)

lemma adds_manage_position:
  assumes "\<And>it. oi_purpose it \<noteq> ENTRY \<Longrightarrow> Q it"
  shows "adds W Q (manage_position env control snap sg rules p res)"
  unfolding manage_position_def Let_def by (intro adds_intros adds_exit_position adds_protective_stop) (simp_all add: assms)

lemma adds_consider_entry:
  assumes "\<And>it. oi_purpose it \<noteq> ENTRY \<Longrightarrow> Q it"
    and "\<And>it. block_reasons env control st entries_ok (fst account) = [] \<Longrightarrow> Q it"
  shows "adds W Q (consider_entry env control snap sg rules st entries_ok account res)"
proof (cases account)
  case (fields balances_ok quote_free eq halted)
  show ?thesis unfolding fields consider_entry_def enter_def Let_def prod.case case_prod_beta
    by (intro adds_intros adds_submit adds_protective_stop) (use assms fields in simp_all)
qed

lemma adds_reconciliation_gate: "adds True Q (reconciliation_gate env control)"
  unfolding reconciliation_gate_def Let_def by (intro adds_intros adds_recon_run [OF refl])

lemma adds_read_account: "adds W Q (read_account env snap rules)"
  unfolding read_account_def Let_def by (intro adds_intros env_calls)

lemma adds_settle_in_flight: "adds W Q (settle_in_flight env)"
  unfolding settle_in_flight_def by (intro adds_intros env_calls)

lemma adds_decide:
  assumes "\<And>it. oi_purpose it \<noteq> ENTRY \<Longrightarrow> Q it"
    and "\<And>it. flag ''enabled'' control \<Longrightarrow> \<not> flag ''emergency_stop'' control \<Longrightarrow> GLOBAL_TRADING_ENABLED (ce_cfg env) \<Longrightarrow> entries_ok \<Longrightarrow> Q it"
  shows "adds W Q (decide env control snap sg rules st entries_ok account res)"
proof -
  have "Q it" if "block_reasons env control st entries_ok (fst account) = []" for it
    using that by (intro assms(2)) (auto simp: block_reasons_def split: if_splits)
  note ok = this
  show ?thesis unfolding decide_def
    by (intro adds_intros adds_manage_position adds_consider_entry; (erule assms(1) | erule ok))
qed

lemma adds_trade:
  assumes "\<And>it. oi_purpose it \<noteq> ENTRY \<Longrightarrow> Q it"
    and "\<And>it. flag ''enabled'' control \<Longrightarrow> \<not> flag ''emergency_stop'' control \<Longrightarrow> GLOBAL_TRADING_ENABLED (ce_cfg env) \<Longrightarrow> entries_ok \<Longrightarrow> Q it"
  shows "adds True Q (trade env control st entries_ok res)"
  unfolding trade_def Let_def
  by (intro adds_intros env_calls adds_read_account adds_settle_in_flight adds_decide assms)

lemma only_new_asked: "only_new W Q (db w) (db (asked env w))"
  unfolding asked_def by (rule keepsS [OF adds_writes(7)])

lemma gated:
  "set (d_intents (db (snd (run_once env w)))) \<subseteq> set (d_intents (db w))
     \<union> {it. \<exists>control w1 st w2. ce_control env (asked env w) = (Inr control, w1)
          \<and> validate_runtime (ce_isfile env) (ce_cfg env) = Inr ()
          \<and> reconciliation_gate env control w1 = (Inr st, w2)
          \<and> allows_exits st (clk w2) (RECON_STATE_MAX_AGE_SECONDS (ce_cfg env))
          \<and> (oi_purpose it = ENTRY \<longrightarrow> flag ''enabled'' control \<and> \<not> flag ''emergency_stop'' control
                \<and> GLOBAL_TRADING_ENABLED (ce_cfg env) \<and> allows_entries st (clk w2) (RECON_STATE_MAX_AGE_SECONDS (ce_cfg env)))}"
  (is "_ \<subseteq> _ \<union> {it. ?R it}")
proof -
  define R where "R = (\<lambda>it. ?R it)"
  let ?max = "RECON_STATE_MAX_AGE_SECONDS (ce_cfg env)"
  obtain r w1 where c: "ce_control env (asked env w) = (r, w1)" by (cases "ce_control env (asked env w)")
  have w1: "only_new True R (db w) (db w1)"
    by (rule new_intents.Q_trans [OF only_new_asked keepsD [OF adds_none [OF control_adds] c]])
  have "only_new True R (db w) (db (snd (run_once env w)))"
  proof (cases r)
    case (Inl e)
    show ?thesis unfolding run_once_asked [OF c [unfolded Inl]]
      unfolding sum.case Let_def by (rule new_intents.Q_trans [OF w1 addsS]) (intro adds_intros)
  next
    case (Inr control)
    show ?thesis
    proof (cases "validate_runtime (ce_isfile env) (ce_cfg env)")
      case v: (Inr u)
      obtain r2 w2 where g: "reconciliation_gate env control w1 = (r2, w2)" by (cases "reconciliation_gate env control w1")
      have w2: "only_new True R (db w1) (db w2)" by (rule keepsD [OF adds_reconciliation_gate g])
      have "adds True R (trade env control st (allows_entries st (clk w2) ?max) res)"
        if "r2 = Inr st" "allows_exits st (clk w2) ?max" for st res
      proof (rule adds_trade)
        fix it
        have facts: "ce_control env (asked env w) = (Inr control, w1)" "validate_runtime (ce_isfile env) (ce_cfg env) = Inr ()"
            "reconciliation_gate env control w1 = (Inr st, w2)"
          using c g by (simp_all only: Inr that(1) v) simp
        show "R it" if "oi_purpose it \<noteq> ENTRY" unfolding R_def using facts that \<open>allows_exits st (clk w2) ?max\<close> by blast
        show "R it" if "flag ''enabled'' control" "\<not> flag ''emergency_stop'' control" "GLOBAL_TRADING_ENABLED (ce_cfg env)"
            "allows_entries st (clk w2) ?max"
          unfolding R_def using facts that \<open>allows_exits st (clk w2) ?max\<close> by blast
      qed
      note trade = this
      show ?thesis unfolding run_once_asked [OF c [unfolded Inr]] v sum.case Let_def
      proof (intro new_intents.Q_trans [OF w1] new_intents.world.bindE_at)
        fix st t
        assume "reconciliation_gate env control w1 = (Inr st, t)"
        then have t: "r2 = Inr st" "t = w2" using g by simp_all
        show "only_new True R (db t) (db (snd (if \<not> allows_exits st (clk t) ?max then (Inr (res1 st), t)
            else trade env control st (allows_entries st (clk t) ?max) (res2 st) t)))" for res1 res2
          using keepsS [OF trade [OF t(1)]] t(2) new_intents.Q_refl by auto
      qed (use g w2 in simp)
    qed (simp add: run_once_asked [OF c [unfolded Inr]] w1)
  qed
  then show ?thesis by (auto simp: only_new_def R_def)
qed

text \<open>A whole cycle only advances the ledger.\<close>

lemmas env_safe = safe_recon_run [OF execution_axioms] rules_safe submit_safe query_safe balances_safe control_safe market_safe safe_refresh [OF refl]
  safe_resolve_ambiguous [OF refl] safe_submit_intent [OF refl] safe_cancel_order [OF refl]

lemma safe_submit: "safe (submit env purpose side qty rules ref_price base signal_id ty limit stop)"
  unfolding submit_def by (intro keeps_intros env_safe)

lemma safe_cancel_stops: "safe (cancel_stops (ce_sv env) ods)"
  by (induction ods) (simp_all only: cancel_stops.simps, (intro keeps_intros env_safe | assumption)+)

lemma safe_exit_position: "safe (exit_position env purpose rules ref_price)"
  unfolding exit_position_def Let_def by (intro keeps_intros safe_cancel_stops safe_submit)

lemma safe_protective_stop: "safe (ensure_protective_stop env p rules)"
  unfolding ensure_protective_stop_def Let_def by (intro keeps_intros safe_submit)

lemma safe_decide: "safe (decide env control snap sg rules st entries_ok account res)"
  unfolding decide_def manage_position_def consider_entry_def enter_def Let_def prod.case case_prod_beta
  by (intro keeps_intros safe_exit_position safe_protective_stop safe_submit)

lemma safe_trade: "safe (trade env control st entries_ok res)"
  unfolding trade_def read_account_def settle_in_flight_def Let_def
  by (intro keeps_intros env_safe safe_decide)

lemma safe_run_once: "safe (run_once env)"
  unfolding run_once_def reconciliation_gate_def Let_def
  by (intro keeps_intros keeps_sum env_safe safe_trade)

end

end
