(* ===== verification/Binance.thy ===== *)
theory Binance
  imports Rest_Client Gates
begin

text \<open>
  The Binance executor \<^verbatim>\<open>engine/execution/binance.py\<close> over the REST client, and the choice of an executor
  \<^verbatim>\<open>engine/execution/factory.py\<close>. The lemmas show that the executor satisfies the contract of the engine whatever the
  exchange answers, that it reports an order as rejected only when the exchange refused it, and that the recent
  executions are read to the last page or not at all.
\<close>

record 'y exchange =
  bx_api :: "'y api"
  bx_account :: string
  bx_symbols :: "string list"

definition fmt :: "rat \<Rightarrow> string" where
  "fmt value = dec_text (dec_round value)"

section \<open>Symbol rules\<close>

text \<open>\<^verbatim>\<open>Decimal(v)\<close> of a payload field.\<close>

fun decimal_of :: "jval \<Rightarrow> exn + rat" where
  "decimal_of (JStr s) = py_dec s"
| "decimal_of (JInt n) = Inr (of_int n)"
| "decimal_of (JDec x) = Inr x"
| "decimal_of _ = Inl type_error"

definition filters_of :: "payload \<Rightarrow> exn + (string \<times> payload) list" where
  "filters_of info = bindR (as_objs (dict_get info ''filters'' (JArr []))) (\<lambda>xs.
     bindR (mapR (\<lambda>x. bindR (bindR (jget ''filterType'' x) as_str) (\<lambda>k. Inr (k, x))) xs)
       (\<lambda>kvs. Inr (foldl (\<lambda>d (k, x). AList.update k x d) [] kvs)))"

definition notional_filter :: "(string \<times> payload) list \<Rightarrow> payload" where
  "notional_filter f = (if dict_get f ''NOTIONAL'' [] \<noteq> [] then dict_get f ''NOTIONAL'' [] else dict_get f ''MIN_NOTIONAL'' [])"

definition rules_of :: "string \<Rightarrow> payload \<Rightarrow> exn + symbol_rules" where
  "rules_of symbol info = bindR (filters_of info) (\<lambda>f.
     bindR (bindR (jget ''symbol'' info) as_str) (\<lambda>esym.
     bindR (bindR (jget ''baseAsset'' info) as_str) (\<lambda>base.
     bindR (bindR (jget ''quoteAsset'' info) as_str) (\<lambda>quote.
     bindR (decimal_of (dict_get (dict_get f ''LOT_SIZE'' []) ''stepSize'' (JStr ''0.00000001''))) (\<lambda>step.
     bindR (decimal_of (dict_get (dict_get f ''LOT_SIZE'' []) ''minQty'' (JStr ''0''))) (\<lambda>min_qty.
     bindR (decimal_of (dict_get (dict_get f ''PRICE_FILTER'' []) ''tickSize'' (JStr ''0.00000001''))) (\<lambda>tick.
     bindR (decimal_of (dict_get (notional_filter f) ''minNotional'' (JStr ''0''))) (\<lambda>min_notional.
       Inr \<lparr>sr_symbol = symbol, sr_exchange_symbol = esym, sr_base = base, sr_quote = quote, sr_step = step,
            sr_min_qty = min_qty, sr_tick = tick, sr_min_notional = min_notional\<rparr>))))))))"

definition cache_rules :: "string \<Rightarrow> symbol_rules \<Rightarrow> ('y outer world, unit) eff" where
  "cache_rules symbol r = bindE (outside (\<lambda>x. ((), x\<lparr>ou_rules := AList.update symbol r (ou_rules x)\<rparr>, 0))) ret"

definition bx_rules :: "'y exchange \<Rightarrow> string \<Rightarrow> ('y outer world, symbol_rules) eff" where
  "bx_rules bx symbol = bindE (getE (\<lambda>w. map_of (ou_rules (ext w)) symbol)) (\<lambda>cached. case cached of
     Some r \<Rightarrow> ret r
   | None \<Rightarrow> bindE (rest_exchange_info (bx_api bx) (exchange_symbol symbol)) (\<lambda>info.
       bindE (liftE (rules_of symbol info)) (\<lambda>r. thenE (cache_rules symbol r) (ret r))))"

section \<open>Orders\<close>

definition price_param :: "symbol_rules \<Rightarrow> rat option \<Rightarrow> exn + jval" where
  "price_param rules p = (case p of None \<Rightarrow> Inl type_error | Some x \<Rightarrow> Inr (JStr (fmt (round_price rules x))))"

definition order_params :: "order \<Rightarrow> symbol_rules \<Rightarrow> exn + payload" where
  "order_params od rules =
     (let base = [(''symbol'', JStr (sr_exchange_symbol rules)), (''side'', JStr (o_side od)), (''type'', JStr (o_type od)),
                  (''quantity'', JStr (fmt (round_qty rules (o_requested od)))), (''newClientOrderId'', JStr (o_coid od)),
                  (''newOrderRespType'', JStr ''FULL'')] in
      if o_type od = STOP_LOSS_LIMIT then
        bindR (price_param rules (o_limit od)) (\<lambda>p. bindR (price_param rules (o_stop od)) (\<lambda>s.
          Inr (base @ [(''timeInForce'', JStr ''GTC''), (''price'', p), (''stopPrice'', s)])))
      else if o_type od = LIMIT then
        bindR (price_param rules (o_limit od)) (\<lambda>p. Inr (base @ [(''timeInForce'', JStr ''GTC''), (''price'', p)]))
      else Inr base)"

definition failure_kind :: "rest_error \<Rightarrow> submit_outcome_kind" where
  "failure_kind e = (if is_definitive_rejection e then OUT_REJECTED else OUT_AMBIGUOUS)"

definition bx_submit :: "'y exchange \<Rightarrow> order \<Rightarrow> symbol_rules \<Rightarrow> ('y outer world, submit_outcome) eff" where
  "bx_submit bx od rules = bindE (liftE (order_params od rules)) (\<lambda>params.
     bindE (rest_new_order (bx_api bx) params) (\<lambda>answer. case answer of
       Inl e \<Rightarrow> ret (outcome (failure_kind e) (rest_error_name e @ '': '' @ take 300 (rest_error_text e)) (error_code e))
     | Inr raw \<Rightarrow> liftE (bindR (as_obj raw) (\<lambda>raw.
         bindR (rest_order_report raw (bx_symbols bx)) (\<lambda>rep.
         bindR (rest_response_fills raw (bx_account bx) (bx_symbols bx)) (\<lambda>fs.
           Inr (acknowledged (Some rep) fs)))))))"

definition report_of :: "'y exchange \<Rightarrow> jval \<Rightarrow> exn + report" where
  "report_of bx raw = bindR (as_obj raw) (\<lambda>raw. rest_order_report raw (bx_symbols bx))"

definition found_or_none :: "'y exchange \<Rightarrow> ('y outer world, rest_error + jval) eff \<Rightarrow> ('y outer world, report option) eff" where
  "found_or_none bx m = bindE m (\<lambda>answer. case answer of
     Inl (Order_not_found _) \<Rightarrow> ret None
   | Inl e \<Rightarrow> raise (rest_exn e)
   | Inr raw \<Rightarrow> bindE (liftE (report_of bx raw)) (\<lambda>r. ret (Some r)))"

definition bx_query :: "'y exchange \<Rightarrow> order \<Rightarrow> ('y outer world, report option) eff" where
  "bx_query bx od = found_or_none bx (rest_get_order (bx_api bx) (exchange_symbol (o_symbol od)) (Some (o_coid od)) None)"

definition bx_query_by_id :: "'y exchange \<Rightarrow> string \<Rightarrow> string \<Rightarrow> ('y outer world, report option) eff" where
  "bx_query_by_id bx symbol exid = found_or_none bx (rest_get_order (bx_api bx) (exchange_symbol symbol) None (Some exid))"

definition trade_rows :: "'y exchange \<Rightarrow> string \<Rightarrow> string option \<Rightarrow> int option \<Rightarrow> int option \<Rightarrow> nat \<Rightarrow> ('y outer world, payload list) eff" where
  "trade_rows bx esym oid start_ms from_id limit =
     bindE (must (rest_my_trades (bx_api bx) esym oid start_ms from_id limit)) (\<lambda>v. liftE (as_objs v))"

definition bx_fills :: "'y exchange \<Rightarrow> order \<Rightarrow> ('y outer world, xfill list) eff" where
  "bx_fills bx od = (if \<not> truthy (o_exid od) then ret []
     else bindE (trade_rows bx (exchange_symbol (o_symbol od)) (o_exid od) None None 1000) (\<lambda>rows.
       liftE (mapR (\<lambda>r. rest_trade_fill r (bx_account bx) (bx_symbols bx) (Some (o_coid od))) rows)))"

definition bx_cancel :: "'y exchange \<Rightarrow> order \<Rightarrow> ('y outer world, submit_outcome) eff" where
  "bx_cancel bx od = bindE (rest_cancel_order (bx_api bx) (exchange_symbol (o_symbol od)) (o_coid od)) (\<lambda>answer. case answer of
     Inl (Order_not_found _) \<Rightarrow> ret (outcome OUT_REJECTED ''order not found on exchange'' None)
   | Inl e \<Rightarrow> ret (outcome (failure_kind e) (take 300 (rest_error_text e)) (error_code e))
   | Inr raw \<Rightarrow> bindE (liftE (report_of bx raw)) (\<lambda>r. ret (acknowledged (Some r) [])))"

definition bx_open_orders :: "'y exchange \<Rightarrow> string \<Rightarrow> ('y outer world, report list) eff" where
  "bx_open_orders bx symbol = bindE (must (rest_open_orders (bx_api bx) (exchange_symbol symbol))) (\<lambda>v.
     liftE (bindR (as_objs v) (mapR (\<lambda>r. rest_order_report r (bx_symbols bx)))))"

text \<open>
  The pages after the first: \<open>n\<close> more requests are allowed. The loop ends with a page that is not full.
\<close>

fun more_pages :: "'y exchange \<Rightarrow> string \<Rightarrow> nat \<Rightarrow> nat \<Rightarrow> payload list \<Rightarrow> payload list \<Rightarrow> ('y outer world, payload list) eff" where
  "more_pages bx esym limit n rows out =
     (if length rows < limit then ret out
      else case n of
        0 \<Rightarrow> raise (RuntimeError ''recent_fills exceeded 50 pages; widen reconciliation cadence'')
      | Suc m \<Rightarrow> bindE (liftE (if rows = [] then Inl (Other ''list index out of range'')
                               else bindR (jget ''id'' (last rows)) int_of)) (\<lambda>i.
          bindE (trade_rows bx esym None None (Some (i + 1)) limit) (\<lambda>page. more_pages bx esym limit m page (out @ page))))"

declare more_pages.simps [simp del]

definition MAX_PAGES :: nat where "MAX_PAGES = 50"

definition PAGE_LIMIT :: nat where "PAGE_LIMIT = 1000"

definition bx_recent_fills :: "'y exchange \<Rightarrow> string \<Rightarrow> int \<Rightarrow> ('y outer world, xfill list) eff" where
  "bx_recent_fills bx symbol since_ms = (let esym = exchange_symbol symbol in
     bindE (trade_rows bx esym None (Some since_ms) None PAGE_LIMIT) (\<lambda>rows.
     bindE (more_pages bx esym PAGE_LIMIT (MAX_PAGES - 1) rows rows) (\<lambda>out.
       liftE (mapR (\<lambda>r. rest_trade_fill r (bx_account bx) (bx_symbols bx) None) out))))"

definition bx_balances :: "'y exchange \<Rightarrow> ('y outer world, balance_snapshot) eff" where
  "bx_balances bx = bindE (must (rest_account (bx_api bx))) (\<lambda>raw. bindE (rest_server_time (bx_api bx)) (\<lambda>t.
     liftE (bindR (as_obj raw) (\<lambda>raw. rest_balances raw t))))"

definition binance_executor :: "'y exchange \<Rightarrow> 'y outer executor" where
  "binance_executor bx = \<lparr>ex_name = ''binance'', ex_rules = bx_rules bx, ex_submit = bx_submit bx, ex_query = bx_query bx,
     ex_query_by_id = bx_query_by_id bx, ex_fills = bx_fills bx, ex_cancel = bx_cancel bx, ex_open_orders = bx_open_orders bx,
     ex_recent_fills = bx_recent_fills bx, ex_balances = bx_balances bx, ex_time = rest_server_time (bx_api bx)\<rparr>"

section \<open>The contract, for every behaviour of the exchange\<close>

lemma adds_outside [adds_intros]: "adds W Q (outside f)"
  by (rule keepsI) (simp add: only_new_def)

lemma adds_rest [adds_intros]:
  "adds W Q (rest_call fn params)" "adds W Q m \<Longrightarrow> adds W Q (must m)" "adds W Q (rest_new_order api params)" "adds W Q (rest_get_order api s c x)"
  "adds W Q (rest_cancel_order api s c')" "adds W Q (rest_open_orders api s)" "adds W Q (rest_my_trades api s oid t f n)" "adds W Q (rest_account api)"
  "adds W Q (rest_exchange_info api s)" "adds W Q (rest_server_time api)"
  unfolding rest_new_order_def rest_get_order_def rest_cancel_order_def rest_open_orders_def rest_my_trades_def rest_account_def
    rest_exchange_info_def rest_server_time_def must_def rest_call_def
  by (auto intro!: adds_intros split: sum.split)

lemma safe_found_or_none [keeps_intros]: "safe m \<Longrightarrow> safe (found_or_none bx m)"
  unfolding found_or_none_def by (auto intro!: keeps_intros split: sum.split rest_error.split)

lemma adds_found_or_none [adds_intros]: "adds W Q m \<Longrightarrow> adds W Q (found_or_none bx m)"
  unfolding found_or_none_def by (auto intro!: adds_intros split: sum.split rest_error.split)

lemma safe_trade_rows [keeps_intros]: "safe (trade_rows bx s oid t f n)"
  unfolding trade_rows_def by (intro keeps_intros)

lemma adds_trade_rows [adds_intros]: "adds W Q (trade_rows bx s oid t f n)"
  unfolding trade_rows_def by (intro adds_intros)

lemma safe_more_pages [keeps_intros]: "safe (more_pages bx esym limit n rows out)"
  by (induction n arbitrary: rows out) (subst more_pages.simps; auto intro!: keeps_intros)+

lemma adds_more_pages [adds_intros]: "adds W Q (more_pages bx esym limit n rows out)"
  by (induction n arbitrary: rows out) (subst more_pages.simps; auto intro!: adds_intros)+

interpretation binance: execution "binance_executor bx"
  by unfold_locales
    (auto simp: binance_executor_def bx_rules_def cache_rules_def bx_submit_def bx_query_def bx_query_by_id_def bx_fills_def bx_cancel_def
      bx_open_orders_def bx_recent_fills_def bx_balances_def Let_def intro!: keeps_intros split: option.split sum.split rest_error.split)

interpretation binance_orders: order_execution "binance_executor bx"
  by unfold_locales
    (auto simp: binance_executor_def bx_rules_def cache_rules_def bx_submit_def bx_query_def bx_query_by_id_def bx_fills_def bx_cancel_def
      bx_open_orders_def bx_recent_fills_def bx_balances_def Let_def intro!: adds_intros split: option.split sum.split rest_error.split)

section \<open>Rejected means refused\<close>

text \<open>
  C8: an order is reported as rejected, after which the engine gives it up, only when the exchange answered the
  request with an error that proves the refusal: one of the definitive classes, neither a network error nor a missing
  order. Everything else that goes wrong is ambiguous.
\<close>

theorem rejected_means_refused:
  assumes "ex_submit (binance_executor bx) od rules w = (Inr oc, w')" "so_kind oc = OUT_REJECTED"
  shows "\<exists>params e y micros. order_params od rules = Inr params
    \<and> ep_new_order (bx_api bx) params (ou_rest (ext w)) = (Inl e, y, micros)
    \<and> ''ccxt.NetworkError'' \<notin> set (ae_classes e) \<and> ''ccxt.OrderNotFound'' \<notin> set (ae_classes e)
    \<and> (\<exists>c\<in>set DEFINITIVE. c \<in> set (ae_classes e))"
proof -
  obtain params where p: "order_params od rules = Inr params"
    using assms(1) by (auto simp: binance_executor_def bx_submit_def bindE_apply split: sum.splits)
  obtain r y d where a: "ep_new_order (bx_api bx) params (ou_rest (ext w)) = (r, y, d)"
    by (cases "ep_new_order (bx_api bx) params (ou_rest (ext w))")
  show ?thesis
  proof (cases r)
    case (Inl e)
    have "so_kind oc = failure_kind (if ''ccxt.OrderNotFound'' \<in> set (ae_classes e) then Order_not_found (ae_text e) else Failed e)"
      using assms(1) p a Inl
      by (auto simp: binance_executor_def bx_submit_def bindE_apply rest_new_order_def rest_call_def outside_def classify_call_def outcome_def)
    then show ?thesis using p a Inl assms(2) by (auto simp: failure_kind_def split: if_splits)
  next
    case (Inr raw)
    have "so_kind oc = OUT_ACKNOWLEDGED"
      using assms(1) p a Inr
      by (auto simp: binance_executor_def bx_submit_def bindE_apply rest_new_order_def rest_call_def outside_def classify_call_def
          acknowledged_def elim!: bindR_InrE)
    then show ?thesis using assms(2) by simp
  qed
qed

section \<open>Recent executions are complete\<close>

definition row_id :: "payload \<Rightarrow> int" where
  "row_id r = (case map_of r ''id'' of Some (JInt n) \<Rightarrow> n | _ \<Rightarrow> 0)"

definition row_time :: "payload \<Rightarrow> int" where
  "row_time r = (case map_of r ''time'' of Some (JInt n) \<Rightarrow> n | _ \<Rightarrow> 0)"

text \<open>
  The documented behaviour of the trades endpoint on an account with the trades \<open>T\<close>, in order of
  their ids: from a start time or from an id, the first trades up to the limit.
\<close>

definition answers_trades :: "'y api \<Rightarrow> string \<Rightarrow> payload list \<Rightarrow> bool" where
  "answers_trades api esym T \<longleftrightarrow>
     (\<forall>since limit y. fst (ep_my_trades api (trade_params esym None (Some since) None limit) y)
        = Inr (JArr (map JObj (take limit (filter (\<lambda>r. since \<le> row_time r) T)))))
   \<and> (\<forall>i limit y. fst (ep_my_trades api (trade_params esym None None (Some i) limit) y)
        = Inr (JArr (map JObj (take limit (filter (\<lambda>r. i \<le> row_id r) T)))))"

lemma mapR_as_obj [simp]: "mapR as_obj (map JObj rows) = Inr rows"
  by (induction rows) auto

lemma trade_rows_answer:
  assumes "\<And>y. fst (ep_my_trades (bx_api bx) (trade_params esym oid start from_id limit) y) = Inr (JArr (map JObj rows))"
  shows "\<exists>w'. trade_rows bx esym oid start from_id limit w = (Inr rows, w')"
  using assms [of "ou_rest (ext w)"]
  by (auto simp: trade_rows_def must_def rest_my_trades_def rest_call_def outside_def classify_call_def bindE_apply split: prod.splits)

lemma filter_from_time:
  fixes f :: "'a \<Rightarrow> int"
  shows "sorted (map f xs) \<Longrightarrow> filter (\<lambda>x. c \<le> f x) xs = dropWhile (\<lambda>x. f x < c) xs"
proof (induction xs)
  case (Cons x xs)
  have "filter (\<lambda>x. c \<le> f x) xs = xs" if "\<not> f x < c" using Cons.prems that by (intro filter_True) auto
  then show ?case using Cons by auto
qed simp

lemma filter_after:
  fixes f :: "'a \<Rightarrow> int"
  assumes "sorted_wrt (\<lambda>a b. f a < f b) (A @ x # B)"
  shows "filter (\<lambda>y. f x + 1 \<le> f y) (A @ x # B) = B"
proof -
  have "filter (\<lambda>y. f x + 1 \<le> f y) A = []" "filter (\<lambda>y. f x + 1 \<le> f y) B = B"
    using assms by (force simp: sorted_wrt_append filter_empty_conv intro!: filter_True)+
  then show ?thesis by simp
qed

text \<open>The loop, when \<open>m\<close> of the wanted trades \<open>F\<close>, the last ones of the account, have been read in full pages.\<close>

lemma more_pages_complete:
  assumes T: "answers_trades (bx_api bx) esym (pre @ F)" "sorted_wrt (\<lambda>a b. row_id a < row_id b) (pre @ F)"
    and ids: "\<And>r. r \<in> set F \<Longrightarrow> map_of r ''id'' = Some (JInt (row_id r))" and "0 < limit"
  shows "length rows = limit \<Longrightarrow> m \<le> length F \<Longrightarrow> 0 < m \<Longrightarrow> last rows = F ! (m - 1) \<Longrightarrow>
     fst (more_pages bx esym limit n rows (take m F) w) = (if length F < m + n * limit then Inr F
        else Inl (RuntimeError ''recent_fills exceeded 50 pages; widen reconciliation cadence''))"
proof (induction n arbitrary: m rows w)
  case 0
  then show ?case by (simp add: more_pages.simps)
next
  case (Suc n)
  have ne: "rows \<noteq> []" using Suc.prems(1) assms(4) by auto
  let ?x = "F ! (m - 1)"
  have "m - 1 < length F" using Suc.prems by simp
  then have x: "?x \<in> set F" "F = take (m - 1) F @ ?x # drop m F"
    using Suc.prems(3) id_take_nth_drop [of "m - 1" F] by simp_all
  have split: "pre @ F = (pre @ take (m - 1) F) @ ?x # drop m F" using x(2) by simp
  have page: "filter (\<lambda>r. row_id ?x + 1 \<le> row_id r) (pre @ F) = drop m F"
    unfolding split by (rule filter_after) (use T(2) split in simp)
  obtain w' where t: "trade_rows bx esym None None (Some (row_id ?x + 1)) limit w = (Inr (take limit (drop m F)), w')"
    using trade_rows_answer [of bx esym None None "Some (row_id ?x + 1)" limit] T(1) page unfolding answers_trades_def by metis
  have step: "more_pages bx esym limit (Suc n) rows (take m F) w
      = more_pages bx esym limit n (take limit (drop m F)) (take (m + limit) F) w'"
    using Suc.prems ne ids [OF x(1)] t
    by (subst more_pages.simps) (simp add: jget_def bindE_apply take_add)
  show ?case
  proof (cases "length F < m + limit")
    case True
    then have "length (take limit (drop m F)) < limit" "take (m + limit) F = F" using Suc.prems(2) by auto
    then show ?thesis unfolding step using True by (subst more_pages.simps) simp
  next
    case False
    have "last (take limit (drop m F)) = F ! (m + limit - 1)"
      using False assms(4) by (subst last_conv_nth) (auto simp: min_def intro: arg_cong [of _ _ "nth F"])
    then show ?thesis unfolding step
      using Suc.IH [of "take limit (drop m F)" "m + limit" w'] False assms(4) by (simp add: algebra_simps)
  qed
qed

text \<open>
  C9: the recent executions are complete. Against an exchange that serves an account's trades as documented,
  \<open>recent_fills\<close> returns every trade since the given time, in order, over as many pages as it takes; with 50 full pages or
  more it raises instead of returning a part.
\<close>

theorem recent_fills_complete:
  assumes "answers_trades (bx_api bx) (exchange_symbol symbol) T"
    and "sorted_wrt (\<lambda>a b. row_id a < row_id b) T" "sorted (map row_time T)"
    and "\<forall>r\<in>set T. map_of r ''id'' = Some (JInt (row_id r))"
  shows "let F = filter (\<lambda>r. since \<le> row_time r) T in
     fst (ex_recent_fills (binance_executor bx) symbol since w) =
       (if length F < 50 * 1000 then mapR (\<lambda>r. rest_trade_fill r (bx_account bx) (bx_symbols bx) None) F
        else Inl (RuntimeError ''recent_fills exceeded 50 pages; widen reconciliation cadence''))"
proof -
  let ?F = "filter (\<lambda>r. since \<le> row_time r) T" and ?esym = "exchange_symbol symbol"
  obtain pre where T: "T = pre @ ?F" unfolding filter_from_time [OF assms(3)] by (metis takeWhile_dropWhile_id)
  obtain w1 where t: "trade_rows bx ?esym None (Some since) None 1000 w = (Inr (take 1000 ?F), w1)"
    using trade_rows_answer [of bx ?esym None "Some since" None 1000] assms(1) unfolding answers_trades_def by metis
  have pages: "fst (more_pages bx ?esym 1000 49 (take 1000 ?F) (take 1000 ?F) w1) = (if length ?F < 50 * 1000 then Inr ?F
      else Inl (RuntimeError ''recent_fills exceeded 50 pages; widen reconciliation cadence''))"
  proof (cases "length ?F < 1000")
    case True
    then show ?thesis by (subst more_pages.simps) simp
  next
    case False
    have "last (take 1000 ?F) = ?F ! (1000 - 1)" using False by (subst last_conv_nth) (auto simp: min_def)
    then show ?thesis
      using more_pages_complete [of bx ?esym pre ?F 1000 "take 1000 ?F" 1000 49 w1] assms(1,2,4) T False by auto
  qed
  obtain r w2 where m: "more_pages bx ?esym 1000 49 (take 1000 ?F) (take 1000 ?F) w1 = (r, w2)"
    by (cases "more_pages bx ?esym 1000 49 (take 1000 ?F) (take 1000 ?F) w1")
  show ?thesis
    using pages m t by (simp add: binance_executor_def bx_recent_fills_def PAGE_LIMIT_def MAX_PAGES_def bindE_apply Let_def)
qed

text \<open>An exchange that serves the given trades and refuses every order.\<close>

definition served :: "payload list \<Rightarrow> unit endpoint" where
  "served T params y =
     (let limit = (case map_of params ''limit'' of Some (JInt n) \<Rightarrow> nat n | _ \<Rightarrow> 0);
          wanted = (case map_of params ''startTime'' of Some (JInt t) \<Rightarrow> filter (\<lambda>r. t \<le> row_time r) T
            | _ \<Rightarrow> (case map_of params ''fromId'' of Some (JInt i) \<Rightarrow> filter (\<lambda>r. i \<le> row_id r) T | _ \<Rightarrow> T))
      in (Inr (JArr (map JObj (take limit wanted))), y, 0))"

definition no_funds :: "unit endpoint" where
  "no_funds params y = (Inl \<lparr>ae_name = ''InsufficientFunds'', ae_classes = [''ccxt.InsufficientFunds'', ''ccxt.ExchangeError''],
     ae_text = ''binance {\"code\":-2010,\"msg\":\"no funds\"}''\<rparr>, y, 5)"

definition demo_exchange :: "payload list \<Rightarrow> unit exchange" where
  "demo_exchange T = \<lparr>bx_api = \<lparr>ep_new_order = no_funds, ep_get_order = no_funds, ep_cancel_order = no_funds, ep_open_orders = no_funds,
     ep_my_trades = served T, ep_account = no_funds, ep_exchange_info = no_funds, ep_time = no_funds\<rparr>,
     bx_account = ''main'', bx_symbols = [''BTC/USDT'']\<rparr>"

definition outer_world :: "unit outer world" where
  "outer_world = \<lparr>db = empty_ledger, depth = 0, clk = 0, ext = \<lparr>ou_rules = [], ou_rest = ()\<rparr>\<rparr>"

theorem rejected_means_refused_witness:
  "\<exists>oc w'. ex_submit (binance_executor (demo_exchange [])) base_order demo_rules outer_world = (Inr oc, w')
    \<and> so_kind oc = OUT_REJECTED \<and> so_error_code oc = Some (- 2010)
    \<and> (\<exists>params e y micros. order_params base_order demo_rules = Inr params
          \<and> ep_new_order (bx_api (demo_exchange [])) params (ou_rest (ext outer_world)) = (Inl e, y, micros)
          \<and> ''ccxt.NetworkError'' \<notin> set (ae_classes e))"
proof -
  have "isl (fst (ex_submit (binance_executor (demo_exchange [])) base_order demo_rules outer_world)) = False" by code_simp
  then obtain oc w' where s: "ex_submit (binance_executor (demo_exchange [])) base_order demo_rules outer_world = (Inr oc, w')"
    by (metis (no_types, lifting) isl_def prod.collapse sum.collapse(2))
  have "so_kind (projr (fst (ex_submit (binance_executor (demo_exchange [])) base_order demo_rules outer_world))) = OUT_REJECTED"
    "so_error_code (projr (fst (ex_submit (binance_executor (demo_exchange [])) base_order demo_rules outer_world))) = Some (- 2010)"
    by code_simp+
  then have "so_kind oc = OUT_REJECTED" "so_error_code oc = Some (- 2010)" using s by simp_all
  with rejected_means_refused [OF s] s show ?thesis by blast
qed

definition numbered :: "int \<Rightarrow> int \<Rightarrow> payload" where
  "numbered i t = AList.update ''time'' (JInt t) (AList.update ''id'' (JInt i) demo_row)"

theorem recent_fills_complete_witness:
  "fst (ex_recent_fills (binance_executor (demo_exchange [numbered 11 4, numbered 12 9])) ''BTC/USDT'' 5 outer_world)
     = mapR (\<lambda>r. rest_trade_fill r ''main'' [''BTC/USDT''] None) [numbered 12 9]"
proof -
  let ?T = "[numbered 11 4, numbered 12 9]"
  have answers: "answers_trades (bx_api (demo_exchange ?T)) (exchange_symbol ''BTC/USDT'') ?T"
    by (simp add: answers_trades_def demo_exchange_def served_def trade_params_def)
  have rows: "row_id (numbered i t) = i" "row_time (numbered i t) = t" "map_of (numbered i t) ''id'' = Some (JInt i)" for i t
    by (simp_all add: numbered_def demo_row_def row_id_def row_time_def)
  have "bx_account (demo_exchange ?T) = ''main''" "bx_symbols (demo_exchange ?T) = [''BTC/USDT'']" by (simp_all add: demo_exchange_def)
  then show ?thesis
    using recent_fills_complete [OF answers, of 5 outer_world] by (simp add: rows)
qed

end
