(* ===== verification/Guarantees.thy ===== *)
theory Guarantees
  imports Binance
begin

text \<open>
  That things come to an end: an ambiguous order is settled at the latest by the first query after the grace window, and
  paging through the trade history ends after a bounded number of requests whatever the exchange answers.
\<close>

section \<open>An ambiguous order is settled\<close>

lemma enqueue_order_returns: "\<exists>w'. enqueue_order od w = (Inr (), w') \<and> d_orders (db w') = d_orders (db w)"
  by (auto simp: enqueue_order_def intent_signal_id_def thenE_def bindE_apply enqueue_result)

text \<open>Under the invariant a changed order can be saved by the one who has just read it.\<close>

lemma save_fresh:
  assumes "orders_inv (db w)" "cur \<in> set (d_orders (db w))" "o_id od = o_id cur" "o_version od = o_version cur" "o_exid od = o_exid cur"
  shows "\<exists>w'. save_order od w = (Inr (od\<lparr>o_version := o_version od + 1\<rparr>), w') \<and> update_row od cur \<in> set (d_orders (db w'))"
proof -
  have row: "same_row od cur" using assms(3,4) by (simp add: same_row_def)
  have ids: "distinct (map o_id (d_orders (db w)))" using assms(1) by (auto simp: orders_inv_def dest: fresh_ids_distinct)
  have "\<not> exid_taken od (d_orders (db w))"
  proof
    assume "exid_taken od (d_orders (db w))"
    then obtain row r where r: "row \<in> set (d_orders (db w))" "o_id row = o_id cur" "r \<in> set (d_orders (db w))" "o_id r \<noteq> o_id cur"
        "o_exchange r = o_exchange row" "o_exid r = o_exid cur" "o_exid cur \<noteq> None"
      using assms(3,5) by (auto simp: exid_taken_def same_row_def)
    then have "row = cur" using inj_on_key [OF ids] assms(2) by metis
    then have "o_id r = o_id cur" using assms(1,2) r by (auto simp: orders_inv_def intro: exids_uniqueD)
    then show False using r(4) by simp
  qed
  then show ?thesis using row assms(2) by (auto simp: save_order_def transaction_def Let_def intro!: image_eqI [of _ _ cur])
qed

lemma reject_settles:
  assumes "ledger_inv (db w)" "find (\<lambda>x. o_coid x = coid) (d_orders (db w)) = Some cur" "can_transition (o_status cur) REJECTED"
  shows "\<exists>w'. reject_order coid reason w = (Inr (), w')
    \<and> (\<exists>fin\<in>set (d_orders (db w')). o_id fin = o_id cur \<and> o_status fin = REJECTED \<and> o_reject fin = Some reason)"
proof -
  let ?w = "w\<lparr>depth := depth w + 1\<rparr>"
  have open_order: "\<not> is_terminal (o_status cur)" "o_status cur \<noteq> REJECTED"
    using assms(3) by (cases "o_status cur"; simp add: can_transition_def is_terminal_def TERMINAL_STATUSES_def)+
  define od where "od = cur\<lparr>o_status := REJECTED, o_terminal_at := Some (clk w), o_reject := Some reason\<rparr>"
  have rej: "mark_rejected reason (clk w) cur = (Inr True, od)"
    using open_order assms(3) by (simp add: mark_rejected_def transition_def thenE_def bindE_apply od_def TERMINAL_STATUSES_def)
  have cur: "cur \<in> set (d_orders (db ?w))" using find_SomeD [OF assms(2)] by simp
  have inv: "orders_inv (db ?w)" using assms(1) by (simp add: ledger_inv_def)
  obtain w1 where s: "save_order od ?w = (Inr (od\<lparr>o_version := o_version od + 1\<rparr>), w1)" "update_row od cur \<in> set (d_orders (db w1))"
    using save_fresh [OF inv cur, of od] by (auto simp: od_def)
  obtain w2 where e: "enqueue_order (od\<lparr>o_version := o_version od + 1\<rparr>) w1 = (Inr (), w2)" "d_orders (db w2) = d_orders (db w1)"
    using enqueue_order_returns by blast
  have "reject_order coid reason w = (Inr (), w2\<lparr>depth := depth w\<rparr>)"
    unfolding reject_order_def update_order_def bindE_now
    by (rule transaction_Inr) (simp add: get_order_def assms(2) objE_Inr [of "mark_rejected reason (clk w)", OF rej] save_and_enqueue_def s(1) [simplified] e(1) thenE_def bindE_apply)
  moreover have "update_row od cur \<in> set (d_orders (db (w2\<lparr>depth := depth w\<rparr>)))" using s(2) e(2) by simp
  ultimately show ?thesis
    by (intro exI [of _ "w2\<lparr>depth := depth w\<rparr>"] conjI bexI [of _ "update_row od cur"]) (simp_all add: update_row_def od_def)
qed

text \<open>
  C27: an ambiguous order does not stay ambiguous. When an order that was sent without an answer is still unknown to the exchange after
  the grace window, the next query settles it: the order service answers "resolved", and the order is stored as REJECTED
  with the not-found reason, so that a later attempt of the decision is possible and no run stays pending on it.
\<close>

theorem ambiguous_settles:
  assumes "ledger_inv (db w)" "find (\<lambda>x. o_coid x = o_coid od) (d_orders (db w)) = Some cur" "can_transition (o_status cur) REJECTED"
    and "\<not> is_terminal (o_status od)" "o_submitted od = Some s"
    and "ex_query (sv_ex sv) od w = (Inr None, w1)" "db w1 = db w" "s + seconds (AMBIGUOUS_ORDER_GRACE_SECONDS (sv_cfg sv)) \<le> clk w1"
  shows "\<exists>w'. resolve_ambiguous sv od w = (Inr ''resolved'', w')
    \<and> (\<exists>fin\<in>set (d_orders (db w')). o_id fin = o_id cur \<and> o_status fin = REJECTED \<and> startswith (or_empty (o_reject fin)) NOT_FOUND_REASON)"
proof -
  define reason where "reason = NOT_FOUND_REASON @ '' after '' @ str_int (round_down_int (of_int (clk w1 - s) / 1000000)) @ ''s''"
  obtain w' fin where r: "reject_order (o_coid od) reason w1 = (Inr (), w')" "fin \<in> set (d_orders (db w'))" "o_id fin = o_id cur"
      "o_status fin = REJECTED" "o_reject fin = Some reason"
    using reject_settles [of w1 "o_coid od" cur reason] assms(1-3,7) by metis
  have "resolve_ambiguous sv od w = (Inr ''resolved'', w')"
    unfolding resolve_ambiguous_def
    using assms(4-6,8) r(1) by (simp add: tryE_def bindE_apply thenE_def Let_def reason_def)
  moreover have "startswith (or_empty (o_reject fin)) NOT_FOUND_REASON" using r(5) by (simp add: reason_def or_empty_def)
  ultimately show ?thesis using r by blast
qed

text \<open>An account with one order that was sent a minute ago and of which the exchange knows nothing.\<close>

definition lost_order :: order where
  "lost_order = base_order\<lparr>o_status := SUBMITTING, o_submitted := Some 0, o_ambiguous := True\<rparr>"

definition lost_world :: "unit world" where
  "lost_world = \<lparr>db = empty_ledger\<lparr>d_intents := [demo_intent\<lparr>oi_id := ''i1''\<rparr>], d_orders := [lost_order], d_next_order := 2\<rparr>,
     depth = 0, clk = seconds 60, ext = ()\<rparr>"

theorem ambiguous_settles_witness:
  "\<exists>w'. resolve_ambiguous demo_services lost_order lost_world = (Inr ''resolved'', w')
    \<and> (\<exists>fin\<in>set (d_orders (db w')). o_id fin = 1 \<and> o_status fin = REJECTED \<and> startswith (or_empty (o_reject fin)) NOT_FOUND_REASON)"
proof -
  have "ledger_inv (db lost_world)"
    by (simp add: ledger_inv_def orders_inv_def fills_inv_def tables_inv_def fresh_ids_def exids_unique_def trades_unique_def
        lost_world_def lost_order_def base_order_def empty_ledger_def)
  moreover have "find (\<lambda>x. o_coid x = o_coid lost_order) (d_orders (db lost_world)) = Some lost_order" by (simp add: lost_world_def)
  moreover have "ex_query (sv_ex demo_services) lost_order lost_world = (Inr None, lost_world)"
    by (simp add: demo_services_def paper_executor_def paper_query_def paper_lookup_def kv_get_def lost_world_def empty_ledger_def bindE_apply)
  ultimately show ?thesis
    using ambiguous_settles [of lost_world lost_order lost_order 0 demo_services lost_world]
    by (simp add: lost_order_def base_order_def can_transition_def is_terminal_def TERMINAL_STATUSES_def lost_world_def demo_services_def
        demo_config_def)
qed

section \<open>Paging ends\<close>

text \<open>An endpoint that counts its requests.\<close>

definition counted :: "'y endpoint \<Rightarrow> (nat \<times> 'y) endpoint" where
  "counted f params s = (case f params (snd s) of (r, y, micros) \<Rightarrow> (r, (fst s + 1, y), micros))"

definition requests :: "(nat \<times> 'y) outer world \<Rightarrow> nat" where
  "requests w = fst (ou_rest (ext w))"

lemma trade_rows_count:
  assumes "ep_my_trades (bx_api bx) = counted f"
  shows "requests (snd (trade_rows bx esym oid t i n w)) = requests w + 1"
  using assms
  by (simp add: trade_rows_def rest_my_trades_def rest_call_def must_def outside_def bindE_apply counted_def requests_def case_prod_beta
      split: sum.split)

lemma more_pages_count:
  assumes "ep_my_trades (bx_api bx) = counted f"
  shows "requests (snd (more_pages bx esym limit n rows out w)) \<le> requests w + n"
proof (induction n arbitrary: rows out w)
  case (Suc n)
  show ?case
  proof (cases "length rows < limit")
    case False
    let ?id = "if rows = [] then Inl (Other ''list index out of range'') else bindR (jget ''id'' (last rows)) int_of"
    show ?thesis
    proof (cases ?id)
      case (Inr i)
      obtain r w1 where t: "trade_rows bx esym None None (Some (i + 1)) limit w = (r, w1)"
        by (cases "trade_rows bx esym None None (Some (i + 1)) limit w")
      have "requests w1 = requests w + 1" using trade_rows_count [OF assms] t by (metis snd_conv)
      then show ?thesis using False Inr t Suc.IH [of _ _ w1]
        by (subst more_pages.simps) (cases r; auto simp: bindE_apply)
    qed (subst more_pages.simps, use False in simp)
  qed (subst more_pages.simps, simp)
qed (subst more_pages.simps, simp)

text \<open>
  C28: reading the recent executions ends. Whatever the exchange answers, even the same full page over and
  over, \<open>recent_fills\<close> makes at most fifty requests and then returns or raises.
\<close>

theorem recent_fills_bounded:
  "requests (snd (bx_recent_fills (bx\<lparr>bx_api := (bx_api bx)\<lparr>ep_my_trades := counted f\<rparr>\<rparr>) symbol since w)) \<le> requests w + MAX_PAGES"
proof -
  let ?bx = "bx\<lparr>bx_api := (bx_api bx)\<lparr>ep_my_trades := counted f\<rparr>\<rparr>" and ?esym = "exchange_symbol symbol"
  have f: "ep_my_trades (bx_api ?bx) = counted f" by simp
  obtain r w1 where t: "trade_rows ?bx ?esym None (Some since) None PAGE_LIMIT w = (r, w1)"
    by (cases "trade_rows ?bx ?esym None (Some since) None PAGE_LIMIT w")
  have w1: "requests w1 = requests w + 1" using trade_rows_count [OF f] t by (metis snd_conv)
  show ?thesis
  proof (cases r)
    case (Inr rows)
    obtain a w2 where m: "more_pages ?bx ?esym PAGE_LIMIT (MAX_PAGES - 1) rows rows w1 = (a, w2)"
      by (cases "more_pages ?bx ?esym PAGE_LIMIT (MAX_PAGES - 1) rows rows w1")
    have "requests w2 \<le> requests w1 + (MAX_PAGES - 1)" using more_pages_count [OF f] m by (metis snd_conv)
    then show ?thesis using t m Inr w1
      by (cases a) (simp_all add: bx_recent_fills_def Let_def bindE_apply MAX_PAGES_def)
  qed (use t w1 in \<open>simp add: bx_recent_fills_def Let_def bindE_apply MAX_PAGES_def\<close>)
qed

end
