(* ===== verification/Control_Plane.thy ===== *)
theory Control_Plane
  imports Executor
begin

text \<open>
  The control plane client \<^verbatim>\<open>engine/control_plane/client.py\<close>. The HTTP session, the wall clock and the
  random request ids are fields of the client; a request answers with a response or, as \<open>Inl\<close>, the class name
  of a \<^verbatim>\<open>requests.RequestException\<close>. The lemmas show when a call raises and with which exception, on which
  failing closed and dead-lettering rely.
\<close>

record response =
  rp_status :: int
  rp_text :: string
  rp_json :: "jval option"

record 'x client =
  cc_base :: string
  cc_token :: string
  cc_bot :: string
  cc_time :: "('x world, int) eff"
  cc_uuid :: "('x world, string) eff"
  cc_request :: "string \<Rightarrow> string \<Rightarrow> jval option \<Rightarrow> (string \<times> string) list \<Rightarrow> ('x world, string + response) eff"

text \<open>\<^verbatim>\<open>s.rstrip("/")\<close>\<close>

definition rstrip :: "char \<Rightarrow> string \<Rightarrow> string" where
  "rstrip c s = rev (dropWhile (\<lambda>x. x = c) (rev s))"

definition client_base :: "string \<Rightarrow> string \<Rightarrow> string" where
  "client_base url botid = rstrip (CHR ''/'') url @ ''/api/internal/v1/bots/'' @ botid"

definition headers :: "'x client \<Rightarrow> string \<Rightarrow> int \<Rightarrow> (string \<times> string) list" where
  "headers cc rid t = [(''Authorization'', ''Bearer '' @ cc_token cc), (''Accept'', ''application/json''),
     (''Content-Type'', ''application/json''), (''X-Bot-Instance'', cc_bot cc), (''X-Request-Id'', rid),
     (''X-Request-Timestamp'', str_int t)]"

definition send :: "'x client \<Rightarrow> string \<Rightarrow> string \<Rightarrow> (string \<times> jval) list option \<Rightarrow> string option \<Rightarrow> ('x world, jval) eff" where
  "send cc meth path payload request_id =
     bindE (if truthy request_id then ret (the request_id) else cc_uuid cc) (\<lambda>rid.
     bindE (cc_time cc) (\<lambda>t.
     let body = map_option (\<lambda>p. JObj (AList.updates (map fst p) (map snd p) [(''bot_instance'', JStr (cc_bot cc))])) payload in
     bindE (cc_request cc meth (cc_base cc @ ''/'' @ path) body (headers cc rid t)) (\<lambda>r. case r of
       Inl name \<Rightarrow> raise (ControlPlaneUnavailable (meth @ '' '' @ path @ '': '' @ name))
     | Inr r \<Rightarrow>
         if rp_status r \<in> {400, 409, 422}
         then raise (ControlPlaneRejected (meth @ '' '' @ path @ '': HTTP '' @ str_int (rp_status r) @ '': '' @ take 300 (rp_text r)))
         else if 400 \<le> rp_status r
         then raise (ControlPlaneUnavailable (meth @ '' '' @ path @ '': HTTP '' @ str_int (rp_status r)))
         else case rp_json r of
           None \<Rightarrow> raise (ControlPlaneUnavailable (meth @ '' '' @ path @ '': invalid JSON''))
         | Some j \<Rightarrow> ret j)))"

fun is_bool :: "jval option \<Rightarrow> bool" where
  "is_bool (Some (JBool b)) = True"
| "is_bool _ = False"

definition get_control :: "'x client \<Rightarrow> ('x world, (string \<times> jval) list) eff" where
  "get_control cc = bindE (send cc ''GET'' ''control'' None None) (\<lambda>j. case j of
     JObj d \<Rightarrow> if \<not> is_bool (map_of d ''enabled'') \<or> \<not> is_bool (map_of d ''emergency_stop'')
       then raise (ControlPlaneUnavailable ''control response missing enabled/emergency_stop booleans'') else ret d
   | _ \<Rightarrow> raise (AttributeError ''get''))"

definition heartbeat :: "'x client \<Rightarrow> (string \<times> jval) list \<Rightarrow> ('x world, jval) eff" where
  "heartbeat cc payload = send cc ''POST'' ''heartbeat'' (Some payload) None"

definition post :: "'x client \<Rightarrow> string \<Rightarrow> (string \<times> jval) list \<Rightarrow> string \<Rightarrow> ('x world, jval) eff" where
  "post cc kind payload request_id = send cc ''POST'' kind (Some payload) (Some request_id)"

section \<open>Failures are never taken for answers\<close>

text \<open>The library calls of a client do not themselves raise the engine's exceptions.\<close>

definition foreign_errors :: "'x client \<Rightarrow> bool" where
  "foreign_errors cc \<longleftrightarrow> (\<forall>w m. fst (cc_uuid cc w) \<noteq> Inl (ControlPlaneRejected m) \<and> fst (cc_time cc w) \<noteq> Inl (ControlPlaneRejected m)
     \<and> (\<forall>me url body hs. fst (cc_request cc me url body hs w) \<noteq> Inl (ControlPlaneRejected m)))"

lemma send_Inr:
  assumes "send cc me path payload rid w = (Inr j, w')"
  shows "\<exists>body hs v resp. cc_request cc me (cc_base cc @ ''/'' @ path) body hs v = (Inr (Inr resp), w')
    \<and> (payload = None \<longrightarrow> body = None) \<and> rp_status resp < 400 \<and> rp_json resp = Some j"
proof -
  obtain b w1 t w2 r w3 where r: "cc_request cc me (cc_base cc @ ''/'' @ path)
      (map_option (\<lambda>p. JObj (AList.updates (map fst p) (map snd p) [(''bot_instance'', JStr (cc_bot cc))])) payload) (headers cc b t) w2 = (Inr r, w3)"
    "(case r of Inl name \<Rightarrow> raise (ControlPlaneUnavailable (me @ '' '' @ path @ '': '' @ name))
     | Inr r \<Rightarrow> if rp_status r \<in> {400, 409, 422}
         then raise (ControlPlaneRejected (me @ '' '' @ path @ '': HTTP '' @ str_int (rp_status r) @ '': '' @ take 300 (rp_text r)))
         else if 400 \<le> rp_status r
         then raise (ControlPlaneUnavailable (me @ '' '' @ path @ '': HTTP '' @ str_int (rp_status r)))
         else case rp_json r of
           None \<Rightarrow> raise (ControlPlaneUnavailable (me @ '' '' @ path @ '': invalid JSON''))
         | Some j \<Rightarrow> ret j) w3 = (Inr j, w')"
    using assms unfolding send_def Let_def by (elim bindE_InrE) blast
  show ?thesis
  proof (cases r)
    case (Inr resp)
    have "rp_status resp < 400" "rp_json resp = Some j" "w3 = w'"
      using r(2) Inr by (auto split: if_splits option.splits)
    then show ?thesis using r(1) Inr by (intro exI conjI) (assumption | simp)+
  qed (use r(2) in simp)
qed

text \<open>
  The control plane client fails closed. \<open>get_control\<close> returns only the JSON object of a successful response (status
  below 400) that states both switches as booleans; a network failure, an error status, a response that
  is not JSON or lacks a switch raises.
\<close>

theorem get_control_fail_closed:
  assumes "get_control cc w = (Inr d, w')"
  shows "(\<exists>enabled stop. map_of d ''enabled'' = Some (JBool enabled) \<and> map_of d ''emergency_stop'' = Some (JBool stop))
    \<and> (\<exists>hs v resp. cc_request cc ''GET'' (cc_base cc @ ''/control'') None hs v = (Inr (Inr resp), w')
         \<and> rp_status resp < 400 \<and> rp_json resp = Some (JObj d))"
proof -
  obtain j w1 where j: "send cc ''GET'' ''control'' None None w = (Inr j, w1)"
    "(case j of JObj d \<Rightarrow> if \<not> is_bool (map_of d ''enabled'') \<or> \<not> is_bool (map_of d ''emergency_stop'')
       then raise (ControlPlaneUnavailable ''control response missing enabled/emergency_stop booleans'') else ret d
     | _ \<Rightarrow> raise (AttributeError ''get'')) w1 = (Inr d, w')"
    using assms unfolding get_control_def by (elim bindE_InrE) blast
  then have d: "j = JObj d" "w1 = w'" "is_bool (map_of d ''enabled'')" "is_bool (map_of d ''emergency_stop'')"
    by (auto split: jval.splits if_splits)
  have b: "is_bool x \<Longrightarrow> \<exists>b. x = Some (JBool b)" for x by (cases x rule: is_bool.cases) auto
  show ?thesis using send_Inr [OF j(1)] b [OF d(3)] b [OF d(4)] d(1,2) by auto
qed

text \<open>
  A message is given up only when the control plane refused it. Delivery raises \<open>ControlPlaneRejected\<close>, on which the
  dispatcher dead-letters a message at once, only for the statuses 400, 409 and 422; every other failure
  leaves the message to be retried.
\<close>

theorem rejected_only_by_status:
  assumes "foreign_errors cc" "post cc kind payload rid w = (Inl (ControlPlaneRejected m), w')"
  shows "\<exists>body hs v resp. cc_request cc ''POST'' (cc_base cc @ ''/'' @ kind) body hs v = (Inr (Inr resp), w')
    \<and> rp_status resp \<in> {400, 409, 422}"
proof -
  let ?body = "Some (JObj (AList.updates (map fst payload) (map snd payload) [(''bot_instance'', JStr (cc_bot cc))]))"
  have no: "fst (cc_uuid cc v) \<noteq> Inl (ControlPlaneRejected m)" "fst (cc_time cc v) \<noteq> Inl (ControlPlaneRejected m)"
    "fst (cc_request cc me url body hs v) \<noteq> Inl (ControlPlaneRejected m)" for v me url body hs
    using assms(1) unfolding foreign_errors_def by blast+
  obtain i v1 where i: "(if truthy (Some rid) then ret (the (Some rid)) else cc_uuid cc) w = (Inr i, v1)"
    using assms(2) no(1) [of w] unfolding post_def send_def
    by (cases "(if truthy (Some rid) then ret (the (Some rid)) else cc_uuid cc) w") (auto simp: bindE_apply split: sum.splits if_splits)
  obtain t v2 where t: "cc_time cc v1 = (Inr t, v2)"
    using assms(2) no(2) [of v1] i unfolding post_def send_def
    by (cases "cc_time cc v1") (auto simp: bindE_apply split: sum.splits if_splits)
  obtain r v3 where r: "cc_request cc ''POST'' (cc_base cc @ ''/'' @ kind) ?body (headers cc i t) v2 = (Inr r, v3)"
    using assms(2) no(3) i t unfolding post_def send_def
    by (cases "cc_request cc ''POST'' (cc_base cc @ ''/'' @ kind) ?body (headers cc i t) v2")
      (auto simp: bindE_apply Let_def split: sum.splits if_splits dest: arg_cong [of _ _ fst])
  show ?thesis
    using assms(2) i t r unfolding post_def send_def
    by (cases r) (auto simp: bindE_apply Let_def split: if_splits option.splits)
qed

definition demo_client :: "int \<Rightarrow> unit client" where
  "demo_client status = \<lparr>cc_base = client_base ''http://cp/'' ''bot'', cc_token = ''t'', cc_bot = ''bot'', cc_time = ret 0, cc_uuid = ret ''u'',
     cc_request = (\<lambda>_ _ _ _. ret (Inr \<lparr>rp_status = status, rp_text = ''{}'',
       rp_json = Some (JObj [(''enabled'', JBool True), (''emergency_stop'', JBool False)])\<rparr>))\<rparr>"

theorem get_control_fail_closed_witness:
  "let w = \<lparr>db = empty_ledger, depth = 0, clk = 0, ext = ()\<rparr> in
   \<exists>d. get_control (demo_client 200) w = (Inr d, w) \<and> (\<exists>b s. map_of d ''enabled'' = Some (JBool b) \<and> map_of d ''emergency_stop'' = Some (JBool s))"
proof -
  let ?w = "\<lparr>db = empty_ledger, depth = 0, clk = 0, ext = ()\<rparr> :: unit world"
  have "get_control (demo_client 200) ?w = (Inr [(''enabled'', JBool True), (''emergency_stop'', JBool False)], ?w)"
    by (simp add: get_control_def send_def demo_client_def truthy_def bindE_apply Let_def)
  from this get_control_fail_closed [OF this] show ?thesis unfolding Let_def by blast
qed

theorem rejected_only_by_status_witness:
  "let w = \<lparr>db = empty_ledger, depth = 0, clk = 0, ext = ()\<rparr> in
   (\<exists>m. post (demo_client 422) ''fills'' [] ''k'' w = (Inl (ControlPlaneRejected m), w))
   \<and> (\<exists>body hs v resp. cc_request (demo_client 422) ''POST'' (cc_base (demo_client 422) @ ''/'' @ ''fills'') body hs v = (Inr (Inr resp), w)
        \<and> rp_status resp \<in> {400, 409, 422})"
proof -
  let ?w = "\<lparr>db = empty_ledger, depth = 0, clk = 0, ext = ()\<rparr> :: unit world"
  have "\<exists>m. post (demo_client 422) ''fills'' [] ''k'' ?w = (Inl (ControlPlaneRejected m), ?w)"
    by (simp add: post_def send_def demo_client_def truthy_def bindE_apply Let_def)
  then obtain m where m: "post (demo_client 422) ''fills'' [] ''k'' ?w = (Inl (ControlPlaneRejected m), ?w)" by blast
  have "foreign_errors (demo_client 422)" by (simp add: foreign_errors_def demo_client_def)
  from m rejected_only_by_status [OF this m] show ?thesis unfolding Let_def by blast
qed

end
