(* ===== verification/Bootstrap.thy ===== *)
theory Bootstrap
  imports Binance Control_Plane
begin

text \<open>
  The composition root \<^verbatim>\<open>engine/bootstrap.py\<close>, the choice of an executor \<^verbatim>\<open>engine/execution/factory.py\<close>, and
  what holds of the engine they build. Everything outside the process (exchange, control plane, price and news
  feeds, random identifiers) is a function of its own state in \<open>'y surroundings\<close>, so the properties hold for every
  behaviour of it: a cycle keeps the ledger invariant and only advances the ledger, records an order only with
  every gate open, and in PAPER mode never depends on the exchange. The arguments by which the tests inject parts of
  their own into \<^verbatim>\<open>build\<close> are left out: this is the engine of the entry points.
\<close>

record 'y surroundings =
  su_sha :: "string \<Rightarrow> string"
  su_isfile :: "string \<Rightarrow> bool"
  su_api :: "'y api"
  su_http :: "string \<Rightarrow> string \<Rightarrow> jval option \<Rightarrow> (string \<times> string) list \<Rightarrow> 'y \<Rightarrow> (string + response) \<times> 'y \<times> nat"
  su_uuid :: "'y \<Rightarrow> string \<times> 'y \<times> nat"
  su_time :: "'y \<Rightarrow> int \<times> 'y \<times> nat"
  su_ohlcv :: "string \<Rightarrow> 'y \<Rightarrow> (exn + candle list option) \<times> 'y \<times> nat"
  su_global :: "'y \<Rightarrow> (exn + rat option) \<times> 'y \<times> nat"
  su_news :: "'y \<Rightarrow> (exn + headline list) \<times> 'y \<times> nat"
  su_indicators :: "candle list \<Rightarrow> indicators"
  su_vader :: "(string \<Rightarrow> rat) option"
  su_nonce :: string

definition remote :: "('y \<Rightarrow> 'a \<times> 'y \<times> nat) \<Rightarrow> ('y outer world, 'a) eff" where
  "remote f = outside (\<lambda>x. case f (ou_rest x) of (a, y, micros) \<Rightarrow> (a, x\<lparr>ou_rest := y\<rparr>, micros))"

definition remote_raising :: "('y \<Rightarrow> (exn + 'a) \<times> 'y \<times> nat) \<Rightarrow> ('y outer world, 'a) eff" where
  "remote_raising f = bindE (remote f) liftE"

section \<open>The parts\<close>

definition engine_exchange :: "config \<Rightarrow> 'y surroundings \<Rightarrow> 'y exchange" where
  "engine_exchange cfg su = \<lparr>bx_api = su_api su, bx_account = BINANCE_ACCOUNT_LABEL cfg, bx_symbols = [SYMBOL cfg]\<rparr>"

definition build_executor :: "config \<Rightarrow> 'y surroundings \<Rightarrow> exn + 'y outer executor" where
  "build_executor cfg su =
     (if TRADING_MODE cfg = ''PAPER'' then Inr (paper_executor cfg)
      else if TRADING_MODE cfg = ''LIVE'' \<and> \<not> LIVE_TRADING_CONFIRMED cfg
      then Inl (RuntimeError ''Refusing to build a LIVE executor without LIVE_TRADING_CONFIRMED=true'')
      else Inr (binance_executor (engine_exchange cfg su)))"

definition engine_client :: "config \<Rightarrow> 'y surroundings \<Rightarrow> 'y outer client" where
  "engine_client cfg su = \<lparr>cc_base = client_base (CONTROL_PLANE_URL cfg) (BOT_INSTANCE_ID cfg), cc_token = CONTROL_PLANE_TOKEN cfg,
     cc_bot = BOT_INSTANCE_ID cfg, cc_time = remote (su_time su), cc_uuid = remote (su_uuid su),
     cc_request = (\<lambda>meth url body hs. remote (su_http su meth url body hs))\<rparr>"

definition engine_market :: "config \<Rightarrow> 'y surroundings \<Rightarrow> 'y outer market" where
  "engine_market cfg su = \<lparr>mk_cfg = cfg, mk_ohlcv = (\<lambda>s. remote_raising (su_ohlcv su s)), mk_global = remote_raising (su_global su),
     mk_news = remote_raising (su_news su), mk_indicators = su_indicators su, mk_vader = su_vader su\<rparr>"

definition assemble :: "config \<Rightarrow> 'y surroundings \<Rightarrow> 'y outer executor \<Rightarrow> candle list strategy \<Rightarrow> 'y outer cycle_env" where
  "assemble cfg su ex st = \<lparr>ce_sv = \<lparr>sv_cfg = cfg, sv_ex = ex, sv_sha = su_sha su\<rparr>, ce_isfile = su_isfile su,
     ce_control = get_control (engine_client cfg su), ce_market = (\<lambda>symbol. snapshot (engine_market cfg su) symbol True),
     ce_strategy = st, ce_score = score_text (su_vader su), ce_nonce = su_nonce su\<rparr>"

definition build ::
  "config \<Rightarrow> 'y surroundings \<Rightarrow> (string \<Rightarrow> exn + candle list artifact) \<Rightarrow> string \<Rightarrow> (loader, 'y outer cycle_env) eff" where
  "build cfg su unpickle sklearn = bindE (liftE (build_executor cfg su)) (\<lambda>ex.
     bindE (build_strategy (su_sha su) unpickle sklearn cfg) (\<lambda>st. ret (assemble cfg su ex st)))"

section \<open>Health\<close>

definition health_snapshot :: "'x services \<Rightarrow> string \<Rightarrow> ('x world, (string \<times> jval) list) eff" where
  "health_snapshot sv worker = (let cfg = sv_cfg sv; bot = BOT_INSTANCE_ID cfg in
     bindE (get_recon_state bot) (\<lambda>st. bindE (pos_get cfg (SYMBOL cfg)) (\<lambda>p. bindE now (\<lambda>t.
     bindE (kv_get (''health:'' @ bot @ '':last_market_data_at'')) (\<lambda>data_at.
     bindE (kv_get (''health:'' @ bot @ '':last_cycle_at'')) (\<lambda>cycle_at.
     bindE (non_terminal sv None) (\<lambda>ods. bindE (open_mismatch_count bot) (\<lambda>mms. bindE outbox_backlog (\<lambda>backlog.
       ret [(''worker'', JStr worker), (''status'', JStr ''RUNNING''), (''mode'', JStr (TRADING_MODE cfg)),
            (''symbol'', JStr (SYMBOL cfg)), (''timeframe'', JStr (TIMEFRAME cfg)), (''time'', JTime t),
            (''last_market_data_at'', jopt id data_at), (''last_cycle_at'', jopt id cycle_at),
            (''ws_connected'', JBool (rs_ws_connected st)), (''last_ws_event_at'', jopt JTime (rs_last_ws_event st)),
            (''reconciliation_state'', JStr (recon_value (rs_status st))), (''reconciliation_reason'', JStr (rs_reason st)),
            (''last_reconciled_at'', jopt JTime (rs_last_success st)), (''non_terminal_orders'', JInt (int (length ods))),
            (''open_mismatches'', JInt (int mms)), (''outbox_backlog'', JInt (int backlog)),
            (''position_quantity'', JDec (p_qty p)), (''realized_pnl'', JDec (p_realized p))])))))))))"

section \<open>The engine satisfies the contracts\<close>

lemma remote_laws [keeps_intros]: "safe (remote f)" "safe (remote_raising g)"
  unfolding remote_raising_def remote_def by (intro keeps_intros)+

lemma adds_remote [adds_intros]: "adds W Q (remote f)" "adds W Q (remote_raising g)"
  unfolding remote_raising_def remote_def by (intro adds_intros)+

lemma control_laws: "safe (get_control (engine_client cfg su))" "adds W Q (get_control (engine_client cfg su))"
  unfolding get_control_def send_def engine_client_def Let_def
  by (auto intro!: keeps_intros split: sum.split jval.split option.split)
     (auto intro!: adds_intros split: sum.split jval.split option.split)

lemma market_laws: "safe (snapshot (engine_market cfg su) symbol ctx)" "adds W Q (snapshot (engine_market cfg su) symbol ctx)"
  unfolding snapshot_def engine_market_def Let_def
  by (auto intro!: keeps_intros split: sum.split option.split prod.split)
     (auto intro!: adds_intros split: sum.split option.split prod.split)

lemma assemble_parts: "sv_ex (ce_sv (assemble cfg su ex st)) = ex" "ce_control (assemble cfg su ex st) = get_control (engine_client cfg su)"
  "ce_market (assemble cfg su ex st) s = snapshot (engine_market cfg su) s True"
  by (simp_all add: assemble_def)

interpretation paper_engine: quiet_cycle "assemble cfg su (paper_executor cfg) st"
  by (intro quiet_cycle.intro quiet_cycle_axioms.intro) (simp_all add: assemble_parts paper_orders.order_execution_axioms control_laws market_laws)

interpretation binance_engine: quiet_cycle "assemble cfg su (binance_executor bx) st"
  by (intro quiet_cycle.intro quiet_cycle_axioms.intro) (simp_all add: assemble_parts binance_orders.order_execution_axioms control_laws market_laws)

lemma built:
  assumes "fst (build cfg su unpickle sklearn ld) = Inr env"
  obtains ex st where "build_executor cfg su = Inr ex" "env = assemble cfg su ex st"
proof -
  obtain ld' where "build cfg su unpickle sklearn ld = (Inr env, ld')" using assms by (metis prod.collapse)
  then show ?thesis unfolding build_def by (elim bindE_InrE) (auto intro: that)
qed

lemma built_quiet:
  assumes "fst (build cfg su unpickle sklearn ld) = Inr env"
  shows "quiet_cycle env"
proof -
  obtain ex st where env: "build_executor cfg su = Inr ex" "env = assemble cfg su ex st" using built [OF assms] .
  then have "ex = paper_executor cfg \<or> ex = binance_executor (engine_exchange cfg su)"
    by (auto simp: build_executor_def split: if_splits)
  then show ?thesis using paper_engine.quiet_cycle_axioms binance_engine.quiet_cycle_axioms unfolding env(2) by metis
qed

section \<open>What holds of every engine that was built\<close>

text \<open>
  C1: an order is recorded only with every gate open. Whatever the control plane, the exchange and the feeds answer,
  every intent a cycle adds was added after the control plane answered in this very cycle, with a valid
  configuration and a reconciliation state that allows exits; and an intent to enter the market only if
  the control state enables the bot and has no emergency stop, trading is enabled globally and reconciliation is HEALTHY and fresh.
\<close>

theorem intents_gated:
  assumes "fst (build cfg su unpickle sklearn ld) = Inr env"
  shows "set (d_intents (db (snd (run_once env w)))) \<subseteq> set (d_intents (db w))
     \<union> {it. \<exists>control w1 st w2. ce_control env (asked env w) = (Inr control, w1)
          \<and> validate_runtime (ce_isfile env) (ce_cfg env) = Inr ()
          \<and> reconciliation_gate env control w1 = (Inr st, w2)
          \<and> allows_exits st (clk w2) (RECON_STATE_MAX_AGE_SECONDS (ce_cfg env))
          \<and> (oi_purpose it = ENTRY \<longrightarrow> flag ''enabled'' control \<and> \<not> flag ''emergency_stop'' control
                \<and> GLOBAL_TRADING_ENABLED (ce_cfg env) \<and> allows_entries st (clk w2) (RECON_STATE_MAX_AGE_SECONDS (ce_cfg env)))}"
  by (rule quiet_cycle.gated [OF built_quiet [OF assms]])

text \<open>
  C2: a trading cycle never damages the ledger. Whatever happens during a cycle of an engine that was built, and whether it
  returns or raises, the uniqueness invariant is kept, nothing is removed, no order moves backwards, every
  transaction is closed and the clock does not run backwards.
\<close>

theorem cycle_advances:
  assumes "fst (build cfg su unpickle sklearn ld) = Inr env"
  shows "safe (run_once env)"
  by (rule quiet_cycle.safe_run_once [OF built_quiet [OF assms]])

text \<open>
  C11: the mode decides where orders can go. An engine is built in PAPER mode with the simulated exchange, and
  the real one does not influence it; in the other modes with the real exchange, and in LIVE mode only with the
  explicit confirmation.
\<close>

theorem build_respects_mode:
  assumes "fst (build cfg su unpickle sklearn ld) = Inr env"
  shows "if TRADING_MODE cfg = ''PAPER''
    then sv_ex (ce_sv env) = paper_executor cfg \<and> fst (build cfg (su\<lparr>su_api := api\<rparr>) unpickle sklearn ld) = Inr env
    else sv_ex (ce_sv env) = binance_executor (engine_exchange cfg su) \<and> (TRADING_MODE cfg \<noteq> ''LIVE'' \<or> LIVE_TRADING_CONFIRMED cfg)"
proof -
  obtain ex st where env: "build_executor cfg su = Inr ex" "env = assemble cfg su ex st" using built [OF assms] .
  have other: "engine_client cfg (su\<lparr>su_api := api\<rparr>) = engine_client cfg su" "engine_market cfg (su\<lparr>su_api := api\<rparr>) = engine_market cfg su"
    by (simp_all add: engine_client_def engine_market_def)
  have "fst (build cfg (su\<lparr>su_api := api\<rparr>) unpickle sklearn ld) = Inr env" if "TRADING_MODE cfg = ''PAPER''"
    using assms that unfolding build_def build_executor_def assemble_def other by simp
  then show ?thesis using env by (auto simp: assemble_parts build_executor_def split: if_splits)
qed

text \<open>
  C7: a decision is attempted a bounded number of times, one attempt after the other. A submission for a decision records an intent of
  its purpose whose id is one of the decision's attempt ids, at most three and for an entry one, and
  only if every earlier attempt of the decision ended without any fill.
\<close>

theorem attempts_bounded:
  assumes "fst (build cfg su unpickle sklearn ld) = Inr env"
  shows "set (d_intents (db (snd (submit env purpose side qty rules ref_price base signal_id ty limit stop w)))) \<subseteq> set (d_intents (db w))
     \<union> {it. oi_purpose it = purpose \<and> (\<exists>k<MAX_ATTEMPTS purpose. oi_id it = attempt_id base k
            \<and> list_all (attempt_failed base (db w)) [0..<k])}"
proof -
  have "only_new True (\<lambda>it. oi_purpose it = purpose \<and> (\<exists>k<MAX_ATTEMPTS purpose. oi_id it = attempt_id base k
            \<and> list_all (attempt_failed base (db w)) [0..<k])) (db w)
      (db (snd (submit env purpose side qty rules ref_price base signal_id ty limit stop w)))"
    by (rule quiet_cycle.submit_at [OF built_quiet [OF assms]]) blast
  then show ?thesis unfolding only_new_def by blast
qed

section \<open>A concrete engine\<close>

definition demo_surroundings :: "bool \<Rightarrow> unit surroundings" where
  "demo_surroundings stopped = \<lparr>su_sha = (\<lambda>s. replicate 64 (CHR ''a'')), su_isfile = (\<lambda>_. False), su_api = bx_api (demo_exchange []),
     su_http = (\<lambda>_ _ _ _ y. (Inr \<lparr>rp_status = 200, rp_text = ''{}'',
       rp_json = Some (JObj [(''enabled'', JBool True), (''emergency_stop'', JBool stopped)])\<rparr>, y, 7)),
     su_uuid = (\<lambda>y. (''u'', y, 1)), su_time = (\<lambda>y. (0, y, 1)), su_ohlcv = (\<lambda>_ y. (Inr (Some demo_candles), y, 2)),
     su_global = (\<lambda>y. (Inr None, y, 2)), su_news = (\<lambda>y. (Inr [], y, 2)), su_indicators = (\<lambda>_. demo_indicators), su_vader = None,
     su_nonce = ''0123abcd''\<rparr>"

definition demo_engine :: "bool \<Rightarrow> unit outer cycle_env" where
  "demo_engine stopped = assemble demo_config (demo_surroundings stopped) (paper_executor demo_config) (multi_factor demo_config)"

lemma demo_built: "fst (build demo_config (demo_surroundings stopped) unpickle sklearn ld) = Inr (demo_engine stopped)"
  by (simp add: build_def build_executor_def build_strategy_def demo_config_def demo_engine_def bindE_apply)

theorem intents_gated_witness:
  "ENTRY \<notin> oi_purpose ` (set (d_intents (db (snd (run_once (demo_engine True) outer_world)))) - set (d_intents (db outer_world)))"
proof -
  have control: "fst (ce_control (demo_engine True) w) = Inr [(''enabled'', JBool True), (''emergency_stop'', JBool True)]" for w
    by (simp add: demo_engine_def assemble_def get_control_def send_def engine_client_def demo_surroundings_def remote_def outside_def
        bindE_apply Let_def truthy_def)
  have "False" if "ce_control (demo_engine True) v = (Inr control, w1)" "\<not> flag ''emergency_stop'' control" for v control w1
    using control [of v] that by (auto simp: flag_def)
  note closed = this
  show ?thesis
  proof (rule notI, elim imageE DiffE)
    fix it
    assume it: "ENTRY = oi_purpose it" "it \<in> set (d_intents (db (snd (run_once (demo_engine True) outer_world))))"
      "it \<notin> set (d_intents (db outer_world))"
    show False using subsetD [OF intents_gated [OF demo_built [of True], where w = outer_world] it(2)] it(1,3) closed by auto
  qed
qed

theorem cycle_advances_witness: "ledger_inv (db (snd (run_once (demo_engine False) outer_world)))"
proof -
  have "advances outer_world (snd (run_once (demo_engine False) outer_world))"
    by (rule keepsS [OF cycle_advances [OF demo_built]])
  then show ?thesis using ledger_inv_empty by (simp add: advances_def outer_world_def)
qed

theorem build_respects_mode_witness:
  "sv_ex (ce_sv (demo_engine False)) = paper_executor demo_config
   \<and> fst (build demo_config ((demo_surroundings False)\<lparr>su_api := bx_api (demo_exchange [demo_row])\<rparr>) (\<lambda>_. Inl type_error) [] \<lparr>ld_files = Map.empty, ld_unpickled = []\<rparr>)
       = Inr (demo_engine False)"
  using build_respects_mode [OF demo_built [of False "\<lambda>_. Inl type_error" "[]" "\<lparr>ld_files = Map.empty, ld_unpickled = []\<rparr>"],
      where api = "bx_api (demo_exchange [demo_row])"]
  by (simp add: demo_config_def)

theorem attempts_bounded_witness:
  "set (d_intents (db (snd (submit (demo_engine False) EXIT SELL 1 demo_rules 100 ''b'' None MARKET None None outer_world))))
     \<subseteq> {it. oi_purpose it = EXIT \<and> (\<exists>k<3. oi_id it = attempt_id ''b'' k \<and> list_all (attempt_failed ''b'' (db outer_world)) [0..<k])}"
proof -
  have "set (d_intents (db outer_world)) = {}" by (simp add: outer_world_def empty_ledger_def)
  then show ?thesis
    using attempts_bounded [OF demo_built [of False], where purpose = EXIT and base = "''b''" and w = outer_world] by simp
qed

end
