(* ===== verification/Worker.thy ===== *)
theory Worker
  imports Bootstrap
begin

text \<open>
  The two processes around the services: the reconciliation worker \<^verbatim>\<open>workers/reconciliation_worker.py\<close> and the
  trading worker \<^verbatim>\<open>workers/trading_worker.py\<close>, with the notifier \<^verbatim>\<open>engine/notifications/telegram.py\<close> of their
  outbox. The handlers are modelled as written, each from beginning to end; Worker_Machine splits them
  into the single reads and writes of the state row and interleaves them. An acknowledgement token that is no
  string counts as none.
\<close>

section \<open>What a worker works with\<close>

record 'x worker_env =
  we_sv :: "'x services"
  we_client :: "'x client"
  we_dispatcher :: "'x dispatcher"

abbreviation "we_cfg env \<equiv> sv_cfg (we_sv env)"
abbreviation "we_bot env \<equiv> BOT_INSTANCE_ID (sv_cfg (we_sv env))"

text \<open>The notifier; a request answers with the status of the response.\<close>

definition telegram_send ::
  "string \<Rightarrow> string \<Rightarrow> (string \<Rightarrow> (string \<times> string) list \<Rightarrow> ('x world, int) eff) \<Rightarrow> jval \<Rightarrow> ('x world, unit) eff" where
  "telegram_send token chat request text =
     (if token = [] \<or> chat = [] then ret ()
      else bindE (liftE (as_str text)) (\<lambda>t.
        bindE (request (''https://api.telegram.org/bot'' @ token @ ''/sendMessage'') [(''chat_id'', chat), (''text'', take 4000 t)]) (\<lambda>status.
          whenE (400 \<le> status) (raise (RuntimeError (''telegram HTTP '' @ str_int status))))))"

definition assemble_worker ::
  "config \<Rightarrow> 'y surroundings \<Rightarrow> (string \<Rightarrow> (string \<times> string) list \<Rightarrow> 'y \<Rightarrow> (exn + int) \<times> 'y \<times> nat) \<Rightarrow> string \<Rightarrow> 'y outer executor
     \<Rightarrow> 'y outer worker_env" where
  "assemble_worker cfg su tg owner ex = \<lparr>we_sv = \<lparr>sv_cfg = cfg, sv_ex = ex, sv_sha = su_sha su\<rparr>, we_client = engine_client cfg su,
     we_dispatcher = \<lparr>dp_post = (\<lambda>kind payload key. thenE (post (engine_client cfg su) kind payload key) (ret ())),
       dp_send = Some (telegram_send (TELEGRAM_BOT_TOKEN cfg) (TELEGRAM_CHAT_ID cfg) (\<lambda>url data. remote_raising (tg url data))),
       dp_max_attempts = OUTBOX_MAX_ATTEMPTS cfg, dp_owner = owner\<rparr>\<rparr>"

text \<open>\<^verbatim>\<open>_heartbeat\<close> and \<^verbatim>\<open>_flush\<close>: whatever they raise is only logged.\<close>

definition quietly :: "('s, 'a) eff \<Rightarrow> ('s, unit) eff" where
  "quietly m = tryE (thenE m (ret ())) (\<lambda>e. ret ())"

definition worker_heartbeat :: "'x worker_env \<Rightarrow> string \<Rightarrow> ('x world, unit) eff" where
  "worker_heartbeat env name = quietly (bindE (health_snapshot (we_sv env) name) (heartbeat (we_client env)))"

definition FLUSH_LIMIT :: nat where "FLUSH_LIMIT = 200"

definition worker_flush :: "'x worker_env \<Rightarrow> ('x world, unit) eff" where
  "worker_flush env = quietly (flush (we_dispatcher env) FLUSH_LIMIT)"

section \<open>The reconciliation worker\<close>

definition TOUCH_SECONDS :: int where "TOUCH_SECONDS = 15"
definition CONTROL_POLL_SECONDS :: int where "CONTROL_POLL_SECONDS = 30"

record 'x worker =
  wk_world :: "'x world"
  wk_connected :: bool

definition on_world :: "('x world, 'a) eff \<Rightarrow> ('x worker, 'a) eff" where
  "on_world m k = (case m (wk_world k) of (r, w) \<Rightarrow> (r, k\<lparr>wk_world := w\<rparr>))"

text \<open>Reading the state row, changing it and writing it back.\<close>

definition edit_state :: "string \<Rightarrow> (time \<Rightarrow> recon_state \<Rightarrow> recon_state) \<Rightarrow> ('x world, unit) eff" where
  "edit_state botid change = bindE (get_recon_state botid) (\<lambda>st. bindE now (\<lambda>t. save_recon_state (change t st)))"

definition disconnected :: "recon_state \<Rightarrow> recon_state" where
  "disconnected st = st\<lparr>rs_ws_connected := False\<rparr>"

definition on_connecting :: "'x worker_env \<Rightarrow> string \<Rightarrow> ('x worker, unit) eff" where
  "on_connecting env detail = thenE (updE (\<lambda>k. k\<lparr>wk_connected := False\<rparr>))
     (on_world (bindE (get_recon_state (we_bot env)) (\<lambda>cur.
        whenE (rs_status cur \<noteq> HALTED) (thenE (set_state (we_cfg env) CONNECTING detail False disconnected) (ret ())))))"

definition on_disconnected :: "'x worker_env \<Rightarrow> string \<Rightarrow> ('x worker, unit) eff" where
  "on_disconnected env detail = thenE (updE (\<lambda>k. k\<lparr>wk_connected := False\<rparr>))
     (on_world (bindE (get_recon_state (we_bot env)) (\<lambda>cur. thenE
        (if rs_status cur \<noteq> HALTED then set_state (we_cfg env) DEGRADED (''websocket down: '' @ detail) False disconnected
         else set_state (we_cfg env) HALTED (rs_reason cur) False disconnected) (ret ()))))"

definition on_subscribed :: "'x worker_env \<Rightarrow> ('x worker, unit) eff" where
  "on_subscribed env = thenE (updE (\<lambda>k. k\<lparr>wk_connected := True\<rparr>))
     (on_world (edit_state (we_bot env) (\<lambda>t st. st\<lparr>rs_ws_connected := True\<rparr>)))"

text \<open>\<^verbatim>\<open>reconcile\<close>: the run, and the check that the stream is still there.\<close>

definition check_connected :: "'x worker_env \<Rightarrow> recon_result \<Rightarrow> ('x worker, unit) eff" where
  "check_connected env res = bindE (getE wk_connected) (\<lambda>c. whenE (\<not> c \<and> rc_status res = HEALTHY)
     (on_world (thenE (set_state (we_cfg env) DEGRADED ''reconciled but websocket not connected'' False disconnected) (ret ()))))"

definition reconcile :: "'x worker_env \<Rightarrow> string \<Rightarrow> string \<Rightarrow> bool \<Rightarrow> ('x worker, recon_result) eff" where
  "reconcile env nonce reason ack = bindE (on_world (recon_run (we_sv env) nonce reason ack)) (\<lambda>res.
     thenE (check_connected env res) (ret res))"

definition SUBSCRIBED_REASON :: string where "SUBSCRIBED_REASON = ''websocket (re)subscribed''"

definition on_state :: "'x worker_env \<Rightarrow> string \<Rightarrow> string \<Rightarrow> string \<Rightarrow> ('x worker, unit) eff" where
  "on_state env nonce state detail =
     (if state = ''CONNECTING'' then on_connecting env detail
      else if state = ''DISCONNECTED'' then on_disconnected env detail
      else if state = ''SUBSCRIBED'' then thenE (on_subscribed env) (thenE (reconcile env nonce SUBSCRIBED_REASON False) (ret ()))
      else ret ())"

text \<open>An event; the answer is the reason of the reconciliation it asks for, if any, which becomes a task of its own.\<close>

fun outcome_value :: "ingest_outcome \<Rightarrow> string" where
  "outcome_value Applied = ''applied''"
| "outcome_value Duplicate = ''duplicate''"
| "outcome_value Foreign = ''foreign''"
| "outcome_value Unknown_bot_order = ''unknown_bot_order''"
| "outcome_value Conflict = ''conflict''"
| "outcome_value Balance = ''balance''"
| "outcome_value Terminated = ''terminated''"
| "outcome_value Ignored = ''ignored''"

definition on_event :: "'x worker_env \<Rightarrow> payload \<Rightarrow> ('x worker, string option) eff" where
  "on_event env message = (case snd (unwrap message) of
     None \<Rightarrow> ret None
   | Some event \<Rightarrow> bindE (liftE (normalize_event event (BINANCE_ACCOUNT_LABEL (we_cfg env)) [SYMBOL (we_cfg env)])) (\<lambda>ev.
       bindE (on_world (handle_event (we_sv env) ev ''ws'')) (\<lambda>out.
       thenE (on_world (edit_state (we_bot env) (\<lambda>t st. st\<lparr>rs_last_ws_event := Some t\<rparr>)))
         (ret (if needs_reconciliation out then Some (''stream event: '' @ outcome_value out) else None)))))"

text \<open>One round of the periodic task with its local variables \<^verbatim>\<open>elapsed\<close> and \<^verbatim>\<open>last_ack\<close>.\<close>

definition ACK_REASON :: string where "ACK_REASON = ''operator acknowledgement''"

definition save_ack :: "'x worker_env \<Rightarrow> string \<Rightarrow> ('x world, unit) eff" where
  "save_ack env ack = edit_state (we_bot env) (\<lambda>t st. st\<lparr>rs_last_ack := Some ack\<rparr>)"

definition poll_control :: "'x worker_env \<Rightarrow> string \<Rightarrow> string option \<Rightarrow> ('x worker, string option) eff" where
  "poll_control env nonce last_ack =
     bindE (tryE (bindE (on_world (get_control (we_client env))) (\<lambda>control. ret (ack_token control))) (\<lambda>e. ret None)) (\<lambda>ack.
       if truthy ack \<and> ack \<noteq> last_ack
       then thenE (quietly (thenE (reconcile env nonce ACK_REASON True) (on_world (save_ack env (the ack))))) (ret ack)
       else ret last_ack)"

definition periodic_round :: "'x worker_env \<Rightarrow> string \<Rightarrow> int \<Rightarrow> string option \<Rightarrow> ('x worker, int \<times> string option) eff" where
  "periodic_round env nonce elapsed last_ack = (let elapsed = elapsed + TOUCH_SECONDS; interval = RECONCILE_INTERVAL_SECONDS (we_cfg env) in
     thenE (on_world (touch (we_cfg env)))
     (bindE (if elapsed mod CONTROL_POLL_SECONDS = 0
             then thenE (on_world (worker_heartbeat env ''reconciliation'')) (poll_control env nonce last_ack)
             else ret last_ack) (\<lambda>last_ack.
      bindE (getE wk_connected) (\<lambda>c.
      thenE (if c \<and> interval = 0 then raise (Other ''ZeroDivisionError'')
             else whenE (c \<and> elapsed mod interval < TOUCH_SECONDS) (thenE (reconcile env nonce ''periodic'' False) (ret ())))
      (thenE (on_world (worker_flush env)) (ret (elapsed, last_ack)))))))"

text \<open>What \<^verbatim>\<open>run\<close> does before the stream is started.\<close>

definition start_worker :: "'x worker_env \<Rightarrow> ('x worker, unit) eff" where
  "start_worker env = on_world (bindE (get_recon_state (we_bot env)) (\<lambda>cur.
     whenE (rs_status cur \<noteq> HALTED) (thenE (set_state (we_cfg env) CONNECTING ''worker starting'' False disconnected) (ret ()))))"

section \<open>The trading worker\<close>

text \<open>One round of the loop at the monotonic time \<open>t\<close>, with the times the next cycle and the next heartbeat are due.\<close>

definition trading_round :: "'x worker_env \<Rightarrow> 'x cycle_env \<Rightarrow> rat \<Rightarrow> rat \<times> rat \<Rightarrow> ('x world, rat \<times> rat) eff" where
  "trading_round env ce t sched = (case sched of (next_cycle, next_beat) \<Rightarrow>
     thenE (whenE (next_beat \<le> t) (worker_heartbeat env ''trading''))
     (thenE (whenE (next_cycle \<le> t) (quietly (run_once ce)))
     (thenE (worker_flush env)
       (ret (if next_cycle \<le> t then fadd t (of_int (LOOP_INTERVAL_SECONDS (ce_cfg ce))) else next_cycle,
             if next_beat \<le> t then fadd t (of_int (HEARTBEAT_INTERVAL_SECONDS (ce_cfg ce))) else next_beat)))))"

fun trading_loop :: "'x worker_env \<Rightarrow> 'x cycle_env \<Rightarrow> rat list \<Rightarrow> rat \<times> rat \<Rightarrow> ('x world, rat \<times> rat) eff" where
  "trading_loop env ce [] sched = ret sched"
| "trading_loop env ce (t # ts) sched = bindE (trading_round env ce t sched) (trading_loop env ce ts)"

section \<open>The contract of a worker's environment\<close>

lemma quiet_store [adds_intros]:
  "adds W Q (acquire_lease n ow ttl)" "adds W Q (pending_outbox m)" "adds W Q (mark_outbox_sent i)"
  "adds W Q (mark_outbox_failed i err t dead)" "adds W Q (open_mismatch_count b)" "adds W Q outbox_backlog"
  unfolding acquire_lease_def pending_outbox_def mark_outbox_sent_def mark_outbox_failed_def open_mismatch_count_def outbox_backlog_def
  by (auto intro!: adds_intros adds_upd simp: upd_outbox_def split: option.split)

lemma quiet_handlers [adds_intros]: "adds W Q (handle_event sv ev src)"
  unfolding handle_event_def handle_balance_def handle_order_event_def apply_event_def
  by (auto intro!: adds_intros split: option.split exn.split)

lemma quiet_quietly [adds_intros]: "adds W Q m \<Longrightarrow> adds W Q (quietly m)"
  unfolding quietly_def by (intro adds_intros)

lemma safe_quietly [keeps_intros]: "safe m \<Longrightarrow> safe (quietly m)"
  unfolding quietly_def by (intro keeps_intros)

lemma quietly_returns: "fst (quietly m s) = Inr ()"
  by (cases "m s"; cases "fst (m s)") (auto simp: quietly_def tryE_def thenE_def bindE_apply)

lemma quiet_health: "adds W Q (health_snapshot sv name)"
  unfolding health_snapshot_def Let_def by (intro adds_intros)

lemma safe_health: "safe (health_snapshot sv name)"
  unfolding health_snapshot_def non_terminal_def Let_def by (intro keeps_intros)

text \<open>Calls to the network compose; a flush through a network advances the ledger.\<close>

lemma world_same_times: "\<exists>t\<ge>clk w. \<exists>x. w = w\<lparr>clk := t, ext := x\<rparr>"
  by (rule exI [of _ "clk w"], rule conjI, simp, rule exI [of _ "ext w"]) simp

lemma network_intros:
  "network (ret a)" "network (raise e)" "network (liftE r)" "network m \<Longrightarrow> (\<And>a. network (f a)) \<Longrightarrow> network (bindE m f)"
proof -
  show "network (ret a)" "network (raise e)" "network (liftE r)" by (simp_all add: network_def world_same_times)
  show "network (bindE m f)" if m: "network m" and f: "\<And>a. network (f a)"
    unfolding network_def
  proof
    fix w
    obtain r w1 where r: "m w = (r, w1)" by (cases "m w")
    obtain t x where t: "clk w \<le> t" "w1 = w\<lparr>clk := t, ext := x\<rparr>" using m r by (metis network_def snd_conv)
    show "\<exists>t x. clk w \<le> t \<and> snd (bindE m f w) = w\<lparr>clk := t, ext := x\<rparr>"
    proof (cases r)
      case (Inl e)
      then show ?thesis using r t by (auto simp: bindE_apply)
    next
      case (Inr a)
      obtain u y where u: "clk w1 \<le> u" "snd (f a w1) = w1\<lparr>clk := u, ext := y\<rparr>" using f [of a] unfolding network_def by blast
      then have "clk w \<le> u" "snd (bindE m f w) = w\<lparr>clk := u, ext := y\<rparr>" using r t Inr by (auto simp: bindE_apply)
      then show ?thesis by blast
    qed
  qed
qed

lemma network_outside: "network (outside f)"
  unfolding network_def
proof
  fix w :: "'a world"
  show "\<exists>t x. clk w \<le> t \<and> snd (outside f w) = w\<lparr>clk := t, ext := x\<rparr>"
    by (rule exI [of _ "clk w + int (snd (snd (f (ext w))))"], rule exI [of _ "fst (snd (f (ext w)))"]) (simp add: outside_def case_prod_beta)
qed

definition ticks :: "'x world \<Rightarrow> 'x world \<Rightarrow> bool" where
  "ticks w w' \<longleftrightarrow> depth w' = depth w \<and> clk w \<le> clk w'"

interpretation tick: step_preorder ticks
  by unfold_locales (auto simp: ticks_def)

lemma safe_ticks: "safe m \<Longrightarrow> keeps ticks m"
  by (erule keeps_mono) (simp add: advances_def ticks_def)

lemma ticks_flush:
  assumes "dispatcher_ok dp"
  shows "keeps ticks (flush dp limit)"
proof -
  note intros = tick.keeps_bindE tick.keeps_thenE tick.keeps_tryE tick.keeps_if tick.keeps_ret
  have d: "keeps ticks (deliver dp row)" for row
    by (rule safe_ticks [OF network_safe [OF deliver_network [OF assms]]])
  have m: "keeps ticks (mark_outbox_sent i)" "keeps ticks (mark_outbox_failed i err t dead)" for i err t dead
    by (auto simp: keeps_def ticks_def mark_outbox_sent_def mark_outbox_failed_def transaction_def Let_def)
  have h: "keeps ticks (handle_failure dp row e)" for row e
    unfolding handle_failure_def Let_def
    by (auto intro!: intros m safe_ticks [OF safe_now] split: exn.split)
  have r: "keeps ticks (flush_row dp row)" for row
    unfolding flush_row_def by (intro intros d h m safe_ticks [OF safe_lease(1)])
  have "keeps ticks (flush_rows dp rows n)" for rows n
    by (induction rows arbitrary: n) (auto intro!: intros r split: prod.split)
  then show ?thesis unfolding flush_def by (intro intros safe_ticks [OF safe_lease(1)] safe_ticks [OF safe_reads(14)])
qed

lemma safe_flush:
  assumes "dispatcher_ok dp"
  shows "safe (flush dp limit)"
proof (rule keepsI)
  fix w
  obtain x w' where f: "flush dp limit w = (x, w')" by (cases "flush dp limit w")
  have "ticks w w'" using keepsD [OF ticks_flush [OF assms] f] .
  then show "advances w (snd (flush dp limit w))"
    using flush_spec [OF assms _ f] f by (cases "ledger_inv (db w)") (auto simp: advances_def ticks_def)
qed

locale worker_contract = order_execution "sv_ex (we_sv env)" for env :: "'x worker_env" +
  assumes client_quiet: "adds False (\<lambda>_. False) (get_control (we_client env))" "adds False (\<lambda>_. False) (heartbeat (we_client env) payload)"
    and post_quiet: "adds False (\<lambda>_. False) (dp_post (we_dispatcher env) kind payload key)"
    and send_quiet: "dp_send (we_dispatcher env) = Some tell \<Longrightarrow> adds False (\<lambda>_. False) (tell text)"
    and client_safe: "safe (get_control (we_client env))" "safe (heartbeat (we_client env) payload)"
    and dispatcher: "dispatcher_ok (we_dispatcher env)"
begin

lemma quiet_flush: "adds W Q (worker_flush env)"
proof -
  have d: "adds W Q (deliver (we_dispatcher env) row)" for row
    unfolding deliver_def by (auto intro!: adds_intros adds_none [OF post_quiet] adds_none [OF send_quiet] split: option.split)
  have h: "adds W Q (handle_failure (we_dispatcher env) row e)" for row e
    unfolding handle_failure_def Let_def by (auto intro!: adds_intros split: exn.split)
  have r: "adds W Q (flush_row (we_dispatcher env) row)" for row
    unfolding flush_row_def by (intro adds_intros d h)
  have "adds W Q (flush_rows (we_dispatcher env) rows n)" for rows n
    by (induction rows arbitrary: n) (auto intro!: adds_intros r split: prod.split)
  then show ?thesis unfolding worker_flush_def flush_def by (intro adds_intros)
qed

lemma quiet_heartbeat: "adds W Q (worker_heartbeat env name)"
  unfolding worker_heartbeat_def by (intro adds_intros quiet_health adds_none [OF client_quiet(2)])

lemma safe_worker_flush: "safe (worker_flush env)"
  unfolding worker_flush_def by (intro keeps_intros safe_flush dispatcher)

lemma safe_heartbeat: "safe (worker_heartbeat env name)"
  unfolding worker_heartbeat_def by (intro keeps_intros safe_health client_safe)

end

text \<open>The worker the composition root builds satisfies it, with either executor.\<close>

lemma client_laws: "safe (send (engine_client cfg su) me path p rid)" "adds W Q (send (engine_client cfg su) me path p rid)"
  unfolding send_def engine_client_def Let_def
  by (auto intro!: keeps_intros split: sum.split option.split) (auto intro!: adds_intros split: sum.split option.split)

lemma telegram_laws: "safe (telegram_send t c (\<lambda>url data. remote_raising (tg url data)) x)"
  "adds W Q (telegram_send t c (\<lambda>url data. remote_raising (tg url data)) x)"
  unfolding telegram_send_def by (intro keeps_intros) (intro adds_intros)

lemma worker_parts: "sv_ex (we_sv (assemble_worker cfg su tg ow ex)) = ex" "we_client (assemble_worker cfg su tg ow ex) = engine_client cfg su"
  "dp_post (we_dispatcher (assemble_worker cfg su tg ow ex)) = (\<lambda>kind payload key. thenE (post (engine_client cfg su) kind payload key) (ret ()))"
  "dp_send (we_dispatcher (assemble_worker cfg su tg ow ex))
     = Some (telegram_send (TELEGRAM_BOT_TOKEN cfg) (TELEGRAM_CHAT_ID cfg) (\<lambda>url data. remote_raising (tg url data)))"
  by (simp_all add: assemble_worker_def)

lemma worker_contract_of:
  assumes "order_execution ex"
  shows "worker_contract (assemble_worker cfg su tg ow ex)"
proof (intro worker_contract.intro worker_contract_axioms.intro)
  have p: "adds W Q (thenE (post (engine_client cfg su) kind payload key) (ret ()))" for W Q kind payload key
    unfolding post_def by (intro adds_intros client_laws)
  show "adds False (\<lambda>_. False) (dp_post (we_dispatcher (assemble_worker cfg su tg ow ex)) kind payload key)" for kind payload key
    unfolding worker_parts by (rule p)
  have "network (send (engine_client cfg su) me path q rid)" for me path q rid
    unfolding send_def engine_client_def remote_def Let_def
    by (auto intro!: network_intros network_outside split: sum.split option.split)
  moreover have "network (telegram_send t c (\<lambda>url data. remote_raising (tg url data)) x)" for t c x
    unfolding telegram_send_def remote_raising_def remote_def whenE_def by (auto intro!: network_intros network_outside)
  ultimately show "dispatcher_ok (we_dispatcher (assemble_worker cfg su tg ow ex))"
    unfolding dispatcher_ok_def worker_parts thenE_def post_def by (auto intro!: network_intros)
qed (use assms in \<open>auto simp: worker_parts control_laws heartbeat_def client_laws telegram_laws\<close>)

interpretation live_worker: worker_contract "assemble_worker cfg su tg ow (binance_executor bx)"
  by (rule worker_contract_of) (rule binance_orders.order_execution_axioms)

interpretation paper_worker: worker_contract "assemble_worker cfg su tg ow (paper_executor cfg)"
  by (rule worker_contract_of) (rule paper_orders.order_execution_axioms)

end
