(* ===== verification/Daily_Halt.thy ===== *)
theory Daily_Halt
  imports Worker
begin

text \<open>
  The daily halt over a whole day. The risk row of \<^verbatim>\<open>engine/risk/manager.py\<close> lives in the key-value table that the
  trading cycle, the reconciliation, the stream handler and the PAPER exchange write too. \<open>spares m\<close> says that a call
  leaves every risk row alone; it is closed under composition, and every operation but the daily check has it (locale
  \<open>risk_execution\<close> for the calls to an exchange). \<open>latches m\<close> says that a call that stays within the day keeps
  a halt and, while halted, records no entry; the daily check and the trading cycle have it.
\<close>

named_theorems risk_intros \<open>calls that leave the risk row alone\<close>

section \<open>Calls that leave the risk row alone\<close>

definition same_risk :: "ledger \<Rightarrow> ledger \<Rightarrow> bool" where
  "same_risk d d' \<longleftrightarrow> (\<forall>b. map_of (d_kv d') (''risk:'' @ b) = map_of (d_kv d) (''risk:'' @ b))"

interpretation risk_row_kept: ledger_preorder same_risk
  by unfold_locales (auto simp: same_risk_def)

abbreviation spares :: "('x world, 'a) eff \<Rightarrow> bool" where
  "spares \<equiv> keeps (\<lambda>w w'. same_risk (db w) (db w'))"

lemmas [risk_intros] = risk_row_kept.world.keeps_ret risk_row_kept.world.keeps_raise risk_row_kept.world.keeps_getE
  risk_row_kept.world.keeps_liftE risk_row_kept.world.keeps_objE risk_row_kept.world.keeps_bindE risk_row_kept.world.keeps_thenE
  risk_row_kept.world.keeps_tryE risk_row_kept.world.keeps_whenE risk_row_kept.world.keeps_if risk_row_kept.world.keeps_option
  risk_row_kept.world.keeps_foldE risk_row_kept.world.keeps_forE risk_row_kept.keeps_transaction risk_row_kept.keeps_db_get
  risk_row_kept.keeps_now

lemma spares_upd: "(\<And>d. d_kv (f d) = d_kv d) \<Longrightarrow> spares (db_upd f)"
  by (rule risk_row_kept.keeps_db_upd) (simp add: same_risk_def)

lemma spares_kv_set: "(\<And>b. k \<noteq> ''risk:'' @ b) \<Longrightarrow> spares (kv_set k v)"
  unfolding kv_set_def
  by (intro risk_intros risk_row_kept.keeps_db_upd) (auto simp: same_risk_def update_conv')

lemma spares_reads [risk_intros]:
  "spares (get_order c)" "spares (get_order_by_intent i)" "spares (intent_signal_id i)" "spares (get_order_by_exchange_id e x)"
  "spares (non_terminal_orders b s)" "spares (list_orders b s n)" "spares (fill_exists k)" "spares (list_fills b s')"
  "spares (fills_for_order j)" "spares (get_position b s')" "spares (list_positions b)" "spares (get_recon_state b)" "spares (kv_get k)"
  unfolding get_order_def get_order_by_intent_def intent_signal_id_def get_order_by_exchange_id_def
    non_terminal_orders_def list_orders_def fill_exists_def list_fills_def fills_for_order_def get_position_def
    list_positions_def get_recon_state_def kv_get_def
  by (intro risk_intros)+

lemma spares_writes [risk_intros]:
  "spares (save_order od)" "spares (insert_fill f)" "spares (save_position p)" "spares (mark_event_processed key src ty)"
  "spares (record_recon_run key b reason status started summary mms)" "spares (enqueue kind key' payload)"
  "spares (record_news sha score items t)" "spares (save_recon_state st)" "spares (insert_intent_and_order it od)"
  unfolding save_order_def insert_fill_def save_position_def mark_event_processed_def record_recon_run_def
    enqueue_def record_news_def save_recon_state_def insert_intent_and_order_def Let_def
  by (intro risk_intros spares_upd; simp)+

lemma spares_lease [risk_intros]:
  "spares (acquire_lease n ow ttl)" "spares (release_lease n ow)" "spares (pending_outbox m)" "spares (mark_outbox_sent i)"
  "spares (mark_outbox_failed i err t dead)"
  unfolding acquire_lease_def release_lease_def pending_outbox_def mark_outbox_sent_def mark_outbox_failed_def
  by (auto intro!: risk_intros spares_upd simp: upd_outbox_def split: option.split)

lemma spares_outside [risk_intros]: "spares (outside f)"
  by (rule keepsI) (simp add: same_risk_def)

section \<open>The services\<close>

locale risk_execution =
  fixes ex :: "'x executor"
  assumes ex_spares: "spares (ex_rules ex symbol)" "spares (ex_submit ex od rules)" "spares (ex_query ex od)"
    "spares (ex_query_by_id ex symbol x)" "spares (ex_fills ex od)" "spares (ex_cancel ex od)"
    "spares (ex_open_orders ex symbol)" "spares (ex_recent_fills ex symbol since)" "spares (ex_balances ex)"

lemma spares_orders [risk_intros]:
  "spares (enqueue_event b ty m sev p key alert)" "spares (enqueue_order od)" "spares (save_and_enqueue od)"
  "spares (record_conflict sv c st m src)" "spares (find_order sv c' x)"
  unfolding enqueue_event_def enqueue_order_def save_and_enqueue_def record_conflict_def find_order_def Let_def
  by (intro risk_intros)+

lemma spares_report_transaction [risk_intros]: "spares (report_transaction sv r)"
  unfolding report_transaction_def by (auto intro!: risk_intros split: option.split prod.split sum.split exn.split)

lemma spares_service_apply_report [risk_intros]: "spares (service_apply_report sv r src)"
  unfolding service_apply_report_def by (auto intro!: risk_intros split: option.split prod.split)

lemma spares_positions [risk_intros]:
  "spares (pos_get cfg s)" "spares (pos_apply_fill cfg f)" "spares (pos_rebuild cfg s persist)" "spares (pos_set_stop cfg s st)"
  "spares (pos_mark cfg s pr)" "spares (open_position_count cfg rl)" "spares (paper_cash cfg s)" "spares (equity cfg s c pr)"
  unfolding pos_get_def pos_apply_fill_def pos_rebuild_def pos_set_stop_def pos_mark_def open_position_count_def paper_cash_def
    equity_def Let_def
  by (auto intro!: risk_intros split: prod.split option.split)

lemma spares_ingest_fill [risk_intros]: "spares (ingest_fill sv xf src)"
  unfolding ingest_fill_def ingest_body_def announce_fill_def Let_def by (intro risk_intros)

lemma spares_update_order [risk_intros]: "(\<And>od. spares (after od)) \<Longrightarrow> spares (update_order c change after)"
  unfolding update_order_def by (auto intro!: risk_intros split: option.split prod.split)

lemma spares_reject_order [risk_intros]: "spares (reject_order c reason)"
  unfolding reject_order_def by (intro risk_intros)

lemma spares_persist_submission [risk_intros]: "spares (persist_submission sv it rules)"
  unfolding persist_submission_def by (auto intro!: risk_intros split: prod.split)

lemma spares_handle_event [risk_intros]: "spares (handle_event sv ev src)"
  unfolding handle_event_def handle_balance_def handle_order_event_def apply_event_def balances_key_def
  by (auto intro!: risk_intros spares_kv_set split: option.split exn.split)

lemma spares_flush:
  assumes "\<And>row. spares (deliver dp row)"
  shows "spares (flush dp limit)"
proof -
  have h: "spares (handle_failure dp row e)" for row e
    unfolding handle_failure_def Let_def by (auto intro!: risk_intros split: exn.split)
  have r: "spares (flush_row dp row)" for row
    unfolding flush_row_def by (intro risk_intros assms h)
  have "spares (flush_rows dp rows n)" for rows n
    by (induction rows arbitrary: n) (auto intro!: risk_intros r split: prod.split)
  then show ?thesis unfolding flush_def by (intro risk_intros)
qed

context risk_execution
begin

lemma ex_calls:
  assumes "sv_ex sv = ex"
  shows "spares (ex_rules (sv_ex sv) symbol)" "spares (ex_submit (sv_ex sv) od rules)" "spares (ex_query (sv_ex sv) od)"
    "spares (ex_query_by_id (sv_ex sv) symbol x)" "spares (ex_fills (sv_ex sv) od)" "spares (ex_cancel (sv_ex sv) od)"
    "spares (ex_open_orders (sv_ex sv) symbol)" "spares (ex_recent_fills (sv_ex sv) symbol since)" "spares (ex_balances (sv_ex sv))"
  unfolding assms by (rule ex_spares)+

lemma spares_ingest_order_fills: "sv_ex sv = ex \<Longrightarrow> spares (ingest_order_fills sv od)"
  unfolding ingest_order_fills_def by (auto intro!: risk_intros ex_calls split: option.split)

lemma spares_refresh: "sv_ex sv = ex \<Longrightarrow> spares (refresh sv od)"
  unfolding refresh_def by (auto intro!: risk_intros ex_calls spares_ingest_order_fills split: option.split)

lemma spares_resolve_ambiguous: "sv_ex sv = ex \<Longrightarrow> spares (resolve_ambiguous sv od)"
  unfolding resolve_ambiguous_def Let_def
  by (auto intro!: risk_intros ex_calls spares_ingest_order_fills split: option.split)

lemma spares_settle_outcome: "sv_ex sv = ex \<Longrightarrow> spares (settle_outcome sv od oc)"
  unfolding settle_outcome_def
  by (auto intro!: risk_intros spares_resolve_ambiguous split: option.split submit_outcome_kind.split)

lemma spares_submit_intent: "sv_ex sv = ex \<Longrightarrow> spares (submit_intent sv it rules)"
  unfolding submit_intent_def
  by (auto intro!: risk_intros ex_calls spares_settle_outcome split: option.split sum.split)

lemma spares_cancel_order: "sv_ex sv = ex \<Longrightarrow> spares (cancel_order sv od)"
  unfolding cancel_order_def by (auto intro!: risk_intros ex_calls spares_refresh)

end

text \<open>Both exchanges: the PAPER one writes its own keys, the real one nothing.\<close>

lemma spares_paper_balances [risk_intros]: "spares (paper_balances cfg s)"
  unfolding paper_balances_def by (auto intro!: risk_intros split: prod.split)

interpretation paper_risk: risk_execution "paper_executor cfg"
proof
  show "spares (ex_submit (paper_executor cfg) od rules)" for od rules
    by (auto simp: paper_executor_def paper_submit_def paper_key_def Let_def intro!: risk_intros spares_kv_set split: option.split)
qed (auto simp: paper_executor_def paper_query_def paper_lookup_def paper_query_fills_def paper_symbol_rules_def
    paper_cancel_def paper_balance_snapshot_def intro!: risk_intros split: option.split prod.split)

lemma spares_rest [risk_intros]:
  "spares (rest_call fn params)" "spares m \<Longrightarrow> spares (must m)" "spares (rest_new_order api params)" "spares (rest_get_order api s c x)"
  "spares (rest_cancel_order api s c')" "spares (rest_open_orders api s)" "spares (rest_my_trades api s oid t f n)" "spares (rest_account api)"
  "spares (rest_exchange_info api s)" "spares (rest_server_time api)"
  unfolding rest_new_order_def rest_get_order_def rest_cancel_order_def rest_open_orders_def rest_my_trades_def rest_account_def
    rest_exchange_info_def rest_server_time_def must_def rest_call_def
  by (auto intro!: risk_intros split: sum.split)

lemma spares_found_or_none [risk_intros]: "spares m \<Longrightarrow> spares (found_or_none bx m)"
  unfolding found_or_none_def by (auto intro!: risk_intros split: sum.split rest_error.split)

lemma spares_trade_rows [risk_intros]: "spares (trade_rows bx s oid t f n)"
  unfolding trade_rows_def by (intro risk_intros)

lemma spares_more_pages [risk_intros]: "spares (more_pages bx esym limit n rows out)"
  by (induction n arbitrary: rows out) (subst more_pages.simps; auto intro!: risk_intros)+

interpretation binance_risk: risk_execution "binance_executor bx"
  by unfold_locales
    (auto simp: binance_executor_def bx_rules_def cache_rules_def bx_submit_def bx_query_def bx_query_by_id_def bx_fills_def bx_cancel_def
      bx_open_orders_def bx_recent_fills_def bx_balances_def Let_def intro!: risk_intros split: option.split sum.split rest_error.split)

section \<open>Reconciliation\<close>

abbreviation rx_spares :: "('x recon_ctx, 'a) eff \<Rightarrow> bool" where
  "rx_spares \<equiv> keeps (\<lambda>c c'. same_risk (db (rx_world c)) (db (rx_world c')))"

interpretation run_risk: step_preorder "\<lambda>c c' :: 'x recon_ctx. same_risk (db (rx_world c)) (db (rx_world c'))"
  by unfold_locales (auto simp: same_risk_def)

lemmas [risk_intros] = run_risk.keeps_ret run_risk.keeps_raise run_risk.keeps_bindE run_risk.keeps_thenE
  run_risk.keeps_tryE run_risk.keeps_whenE run_risk.keeps_if run_risk.keeps_foldE run_risk.keeps_forE

lemma rx_spares_call [risk_intros]: "spares m \<Longrightarrow> rx_spares (call m)"
  by (rule keepsI) (auto simp: call_def split: prod.split dest: keepsD)

lemma rx_spares_locals [risk_intros]:
  "rx_spares (found m)" "rx_spares (summarise k v)" "rx_spares (updE (\<lambda>c :: 'x recon_ctx. c\<lparr>rx_pending := f c\<rparr>))"
  by (auto simp: keeps_def found_def summarise_def same_risk_def)

lemma rx_spares_catch [risk_intros]: "rx_spares m \<Longrightarrow> rx_spares (catch_conflict c m)"
  unfolding catch_conflict_def by (auto intro!: risk_intros split: exn.split)

lemma spares_set_state [risk_intros]: "spares (set_state cfg status reason success f)"
  unfolding set_state_def Let_def by (intro risk_intros)

lemma spares_finish [risk_intros]: "spares (finish_run cfg res reason t)" "spares (failed_run cfg res reason t)"
  unfolding finish_run_def failed_run_def persist_run_def by (intro risk_intros)+

context risk_execution
begin

lemma spares_check_orders:
  assumes "sv_ex sv = ex"
  shows "rx_spares (check_local sv od)" "rx_spares (verify_terminal sv od)" "rx_spares (check_exchange_open sv rep)"
    "rx_spares (check_explained sv tol od)"
  using assms unfolding check_local_def verify_terminal_def check_exchange_open_def check_explained_def Let_def
  by (auto intro!: risk_intros ex_calls spares_refresh spares_resolve_ambiguous spares_ingest_order_fills
      simp: fill_quantity_def split: option.split)

lemma spares_recover_fill: "sv_ex sv = ex \<Longrightarrow> rx_spares (recover_fill sv xf acc)"
  unfolding recover_fill_def Let_def by (auto intro!: risk_intros ex_calls split: option.split)

lemma spares_rebuild_position: "sv_ex sv = ex \<Longrightarrow> rx_spares (rebuild_position sv rules tol key)"
  unfolding rebuild_position_def Let_def balances_key_def
  by (auto intro!: risk_intros ex_calls spares_kv_set split: prod.split)

lemma spares_recon_body: "sv_ex sv = ex \<Longrightarrow> rx_spares (recon_body sv since key)"
  unfolding recon_body_def recon_orders_def recon_fills_def list_own_def check_protective_stop_def non_terminal_def Let_def
  by (auto intro!: risk_intros ex_calls spares_check_orders spares_recover_fill spares_rebuild_position split: prod.split option.split)

lemma spares_recon_run:
  assumes "sv_ex sv = ex"
  shows "spares (recon_run sv nonce reason ack)"
proof -
  let ?c = "\<lambda>key w. \<lparr>rx_world = w, rx_mismatches = [], rx_summary = [(''reason'', JStr reason)], rx_pending = 0\<rparr>"
  have "spares (\<lambda>w. case recon_body sv since key (?c key w) of
      (Inl e, c) \<Rightarrow> failed_run cfg (res1 e c) reason t (rx_world c)
    | (Inr _, c) \<Rightarrow> (case verdict previous ack (rx_mismatches c) (rx_pending c) of (status, why) \<Rightarrow>
        finish_run cfg (res2 c status why) reason t (rx_world c)))" for since key cfg res1 res2 t previous
  proof (rule keepsI)
    fix w :: "'x world"
    obtain r c where b: "recon_body sv since key (?c key w) = (r, c)" by (cases "recon_body sv since key (?c key w)")
    have c: "same_risk (db w) (db (rx_world c))" using keepsD [OF spares_recon_body [OF assms] b] by simp
    show "same_risk (db w) (db (snd (case recon_body sv since key (?c key w) of
      (Inl e, c) \<Rightarrow> failed_run cfg (res1 e c) reason t (rx_world c)
    | (Inr _, c) \<Rightarrow> (case verdict previous ack (rx_mismatches c) (rx_pending c) of (status, why) \<Rightarrow>
        finish_run cfg (res2 c status why) reason t (rx_world c)))))"
      using b risk_row_kept.Q_trans [OF c keepsS [OF spares_finish(1)]] risk_row_kept.Q_trans [OF c keepsS [OF spares_finish(2)]]
      by (cases r) (auto split: prod.split)
  qed
  then show ?thesis unfolding recon_run_def Let_def by (intro risk_intros)
qed

end

section \<open>What a halted day means\<close>

definition DAY :: int where "DAY = 86400000000"

text \<open>The row says halted on the date of the clock, with the amounts the next check reads.\<close>

definition halted_today :: "config \<Rightarrow> 'x world \<Rightarrow> bool" where
  "halted_today cfg w \<longleftrightarrow> (\<exists>v start. map_of (d_kv (db w)) (risk_key cfg) = Some (JObj v)
     \<and> map_of v ''date'' = Some (JStr (iso_date (clk w))) \<and> jdec ''day_start_equity'' v = Inr start
     \<and> map_of v ''halted'' = Some (JBool True))"

lemma same_date: "t div DAY = u div DAY \<Longrightarrow> iso_date t = iso_date u"
  by (simp add: iso_date_def DAY_def)

lemma halted_row: "halted_today cfg w \<Longrightarrow> \<exists>v start. risk_row cfg w = (Inr v, w) \<and> map_of v ''date'' = Some (JStr (iso_date (clk w)))
    \<and> jdec ''day_start_equity'' v = Inr start \<and> map_of v ''halted'' = Some (JBool True)"
proof -
  assume "halted_today cfg w"
  then obtain v start where v: "map_of (d_kv (db w)) (risk_key cfg) = Some (JObj v)"
      "map_of v ''date'' = Some (JStr (iso_date (clk w)))" "jdec ''day_start_equity'' v = Inr start" "map_of v ''halted'' = Some (JBool True)"
    unfolding halted_today_def by blast
  then have "v \<noteq> []" by auto
  then show ?thesis using v by (auto simp: risk_row_def kv_get_def)
qed

lemma halted_answer: "halted_today cfg w \<Longrightarrow> is_daily_halted cfg w = (Inr True, w)"
  by (drule halted_row) (auto simp: is_daily_halted_def bindE_apply flag_def)

lemma halted_same: "halted_today cfg w \<Longrightarrow> same_risk (db w) (db w') \<Longrightarrow> clk w div DAY = clk w' div DAY \<Longrightarrow> halted_today cfg w'"
  unfolding halted_today_def same_risk_def risk_key_def by (simp add: same_date [of "clk w'" "clk w"])

text \<open>A check of the day leaves the row halted exactly when it answers so.\<close>

lemma check_halts:
  assumes "update_daily cfg eq (iso_date (clk w)) w = (Inr True, w')"
  shows "halted_today cfg w' \<and> clk w' = clk w"
proof -
  let ?today = "iso_date (clk w)"
  obtain st v where st: "(if map_of st ''date'' = Some (JStr ?today) then st else new_day ?today eq) = v" "risk_row cfg w = (Inr st, w)"
    using assms unfolding update_daily_def risk_row_def kv_get_def by (auto elim!: bindE_InrE split: option.splits if_splits)
  obtain start where start: "jdec ''day_start_equity'' v = Inr start"
    using assms st unfolding update_daily_def by (auto simp: bindE_apply Let_def split: sum.splits)
  let ?v = "AList.update ''halted'' (JBool True) v"
  have row: "map_of (d_kv (db w')) (risk_key cfg) = Some (JObj ?v)" and clk: "clk w' = clk w"
    using assms st start unfolding update_daily_def
    by (auto simp: bindE_apply Let_def thenE_def kv_set_def transaction_def update_conv' split: prod.splits)
  have "map_of v ''date'' = Some (JStr ?today)" using st(1) by (auto simp: new_day_def split: if_splits)
  moreover have "jdec ''day_start_equity'' ?v = Inr start" using start by (simp add: jdec_def jget_def update_conv')
  ultimately show ?thesis using row clk by (auto simp: halted_today_def update_conv')
qed

lemma halted_check:
  assumes "halted_today cfg w"
  shows "fst (update_daily cfg eq (iso_date (clk w)) w) = Inr True"
proof -
  from halted_row [OF assms] obtain v start where v: "risk_row cfg w = (Inr v, w)" "map_of v ''date'' = Some (JStr (iso_date (clk w)))"
      "jdec ''day_start_equity'' v = Inr start" "map_of v ''halted'' = Some (JBool True)" by blast
  show ?thesis
    by (auto simp: update_daily_def bindE_apply Let_def v flag_def thenE_def kv_set_def transaction_def halted_stays
        split: prod.split dest: arg_cong [of _ _ fst])
qed

section \<open>Calls that keep a halted day\<close>

definition calm :: "config \<Rightarrow> 'x world \<Rightarrow> 'x world \<Rightarrow> bool" where
  "calm cfg w w' \<longleftrightarrow> clk w \<le> clk w' \<and> (clk w div DAY = clk w' div DAY \<longrightarrow> halted_today cfg w \<longrightarrow> halted_today cfg w'
     \<and> only_new True (\<lambda>it. oi_purpose it \<noteq> ENTRY) (db w) (db w'))"

lemma day_between: "(a :: int) \<le> b \<Longrightarrow> b \<le> c \<Longrightarrow> a div DAY = c div DAY \<Longrightarrow> a div DAY = b div DAY \<and> b div DAY = c div DAY"
  using zdiv_mono1 [of a b DAY] zdiv_mono1 [of b c DAY] by (simp add: DAY_def)

interpretation calm: step_preorder "calm cfg" for cfg
proof
  show "calm cfg w w" for w :: "'a world" by (simp add: calm_def new_intents.Q_refl)
  show "calm cfg w w''" if "calm cfg w w'" "calm cfg w' w''" for w w' w'' :: "'a world"
    using that day_between [of "clk w" "clk w'" "clk w''"] unfolding calm_def by (auto intro: new_intents.Q_trans)
qed

abbreviation latches :: "config \<Rightarrow> ('x world, 'a) eff \<Rightarrow> bool" where
  "latches cfg \<equiv> keeps (calm cfg)"

lemma calm_if_spared:
  "advances w w' \<Longrightarrow> only_new True (\<lambda>it. oi_purpose it \<noteq> ENTRY) (db w) (db w') \<Longrightarrow> same_risk (db w) (db w') \<Longrightarrow> calm cfg w w'"
  by (auto simp: calm_def advances_def intro: halted_same)

lemma latchesI: "safe m \<Longrightarrow> adds True (\<lambda>it. oi_purpose it \<noteq> ENTRY) m \<Longrightarrow> spares m \<Longrightarrow> latches cfg m"
  by (rule keepsI) (intro calm_if_spared keepsS [of advances] keepsS [of "\<lambda>w w'. only_new True _ (db w) (db w')"]
    keepsS [of "\<lambda>w w'. same_risk (db w) (db w')"])

text \<open>A call that records only entries and is made only when the day is not halted.\<close>

lemma latches_guarded:
  assumes "safe m" "\<And>w. halted_today cfg w \<Longrightarrow> calm cfg w (snd (m w))"
  shows "latches cfg m"
proof (rule keepsI)
  fix w
  have "clk w \<le> clk (snd (m w))" using keepsS [OF assms(1), of w] by (simp add: advances_def)
  then show "calm cfg w (snd (m w))" using assms(2) [of w] by (cases "halted_today cfg w") (simp_all add: calm_def)
qed

lemma latches_check: "latches cfg (bindE now (\<lambda>t. update_daily cfg eq (iso_date t)))"
proof (rule latches_guarded)
  show "safe (bindE now (\<lambda>t. update_daily cfg eq (iso_date t)))" by (intro keeps_intros)
  fix w :: "'a world"
  assume h: "halted_today cfg w"
  obtain r w' where r: "update_daily cfg eq (iso_date (clk w)) w = (r, w')" by (cases "update_daily cfg eq (iso_date (clk w)) w")
  then have "halted_today cfg w'" using check_halts [of cfg eq w w'] halted_check [OF h, of eq] by simp
  moreover have "advances w w'" using keepsD [OF safe_risk(3) r] .
  moreover have "only_new True (\<lambda>it. oi_purpose it \<noteq> ENTRY) (db w) (db w')" using keepsD [OF adds_risk(3) r] .
  ultimately show "calm cfg w (snd (bindE now (\<lambda>t. update_daily cfg eq (iso_date t)) w))" by (simp add: r calm_def advances_def)
qed

lemma spares_risk [risk_intros]: "spares (risk_row cfg)" "spares (is_daily_halted cfg)" "spares (entry_checks cfg n)"
  unfolding risk_row_def is_daily_halted_def entry_checks_def by (auto intro!: risk_intros split: option.split)

lemma halted_refuses: "halted_today cfg w \<Longrightarrow> \<exists>why. entry_checks cfg n w = (Inr why, w) \<and> why \<noteq> []"
  by (auto simp: entry_checks_def bindE_apply halted_answer rule_not_daily_halted_def)

section \<open>The trading cycle\<close>

lemma spares_cycle_parts [risk_intros]:
  "spares (next_intent_id base purpose)" "spares (non_terminal sv s)" "spares (open_orders_of env)" "spares (announce_signal env snap sg)"
proof -
  have "spares (try_attempts base ks)" for ks
    by (induction ks) (simp_all only: try_attempts.simps, (intro risk_intros)+)
  then show "spares (next_intent_id base purpose)" unfolding next_intent_id_def .
qed (unfold non_terminal_def open_orders_of_def announce_signal_def, (intro risk_intros)+)

locale halting_cycle = quiet_cycle env + risk: risk_execution "sv_ex (ce_sv env)" for env :: "'x cycle_env" +
  assumes control_spares: "spares (ce_control env)"
    and market_spares: "spares (ce_market env s)"
begin

lemmas risk_calls = risk.ex_calls [OF refl] risk.spares_refresh [OF refl] risk.spares_resolve_ambiguous [OF refl]
  risk.spares_submit_intent [OF refl] risk.spares_cancel_order [OF refl] risk.spares_recon_run [OF refl]

lemma spares_submit: "spares (submit env purpose side qty rules ref_price base signal_id ty limit stop)"
  unfolding submit_def by (intro risk_intros risk_calls)

lemma spares_cancel_stops: "spares (cancel_stops (ce_sv env) ods)"
  by (induction ods) (simp_all only: cancel_stops.simps, (intro risk_intros risk_calls | assumption)+)

lemma spares_manage_position: "spares (manage_position env control snap sg rules p res)"
  unfolding manage_position_def exit_position_def ensure_protective_stop_def Let_def
  by (intro risk_intros spares_submit spares_cancel_stops)

lemma latches_consider_entry: "latches (ce_cfg env) (consider_entry env control snap sg rules st entries_ok account res)"
proof (rule latches_guarded)
  show "safe (consider_entry env control snap sg rules st entries_ok account res)"
    unfolding consider_entry_def enter_def Let_def case_prod_beta
    by (intro keeps_intros safe_submit safe_protective_stop)
  fix w :: "'x world"
  assume h: "halted_today (ce_cfg env) w"
  obtain ok free eq halted where a: "account = (ok, free, eq, halted)" by (cases account)
  let ?count = "open_position_count (ce_cfg env) [ce_symbol env \<mapsto> rules]"
  let ?G = "\<lambda>n checks. let reasons = block_reasons env control st entries_ok ok @ checks in
         if reasons \<noteq> [] then ret (res\<lparr>cy_blocked := reasons,
              cy_action := (if halted \<and> length reasons = 1 then ''HALTED'' else ''BLOCKED: '' @ join ''; '' reasons)\<rparr>)
         else case eq of None \<Rightarrow> raise type_error
         | Some eq \<Rightarrow>
           (case size_entry (ce_cfg env) eq (ms_signal_price snap) rules free of (qty, why) \<Rightarrow>
              if qty \<le> 0 then ret (res\<lparr>cy_action := ''BLOCKED: '' @ error_text why\<rparr>)
              else enter env snap sg rules qty res)"
  have "calm (ce_cfg env) w (snd (bindE ?count (\<lambda>n. bindE (entry_checks (ce_cfg env) (int n)) (?G n)) w))"
  proof (rule calm.bindE_at)
    show c: "calm (ce_cfg env) w (snd (?count w))"
      by (rule keepsS [OF latchesI]) (intro keeps_intros adds_intros risk_intros)+
    fix n v
    assume v: "?count w = (Inr n, v)"
    then have "v = w" by (simp add: open_position_count_def list_positions_def bindE_apply db_get_def)
    then show "calm (ce_cfg env) v (snd (bindE (entry_checks (ce_cfg env) (int n)) (?G n) v))"
      using halted_refuses [OF h, of "int n"] by (auto simp: bindE_apply calm.P_refl Let_def)
  qed
  then show "calm (ce_cfg env) w (snd (consider_entry env control snap sg rules st entries_ok account res w))"
    by (auto simp: consider_entry_def a calm.P_refl)
qed

lemma latches_decide: "latches (ce_cfg env) (decide env control snap sg rules st entries_ok account res)"
proof -
  have "latches (ce_cfg env) (pos_get (ce_cfg env) (ce_symbol env))" "latches (ce_cfg env) (pos_set_stop (ce_cfg env) (ce_symbol env) stop)" for stop
    by (rule latchesI; intro keeps_intros adds_intros risk_intros)+
  moreover have "safe (manage_position env control snap sg rules p res)" for p
    unfolding manage_position_def Let_def by (intro keeps_intros safe_exit_position safe_protective_stop)
  then have "latches (ce_cfg env) (manage_position env control snap sg rules p res)" for p
    by (rule latchesI) (auto intro: adds_manage_position spares_manage_position)
  ultimately show ?thesis unfolding decide_def
    by (intro calm.keeps_bindE calm.keeps_if calm.keeps_ret latches_consider_entry)
qed

lemma latches_read_account: "latches (ce_cfg env) (read_account env snap rules)"
proof -
  have check: "bindE now (\<lambda>t. bindE (update_daily cfg eq (iso_date t)) g) = bindE (bindE now (\<lambda>t. update_daily cfg eq (iso_date t))) g"
    for cfg eq g by (rule ext) (simp add: bindE_apply)
  have "latches (ce_cfg env) (ex_balances (sv_ex (ce_sv env)))" "latches (ce_cfg env) (equity (ce_cfg env) s c pr)"
      "latches (ce_cfg env) (is_daily_halted (ce_cfg env))" for s c pr
    by (rule latchesI; intro keeps_intros adds_intros risk_intros env_safe env_calls risk_calls)+
  then show ?thesis unfolding read_account_def check
    by (intro calm.keeps_tryE calm.keeps_bindE calm.keeps_ret latches_check)
qed

lemma latches_trade: "latches (ce_cfg env) (trade env control st entries_ok res)"
proof -
  have kv: "spares (kv_set (''health:'' @ k) v)" for k v by (rule spares_kv_set) simp
  have settle: "safe (settle_in_flight env)" "spares (settle_in_flight env)"
    unfolding settle_in_flight_def by (intro keeps_intros env_safe, intro risk_intros risk_calls)
  have parts: "latches (ce_cfg env) (ce_market env s)" "latches (ce_cfg env) (kv_set (''health:'' @ k) v)"
      "latches (ce_cfg env) (tryE (thenE (record_news sha score items t) (ret ())) (\<lambda>_. ret ()))"
      "latches (ce_cfg env) (ex_rules (sv_ex (ce_sv env)) s)" "latches (ce_cfg env) (pos_mark (ce_cfg env) s pr)"
      "latches (ce_cfg env) (liftE x)" "latches (ce_cfg env) (announce_signal env snap sg)" "latches (ce_cfg env) (settle_in_flight env)"
      "latches (ce_cfg env) now" for s k v sha score items t pr x snap sg
    by (rule latchesI; intro keeps_intros adds_intros risk_intros env_safe env_calls risk_calls adds_settle_in_flight settle
        market_spares kv)+
  show ?thesis unfolding trade_def Let_def
    by (intro calm.keeps_bindE calm.keeps_thenE calm.keeps_whenE calm.keeps_if calm.keeps_ret parts latches_read_account latches_decide)
qed

lemma latches_run_once: "latches (ce_cfg env) (run_once env)"
proof -
  have kv: "spares (kv_set (''health:'' @ k) v)" for k v by (rule spares_kv_set) simp
  have parts: "latches (ce_cfg env) (kv_set (''health:'' @ k) v)" "latches (ce_cfg env) (ce_control env)"
      "latches (ce_cfg env) (enqueue_event b ty m sev p key alert)" "latches (ce_cfg env) now" for k v b ty m sev p key alert
    by (rule latchesI; intro keeps_intros adds_intros risk_intros env_safe env_calls control_spares kv)+
  have "latches (ce_cfg env) (reconciliation_gate env control)" for control
    unfolding reconciliation_gate_def Let_def
    by (rule latchesI) (intro keeps_intros adds_intros risk_intros env_safe adds_recon_run [OF refl] risk_calls)+
  then show ?thesis unfolding run_once_def Let_def
    by (intro calm.keeps_bindE calm.keeps_thenE calm.keeps_tryE calm.keeps_if calm.keeps_ret keeps_sum parts latches_trade)
qed

end

text \<open>The engine of the composition root satisfies it, with either exchange.\<close>

lemma spares_remote [risk_intros]: "spares (remote f)" "spares (remote_raising g)"
  unfolding remote_raising_def remote_def by (intro risk_intros)+

lemma spares_control: "spares (get_control (engine_client cfg su))"
  unfolding get_control_def send_def engine_client_def Let_def
  by (auto intro!: risk_intros split: sum.split jval.split option.split)

lemma spares_market: "spares (snapshot (engine_market cfg su) symbol ctx)"
  unfolding snapshot_def engine_market_def Let_def
  by (auto intro!: risk_intros split: sum.split option.split prod.split)

interpretation paper_halt: halting_cycle "assemble cfg su (paper_executor cfg) st"
  by (intro halting_cycle.intro halting_cycle_axioms.intro paper_engine.quiet_cycle_axioms)
    (simp_all add: assemble_parts paper_risk.risk_execution_axioms spares_control spares_market)

interpretation binance_halt: halting_cycle "assemble cfg su (binance_executor bx) st"
  by (intro halting_cycle.intro halting_cycle_axioms.intro binance_engine.quiet_cycle_axioms)
    (simp_all add: assemble_parts binance_risk.risk_execution_axioms spares_control spares_market)

lemma built_halting:
  assumes "fst (build cfg su unpickle sklearn ld) = Inr env"
  shows "halting_cycle env \<and> ce_cfg env = cfg"
proof -
  obtain ex st where env: "build_executor cfg su = Inr ex" "env = assemble cfg su ex st" using built [OF assms] .
  then have "ex = paper_executor cfg \<or> ex = binance_executor (engine_exchange cfg su)"
    by (auto simp: build_executor_def split: if_splits)
  then have "halting_cycle env" using paper_halt.halting_cycle_axioms binance_halt.halting_cycle_axioms unfolding env(2) by metis
  then show ?thesis by (simp add: env(2) assemble_def)
qed

section \<open>A day of the engine\<close>

text \<open>
  What happens to the database between two checks: trading cycles, reconciliation runs, events of the stream, flushes of
  the outbox, writes of the reconciliation state, and time passing outside.
\<close>

inductive day_step :: "'x cycle_env \<Rightarrow> 'x world \<Rightarrow> 'x world \<Rightarrow> bool" for env where
  cycle: "day_step env w (snd (run_once env w))"
| reconciled: "day_step env w (snd (recon_run (ce_sv env) nonce reason ack w))"
| event: "day_step env w (snd (handle_event (ce_sv env) ev source w))"
| flushed: "dispatcher_ok dp \<Longrightarrow> day_step env w (snd (flush dp limit w))"
| state_written: "day_step env w (snd (save_recon_state st w))"
| passes: "clk w \<le> t \<Longrightarrow> day_step env w (w\<lparr>clk := t, ext := x\<rparr>)"

lemma network_db: "network m \<Longrightarrow> db (snd (m w)) = db w"
proof -
  assume "network m"
  then obtain t x where "snd (m w) = w\<lparr>clk := t, ext := x\<rparr>" unfolding network_def by blast
  then show ?thesis by simp
qed

lemma network_spares: "network m \<Longrightarrow> spares m" "network m \<Longrightarrow> adds W Q m"
  by (simp_all add: keeps_def network_db same_risk_def only_new_def)

lemma adds_flush:
  assumes "dispatcher_ok dp"
  shows "adds W Q (flush dp limit)"
proof -
  have h: "adds W Q (handle_failure dp row e)" for row e
    unfolding handle_failure_def Let_def by (auto intro!: adds_intros split: exn.split)
  have r: "adds W Q (flush_row dp row)" for row
    unfolding flush_row_def by (intro adds_intros h network_spares(2) deliver_network assms)
  have "adds W Q (flush_rows dp rows n)" for rows n
    by (induction rows arbitrary: n) (auto intro!: adds_intros r split: prod.split)
  then show ?thesis unfolding flush_def by (intro adds_intros)
qed

context halting_cycle
begin

lemma day_step_calm: "day_step env w w' \<Longrightarrow> calm (ce_cfg env) w w'"
proof (induction rule: day_step.induct)
  case (cycle w)
  show ?case by (rule keepsS [OF latches_run_once])
next
  case (reconciled w nonce reason ack)
  show ?case by (rule keepsS [OF latchesI]) (intro env_safe adds_recon_run [OF refl] risk_calls)+
next
  case (event w ev source)
  show ?case by (rule keepsS [OF latchesI]) (intro keeps_intros adds_intros risk_intros)+
next
  case (flushed dp w limit)
  show ?case
    by (rule keepsS [OF latchesI]) (intro safe_flush adds_flush spares_flush network_spares(1) deliver_network flushed)+
next
  case (state_written w st)
  show ?case by (rule keepsS [OF latchesI]) (intro keeps_intros adds_intros risk_intros)+
next
  case (passes w t x)
  then show ?case by (intro calm_if_spared) (simp_all add: advances_def only_new_def same_risk_def)
qed

lemma day_calm: "(day_step env)\<^sup>*\<^sup>* w w' \<Longrightarrow> calm (ce_cfg env) w w'"
  by (induction rule: rtranclp_induct) (auto intro: calm.P_refl calm.P_trans day_step_calm)

end

text \<open>
  C20: a daily halt is final for the day. Once the daily check of an engine that was built has halted the bot, then as long as
  the UTC date has not changed, whatever sequence of trading cycles, reconciliation runs, stream events, outbox flushes and
  state writes follows, each as a whole and with any answers from outside: the bot is still halted, every further check
  of the day halts again whatever the equity has become, and not one intent to enter the market was recorded.
\<close>

theorem daily_halt_latched:
  assumes "fst (build cfg su unpickle sklearn ld) = Inr env"
    and "update_daily cfg eq (iso_date (clk w)) w = (Inr True, w1)"
    and "(day_step env)\<^sup>*\<^sup>* w1 w2" "clk w2 div DAY = clk w div DAY"
  shows "fst (is_daily_halted cfg w2) = Inr True \<and> fst (update_daily cfg eq2 (iso_date (clk w2)) w2) = Inr True
    \<and> (\<forall>it\<in>set (d_intents (db w2)). it \<in> set (d_intents (db w1)) \<or> oi_purpose it \<noteq> ENTRY)"
proof -
  have w1: "halted_today cfg w1" "clk w1 = clk w" using check_halts [OF assms(2)] by simp_all
  have "calm cfg w1 w2" using halting_cycle.day_calm [OF _ assms(3)] built_halting [OF assms(1)] by blast
  then have "halted_today cfg w2" "only_new True (\<lambda>it. oi_purpose it \<noteq> ENTRY) (db w1) (db w2)"
    using w1 assms(4) by (simp_all add: calm_def)
  then show ?thesis by (simp add: halted_answer halted_check only_new_def)
qed

definition demo_offline :: "unit outer cycle_env" where
  "demo_offline = assemble demo_config ((demo_surroundings False)\<lparr>su_http := (\<lambda>_ _ _ _ y. (Inl ''ConnectTimeout'', y, 7))\<rparr>)
     (paper_executor demo_config) (multi_factor demo_config)"

lemma demo_offline_built:
  "fst (build demo_config ((demo_surroundings False)\<lparr>su_http := (\<lambda>_ _ _ _ y. (Inl ''ConnectTimeout'', y, 7))\<rparr>) unpickle sklearn ld) = Inr demo_offline"
  by (simp add: build_def build_executor_def build_strategy_def demo_config_def demo_offline_def bindE_apply)

lemma demo_offline_clock: "clk (snd (run_once demo_offline w)) = clk w + 9"
proof -
  have c: "\<exists>e. ce_control demo_offline v = (Inl e, v\<lparr>ext := (ext v)\<lparr>ou_rest := ()\<rparr>, clk := clk v + 9\<rparr>)" for v
    by (auto simp: demo_offline_def assemble_def get_control_def send_def engine_client_def demo_surroundings_def remote_def outside_def
        bindE_apply Let_def truthy_def)
  obtain e x where e: "ce_control demo_offline (asked demo_offline w) = (Inl e, (asked demo_offline w)\<lparr>ext := x, clk := clk (asked demo_offline w) + 9\<rparr>)"
    using c by blast
  have "clk (asked demo_offline w) = clk w" by (simp add: asked_def kv_set_def transaction_def)
  then show ?thesis unfolding run_once_asked [OF e]
    by (simp add: Let_def thenE_def bindE_apply enqueue_event_def enqueue_result)
qed

theorem daily_halt_latched_witness:
  "let w = outer_world\<lparr>db := empty_ledger\<lparr>d_kv := [(''risk:bot'', JObj (new_day (iso_date 0) 1000))]\<rparr>\<rparr>;
       w1 = snd (update_daily demo_config 900 (iso_date 0) w); w2 = (snd (run_once demo_offline w1))\<lparr>clk := 3600000000, ext := ext w1\<rparr> in
   fst (update_daily demo_config 900 (iso_date 0) w) = Inr True
   \<and> fst (is_daily_halted demo_config w2) = Inr True \<and> fst (update_daily demo_config 2000 (iso_date 3600000000) w2) = Inr True
   \<and> (\<forall>it\<in>set (d_intents (db w2)). it \<in> set (d_intents (db w1)) \<or> oi_purpose it \<noteq> ENTRY)"
proof -
  let ?w = "outer_world\<lparr>db := empty_ledger\<lparr>d_kv := [(''risk:bot'', JObj (new_day (iso_date 0) 1000))]\<rparr>\<rparr> :: unit outer world"
  let ?r = "update_daily demo_config 900 (iso_date 0) ?w"
  let ?w1 = "snd ?r"
  let ?v = "snd (run_once demo_offline ?w1)"
  let ?w2 = "?v\<lparr>clk := 3600000000, ext := ext ?w1\<rparr>"
  have c: "fst (check_daily_loss_limit \<lparr>ks_equity = flt_round 900, ks_day_start = flt_round 1000, ks_halted = False\<rparr> 5)"
    by code_simp
  have "DAILY_LOSS_LIMIT_PCT demo_config = 5" "BOT_INSTANCE_ID demo_config = ''bot''" by (simp_all add: demo_config_def)
  then have f: "fst ?r = Inr True"
    using c by (simp add: update_daily_def risk_row_def risk_key_def kv_get_def bindE_apply new_day_def flag_def jdec_def jget_def
        Let_def thenE_def kv_set_def transaction_def case_prod_beta)
  have t: "clk ?w = 0" by (simp add: outer_world_def)
  have r: "update_daily demo_config 900 (iso_date (clk ?w)) ?w = (Inr True, ?w1)"
    using f by (simp only: t) (metis prod.collapse)
  have v: "clk ?v = 9" using check_halts [OF r] demo_offline_clock [of ?w1] t by simp
  have "day_step demo_offline ?w1 ?v" by (rule day_step.cycle)
  moreover have "day_step demo_offline ?v ?w2" by (rule day_step.passes) (simp add: v)
  ultimately have steps: "(day_step demo_offline)\<^sup>*\<^sup>* ?w1 ?w2" by (meson r_into_rtranclp rtranclp_trans)
  have t2: "clk ?w2 = 3600000000" "clk ?w2 div DAY = clk ?w div DAY" by (simp_all add: t DAY_def)
  note d = daily_halt_latched [OF demo_offline_built [of "\<lambda>_. Inl type_error" "[]" "\<lparr>ld_files = Map.empty, ld_unpickled = []\<rparr>"] r steps t2(2), of 2000]
  show ?thesis unfolding Let_def using f d [unfolded t2(1)] by blast
qed

end
