(* ===== verification/Worker_Machine.thy ===== *)
theory Worker_Machine
  imports Worker
begin

text \<open>
  The reconciliation worker as an interleaving machine. Three agents read and write the row of the
  reconciliation state without a transaction around the two: the event loop (the callbacks of the stream, the
  tail of an event, the check after a run), the thread of the run that holds the lock, and the thread of the
  freshness heartbeat \<^verbatim>\<open>touch\<close>. A step is the reading of the row, its writing, or a call that leaves the
  row alone; between any two steps of one agent the others may move. The first part shows that the handlers of
  Worker and the run of Reconciliation are such accesses in sequence; then come the machine, its
  invariants by rule induction over the steps, and the races it has.
\<close>

section \<open>Accesses to the state row\<close>

text \<open>What a handler does to the row it has read; \<open>Status\<close> is \<^verbatim>\<open>set_state\<close> with its arguments.\<close>

datatype change = Status recon_status string bool bool | Mark_connected | Event_time | Ack_token string | Refresh

fun changed :: "change \<Rightarrow> time \<Rightarrow> recon_state \<Rightarrow> recon_state" where
  "changed (Status status reason success off) t st =
     (let st = st\<lparr>rs_status := status, rs_reason := reason\<rparr>;
          st = (if success then st\<lparr>rs_last_success := Some t\<rparr> else st)
      in if off then disconnected st else st)"
| "changed Mark_connected t st = st\<lparr>rs_ws_connected := True\<rparr>"
| "changed Event_time t st = st\<lparr>rs_last_ws_event := Some t\<rparr>"
| "changed (Ack_token ack) t st = st\<lparr>rs_last_ack := Some ack\<rparr>"
| "changed Refresh t st = st"

text \<open>
  Where an agent stands: about to read the row for a change, or holding the row it is about to write back. The status is
  the one its decision rests on: that of the first row it read.
\<close>

datatype access = Rest | Due change "recon_status option" | Held change recon_status recon_state

definition write_back :: "change \<Rightarrow> recon_state \<Rightarrow> ('x world, unit) eff" where
  "write_back c st = bindE now (\<lambda>t. save_recon_state (changed c t st))"

fun perform :: "string \<Rightarrow> access \<Rightarrow> ('x world, unit) eff" where
  "perform botid Rest = ret ()"
| "perform botid (Due c based) = bindE (get_recon_state botid) (write_back c)"
| "perform botid (Held c based st) = write_back c st"

text \<open>What the callbacks of the stream and the check after a run decide to do.\<close>

definition connecting_access :: "string \<Rightarrow> recon_state \<Rightarrow> access" where
  "connecting_access detail cur =
     (if rs_status cur \<noteq> HALTED then Due (Status CONNECTING detail False True) (Some (rs_status cur)) else Rest)"

definition disconnected_access :: "string \<Rightarrow> recon_state \<Rightarrow> access" where
  "disconnected_access detail cur = Due
     (if rs_status cur \<noteq> HALTED then Status DEGRADED (''websocket down: '' @ detail) False True
      else Status HALTED (rs_reason cur) False True) (Some (rs_status cur))"

definition check_access :: "bool \<Rightarrow> recon_result \<Rightarrow> access" where
  "check_access conn res =
     (if \<not> conn \<and> rc_status res = HEALTHY then Due (Status DEGRADED ''reconciled but websocket not connected'' False True) None else Rest)"

lemma set_state_access:
  "thenE (set_state cfg status reason success disconnected) (ret ()) = perform (BOT_INSTANCE_ID cfg) (Due (Status status reason success True) b)"
  "thenE (set_state cfg status reason success id) (ret ()) = perform (BOT_INSTANCE_ID cfg) (Due (Status status reason success False) b)"
  by (simp_all add: fun_eq_iff set_state_def write_back_def thenE_def bindE_apply get_recon_state_def Let_def save_recon_result)

lemma edit_access: "edit_state botid (changed c) = perform botid (Due c b)"
  by (simp add: edit_state_def write_back_def [abs_def])

text \<open>The handlers of Worker are these accesses, each from beginning to end.\<close>

lemma handlers_access:
  "on_connecting env d = thenE (updE (\<lambda>k. k\<lparr>wk_connected := False\<rparr>))
     (on_world (bindE (get_recon_state (we_bot env)) (\<lambda>cur. perform (we_bot env) (connecting_access d cur))))"
  "on_disconnected env d = thenE (updE (\<lambda>k. k\<lparr>wk_connected := False\<rparr>))
     (on_world (bindE (get_recon_state (we_bot env)) (\<lambda>cur. perform (we_bot env) (disconnected_access d cur))))"
  "on_subscribed env = thenE (updE (\<lambda>k. k\<lparr>wk_connected := True\<rparr>)) (on_world (perform (we_bot env) (Due Mark_connected None)))"
  "check_connected env res = bindE (getE wk_connected) (\<lambda>c. on_world (perform (we_bot env) (check_access c res)))"
  "touch (we_cfg env) = perform (we_bot env) (Due Refresh None)"
  "save_ack env ack = perform (we_bot env) (Due (Ack_token ack) None)"
proof -
  show "on_connecting env d = thenE (updE (\<lambda>k. k\<lparr>wk_connected := False\<rparr>))
     (on_world (bindE (get_recon_state (we_bot env)) (\<lambda>cur. perform (we_bot env) (connecting_access d cur))))"
    unfolding on_connecting_def connecting_access_def whenE_def
    by (simp add: if_distrib [of "perform (we_bot env)"] set_state_access(1) [symmetric] del: perform.simps(2) cong: if_cong)
  show "on_disconnected env d = thenE (updE (\<lambda>k. k\<lparr>wk_connected := False\<rparr>))
     (on_world (bindE (get_recon_state (we_bot env)) (\<lambda>cur. perform (we_bot env) (disconnected_access d cur))))"
    unfolding on_disconnected_def disconnected_access_def
    by (simp add: if_distrib [of "\<lambda>m. thenE m (ret ())"] if_distrib [of "\<lambda>c. Due c (Some s)" for s] if_distrib [of "perform (we_bot env)"]
        set_state_access(1) [symmetric] del: perform.simps(2) cong: if_cong)
  show "check_connected env res = bindE (getE wk_connected) (\<lambda>c. on_world (perform (we_bot env) (check_access c res)))"
    by (rule ext) (simp add: check_connected_def check_access_def set_state_access(1) [symmetric] whenE_def on_world_def bindE_apply
        del: perform.simps(2))
  show "on_subscribed env = thenE (updE (\<lambda>k. k\<lparr>wk_connected := True\<rparr>)) (on_world (perform (we_bot env) (Due Mark_connected None)))"
    by (simp add: on_subscribed_def edit_state_def write_back_def [abs_def])
  show "save_ack env ack = perform (we_bot env) (Due (Ack_token ack) None)"
    by (simp add: save_ack_def edit_state_def write_back_def [abs_def])
  show "touch (we_cfg env) = perform (we_bot env) (Due Refresh None)"
    by (simp add: fun_eq_iff touch_def write_back_def bindE_apply get_recon_state_def)
qed

section \<open>A run in parts\<close>

record run_call =
  rl_nonce :: string
  rl_reason :: string
  rl_ack :: bool

text \<open>What the part of a run between its two \<^verbatim>\<open>set_state\<close> came to, and the result made of it.\<close>

type_synonym outcome = "(exn + unit) \<times> mismatch list \<times> (string \<times> jval) list \<times> int"

definition look :: "'x services \<Rightarrow> run_call \<Rightarrow> time \<Rightarrow> recon_state \<Rightarrow> ('x world, outcome) eff" where
  "look sv rc started previous = (\<lambda>w.
     case recon_body sv (rs_last_success previous) (run_key_of (sv_cfg sv) (rl_nonce rc) started)
            \<lparr>rx_world = w, rx_mismatches = [], rx_summary = [(''reason'', JStr (rl_reason rc))], rx_pending = 0\<rparr> of
       (r, c) \<Rightarrow> (Inr (r, rx_mismatches c, rx_summary c, rx_pending c), rx_world c))"

definition conclude :: "config \<Rightarrow> run_call \<Rightarrow> time \<Rightarrow> recon_state \<Rightarrow> outcome \<Rightarrow> recon_result" where
  "conclude cfg rc started previous out = (case out of (r, mms, summary, pending) \<Rightarrow>
     let (status, why) = (case r of
           Inl e \<Rightarrow> (DEGRADED, ''reconciliation failed: '' @ exn_name e @ '': '' @ take 200 (exn_str e))
         | Inr _ \<Rightarrow> verdict previous (rl_ack rc) mms pending)
     in \<lparr>rc_status = status, rc_reason = why, rc_mismatches = mms, rc_summary = summary,
         rc_run_key = run_key_of cfg (rl_nonce rc) started\<rparr>)"

definition final_change :: "recon_result \<Rightarrow> change" where
  "final_change res = Status (rc_status res) (rc_reason res) (rc_status res = HEALTHY) False"

definition alert_run :: "config \<Rightarrow> recon_result \<Rightarrow> ('x world, unit) eff" where
  "alert_run cfg res = whenE (rc_status res = HALTED \<and> critical (rc_mismatches res) \<noteq> [])
     (enqueue_event (BOT_INSTANCE_ID cfg) ''RECONCILIATION_HALTED'' (rc_reason res) ''CRITICAL''
        [(''run_key'', JStr (rc_run_key res)), (''mismatches'', JArr (map mismatch_json (critical (rc_mismatches res))))]
        (Some (''halt:'' @ rc_run_key res)) True)"

definition marking :: "run_call \<Rightarrow> change" where
  "marking rc = Status RECONCILING (''reconciling ('' @ rl_reason rc @ '')'') False False"

lemma then_ret_then: "thenE m n = thenE (thenE m (ret ())) n"
  by (rule ext) (simp add: thenE_def bindE_apply split: prod.split sum.split)

lemma run_ends:
  "finish_run cfg res reason started = thenE (persist_run cfg res reason started)
     (thenE (perform (BOT_INSTANCE_ID cfg) (Due (final_change res) b)) (thenE (alert_run cfg res) (ret res)))"
  "rc_status res = DEGRADED \<Longrightarrow> failed_run cfg res reason started = finish_run cfg res reason started"
proof -
  show "finish_run cfg res reason started = thenE (persist_run cfg res reason started)
     (thenE (perform (BOT_INSTANCE_ID cfg) (Due (final_change res) b)) (thenE (alert_run cfg res) (ret res)))"
    unfolding finish_run_def final_change_def alert_run_def set_state_access(2) [symmetric] by (subst (2) then_ret_then) (rule refl)
  show "failed_run cfg res reason started = finish_run cfg res reason started" if "rc_status res = DEGRADED"
    using that by (simp add: failed_run_def finish_run_def whenE_def)
qed

text \<open>The run of Reconciliation, as its parts in sequence.\<close>

lemma recon_run_parts:
  fixes sv :: "'x services"
  defines "b \<equiv> BOT_INSTANCE_ID (sv_cfg sv)"
  shows "recon_run sv (rl_nonce rc) (rl_reason rc) (rl_ack rc) = bindE now (\<lambda>t. bindE (get_recon_state b) (\<lambda>previous.
     thenE (perform b (Due (marking rc) (Some (rs_status previous)))) (bindE (look sv rc t previous) (\<lambda>out.
       let res = conclude (sv_cfg sv) rc t previous out
       in thenE (persist_run (sv_cfg sv) res (rl_reason rc) t) (thenE (perform b (Due (final_change res) None))
            (thenE (alert_run (sv_cfg sv) res) (ret res)))))))"
proof
  fix w :: "'x world"
  let ?p = "recon_state_of b (db w)" and ?t = "clk w"
  let ?mark = "set_state (sv_cfg sv) RECONCILING (''reconciling ('' @ rl_reason rc @ '')'') False id"
  obtain st w1 where s: "?mark w = (Inr st, w1)" using set_state_result by blast
  have m: "perform b (Due (marking rc) (Some (rs_status ?p))) w = (Inr (), w1)"
    unfolding marking_def b_def set_state_access(2) [symmetric] thenE_def bindE_apply s by simp
  obtain r c where body: "recon_body sv (rs_last_success ?p) (run_key_of (sv_cfg sv) (rl_nonce rc) ?t)
      \<lparr>rx_world = w1, rx_mismatches = [], rx_summary = [(''reason'', JStr (rl_reason rc))], rx_pending = 0\<rparr> = (r, c)" by fastforce
  let ?out = "(r, rx_mismatches c, rx_summary c, rx_pending c)"
  let ?res = "conclude (sv_cfg sv) rc ?t ?p ?out"
  have l: "look sv rc ?t ?p w1 = (Inr ?out, rx_world c)" by (simp add: look_def body)
  have "recon_run sv (rl_nonce rc) (rl_reason rc) (rl_ack rc) w = finish_run (sv_cfg sv) ?res (rl_reason rc) ?t (rx_world c)"
  proof (cases r)
    case (Inl e)
    then show ?thesis using s body
      by (simp add: recon_run_def thenE_def bindE_apply get_recon_state_def Let_def b_def [symmetric] run_key_of_def conclude_def run_ends(2))
  next
    case (Inr u)
    then show ?thesis using s body
      by (simp add: recon_run_def thenE_def bindE_apply get_recon_state_def Let_def b_def [symmetric] run_key_of_def conclude_def
          split: prod.split)
  qed
  then show "recon_run sv (rl_nonce rc) (rl_reason rc) (rl_ack rc) w = bindE now (\<lambda>t. bindE (get_recon_state b) (\<lambda>previous.
     thenE (perform b (Due (marking rc) (Some (rs_status previous)))) (bindE (look sv rc t previous) (\<lambda>out.
       let res = conclude (sv_cfg sv) rc t previous out
       in thenE (persist_run (sv_cfg sv) res (rl_reason rc) t) (thenE (perform b (Due (final_change res) None))
            (thenE (alert_run (sv_cfg sv) res) (ret res))))))) w"
    using m l by (simp only: bindE_apply thenE_def now_apply get_recon_state_def db_get_apply prod.case sum.case Let_def
        run_ends(1) [of _ _ _ _ None] b_def)
qed

section \<open>The machine\<close>

datatype stream_state = Offline | Connecting | Subscribed

text \<open>Where the run that holds the lock is: the row is marked RECONCILING in \<open>Marking\<close> and gets its verdict in \<open>Saving\<close>.\<close>

datatype phase = Idle | Starting run_call | Marking run_call time recon_state | Looking run_call time recon_state
  | Looked run_call time recon_state outcome | Concluded run_call time recon_state recon_result
  | Saving run_call recon_state recon_result | Ran recon_result

datatype agent = Event_loop | Run_thread | Touch_thread

record 'x machine =
  mc_worker :: "'x worker"
  mc_stream :: stream_state
  mc_loop :: access
  mc_phase :: phase
  mc_thread :: access
  mc_touch :: access
  mc_tails :: "ingest_outcome list"
  mc_waiting :: "(string \<times> bool) list"
  mc_last_ack :: "string option"

fun pc :: "agent \<Rightarrow> 'x machine \<Rightarrow> access" where
  "pc Event_loop m = mc_loop m"
| "pc Run_thread m = mc_thread m"
| "pc Touch_thread m = mc_touch m"

fun set_pc :: "agent \<Rightarrow> access \<Rightarrow> 'x machine \<Rightarrow> 'x machine" where
  "set_pc Event_loop x m = m\<lparr>mc_loop := x\<rparr>"
| "set_pc Run_thread x m = m\<lparr>mc_thread := x\<rparr>"
| "set_pc Touch_thread x m = m\<lparr>mc_touch := x\<rparr>"

definition mc_db :: "'x machine \<Rightarrow> ledger" where
  "mc_db m = db (wk_world (mc_worker m))"

definition state_row :: "'x worker_env \<Rightarrow> 'x machine \<Rightarrow> recon_state" where
  "state_row env m = recon_state_of (we_bot env) (mc_db m)"

definition stored :: "'x worker_env \<Rightarrow> 'x machine \<Rightarrow> recon_status" where
  "stored env m = rs_status (state_row env m)"

text \<open>
  The calls that leave the state row alone (ingestion, the body of a run, the control plane, a flush) run in threads.
  At the grain \<open>Whole\<close> such a call is one step. At the grain \<open>Split\<close> it may interleave with everything else at
  any of its statements: other code may change the world at any time in any way that keeps the row and only advances the
  ledger, and the call, when it ends, may have come to any answer.
\<close>

datatype grain = Whole | Split

definition elsewhere :: "'x worker \<Rightarrow> 'x worker \<Rightarrow> bool" where
  "elsewhere k k' \<longleftrightarrow> wk_connected k' = wk_connected k \<and> advances (wk_world k) (wk_world k')
     \<and> d_recon (db (wk_world k')) = d_recon (db (wk_world k))"

fun called :: "grain \<Rightarrow> ('x world, 'a) eff \<Rightarrow> 'x worker \<Rightarrow> exn + 'a \<Rightarrow> 'x worker \<Rightarrow> bool" where
  "called Whole f k r k' \<longleftrightarrow> on_world f k = (r, k')"
| "called Split f k r k' \<longleftrightarrow> elsewhere k k'"

text \<open>
  What a step did, as far as the properties speak about it: a write of the row, with its agent, the status its decision rests
  on, the status it stores and the status it found; the verdict of a run, with its acknowledgement (\<open>None\<close>: it raised).
\<close>

datatype label = Silent | Wrote agent recon_status recon_status recon_status | Verdict bool "recon_status option"

inductive mstep :: "'x worker_env \<Rightarrow> grain \<Rightarrow> 'x machine \<Rightarrow> label \<Rightarrow> 'x machine \<Rightarrow> bool" for env :: "'x worker_env" and g :: grain where
  connecting: "mc_stream m = Offline \<Longrightarrow> mc_loop m = Rest \<Longrightarrow>
    mstep env g m Silent (m\<lparr>mc_worker := (mc_worker m)\<lparr>wk_connected := False\<rparr>, mc_stream := Connecting,
      mc_loop := connecting_access d (state_row env m)\<rparr>)"
| subscribed: "mc_stream m = Connecting \<Longrightarrow> mc_loop m = Rest \<Longrightarrow>
    mstep env g m Silent (m\<lparr>mc_worker := (mc_worker m)\<lparr>wk_connected := True\<rparr>, mc_stream := Subscribed,
      mc_loop := Due Mark_connected None, mc_waiting := mc_waiting m @ [(SUBSCRIBED_REASON, False)]\<rparr>)"
| disconnected: "mc_stream m \<noteq> Offline \<Longrightarrow> mc_loop m = Rest \<Longrightarrow>
    mstep env g m Silent (m\<lparr>mc_worker := (mc_worker m)\<lparr>wk_connected := False\<rparr>, mc_stream := Offline,
      mc_loop := disconnected_access d (state_row env m)\<rparr>)"
| event: "mc_stream m \<noteq> Offline \<Longrightarrow> snd (unwrap msg) = Some raw \<Longrightarrow>
    normalize_event raw (BINANCE_ACCOUNT_LABEL (we_cfg env)) [SYMBOL (we_cfg env)] = Inr ev \<Longrightarrow>
    called g (handle_event (we_sv env) ev ''ws'') (mc_worker m) r k \<Longrightarrow>
    mstep env g m Silent (m\<lparr>mc_worker := k, mc_tails := mc_tails m @ (case r of Inr out \<Rightarrow> [out] | Inl _ \<Rightarrow> [])\<rparr>)"
| tail: "mc_tails m = out # outs \<Longrightarrow> mc_loop m = Rest \<Longrightarrow>
    mstep env g m Silent (m\<lparr>mc_loop := Due Event_time None, mc_tails := outs,
      mc_waiting := mc_waiting m @ (if needs_reconciliation out then [(''stream event: '' @ outcome_value out, False)] else [])\<rparr>)"
| touches: "mc_touch m = Rest \<Longrightarrow> mstep env g m Silent (m\<lparr>mc_touch := Due Refresh None\<rparr>)"
| beat: "called g (worker_heartbeat env ''reconciliation'') (mc_worker m) r k \<Longrightarrow> mstep env g m Silent (m\<lparr>mc_worker := k\<rparr>)"
| flushed: "called g (worker_flush env) (mc_worker m) r k \<Longrightarrow> mstep env g m Silent (m\<lparr>mc_worker := k\<rparr>)"
| polled: "called g (get_control (we_client env)) (mc_worker m) r k \<Longrightarrow>
    mstep env g m Silent (case r of
      Inr control \<Rightarrow> if truthy (ack_token control) \<and> ack_token control \<noteq> mc_last_ack m
        then m\<lparr>mc_worker := k, mc_last_ack := ack_token control, mc_waiting := mc_waiting m @ [(ACK_REASON, True)]\<rparr>
        else m\<lparr>mc_worker := k\<rparr>
    | Inl e \<Rightarrow> m\<lparr>mc_worker := k\<rparr>)"
| acked: "mc_last_ack m = Some ack \<Longrightarrow> mc_loop m = Rest \<Longrightarrow> mstep env g m Silent (m\<lparr>mc_loop := Due (Ack_token ack) None\<rparr>)"
| periodic: "wk_connected (mc_worker m) \<Longrightarrow> mc_loop m = Rest \<Longrightarrow>
    mstep env g m Silent (m\<lparr>mc_waiting := mc_waiting m @ [(''periodic'', False)]\<rparr>)"
| others: "g = Split \<Longrightarrow> elsewhere (mc_worker m) k \<Longrightarrow> mstep env g m Silent (m\<lparr>mc_worker := k\<rparr>)"
| begins: "mc_phase m = Idle \<Longrightarrow> mc_loop m = Rest \<Longrightarrow> mc_waiting m = (reason, ack) # rest \<Longrightarrow>
    mstep env g m Silent (m\<lparr>mc_phase := Starting \<lparr>rl_nonce = nonce, rl_reason = reason, rl_ack = ack\<rparr>, mc_waiting := rest\<rparr>)"
| starts: "mc_phase m = Starting rc \<Longrightarrow>
    mstep env g m Silent (m\<lparr>mc_phase := Marking rc (clk (wk_world (mc_worker m))) (state_row env m),
      mc_thread := Due (marking rc) (Some (stored env m))\<rparr>)"
| marked: "mc_phase m = Marking rc t previous \<Longrightarrow> mc_thread m = Rest \<Longrightarrow>
    mstep env g m Silent (m\<lparr>mc_phase := Looking rc t previous\<rparr>)"
| looks: "mc_phase m = Looking rc t previous \<Longrightarrow> called g (look (we_sv env) rc t previous) (mc_worker m) (Inr out) k \<Longrightarrow>
    mstep env g m Silent (m\<lparr>mc_worker := k, mc_phase := Looked rc t previous out\<rparr>)"
| concludes: "mc_phase m = Looked rc t previous out \<Longrightarrow> res = conclude (we_cfg env) rc t previous out \<Longrightarrow>
    mstep env g m (Verdict (rl_ack rc) (Some (rc_status res))) (m\<lparr>mc_phase := Concluded rc t previous res\<rparr>)"
| persists: "mc_phase m = Concluded rc t previous res \<Longrightarrow>
    called g (persist_run (we_cfg env) res (rl_reason rc) t) (mc_worker m) (Inr ()) k \<Longrightarrow>
    mstep env g m Silent (m\<lparr>mc_worker := k, mc_phase := Saving rc previous res, mc_thread := Due (final_change res) None\<rparr>)"
| raises: "mc_phase m = Concluded rc t previous res \<Longrightarrow>
    called g (persist_run (we_cfg env) res (rl_reason rc) t) (mc_worker m) (Inl e) k \<Longrightarrow>
    mstep env g m (Verdict (rl_ack rc) None) (m\<lparr>mc_worker := k, mc_phase := Idle\<rparr>)"
| saved: "mc_phase m = Saving rc previous res \<Longrightarrow> mc_thread m = Rest \<Longrightarrow>
    called g (alert_run (we_cfg env) res) (mc_worker m) (Inr ()) k \<Longrightarrow>
    mstep env g m Silent (m\<lparr>mc_worker := k, mc_phase := Ran res\<rparr>)"
| checks: "mc_phase m = Ran res \<Longrightarrow> mc_loop m = Rest \<Longrightarrow>
    mstep env g m Silent (m\<lparr>mc_phase := Idle, mc_loop := check_access (wk_connected (mc_worker m)) res\<rparr>)"
| reads: "pc a m = Due c based \<Longrightarrow>
    mstep env g m Silent (set_pc a (Held c (case based of None \<Rightarrow> stored env m | Some s \<Rightarrow> s) (state_row env m)) m)"
| writes: "pc a m = Held c based st \<Longrightarrow> on_world (write_back c st) (mc_worker m) = (Inr (), k) \<Longrightarrow>
    mstep env g m (Wrote a based (stored env (m\<lparr>mc_worker := k\<rparr>)) (stored env m)) ((set_pc a Rest m)\<lparr>mc_worker := k\<rparr>)"

inductive msteps :: "'x worker_env \<Rightarrow> grain \<Rightarrow> 'x machine \<Rightarrow> label list \<Rightarrow> 'x machine \<Rightarrow> bool" for env :: "'x worker_env" and g :: grain where
  none: "msteps env g m [] m"
| more: "msteps env g m ls m' \<Longrightarrow> mstep env g m' l m'' \<Longrightarrow> msteps env g m (ls @ [l]) m''"

text \<open>A process that starts on the ledger of an earlier one.\<close>

definition fresh_start :: "'x worker_env \<Rightarrow> 'x world \<Rightarrow> 'x machine" where
  "fresh_start env w = \<lparr>mc_worker = snd (start_worker env \<lparr>wk_world = w, wk_connected = False\<rparr>), mc_stream = Offline,
     mc_loop = Rest, mc_phase = Idle, mc_thread = Rest, mc_touch = Rest, mc_tails = [], mc_waiting = [],
     mc_last_ack = rs_last_ack (recon_state_of (we_bot env) (db w))\<rparr>"

lemma msteps_trans: "msteps env g m' ls' m'' \<Longrightarrow> msteps env g m ls m' \<Longrightarrow> msteps env g m (ls @ ls') m''"
  by (induction rule: msteps.induct) (auto simp flip: append_assoc intro: msteps.more)

lemma msteps_one: "mstep env g m l m' \<Longrightarrow> msteps env g m [l] m'"
  using msteps.more [OF msteps.none] by fastforce

section \<open>A call in one step is a call at any grain\<close>

lemma elsewhere_call:
  assumes "adds False (\<lambda>_. False) f" "safe f" "on_world f k = (r, k')"
  shows "elsewhere k k'"
proof -
  obtain w where w: "f (wk_world k) = (r, w)" "k' = k\<lparr>wk_world := w\<rparr>" using assms(3) by (auto simp: on_world_def split: prod.splits)
  then show ?thesis using keepsD [OF assms(1) w(1)] keepsD [OF assms(2) w(1)] by (auto simp: elsewhere_def only_new_def)
qed

lemma quiet_ends: "adds W Q (persist_run cfg res reason t)" "adds W Q (alert_run cfg res)"
  unfolding persist_run_def alert_run_def by (intro adds_intros)+

lemma safe_ends: "safe (alert_run cfg res)"
  unfolding alert_run_def by (intro keeps_intros)

context worker_contract
begin

lemma look_laws: "adds False (\<lambda>_. False) (look (we_sv env) rc t previous)" "safe (look (we_sv env) rc t previous)"
proof -
  let ?f = "look (we_sv env) rc t previous"
  have *: "only_new False (\<lambda>_. False) (db w) (db (snd (?f w))) \<and> advances w (snd (?f w))" for w
  proof -
    let ?c0 = "\<lparr>rx_world = w, rx_mismatches = [], rx_summary = [(''reason'', JStr (rl_reason rc))], rx_pending = 0\<rparr>"
    let ?body = "recon_body (we_sv env) (rs_last_success previous) (run_key_of (we_cfg env) (rl_nonce rc) t)"
    obtain a c where body: "?body ?c0 = (a, c)" by fastforce
    have "only_new False (\<lambda>_. False) (db w) (db (rx_world c))" using keepsD [OF adds_recon_body [OF refl] body] by simp
    moreover have "advances w (rx_world c)" using keepsD [OF safe_recon_body [OF refl] body] by (simp add: rx_le_def)
    ultimately show ?thesis by (simp add: look_def body)
  qed
  show "adds False (\<lambda>_. False) ?f" by (rule keepsI) (rule * [THEN conjunct1])
  show "safe ?f" by (rule keepsI) (rule * [THEN conjunct2])
qed

lemma called_elsewhere:
  "called g (handle_event (we_sv env) ev src) k r1 k' \<Longrightarrow> elsewhere k k'"
  "called g (worker_heartbeat env n) k r2 k' \<Longrightarrow> elsewhere k k'"
  "called g (worker_flush env) k r2 k' \<Longrightarrow> elsewhere k k'"
  "called g (get_control (we_client env)) k r3 k' \<Longrightarrow> elsewhere k k'"
  "called g (look (we_sv env) rc t previous) k r4 k' \<Longrightarrow> elsewhere k k'"
  "called g (persist_run (we_cfg env) res reason t) k r5 k' \<Longrightarrow> elsewhere k k'"
  "called g (alert_run (we_cfg env) res) k r6 k' \<Longrightarrow> elsewhere k k'"
  by (cases g; simp; erule elsewhere_call [rotated 2],
      intro quiet_handlers quiet_heartbeat quiet_flush client_quiet look_laws quiet_ends,
      intro safe_handle_event safe_heartbeat safe_worker_flush client_safe look_laws safe_run_ends safe_ends)+

text \<open>So the machine at the grain \<open>Split\<close> has every step of the one at the grain \<open>Whole\<close>.\<close>

lemma called_split: "called Split f k r k' \<longleftrightarrow> elsewhere k k'"
  by simp

lemma whole_split: "mstep env g m l m' \<Longrightarrow> mstep env Split m l m'"
proof (induction rule: mstep.induct)
  case (event m msg raw ev r k)
  show ?case by (rule mstep.event [OF event(1-3)]) (use called_elsewhere(1) [OF event(4)] in simp)
next
  case (beat m r k)
  show ?case by (rule mstep.beat) (use called_elsewhere(2) [OF beat] in simp)
next
  case (flushed m r k)
  show ?case by (rule mstep.flushed) (use called_elsewhere(3) [OF flushed] in simp)
next
  case (polled m r k)
  show ?case by (rule mstep.polled) (use called_elsewhere(4) [OF polled] in simp)
next
  case (looks m rc t previous out k)
  show ?case by (rule mstep.looks [OF looks(1)]) (use called_elsewhere(5) [OF looks(2)] in simp)
next
  case (persists m rc t previous res k)
  show ?case by (rule mstep.persists [OF persists(1)]) (use called_elsewhere(6) [OF persists(2)] in simp)
next
  case (raises m rc t previous res e k)
  show ?case by (rule mstep.raises [OF raises(1)]) (use called_elsewhere(6) [OF raises(2)] in simp)
next
  case (saved m rc previous res k)
  show ?case by (rule mstep.saved [OF saved(1,2)]) (use called_elsewhere(7) [OF saved(3)] in simp)
qed (blast intro: mstep.intros)+

lemma all_split: "msteps env g m ls m' \<Longrightarrow> msteps env Split m ls m'"
  by (induction rule: msteps.induct) (auto intro: msteps.intros whole_split)

end
section \<open>What a write leaves in the row\<close>

fun sets :: "change \<Rightarrow> recon_status option" where
  "sets (Status status reason success off) = Some status"
| "sets c = None"

definition stores :: "change \<Rightarrow> recon_state \<Rightarrow> recon_status" where
  "stores c st = (case sets c of None \<Rightarrow> rs_status st | Some s \<Rightarrow> s)"

lemma changed_status: "rs_status (changed c t st) = stores c st \<and> rs_bot (changed c t st) = rs_bot st"
  by (cases c) (simp_all add: stores_def disconnected_def Let_def)

lemma state_row_cong: "mc_worker m' = mc_worker m \<Longrightarrow> state_row env m' = state_row env m"
  by (simp add: state_row_def mc_db_def)

lemma row_bot [simp]: "rs_bot (state_row env m) = we_bot env"
  by (simp add: state_row_def)

lemma row_elsewhere: "elsewhere (mc_worker m) k \<Longrightarrow> mc_worker m' = k \<Longrightarrow> state_row env m' = state_row env m"
  by (simp add: state_row_def mc_db_def elsewhere_def recon_state_of_def)

lemma row_written:
  assumes "on_world (write_back c st) (mc_worker m) = (r, k)" "rs_bot st = we_bot env" "mc_worker m' = k"
  shows "rs_status (state_row env m') = stores c st \<and> wk_connected k = wk_connected (mc_worker m)"
proof -
  let ?w = "wk_world (mc_worker m)"
  have "k = (mc_worker m)\<lparr>wk_world := ?w\<lparr>db := (db ?w)\<lparr>d_recon := upsert rs_bot (changed c (clk ?w) st\<lparr>rs_updated := Some (clk ?w)\<rparr>)
      (d_recon (db ?w))\<rparr>\<rparr>\<rparr>"
    using assms(1) by (simp add: on_world_def write_back_def save_recon_result)
  then show ?thesis using assms(2) unfolding state_row_def mc_db_def assms(3) by (simp add: recon_state_of_upsert changed_status)
qed

section \<open>Invariants\<close>

fun healthy_run :: "phase \<Rightarrow> bool" where
  "healthy_run (Saving rc previous res) = (rc_status res = HEALTHY)"
| "healthy_run (Ran res) = (rc_status res = HEALTHY)"
| "healthy_run p = False"

text \<open>The event loop is in the middle of storing another status.\<close>

fun setting :: "access \<Rightarrow> bool" where
  "setting Rest = False"
| "setting (Due c based) = (sets c \<noteq> None)"
| "setting (Held c based st) = (sets c \<noteq> None)"

fun every_change :: "(change \<Rightarrow> bool) \<Rightarrow> access \<Rightarrow> bool" where
  "every_change P Rest = True"
| "every_change P (Due c based) = P c"
| "every_change P (Held c based st) = P c"

fun every_held :: "(change \<Rightarrow> recon_status \<Rightarrow> recon_state \<Rightarrow> bool) \<Rightarrow> access \<Rightarrow> bool" where
  "every_held P (Held c based st) = P c based st"
| "every_held P x = True"

fun of_phase :: "phase \<Rightarrow> change \<Rightarrow> bool" where
  "of_phase (Marking rc t previous) c = (sets c = Some RECONCILING)"
| "of_phase (Saving rc previous res) c = (sets c = Some (rc_status res))"
| "of_phase p c = False"

definition covered :: "'x machine \<Rightarrow> bool" where
  "covered m \<longleftrightarrow> wk_connected (mc_worker m) \<or> healthy_run (mc_phase m) \<or> setting (mc_loop m)"

definition agents_ok :: "'x worker_env \<Rightarrow> 'x machine \<Rightarrow> bool" where
  "agents_ok env m \<longleftrightarrow> (wk_connected (mc_worker m) \<longleftrightarrow> mc_stream m = Subscribed)
     \<and> every_change (\<lambda>c. sets c \<noteq> Some HEALTHY) (mc_loop m) \<and> every_change (of_phase (mc_phase m)) (mc_thread m)
     \<and> every_change (\<lambda>c. c = Refresh) (mc_touch m)
     \<and> every_held (\<lambda>c b st. rs_bot st = we_bot env) (mc_loop m)
     \<and> every_held (\<lambda>c b st. rs_bot st = we_bot env) (mc_thread m)
     \<and> every_held (\<lambda>c b st. rs_bot st = we_bot env) (mc_touch m)"

definition health_ok :: "'x worker_env \<Rightarrow> 'x machine \<Rightarrow> bool" where
  "health_ok env m \<longleftrightarrow> (stored env m = HEALTHY \<longrightarrow> covered m)
     \<and> every_held (\<lambda>c b st. rs_status st = HEALTHY \<longrightarrow> covered m) (mc_loop m)"

text \<open>The freshness heartbeat stored HEALTHY over a row that another agent had changed since it was read.\<close>

fun stale_touch :: "label \<Rightarrow> bool" where
  "stale_touch (Wrote a based new old) = (a = Touch_thread \<and> new = HEALTHY \<and> old \<noteq> HEALTHY)"
| "stale_touch l = False"

lemmas access_defs = connecting_access_def disconnected_access_def check_access_def marking_def final_change_def

lemma step_agents:
  assumes "mstep env Split m l m'" "agents_ok env m"
  shows "agents_ok env m'"
  using assms
proof (cases rule: mstep.cases)
  case (polled r k)
  then show ?thesis using assms(2) by (auto simp: agents_ok_def elsewhere_def split: sum.split)
next
  case (reads a c b)
  then show ?thesis using assms(2) by (cases a) (auto simp: agents_ok_def)
next
  case (writes a c b st k)
  have "wk_connected k = wk_connected (mc_worker m)" using writes(4) by (auto simp: on_world_def split: prod.splits)
  then show ?thesis using writes assms(2) by (cases a) (auto simp: agents_ok_def)
next
  case (starts rc)
  then show ?thesis using assms(2) by (cases "mc_thread m") (auto simp: agents_ok_def access_defs)
next
  case (persists rc t previous res k)
  then show ?thesis using assms(2) by (cases "mc_thread m") (auto simp: agents_ok_def access_defs elsewhere_def)
next
  case (begins reason ack rest nonce)
  then show ?thesis using assms(2) by (cases "mc_thread m") (auto simp: agents_ok_def)
next
  case (looks rc t previous out k)
  then show ?thesis using assms(2) by (cases "mc_thread m") (auto simp: agents_ok_def elsewhere_def)
next
  case (concludes rc t previous out res)
  then show ?thesis using assms(2) by (cases "mc_thread m") (auto simp: agents_ok_def)
next
  case (raises rc t previous res e k)
  then show ?thesis using assms(2) by (cases "mc_thread m") (auto simp: agents_ok_def elsewhere_def)
next
  case (checks res)
  then show ?thesis using assms(2) by (cases "mc_thread m") (auto simp: agents_ok_def access_defs)
qed (use assms(2) in \<open>auto simp: agents_ok_def access_defs elsewhere_def\<close>)

lemma health_kept:
  assumes "health_ok env m" "state_row env m' = state_row env m" "covered m \<Longrightarrow> covered m'"
    "mc_loop m' = mc_loop m \<or> (\<nexists>c b st. mc_loop m' = Held c b st)"
  shows "health_ok env m'"
  using assms by (cases "mc_loop m"; cases "mc_loop m'") (auto simp: health_ok_def stored_def)

lemma step_health:
  assumes "mstep env Split m l m'" "agents_ok env m" "health_ok env m" "\<not> stale_touch l"
  shows "health_ok env m'"
  using assms(1)
proof (cases rule: mstep.cases)
  case (writes a c b st k)
  have bot: "rs_bot st = we_bot env" using writes(3) assms(2) by (cases a) (auto simp: agents_ok_def)
  have st: "stored env (m\<lparr>mc_worker := k\<rparr>) = stores c st" "wk_connected k = wk_connected (mc_worker m)" "stored env m' = stores c st"
    using row_written [OF writes(4) bot, of m'] row_written [OF writes(4) bot, of "m\<lparr>mc_worker := k\<rparr>"]
    by (cases a; simp add: stored_def writes(2))+
  show ?thesis
  proof (cases a)
    case Event_loop
    then show ?thesis using writes assms(2,3) st
      by (cases "sets c") (auto simp: health_ok_def covered_def agents_ok_def stores_def)
  next
    case Run_thread
    then show ?thesis using writes assms(2,3) st
      by (cases "mc_phase m"; cases "mc_loop m") (auto simp: health_ok_def covered_def agents_ok_def stores_def)
  next
    case Touch_thread
    then show ?thesis using writes assms(2-4) st
      by (cases "mc_loop m") (auto simp: health_ok_def covered_def agents_ok_def stores_def)
  qed
next
  case (reads a c b)
  then show ?thesis using assms(2,3) state_row_cong [of m' m env]
    by (cases a) (auto simp: health_ok_def covered_def stored_def)
next
  case (polled r k)
  then show ?thesis using assms(3) row_elsewhere [of m k m' env]
    by (cases "mc_loop m") (auto simp: health_ok_def covered_def stored_def elsewhere_def split: sum.split)
next
  case (connecting d)
  have "state_row env m' = state_row env m" by (simp add: state_row_def mc_db_def connecting(2))
  then show ?thesis using connecting assms(2,3) by (auto simp: health_ok_def covered_def agents_ok_def stored_def access_defs)
next
  case (subscribed)
  then show ?thesis using assms(3) by (auto simp: health_ok_def covered_def)
next
  case (disconnected d)
  then show ?thesis using assms(3) by (auto simp: health_ok_def covered_def access_defs)
qed (auto intro!: health_kept [OF assms(3)] simp: covered_def state_row_def mc_db_def elsewhere_def recon_state_of_def access_defs)

text \<open>A halt is in force when it is stored, or a run that started from it is on its way.\<close>

fun from_halt :: "phase \<Rightarrow> bool" where
  "from_halt (Marking rc t previous) = (rs_status previous = HALTED)"
| "from_halt (Looking rc t previous) = (rs_status previous = HALTED)"
| "from_halt (Looked rc t previous out) = (rs_status previous = HALTED)"
| "from_halt (Concluded rc t previous res) = (rs_status previous = HALTED)"
| "from_halt (Saving rc previous res) = (rs_status previous = HALTED)"
| "from_halt p = False"

definition halt_in_force :: "'x worker_env \<Rightarrow> 'x machine \<Rightarrow> bool" where
  "halt_in_force env m \<longleftrightarrow> stored env m = HALTED \<or> from_halt (mc_phase m)"

text \<open>
  What may lift a halt: a verdict that was acknowledged, one of a run that could not look at everything, an exception; and a
  lost update: HALTED is replaced by another status on the strength of a row read before it was HALTED.
\<close>

fun lifts_halt :: "label \<Rightarrow> bool" where
  "lifts_halt Silent = False"
| "lifts_halt (Wrote a based new old) = (old = HALTED \<and> based \<noteq> HALTED \<and> new \<noteq> HALTED)"
| "lifts_halt (Verdict ack s) = (ack \<or> s = None \<or> s = Some DEGRADED \<or> s = Some RECONCILING)"

lemma conclude_halted:
  assumes "rs_status previous = HALTED" "res = conclude cfg rc t previous out" "\<not> lifts_halt (Verdict (rl_ack rc) (Some (rc_status res)))"
  shows "rc_status res = HALTED"
proof -
  obtain r mms summary pending where "out = (r, mms, summary, pending)" by (cases out)
  then show ?thesis using assms by (cases r) (auto simp: conclude_def verdict_def Let_def split: if_splits)
qed

text \<open>Outside a run, and once a run has stored its verdict, the row itself is HALTED.\<close>

fun settled :: "phase \<Rightarrow> access \<Rightarrow> bool" where
  "settled (Saving rc previous res) x = (x = Rest)"
| "settled Idle x = True"
| "settled (Starting rc) x = True"
| "settled (Ran res) x = True"
| "settled p x = False"

fun halted_phase :: "phase \<Rightarrow> bool" where
  "halted_phase (Concluded rc t previous res) = (rs_status previous = HALTED \<and> rc_status res = HALTED)"
| "halted_phase (Saving rc previous res) = (rs_status previous = HALTED \<and> rc_status res = HALTED)"
| "halted_phase (Ran res) = (rc_status res = HALTED)"
| "halted_phase Idle = True"
| "halted_phase (Starting rc) = True"
| "halted_phase p = from_halt p"

text \<open>What the agents hold: the event loop and the heartbeat copy the status they read, or keep a HALTED one.\<close>

fun keeps_halt :: "access \<Rightarrow> bool" where
  "keeps_halt Rest = True"
| "keeps_halt (Due c based) = (sets c \<noteq> None \<longrightarrow> based = Some HALTED \<longrightarrow> sets c = Some HALTED)"
| "keeps_halt (Held c based st) = (if sets c = None then based = rs_status st \<and> based \<noteq> HEALTHY else based = HALTED \<longrightarrow> sets c = Some HALTED)"

fun plain_due :: "access \<Rightarrow> bool" where
  "plain_due (Due c based) = (sets c = None \<longleftrightarrow> based = None)"
| "plain_due x = True"

definition halt_ok :: "'x worker_env \<Rightarrow> 'x machine \<Rightarrow> bool" where
  "halt_ok env m \<longleftrightarrow> halted_phase (mc_phase m) \<and> (settled (mc_phase m) (mc_thread m) \<longrightarrow> stored env m = HALTED)
     \<and> stored env m \<noteq> HEALTHY \<and> keeps_halt (mc_loop m) \<and> plain_due (mc_loop m) \<and> keeps_halt (mc_touch m) \<and> plain_due (mc_touch m)"

lemma halt_ok_in_force: "halt_ok env m \<Longrightarrow> halt_in_force env m \<and> stored env m \<noteq> HEALTHY"
  by (cases "mc_phase m") (auto simp: halt_ok_def halt_in_force_def)

lemma halt_kept:
  assumes "halt_ok env m" "state_row env m' = state_row env m" "halted_phase (mc_phase m')"
    "settled (mc_phase m') (mc_thread m') \<Longrightarrow> settled (mc_phase m) (mc_thread m)"
    "keeps_halt (mc_loop m') \<and> plain_due (mc_loop m')" "keeps_halt (mc_touch m') \<and> plain_due (mc_touch m')"
  shows "halt_ok env m'"
  using assms by (auto simp: halt_ok_def stored_def)

lemma step_halt:
  assumes "mstep env Split m l m'" "agents_ok env m" "halt_ok env m" "\<not> lifts_halt l"
  shows "halt_ok env m'"
  using assms(1)
proof (cases rule: mstep.cases)
  case (writes a c b st k)
  have bot: "rs_bot st = we_bot env" using writes(3) assms(2) by (cases a) (auto simp: agents_ok_def)
  have st: "stored env (m\<lparr>mc_worker := k\<rparr>) = stores c st" "stored env m' = stores c st"
    using row_written [OF writes(4) bot, of m'] row_written [OF writes(4) bot, of "m\<lparr>mc_worker := k\<rparr>"]
    by (cases a; simp add: stored_def writes(2))+
  have l: "\<not> (stored env m = HALTED \<and> b \<noteq> HALTED \<and> stores c st \<noteq> HALTED)" using assms(4) by (simp add: writes(1) st(1))
  show ?thesis
  proof (cases a)
    case Event_loop
    then show ?thesis using writes assms(2,3) st(2) l
      by (cases "sets c") (auto simp: halt_ok_def agents_ok_def stores_def)
  next
    case Run_thread
    then show ?thesis using writes assms(2,3) st(2) l
      by (cases "mc_phase m") (auto simp: halt_ok_def agents_ok_def stores_def)
  next
    case Touch_thread
    then show ?thesis using writes assms(2,3) st(2) l
      by (auto simp: halt_ok_def agents_ok_def stores_def)
  qed
next
  case (reads a c b)
  then show ?thesis using assms(2,3) state_row_cong [of m' m env]
    by (cases a; cases b; cases "mc_phase m") (auto simp: halt_ok_def agents_ok_def stored_def)
next
  case (polled r k)
  then show ?thesis using assms(3) row_elsewhere [of m k m' env]
    by (auto simp: halt_ok_def stored_def split: sum.split)
next
  case (concludes rc t previous out res)
  show ?thesis
    by (rule halt_kept [OF assms(3)]) (use concludes assms(3,4) conclude_halted [of previous res] in \<open>auto simp: halt_ok_def state_row_def mc_db_def\<close>)
next
  case (raises rc t previous res e k)
  then show ?thesis using assms(4) by simp
qed (rule halt_kept [OF assms(3)]; use assms(2,3) in \<open>auto simp: halt_ok_def agents_ok_def stored_def state_row_def mc_db_def elsewhere_def recon_state_of_def access_defs split: if_splits\<close>)+

lemma set_status:
  assumes "thenE (set_state (we_cfg env) status reason ok disconnected) (ret x) w = (r, w')"
  shows "rs_status (recon_state_of (we_bot env) (db w')) = status"
proof -
  obtain st v where s: "set_state (we_cfg env) status reason ok disconnected w = (Inr st, v)" using set_state_result by blast
  show ?thesis using assms set_state_saved(1,2) [OF _ s] s by (auto simp: thenE_def bindE_apply disconnected_def)
qed

lemma fresh_start_status:
  "stored env (fresh_start env w) = (if rs_status (recon_state_of (we_bot env) (db w)) = HALTED then HALTED else CONNECTING)"
  "wk_connected (mc_worker (fresh_start env w)) = False"
proof -
  let ?set = "thenE (set_state (we_cfg env) CONNECTING ''worker starting'' False disconnected) (ret ())"
  obtain r1 w1 where s: "?set w = (r1, w1)" by (cases "?set w")
  show "stored env (fresh_start env w) = (if rs_status (recon_state_of (we_bot env) (db w)) = HALTED then HALTED else CONNECTING)"
    "wk_connected (mc_worker (fresh_start env w)) = False"
    using s set_status [OF s]
    by (auto simp: fresh_start_def stored_def state_row_def mc_db_def start_worker_def on_world_def get_recon_state_def whenE_def)
qed

lemma fresh_start_ok: "agents_ok env (fresh_start env w)" "health_ok env (fresh_start env w)"
    "rs_status (recon_state_of (we_bot env) (db w)) = HALTED \<Longrightarrow> halt_ok env (fresh_start env w)"
  using fresh_start_status [of env w]
  by (simp_all add: agents_ok_def health_ok_def halt_ok_def, simp_all add: fresh_start_def)

lemma steps_agents: "msteps env Split m ls m' \<Longrightarrow> agents_ok env m \<Longrightarrow> agents_ok env m'"
  by (induction rule: msteps.induct) (auto intro: step_agents)

lemma steps_health: "msteps env Split m ls m' \<Longrightarrow> agents_ok env m \<Longrightarrow> health_ok env m \<Longrightarrow> \<not> list_ex stale_touch ls \<Longrightarrow> health_ok env m'"
  by (induction rule: msteps.induct) (auto intro: step_health steps_agents)

lemma steps_halt: "msteps env Split m ls m' \<Longrightarrow> agents_ok env m \<Longrightarrow> halt_ok env m \<Longrightarrow> \<not> list_ex lifts_halt ls \<Longrightarrow> halt_ok env m'"
  by (induction rule: msteps.induct) (auto intro: step_halt steps_agents)

section \<open>What holds of the worker\<close>

text \<open>
  C25: the account is HEALTHY only while the stream is connected. In every state the worker, started on any ledger, can reach by any
  interleaving of the reads and writes of its event loop and its threads, with any behaviour of the exchange, the control plane,
  the notifier and the other processes: if the stored state is HEALTHY, the user data stream is subscribed, or a run with that verdict
  has not had its check yet, or the event loop is already storing another status. The condition is that the freshness heartbeat has
  not written an outdated HEALTHY over a row changed since it read it; the races below show that it can.
\<close>

theorem healthy_needs_stream:
  assumes "worker_contract env" "msteps env g (fresh_start env w) ls m" "\<not> list_ex stale_touch ls" "stored env m = HEALTHY"
  shows "mc_stream m = Subscribed \<or> healthy_run (mc_phase m) \<or> setting (mc_loop m)"
proof -
  have s: "msteps env Split (fresh_start env w) ls m" using worker_contract.all_split [OF assms(1,2)] .
  have "health_ok env m" "agents_ok env m"
    using steps_health [OF s _ _ assms(3)] steps_agents [OF s] fresh_start_ok by blast+
  then show ?thesis using assms(4) by (simp add: health_ok_def covered_def agents_ok_def)
qed

text \<open>
  C26: a halt survives restarts, disconnections and unacknowledged runs. A worker that starts on a HALTED account leaves the halt in force
  (stored, or the starting point of the run under way) and never stores HEALTHY, in any interleaving of the reads and writes of
  its event loop and its threads, until one of these happens: a run comes to a verdict that the operator acknowledged, or fails, or
  ends DEGRADED or with ambiguous orders pending, or an agent replaces HALTED by another status on the strength of a row it read before.
\<close>

theorem halt_survives:
  assumes "worker_contract env" "rs_status (recon_state_of (we_bot env) (db w)) = HALTED" "msteps env g (fresh_start env w) ls m"
    and "\<not> list_ex lifts_halt ls"
  shows "halt_in_force env m \<and> stored env m \<noteq> HEALTHY"
proof -
  have s: "msteps env Split (fresh_start env w) ls m" using worker_contract.all_split [OF assms(1,3)] .
  show ?thesis
    by (rule halt_ok_in_force, rule steps_halt [OF s _ _ assms(4)]) (use fresh_start_ok assms(2) in blast)+
qed

section \<open>Uninterrupted handlers as steps\<close>

lemma perform_result: "\<exists>rows. perform b (Due c x) w = (Inr (), w\<lparr>db := (db w)\<lparr>d_recon := rows\<rparr>\<rparr>)"
  by (simp add: write_back_def get_recon_state_def save_recon_result bindE_apply) blast

fun uninterrupted :: "label \<Rightarrow> bool" where
  "uninterrupted Silent = True"
| "uninterrupted (Wrote a based new old) = (a \<noteq> Touch_thread \<and> based = old)"
| "uninterrupted (Verdict ack s) = False"

lemma uninterrupted_harmless: "list_all uninterrupted ls \<Longrightarrow> \<not> list_ex stale_touch ls \<and> \<not> list_ex lifts_halt ls"
proof (induction ls)
  case (Cons l ls)
  then show ?case by (cases l) auto
qed simp

lemma access_steps:
  assumes "pc a m = Due c b" "perform (we_bot env) (Due c b) (wk_world (mc_worker m)) = (Inr (), w)"
  shows "msteps env g m [Silent, Wrote a (case b of None \<Rightarrow> stored env m | Some s \<Rightarrow> s) (stores c (state_row env m)) (stored env m)]
      ((set_pc a Rest m)\<lparr>mc_worker := (mc_worker m)\<lparr>wk_world := w\<rparr>\<rparr>)"
proof -
  let ?b = "case b of None \<Rightarrow> stored env m | Some s \<Rightarrow> s" and ?k = "(mc_worker m)\<lparr>wk_world := w\<rparr>"
  let ?h = "set_pc a (Held c ?b (state_row env m)) m"
  have h: "pc a ?h = Held c ?b (state_row env m)" "mc_worker ?h = mc_worker m" "set_pc a Rest ?h = set_pc a Rest m" by (cases a; simp)+
  have wr: "on_world (write_back c (state_row env m)) (mc_worker ?h) = (Inr (), ?k)"
    using assms(2) unfolding h(2) by (simp add: on_world_def state_row_def mc_db_def get_recon_state_def bindE_apply)
  have "stored env (?h\<lparr>mc_worker := ?k\<rparr>) = stores c (state_row env m)"
    using row_written [OF wr, of env "?h\<lparr>mc_worker := ?k\<rparr>"] by (simp add: stored_def)
  moreover have "stored env ?h = stored env m" using state_row_cong [OF h(2), of env] by (simp add: stored_def)
  ultimately have "mstep env g ?h (Wrote a ?b (stores c (state_row env m)) (stored env m)) ((set_pc a Rest m)\<lparr>mc_worker := ?k\<rparr>)"
    using mstep.writes [OF h(1) wr, of env g] h(3) by simp
  then show ?thesis using msteps.more [OF msteps_one [OF mstep.reads [OF assms(1)]]] by fastforce
qed

lemma loop_steps:
  assumes "mc_loop m = x" "x = Rest \<or> (\<exists>c b. x = Due c b \<and> (b = None \<or> b = Some (stored env m)))"
    "perform (we_bot env) x (wk_world (mc_worker m)) = (Inr (), w)"
  shows "\<exists>ls. msteps env g m ls (m\<lparr>mc_worker := (mc_worker m)\<lparr>wk_world := w\<rparr>, mc_loop := Rest\<rparr>) \<and> list_all uninterrupted ls"
proof (cases x)
  case Rest
  then have "m\<lparr>mc_worker := (mc_worker m)\<lparr>wk_world := w\<rparr>, mc_loop := Rest\<rparr> = m" using assms by (cases m) simp
  then show ?thesis using msteps.none [of env g m] by (intro exI [of _ "[]"]) simp
next
  case (Due c b)
  have eq: "(set_pc Event_loop Rest m)\<lparr>mc_worker := (mc_worker m)\<lparr>wk_world := w\<rparr>\<rparr>
      = m\<lparr>mc_worker := (mc_worker m)\<lparr>wk_world := w\<rparr>, mc_loop := Rest\<rparr>" by (cases m) simp
  have p: "pc Event_loop m = Due c b" "perform (we_bot env) (Due c b) (wk_world (mc_worker m)) = (Inr (), w)" using assms Due by simp_all
  have "b = None \<or> b = Some (stored env m)" using assms(2) Due by auto
  then show ?thesis using access_steps [OF p, of g, unfolded eq] by (intro exI conjI) (assumption, auto)
qed (use assms in auto)

text \<open>What each callback does when nothing comes between its steps is what the machine does.\<close>

lemma connecting_steps:
  assumes "on_connecting env d (mc_worker m) = (r, k)" "mc_stream m = Offline" "mc_loop m = Rest"
  shows "\<exists>ls. msteps env g m ls (m\<lparr>mc_worker := k, mc_stream := Connecting\<rparr>) \<and> list_all uninterrupted ls"
proof -
  let ?x = "connecting_access d (state_row env m)"
  let ?m = "m\<lparr>mc_worker := (mc_worker m)\<lparr>wk_connected := False\<rparr>, mc_stream := Connecting, mc_loop := ?x\<rparr>"
  obtain w where w: "perform (we_bot env) ?x (wk_world (mc_worker m)) = (Inr (), w)"
    using perform_result [of "we_bot env" _ _ "wk_world (mc_worker m)"] by (cases ?x) (auto simp: connecting_access_def split: if_splits)
  have "k = (mc_worker m)\<lparr>wk_connected := False, wk_world := w\<rparr>"
    using assms(1) w by (simp add: handlers_access(1) thenE_def bindE_apply on_world_def get_recon_state_def state_row_def mc_db_def)
  moreover have "\<exists>ls. msteps env g ?m ls (?m\<lparr>mc_worker := (mc_worker ?m)\<lparr>wk_world := w\<rparr>, mc_loop := Rest\<rparr>) \<and> list_all uninterrupted ls"
    by (rule loop_steps [of _ ?x]) (use w in \<open>auto simp: connecting_access_def stored_def state_row_def mc_db_def\<close>)
  then obtain ls where "msteps env g ?m ls (?m\<lparr>mc_worker := (mc_worker ?m)\<lparr>wk_world := w\<rparr>, mc_loop := Rest\<rparr>)" "list_all uninterrupted ls" by blast
  ultimately show ?thesis
    using msteps_trans [OF _ msteps_one [OF mstep.connecting [OF assms(2,3), of env g d]]] assms(3)
    by (cases m) (auto intro!: exI [of _ "Silent # ls"])
qed

lemma disconnected_steps:
  assumes "on_disconnected env d (mc_worker m) = (r, k)" "mc_stream m \<noteq> Offline" "mc_loop m = Rest"
  shows "\<exists>ls. msteps env g m ls (m\<lparr>mc_worker := k, mc_stream := Offline\<rparr>) \<and> list_all uninterrupted ls"
proof -
  let ?x = "disconnected_access d (state_row env m)"
  let ?m = "m\<lparr>mc_worker := (mc_worker m)\<lparr>wk_connected := False\<rparr>, mc_stream := Offline, mc_loop := ?x\<rparr>"
  obtain w where w: "perform (we_bot env) ?x (wk_world (mc_worker m)) = (Inr (), w)"
    using perform_result [of "we_bot env" _ _ "wk_world (mc_worker m)"] unfolding disconnected_access_def by blast
  have "k = (mc_worker m)\<lparr>wk_connected := False, wk_world := w\<rparr>"
    using assms(1) w by (simp add: handlers_access(2) thenE_def bindE_apply on_world_def get_recon_state_def state_row_def mc_db_def)
  moreover have "\<exists>ls. msteps env g ?m ls (?m\<lparr>mc_worker := (mc_worker ?m)\<lparr>wk_world := w\<rparr>, mc_loop := Rest\<rparr>) \<and> list_all uninterrupted ls"
    by (rule loop_steps [of _ ?x]) (use w in \<open>auto simp: disconnected_access_def stored_def state_row_def mc_db_def\<close>)
  then obtain ls where "msteps env g ?m ls (?m\<lparr>mc_worker := (mc_worker ?m)\<lparr>wk_world := w\<rparr>, mc_loop := Rest\<rparr>)" "list_all uninterrupted ls" by blast
  ultimately show ?thesis
    using msteps_trans [OF _ msteps_one [OF mstep.disconnected [OF assms(2,3), of env g d]]] assms(3)
    by (cases m) (auto intro!: exI [of _ "Silent # ls"])
qed

lemma subscribed_steps:
  assumes "on_subscribed env (mc_worker m) = (r, k)" "mc_stream m = Connecting" "mc_loop m = Rest"
  shows "\<exists>ls. msteps env g m ls (m\<lparr>mc_worker := k, mc_stream := Subscribed, mc_waiting := mc_waiting m @ [(SUBSCRIBED_REASON, False)]\<rparr>)
    \<and> list_all uninterrupted ls"
proof -
  let ?x = "Due Mark_connected None"
  let ?m = "m\<lparr>mc_worker := (mc_worker m)\<lparr>wk_connected := True\<rparr>, mc_stream := Subscribed, mc_loop := ?x,
    mc_waiting := mc_waiting m @ [(SUBSCRIBED_REASON, False)]\<rparr>"
  obtain w where w: "perform (we_bot env) ?x (wk_world (mc_worker m)) = (Inr (), w)"
    using perform_result [of "we_bot env" _ _ "wk_world (mc_worker m)"] by blast
  have "k = (mc_worker m)\<lparr>wk_connected := True, wk_world := w\<rparr>"
    using assms(1) w by (simp add: handlers_access(3) thenE_def bindE_apply on_world_def get_recon_state_def)
  moreover have "\<exists>ls. msteps env g ?m ls (?m\<lparr>mc_worker := (mc_worker ?m)\<lparr>wk_world := w\<rparr>, mc_loop := Rest\<rparr>) \<and> list_all uninterrupted ls"
    by (rule loop_steps [of _ ?x]) (use w in \<open>simp_all\<close>)
  then obtain ls where "msteps env g ?m ls (?m\<lparr>mc_worker := (mc_worker ?m)\<lparr>wk_world := w\<rparr>, mc_loop := Rest\<rparr>)" "list_all uninterrupted ls" by blast
  ultimately show ?thesis
    using msteps_trans [OF _ msteps_one [OF mstep.subscribed [OF assms(2,3), of env g]]] assms(3)
    by (cases m) (auto intro!: exI [of _ "Silent # ls"])
qed

lemma check_steps:
  assumes "check_connected env res (mc_worker m) = (r, k)" "mc_phase m = Ran res" "mc_loop m = Rest"
  shows "\<exists>ls. msteps env g m ls (m\<lparr>mc_worker := k, mc_phase := Idle\<rparr>) \<and> list_all uninterrupted ls"
proof -
  let ?x = "check_access (wk_connected (mc_worker m)) res"
  let ?m = "m\<lparr>mc_phase := Idle, mc_loop := ?x\<rparr>"
  obtain w where w: "perform (we_bot env) ?x (wk_world (mc_worker m)) = (Inr (), w)"
    using perform_result [of "we_bot env" _ _ "wk_world (mc_worker m)"] by (cases ?x) (auto simp: check_access_def split: if_splits)
  have "k = (mc_worker m)\<lparr>wk_world := w\<rparr>" using assms(1) w by (simp add: handlers_access(4) bindE_apply on_world_def)
  moreover have "\<exists>ls. msteps env g ?m ls (?m\<lparr>mc_worker := (mc_worker ?m)\<lparr>wk_world := w\<rparr>, mc_loop := Rest\<rparr>) \<and> list_all uninterrupted ls"
    by (rule loop_steps [of _ ?x]) (use w in \<open>auto simp: check_access_def\<close>)
  then obtain ls where "msteps env g ?m ls (?m\<lparr>mc_worker := (mc_worker ?m)\<lparr>wk_world := w\<rparr>, mc_loop := Rest\<rparr>)" "list_all uninterrupted ls" by blast
  ultimately show ?thesis
    using msteps_trans [OF _ msteps_one [OF mstep.checks [OF assms(2,3), of env g]]] assms(3)
    by (cases m) (auto intro!: exI [of _ "Silent # ls"])
qed

lemma run_first:
  fixes rc :: run_call
  assumes "mc_phase m = Idle" "mc_loop m = Rest" "mc_thread m = Rest" "mc_waiting m = (rl_reason rc, rl_ack rc) # rest"
    and "perform (we_bot env) (Due (marking rc) x) (wk_world (mc_worker m)) = (Inr (), w)"
  shows "\<exists>ls. msteps env g m ls (m\<lparr>mc_worker := (mc_worker m)\<lparr>wk_world := w\<rparr>, mc_waiting := rest,
       mc_phase := Looking rc (clk (wk_world (mc_worker m))) (state_row env m)\<rparr>) \<and> list_all uninterrupted ls"
proof -
  let ?t = "clk (wk_world (mc_worker m))" and ?p = "state_row env m"
  let ?m1 = "m\<lparr>mc_phase := Starting rc, mc_waiting := rest\<rparr>"
  let ?m2 = "?m1\<lparr>mc_phase := Marking rc ?t ?p, mc_thread := Due (marking rc) (Some (stored env m))\<rparr>"
  let ?m3 = "?m2\<lparr>mc_thread := Rest, mc_worker := (mc_worker m)\<lparr>wk_world := w\<rparr>\<rparr>"
  have rc: "rc = \<lparr>rl_nonce = rl_nonce rc, rl_reason = rl_reason rc, rl_ack = rl_ack rc\<rparr>" by simp
  have s1: "mstep env g m Silent ?m1" using mstep.begins [OF assms(1,2,4), of env g "rl_nonce rc"] rc by simp
  have same: "state_row env ?m1 = ?p" "stored env ?m1 = stored env m" "stored env ?m2 = stored env m" "state_row env ?m2 = ?p"
    by (simp_all add: stored_def state_row_def mc_db_def)
  have s2: "mstep env g ?m1 Silent ?m2" using mstep.starts [of ?m1 rc env g] unfolding same by simp
  have a: "pc Run_thread ?m2 = Due (marking rc) (Some (stored env m))"
    "perform (we_bot env) (Due (marking rc) (Some (stored env m))) (wk_world (mc_worker ?m2)) = (Inr (), w)"
    using assms(5) by simp_all
  have s3: "msteps env g ?m2 [Silent, Wrote Run_thread (stored env m) (stores (marking rc) ?p) (stored env m)] ?m3"
    using access_steps [OF a, of g] unfolding same by simp
  have s4: "mstep env g ?m3 Silent (?m3\<lparr>mc_phase := Looking rc ?t ?p\<rparr>)" by (rule mstep.marked) simp_all
  have e: "?m3\<lparr>mc_phase := Looking rc ?t ?p\<rparr> = m\<lparr>mc_worker := (mc_worker m)\<lparr>wk_world := w\<rparr>, mc_waiting := rest, mc_phase := Looking rc ?t ?p\<rparr>"
    using assms(3) by (cases m) simp
  show ?thesis
    using msteps_trans [OF msteps_one [OF s4] msteps_trans [OF s3 msteps_trans [OF msteps_one [OF s2] msteps_one [OF s1]]]]
    unfolding e by (intro exI conjI) (assumption, simp)
qed

lemma run_last:
  assumes "mc_phase m = Looking rc t previous" "mc_thread m = Rest" "look (we_sv env) rc t previous (wk_world (mc_worker m)) = (Inr out, w2)"
    and "res = conclude (we_cfg env) rc t previous out" "persist_run (we_cfg env) res (rl_reason rc) t w2 = (Inr (), w3)"
    and "perform (we_bot env) (Due (final_change res) None) w3 = (Inr (), w4)" "alert_run (we_cfg env) res w4 = (Inr (), w5)"
  shows "\<exists>ls. msteps env Whole m ls (m\<lparr>mc_worker := (mc_worker m)\<lparr>wk_world := w5\<rparr>, mc_phase := Ran res\<rparr>)
     \<and> list_all (\<lambda>l. uninterrupted l \<or> l = Verdict (rl_ack rc) (Some (rc_status res))) ls"
proof -
  let ?k = "mc_worker m"
  let ?m1 = "m\<lparr>mc_worker := ?k\<lparr>wk_world := w2\<rparr>, mc_phase := Looked rc t previous out\<rparr>"
  let ?m2 = "?m1\<lparr>mc_phase := Concluded rc t previous res\<rparr>"
  let ?m3 = "?m2\<lparr>mc_worker := ?k\<lparr>wk_world := w3\<rparr>, mc_phase := Saving rc previous res, mc_thread := Due (final_change res) None\<rparr>"
  let ?m4 = "?m3\<lparr>mc_thread := Rest, mc_worker := ?k\<lparr>wk_world := w4\<rparr>\<rparr>"
  let ?m5 = "?m4\<lparr>mc_worker := ?k\<lparr>wk_world := w5\<rparr>, mc_phase := Ran res\<rparr>"
  have s1: "mstep env Whole m Silent ?m1" by (rule mstep.looks [OF assms(1)]) (simp add: on_world_def assms(3))
  have s2: "mstep env Whole ?m1 (Verdict (rl_ack rc) (Some (rc_status res))) ?m2"
    by (rule mstep.concludes [where t = t and previous = previous and out = out]) (simp_all add: assms(4))
  have s3: "mstep env Whole ?m2 Silent ?m3"
    using mstep.persists [of ?m2 rc t previous res Whole env "?k\<lparr>wk_world := w3\<rparr>"] assms(5) by (simp add: on_world_def)
  have a: "pc Run_thread ?m3 = Due (final_change res) None"
    "perform (we_bot env) (Due (final_change res) None) (wk_world (mc_worker ?m3)) = (Inr (), w4)" using assms(6) by simp_all
  have s4: "msteps env Whole ?m3 [Silent, Wrote Run_thread (stored env ?m3) (stores (final_change res) (state_row env ?m3)) (stored env ?m3)] ?m4"
    using access_steps [OF a, of Whole] by simp
  have s5: "mstep env Whole ?m4 Silent ?m5"
    using mstep.saved [of ?m4 rc previous res Whole env "?k\<lparr>wk_world := w5\<rparr>"] assms(7) by (simp add: on_world_def)
  have e: "?m5 = m\<lparr>mc_worker := ?k\<lparr>wk_world := w5\<rparr>, mc_phase := Ran res\<rparr>" using assms(2) by (cases m) simp
  show ?thesis
    using msteps_trans [OF msteps_one [OF s5] msteps_trans [OF s4 msteps_trans [OF msteps_one [OF s3] msteps_trans [OF msteps_one [OF s2] msteps_one [OF s1]]]]]
    unfolding e by (intro exI conjI) (assumption, simp)
qed

lemma look_result: "\<exists>out w'. look sv rc t previous w = (Inr out, w')"
  by (cases "recon_body sv (rs_last_success previous) (run_key_of (sv_cfg sv) (rl_nonce rc) t)
            \<lparr>rx_world = w, rx_mismatches = [], rx_summary = [(''reason'', JStr (rl_reason rc))], rx_pending = 0\<rparr>") (simp add: look_def)

text \<open>A whole run, and with the check the whole \<^verbatim>\<open>reconcile\<close>.\<close>

lemma run_steps:
  fixes rc :: run_call
  assumes "recon_run (we_sv env) (rl_nonce rc) (rl_reason rc) (rl_ack rc) (wk_world (mc_worker m)) = (Inr res, w)"
    and "mc_phase m = Idle" "mc_loop m = Rest" "mc_thread m = Rest" "mc_waiting m = (rl_reason rc, rl_ack rc) # rest"
  shows "\<exists>ls. msteps env Whole m ls (m\<lparr>mc_worker := (mc_worker m)\<lparr>wk_world := w\<rparr>, mc_waiting := rest, mc_phase := Ran res\<rparr>)
     \<and> list_all (\<lambda>l. uninterrupted l \<or> l = Verdict (rl_ack rc) (Some (rc_status res))) ls"
proof -
  let ?w = "wk_world (mc_worker m)" and ?b = "we_bot env"
  let ?t = "clk ?w" and ?p = "state_row env m"
  have p: "recon_state_of ?b (db ?w) = ?p" by (simp add: state_row_def mc_db_def)
  obtain w1 where w1: "perform ?b (Due (marking rc) (Some (rs_status ?p))) ?w = (Inr (), w1)" using perform_result by blast
  have run: "bindE (look (we_sv env) rc ?t ?p) (\<lambda>out. let res = conclude (we_cfg env) rc ?t ?p out
       in thenE (persist_run (we_cfg env) res (rl_reason rc) ?t) (thenE (perform ?b (Due (final_change res) None))
            (thenE (alert_run (we_cfg env) res) (ret res)))) w1 = (Inr res, w)"
    using assms(1) unfolding recon_run_parts bindE_apply now_apply get_recon_state_def db_get_apply prod.case sum.case p
      thenE_def [of "perform ?b (Due (marking rc) (Some (rs_status ?p)))"] w1 .
  obtain out w2 where o: "look (we_sv env) rc ?t ?p w1 = (Inr out, w2)" using look_result by blast
  let ?res = "conclude (we_cfg env) rc ?t ?p out"
  have rest: "thenE (persist_run (we_cfg env) ?res (rl_reason rc) ?t) (thenE (perform ?b (Due (final_change ?res) None))
            (thenE (alert_run (we_cfg env) ?res) (ret ?res))) w2 = (Inr res, w)"
    using run unfolding bindE_apply o prod.case sum.case Let_def .
  obtain w3 w4 where parts: "persist_run (we_cfg env) ?res (rl_reason rc) ?t w2 = (Inr (), w3)"
    "perform ?b (Due (final_change ?res) None) w3 = (Inr (), w4)" "alert_run (we_cfg env) ?res w4 = (Inr (), w)" "res = ?res"
    using rest by (elim thenE_InrE thenE_ret_InrE) (metis old.unit.exhaust)
  let ?m1 = "m\<lparr>mc_worker := (mc_worker m)\<lparr>wk_world := w1\<rparr>, mc_waiting := rest, mc_phase := Looking rc ?t ?p\<rparr>"
  obtain ls where ls: "msteps env Whole m ls ?m1" "list_all uninterrupted ls" using run_first [OF assms(2-5) w1, of Whole] by blast
  obtain ls' where ls': "msteps env Whole ?m1 ls' (?m1\<lparr>mc_worker := (mc_worker ?m1)\<lparr>wk_world := w\<rparr>, mc_phase := Ran res\<rparr>)"
      "list_all (\<lambda>l. uninterrupted l \<or> l = Verdict (rl_ack rc) (Some (rc_status res))) ls'"
    using run_last [of ?m1 rc ?t ?p env out w2 ?res w3 w4 w] parts o assms(4) by auto
  have e: "?m1\<lparr>mc_worker := (mc_worker ?m1)\<lparr>wk_world := w\<rparr>, mc_phase := Ran res\<rparr>
      = m\<lparr>mc_worker := (mc_worker m)\<lparr>wk_world := w\<rparr>, mc_waiting := rest, mc_phase := Ran res\<rparr>" by simp
  show ?thesis using msteps_trans [OF ls'(1) ls(1)] ls(2) ls'(2) unfolding e
    by (intro exI conjI) (assumption, auto simp: list_all_iff)
qed

lemma reconcile_steps:
  fixes rc :: run_call
  assumes "reconcile env (rl_nonce rc) (rl_reason rc) (rl_ack rc) (mc_worker m) = (Inr res, k)"
    and "mc_phase m = Idle" "mc_loop m = Rest" "mc_thread m = Rest" "mc_waiting m = (rl_reason rc, rl_ack rc) # rest"
  shows "\<exists>ls. msteps env Whole m ls (m\<lparr>mc_worker := k, mc_waiting := rest\<rparr>)
     \<and> list_all (\<lambda>l. uninterrupted l \<or> l = Verdict (rl_ack rc) (Some (rc_status res))) ls"
proof -
  let ?k = "mc_worker m"
  obtain w where run: "recon_run (we_sv env) (rl_nonce rc) (rl_reason rc) (rl_ack rc) (wk_world ?k) = (Inr res, w)"
      and check: "check_connected env res (?k\<lparr>wk_world := w\<rparr>) = (Inr (), k)"
    using assms(1) by (auto simp: reconcile_def thenE_def bindE_apply on_world_def split: prod.splits sum.splits)
  let ?m1 = "m\<lparr>mc_worker := ?k\<lparr>wk_world := w\<rparr>, mc_waiting := rest, mc_phase := Ran res\<rparr>"
  obtain ls where ls: "msteps env Whole m ls ?m1" "list_all (\<lambda>l. uninterrupted l \<or> l = Verdict (rl_ack rc) (Some (rc_status res))) ls"
    using run_steps [OF run assms(2-5)] by blast
  obtain ls' where ls': "msteps env Whole ?m1 ls' (?m1\<lparr>mc_worker := k, mc_phase := Idle\<rparr>)" "list_all uninterrupted ls'"
    using check_steps [of env res ?m1 "Inr ()" k Whole] check assms(3) by auto
  have e: "?m1\<lparr>mc_worker := k, mc_phase := Idle\<rparr> = m\<lparr>mc_worker := k, mc_waiting := rest\<rparr>" using assms(2) by (cases m) simp
  show ?thesis using msteps_trans [OF ls'(1) ls(1)] ls(2) ls'(2) unfolding e
    by (intro exI conjI) (assumption, auto simp: list_all_iff)
qed

section \<open>A concrete worker\<close>

definition demo_worker :: "unit worker_env" where
  "demo_worker = \<lparr>we_sv = demo_services, we_client = demo_client 200, we_dispatcher = demo_dispatcher\<rparr>"

definition demo_start :: "unit world" where
  "demo_start = \<lparr>db = empty_ledger, depth = 0, clk = 0, ext = ()\<rparr>"

interpretation demo_worker: worker_contract demo_worker
proof (intro worker_contract.intro worker_contract_axioms.intro)
  have "sv_ex (we_sv demo_worker) = paper_executor demo_config" by (simp add: demo_worker_def demo_services_def)
  then show "order_execution (sv_ex (we_sv demo_worker))" using paper_orders.order_execution_axioms by metis
  show "dispatcher_ok (we_dispatcher demo_worker)"
    unfolding dispatcher_ok_def by (auto simp: demo_worker_def demo_dispatcher_def network_def world_same_times)
qed (auto simp: demo_worker_def demo_client_def demo_dispatcher_def get_control_def heartbeat_def send_def Let_def
    intro!: adds_intros keeps_intros split: jval.split, simp_all add: keeps_def only_new_def adv.P_refl)

lemma worker_cfg: "we_sv demo_worker = demo_services" "BOT_INSTANCE_ID (sv_cfg demo_services) = ''bot''"
  by (simp_all add: demo_worker_def demo_services_def demo_config_def)

text \<open>Nothing but the state row has been written.\<close>

definition untouched :: "'x world \<Rightarrow> bool" where
  "untouched w \<longleftrightarrow> no_books (db w) \<and> d_runs (db w) = []"

lemma perform_row:
  assumes "perform b (Due c x) w = (r, w')"
  shows "r = Inr ()" "rs_status (recon_state_of b (db w')) = stores c (recon_state_of b (db w))" "untouched w \<Longrightarrow> untouched w'" "clk w' = clk w"
  using assms by (auto simp: write_back_def get_recon_state_def save_recon_result bindE_apply recon_state_of_upsert changed_status untouched_def no_books_def)

lemma perform_any:
  assumes "x = Rest \<or> (\<exists>c b. x = Due c b)" "perform b x w = (r, w')"
  shows "r = Inr () \<and> (untouched w \<longrightarrow> untouched w') \<and> clk w' = clk w"
  using assms perform_row [of b _ _ w r w'] by (cases x) (auto simp del: perform.simps(2))

lemma connecting_row:
  assumes "on_connecting env d k = (r, k')"
  shows "\<not> wk_connected k' \<and> (untouched (wk_world k) \<longrightarrow> untouched (wk_world k'))
    \<and> rs_status (recon_state_of (we_bot env) (db (wk_world k')))
        = (if rs_status (recon_state_of (we_bot env) (db (wk_world k))) = HALTED then HALTED else CONNECTING)"
proof -
  let ?x = "connecting_access d (recon_state_of (we_bot env) (db (wk_world k)))"
  obtain r1 w where w: "perform (we_bot env) ?x (wk_world k) = (r1, w)" by fastforce
  have "k' = k\<lparr>wk_connected := False, wk_world := w\<rparr>"
    using assms w by (simp add: handlers_access(1) thenE_def bindE_apply on_world_def get_recon_state_def)
  then show ?thesis using w perform_any [OF _ w] perform_row(2) [of "we_bot env" _ _ "wk_world k" r1 w]
    by (auto simp: connecting_access_def stores_def simp del: perform.simps(2) split: if_splits)
qed

lemma disconnected_row:
  assumes "on_disconnected env d k = (r, k')"
  shows "\<not> wk_connected k' \<and> clk (wk_world k') = clk (wk_world k)"
proof -
  let ?x = "disconnected_access d (recon_state_of (we_bot env) (db (wk_world k)))"
  obtain r1 w where w: "perform (we_bot env) ?x (wk_world k) = (r1, w)" by fastforce
  have "k' = k\<lparr>wk_connected := False, wk_world := w\<rparr>"
    using assms w by (simp add: handlers_access(2) thenE_def bindE_apply on_world_def get_recon_state_def)
  then show ?thesis using perform_any [OF _ w] by (auto simp: disconnected_access_def)
qed

lemma subscribed_row:
  assumes "on_subscribed env k = (r, k')"
  shows "wk_connected k' \<and> (untouched (wk_world k) \<longrightarrow> untouched (wk_world k'))
    \<and> rs_status (recon_state_of (we_bot env) (db (wk_world k'))) = rs_status (recon_state_of (we_bot env) (db (wk_world k)))"
proof -
  obtain r1 w where w: "perform (we_bot env) (Due Mark_connected None) (wk_world k) = (r1, w)" by fastforce
  have "k' = k\<lparr>wk_connected := True, wk_world := w\<rparr>"
    using assms w by (simp add: handlers_access(3) thenE_def bindE_apply on_world_def get_recon_state_def)
  then show ?thesis using perform_row [OF w] by (simp add: stores_def)
qed

definition resting :: "'x machine \<Rightarrow> bool" where
  "resting m \<longleftrightarrow> mc_phase m = Idle \<and> mc_loop m = Rest \<and> mc_thread m = Rest \<and> mc_touch m = Rest"

text \<open>From any start that has no books yet, the worker connects and subscribes.\<close>

lemma demo_subscribed:
  assumes "untouched (wk_world (mc_worker (fresh_start demo_worker w)))"
  shows "\<exists>ls m. msteps demo_worker g (fresh_start demo_worker w) ls m \<and> list_all uninterrupted ls \<and> resting m \<and> mc_stream m = Subscribed
     \<and> wk_connected (mc_worker m) \<and> mc_waiting m = [(SUBSCRIBED_REASON, False)] \<and> untouched (wk_world (mc_worker m))
     \<and> stored demo_worker m = stored demo_worker (fresh_start demo_worker w)"
proof -
  let ?m0 = "fresh_start demo_worker w"
  have start: "mc_stream ?m0 = Offline" "mc_loop ?m0 = Rest" "resting ?m0" "mc_waiting ?m0 = []" by (simp_all add: fresh_start_def resting_def)
  obtain r1 k1 where c: "on_connecting demo_worker ''d'' (mc_worker ?m0) = (r1, k1)" by fastforce
  obtain r2 k2 where s: "on_subscribed demo_worker k1 = (r2, k2)" by fastforce
  let ?m1 = "?m0\<lparr>mc_worker := k1, mc_stream := Connecting\<rparr>"
  let ?m2 = "?m1\<lparr>mc_worker := k2, mc_stream := Subscribed, mc_waiting := mc_waiting ?m1 @ [(SUBSCRIBED_REASON, False)]\<rparr>"
  obtain ls1 where ls1: "msteps demo_worker g ?m0 ls1 ?m1" "list_all uninterrupted ls1" using connecting_steps [OF c start(1,2)] by blast
  obtain ls2 where ls2: "msteps demo_worker g ?m1 ls2 ?m2" "list_all uninterrupted ls2"
    using subscribed_steps [of demo_worker ?m1 r2 k2 g] s start(2) by auto
  have "untouched (wk_world k2)" "wk_connected k2" using connecting_row [OF c] subscribed_row [OF s] assms by simp_all
  moreover have "stored demo_worker ?m2 = stored demo_worker ?m0"
    using connecting_row [OF c] subscribed_row [OF s] fresh_start_status(1) [of demo_worker w]
    by (auto simp: stored_def state_row_def mc_db_def split: if_splits)
  moreover have "resting ?m2" using start(3) by (simp add: resting_def)
  ultimately show ?thesis using msteps_trans [OF ls2(1) ls1(1)] ls1(2) ls2(2) start(4)
    by (intro exI conjI) (assumption, simp_all)
qed

lemma demo_untouched: "untouched (wk_world (mc_worker (fresh_start demo_worker demo_start)))"
    "untouched (wk_world (mc_worker (fresh_start demo_worker halted_world)))"
proof -
  obtain st w where s: "set_state (we_cfg demo_worker) CONNECTING ''worker starting'' False disconnected demo_start = (Inr st, w)"
    using set_state_result by blast
  have "no_books (db w) \<and> d_runs (db w) = []"
    using s set_state_result [of "we_cfg demo_worker" CONNECTING "''worker starting''" False disconnected demo_start]
    by (auto simp: demo_start_def empty_ledger_def no_books_def)
  then show "untouched (wk_world (mc_worker (fresh_start demo_worker demo_start)))"
    using s by (auto simp: untouched_def fresh_start_def start_worker_def on_world_def get_recon_state_def whenE_def thenE_def bindE_apply
        demo_start_def empty_ledger_def no_books_def)
  show "untouched (wk_world (mc_worker (fresh_start demo_worker halted_world)))"
    by (simp add: untouched_def fresh_start_def start_worker_def on_world_def get_recon_state_def whenE_def worker_cfg halted_world_def
        recon_state_of_def empty_ledger_def no_books_def)
qed

lemma halted_start: "rs_status (recon_state_of (we_bot demo_worker) (db halted_world)) = HALTED"
  by (simp add: worker_cfg halted_world_def recon_state_of_def)

lemma run_status:
  assumes "recon_run sv nonce reason ack w = (Inr res, w')"
  shows "rs_status (recon_state_of (BOT_INSTANCE_ID (sv_cfg sv)) (db w')) = rc_status res"
proof (cases rule: recon_run_cases [of sv w nonce reason ack])
  case (failed e c r)
  then show ?thesis using assms failed_run_saved [of "sv_cfg sv" r reason "clk w" "rx_world c" res w'] by simp
next
  case (finished c r)
  then show ?thesis using assms finish_run_saved [of "sv_cfg sv" r reason "clk w" "rx_world c" res w'] by simp
qed

lemma demo_healthy:
  "\<exists>ls m. msteps demo_worker Whole (fresh_start demo_worker demo_start) ls m \<and> stored demo_worker m = HEALTHY
     \<and> mc_stream m = Subscribed \<and> resting m \<and> \<not> list_ex stale_touch ls"
proof -
  let ?m0 = "fresh_start demo_worker demo_start"
  let ?rc = "\<lparr>rl_nonce = ''n'', rl_reason = SUBSCRIBED_REASON, rl_ack = False\<rparr>"
  obtain ls m where m: "msteps demo_worker Whole ?m0 ls m" "list_all uninterrupted ls" "resting m" "mc_stream m = Subscribed"
      "wk_connected (mc_worker m)" "mc_waiting m = [(SUBSCRIBED_REASON, False)]" "untouched (wk_world (mc_worker m))"
      "stored demo_worker m = stored demo_worker ?m0"
    using demo_subscribed [OF demo_untouched(1)] by blast
  have "rs_status (recon_state_of ''bot'' (db (wk_world (mc_worker m)))) \<noteq> HALTED"
    using m(8) fresh_start_status(1) [of demo_worker demo_start]
    by (simp add: stored_def state_row_def mc_db_def worker_cfg demo_start_def empty_ledger_def recon_state_of_def)
  then obtain res w where run: "recon_run demo_services ''n'' SUBSCRIBED_REASON False (wk_world (mc_worker m)) = (Inr res, w)" "rc_status res = HEALTHY"
    using clean_run [of "wk_world (mc_worker m)" "''n''" False SUBSCRIBED_REASON] m(7) by (auto simp: untouched_def)
  let ?k = "(mc_worker m)\<lparr>wk_world := w\<rparr>"
  have "reconcile demo_worker ''n'' SUBSCRIBED_REASON False (mc_worker m) = (Inr res, ?k)"
    using run m(5) by (simp add: reconcile_def on_world_def check_connected_def worker_cfg bindE_apply thenE_def)
  then obtain ls' where ls': "msteps demo_worker Whole m ls' (m\<lparr>mc_worker := ?k, mc_waiting := []\<rparr>)"
      "list_all (\<lambda>l. uninterrupted l \<or> l = Verdict False (Some HEALTHY)) ls'"
    using reconcile_steps [of demo_worker ?rc m res ?k "[]"] m(3,6) run(2) by (auto simp: resting_def)
  have "rs_status (recon_state_of ''bot'' (db w)) = HEALTHY"
    using run_status [OF run(1)] run(2) by (simp add: worker_cfg)
  moreover have "\<not> stale_touch l" if "uninterrupted l \<or> l = Verdict False (Some HEALTHY)" for l using that by (cases l) auto
  then have "\<not> list_ex stale_touch (ls @ ls')" using ls'(2) m(2) by (auto simp: list_ex_iff list_all_iff)
  ultimately show ?thesis using msteps_trans [OF ls'(1) m(1)] m(3,4)
    by (intro exI conjI) (assumption, simp_all add: stored_def state_row_def mc_db_def worker_cfg resting_def)
qed

theorem healthy_needs_stream_witness:
  "\<exists>ls m. msteps demo_worker Whole (fresh_start demo_worker demo_start) ls m \<and> stored demo_worker m = HEALTHY \<and> resting m
     \<and> (mc_stream m = Subscribed \<or> healthy_run (mc_phase m) \<or> setting (mc_loop m))"
proof -
  obtain ls m where m: "msteps demo_worker Whole (fresh_start demo_worker demo_start) ls m" "\<not> list_ex stale_touch ls"
      "stored demo_worker m = HEALTHY" "resting m" using demo_healthy by blast
  show ?thesis using m healthy_needs_stream [OF demo_worker.worker_contract_axioms m(1-3)] by blast
qed

text \<open>An unacknowledged run that starts from a halt and finds nothing wrong; \<open>x\<close> is what the heartbeat does meanwhile.\<close>

lemma halted_run:
  fixes w :: "unit world"
  assumes "mc_phase m = Looking rc t previous" "mc_thread m = Rest" "rs_status previous = HALTED" "\<not> rl_ack rc" "untouched (wk_world (mc_worker m))"
  shows "\<exists>ls res w. msteps demo_worker Whole m ls (m\<lparr>mc_worker := (mc_worker m)\<lparr>wk_world := w\<rparr>, mc_phase := Ran res\<rparr>)
     \<and> rc_status res = HALTED \<and> rs_status (recon_state_of ''bot'' (db w)) = HALTED
     \<and> list_all (\<lambda>l. uninterrupted l \<or> l = Verdict False (Some HALTED)) ls"
proof -
  let ?w = "wk_world (mc_worker m)" and ?key = "run_key_of demo_config (rl_nonce rc) t"
  let ?c0 = "\<lparr>rx_world = ?w, rx_mismatches = [], rx_summary = [(''reason'', JStr (rl_reason rc))], rx_pending = 0\<rparr>"
  have cfg: "sv_cfg demo_services = demo_config" "BOT_INSTANCE_ID demo_config = ''bot''" by (simp_all add: demo_services_def demo_config_def)
  obtain c where c: "recon_body demo_services (rs_last_success previous) ?key ?c0 = (Inr (), c)" "rx_mismatches c = []" "rx_pending c = 0"
      "d_runs (db (rx_world c)) = []"
    using clean_body [of ?c0 "rs_last_success previous" ?key] assms(5) by (auto simp: untouched_def)
  let ?out = "(Inr () :: exn + unit, [] :: mismatch list, rx_summary c, 0 :: int)"
  let ?res = "conclude (we_cfg demo_worker) rc t previous ?out"
  have look: "look (we_sv demo_worker) rc t previous ?w = (Inr ?out, rx_world c)"
    using c by (simp add: look_def worker_cfg cfg)
  have res: "rc_status ?res = HALTED" "critical (rc_mismatches ?res) = []"
    using assms(3,4) by (simp_all add: conclude_def verdict_def critical_def)
  obtain w3 where w3: "persist_run (we_cfg demo_worker) ?res (rl_reason rc) t (rx_world c) = (Inr (), w3)"
    using persist_run_new [of ?res "rx_world c" "we_cfg demo_worker" "rl_reason rc" t] c(4) by auto
  obtain w4 where w4: "perform (we_bot demo_worker) (Due (final_change ?res) None) w3 = (Inr (), w4)"
    using perform_result by blast
  have w5: "alert_run (we_cfg demo_worker) ?res w4 = (Inr (), w4)" by (simp add: alert_run_def res(2))
  have "rs_status (recon_state_of ''bot'' (db w4)) = HALTED"
    using perform_row(2) [OF w4] res(1) by (simp add: worker_cfg stores_def final_change_def)
  then show ?thesis using run_last [OF assms(1,2) look refl w3 w4 w5] assms(4) res(1) by auto
qed

lemma demo_halted:
  "\<exists>ls m. msteps demo_worker Whole (fresh_start demo_worker halted_world) ls m \<and> list_all uninterrupted ls \<and> mc_stream m = Subscribed
     \<and> (\<exists>rc t previous. mc_phase m = Looking rc t previous \<and> rs_status previous = HALTED \<and> \<not> rl_ack rc)
     \<and> mc_loop m = Rest \<and> mc_thread m = Rest \<and> mc_touch m = Rest \<and> untouched (wk_world (mc_worker m)) \<and> stored demo_worker m = RECONCILING"
proof -
  let ?rc = "\<lparr>rl_nonce = ''n'', rl_reason = SUBSCRIBED_REASON, rl_ack = False\<rparr>"
  obtain ls m where m: "msteps demo_worker Whole (fresh_start demo_worker halted_world) ls m" "list_all uninterrupted ls" "resting m"
      "mc_stream m = Subscribed" "mc_waiting m = [(SUBSCRIBED_REASON, False)]" "untouched (wk_world (mc_worker m))"
      "stored demo_worker m = HALTED"
    using demo_subscribed [OF demo_untouched(2), of Whole] fresh_start_status(1) [of demo_worker halted_world] halted_start by auto
  obtain w where w: "perform (we_bot demo_worker) (Due (marking ?rc) None) (wk_world (mc_worker m)) = (Inr (), w)"
    using perform_result by blast
  let ?n = "m\<lparr>mc_worker := (mc_worker m)\<lparr>wk_world := w\<rparr>, mc_waiting := [],
       mc_phase := Looking ?rc (clk (wk_world (mc_worker m))) (state_row demo_worker m)\<rparr>"
  obtain ls' where ls': "msteps demo_worker Whole m ls' ?n" "list_all uninterrupted ls'"
    using run_first [of m ?rc "[]" demo_worker None w Whole] w m(3,5) by (auto simp: resting_def)
  have "stored demo_worker ?n = RECONCILING" "untouched w"
    using perform_row [OF w] m(6) by (simp_all add: stored_def state_row_def mc_db_def stores_def marking_def)
  then show ?thesis using msteps_trans [OF ls'(1) m(1)] m(2-4,7) ls'(2)
    by (intro exI conjI) (assumption, (simp add: resting_def stored_def)+)
qed

theorem halt_survives_witness:
  "\<exists>ls m. msteps demo_worker Whole (fresh_start demo_worker halted_world) ls m \<and> mc_stream m = Subscribed
     \<and> halt_in_force demo_worker m \<and> stored demo_worker m \<noteq> HEALTHY"
proof -
  obtain ls m where m: "msteps demo_worker Whole (fresh_start demo_worker halted_world) ls m" "list_all uninterrupted ls" "mc_stream m = Subscribed"
    using demo_halted by blast
  have "\<not> list_ex lifts_halt ls" using uninterrupted_harmless [OF m(2)] by blast
  from halt_survives [OF demo_worker.worker_contract_axioms halted_start m(1) this] m show ?thesis by blast
qed

section \<open>The races\<close>

text \<open>The heartbeat, with the steps between its reading of the row and its writing given.\<close>

lemma touch_steps:
  fixes env :: "'x worker_env"
  assumes "mc_touch m = Rest"
  defines "m1 \<equiv> m\<lparr>mc_touch := Held Refresh (stored env m) (state_row env m)\<rparr>"
  assumes "msteps env g m1 ls m2" "mc_touch m2 = mc_touch m1"
  shows "\<exists>w. msteps env g m ([Silent, Silent] @ ls @ [Wrote Touch_thread (stored env m) (stored env m) (stored env m2)])
        (m2\<lparr>mc_touch := Rest, mc_worker := (mc_worker m2)\<lparr>wk_world := w\<rparr>\<rparr>)
     \<and> rs_status (recon_state_of (we_bot env) (db w)) = stored env m \<and> clk w = clk (wk_world (mc_worker m2))
     \<and> rs_last_success (recon_state_of (we_bot env) (db w)) = rs_last_success (state_row env m)
     \<and> rs_updated (recon_state_of (we_bot env) (db w)) = Some (clk w)"
proof -
  let ?row = "state_row env m" and ?w = "wk_world (mc_worker m2)"
  let ?m0 = "m\<lparr>mc_touch := Due Refresh None\<rparr>"
  have "msteps env g m [Silent] ?m0" by (rule msteps_one [OF mstep.touches [OF assms(1)]])
  moreover have "mstep env g ?m0 Silent m1"
    using mstep.reads [of Touch_thread ?m0 Refresh None env g] by (simp add: m1_def stored_def state_row_def mc_db_def)
  ultimately have first: "msteps env g m [Silent, Silent] m1" using msteps.more by fastforce
  obtain w where wr: "write_back Refresh ?row ?w = (Inr (), w)" and w: "recon_state_of (we_bot env) (db w) = ?row\<lparr>rs_updated := Some (clk ?w)\<rparr>" "clk w = clk ?w"
    by (simp add: write_back_def save_recon_result recon_state_of_upsert)
  let ?k = "(mc_worker m2)\<lparr>wk_world := w\<rparr>"
  have "pc Touch_thread m2 = Held Refresh (stored env m) ?row" using assms(4) by (simp add: m1_def)
  from mstep.writes [OF this, of ?k env g] wr
  have "mstep env g m2 (Wrote Touch_thread (stored env m) (stored env (m2\<lparr>mc_worker := ?k\<rparr>)) (stored env m2))
      (m2\<lparr>mc_touch := Rest, mc_worker := ?k\<rparr>)" by (simp add: on_world_def)
  moreover have "stored env (m2\<lparr>mc_worker := ?k\<rparr>) = stored env m" by (simp add: stored_def state_row_def mc_db_def w(1))
  ultimately have last: "msteps env g m2 [Wrote Touch_thread (stored env m) (stored env m) (stored env m2)] (m2\<lparr>mc_touch := Rest, mc_worker := ?k\<rparr>)"
    using msteps_one by metis
  show ?thesis using msteps_trans [OF last msteps_trans [OF assms(3) first]] w by (intro exI [of _ w]) (simp add: stored_def)
qed

text \<open>
  C29: the state row has lost updates, with the code of every call executed as it is. The freshness heartbeat reads the row and writes it back in two statements. In the first run a
  disconnection comes between them: afterwards the stream is down, no agent is at work, and yet the stored state is HEALTHY and fresh, so that the
  trading worker may enter the market. In the second run, from a HALTED account, the heartbeat reads the row while an unacknowledged run is
  under way and writes it back after the run has stored its verdict HALTED: the account is left RECONCILING and the halt is
  no longer in force, although nothing else in the run could have lifted it.
\<close>

theorem stored_state_races:
  "(\<exists>ls m. msteps demo_worker Whole (fresh_start demo_worker demo_start) ls m \<and> resting m \<and> mc_stream m = Offline
      \<and> allows_entries (state_row demo_worker m) (clk (wk_world (mc_worker m))) 90)
   \<and> (\<exists>ls m. msteps demo_worker Whole (fresh_start demo_worker halted_world) ls m \<and> resting m
      \<and> stored demo_worker (fresh_start demo_worker halted_world) = HALTED \<and> \<not> halt_in_force demo_worker m \<and> stored demo_worker m = RECONCILING
      \<and> filter lifts_halt ls = [Wrote Touch_thread RECONCILING RECONCILING HALTED])"
proof
  obtain ls m where m: "msteps demo_worker Whole (fresh_start demo_worker demo_start) ls m" "stored demo_worker m = HEALTHY"
      "mc_stream m = Subscribed" "resting m" using demo_healthy by blast
  let ?m1 = "m\<lparr>mc_touch := Held Refresh (stored demo_worker m) (state_row demo_worker m)\<rparr>"
  obtain r k where d: "on_disconnected demo_worker ''closed'' (mc_worker ?m1) = (r, k)" by fastforce
  let ?m2 = "?m1\<lparr>mc_worker := k, mc_stream := Offline\<rparr>"
  obtain ls2 where ls2: "msteps demo_worker Whole ?m1 ls2 ?m2"
    using disconnected_steps [OF d, of Whole] m(3,4) by (auto simp: resting_def)
  obtain w where w: "msteps demo_worker Whole m ([Silent, Silent] @ ls2 @ [Wrote Touch_thread (stored demo_worker m) (stored demo_worker m) (stored demo_worker ?m2)])
        (?m2\<lparr>mc_touch := Rest, mc_worker := (mc_worker ?m2)\<lparr>wk_world := w\<rparr>\<rparr>)"
      "rs_status (recon_state_of (we_bot demo_worker) (db w)) = HEALTHY" "rs_updated (recon_state_of (we_bot demo_worker) (db w)) = Some (clk w)"
    using touch_steps [OF _ ls2] m(2,4) by (auto simp: resting_def)
  then show "\<exists>ls m. msteps demo_worker Whole (fresh_start demo_worker demo_start) ls m \<and> resting m \<and> mc_stream m = Offline
      \<and> allows_entries (state_row demo_worker m) (clk (wk_world (mc_worker m))) 90"
    using msteps_trans [OF w(1) m(1)] m(4)
    by (intro exI conjI) (assumption, simp_all add: resting_def state_row_def mc_db_def allows_entries_def fresh_def seconds_def)
next
  obtain ls m rc t p where m: "msteps demo_worker Whole (fresh_start demo_worker halted_world) ls m" "list_all uninterrupted ls"
      "mc_phase m = Looking rc t p" "rs_status p = HALTED" "\<not> rl_ack rc"
      "mc_loop m = Rest" "mc_thread m = Rest" "mc_touch m = Rest" "untouched (wk_world (mc_worker m))" "stored demo_worker m = RECONCILING"
    using demo_halted by blast
  let ?m1 = "m\<lparr>mc_touch := Held Refresh (stored demo_worker m) (state_row demo_worker m)\<rparr>"
  obtain ls2 res w2 where ls2: "msteps demo_worker Whole ?m1 ls2 (?m1\<lparr>mc_worker := (mc_worker ?m1)\<lparr>wk_world := w2\<rparr>, mc_phase := Ran res\<rparr>)"
      "rc_status res = HALTED" "rs_status (recon_state_of ''bot'' (db w2)) = HALTED" "list_all (\<lambda>l. uninterrupted l \<or> l = Verdict False (Some HALTED)) ls2"
    using halted_run [of ?m1 rc t p] m(3-5,7,9) by auto
  let ?m2 = "?m1\<lparr>mc_worker := (mc_worker ?m1)\<lparr>wk_world := w2\<rparr>, mc_phase := Ran res\<rparr>"
  have st2: "stored demo_worker ?m2 = HALTED" using ls2(3) by (simp add: stored_def state_row_def mc_db_def worker_cfg)
  obtain w where w: "msteps demo_worker Whole m ([Silent, Silent] @ ls2 @ [Wrote Touch_thread RECONCILING RECONCILING HALTED])
        (?m2\<lparr>mc_touch := Rest, mc_worker := (mc_worker ?m2)\<lparr>wk_world := w\<rparr>\<rparr>)"
      "rs_status (recon_state_of (we_bot demo_worker) (db w)) = RECONCILING"
    using touch_steps [OF m(8) ls2(1)] m(10) st2 by auto
  let ?m3 = "?m2\<lparr>mc_touch := Rest, mc_worker := (mc_worker ?m2)\<lparr>wk_world := w\<rparr>\<rparr>"
  let ?m4 = "?m3\<lparr>mc_phase := Idle, mc_loop := Rest\<rparr>"
  have "mstep demo_worker Whole ?m3 Silent ?m4"
    using mstep.checks [of ?m3 res demo_worker Whole] m(6) ls2(2) by (simp add: check_access_def)
  then have run: "msteps demo_worker Whole (fresh_start demo_worker halted_world) ((ls @ [Silent, Silent] @ ls2 @ [Wrote Touch_thread RECONCILING RECONCILING HALTED]) @ [Silent]) ?m4"
    by (rule msteps.more [OF msteps_trans [OF w(1) m(1)]])
  have none: "filter lifts_halt xs = []" if "list_all (\<lambda>l. uninterrupted l \<or> l = Verdict False (Some HALTED)) xs" for xs
    using that
  proof (induction xs)
    case (Cons l xs)
    then show ?case by (cases l) auto
  qed simp
  have "filter lifts_halt ls = []" by (rule none) (use m(2) in \<open>auto simp: list_all_iff\<close>)
  then show "\<exists>ls m. msteps demo_worker Whole (fresh_start demo_worker halted_world) ls m \<and> resting m
      \<and> stored demo_worker (fresh_start demo_worker halted_world) = HALTED \<and> \<not> halt_in_force demo_worker m \<and> stored demo_worker m = RECONCILING
      \<and> filter lifts_halt ls = [Wrote Touch_thread RECONCILING RECONCILING HALTED]"
    using run none [OF ls2(4)] w(2) m(7) fresh_start_status(1) [of demo_worker halted_world] halted_start
    by (intro exI conjI) (assumption, simp_all add: resting_def halt_in_force_def stored_def state_row_def mc_db_def)
qed

section \<open>Only advancing the ledger\<close>

lemma safe_edit [keeps_intros]: "safe (edit_state b change)" "safe (touch cfg)" "safe (write_back c st)"
  unfolding edit_state_def touch_def write_back_def by (intro keeps_intros)+

definition ahead :: "'x worker \<Rightarrow> 'x worker \<Rightarrow> bool" where
  "ahead k k' \<longleftrightarrow> advances (wk_world k) (wk_world k')"

interpretation ahead: step_preorder ahead
  by unfold_locales (auto simp: ahead_def intro: adv.P_refl adv.P_trans)

lemma ahead_on_world [keeps_intros]: "safe f \<Longrightarrow> keeps ahead (on_world f)"
  by (rule keepsI) (auto simp: ahead_def on_world_def split: prod.split dest: keepsD)

lemma ahead_start: "keeps ahead (start_worker env)"
  unfolding start_worker_def by (intro keeps_intros)

lemma ahead_same: "wk_world k' = wk_world k \<Longrightarrow> ahead k k'" "elsewhere k k' \<Longrightarrow> ahead k k'"
  by (simp_all add: ahead_def elsewhere_def adv.P_refl)

lemma step_ahead:
  assumes "mstep env Split m l m'"
  shows "ahead (mc_worker m) (mc_worker m')"
  using assms
proof (cases rule: mstep.cases)
  case (polled r k)
  then show ?thesis by (auto simp: ahead_same split: sum.split)
next
  case (reads a c b)
  then show ?thesis by (cases a) (simp_all add: ahead_same)
next
  case (writes a c b st k)
  have "ahead (mc_worker m) k" by (rule keepsD [OF ahead_on_world [OF safe_edit(3)] writes(4)])
  then show ?thesis by (cases a) (simp_all add: writes(2))
qed (simp_all add: ahead_same)

lemma steps_ahead: "msteps env Split m ls m' \<Longrightarrow> ahead (mc_worker m) (mc_worker m')"
  by (induction rule: msteps.induct) (auto intro: ahead.P_refl ahead.P_trans step_ahead)

context worker_contract
begin

lemma safe_trading_round:
  assumes "quiet_cycle ce"
  shows "safe (trading_round env ce t sched)"
  unfolding trading_round_def
  by (cases sched) (auto intro!: keeps_intros safe_heartbeat safe_worker_flush quiet_cycle.safe_run_once [OF assms])

end

text \<open>
  Whatever the reconciliation worker's tasks do and however they interleave, from the start of the process on, the ledger
  keeps its invariant and only advances: no record is lost, no order moves backwards.
\<close>

theorem worker_advances:
  assumes "worker_contract env" "msteps env g (fresh_start env w) ls m"
  shows "advances w (wk_world (mc_worker m))"
proof -
  have "ahead \<lparr>wk_world = w, wk_connected = False\<rparr> (mc_worker (fresh_start env w))"
    using keepsS [OF ahead_start, of "\<lparr>wk_world = w, wk_connected = False\<rparr>" env] by (simp add: fresh_start_def)
  then have "ahead \<lparr>wk_world = w, wk_connected = False\<rparr> (mc_worker m)"
    using steps_ahead [OF worker_contract.all_split [OF assms]] by (rule ahead.P_trans)
  then show ?thesis by (simp add: ahead_def)
qed

theorem worker_advances_witness:
  "\<exists>ls m. msteps demo_worker Whole (fresh_start demo_worker demo_start) ls m \<and> stored demo_worker m = HEALTHY
     \<and> ledger_inv (db (wk_world (mc_worker m)))"
proof -
  obtain ls m where m: "msteps demo_worker Whole (fresh_start demo_worker demo_start) ls m" "stored demo_worker m = HEALTHY"
    using demo_healthy by blast
  have "advances demo_start (wk_world (mc_worker m))" by (rule worker_advances [OF demo_worker.worker_contract_axioms m(1)])
  then show ?thesis using m ledger_inv_empty by (auto simp: advances_def demo_start_def)
qed

section \<open>The trading worker goes on\<close>

lemma trading_round_returns:
  "fst (trading_round env ce t (c, b) w) = Inr
     (if c \<le> t then fadd t (of_int (LOOP_INTERVAL_SECONDS (ce_cfg ce))) else c,
      if b \<le> t then fadd t (of_int (HEARTBEAT_INTERVAL_SECONDS (ce_cfg ce))) else b)"
proof -
  have q: "\<exists>w'. quietly m w = (Inr (), w')" for m :: "('x world, 'b) eff" and w
    using quietly_returns [of m w] by (metis prod.collapse)
  have guarded: "\<exists>w'. whenE P (quietly m) w = (Inr (), w')" for P w and m :: "('x world, 'b) eff"
    by (cases P) (simp_all add: q)
  obtain w1 where w1: "whenE (b \<le> t) (worker_heartbeat env ''trading'') w = (Inr (), w1)" unfolding worker_heartbeat_def using guarded by blast
  obtain w2 where w2: "whenE (c \<le> t) (quietly (run_once ce)) w1 = (Inr (), w2)" using guarded by blast
  obtain w3 where w3: "worker_flush env w2 = (Inr (), w3)" unfolding worker_flush_def using q by blast
  show ?thesis by (simp add: trading_round_def thenE_def bindE_apply w1 w2 w3)
qed

text \<open>
  Nothing that happens in a round stops the trading worker. Whatever the heartbeat, the cycle or the flush raise,
  a round returns the times the next cycle and heartbeat are due, one interval after the round that ran them, and
  the loop goes through all its rounds and only advances the ledger.
\<close>

theorem trading_loop_contained:
  assumes "worker_contract env" "fst (build cfg su unpickle sklearn ld) = Inr ce"
  shows "safe (trading_loop env ce ts sched) \<and> (\<exists>due'. fst (trading_loop env ce ts sched w) = Inr due')
    \<and> fst (trading_round env ce t (c, b) w) = Inr
       (if c \<le> t then fadd t (of_int (LOOP_INTERVAL_SECONDS (ce_cfg ce))) else c,
        if b \<le> t then fadd t (of_int (HEARTBEAT_INTERVAL_SECONDS (ce_cfg ce))) else b)"
proof (intro conjI)
  show "safe (trading_loop env ce ts sched)"
    by (induction ts arbitrary: sched)
      (auto intro!: keeps_intros worker_contract.safe_trading_round [OF assms(1) built_quiet [OF assms(2)]])
  show "\<exists>due'. fst (trading_loop env ce ts sched w) = Inr due'"
  proof (induction ts arbitrary: sched w)
    case (Cons t ts)
    obtain x w1 where "trading_round env ce t sched w = (Inr x, w1)"
      using trading_round_returns [of env ce t "fst sched" "snd sched" w] by (metis prod.collapse)
    then show ?case using Cons.IH [of x w1] by (simp add: bindE_apply)
  qed simp
qed (rule trading_round_returns)

definition demo_live_worker :: "unit outer worker_env" where
  "demo_live_worker = assemble_worker demo_config (demo_surroundings False) (\<lambda>_ _ y. (Inl (Other ''timeout''), y, 1)) ''p'' (paper_executor demo_config)"

theorem trading_loop_contained_witness:
  "ledger_inv (db (snd (trading_loop demo_live_worker (demo_engine False) [0, 1, 950] (0, 0) outer_world)))
   \<and> (\<exists>due'. fst (trading_loop demo_live_worker (demo_engine False) [0, 1, 950] (0, 0) outer_world) = Inr due')"
proof -
  have "worker_contract demo_live_worker" unfolding demo_live_worker_def by (rule paper_worker.worker_contract_axioms)
  from trading_loop_contained [OF this demo_built [of False], of "[0, 1, 950]" "(0, 0)" outer_world]
  have r: "safe (trading_loop demo_live_worker (demo_engine False) [0, 1, 950] (0, 0))"
    "\<exists>due'. fst (trading_loop demo_live_worker (demo_engine False) [0, 1, 950] (0, 0) outer_world) = Inr due'" by blast+
  have "advances outer_world (snd (trading_loop demo_live_worker (demo_engine False) [0, 1, 950] (0, 0) outer_world))"
    by (rule keepsS [OF r(1)])
  then show ?thesis using r(2) ledger_inv_empty by (simp add: advances_def outer_world_def)
qed

end
