(* ===== verification/Stream_Client.thy ===== *)
theory Stream_Client
  imports Rest_Client Reconciliation "HOL-Library.Sublist"
begin

text \<open>
  The user data stream client \<^verbatim>\<open>engine/exchanges/binance/websocket_client.py\<close>: what it does with a frame, how a session
  is opened and watched, and the reconnection loop with its callbacks. The connection, the frames, the answers to
  requests and the random jitter are arguments (the fields of a \<open>script\<close> say what happens in one session); the client
  has no state of its own besides the number of failed attempts and the futures of its requests.
\<close>

section \<open>Frames\<close>

text \<open>The state of a stream around the state \<open>'w\<close> its callbacks work on; a request waits until its future has a result.\<close>

record 'w stream =
  ws_world :: 'w
  ws_attempt :: nat
  ws_pending :: "(string \<times> payload option) list"

definition on_callback :: "('w, 'a) eff \<Rightarrow> ('w stream, 'a) eff" where
  "on_callback m s = (case m (ws_world s) of (r, w) \<Rightarrow> (r, s\<lparr>ws_world := w\<rparr>))"

definition frame_event :: "payload \<Rightarrow> payload option" where
  "frame_event msg = (case map_of msg ''event'' of
     Some (JObj ev) \<Rightarrow> Some ev
   | _ \<Rightarrow> if jtrue (got ''e'' msg) then Some msg else None)"

text \<open>\<^verbatim>\<open>msg.get("id") in self._pending\<close>: a list or an object cannot be looked up.\<close>

definition answered :: "(string \<times> payload option) list \<Rightarrow> payload \<Rightarrow> exn + string option" where
  "answered pending msg = (case map_of msg ''id'' of
     None \<Rightarrow> Inr None
   | Some (JStr i) \<Rightarrow> Inr (if map_of pending i \<noteq> None then Some i else None)
   | Some (JObj d) \<Rightarrow> Inl type_error
   | Some (JArr xs) \<Rightarrow> Inl type_error
   | Some j \<Rightarrow> Inr None)"

definition deliver_frame :: "(payload \<Rightarrow> ('w, unit) eff) \<Rightarrow> payload \<Rightarrow> ('w stream, unit) eff" where
  "deliver_frame on_event msg = (case frame_event msg of
     None \<Rightarrow> ret ()
   | Some ev \<Rightarrow>
       if got ''e'' ev = JStr ''serverShutdown'' then raise (StaleConnection ''serverShutdown received'')
       else thenE (on_callback (on_event msg))
              (whenE (got ''e'' ev = JStr ''eventStreamTerminated'') (raise (StaleConnection ''eventStreamTerminated''))))"

text \<open>A frame is any JSON value; \<^verbatim>\<open>msg.get\<close> fails on what is not an object, \<^verbatim>\<open>in\<close> already on numbers.\<close>

fun as_frame :: "jval \<Rightarrow> exn + payload" where
  "as_frame (JObj d) = Inr d"
| "as_frame (JArr xs) = Inl (AttributeError ''get'')"
| "as_frame (JStr t) = Inl (AttributeError ''get'')"
| "as_frame j = Inl type_error"

definition read_frame :: "(payload \<Rightarrow> ('w, unit) eff) \<Rightarrow> jval \<Rightarrow> ('w stream, unit) eff" where
  "read_frame on_event frame = bindE (liftE (as_frame frame)) (\<lambda>msg.
     bindE (getE ws_pending) (\<lambda>pending. bindE (liftE (answered pending msg)) (\<lambda>a. case a of
       Some i \<Rightarrow> whenE (map_of pending i = Some None) (updE (\<lambda>s. s\<lparr>ws_pending := AList.update i (Some msg) (ws_pending s)\<rparr>))
     | None \<Rightarrow> deliver_frame on_event msg)))"

definition read_frames :: "(payload \<Rightarrow> ('w, unit) eff) \<Rightarrow> jval list \<Rightarrow> ('w stream, unit) eff" where
  "read_frames on_event frames = forE frames (read_frame on_event)"

section \<open>A session\<close>

text \<open>What \<^verbatim>\<open>asyncio.wait\<close> finds at the end of a ping interval: the reader has ended, or an answer to a ping (or none in time).\<close>

datatype watch = Reader_ended "exn option" | Pinged "payload option"

record script =
  sc_connect :: "exn option"
  sc_now_ms :: int
  sc_answer :: "payload option"
  sc_watch :: "watch list"
  sc_stopped :: bool
  sc_jitter :: rat

record stream_env =
  se_hmac :: "string \<Rightarrow> string \<Rightarrow> string"
  se_api_key :: string
  se_secret :: string
  se_window :: int
  se_timeout :: int
  se_max_backoff :: int

text \<open>\<^verbatim>\<open>_request\<close>: the answer to a request, or a stale connection when it does not come in time.\<close>

definition answer_of :: "stream_env \<Rightarrow> string \<Rightarrow> payload option \<Rightarrow> exn + payload" where
  "answer_of env method a = (case a of
     None \<Rightarrow> Inl (StaleConnection (''no response to '' @ method @ '' within '' @ str_int (se_timeout env) @ ''s''))
   | Some msg \<Rightarrow> Inr msg)"

definition status_ok :: "payload \<Rightarrow> bool" where
  "status_ok msg \<longleftrightarrow> got ''status'' msg = JInt 200 \<or> got ''status'' msg = JDec 200"

text \<open>\<^verbatim>\<open>f"{x}"\<close> of a value, and \<^verbatim>\<open>d.get(k, {}).get(k')\<close>.\<close>

definition nested :: "string \<Rightarrow> string \<Rightarrow> jval \<Rightarrow> payload \<Rightarrow> exn + string" where
  "nested k k' v d = (case dict_get d k (JObj []) of
     JObj x \<Rightarrow> str_of (dict_get x k' v)
   | _ \<Rightarrow> Inl (AttributeError ''get''))"

definition subscription :: "stream_env \<Rightarrow> payload option \<Rightarrow> exn + payload" where
  "subscription env a = bindR (answer_of env ''userDataStream.subscribe.signature'' a) (\<lambda>sub.
     if status_ok sub then Inr sub
     else bindR (str_of (got ''status'' sub)) (\<lambda>st. bindR (nested ''error'' ''msg'' (JStr []) sub) (\<lambda>m.
       Inl (SubscriptionFailed (''status '' @ st @ '': '' @ m)))))"

fun watch_session :: "stream_env \<Rightarrow> watch list \<Rightarrow> exn + unit" where
  "watch_session env [] = Inr ()"
| "watch_session env (Reader_ended e # ws) = (case e of None \<Rightarrow> Inr () | Some e \<Rightarrow> Inl e)"
| "watch_session env (Pinged a # ws) = bindR (answer_of env ''ping'' a) (\<lambda>pong.
     if status_ok pong then watch_session env ws
     else bindR (str_of (got ''status'' pong)) (\<lambda>st. Inl (StaleConnection (''ping status '' @ st))))"

definition session :: "stream_env \<Rightarrow> (string \<Rightarrow> string \<Rightarrow> ('w, unit) eff) \<Rightarrow> script \<Rightarrow> ('w stream, unit) eff" where
  "session env on_state sc =
     bindE (liftE (case sc_connect sc of Some e \<Rightarrow> Inl e | None \<Rightarrow> Inr ())) (\<lambda>_ s.
       case bindE (liftE (signed_ws_params (se_hmac env)
              [(''apiKey'', JStr (se_api_key env)), (''timestamp'', JInt (sc_now_ms sc)), (''recvWindow'', JInt (se_window env))] (se_secret env)))
            (\<lambda>_. bindE (liftE (subscription env (sc_answer sc))) (\<lambda>sub.
              thenE (updE (\<lambda>s. s\<lparr>ws_attempt := 0\<rparr>))
              (bindE (liftE (nested ''result'' ''subscriptionId'' JNull sub)) (\<lambda>i.
                thenE (on_callback (on_state ''SUBSCRIBED'' (''subscriptionId='' @ i))) (liftE (watch_session env (sc_watch sc))))))) s of
         (r, s) \<Rightarrow> (r, s\<lparr>ws_pending := []\<rparr>))"

section \<open>Reconnecting\<close>

text \<open>The jitter \<open>u\<close> is the value of \<^verbatim>\<open>random.random()\<close> that \<^verbatim>\<open>random.uniform\<close> draws.\<close>

definition backoff_cap :: "int \<Rightarrow> nat \<Rightarrow> int" where
  "backoff_cap max_backoff attempt = min max_backoff (2 ^ min attempt 10)"

definition backoff_seconds :: "int \<Rightarrow> nat \<Rightarrow> rat \<Rightarrow> rat" where
  "backoff_seconds max_backoff attempt u = (let cap = of_int (backoff_cap max_backoff attempt); a = fdiv cap 2 in fadd a (fmul (fsub cap a) u))"

definition stream_round :: "stream_env \<Rightarrow> (string \<Rightarrow> string \<Rightarrow> ('w, unit) eff) \<Rightarrow> script \<Rightarrow> ('w stream, unit) eff" where
  "stream_round env on_state sc = bindE (getE ws_attempt) (\<lambda>n.
     thenE (on_callback (on_state ''CONNECTING'' (''attempt '' @ str_int (int n + 1))))
     (bindE (tryE (thenE (session env on_state sc) (ret ''connection closed''))
              (\<lambda>e. ret (exn_name e @ '': '' @ take 200 (exn_str e)))) (\<lambda>reason.
        on_callback (on_state ''DISCONNECTED'' reason))))"

fun run_forever :: "stream_env \<Rightarrow> (string \<Rightarrow> string \<Rightarrow> ('w, unit) eff) \<Rightarrow> (rat \<Rightarrow> ('w, unit) eff) \<Rightarrow> script list \<Rightarrow> ('w stream, unit) eff" where
  "run_forever env on_state sleep [] = ret ()"
| "run_forever env on_state sleep (sc # scs) = thenE (stream_round env on_state sc)
     (if sc_stopped sc then ret ()
      else bindE (getE ws_attempt) (\<lambda>n. thenE (updE (\<lambda>s. s\<lparr>ws_attempt := n + 1\<rparr>))
             (thenE (on_callback (sleep (backoff_seconds (se_max_backoff env) (n + 1) (sc_jitter sc)))) (run_forever env on_state sleep scs))))"

section \<open>Frames reach the worker once and in order\<close>

text \<open>The frames that are no answers and carry an event, as the messages handed to the worker.\<close>

definition carries_event :: "(string \<times> payload option) list \<Rightarrow> payload \<Rightarrow> bool" where
  "carries_event pending msg \<longleftrightarrow> answered pending msg = Inr None \<and> frame_event msg \<noteq> None"

fun messages_of :: "(string \<times> payload option) list \<Rightarrow> jval list \<Rightarrow> payload list" where
  "messages_of pending [] = []"
| "messages_of pending (JObj msg # fs) = (if carries_event pending msg then msg # messages_of pending fs else messages_of pending fs)"
| "messages_of pending (_ # fs) = messages_of pending fs"

text \<open>A worker that only notes the messages it gets.\<close>

definition noted :: "payload \<Rightarrow> (payload list, unit) eff" where
  "noted msg = updE (\<lambda>l. l @ [msg])"

lemma answered_keys: "map fst p = map fst q \<Longrightarrow> answered p msg = answered q msg"
proof -
  assume "map fst p = map fst q"
  then have "set (map fst p) = set (map fst q)" by simp
  then have k: "(map_of p i \<noteq> None) = (map_of q i \<noteq> None)" for i unfolding map_of_eq_None_iff set_map by blast
  show ?thesis unfolding answered_def k ..
qed

lemma messages_of_keys:
  assumes "map fst p = map fst q"
  shows "messages_of p fs = messages_of q fs"
proof (induction fs)
  case (Cons f fs)
  then show ?case by (cases f) (simp_all add: carries_event_def answered_keys [OF assms])
qed simp

lemma update_keys: "map_of p i \<noteq> None \<Longrightarrow> map fst (AList.update i x p) = map fst p"
  by (induction p) auto

lemma read_frame_notes:
  assumes "read_frame noted f s = (r, s')"
  shows "map fst (ws_pending s') = map fst (ws_pending s)
    \<and> (r = Inr () \<longrightarrow> ws_world s' = ws_world s @ messages_of (ws_pending s) [f])
    \<and> prefix (ws_world s) (ws_world s') \<and> prefix (ws_world s') (ws_world s @ messages_of (ws_pending s) [f])"
proof (cases f)
  case (JObj msg)
  show ?thesis
  proof (cases "answered (ws_pending s) msg")
    case (Inr a)
    then have i: "map_of (ws_pending s) i \<noteq> None" if "a = Some i" for i
      using that by (auto simp: answered_def split: option.splits jval.splits if_splits)
    have ups: "map fst (AList.update i x (ws_pending s)) = map fst (ws_pending s)" if "a = Some i" for i x
      using update_keys [OF i [OF that]] .
    show ?thesis
      using assms Inr ups
      by (cases a) (auto simp: JObj read_frame_def deliver_frame_def on_callback_def noted_def whenE_def thenE_def bindE_apply
          carries_event_def split: option.splits if_splits)
  qed (use assms in \<open>auto simp: JObj read_frame_def carries_event_def\<close>)
qed (use assms in \<open>auto simp: read_frame_def\<close>)

lemma messages_of_Cons: "messages_of p (f # fs) = messages_of p [f] @ messages_of p fs"
  by (cases f) auto

lemma read_frames_notes:
  "read_frames noted fs s = (r, s') \<Longrightarrow> (r = Inr () \<longrightarrow> ws_world s' = ws_world s @ messages_of (ws_pending s) fs)
    \<and> prefix (ws_world s) (ws_world s') \<and> prefix (ws_world s') (ws_world s @ messages_of (ws_pending s) fs)"
proof (induction fs arbitrary: s)
  case (Cons f fs)
  obtain a t where f: "read_frame noted f s = (a, t)" by (cases "read_frame noted f s")
  note n = read_frame_notes [OF f]
  have same: "messages_of (ws_pending t) fs = messages_of (ws_pending s) fs" using n by (intro messages_of_keys) simp
  show ?case
  proof (cases a)
    case (Inl e)
    then have "r = Inl e" "s' = t" using Cons.prems f by (simp_all add: read_frames_def thenE_def bindE_apply)
    moreover have "prefix (ws_world t) ((ws_world s @ messages_of (ws_pending s) [f]) @ messages_of (ws_pending s) fs)"
      by (rule prefix_prefix) (use n in blast)
    ultimately show ?thesis using n unfolding messages_of_Cons [of _ f fs] by simp
  next
    case (Inr u)
    then have t: "ws_world t = ws_world s @ messages_of (ws_pending s) [f]" using n by simp
    have "read_frames noted fs t = (r, s')" using Cons.prems f Inr by (simp add: read_frames_def thenE_def bindE_apply)
    note IH = Cons.IH [OF this, unfolded same t]
    have "prefix (ws_world s) (ws_world s')"
      using conjunct1 [OF conjunct2 [OF IH]] by (rule prefix_order.trans [rotated]) simp
    then show ?thesis using IH unfolding messages_of_Cons [of _ f fs] append_assoc by blast
  qed
qed (simp add: read_frames_def)

text \<open>What the reader takes for an event, the worker's \<^verbatim>\<open>unwrap\<close> takes for the same event.\<close>

lemma frame_event_unwrap: "frame_event msg = Some ev \<Longrightarrow> snd (unwrap msg) = Some ev"
  by (auto simp: frame_event_def unwrap_def got_def dict_get_def split: option.splits jval.splits if_splits)

lemma messages_unwrapped: "msg \<in> set (messages_of p fs) \<Longrightarrow> snd (unwrap msg) \<noteq> None"
  by (induction p fs rule: messages_of.induct) (auto simp: carries_event_def dest: frame_event_unwrap split: if_splits)

text \<open>
  No event of the stream is lost or invented on its way to the worker. Reading frames hands over, in their order and
  once each, exactly the messages that answer no request and carry an event; when reading fails (a shutdown notice, a frame that
  is no object), the messages handed over are the first of them. Every one of them is an event for the worker's \<open>unwrap\<close>.
\<close>

theorem reader_hands_over:
  assumes "read_frames noted frames s = (r, s')"
  shows "(r = Inr () \<longrightarrow> ws_world s' = ws_world s @ messages_of (ws_pending s) frames)
    \<and> prefix (ws_world s) (ws_world s') \<and> prefix (ws_world s') (ws_world s @ messages_of (ws_pending s) frames)
    \<and> list_all (\<lambda>msg. snd (unwrap msg) \<noteq> None) (messages_of (ws_pending s) frames)"
  using read_frames_notes [OF assms] messages_unwrapped by (auto simp: list_all_iff)

definition demo_frames :: "jval list" where
  "demo_frames = [JObj [(''id'', JStr ''r1''), (''status'', JInt 200)],
     JObj [(''subscriptionId'', JInt 0), (''event'', JObj [(''e'', JStr ''executionReport''), (''i'', JInt 7)])],
     JObj [(''note'', JNull)], JObj [(''e'', JStr ''serverShutdown'')], JObj [(''e'', JStr ''executionReport'')]]"

theorem reader_hands_over_witness:
  "let s = \<lparr>ws_world = [], ws_attempt = 0, ws_pending = [(''r1'', None)]\<rparr>; s' = snd (read_frames noted demo_frames s) in
   fst (read_frames noted demo_frames s) = Inl (StaleConnection ''serverShutdown received'')
   \<and> length (ws_world s') = 1 \<and> prefix (ws_world s') (messages_of (ws_pending s) demo_frames)"
proof -
  let ?s = "\<lparr>ws_world = [], ws_attempt = 0, ws_pending = [(''r1'', None)]\<rparr>"
  obtain r s' where r: "read_frames noted demo_frames ?s = (r, s')" by (cases "read_frames noted demo_frames ?s")
  have "r = Inl (StaleConnection ''serverShutdown received'') \<and> length (ws_world s') = 1"
    using r by (auto simp: demo_frames_def read_frames_def read_frame_def answered_def deliver_frame_def frame_event_def noted_def
        on_callback_def thenE_def bindE_apply got_def dict_get_def)
  then show ?thesis using r reader_hands_over [OF r] by simp
qed

section \<open>The reconnection delay\<close>

lemma backoff_cap_bounds: "0 \<le> m \<Longrightarrow> 0 \<le> backoff_cap m n \<and> backoff_cap m n \<le> m \<and> backoff_cap m n \<le> 1024"
proof -
  have "(2 :: int) ^ min n 10 \<le> 2 ^ 10" by (rule power_increasing) simp_all
  then show "0 \<le> m \<Longrightarrow> ?thesis" by (auto simp: backoff_cap_def min_le_iff_disj)
qed

lemma flt_exact_half: "\<bar>m\<bar> \<le> 1024 \<Longrightarrow> flt_round (of_int m / 2) = of_int m / 2" "\<bar>m\<bar> \<le> 1024 \<Longrightarrow> flt_round (of_int m) = of_int m"
proof -
  have "representable 2 53 (of_int m / 2)" if "\<bar>m\<bar> \<le> 1024"
    unfolding representable_def using that by (intro exI [of _ m] exI [of _ "-1"]) simp
  then show "\<bar>m\<bar> \<le> 1024 \<Longrightarrow> flt_round (of_int m / 2) = of_int m / 2" unfolding flt_round_def by (intro round_sig_exact) simp_all
  have "representable 2 53 (of_int m)" if "\<bar>m\<bar> \<le> 1024"
    unfolding representable_def using that by (intro exI [of _ m] exI [of _ 0]) simp
  then show "\<bar>m\<bar> \<le> 1024 \<Longrightarrow> flt_round (of_int m) = of_int m" unfolding flt_round_def by (intro round_sig_exact) simp_all
qed

text \<open>
  The reconnection delay is bounded. For every number of failed attempts and every draw of the jitter the delay lies between half the
  cap and the cap, and the cap, twice as long after every failure, never exceeds the configured maximum.
\<close>

theorem backoff_bounded:
  assumes "0 \<le> max_backoff" "0 \<le> u" "u \<le> 1"
  shows "of_int (backoff_cap max_backoff n) / 2 \<le> backoff_seconds max_backoff n u
    \<and> backoff_seconds max_backoff n u \<le> of_int (backoff_cap max_backoff n) \<and> backoff_cap max_backoff n \<le> max_backoff
    \<and> backoff_cap max_backoff n = min max_backoff (if n < 10 then 2 ^ n else 1024)"
proof -
  let ?c = "of_int (backoff_cap max_backoff n) :: rat"
  note b = backoff_cap_bounds [OF assms(1), of n]
  have half: "fdiv ?c 2 = ?c / 2" and full: "flt_round ?c = ?c" using flt_exact_half [of "backoff_cap max_backoff n"] b by (simp_all add: fdiv_def)
  have diff: "fsub ?c (?c / 2) = ?c / 2" using half by (simp add: fsub_def fdiv_def)
  have R: "flt_round (?c / 2) = ?c / 2" using half by (simp add: fdiv_def)
  have c0: "0 \<le> ?c" using b by simp
  then have m0: "0 \<le> ?c / 2 * u" and m1: "?c / 2 * u \<le> ?c / 2" using assms by (simp_all add: mult_left_le)
  have f0: "0 \<le> fmul (?c / 2) u" unfolding fmul_def using m0 by (rule flt.R_nonneg)
  have f1: "fmul (?c / 2) u \<le> ?c / 2" unfolding fmul_def using R m1 by (rule flt.R_upper)
  have "?c / 2 \<le> fadd (?c / 2) (fmul (?c / 2) u)" unfolding fadd_def by (rule flt.R_add_ge [OF R f0])
  moreover have "fadd (?c / 2) (fmul (?c / 2) u) \<le> ?c" unfolding fadd_def using full f1 by (intro flt.R_upper) simp_all
  moreover have "backoff_cap max_backoff n = min max_backoff (if n < 10 then 2 ^ n else 1024)" by (simp add: backoff_cap_def)
  moreover have "backoff_seconds max_backoff n u = fadd (?c / 2) (fmul (?c / 2) u)"
    by (simp only: backoff_seconds_def Let_def half diff)
  ultimately show ?thesis using b by metis
qed

theorem backoff_bounded_witness: "2 \<le> backoff_seconds 60 2 (1 / 4) \<and> backoff_seconds 60 2 (1 / 4) \<le> 4 \<and> backoff_cap 60 9 = 60"
proof -
  have "backoff_cap 60 2 = 4" "backoff_cap 60 9 = 60" by (simp_all add: backoff_cap_def)
  then show ?thesis using backoff_bounded [of 60 "1 / 4" 2] by simp
qed

end
