(* ===== verification/Redaction.thy ===== *)
theory Redaction
  imports Config "HOL-Library.Sublist" "HOL-Library.AList"
begin

text \<open>
  Structured logging: \<^verbatim>\<open>engine/infrastructure/logging.py\<close>. A log value is the Python value handed to the logger; the payload of
  a record is redacted and then written as JSON, where an object that is not a JSON value is written as its text. It is
  proved that no registered secret survives in a payload of JSON values, and that an object escapes the redaction. The set
  of registered secrets is a list, in the order in which the set happens to be iterated; the theorems hold for every order.
\<close>

section \<open>Values and registered secrets\<close>

text \<open>\<open>LObject\<close> is a value that \<^verbatim>\<open>json.dumps\<close> cannot write; it carries its \<^verbatim>\<open>str()\<close>.\<close>

datatype log_value = LNull | LBool bool | LNum rat | LStr string | LDict "(string \<times> log_value) list" | LSeq "log_value list" | LObject string

definition register_secret :: "string option \<Rightarrow> string list \<Rightarrow> string list" where
  "register_secret v known = (case v of None \<Rightarrow> known | Some s \<Rightarrow> if 6 \<le> length s then List.insert s known else known)"

text \<open>The secrets that \<^verbatim>\<open>bootstrap.build\<close> registers.\<close>

definition register_config :: "config \<Rightarrow> string list \<Rightarrow> string list" where
  "register_config cfg known = fold (\<lambda>s. register_secret (Some s))
     [API_KEY cfg, API_SECRET cfg, CONTROL_PLANE_TOKEN cfg, TELEGRAM_BOT_TOKEN cfg] known"

section \<open>Redaction\<close>

text \<open>\<^verbatim>\<open>value.replace(s, r)\<close> for a text \<open>s\<close> that is not empty.\<close>

fun replace_all :: "string \<Rightarrow> string \<Rightarrow> string \<Rightarrow> string" where
  "replace_all s r [] = []"
| "replace_all s r (c # cs) = (if s \<noteq> [] \<and> startswith (c # cs) s then r @ replace_all s r (drop (length s - 1) cs) else c # replace_all s r cs)"

definition stars :: string where "stars = ''***''"

definition secret_words :: "string list" where
  "secret_words = [''api_key'', ''api-key'', ''apikey'', ''secret'', ''signature'', ''token'', ''password'', ''authorization'']"

definition secret_key :: "string \<Rightarrow> bool" where
  "secret_key k \<longleftrightarrow> list_ex (\<lambda>w. contains w (lower k)) secret_words"

definition signature_eq :: string where "signature_eq = ''signature=''"

text \<open>A character of \<^verbatim>\<open>[^&\s\"]\<close>, and the substitution of \<^verbatim>\<open>(signature=)[^&\s\"]+\<close> from the left.\<close>

definition value_char :: "char \<Rightarrow> bool" where
  "value_char c \<longleftrightarrow> c \<noteq> CHR ''&'' \<and> c \<noteq> CHR 0x22 \<and> \<not> is_space c"

definition signature_here :: "string \<Rightarrow> bool" where
  "signature_here t \<longleftrightarrow> startswith t signature_eq \<and> drop (length signature_eq) t \<noteq> [] \<and> value_char (hd (drop (length signature_eq) t))"

definition after_signature :: "string \<Rightarrow> string" where
  "after_signature t = dropWhile value_char (drop (length signature_eq) t)"

lemma after_signature_shorter [termination_simp]: "length (after_signature (c # cs)) < Suc (length cs)"
proof -
  have "length (after_signature (c # cs)) \<le> length (drop (length signature_eq) (c # cs))"
    unfolding after_signature_def by (rule length_dropWhile_le)
  also have "\<dots> < Suc (length cs)" by (simp add: signature_eq_def)
  finally show ?thesis .
qed

fun mask_signature :: "string \<Rightarrow> string" where
  "mask_signature [] = []"
| "mask_signature (c # cs) =
     (if signature_here (c # cs) then signature_eq @ stars @ mask_signature (after_signature (c # cs)) else c # mask_signature cs)"

definition hide_secret :: "string \<Rightarrow> string \<Rightarrow> string" where
  "hide_secret s t = (if contains s t then replace_all s stars t else t)"

definition redact_text :: "string list \<Rightarrow> string \<Rightarrow> string" where
  "redact_text known t = mask_signature (fold hide_secret known t)"

fun redact :: "string list \<Rightarrow> log_value \<Rightarrow> log_value" where
  "redact known (LDict d) = LDict (map (\<lambda>(k, v). (k, if secret_key k then LStr stars else redact known v)) d)"
| "redact known (LSeq xs) = LSeq (map (redact known) xs)"
| "redact known (LStr t) = LStr (redact_text known t)"
| "redact known v = v"

section \<open>Records and loggers\<close>

record log_record =
  lr_time :: string
  lr_level :: string
  lr_name :: string
  lr_message :: string
  lr_fields :: "(string \<times> log_value) list"
  lr_exc :: "string option"

text \<open>
  The payload of a record: \<open>lr_fields\<close> are the attributes set by \<^verbatim>\<open>extra\<close>, the attributes that are not standard; \<open>written\<close> is the
  value that \<^verbatim>\<open>json.dumps(\<dots>, default=str)\<close> writes.
\<close>

definition log_payload :: "log_record \<Rightarrow> (string \<times> log_value) list" where
  "log_payload r = (let base = [(''ts'', LStr (lr_time r)), (''level'', LStr (lr_level r)), (''logger'', LStr (lr_name r)), (''event'', LStr (lr_message r))];
     extended = fold (\<lambda>(k, v) p. if startswith k ''_'' then p else AList.update k v p) (lr_fields r) base
     in case lr_exc r of None \<Rightarrow> extended | Some t \<Rightarrow> AList.update ''exception'' (LStr t) extended)"

fun written :: "log_value \<Rightarrow> log_value" where
  "written (LDict d) = LDict (map (\<lambda>(k, v). (k, written v)) d)"
| "written (LSeq xs) = LSeq (map written xs)"
| "written (LObject t) = LStr t"
| "written v = v"

definition format_record :: "string list \<Rightarrow> log_record \<Rightarrow> log_value" where
  "format_record known r = written (redact known (LDict (log_payload r)))"

text \<open>The context of a logger and of one call; the call wins.\<close>

definition process_extra :: "(string \<times> log_value) list \<Rightarrow> (string \<times> log_value) list \<Rightarrow> (string \<times> log_value) list" where
  "process_extra context extra = fold (\<lambda>(k, v). AList.update k v) extra context"

section \<open>Text without stars is never made by masking\<close>

definition star_free :: "string \<Rightarrow> bool" where
  "star_free u \<longleftrightarrow> CHR ''*'' \<notin> set u"

lemma star_free_parts: "star_free (a @ b) \<longleftrightarrow> star_free a \<and> star_free b" "star_free (c # u) \<longleftrightarrow> c \<noteq> CHR ''*'' \<and> star_free u" "star_free []"
  by (auto simp: star_free_def)

lemma star_free_sublist: "sublist u t \<Longrightarrow> star_free t \<Longrightarrow> star_free u"
  by (metis star_free_def set_mono_sublist subsetD)

lemma contains_sublist: "contains s t \<longleftrightarrow> sublist s t"
  by (induction t) (simp_all add: sublist_Cons_right startswith_def prefix_def, metis append_eq_conv_conj append_take_drop_id)

lemma prefix_through: "prefix u (a @ stars @ r) \<Longrightarrow> star_free u \<Longrightarrow> prefix u a"
proof (induction a arbitrary: u)
  case Nil
  then show ?case by (cases u) (auto simp: stars_def star_free_def)
next
  case (Cons x a)
  then show ?case by (cases u) (auto simp: star_free_parts)
qed

lemma sublist_through: "sublist u (a @ stars @ r) \<Longrightarrow> star_free u \<Longrightarrow> sublist u a \<or> sublist u r"
proof (induction a)
  case Nil
  then show ?case by (auto simp: stars_def sublist_Cons_right star_free_def prefix_Cons)
next
  case (Cons x a)
  then show ?case using prefix_through [of u "x # a" r] by (auto simp: sublist_Cons_right)
qed

text \<open>A scrubber never makes a text without stars: what it leaves was there before.\<close>

locale scrubber =
  fixes scrub :: "string \<Rightarrow> string"
  assumes makes_nothing: "star_free u \<Longrightarrow> sublist u (scrub t) \<Longrightarrow> sublist u t"
begin

lemma keeps_out: "star_free s \<Longrightarrow> \<not> contains s t \<Longrightarrow> \<not> contains s (scrub t)"
  by (simp add: contains_sublist) (meson makes_nothing)

end

text \<open>Both substitutions replace a part of the text by stars, after a part they keep, or keep one character.\<close>

lemma replace_cases:
  obtains "replace_all s stars (c # cs) = [] @ stars @ replace_all s stars (drop (length s - 1) cs)" "s \<noteq> [] \<and> startswith (c # cs) s"
  | "replace_all s stars (c # cs) = c # replace_all s stars cs" "\<not> (s \<noteq> [] \<and> startswith (c # cs) s)"
  by (cases "s \<noteq> [] \<and> startswith (c # cs) s") auto

declare replace_all.simps(2) [simp del]

lemma replace_prefix: "star_free u \<Longrightarrow> prefix u (replace_all s stars t) \<Longrightarrow> prefix u t"
proof (induction t arbitrary: u rule: length_induct)
  case (1 t)
  show ?case
  proof (cases t)
    case t: (Cons c cs)
    show ?thesis
    proof (cases rule: replace_cases [of s c cs])
      case r: 1
      then show ?thesis using prefix_through [of u "[]" "replace_all s stars (drop (length s - 1) cs)"] 1(2,3) t r(1) by simp
    next
      case r: 2
      then show ?thesis using 1 t by (cases u) (auto simp: star_free_parts r(1))
    qed
  qed (use 1 in simp)
qed

lemma replace_sublist: "star_free u \<Longrightarrow> sublist u (replace_all s stars t) \<Longrightarrow> sublist u t"
proof (induction t rule: length_induct)
  case (1 t)
  show ?case
  proof (cases t)
    case t: (Cons c cs)
    show ?thesis
    proof (cases rule: replace_cases [of s c cs])
      case r: 1
      then have "sublist u (replace_all s stars (drop (length s - 1) cs)) \<or> u = []" using sublist_through [of u "[]"] 1(2,3) t by auto
      then have "sublist u (drop (length s - 1) cs)" using 1(1,2) t by auto
      then show ?thesis unfolding t by (meson sublist_drop sublist_order.order_trans sublist_Cons_right)
    next
      case r: 2
      then have "prefix u (replace_all s stars t) \<or> sublist u (replace_all s stars cs)" using 1(3) t r(1) by (simp add: sublist_Cons_right)
      then show ?thesis using 1(1,2) t replace_prefix [OF 1(2), of s t] by (auto simp: sublist_Cons_right)
    qed
  qed (use 1 in simp)
qed

interpretation replacement: scrubber "replace_all s stars" for s
  by unfold_locales (rule replace_sublist)

interpretation hiding: scrubber "hide_secret s" for s
  by unfold_locales (auto simp: hide_secret_def replace_sublist split: if_splits)

lemma replace_removes: "s \<noteq> [] \<Longrightarrow> star_free s \<Longrightarrow> \<not> sublist s (replace_all s stars t)"
proof (induction t rule: length_induct)
  case (1 t)
  show ?case
  proof (cases t)
    case t: (Cons c cs)
    show ?thesis
    proof (cases rule: replace_cases [of s c cs])
      case r: 1
      then show ?thesis using 1 t sublist_through [of s "[]" "replace_all s stars (drop (length s - 1) cs)"] by auto
    next
      case r: 2
      then have "\<not> prefix s t" using 1(2) t by (auto simp: startswith_def prefix_def)
      then have "\<not> prefix s (replace_all s stars t)" using replace_prefix [OF 1(3)] by blast
      then show ?thesis using 1 t r by (simp add: sublist_Cons_right)
    qed
  qed (use 1 in simp)
qed

lemma mask_cases:
  obtains "mask_signature (c # cs) = signature_eq @ stars @ mask_signature (after_signature (c # cs))" "signature_here (c # cs)"
  | "mask_signature (c # cs) = c # mask_signature cs" "\<not> signature_here (c # cs)"
  by (cases "signature_here (c # cs)") auto

declare mask_signature.simps(2) [simp del]

lemma signature_here_prefix: "signature_here t \<Longrightarrow> prefix signature_eq t"
  by (metis signature_here_def startswith_def take_is_prefix)

lemma after_signature_sublist: "sublist (after_signature t) t"
  unfolding after_signature_def by (meson sublist_dropWhile sublist_drop sublist_order.order_trans)

lemma mask_prefix: "star_free u \<Longrightarrow> prefix u (mask_signature t) \<Longrightarrow> prefix u t"
proof (induction t arbitrary: u rule: mask_signature.induct)
  case (2 c cs)
  show ?case
  proof (cases rule: mask_cases [of c cs])
    case m: 1
    then have "prefix u signature_eq" using prefix_through [OF _ "2.prems"(1)] "2.prems"(2) by metis
    then show ?thesis using signature_here_prefix [OF m(2)] by (meson prefix_order.order_trans)
  next
    case m: 2
    then show ?thesis using "2.IH"(2) [OF m(2)] "2.prems" by (cases u) (auto simp: star_free_parts)
  qed
qed simp

lemma mask_sublist: "star_free u \<Longrightarrow> sublist u (mask_signature t) \<Longrightarrow> sublist u t"
proof (induction t rule: mask_signature.induct)
  case (2 c cs)
  show ?case
  proof (cases rule: mask_cases [of c cs])
    case m: 1
    then have "sublist u signature_eq \<or> sublist u (mask_signature (after_signature (c # cs)))"
      using sublist_through [OF _ "2.prems"(1)] "2.prems"(2) by metis
    then have "sublist u signature_eq \<or> sublist u (after_signature (c # cs))" using "2.IH"(1) [OF m(2) "2.prems"(1)] by blast
    then show ?thesis
      by (meson after_signature_sublist prefix_imp_sublist signature_here_prefix [OF m(2)] sublist_order.order_trans)
  next
    case m: 2
    then have "prefix u (mask_signature (c # cs)) \<or> sublist u (mask_signature cs)" using "2.prems" by (simp add: sublist_Cons_right)
    then show ?thesis using "2.IH"(2) [OF m(2)] "2.prems" mask_prefix [of u "c # cs"] by (auto simp: sublist_Cons_right)
  qed
qed simp

interpretation signature_masking: scrubber mask_signature
  by unfold_locales (rule mask_sublist)

section \<open>No registered secret is logged\<close>

text \<open>The texts of a value, keys left out, and values without objects.\<close>

fun leaves :: "log_value \<Rightarrow> string list" where
  "leaves (LDict d) = concat (map (\<lambda>(k, v). leaves v) d)"
| "leaves (LSeq xs) = concat (map leaves xs)"
| "leaves (LStr t) = [t]"
| "leaves (LObject t) = [t]"
| "leaves v = []"

fun json_value :: "log_value \<Rightarrow> bool" where
  "json_value (LDict d) = list_all (\<lambda>(k, v). json_value v) d"
| "json_value (LSeq xs) = list_all json_value xs"
| "json_value (LObject t) = False"
| "json_value v = True"

lemma hidden_stays: "star_free s \<Longrightarrow> \<not> contains s t \<Longrightarrow> \<not> contains s (fold hide_secret known t)"
  by (induction known arbitrary: t) (simp_all add: hiding.keeps_out)

lemma fold_hides: "s \<in> set known \<Longrightarrow> s \<noteq> [] \<Longrightarrow> star_free s \<Longrightarrow> \<not> contains s (fold hide_secret known t)"
proof (induction known arbitrary: t)
  case (Cons k ks)
  show ?case
  proof (cases "s = k")
    case True
    then have "\<not> contains s (hide_secret k t)" using Cons.prems replace_removes by (simp add: hide_secret_def contains_sublist)
    then show ?thesis using hidden_stays Cons.prems(3) by simp
  qed (use Cons in simp)
qed simp

lemma redact_text_hides: "s \<in> set known \<Longrightarrow> s \<noteq> [] \<Longrightarrow> star_free s \<Longrightarrow> \<not> contains s (redact_text known t)"
  by (simp add: redact_text_def signature_masking.keeps_out fold_hides)

lemma stars_hide: "s \<noteq> [] \<Longrightarrow> star_free s \<Longrightarrow> \<not> contains s stars"
  using sublist_through [of s "[]" "[]"] by (auto simp: contains_sublist)

lemma redacted_leaves:
  assumes "s \<in> set known" "s \<noteq> []" "star_free s"
  shows "json_value v \<Longrightarrow> list_all (\<lambda>t. \<not> contains s t) (leaves (written (redact known v)))"
proof (induction v)
  case (LDict d)
  have "list_all (\<lambda>t. \<not> contains s t) (leaves (written (redact known w)))" if "(k, w) \<in> set d" for k w
    using LDict that by (force simp: list_all_iff)
  then show ?case using stars_hide [OF assms(2,3)] by (auto simp: list_all_iff split: if_splits)
next
  case (LSeq xs)
  then show ?case by (fastforce simp: list_all_iff)
qed (simp_all add: redact_text_hides [OF assms])

lemma registered: "6 \<le> length s \<Longrightarrow> s \<in> {API_KEY cfg, API_SECRET cfg, CONTROL_PLANE_TOKEN cfg, TELEGRAM_BOT_TOKEN cfg} \<Longrightarrow> s \<in> set (register_config cfg known)"
  by (auto simp: register_config_def register_secret_def)

text \<open>
  C30: no secret of the configuration is logged. A key or token of the configuration of at least six characters, none of them a star, does
  not occur in any text of a log record whose fields are JSON values, whatever else was registered and whatever the
  order in which the registered secrets are replaced, also when secrets overlap; the name of a field is not redacted.
\<close>

theorem no_secret_logged:
  assumes "s \<in> {API_KEY cfg, API_SECRET cfg, CONTROL_PLANE_TOKEN cfg, TELEGRAM_BOT_TOKEN cfg}" "6 \<le> length s" "star_free s"
    and "set (register_config cfg others) \<subseteq> set known" "json_value (LDict (log_payload r))"
  shows "list_all (\<lambda>t. \<not> contains s t) (leaves (format_record known r))"
  unfolding format_record_def
  by (rule redacted_leaves) (use assms registered [OF assms(2,1)] in auto)

text \<open>A field with the name of a secret is masked whatever its value.\<close>

theorem secret_fields_masked:
  assumes "map_of (log_payload r) k = Some v" "secret_key k"
  shows "\<exists>d. format_record known r = LDict d \<and> map_of d k = Some (LStr stars)"
proof -
  have "map_of (map (\<lambda>(k, v). (k, written v)) (map (\<lambda>(k, v). (k, if secret_key k then LStr stars else redact known v)) d)) k = Some (LStr stars)"
    if "map_of d k = Some v" for d
    using that assms(2) by (induction d) (auto split: if_splits)
  then show ?thesis using assms(1) by (auto simp: format_record_def)
qed

section \<open>Concrete records\<close>

definition demo_record :: "log_value \<Rightarrow> log_record" where
  "demo_record v = \<lparr>lr_time = ''t'', lr_level = ''INFO'', lr_name = ''crypto_bot'', lr_message = ''GET /x?signature=ab'', lr_fields = [(''error'', v)], lr_exc = None\<rparr>"

definition demo_secret :: string where "demo_secret = ''k3y-k3y''"

theorem no_secret_logged_witness:
  "list_all (\<lambda>t. \<not> contains demo_secret t) (leaves (format_record [demo_secret] (demo_record (LStr (''use '' @ demo_secret)))))"
proof (rule no_secret_logged [where cfg = "demo_config\<lparr>API_KEY := demo_secret, CONTROL_PLANE_TOKEN := []\<rparr>" and others = "[]"])
  show "6 \<le> length demo_secret" "star_free demo_secret" by (simp_all add: demo_secret_def star_free_def)
  show "json_value (LDict (log_payload (demo_record (LStr (''use '' @ demo_secret)))))"
    by (simp add: log_payload_def demo_record_def startswith_def)
  show "set (register_config (demo_config\<lparr>API_KEY := demo_secret, CONTROL_PLANE_TOKEN := []\<rparr>) []) \<subseteq> set [demo_secret]"
    by (simp add: register_config_def register_secret_def demo_config_def demo_secret_def)
qed simp

theorem secret_fields_masked_witness:
  "\<exists>d. format_record [] ((demo_record LNull)\<lparr>lr_fields := [(''api_key'', LStr ''k'')]\<rparr>) = LDict d \<and> map_of d ''api_key'' = Some (LStr stars)"
proof (rule secret_fields_masked)
  show "map_of (log_payload ((demo_record LNull)\<lparr>lr_fields := [(''api_key'', LStr ''k'')]\<rparr>)) ''api_key'' = Some (LStr ''k'')"
    by (simp add: log_payload_def demo_record_def startswith_def)
  show "secret_key ''api_key''" by code_simp
qed

text \<open>
  An object escapes the redaction. A field that is not a JSON value, such as an exception, is turned into text only after
  the redaction, so a registered secret in its text is written to the log.
\<close>

theorem object_escapes_redaction:
  "demo_secret \<in> set [demo_secret] \<and> star_free demo_secret
   \<and> list_ex (\<lambda>t. contains demo_secret t) (leaves (format_record [demo_secret] (demo_record (LObject (''use '' @ demo_secret)))))"
  by (simp add: demo_secret_def star_free_def) code_simp

end
