(* ===== verification/Backtest.thy ===== *)
theory Backtest
  imports Risk Market
begin

text \<open>
  The research backtester \<^verbatim>\<open>research/backtest.py\<close>: signals are evaluated at a candle's close and acted on at the open of the next one, with fees,
  slippage, a protective stop, a time exit and the daily-loss halt. A run goes through the candles with its local variables
  as a state; it is proved that a trade obeys the rules it announces and that no value depends on later candles. NumPy
  and pandas reductions (mean, standard deviation, sum, square root, power) are fields of a record.
\<close>

section \<open>Configuration and results\<close>

record bt_config =
  bc_initial :: rat
  bc_fee_rate :: rat
  bc_slippage_bps :: rat
  bc_sizing :: string
  bc_risk_pct :: rat
  bc_stop_pct :: "rat option"
  bc_daily_loss_pct :: "rat option"
  bc_max_hold_bars :: "int option"
  bc_bars_per_year :: rat

definition default_bt_config :: bt_config where
  "default_bt_config = \<lparr>bc_initial = 1000, bc_fee_rate = flt_round (1 / 1000), bc_slippage_bps = 5, bc_sizing = ''risk'',
     bc_risk_pct = 1, bc_stop_pct = Some 3, bc_daily_loss_pct = Some 5, bc_max_hold_bars = None, bc_bars_per_year = 8760\<rparr>"

text \<open>Truth of an optional number.\<close>

definition given :: "'a :: zero option \<Rightarrow> bool" where
  "given x \<longleftrightarrow> x \<noteq> None \<and> x \<noteq> Some 0"

text \<open>A closed trade; the candles of entry and exit are given by their position, for the time stamps of the code.\<close>

record trade =
  tr_entry_i :: nat
  tr_entry_px :: rat
  tr_exit_i :: nat
  tr_exit_px :: rat
  tr_qty :: rat
  tr_pnl :: rat
  tr_return :: rat
  tr_reason :: string
  tr_bars :: int

text \<open>The local variables of \<^verbatim>\<open>run\<close>.\<close>

record bt_state =
  bs_cash :: rat
  bs_qty :: rat
  bs_entry_px :: rat
  bs_stop_px :: "rat option"
  bs_entry_i :: nat
  bs_entry_fee :: rat
  bs_equity :: "rat list"
  bs_trades :: "trade list"
  bs_day_start :: rat
  bs_day :: "int option"
  bs_halted :: bool
  bs_prev_eq :: rat
  bs_fees :: rat

definition bt_init :: "bt_config \<Rightarrow> bt_state" where
  "bt_init cfg = \<lparr>bs_cash = bc_initial cfg, bs_qty = 0, bs_entry_px = 0, bs_stop_px = None, bs_entry_i = 0, bs_entry_fee = 0,
     bs_equity = [], bs_trades = [], bs_day_start = bc_initial cfg, bs_day = None, bs_halted = False, bs_prev_eq = bc_initial cfg,
     bs_fees = 0\<rparr>"

section \<open>One candle\<close>

definition slip :: "bt_config \<Rightarrow> rat" where
  "slip cfg = fdiv (bc_slippage_bps cfg) 10000"

definition day_of :: "candle \<Rightarrow> int" where
  "day_of b = cd_time b div 86400000000"

definition close_position :: "bt_config \<Rightarrow> nat \<Rightarrow> rat \<Rightarrow> string \<Rightarrow> bt_state \<Rightarrow> bt_state" where
  "close_position cfg i raw_px reason s =
     (let px = fmul raw_px (fsub 1 (slip cfg)); proceeds = fmul (bs_qty s) px; fee = fmul proceeds (bc_fee_rate cfg);
          cost = fadd (fmul (bs_qty s) (bs_entry_px s)) (bs_entry_fee s); pnl = fsub (fsub proceeds fee) cost
      in s\<lparr>bs_cash := fadd (bs_cash s) (fsub proceeds fee), bs_fees := fadd (bs_fees s) fee,
           bs_trades := bs_trades s @ [\<lparr>tr_entry_i = bs_entry_i s, tr_entry_px = bs_entry_px s, tr_exit_i = i, tr_exit_px = px,
              tr_qty = bs_qty s, tr_pnl = pnl, tr_return = fdiv pnl cost, tr_reason = reason, tr_bars = int i - int (bs_entry_i s)\<rparr>],
           bs_qty := 0\<rparr>)"

text \<open>
  \<^verbatim>\<open>np.nan_to_num\<close> of the signal of a candle. The code indexes an array that its callers build aligned with the candles; the
  value past the end, an \<open>IndexError\<close> there, is never read for an aligned array.
\<close>

definition signal_at :: "rat option list \<Rightarrow> nat \<Rightarrow> rat" where
  "signal_at sig i = (if i < length sig then case sig ! i of None \<Rightarrow> 0 | Some x \<Rightarrow> x else 0)"

definition new_bar_day :: "candle \<Rightarrow> bt_state \<Rightarrow> bt_state" where
  "new_bar_day b s = (if bs_day s \<noteq> Some (day_of b)
     then s\<lparr>bs_day := Some (day_of b), bs_day_start := bs_prev_eq s, bs_halted := False\<rparr> else s)"

definition entry_notional :: "bt_config \<Rightarrow> rat \<Rightarrow> rat \<Rightarrow> rat" where
  "entry_notional cfg cash px =
     (if bc_sizing cfg = ''risk'' \<and> given (bc_stop_pct cfg)
      then min (fmul (position_size cash px (bc_risk_pct cfg) (the (bc_stop_pct cfg))) px) (fdiv cash (fadd 1 (bc_fee_rate cfg)))
      else fdiv cash (fadd 1 (bc_fee_rate cfg)))"

definition open_position :: "bt_config \<Rightarrow> nat \<Rightarrow> candle \<Rightarrow> bt_state \<Rightarrow> bt_state" where
  "open_position cfg i b s = (let px = fmul (cd_open b) (fadd 1 (slip cfg)); notional = entry_notional cfg (bs_cash s) px in
     if 0 < notional then
       let fee = fmul notional (bc_fee_rate cfg) in
       s\<lparr>bs_entry_fee := fee, bs_cash := fsub (bs_cash s) (fadd notional fee), bs_fees := fadd (bs_fees s) fee,
         bs_qty := fdiv notional px, bs_entry_px := px, bs_entry_i := i,
         bs_stop_px := (if given (bc_stop_pct cfg) then Some (fmul px (fsub 1 (fdiv (the (bc_stop_pct cfg)) 100))) else None)\<rparr>
     else s)"

definition act_at_open :: "bt_config \<Rightarrow> rat option list \<Rightarrow> nat \<Rightarrow> candle \<Rightarrow> bt_state \<Rightarrow> bt_state" where
  "act_at_open cfg sig i b s =
     (if i = 0 then s
      else let x = signal_at sig (i - 1) in
        if 0 < bs_qty s \<and> (x < 0 \<or> (given (bc_max_hold_bars cfg) \<and> the (bc_max_hold_bars cfg) \<le> int i - int (bs_entry_i s)))
        then close_position cfg i (cd_open b) (if x < 0 then ''signal'' else ''time'') s
        else if bs_qty s = 0 \<and> 0 < x \<and> \<not> bs_halted s then open_position cfg i b s
        else s)"

definition check_stop :: "bt_config \<Rightarrow> nat \<Rightarrow> candle \<Rightarrow> bt_state \<Rightarrow> bt_state" where
  "check_stop cfg i b s = (case bs_stop_px s of
     Some stop \<Rightarrow> if 0 < bs_qty s \<and> cd_low b \<le> stop then close_position cfg i (min stop (cd_open b)) ''stop'' s else s
   | None \<Rightarrow> s)"

definition mark_to_market :: "bt_config \<Rightarrow> candle \<Rightarrow> bt_state \<Rightarrow> bt_state" where
  "mark_to_market cfg b s = (let eq = fadd (bs_cash s) (fmul (bs_qty s) (cd_close b)) in
     s\<lparr>bs_equity := bs_equity s @ [eq], bs_prev_eq := eq,
       bs_halted := bs_halted s \<or> (given (bc_daily_loss_pct cfg)
         \<and> eq < fmul (bs_day_start s) (fsub 1 (fdiv (the (bc_daily_loss_pct cfg)) 100)))\<rparr>)"

definition bt_bar :: "bt_config \<Rightarrow> rat option list \<Rightarrow> nat \<Rightarrow> candle \<Rightarrow> bt_state \<Rightarrow> bt_state" where
  "bt_bar cfg sig i b s = mark_to_market cfg b (check_stop cfg i b (act_at_open cfg sig i b (new_bar_day b s)))"

fun bt_loop :: "bt_config \<Rightarrow> rat option list \<Rightarrow> nat \<Rightarrow> candle list \<Rightarrow> bt_state \<Rightarrow> bt_state" where
  "bt_loop cfg sig i [] s = s"
| "bt_loop cfg sig i (b # bs) s = bt_loop cfg sig (Suc i) bs (bt_bar cfg sig i b s)"

text \<open>A position that is open at the end is closed at the last close, which also corrects the last equity.\<close>

definition bt_finish :: "bt_config \<Rightarrow> candle list \<Rightarrow> bt_state \<Rightarrow> bt_state" where
  "bt_finish cfg bars s =
     (if 0 < bs_qty s
      then let s = close_position cfg (length bars - 1) (cd_close (last bars)) ''end'' s in s\<lparr>bs_equity := butlast (bs_equity s) @ [bs_cash s]\<rparr>
      else s)"

definition bt_simulate :: "bt_config \<Rightarrow> candle list \<Rightarrow> rat option list \<Rightarrow> bt_state" where
  "bt_simulate cfg bars sig = bt_finish cfg bars (bt_loop cfg sig 0 bars (bt_init cfg))"

section \<open>Metrics\<close>

record reductions =
  np_mean :: "rat list \<Rightarrow> rat"
  np_std :: "rat list \<Rightarrow> rat"
  np_sum :: "rat list \<Rightarrow> rat"
  np_sqrt :: "rat \<Rightarrow> rat"
  np_pow :: "rat \<Rightarrow> rat \<Rightarrow> rat"

record bt_metrics =
  mt_total_return :: rat
  mt_cagr :: rat
  mt_max_drawdown :: rat
  mt_sharpe :: rat
  mt_sortino :: rat
  mt_calmar :: rat
  mt_trades :: int
  mt_win_rate :: rat
  mt_profit_factor :: "rat option"
  mt_avg_trade_return :: rat
  mt_exposure :: rat
  mt_fees_paid :: rat
  mt_final_equity :: rat

text \<open>The profit factor is \<open>None\<close> where the code has infinity.\<close>

definition empty_metrics :: bt_metrics where
  "empty_metrics = \<lparr>mt_total_return = 0, mt_cagr = 0, mt_max_drawdown = 0, mt_sharpe = 0, mt_sortino = 0, mt_calmar = 0, mt_trades = 0,
     mt_win_rate = 0, mt_profit_factor = Some 0, mt_avg_trade_return = 0, mt_exposure = 0, mt_fees_paid = 0, mt_final_equity = 0\<rparr>"

fun running_max :: "rat \<Rightarrow> rat list \<Rightarrow> rat list" where
  "running_max m [] = []"
| "running_max m (x # xs) = max m x # running_max (max m x) xs"

definition drawdowns :: "rat list \<Rightarrow> rat list" where
  "drawdowns eq = map2 (\<lambda>e p. if 0 < p then fdiv (fsub e p) p else 0) eq (running_max (hd eq) eq)"

definition bar_returns :: "rat list \<Rightarrow> rat list" where
  "bar_returns eq = (if 1 < length eq then map2 (\<lambda>p e. if 0 < p then fdiv (fsub e p) p else 0) (butlast eq) (tl eq) else [0])"

definition metrics :: "reductions \<Rightarrow> rat list \<Rightarrow> trade list \<Rightarrow> bt_config \<Rightarrow> rat \<Rightarrow> bt_metrics" where
  "metrics np eq trades cfg fees =
     (if eq = [] then empty_metrics\<lparr>mt_final_equity := bc_initial cfg\<rparr>
      else let rets = bar_returns eq; years = max (fdiv (of_nat (length eq)) (bc_bars_per_year cfg)) (flt_round (1 / 10 ^ 9));
           total = (if 0 < hd eq then fsub (fdiv (last eq) (hd eq)) 1 else 0);
           max_dd = Min (set (drawdowns eq));
           sd = (if 1 < length rets then np_std np rets else 0);
           downside = filter (\<lambda>r. r < 0) rets;
           dsd = (if downside \<noteq> [] then np_sqrt np (np_mean np (map (\<lambda>r. np_pow np r 2) downside)) else 0);
           ann = np_sqrt np (bc_bars_per_year cfg);
           wins = (if trades \<noteq> [] then np_sum np (filter (\<lambda>p. 0 < p) (map tr_pnl trades)) else 0);
           losses = (if trades \<noteq> [] then - np_sum np (filter (\<lambda>p. p < 0) (map tr_pnl trades)) else 0);
           cagr = (if -1 < total then fsub (np_pow np (fadd 1 total) (fdiv 1 years)) 1 else -1)
         in \<lparr>mt_total_return = total, mt_cagr = cagr, mt_max_drawdown = max_dd,
             mt_sharpe = (if 0 < sd then fmul (fdiv (np_mean np rets) sd) ann else 0),
             mt_sortino = (if 0 < dsd then fmul (fdiv (np_mean np rets) dsd) ann else 0),
             mt_calmar = (if max_dd < 0 then fdiv cagr \<bar>max_dd\<bar> else 0),
             mt_trades = int (length trades),
             mt_win_rate = (if trades \<noteq> [] then fdiv (of_nat (length (filter (\<lambda>t. 0 < tr_pnl t) trades))) (of_nat (length trades)) else 0),
             mt_profit_factor = (if 0 < losses then Some (fdiv wins losses) else if 0 < wins then None else Some 0),
             mt_avg_trade_return = (if trades \<noteq> [] then np_mean np (map tr_return trades) else 0),
             mt_exposure = (if trades \<noteq> [] then fdiv (flt_round (of_int (\<Sum>t\<leftarrow>trades. tr_bars t))) (of_nat (max (length eq) 1)) else 0),
             mt_fees_paid = fees, mt_final_equity = last eq\<rparr>)"

record bt_result =
  br_equity :: "rat list"
  br_trades :: "trade list"
  br_metrics :: bt_metrics

definition bt_run :: "reductions \<Rightarrow> candle list \<Rightarrow> rat option list \<Rightarrow> bt_config \<Rightarrow> bt_result" where
  "bt_run np bars sig cfg = (let s = bt_simulate cfg bars sig in
     \<lparr>br_equity = bs_equity s, br_trades = bs_trades s, br_metrics = metrics np (bs_equity s) (bs_trades s) cfg (bs_fees s)\<rparr>)"

section \<open>Dollar-cost averaging\<close>

record dca_state =
  dc_cash :: rat
  dc_qty :: rat
  dc_fees :: rat
  dc_equity :: "rat list"

definition dca_bar :: "bt_config \<Rightarrow> nat \<Rightarrow> rat \<Rightarrow> nat \<Rightarrow> candle \<Rightarrow> dca_state \<Rightarrow> dca_state" where
  "dca_bar cfg every per_buy i b s =
     (let s = (if i mod every = 0 then
            let px = fmul (cd_open b) (fadd 1 (slip cfg)); notional = fdiv (min per_buy (dc_cash s)) (fadd 1 (bc_fee_rate cfg));
                fee = fmul notional (bc_fee_rate cfg)
            in s\<lparr>dc_cash := fsub (dc_cash s) (fadd notional fee), dc_fees := fadd (dc_fees s) fee, dc_qty := fadd (dc_qty s) (fdiv notional px)\<rparr>
          else s)
      in s\<lparr>dc_equity := dc_equity s @ [fadd (dc_cash s) (fmul (dc_qty s) (cd_close b))]\<rparr>)"

fun dca_loop :: "bt_config \<Rightarrow> nat \<Rightarrow> rat \<Rightarrow> nat \<Rightarrow> candle list \<Rightarrow> dca_state \<Rightarrow> dca_state" where
  "dca_loop cfg every per_buy i [] s = s"
| "dca_loop cfg every per_buy i (b # bs) s = dca_loop cfg every per_buy (Suc i) bs (dca_bar cfg every per_buy i b s)"

text \<open>Without candles the share per purchase is a division by zero, and an interval of zero is no range.\<close>

definition run_dca :: "reductions \<Rightarrow> candle list \<Rightarrow> bt_config \<Rightarrow> nat \<Rightarrow> exn + bt_result" where
  "run_dca np bars cfg every =
     (if every = 0 then Inl (ValueError ''range() arg 3 must not be zero'')
      else if bars = [] then Inl (Other ''float division by zero'')
      else let buys = (length bars + every - 1) div every; per_buy = fdiv (bc_initial cfg) (of_nat buys);
               s = dca_loop cfg every per_buy 0 bars \<lparr>dc_cash = bc_initial cfg, dc_qty = 0, dc_fees = 0, dc_equity = []\<rparr>
        in Inr \<lparr>br_equity = dc_equity s, br_trades = [], br_metrics = (metrics np (dc_equity s) [] cfg (dc_fees s))\<lparr>mt_exposure := 1\<rparr>\<rparr>)"

section \<open>No value depends on later candles\<close>

lemma bt_loop_append: "bt_loop cfg sig i (xs @ ys) s = bt_loop cfg sig (i + length xs) ys (bt_loop cfg sig i xs s)"
  by (induction xs arbitrary: i s) simp_all

lemma equity_kept [simp]:
  "bs_equity (close_position cfg i raw reason s) = bs_equity s" "bs_equity (open_position cfg i b s) = bs_equity s"
  "bs_equity (new_bar_day b s) = bs_equity s"
  by (simp_all add: close_position_def open_position_def new_bar_day_def Let_def)

lemma equity_kept_steps [simp]: "bs_equity (act_at_open cfg sig i b s) = bs_equity s" "bs_equity (check_stop cfg i b s) = bs_equity s"
  by (simp_all add: act_at_open_def check_stop_def Let_def split: option.split)

lemma bt_bar_equity: "\<exists>e. bs_equity (bt_bar cfg sig i b s) = bs_equity s @ [e]"
  by (simp add: bt_bar_def mark_to_market_def Let_def)

lemma bt_loop_equity: "\<exists>es. bs_equity (bt_loop cfg sig i bs s) = bs_equity s @ es \<and> length es = length bs"
proof (induction bs arbitrary: i s)
  case (Cons b bs)
  obtain e where e: "bs_equity (bt_bar cfg sig i b s) = bs_equity s @ [e]" using bt_bar_equity by blast
  obtain es where "bs_equity (bt_loop cfg sig (Suc i) bs (bt_bar cfg sig i b s)) = bs_equity (bt_bar cfg sig i b s) @ es" "length es = length bs"
    using Cons.IH by blast
  then show ?case using e by (intro exI [of _ "e # es"]) simp
qed simp

lemma act_at_open_cong: "(0 < i \<Longrightarrow> signal_at sig (i - 1) = signal_at sig' (i - 1)) \<Longrightarrow> act_at_open cfg sig i b s = act_at_open cfg sig' i b s"
  by (simp add: act_at_open_def Let_def)

lemma bt_loop_cong:
  "(\<And>j. j + 1 < i + length bs \<Longrightarrow> signal_at sig j = signal_at sig' j) \<Longrightarrow> bt_loop cfg sig i bs s = bt_loop cfg sig' i bs s"
proof (induction bs arbitrary: i s)
  case (Cons b bs)
  have "bt_bar cfg sig i b s = bt_bar cfg sig' i b s"
    unfolding bt_bar_def by (subst act_at_open_cong [where sig' = sig']) (use Cons.prems in auto)
  then show ?case using Cons by simp
qed simp

lemma butlast_take: "k < length xs \<Longrightarrow> take k (butlast xs @ ys) = take k xs"
  by (simp add: butlast_conv_take)

lemma simulate_take:
  assumes "k < length bars"
  shows "take k (bs_equity (bt_simulate cfg bars sig)) = bs_equity (bt_loop cfg sig 0 (take k bars) (bt_init cfg))"
proof -
  let ?a = "bt_loop cfg sig 0 (take k bars) (bt_init cfg)" and ?s = "bt_loop cfg sig 0 bars (bt_init cfg)"
  have s: "?s = bt_loop cfg sig (length (take k bars)) (drop k bars) ?a"
    using bt_loop_append [of cfg sig 0 "take k bars" "drop k bars" "bt_init cfg"] by simp
  obtain es where a: "bs_equity ?a = es" "length es = k"
    using bt_loop_equity [of cfg sig 0 "take k bars" "bt_init cfg"] assms by (auto simp: bt_init_def)
  obtain fs where f: "bs_equity ?s = es @ fs" "length fs = length bars - k"
    using bt_loop_equity [of cfg sig "length (take k bars)" "drop k bars" ?a] a(1) unfolding s by auto
  have "take k (bs_equity (bt_finish cfg bars ?s)) = es"
    using a(2) f assms by (cases fs) (auto simp: bt_finish_def close_position_def Let_def butlast_append)
  then show ?thesis using a(1) by (simp add: bt_simulate_def)
qed

text \<open>
  The equity curve up to a candle is the same for any two histories that agree on the candles before it and for any two
  series of signals that agree on the signals that were known when they were acted on.
\<close>

lemma run_agrees:
  assumes "k < length bars" "k < length bars'" "take k bars = take k bars'" "\<And>j. j + 1 < k \<Longrightarrow> signal_at sig j = signal_at sig' j"
  shows "take k (br_equity (bt_run np bars sig cfg)) = take k (br_equity (bt_run np bars' sig' cfg))"
proof -
  have "bt_loop cfg sig 0 (take k bars) (bt_init cfg) = bt_loop cfg sig' 0 (take k bars) (bt_init cfg)"
    by (rule bt_loop_cong) (use assms(1,4) in auto)
  then show ?thesis using simulate_take [OF assms(1), of cfg sig] simulate_take [OF assms(2), of cfg sig'] assms(3)
    by (simp add: bt_run_def Let_def)
qed

section \<open>Every trade obeys the rules\<close>

definition entry_price :: "bt_config \<Rightarrow> candle \<Rightarrow> rat" where
  "entry_price cfg b = fmul (cd_open b) (fadd 1 (slip cfg))"

definition stop_of :: "bt_config \<Rightarrow> rat \<Rightarrow> rat" where
  "stop_of cfg px = fmul px (fsub 1 (fdiv (the (bc_stop_pct cfg)) 100))"

text \<open>What may have closed a trade, and the price before slippage it was closed at.\<close>

definition exit_rule :: "bt_config \<Rightarrow> candle list \<Rightarrow> rat option list \<Rightarrow> trade \<Rightarrow> rat \<Rightarrow> bool" where
  "exit_rule cfg bars sig t raw \<longleftrightarrow>
     (let i = tr_exit_i t; b = bars ! i; stop = stop_of cfg (tr_entry_px t) in
      tr_reason t = ''signal'' \<and> tr_entry_i t < i \<and> signal_at sig (i - 1) < 0 \<and> raw = cd_open b
      \<or> tr_reason t = ''time'' \<and> tr_entry_i t < i \<and> given (bc_max_hold_bars cfg) \<and> the (bc_max_hold_bars cfg) \<le> int i - int (tr_entry_i t) \<and> raw = cd_open b
      \<or> tr_reason t = ''stop'' \<and> given (bc_stop_pct cfg) \<and> cd_low b \<le> stop \<and> raw = min stop (cd_open b)
      \<or> tr_reason t = ''end'' \<and> i = length bars - 1 \<and> raw = cd_close b)"

definition entered :: "bt_config \<Rightarrow> candle list \<Rightarrow> rat option list \<Rightarrow> nat \<Rightarrow> rat \<Rightarrow> bool" where
  "entered cfg bars sig i px \<longleftrightarrow> 0 < i \<and> 0 < signal_at sig (i - 1) \<and> px = entry_price cfg (bars ! i)"

definition trade_ok :: "bt_config \<Rightarrow> candle list \<Rightarrow> rat option list \<Rightarrow> trade \<Rightarrow> bool" where
  "trade_ok cfg bars sig t \<longleftrightarrow> entered cfg bars sig (tr_entry_i t) (tr_entry_px t) \<and> tr_entry_i t \<le> tr_exit_i t \<and> 0 < tr_qty t
     \<and> (\<exists>raw. tr_exit_px t = fmul raw (fsub 1 (slip cfg)) \<and> exit_rule cfg bars sig t raw)"

definition after_exits :: "trade list \<Rightarrow> nat \<Rightarrow> bool" where
  "after_exits ts i \<longleftrightarrow> (\<forall>t\<in>set ts. tr_exit_i t < i)"

text \<open>The invariant of the loop before candle \<open>k\<close>.\<close>

definition bt_ok :: "bt_config \<Rightarrow> candle list \<Rightarrow> rat option list \<Rightarrow> nat \<Rightarrow> bt_state \<Rightarrow> bool" where
  "bt_ok cfg bars sig k s \<longleftrightarrow> 0 \<le> bs_qty s
     \<and> (0 < bs_qty s \<longrightarrow> bs_entry_i s < k \<and> entered cfg bars sig (bs_entry_i s) (bs_entry_px s) \<and> after_exits (bs_trades s) (bs_entry_i s)
          \<and> bs_stop_px s = (if given (bc_stop_pct cfg) then Some (stop_of cfg (bs_entry_px s)) else None))
     \<and> list_all (trade_ok cfg bars sig) (bs_trades s) \<and> after_exits (bs_trades s) k
     \<and> sorted_wrt (\<lambda>a b. tr_exit_i a < tr_entry_i b) (bs_trades s)"

lemma after_exits_mono: "after_exits ts i \<Longrightarrow> i \<le> j \<Longrightarrow> after_exits ts j"
  by (auto simp: after_exits_def)

lemma close_position_ok:
  assumes "bt_ok cfg bars sig k s" "0 < bs_qty s" "bs_entry_i s \<le> i" "i < k'" "k \<le> k'"
    and "exit_rule cfg bars sig (last (bs_trades (close_position cfg i raw reason s))) raw"
  shows "bt_ok cfg bars sig k' (close_position cfg i raw reason s) \<and> bs_qty (close_position cfg i raw reason s) = 0"
  using assms after_exits_mono
  by (auto simp: bt_ok_def close_position_def Let_def trade_ok_def sorted_wrt_append after_exits_def)

lemma bt_bar_ok:
  assumes ok: "bt_ok cfg bars sig i s" and b: "b = bars ! i" and pos: "0 < cd_open b" "0 \<le> bc_slippage_bps cfg"
  shows "bt_ok cfg bars sig (Suc i) (bt_bar cfg sig i b s)"
proof -
  define s1 where "s1 = new_bar_day b s"
  have ok1: "bt_ok cfg bars sig i s1" using ok by (simp add: s1_def new_bar_day_def bt_ok_def)
  define s2 where "s2 = act_at_open cfg sig i b s1"
  have px: "0 < entry_price cfg b"
    using pos by (simp add: entry_price_def fmul_def fadd_def slip_def flt.R_pos_iff add_pos_nonneg fdiv_nonneg)
  have ok2: "bt_ok cfg bars sig (Suc i) s2"
  proof -
    have mono: "bt_ok cfg bars sig (Suc i) s1" using ok1 after_exits_mono by (auto simp: bt_ok_def)
    consider (none) "s2 = s1" | (close) x where "0 < i" "x = signal_at sig (i - 1)" "0 < bs_qty s1"
        "x < 0 \<or> given (bc_max_hold_bars cfg) \<and> the (bc_max_hold_bars cfg) \<le> int i - int (bs_entry_i s1)"
        "s2 = close_position cfg i (cd_open b) (if x < 0 then ''signal'' else ''time'') s1"
      | (enter) "0 < i" "bs_qty s1 = 0" "0 < signal_at sig (i - 1)" "s2 = open_position cfg i b s1"
      unfolding s2_def act_at_open_def Let_def by (metis gr0I)
    then show ?thesis
    proof cases
      case close
      have e: "bs_entry_i s1 < i" using ok1 close(3) by (simp add: bt_ok_def)
      show ?thesis unfolding close(5)
        by (rule conjunct1 [OF close_position_ok [OF ok1 close(3)]])
          (use e close(2,4) b in \<open>auto simp: exit_rule_def close_position_def Let_def\<close>)
    next
      case enter
      let ?n = "entry_notional cfg (bs_cash s1) (entry_price cfg b)"
      show ?thesis
      proof (cases "0 < ?n")
        case True
        have "0 < fdiv ?n (entry_price cfg b)" using True px by (simp add: fdiv_def flt.R_pos_iff)
        then show ?thesis using enter ok1 b True
          by (auto simp: bt_ok_def open_position_def Let_def entry_price_def entered_def stop_of_def after_exits_def)
      next
        case False
        then show ?thesis using enter mono by (simp add: open_position_def Let_def entry_price_def)
      qed
    qed (use mono in simp)
  qed
  define s3 where "s3 = check_stop cfg i b s2"
  have "bt_ok cfg bars sig (Suc i) s3"
  proof (cases "\<exists>stop. bs_stop_px s2 = Some stop \<and> 0 < bs_qty s2 \<and> cd_low b \<le> stop")
    case True
    then obtain stop where st: "bs_stop_px s2 = Some stop" "0 < bs_qty s2" "cd_low b \<le> stop" by blast
    then have s: "given (bc_stop_pct cfg)" "stop = stop_of cfg (bs_entry_px s2)" "bs_entry_i s2 \<le> i"
      using ok2 by (auto simp: bt_ok_def split: if_splits)
    have "s3 = close_position cfg i (min stop (cd_open b)) ''stop'' s2" using st by (simp add: s3_def check_stop_def)
    then show ?thesis
      by (simp only:, intro conjunct1 [OF close_position_ok [OF ok2 st(2) s(3)]])
        (use s st b in \<open>auto simp: exit_rule_def close_position_def Let_def\<close>)
  next
    case False
    then have "s3 = s2" by (auto simp: s3_def check_stop_def split: option.split)
    then show ?thesis using ok2 by simp
  qed
  then show ?thesis by (simp add: bt_bar_def s1_def s2_def s3_def mark_to_market_def Let_def bt_ok_def)
qed

lemma bt_loop_ok:
  assumes "0 \<le> bc_slippage_bps cfg"
  shows "bt_ok cfg bars sig i s \<Longrightarrow> drop i bars = bs \<Longrightarrow> i \<le> length bars \<Longrightarrow> \<forall>b\<in>set bs. 0 < cd_open b \<Longrightarrow>
    bt_ok cfg bars sig (length bars) (bt_loop cfg sig i bs s)"
proof (induction bs arbitrary: i s)
  case (Cons b bs)
  have i: "i < length bars" using Cons.prems(2) by (metis drop_eq_Nil list.distinct(1) not_le)
  have b: "b = bars ! i" "drop (Suc i) bars = bs" using Cons.prems(2) i by (metis Cons_nth_drop_Suc list.inject)+
  show ?case using Cons.IH [OF bt_bar_ok [OF Cons.prems(1) b(1) _ assms] b(2)] Cons.prems(4) i by simp
qed simp

text \<open>
  C22: every trade obeys the rules of the simulation. For candles with positive opening prices and a slippage that is not negative, every
  trade was entered at the open, with slippage, of a candle after one with a buy signal; it was closed not before it was
  entered, for the reason it states: after a sell signal or the holding limit at the next open, by the stop at the
  stop price or at the open if that was lower (never better), or at the last close; and a trade is entered only
  after the one before it was closed, so there is never more than one position.
\<close>

theorem trades_obey_rules:
  assumes "\<forall>b\<in>set bars. 0 < cd_open b" "0 \<le> bc_slippage_bps cfg"
  shows "list_all (trade_ok cfg bars sig) (br_trades (bt_run np bars sig cfg))
    \<and> sorted_wrt (\<lambda>a b. tr_exit_i a < tr_entry_i b) (br_trades (bt_run np bars sig cfg))
    \<and> list_all (\<lambda>t. tr_exit_i t < length bars) (br_trades (bt_run np bars sig cfg))"
proof -
  let ?s = "bt_loop cfg sig 0 bars (bt_init cfg)"
  have ok: "bt_ok cfg bars sig (length bars) ?s"
    using bt_loop_ok [OF assms(2), of bars sig 0 "bt_init cfg" bars] assms(1) by (simp add: bt_ok_def bt_init_def after_exits_def)
  have "bt_ok cfg bars sig (length bars) (bt_simulate cfg bars sig)"
  proof (cases "0 < bs_qty ?s")
    case True
    then have e: "bs_entry_i ?s < length bars" using ok by (simp add: bt_ok_def)
    then have l: "last bars = bars ! (length bars - 1)" by (intro last_conv_nth) auto
    let ?c = "close_position cfg (length bars - 1) (cd_close (last bars)) ''end'' ?s"
    have "bt_ok cfg bars sig (length bars) ?c"
      by (rule conjunct1 [OF close_position_ok [OF ok True]]) (use e l in \<open>auto simp: exit_rule_def close_position_def Let_def\<close>)
    then show ?thesis using True by (simp add: bt_simulate_def bt_finish_def Let_def bt_ok_def)
  qed (use ok in \<open>simp add: bt_simulate_def bt_finish_def\<close>)
  then show ?thesis by (simp add: bt_ok_def bt_run_def Let_def after_exits_def list_all_iff)
qed

section \<open>A concrete history\<close>

definition demo_bar :: "int \<Rightarrow> rat \<Rightarrow> rat \<Rightarrow> rat \<Rightarrow> candle" where
  "demo_bar i op low cl = \<lparr>cd_time = i * 3600000000, cd_open = op, cd_high = max op cl, cd_low = low, cd_close = cl, cd_volume = 1\<rparr>"

definition demo_bars :: "candle list" where
  "demo_bars = [demo_bar 0 100 99 100, demo_bar 1 100 90 100, demo_bar 2 80 60 70]"

definition demo_bt :: bt_config where
  "demo_bt = default_bt_config\<lparr>bc_fee_rate := 0, bc_slippage_bps := 0, bc_sizing := ''all_in'', bc_stop_pct := Some 25\<rparr>"

definition demo_np :: reductions where
  "demo_np = \<lparr>np_mean = (\<lambda>xs. sum_list xs / of_nat (length xs)), np_std = (\<lambda>_. 0), np_sum = sum_list, np_sqrt = (\<lambda>x. x), np_pow = (\<lambda>x _. x)\<rparr>"

lemma demo_trades:
  "map (\<lambda>t. (tr_entry_i t, tr_entry_px t, tr_exit_i t, tr_exit_px t, tr_reason t)) (bs_trades (bt_simulate demo_bt demo_bars [Some 1, None, None]))
     = [(1, 100, 2, 75, ''stop'')]"
  by code_simp

theorem trades_obey_rules_witness:
  "map tr_reason (br_trades (bt_run demo_np demo_bars [Some 1, None, None] demo_bt)) = [''stop'']
   \<and> list_all (trade_ok demo_bt demo_bars [Some 1, None, None]) (br_trades (bt_run demo_np demo_bars [Some 1, None, None] demo_bt))"
proof
  show "map tr_reason (br_trades (bt_run demo_np demo_bars [Some 1, None, None] demo_bt)) = [''stop'']"
    using demo_trades by (auto simp: bt_run_def Let_def)
  show "list_all (trade_ok demo_bt demo_bars [Some 1, None, None]) (br_trades (bt_run demo_np demo_bars [Some 1, None, None] demo_bt))"
    using trades_obey_rules [of demo_bars demo_bt "[Some 1, None, None]" demo_np]
    by (simp add: demo_bars_def demo_bar_def demo_bt_def default_bt_config_def)
qed

end
