(* ===== verification/Indicators.thy ===== *)
theory Indicators
  imports Market
begin

text \<open>
  Technical indicators: \<^verbatim>\<open>indicators.py\<close>. A column is a list of optional rationals, \<open>None\<close> for NaN. The pandas operations
  used (exponential and rolling windows, differences) are written out on exact rationals; the rounding inside pandas and
  the standard deviation are left to the library, the latter as a parameter. It is proved that every indicator is causal, a value
  depends on the candles up to its own only, and that averages and the RSI stay in their ranges.
\<close>

section \<open>Columns and causality\<close>

type_synonym series = "rat option list"

text \<open>A function on columns is causal when it keeps the length and commutes with cutting off later rows.\<close>

definition causal :: "('a list \<Rightarrow> 'b list) \<Rightarrow> bool" where
  "causal f \<longleftrightarrow> (\<forall>xs. length (f xs) = length xs) \<and> (\<forall>xs k. f (take k xs) = take k (f xs))"

named_theorems causal_intros

lemma causalI: "(\<And>xs. length (f xs) = length xs) \<Longrightarrow> (\<And>xs k. f (take k xs) = take k (f xs)) \<Longrightarrow> causal f"
  by (simp add: causal_def)

lemma causal_length: "causal f \<Longrightarrow> length (f xs) = length xs"
  by (simp add: causal_def)

lemma causal_take: "causal f \<Longrightarrow> f (take k xs) = take k (f xs)"
  by (simp add: causal_def)

lemma causal_comp: "causal f \<Longrightarrow> causal g \<Longrightarrow> causal (\<lambda>xs. f (g xs))"
  by (simp add: causal_def)

lemma causal_id [causal_intros]: "causal (\<lambda>xs. xs)"
  by (rule causalI) simp_all

lemma causal_map [causal_intros]: "causal f \<Longrightarrow> causal (\<lambda>xs. map g (f xs))"
  by (rule causal_comp [of "map g"]) (auto intro: causalI simp: take_map)

lemma causal_zip [causal_intros]: "causal f \<Longrightarrow> causal g \<Longrightarrow> causal (\<lambda>xs. zip (f xs) (g xs))"
  by (rule causalI) (simp_all add: causal_length causal_take take_zip)

text \<open>Running through a column with a state, and the column of the values of a function at each prefix.\<close>

fun scan :: "('s \<Rightarrow> 'a \<Rightarrow> 's \<times> 'b) \<Rightarrow> 's \<Rightarrow> 'a list \<Rightarrow> 'b list" where
  "scan f s [] = []"
| "scan f s (x # xs) = snd (f s x) # scan f (fst (f s x)) xs"

lemma causal_scan: "causal (scan f s)"
proof (rule causalI)
  show "length (scan f s xs) = length xs" for xs by (induction xs arbitrary: s) simp_all
  show "scan f s (take k xs) = take k (scan f s xs)" for xs k
    by (induction xs arbitrary: s k) (simp_all add: take_Cons split: nat.split)
qed

definition by_prefix :: "('a list \<Rightarrow> 'b) \<Rightarrow> 'a list \<Rightarrow> 'b list" where
  "by_prefix g xs = map (\<lambda>i. g (take (Suc i) xs)) [0..<length xs]"

lemma causal_by_prefix: "causal (by_prefix g)"
proof (rule causalI)
  show "by_prefix g (take k xs) = take k (by_prefix g xs)" for xs k
    by (rule nth_equalityI) (simp_all add: by_prefix_def min_absorb1)
qed (simp add: by_prefix_def)

section \<open>The indicators\<close>

text \<open>
  \<^verbatim>\<open>series.ewm(alpha=\<alpha>, adjust=False).mean()\<close>: missing values at the start stay missing, then \<open>y = (1 - \<alpha>) y' + \<alpha> x\<close>; columns
  with a missing value in between do not occur.
\<close>

definition ewm_step :: "rat \<Rightarrow> rat option \<Rightarrow> rat option \<Rightarrow> rat option \<times> rat option" where
  "ewm_step \<alpha> prev x = (let y = (case (prev, x) of (Some p, Some v) \<Rightarrow> Some ((1 - \<alpha>) * p + \<alpha> * v) | (Some p, None) \<Rightarrow> Some p | (None, v) \<Rightarrow> v) in (y, y))"

definition ewm :: "rat \<Rightarrow> series \<Rightarrow> series" where
  "ewm \<alpha> = scan (ewm_step \<alpha>) None"

definition ema :: "series \<Rightarrow> int \<Rightarrow> series" where
  "ema s period = ewm (2 / (of_int period + 1)) s"

text \<open>\<^verbatim>\<open>diff\<close>, and \<^verbatim>\<open>clip\<close> of a column.\<close>

definition diff :: "series \<Rightarrow> series" where
  "diff = scan (\<lambda>prev x. (x, case (prev, x) of (Some p, Some v) \<Rightarrow> Some (v - p) | _ \<Rightarrow> None)) None"

definition gains :: "series \<Rightarrow> series" where
  "gains s = map (map_option (\<lambda>d. max d 0)) (diff s)"

definition losses :: "series \<Rightarrow> series" where
  "losses s = map (map_option (\<lambda>d. - min d 0)) (diff s)"

text \<open>The quotient of the averages, missing when the average loss is zero, and the RSI with 50 for a missing quotient.\<close>

definition rel_strength :: "rat option \<Rightarrow> rat option \<Rightarrow> rat option" where
  "rel_strength g l = (case (g, l) of (Some a, Some b) \<Rightarrow> if b = 0 then None else Some (a / b) | _ \<Rightarrow> None)"

definition rsi_value :: "rat option \<Rightarrow> rat option" where
  "rsi_value rs = (case rs of None \<Rightarrow> Some 50 | Some q \<Rightarrow> Some (100 - 100 / (1 + q)))"

definition rsi :: "series \<Rightarrow> int \<Rightarrow> series" where
  "rsi s period = map rsi_value (map2 rel_strength (ewm (1 / of_int period) (gains s)) (ewm (1 / of_int period) (losses s)))"

definition sub_series :: "series \<Rightarrow> series \<Rightarrow> series" where
  "sub_series s t = map2 (\<lambda>a b. case (a, b) of (Some x, Some y) \<Rightarrow> Some (x - y) | _ \<Rightarrow> None) s t"

definition macd :: "series \<Rightarrow> int \<Rightarrow> int \<Rightarrow> int \<Rightarrow> series \<times> series \<times> series" where
  "macd s fast slow sig = (let line = sub_series (ema s fast) (ema s slow); signal_line = ema line sig in (line, signal_line, sub_series line signal_line))"

text \<open>\<^verbatim>\<open>series.rolling(n)\<close> with an aggregation: missing until \<open>n\<close> values, all present, are in the window.\<close>

definition window_value :: "nat \<Rightarrow> (rat list \<Rightarrow> 'b) \<Rightarrow> series \<Rightarrow> 'b option" where
  "window_value n f p = (let w = drop (length p - n) p in if n \<le> length p \<and> None \<notin> set w then Some (f (map the w)) else None)"

definition rolling :: "nat \<Rightarrow> (rat list \<Rightarrow> 'b) \<Rightarrow> series \<Rightarrow> 'b option list" where
  "rolling n f = by_prefix (window_value n f)"

definition mean :: "rat list \<Rightarrow> rat" where
  "mean xs = sum_list xs / of_nat (length xs)"

definition bollinger_bands :: "(rat list \<Rightarrow> rat) \<Rightarrow> series \<Rightarrow> nat \<Rightarrow> rat \<Rightarrow> series \<times> series \<times> series" where
  "bollinger_bands std s period num_std =
     (let sma = rolling period mean s; sd = rolling period std s;
          band = (\<lambda>k. map2 (\<lambda>m d. case (m, d) of (Some x, Some y) \<Rightarrow> Some (x + k * y) | _ \<Rightarrow> None) sma sd)
      in (band num_std, sma, band (- num_std)))"

record indicator_frame =
  if_ema_fast :: series
  if_ema_mid :: series
  if_ema_slow :: series
  if_rsi :: series
  if_macd :: series
  if_macd_signal :: series
  if_macd_hist :: series
  if_bb_upper :: series
  if_bb_mid :: series
  if_bb_lower :: series

definition closes :: "'k candle_scheme list \<Rightarrow> series" where
  "closes bars = map (\<lambda>b. Some (cd_close b)) bars"

definition add_all_indicators :: "(rat list \<Rightarrow> rat) \<Rightarrow> config \<Rightarrow> 'k candle_scheme list \<Rightarrow> indicator_frame" where
  "add_all_indicators std cfg bars =
     (let c = closes bars; (line, sig, hist) = macd c (MACD_FAST cfg) (MACD_SLOW cfg) (MACD_SIGNAL cfg);
          (upper, mid, lower) = bollinger_bands std c 20 2
      in \<lparr>if_ema_fast = ema c (EMA_FAST cfg), if_ema_mid = ema c (EMA_MID cfg), if_ema_slow = ema c (EMA_SLOW cfg),
          if_rsi = rsi c (RSI_PERIOD cfg), if_macd = line, if_macd_signal = sig, if_macd_hist = hist,
          if_bb_upper = upper, if_bb_mid = mid, if_bb_lower = lower\<rparr>)"

text \<open>The last row, as the strategy reads it; the frame is not empty.\<close>

definition last_row :: "indicator_frame \<Rightarrow> indicators" where
  "last_row f = \<lparr>in_ema_fast = the (last (if_ema_fast f)), in_ema_mid = the (last (if_ema_mid f)), in_ema_slow = the (last (if_ema_slow f)),
     in_rsi = the (last (if_rsi f)), in_macd_hist = the (last (if_macd_hist f))\<rparr>"

definition indicator_columns :: "indicator_frame \<Rightarrow> series list" where
  "indicator_columns f = [if_ema_fast f, if_ema_mid f, if_ema_slow f, if_rsi f, if_macd f, if_macd_signal f, if_macd_hist f,
     if_bb_upper f, if_bb_mid f, if_bb_lower f]"

section \<open>Every column is aligned and causal\<close>

lemma causal_ewm [causal_intros]: "causal f \<Longrightarrow> causal (\<lambda>s. ewm \<alpha> (f s))"
  unfolding ewm_def by (rule causal_comp [OF causal_scan])

lemma causal_ema [causal_intros]: "causal f \<Longrightarrow> causal (\<lambda>s. ema (f s) n)"
  unfolding ema_def by (intro causal_intros)

lemma causal_diff [causal_intros]: "causal f \<Longrightarrow> causal (\<lambda>s. diff (f s))"
  unfolding diff_def by (rule causal_comp [OF causal_scan])

lemma causal_rolling [causal_intros]: "causal f \<Longrightarrow> causal (\<lambda>s. rolling n g (f s))"
  unfolding rolling_def by (rule causal_comp [OF causal_by_prefix])

lemma causal_sub [causal_intros]: "causal f \<Longrightarrow> causal g \<Longrightarrow> causal (\<lambda>s. sub_series (f s) (g s))"
  unfolding sub_series_def by (intro causal_intros)

lemma causal_rsi: "causal (\<lambda>s. rsi s n)"
  unfolding rsi_def gains_def losses_def by (intro causal_intros)

lemma causal_macd:
  "causal (\<lambda>s. fst (macd s m n k))" "causal (\<lambda>s. fst (snd (macd s m n k)))" "causal (\<lambda>s. snd (snd (macd s m n k)))"
  unfolding macd_def Let_def fst_conv snd_conv by (intro causal_intros)+

lemma causal_bollinger:
  "causal (\<lambda>s. fst (bollinger_bands std s n x))" "causal (\<lambda>s. fst (snd (bollinger_bands std s n x)))"
  "causal (\<lambda>s. snd (snd (bollinger_bands std s n x)))"
  unfolding bollinger_bands_def Let_def fst_conv snd_conv by (intro causal_intros)+

lemma causal_closes: "causal closes"
  unfolding closes_def by (intro causal_intros)

lemma frame_columns:
  "indicator_columns (add_all_indicators std cfg bars) = map (\<lambda>f. f (closes bars))
     [\<lambda>s. ema s (EMA_FAST cfg), \<lambda>s. ema s (EMA_MID cfg), \<lambda>s. ema s (EMA_SLOW cfg), \<lambda>s. rsi s (RSI_PERIOD cfg),
      \<lambda>s. fst (macd s (MACD_FAST cfg) (MACD_SLOW cfg) (MACD_SIGNAL cfg)), \<lambda>s. fst (snd (macd s (MACD_FAST cfg) (MACD_SLOW cfg) (MACD_SIGNAL cfg))),
      \<lambda>s. snd (snd (macd s (MACD_FAST cfg) (MACD_SLOW cfg) (MACD_SIGNAL cfg))), \<lambda>s. fst (bollinger_bands std s 20 2),
      \<lambda>s. fst (snd (bollinger_bands std s 20 2)), \<lambda>s. snd (snd (bollinger_bands std s 20 2))]"
  by (simp add: indicator_columns_def add_all_indicators_def case_prod_beta Let_def)

lemma frame_columns_causal:
  assumes "causal f" shows "length (f (closes bars)) = length bars" "f (closes (take k bars)) = take k (f (closes bars))"
  using causal_length [OF causal_comp [OF assms causal_closes]] causal_take [OF causal_comp [OF assms causal_closes]] by auto

text \<open>
  The indicator frame is well formed and causal. Every column has one value per candle, and the columns of the first \<open>k\<close> candles are the
  first \<open>k\<close> values of the columns of the whole history: no indicator value depends on a later candle.
\<close>

theorem indicators_causal:
  "map length (indicator_columns (add_all_indicators std cfg bars)) = replicate 10 (length bars)
   \<and> indicator_columns (add_all_indicators std cfg (take k bars)) = map (take k) (indicator_columns (add_all_indicators std cfg bars))"
proof -
  have l: "length (f (closes bars)) = length bars" "f (closes (take k bars)) = take k (f (closes bars))" if "causal f" for f
    using frame_columns_causal [OF that] by auto
  show ?thesis
    unfolding frame_columns list.map
    by (simp only: l [OF causal_ema [OF causal_id]] l [OF causal_rsi] l [OF causal_macd(1)] l [OF causal_macd(2)] l [OF causal_macd(3)]
        l [OF causal_bollinger(1)] l [OF causal_bollinger(2)] l [OF causal_bollinger(3)]) (simp add: eval_nat_numeral)
qed

section \<open>Ranges\<close>

text \<open>A property of the present values of a column.\<close>

definition all_values :: "(rat \<Rightarrow> bool) \<Rightarrow> series \<Rightarrow> bool" where
  "all_values P s \<longleftrightarrow> list_all (pred_option P) s"

lemma all_values_simps [simp]:
  "all_values P []" "all_values P (None # s) \<longleftrightarrow> all_values P s" "all_values P (Some v # s) \<longleftrightarrow> P v \<and> all_values P s"
  by (simp_all add: all_values_def)

lemma all_values_map: "(\<And>v. P v \<Longrightarrow> Q (g v)) \<Longrightarrow> all_values P s \<Longrightarrow> all_values Q (map (map_option g) s)"
  by (induction s) (auto simp: all_values_def option.pred_map elim: option.pred_mono_strong)

lemma ewm_values:
  assumes "\<And>x y. P x \<Longrightarrow> P y \<Longrightarrow> P ((1 - \<alpha>) * x + \<alpha> * y)" and "all_values P s"
  shows "all_values P (ewm \<alpha> s)"
proof -
  have "all_values P (scan (ewm_step \<alpha>) p s)" if "pred_option P p" for p
    using that assms(2)
  proof (induction s arbitrary: p)
    case (Cons x s)
    have "pred_option P (fst (ewm_step \<alpha> p x))" "fst (ewm_step \<alpha> p x) = snd (ewm_step \<alpha> p x)"
      using Cons.prems assms(1) by (auto simp: ewm_step_def all_values_def Let_def split: option.splits)
    then show ?case using Cons by (simp add: all_values_def)
  qed simp
  then show ?thesis by (simp add: ewm_def)
qed

lemma convex_mix:
  assumes "0 \<le> \<alpha>" "\<alpha> \<le> (1 :: rat)" "lo \<le> x" "x \<le> hi" "lo \<le> y" "y \<le> hi"
  shows "lo \<le> (1 - \<alpha>) * x + \<alpha> * y" "(1 - \<alpha>) * x + \<alpha> * y \<le> hi"
proof -
  have "(1 - \<alpha>) * lo + \<alpha> * lo \<le> (1 - \<alpha>) * x + \<alpha> * y" using assms by (intro add_mono mult_left_mono) auto
  then show "lo \<le> (1 - \<alpha>) * x + \<alpha> * y" by (simp add: algebra_simps)
  have "(1 - \<alpha>) * x + \<alpha> * y \<le> (1 - \<alpha>) * hi + \<alpha> * hi" using assms by (intro add_mono mult_left_mono) auto
  then show "(1 - \<alpha>) * x + \<alpha> * y \<le> hi" by (simp add: algebra_simps)
qed

lemma ema_between:
  assumes "1 \<le> n" "all_values (\<lambda>v. lo \<le> v \<and> v \<le> hi) s"
  shows "all_values (\<lambda>v. lo \<le> v \<and> v \<le> hi) (ema s n)"
  unfolding ema_def by (rule ewm_values) (use assms convex_mix [of "2 / (of_int n + 1)" lo _ hi] in \<open>auto simp: field_simps\<close>)

lemma diff_of_prices: "all_values P (map (map_option g) (diff s)) \<longleftrightarrow> all_values (\<lambda>d. P (g d)) (diff s)"
  by (simp add: all_values_def list.pred_map option.pred_map o_def)

lemma nonneg_averages: "1 \<le> n \<Longrightarrow> all_values ((\<le>) 0) (ewm (1 / of_int n) (gains s)) \<and> all_values ((\<le>) 0) (ewm (1 / of_int n) (losses s))"
proof -
  assume n: "1 \<le> n"
  have mix: "0 \<le> (1 - 1 / of_int n) * x + 1 / of_int n * (y :: rat)" if "0 \<le> x" "0 \<le> y" for x y
    using n that by (intro add_nonneg_nonneg mult_nonneg_nonneg) auto
  have "all_values ((\<le>) 0) (map (map_option g) (diff s))" if "\<And>d. 0 \<le> g d" for g :: "rat \<Rightarrow> rat"
    using that by (auto simp: all_values_def list_all_iff option.pred_map option.pred_True o_def)
  then show ?thesis by (intro conjI ewm_values mix) (auto simp: gains_def losses_def)
qed

lemma rsi_range: "0 \<le> q \<Longrightarrow> 0 \<le> 100 - 100 / (1 + q) \<and> 100 - 100 / (1 + q) \<le> (100 :: rat)"
  by (simp add: field_simps)

lemma rsi_values: "list_all (\<lambda>y. \<exists>v. y = Some v \<and> 0 \<le> v \<and> v \<le> 100) (rsi s n)" if "1 \<le> n"
proof -
  have "list_all (\<lambda>y. \<exists>v. y = Some v \<and> 0 \<le> v \<and> v \<le> 100) (map rsi_value (map2 rel_strength g l))"
    if "all_values ((\<le>) 0) g" "all_values ((\<le>) 0) l" for g l
    using that
  proof (induction g arbitrary: l)
    case (Cons a g)
    show ?case
    proof (cases l)
      case l: (Cons b l')
      have "\<exists>v. rsi_value (rel_strength a b) = Some v \<and> 0 \<le> v \<and> v \<le> 100"
        using Cons.prems l rsi_range by (auto simp: rsi_value_def rel_strength_def all_values_def split: option.splits)
      then show ?thesis using Cons.IH [of l'] Cons.prems l by (simp add: all_values_def)
    qed simp
  qed simp
  then show ?thesis unfolding rsi_def using nonneg_averages [OF \<open>1 \<le> n\<close>, of s] by blast
qed

section \<open>The row the strategy reads\<close>

definition present :: "series \<Rightarrow> bool" where
  "present s \<longleftrightarrow> None \<notin> set s"

lemma present_Cons [simp]: "present (x # s) \<longleftrightarrow> x \<noteq> None \<and> present s" "present []"
  by (cases x; simp add: present_def)+

lemma present_ewm [simp]: "present s \<Longrightarrow> present (ewm \<alpha> s)"
proof -
  have "present s \<Longrightarrow> present (scan (ewm_step \<alpha>) p s)" for p
    by (induction s arbitrary: p) (auto simp: ewm_step_def Let_def split: option.splits)
  then show "present s \<Longrightarrow> present (ewm \<alpha> s)" by (simp add: ewm_def)
qed

lemma present_ema [simp]: "present s \<Longrightarrow> present (ema s n)"
  by (simp add: ema_def)

lemma present_sub [simp]: "present s \<Longrightarrow> present t \<Longrightarrow> present (sub_series s t)"
  by (auto simp: present_def sub_series_def split: option.splits dest: set_zip_leftD set_zip_rightD)

lemma present_macd [simp]: "present s \<Longrightarrow> present (fst (macd s m n k)) \<and> present (fst (snd (macd s m n k))) \<and> present (snd (snd (macd s m n k)))"
  by (simp add: macd_def Let_def)

lemma present_closes [simp]: "present (closes bars)"
  by (auto simp: present_def closes_def)

lemma present_last: "present s \<Longrightarrow> s \<noteq> [] \<Longrightarrow> \<exists>v. last s = Some v"
  by (metis last_in_set not_None_eq present_def)

lemma last_value: "present s \<Longrightarrow> all_values P s \<Longrightarrow> s \<noteq> [] \<Longrightarrow> \<exists>v. last s = Some v \<and> P v"
  using present_last [of s] last_in_set [of s] by (fastforce simp: all_values_def list_all_iff)

lemma closes_between: "\<forall>b\<in>set bars. P (cd_close b) \<Longrightarrow> all_values P (closes bars)"
  by (auto simp: all_values_def closes_def list_all_iff)

text \<open>
  The row the strategy reads is well formed. For a frame that is not empty and periods of at least one, none of the values the strategy
  reads is missing; if every close lies between two bounds so do the three averages, and the RSI is between 0 and 100.
\<close>

theorem row_well_formed:
  assumes "bars \<noteq> []" "1 \<le> EMA_FAST cfg" "1 \<le> EMA_MID cfg" "1 \<le> EMA_SLOW cfg" "1 \<le> RSI_PERIOD cfg"
    and "\<forall>b\<in>set bars. lo \<le> cd_close b \<and> cd_close b \<le> hi"
  shows "None \<notin> set (map last (take 7 (indicator_columns (add_all_indicators std cfg bars))))
    \<and> (let r = last_row (add_all_indicators std cfg bars) in
         {in_ema_fast r, in_ema_mid r, in_ema_slow r} \<subseteq> {lo..hi} \<and> 0 \<le> in_rsi r \<and> in_rsi r \<le> 100)"
proof -
  let ?c = "closes bars"
  have ne: "f ?c \<noteq> []" if "causal f" for f :: "series \<Rightarrow> series"
    using frame_columns_causal(1) [OF that, of bars] assms(1) by auto
  have e: "\<exists>v. last (ema ?c n) = Some v \<and> lo \<le> v \<and> v \<le> hi" if "1 \<le> n" for n
    by (rule last_value) (auto simp: closes_between assms(6) that intro!: ema_between ne [OF causal_ema [OF causal_id]])
  obtain r where r: "last (rsi ?c (RSI_PERIOD cfg)) = Some r" "0 \<le> r" "r \<le> 100"
    using rsi_values [OF assms(5), of ?c] last_in_set [OF ne [OF causal_rsi]] unfolding list_all_iff by blast
  obtain f m l where f: "last (ema ?c (EMA_FAST cfg)) = Some f" "lo \<le> f" "f \<le> hi" and m: "last (ema ?c (EMA_MID cfg)) = Some m" "lo \<le> m" "m \<le> hi"
    and l: "last (ema ?c (EMA_SLOW cfg)) = Some l" "lo \<le> l" "l \<le> hi"
    using e [OF assms(2)] e [OF assms(3)] e [OF assms(4)] by blast
  let ?macd = "macd ?c (MACD_FAST cfg) (MACD_SLOW cfg) (MACD_SIGNAL cfg)"
  obtain x y z where "last (fst ?macd) = Some x" "last (fst (snd ?macd)) = Some y" "last (snd (snd ?macd)) = Some z"
    using present_last [OF _ ne [OF causal_macd(1)]] present_last [OF _ ne [OF causal_macd(2)]] present_last [OF _ ne [OF causal_macd(3)]]
      present_macd [OF present_closes] by metis
  then have "None \<notin> set (map last (take 7 (indicator_columns (add_all_indicators std cfg bars))))"
    unfolding frame_columns by (simp add: r f m l)
  moreover have "in_ema_fast (last_row (add_all_indicators std cfg bars)) = f" "in_ema_mid (last_row (add_all_indicators std cfg bars)) = m"
    "in_ema_slow (last_row (add_all_indicators std cfg bars)) = l" "in_rsi (last_row (add_all_indicators std cfg bars)) = r"
    by (simp_all add: last_row_def add_all_indicators_def case_prod_beta Let_def r f m l)
  ultimately show ?thesis using r f m l by (simp add: Let_def)
qed

text \<open>
  A rally without a falling close counts as neutral. When no candle closes below the one before, the average loss is zero, the quotient of
  the averages is missing and the RSI is 50, however strong the rise; the overbought rule of the strategy does not fire.
\<close>

theorem rally_is_neutral:
  assumes "sorted (map cd_close bars)"
  shows "rsi (closes bars) n = replicate (length bars) (Some 50)"
proof -
  have z: "all_values (\<lambda>d. - min d 0 = 0) (scan (\<lambda>prev x. (x, case (prev, x) of (Some p, Some v) \<Rightarrow> Some (v - p) | _ \<Rightarrow> None)) p (closes bs))"
    if "sorted (map cd_close bs)" "\<And>v. p = Some v \<Longrightarrow> \<forall>b\<in>set bs. v \<le> cd_close b" for p and bs :: "'a candle_scheme list"
    using that
  proof (induction bs arbitrary: p)
    case (Cons b bs)
    then show ?case by (cases p) (auto simp: closes_def all_values_def)
  qed (simp add: closes_def)
  have "all_values (\<lambda>d. d = 0) (losses (closes bars))"
    using z [OF assms, of None] by (simp add: losses_def diff_def all_values_def list.pred_map option.pred_map o_def)
  then have l: "all_values (\<lambda>d. d = 0) (ewm (1 / of_int n) (losses (closes bars)))" by (rule ewm_values [rotated]) simp
  have "rsi_value (rel_strength a b) = Some 50" if "pred_option (\<lambda>d. d = 0) b" for a b
    using that by (auto simp: rel_strength_def rsi_value_def split: option.splits)
  then have "set (rsi (closes bars) n) \<subseteq> {Some 50}"
    using l by (auto simp: rsi_def all_values_def list_all_iff dest!: set_zip_rightD)
  moreover have "length (rsi (closes bars) n) = length bars" by (rule frame_columns_causal(1) [OF causal_rsi])
  ultimately show ?thesis by (metis replicate_length_same singletonD subset_iff)
qed

definition rally_bar :: "int \<Rightarrow> candle" where
  "rally_bar i = \<lparr>cd_time = i, cd_open = of_int i, cd_high = of_int i, cd_low = of_int i, cd_close = of_int i, cd_volume = 1\<rparr>"

theorem rally_is_neutral_witness:
  "rsi (closes (map rally_bar [1, 2, 4, 8])) 14 = [Some 50, Some 50, Some 50, Some 50]"
  using rally_is_neutral [of "map rally_bar [1, 2, 4, 8]" 14] by (simp add: rally_bar_def eval_nat_numeral)

theorem row_well_formed_witness:
  "None \<notin> set (map last (take 7 (indicator_columns (add_all_indicators (\<lambda>_. 0) demo_config (map rally_bar [1, 2, 1])))))
    \<and> (let r = last_row (add_all_indicators (\<lambda>_. 0) demo_config (map rally_bar [1, 2, 1])) in
         {in_ema_fast r, in_ema_mid r, in_ema_slow r} \<subseteq> {1..2} \<and> 0 \<le> in_rsi r \<and> in_rsi r \<le> 100)"
  by (rule row_well_formed) (simp_all add: demo_config_def rally_bar_def)

end
