(* ===== verification/Research_Signals.thy ===== *)
theory Research_Signals
  imports Backtest Indicators
begin

text \<open>
  Signal generators of the research code: the V1 scores and the competitor baselines of \<^verbatim>\<open>research/strategies.py\<close>, the exposure
  rule of \<^verbatim>\<open>research/overlay.py\<close> and the signals of a model of \<^verbatim>\<open>research/ml.py\<close>. A signal column has one value per candle. Every
  generator is causal, so no backtest of one looks ahead; the exposure rule alternates between entering and leaving.
\<close>

section \<open>Comparisons with missing values\<close>

text \<open>A comparison of NumPy with a missing value is false.\<close>

definition gt :: "rat option \<Rightarrow> rat option \<Rightarrow> bool" where
  "gt a b = (case (a, b) of (Some x, Some y) \<Rightarrow> y < x | _ \<Rightarrow> False)"

definition ge :: "rat option \<Rightarrow> rat option \<Rightarrow> bool" where
  "ge a b = (case (a, b) of (Some x, Some y) \<Rightarrow> y \<le> x | _ \<Rightarrow> False)"

section \<open>V1 and its thresholds\<close>

text \<open>The number of closed candles the live engine hands the strategy.\<close>

definition warmup_bars :: "config \<Rightarrow> int" where
  "warmup_bars cfg = CANDLE_HISTORY_LIMIT cfg - (if SIGNAL_ON_CLOSED_CANDLES cfg then 1 else 0)"

text \<open>The score of each candle from the indicators of the window that ends with it; the cache on disk only stores these values.\<close>

definition window_score :: "(rat list \<Rightarrow> rat) \<Rightarrow> config \<Rightarrow> nat \<Rightarrow> string \<Rightarrow> 'k candle_scheme list \<Rightarrow> rat option" where
  "window_score std cfg n symbol p = (if n \<le> length p
     then Some (sg_score (analyze cfg (last_row (add_all_indicators std cfg (drop (length p - n) p))) symbol None None)) else None)"

definition v1_scores :: "(rat list \<Rightarrow> rat) \<Rightarrow> config \<Rightarrow> nat \<Rightarrow> string \<Rightarrow> 'k candle_scheme list \<Rightarrow> rat option list" where
  "v1_scores std cfg n symbol bars = by_prefix (window_score std cfg n symbol) bars"

text \<open>The assignments of the code in their order: buy, then sell, then no signal for a missing score.\<close>

definition threshold :: "rat \<Rightarrow> rat \<Rightarrow> rat option \<Rightarrow> rat" where
  "threshold buy sell s = (case s of None \<Rightarrow> 0 | Some x \<Rightarrow> if x \<le> sell then -1 else if buy \<le> x then 1 else 0)"

definition thresholds :: "rat option list \<Rightarrow> rat \<Rightarrow> rat \<Rightarrow> rat list" where
  "thresholds scores buy sell = map (threshold buy sell) scores"

section \<open>Competitors\<close>

text \<open>\<^verbatim>\<open>_mask\<close>: no signal before \<open>start\<close>.\<close>

definition mask :: "rat list \<Rightarrow> nat \<Rightarrow> rat list" where
  "mask sig start = map (\<lambda>(i, x). if i < start then 0 else x) (zip [0..<length sig] sig)"

definition buy_hold :: "'k candle_scheme list \<Rightarrow> nat \<Rightarrow> exn + rat list" where
  "buy_hold bars start = (if start < length bars then Inr ((replicate (length bars) 0)[start := 1]) else Inl (Other ''IndexError''))"

definition sma_cross :: "'k candle_scheme list \<Rightarrow> nat \<Rightarrow> nat \<Rightarrow> nat \<Rightarrow> rat list" where
  "sma_cross bars start fast slow = mask (map2 (\<lambda>f s. if gt f s then 1 else -1) (rolling fast mean (closes bars)) (rolling slow mean (closes bars))) start"

definition rsi_mr :: "'k candle_scheme list \<Rightarrow> nat \<Rightarrow> rat \<Rightarrow> rat \<Rightarrow> rat list" where
  "rsi_mr bars start low exit = mask (map (\<lambda>r. if gt (Some low) r then 1 else if gt r (Some exit) then -1 else 0) (rsi (closes bars) 14)) start"

text \<open>\<^verbatim>\<open>shift(1)\<close>; the highest high and the lowest low of the preceding candles.\<close>

definition shift1 :: "'b option list \<Rightarrow> 'b option list" where
  "shift1 = scan (\<lambda>prev x. (x, prev)) None"

definition donchian :: "'k candle_scheme list \<Rightarrow> nat \<Rightarrow> nat \<Rightarrow> nat \<Rightarrow> rat list" where
  "donchian bars start entry exit =
     (let hi = shift1 (rolling entry (\<lambda>w. Max (set w)) (map (\<lambda>b. Some (cd_high b)) bars));
          lo = shift1 (rolling exit (\<lambda>w. Min (set w)) (map (\<lambda>b. Some (cd_low b)) bars))
      in mask (map2 (\<lambda>c (h, l). if gt c h then 1 else if gt l c then -1 else 0) (closes bars) (zip hi lo)) start)"

text \<open>
  \<^verbatim>\<open>rng.choice(a, size, replace=False)\<close> of a seeded generator is the function \<open>draw\<close>; the code draws at most as many places as there are.
\<close>

definition random_entries :: "(int \<Rightarrow> nat list \<Rightarrow> nat \<Rightarrow> nat list) \<Rightarrow> nat \<Rightarrow> nat \<Rightarrow> nat \<Rightarrow> int \<Rightarrow> rat list" where
  "random_entries draw n start entries seed =
     fold (\<lambda>i sig. sig[i := 1]) (draw seed [start..<n - 1] (min entries (n - 1 - start))) (replicate n 0)"

section \<open>The exposure rule\<close>

text \<open>The trend line, whether the close is above or below it, and whether that held for \<open>confirm\<close> candles.\<close>

record exposure_row =
  ep_known :: bool
  ep_run_up :: bool
  ep_run_dn :: bool

definition confirmed :: "nat \<Rightarrow> bool list \<Rightarrow> bool list" where
  "confirmed n = by_prefix (\<lambda>p. n \<le> length p \<and> list_all (\<lambda>b. b) (drop (length p - n) p))"

definition trend_line :: "rat \<Rightarrow> rat option \<Rightarrow> rat option" where
  "trend_line buffer m = map_option (\<lambda>x. fmul x (fsub 1 buffer)) m"

definition exposure_rows :: "'k candle_scheme list \<Rightarrow> nat \<Rightarrow> nat \<Rightarrow> rat \<Rightarrow> exposure_row list" where
  "exposure_rows bars ma confirm buffer =
     (let line = rolling ma mean (closes bars); limit = map (trend_line buffer) line;
          up = confirmed confirm (map2 ge (closes bars) limit); dn = confirmed confirm (map2 (\<lambda>c l. gt l c) (closes bars) limit)
      in map2 (\<lambda>l (u, d). \<lparr>ep_known = l \<noteq> None, ep_run_up = u, ep_run_dn = d\<rparr>) line (zip up dn))"

text \<open>One candle of the loop: the state is 0 before the first entry, then 1 inside and -1 outside.\<close>

definition exposure_step :: "int \<Rightarrow> exposure_row \<Rightarrow> int \<times> rat" where
  "exposure_step st r = (if \<not> ep_known r then (st, 0)
     else if st \<le> 0 \<and> ep_run_up r then (1, 1) else if st = 1 \<and> ep_run_dn r then (-1, -1) else (st, 0))"

definition overlay_signals :: "'k candle_scheme list \<Rightarrow> nat \<Rightarrow> nat \<Rightarrow> rat \<Rightarrow> rat list" where
  "overlay_signals bars ma confirm buffer = scan exposure_step 0 (exposure_rows bars ma confirm buffer)"

section \<open>Signals of a model\<close>

definition ml_signal :: "rat \<Rightarrow> rat \<Rightarrow> rat option \<Rightarrow> rat" where
  "ml_signal thr exit_p p = (case p of None \<Rightarrow> 0 | Some x \<Rightarrow> if x < exit_p then -1 else if thr \<le> x then 1 else 0)"

definition ml_signals :: "rat option list \<Rightarrow> rat \<Rightarrow> rat \<Rightarrow> rat list" where
  "ml_signals p thr exit_p = map (ml_signal thr exit_p) p"

definition veto_signals :: "rat list \<Rightarrow> rat option list \<Rightarrow> rat \<Rightarrow> rat list" where
  "veto_signals v1_sig p thr = map2 (\<lambda>s q. if 0 < s \<and> \<not> ge q (Some thr) then 0 else s) v1_sig p"

definition EXIT_P :: rat where "EXIT_P = 1 / 2"

definition mode_signals :: "string \<Rightarrow> rat option list \<Rightarrow> rat list \<Rightarrow> rat \<Rightarrow> rat list" where
  "mode_signals mode p v1_sig thr = (if mode = ''ml'' then ml_signals p thr EXIT_P else veto_signals v1_sig p thr)"

section \<open>Causality of the generators\<close>

lemma mask_nth: "i < length sig \<Longrightarrow> mask sig start ! i = (if i < start then 0 else sig ! i)"
  by (simp add: mask_def)

lemma length_mask [simp]: "length (mask sig start) = length sig"
  by (simp add: mask_def)

lemma causal_mask [causal_intros]: "causal f \<Longrightarrow> causal (\<lambda>xs. mask (f xs) start)"
proof (rule causal_comp [of "\<lambda>sig. mask sig start"], rule causalI)
  show "mask (take k sig) start = take k (mask sig start)" for sig k
    by (rule nth_equalityI) (simp_all add: mask_nth)
qed simp_all

lemma causal_shift1 [causal_intros]: "causal f \<Longrightarrow> causal (\<lambda>xs. shift1 (f xs))"
  unfolding shift1_def by (rule causal_comp [OF causal_scan])

lemma causal_closes' [causal_intros]: "causal (\<lambda>bars. closes bars)"
  using causal_closes by simp

lemma causal_rsi' [causal_intros]: "causal f \<Longrightarrow> causal (\<lambda>s. rsi (f s) n)"
  by (rule causal_comp [OF causal_rsi])

lemma causal_confirmed [causal_intros]: "causal f \<Longrightarrow> causal (\<lambda>s. confirmed n (f s))"
  unfolding confirmed_def by (rule causal_comp [OF causal_by_prefix])

lemma causal_v1_scores [causal_intros]: "causal (\<lambda>bars. v1_scores std cfg n symbol bars)"
  unfolding v1_scores_def by (rule causal_by_prefix)

lemma causal_thresholds [causal_intros]: "causal f \<Longrightarrow> causal (\<lambda>s. thresholds (f s) buy sell)"
  unfolding thresholds_def by (intro causal_intros)

lemma causal_v1: "causal (\<lambda>bars. thresholds (v1_scores std cfg n symbol bars) buy sell)"
  by (intro causal_intros)

lemma causal_sma_cross: "causal (\<lambda>bars. sma_cross bars start fast slow)"
  unfolding sma_cross_def by (intro causal_intros)

lemma causal_rsi_mr: "causal (\<lambda>bars. rsi_mr bars start low exit)"
  unfolding rsi_mr_def by (intro causal_intros)

lemma causal_donchian: "causal (\<lambda>bars. donchian bars start entry exit)"
  unfolding donchian_def Let_def by (intro causal_intros)

lemma causal_exposure_rows: "causal (\<lambda>bars. exposure_rows bars ma confirm buffer)"
  unfolding exposure_rows_def Let_def by (intro causal_intros)

lemma causal_overlay: "causal (\<lambda>bars. overlay_signals bars ma confirm buffer)"
  unfolding overlay_signals_def by (intro causal_comp [OF causal_scan] causal_exposure_rows)

lemma signal_at_take: "j < k \<Longrightarrow> signal_at (map Some (take k sig)) j = signal_at (map Some sig) j"
  by (simp add: signal_at_def)

lemma causal_no_lookahead:
  fixes f :: "candle list \<Rightarrow> rat list"
  assumes "causal f" "k < length bars" "k < length bars'" "take k bars = take k bars'"
  shows "take k (br_equity (bt_run np bars (map Some (f bars)) cfg)) = take k (br_equity (bt_run np bars' (map Some (f bars')) cfg))"
proof (rule run_agrees [OF assms(2-4)])
  fix j assume j: "j + 1 < k"
  have "take k (f bars) = take k (f bars')" using assms(4) by (metis causal_take [OF assms(1)])
  then show "signal_at (map Some (f bars)) j = signal_at (map Some (f bars')) j"
    using j signal_at_take [of j k "f bars"] signal_at_take [of j k "f bars'"] by simp
qed

text \<open>
  C23: no strategy of the research looks ahead. For V1, the moving average cross, the RSI reversion, the breakout and the exposure rule, the
  equity of a backtest up to a candle is the same for any two histories that agree before it: neither the signals nor
  the simulation, stops, sizes and halts included, use a later price.
\<close>

theorem no_lookahead:
  assumes "k < length bars" "k < length bars'" "take k bars = take k bars'"
  shows "list_all (\<lambda>f. take k (br_equity (bt_run np bars (map Some (f bars)) cfg)) = take k (br_equity (bt_run np bars' (map Some (f bars')) cfg)))
    [\<lambda>d. thresholds (v1_scores std live n symbol d) buy sell, \<lambda>d. sma_cross d start fast slow, \<lambda>d. rsi_mr d start low hi,
     \<lambda>d. donchian d start entry quit, \<lambda>d. overlay_signals d ma confirm buffer]"
  unfolding list.pred_inject(2)
  by (intro conjI list.pred_inject(1) causal_no_lookahead [OF causal_v1 assms] causal_no_lookahead [OF causal_sma_cross assms]
      causal_no_lookahead [OF causal_rsi_mr assms] causal_no_lookahead [OF causal_donchian assms] causal_no_lookahead [OF causal_overlay assms])

section \<open>The exposure rule alternates and waits for confirmation\<close>

fun alternates :: "rat \<Rightarrow> rat list \<Rightarrow> bool" where
  "alternates x [] \<longleftrightarrow> True"
| "alternates x (y # ys) \<longleftrightarrow> y = x \<and> alternates (- x) ys"

lemma exposure_alternates:
  "st \<in> {0, 1, -1} \<Longrightarrow> alternates (if st = 1 then -1 else 1) (filter (\<lambda>x. x \<noteq> 0) (scan exposure_step st rs))"
proof (induction rs arbitrary: st)
  case (Cons r rs)
  have "fst (exposure_step st r) \<in> {0, 1, -1}" using Cons.prems by (auto simp: exposure_step_def)
  from Cons.IH [OF this] show ?case using Cons.prems by (auto simp: exposure_step_def)
qed simp

lemma scan_nth: "i < length rs \<Longrightarrow> \<exists>st. scan f s rs ! i = snd (f st (rs ! i))"
  by (induction rs arbitrary: s i) (auto simp: nth_Cons split: nat.split)

lemma nth_confirmed:
  "i < length bs \<Longrightarrow> confirmed n bs ! i \<longleftrightarrow> n \<le> Suc i \<and> (\<forall>j<n. bs ! (i - j))"
proof -
  assume i: "i < length bs"
  have "list_all (\<lambda>b. b) (drop (Suc i - n) (take (Suc i) bs)) \<longleftrightarrow> (\<forall>j<n. bs ! (i - j))" if n: "n \<le> Suc i"
  proof -
    have "list_all (\<lambda>b. b) (drop (Suc i - n) (take (Suc i) bs)) \<longleftrightarrow> (\<forall>k<n. bs ! (Suc i - n + k))"
      using i n by (auto simp: list_all_length)
    also have "\<dots> \<longleftrightarrow> (\<forall>j<n. bs ! (i - j))"
    proof safe
      fix j assume "\<forall>k<n. bs ! (Suc i - n + k)" "j < n"
      moreover have "n - 1 - j < n" using \<open>j < n\<close> by simp
      ultimately have "bs ! (Suc i - n + (n - 1 - j))" by blast
      moreover have "Suc i - n + (n - 1 - j) = i - j" using n \<open>j < n\<close> by simp
      ultimately show "bs ! (i - j)" by metis
    next
      fix k assume "\<forall>j<n. bs ! (i - j)" "k < n"
      moreover have "n - 1 - k < n" using \<open>k < n\<close> by simp
      ultimately have "bs ! (i - (n - 1 - k))" by blast
      moreover have "i - (n - 1 - k) = Suc i - n + k" using n \<open>k < n\<close> by simp
      ultimately show "bs ! (Suc i - n + k)" by metis
    qed
    finally show ?thesis .
  qed
  then show ?thesis using i by (auto simp: confirmed_def by_prefix_def)
qed

lemma exposure_row_nth:
  assumes "i < length bars"
  shows "exposure_rows bars ma confirm buffer ! i = (let l = rolling ma mean (closes bars) ! i in
    \<lparr>ep_known = l \<noteq> None,
     ep_run_up = confirm \<le> Suc i \<and> (\<forall>j<confirm. ge (closes bars ! (i - j)) (trend_line buffer (rolling ma mean (closes bars) ! (i - j)))),
     ep_run_dn = confirm \<le> Suc i \<and> (\<forall>j<confirm. gt (trend_line buffer (rolling ma mean (closes bars) ! (i - j))) (closes bars ! (i - j)))\<rparr>)"
proof -
  have c: "length (closes bars) = length bars" by (simp add: closes_def)
  have l: "length (rolling ma mean (closes bars)) = length bars" by (simp add: rolling_def by_prefix_def closes_def)
  have m: "length (confirmed confirm bs) = length bs" for bs by (simp add: confirmed_def by_prefix_def)
  show ?thesis using assms by (simp add: exposure_rows_def Let_def c l m nth_confirmed)
qed

text \<open>
  The exposure rule switches only on confirmation, and alternately. The signals other than 0 are entry, exit, entry, and so on; an entry comes
  only after \<open>confirm\<close> consecutive closes at or above the trend line less its buffer, an exit only after as many closes below it; there
  is one signal per candle.
\<close>

theorem overlay_switches:
  "length (overlay_signals bars ma confirm buffer) = length bars
   \<and> alternates 1 (filter (\<lambda>x. x \<noteq> 0) (overlay_signals bars ma confirm buffer))
   \<and> (\<forall>i. i < length bars \<longrightarrow>
       (let limit = (\<lambda>j. trend_line buffer (rolling ma mean (closes bars) ! (i - j))); close = (\<lambda>j. closes bars ! (i - j)); x = overlay_signals bars ma confirm buffer ! i in
        (x = 1 \<longrightarrow> confirm \<le> Suc i \<and> (\<forall>j<confirm. ge (close j) (limit j))) \<and> (x = -1 \<longrightarrow> confirm \<le> Suc i \<and> (\<forall>j<confirm. gt (limit j) (close j)))
        \<and> x \<in> {0, 1, -1}))"
proof (intro conjI allI impI)
  have len: "length (exposure_rows bars ma confirm buffer) = length bars" by (rule causal_length [OF causal_exposure_rows])
  show "length (overlay_signals bars ma confirm buffer) = length bars" by (rule causal_length [OF causal_overlay])
  show "alternates 1 (filter (\<lambda>x. x \<noteq> 0) (overlay_signals bars ma confirm buffer))"
    using exposure_alternates [of 0] by (simp add: overlay_signals_def)
  fix i assume i: "i < length bars"
  obtain st where "overlay_signals bars ma confirm buffer ! i = snd (exposure_step st (exposure_rows bars ma confirm buffer ! i))"
    using scan_nth [of i "exposure_rows bars ma confirm buffer"] i len unfolding overlay_signals_def by metis
  then show "let limit = (\<lambda>j. trend_line buffer (rolling ma mean (closes bars) ! (i - j))); close = (\<lambda>j. closes bars ! (i - j)); x = overlay_signals bars ma confirm buffer ! i in
        (x = 1 \<longrightarrow> confirm \<le> Suc i \<and> (\<forall>j<confirm. ge (close j) (limit j))) \<and> (x = -1 \<longrightarrow> confirm \<le> Suc i \<and> (\<forall>j<confirm. gt (limit j) (close j)))
        \<and> x \<in> {0, 1, -1}"
    using exposure_row_nth [OF i, of ma confirm buffer] by (simp add: exposure_step_def Let_def)
qed

section \<open>A veto only removes entries\<close>

text \<open>A veto model leaves every signal of V1 except that it may turn a buy into no signal.\<close>

lemma veto_only_removes_buys:
  "length v1 = length p \<Longrightarrow> list_all2 (\<lambda>s x. x = s \<or> 0 < s \<and> x = 0) v1 (veto_signals v1 p thr)"
  by (induction v1 p rule: list_induct2) (auto simp: veto_signals_def)

section \<open>Concrete signals\<close>

lemma demo_bars_take: "take 2 demo_bars = take 2 (take 2 demo_bars @ [demo_bar 2 500 400 900])"
  by (simp add: demo_bars_def)

theorem no_lookahead_witness:
  "list_all (\<lambda>f. take 2 (br_equity (bt_run demo_np demo_bars (map Some (f demo_bars)) demo_bt))
       = take 2 (br_equity (bt_run demo_np (take 2 demo_bars @ [demo_bar 2 500 400 900]) (map Some (f (take 2 demo_bars @ [demo_bar 2 500 400 900]))) demo_bt)))
    [\<lambda>d. thresholds (v1_scores (\<lambda>_. 0) demo_config 1 ''BTC/USDT'' d) (5 / 2) (- 5 / 2), \<lambda>d. sma_cross d 0 1 2, \<lambda>d. rsi_mr d 0 30 55,
     \<lambda>d. donchian d 0 2 1, \<lambda>d. overlay_signals d 1 1 0]"
  by (rule no_lookahead) (simp_all add: demo_bars_def)

lemma demo_overlay: "overlay_signals demo_bars 1 1 0 = [1, 0, 0]"
  by code_simp

theorem overlay_switches_witness:
  "overlay_signals demo_bars 1 1 0 = [1, 0, 0] \<and> ge (closes demo_bars ! 0) (trend_line 0 (rolling 1 mean (closes demo_bars) ! 0))"
proof
  have "0 < length demo_bars" by (simp add: demo_bars_def)
  then have "overlay_signals demo_bars 1 1 0 ! 0 = 1 \<longrightarrow> (\<forall>j<1. ge (closes demo_bars ! (0 - j)) (trend_line 0 (rolling 1 mean (closes demo_bars) ! (0 - j))))"
    using overlay_switches [of demo_bars 1 1 0] unfolding Let_def by blast
  then show "ge (closes demo_bars ! 0) (trend_line 0 (rolling 1 mean (closes demo_bars) ! 0))" using demo_overlay by simp
qed (rule demo_overlay)

end
