(* ===== verification/Market_Archive.thy ===== *)
theory Market_Archive
  imports Research_Signals "HOL-Library.List_Lexorder" "HOL-Library.Char_ord"
begin

text \<open>
  Market data of the research: \<^verbatim>\<open>research/data.py\<close>. The network, the archive format and the CSV reader are parameters (an archive is
  fetched once per run, so an answer is a function of the address). It is proved that every candle of a downloaded history
  comes from an archive with the published SHA-256 digest, in strictly increasing order of time, and that resampling keeps only complete
  buckets.
\<close>

section \<open>Months\<close>

definition month_text :: "int \<Rightarrow> int \<Rightarrow> string" where
  "month_text y m = pad 4 y @ ''-'' @ pad 2 m"

definition previous_month :: "int \<times> int \<Rightarrow> int \<times> int" where
  "previous_month ym = (if snd ym = 1 then (fst ym - 1, 12) else (fst ym, snd ym - 1))"

fun months_back :: "nat \<Rightarrow> int \<times> int \<Rightarrow> (int \<times> int) list" where
  "months_back 0 ym = []"
| "months_back (Suc n) ym = previous_month ym # months_back n (previous_month ym)"

definition last_complete_months :: "nat \<Rightarrow> time \<Rightarrow> string list" where
  "last_complete_months n today = (let (y, m, d) = civil (today div 86400000000) in sort (map (\<lambda>(a, b). month_text a b) (months_back n (y, m))))"

section \<open>Candles of the archive\<close>

record kline = candle +
  kl_quote_volume :: rat
  kl_trades :: rat
  kl_taker_base :: rat

text \<open>Milliseconds before 2025 and microseconds from 2025 on, told apart per value; the result is in microseconds.\<close>

definition to_utc :: "int \<Rightarrow> time" where
  "to_utc v = (if 10 ^ 14 < v then v div 1000 else v) * 1000"

definition is_header :: "string \<Rightarrow> bool" where
  "is_header cell = (let t = dropWhile (\<lambda>c. c = CHR ''-'') cell in t = [] \<or> \<not> list_all is_digit t)"

definition parse_row :: "string list \<Rightarrow> exn + kline" where
  "parse_row r = (if length r < 12 then Inl (ValueError ''Length mismatch'') else
     bindR (py_int (r ! 0)) (\<lambda>ts. bindR (py_float (r ! 1)) (\<lambda>op. bindR (py_float (r ! 2)) (\<lambda>hi. bindR (py_float (r ! 3)) (\<lambda>lo.
     bindR (py_float (r ! 4)) (\<lambda>cl. bindR (py_float (r ! 5)) (\<lambda>vol. bindR (py_float (r ! 7)) (\<lambda>qv. bindR (py_float (r ! 8)) (\<lambda>tr.
     bindR (py_float (r ! 9)) (\<lambda>tb.
       Inr \<lparr>cd_time = to_utc ts, cd_open = op, cd_high = hi, cd_low = lo, cd_close = cl, cd_volume = vol,
            kl_quote_volume = qv, kl_trades = tr, kl_taker_base = tb\<rparr>))))))))))"

definition parse_klines_csv :: "string list list \<Rightarrow> exn + kline list" where
  "parse_klines_csv rows = (case rows of
     [] \<Rightarrow> Inl (ValueError ''No columns to parse from file'')
   | r # rs \<Rightarrow> if is_header (concat (take 1 r)) then mapR parse_row rs else mapR parse_row rows)"

section \<open>Verified archives\<close>

text \<open>The network, SHA-256 in hexadecimal, the first member of a zip archive and \<^verbatim>\<open>read_csv\<close>.\<close>

record archive_env =
  av_fetch :: "string \<Rightarrow> exn + string"
  av_sha256 :: "string \<Rightarrow> string"
  av_unzip :: "string \<Rightarrow> exn + string"
  av_csv :: "string \<Rightarrow> exn + string list list"

definition BASE :: string where "BASE = ''https://data.binance.vision/data/spot/monthly/klines''"

definition archive_name :: "string \<Rightarrow> string \<Rightarrow> string \<Rightarrow> string" where
  "archive_name symbol interval month = symbol @ ''-'' @ interval @ ''-'' @ month @ ''.zip''"

definition archive_url :: "string \<Rightarrow> string \<Rightarrow> string \<Rightarrow> string" where
  "archive_url symbol interval month = BASE @ ''/'' @ symbol @ ''/'' @ interval @ ''/'' @ archive_name symbol interval month"

text \<open>\<^verbatim>\<open>text.split()[0].strip().lower()\<close>\<close>

definition first_word :: "string \<Rightarrow> exn + string" where
  "first_word t = (let w = takeWhile (\<lambda>c. \<not> is_space c) (dropWhile is_space t) in
     if w = [] then Inl (Other ''IndexError'') else Inr (lower w))"

definition fetch_month :: "archive_env \<Rightarrow> string \<Rightarrow> string \<Rightarrow> string \<Rightarrow> exn + kline list \<times> string" where
  "fetch_month env symbol interval month = (let url = archive_url symbol interval month in
     bindR (av_fetch env url) (\<lambda>blob. bindR (av_fetch env (url @ ''.CHECKSUM'')) (\<lambda>published. bindR (first_word published) (\<lambda>expected.
       let actual = av_sha256 env blob in
       if actual \<noteq> expected then Inl (ValueError (''checksum mismatch for '' @ archive_name symbol interval month @ '': '' @ actual @ '' != '' @ expected))
       else bindR (av_unzip env blob) (\<lambda>raw. bindR (av_csv env raw) (\<lambda>rows. bindR (parse_klines_csv rows) (\<lambda>df. Inr (df, actual))))))))"

section \<open>Validation\<close>

fun first_seen :: "int list \<Rightarrow> 'k candle_scheme list \<Rightarrow> 'k candle_scheme list" where
  "first_seen seen [] = []"
| "first_seen seen (b # bs) = (if cd_time b \<in> set seen then first_seen seen bs else b # first_seen (cd_time b # seen) bs)"

definition drop_duplicates :: "'k candle_scheme list \<Rightarrow> 'k candle_scheme list" where
  "drop_duplicates bars = first_seen [] bars"

definition steps :: "'k candle_scheme list \<Rightarrow> int list" where
  "steps bars = map2 (\<lambda>a b. cd_time b - cd_time a) (butlast bars) (tl bars)"

definition bad_ohlc :: "'k candle_scheme \<Rightarrow> bool" where
  "bad_ohlc b \<longleftrightarrow> cd_high b < max (cd_open b) (cd_close b) \<or> min (cd_open b) (cd_close b) < cd_low b \<or> cd_low b \<le> 0"

definition count_text :: "nat \<Rightarrow> string" where
  "count_text n = str_int (int n)"

definition validate :: "'k candle_scheme list \<Rightarrow> int \<Rightarrow> string list" where
  "validate bars interval_seconds =
     (let dup = length bars - length (drop_duplicates bars); gaps = filter (\<lambda>d. d \<noteq> seconds interval_seconds) (steps bars);
          bad = filter bad_ohlc bars
      in (if dup = 0 then [] else [count_text dup @ '' duplicate candles''])
       @ (if gaps = [] then [] else [count_text (length gaps) @ '' gaps/irregular steps (largest ''
            @ fixed 1 (of_int (Max (set gaps)) / 1000000 / 3600) @ ''h)''])
       @ (if bad = [] then [] else [count_text (length bad) @ '' candles with inconsistent OHLC'']))"

section \<open>Download\<close>

record data_manifest =
  dm_files :: "(string \<times> string) list"
  dm_candles :: nat
  dm_first :: time
  dm_last :: time
  dm_validation :: "string list"

definition fetch_months :: "archive_env \<Rightarrow> string \<Rightarrow> string \<Rightarrow> string list \<Rightarrow> exn + (string \<times> kline list \<times> string) list" where
  "fetch_months env symbol interval months = mapR (\<lambda>m. bindR (fetch_month env symbol interval m) (\<lambda>r. Inr (m, r))) months"

text \<open>The stored history and its manifest; \<open>interval_seconds\<close> is the length of the interval as pandas reads it.\<close>

definition download :: "archive_env \<Rightarrow> int \<Rightarrow> string \<Rightarrow> nat \<Rightarrow> string \<Rightarrow> time \<Rightarrow> exn + kline list \<times> data_manifest" where
  "download env interval_seconds symbol months interval today =
     bindR (fetch_months env symbol interval (last_complete_months months today)) (\<lambda>files.
       if files = [] then Inl (ValueError ''No objects to concatenate'')
       else let bars = sort_key cd_time (drop_duplicates (concat (map (\<lambda>(m, df, sha). df) files))); problems = validate bars interval_seconds in
         if bars = [] then Inl (Other ''IndexError'')
         else Inr (bars, \<lparr>dm_files = map (\<lambda>(m, df, sha). (m, sha)) files, dm_candles = length bars, dm_first = cd_time (hd bars),
                dm_last = cd_time (last bars), dm_validation = (if problems = [] then [''ok''] else problems)\<rparr>))"

section \<open>Resampling\<close>

text \<open>
  Buckets of \<open>width\<close> microseconds, counted from the start of the day of the first candle; a bucket is kept when it holds as many
  candles as hours fit in it.
\<close>

definition origin :: "'k candle_scheme list \<Rightarrow> time" where
  "origin bars = (if bars = [] then 0 else cd_time (hd bars) div 86400000000 * 86400000000)"

definition bucket :: "time \<Rightarrow> int \<Rightarrow> 'k candle_scheme \<Rightarrow> int" where
  "bucket from width b = (cd_time b - from) div width"

definition hour :: int where "hour = 3600000000"

definition aggregate :: "time \<Rightarrow> kline list \<Rightarrow> kline" where
  "aggregate t bs = \<lparr>cd_time = t, cd_open = cd_open (hd bs), cd_high = Max (set (map cd_high bs)), cd_low = Min (set (map cd_low bs)),
     cd_close = cd_close (last bs), cd_volume = sum_list (map cd_volume bs), kl_quote_volume = sum_list (map kl_quote_volume bs),
     kl_trades = sum_list (map kl_trades bs), kl_taker_base = sum_list (map kl_taker_base bs)\<rparr>"

definition resample :: "kline list \<Rightarrow> int \<Rightarrow> kline list" where
  "resample bars width =
     (let from = origin bars; groups = map (\<lambda>k. (k, filter (\<lambda>b. bucket from width b = k) bars)) (remdups_adj (map (bucket from width) bars))
      in map (\<lambda>(k, bs). aggregate (from + k * width) bs) (filter (\<lambda>(k, bs). int (length bs) = width div hour) groups))"

definition bars_per_year :: "int \<Rightarrow> rat" where
  "bars_per_year width = fdiv (365 * 24) (fdiv (of_int width) (of_int hour))"

section \<open>Only verified archives are read\<close>

text \<open>A month that was read from an archive with the published digest.\<close>

definition verified_month :: "archive_env \<Rightarrow> string \<Rightarrow> string \<Rightarrow> string \<times> kline list \<times> string \<Rightarrow> bool" where
  "verified_month env symbol interval f \<longleftrightarrow> (\<exists>blob published raw rows. let url = archive_url symbol interval (fst f) in
     av_fetch env url = Inr blob \<and> av_fetch env (url @ ''.CHECKSUM'') = Inr published \<and> snd (snd f) = av_sha256 env blob
     \<and> first_word published = Inr (av_sha256 env blob) \<and> av_unzip env blob = Inr raw \<and> av_csv env raw = Inr rows
     \<and> parse_klines_csv rows = Inr (fst (snd f)))"

lemma fetch_month_verified: "fetch_month env symbol interval m = Inr (df, sha) \<Longrightarrow> verified_month env symbol interval (m, df, sha)"
  by (auto simp: fetch_month_def verified_month_def bindR_Inr Let_def split: if_splits)

lemma mapR_Inr: "mapR f xs = Inr ys \<Longrightarrow> list_all2 (\<lambda>x y. f x = Inr y) xs ys"
  by (induction xs arbitrary: ys) (auto simp: bindR_Inr)

lemma fetch_months_verified:
  assumes "fetch_months env symbol interval months = Inr files"
  shows "map fst files = months" "list_all (verified_month env symbol interval) files"
proof -
  have l: "list_all2 (\<lambda>m f. fst f = m \<and> verified_month env symbol interval f) months files"
    by (rule list_all2_mono [OF mapR_Inr [OF assms [unfolded fetch_months_def]]]) (auto simp: bindR_Inr fetch_month_verified)
  show "map fst files = months" "list_all (verified_month env symbol interval) files"
    using l by (induction months files rule: list_all2_induct) auto
qed

lemma first_seen_times:
  "distinct (map cd_time (first_seen seen bars)) \<and> set seen \<inter> set (map cd_time (first_seen seen bars)) = {} \<and> set (first_seen seen bars) \<subseteq> set bars"
  by (induction seen bars rule: first_seen.induct) auto

lemma drop_duplicates_times: "distinct (map cd_time (drop_duplicates bars))" "set (drop_duplicates bars) \<subseteq> set bars"
  using first_seen_times [of "[]"] by (auto simp: drop_duplicates_def)

lemma strictly_sorted_times: "distinct (map cd_time bars) \<Longrightarrow> sorted_wrt (<) (map cd_time (sort_key cd_time bars))"
  by (simp add: strict_sorted_iff distinct_map)

lemma first_seen_length: "length (first_seen seen bars) \<le> length bars"
  by (induction seen bars rule: first_seen.induct) auto

lemma first_seen_distinct: "length (first_seen seen bars) = length bars \<Longrightarrow> distinct (map cd_time bars) \<and> set seen \<inter> set (map cd_time bars) = {}"
proof (induction seen bars rule: first_seen.induct)
  case (2 seen b bs)
  show ?case
  proof (cases "cd_time b \<in> set seen")
    case True
    then have "length bs \<ge> Suc (length bs)" using 2(3) first_seen_length [of seen bs] by simp
    then show ?thesis by simp
  qed (use 2 in auto)
qed simp

text \<open>\<^verbatim>\<open>validate\<close> reports nothing exactly for a regular history of sane candles.\<close>

lemma validate_ok:
  "validate bars n = [] \<longleftrightarrow> distinct (map cd_time bars) \<and> list_all (\<lambda>d. d = seconds n) (steps bars) \<and> list_all (\<lambda>b. \<not> bad_ohlc b) bars"
proof -
  have d: "length bars \<le> length (drop_duplicates bars) \<longleftrightarrow> distinct (map cd_time bars)"
  proof
    assume "length bars \<le> length (drop_duplicates bars)"
    then show "distinct (map cd_time bars)"
      using first_seen_distinct [of "[]" bars] first_seen_length [of "[]" bars] by (simp add: drop_duplicates_def)
  next
    have "set seen \<inter> set (map cd_time bars) = {} \<Longrightarrow> distinct (map cd_time bars) \<Longrightarrow> first_seen seen bars = bars" for seen
      by (induction seen bars rule: first_seen.induct) auto
    then show "distinct (map cd_time bars) \<Longrightarrow> length bars \<le> length (drop_duplicates bars)" by (simp add: drop_duplicates_def)
  qed
  show ?thesis by (simp add: validate_def Let_def d filter_empty_conv list_all_iff)
qed

text \<open>
  C31: a downloaded history consists of verified candles in order. Its times strictly increase; every candle was read from the archive of one of the
  last complete months, whose SHA-256 digest is the published one and is the one in the manifest; and where the manifest
  says that the data are fine, consecutive candles are exactly one interval apart and every candle is consistent.
\<close>

theorem download_verified:
  assumes "download env n symbol months interval today = Inr (bars, man)"
  shows "sorted_wrt (<) (map cd_time bars) \<and> map fst (dm_files man) = last_complete_months months today
    \<and> (\<forall>b\<in>set bars. \<exists>m df sha. (m, sha) \<in> set (dm_files man) \<and> verified_month env symbol interval (m, df, sha) \<and> b \<in> set df)
    \<and> (dm_validation man = [''ok''] \<longrightarrow> list_all (\<lambda>d. d = seconds n) (steps bars) \<and> list_all (\<lambda>b. \<not> bad_ohlc b) bars)"
proof -
  obtain files where f: "fetch_months env symbol interval (last_complete_months months today) = Inr files"
    and b: "bars = sort_key cd_time (drop_duplicates (concat (map (\<lambda>(m, df, sha). df) files)))"
    and d: "dm_files man = map (\<lambda>(m, df, sha). (m, sha)) files"
    and v: "dm_validation man = (if validate bars n = [] then [''ok''] else validate bars n)"
    using assms by (auto simp: download_def bindR_Inr Let_def split: if_splits)
  have "map fst (dm_files man) = map fst files" by (simp add: d case_prod_beta o_def)
  moreover have "\<exists>m df sha. (m, sha) \<in> set (dm_files man) \<and> verified_month env symbol interval (m, df, sha) \<and> b \<in> set df" if "b \<in> set bars" for b
  proof -
    have "b \<in> set (concat (map (\<lambda>(m, df, sha). df) files))" using that drop_duplicates_times(2) by (fastforce simp: b)
    then obtain m df sha where "(m, df, sha) \<in> set files" "b \<in> set df" by auto
    moreover from this have "(m, sha) \<in> set (dm_files man)" by (force simp: d)
    ultimately show ?thesis using fetch_months_verified(2) [OF f] by (auto simp: list_all_iff)
  qed
  moreover have "validate bars n = []" if "dm_validation man = [''ok'']"
  proof (rule ccontr)
    assume "validate bars n \<noteq> []"
    then have "validate bars n = [''ok'']" using that v by simp
    then show False by (auto simp: validate_def Let_def append_eq_Cons_conv count_text_def split: if_splits dest!: arg_cong [of _ "''ok''" last])
  qed
  ultimately show ?thesis
    using fetch_months_verified(1) [OF f] strictly_sorted_times [OF drop_duplicates_times(1)] validate_ok [of bars n] by (simp add: b)
qed

section \<open>Resampling keeps complete buckets\<close>

lemma strict_remdups_adj: "sorted xs \<Longrightarrow> sorted_wrt (<) (remdups_adj (xs :: int list))"
  by (induction xs rule: remdups_adj.induct) (force simp: order.strict_iff_order)+

lemma bucket_span:
  assumes "0 < width"
  shows "bucket from width b = k \<longleftrightarrow> from + k * width \<le> cd_time b \<and> cd_time b < from + k * width + width"
proof -
  have "(cd_time b - from) div width = k \<longleftrightarrow> k * width \<le> cd_time b - from \<and> cd_time b - from < k * width + width"
  proof
    assume "(cd_time b - from) div width = k"
    then have "cd_time b - from = k * width + (cd_time b - from) mod width" by (metis div_mult_mod_eq)
    then show "k * width \<le> cd_time b - from \<and> cd_time b - from < k * width + width"
      using pos_mod_bound [OF assms, of "cd_time b - from"] pos_mod_sign [OF assms, of "cd_time b - from"] by linarith
  next
    assume "k * width \<le> cd_time b - from \<and> cd_time b - from < k * width + width"
    then show "(cd_time b - from) div width = k"
      by (intro int_div_pos_eq [where r = "cd_time b - from - k * width"]) (auto simp: algebra_simps)
  qed
  then show ?thesis by (auto simp: bucket_def)
qed

text \<open>The candles of an interval of time.\<close>

definition between :: "time \<Rightarrow> int \<Rightarrow> kline list \<Rightarrow> kline list" where
  "between t width bars = filter (\<lambda>b. t \<le> cd_time b \<and> cd_time b < t + width) bars"

lemma resample_alt:
  assumes "0 < width"
  shows "resample bars width = map (\<lambda>k. aggregate (origin bars + k * width) (between (origin bars + k * width) width bars))
    (filter (\<lambda>k. int (length (between (origin bars + k * width) width bars)) = width div hour) (remdups_adj (map (bucket (origin bars) width) bars)))"
  by (simp add: resample_def Let_def filter_map o_def case_prod_beta between_def bucket_span [OF assms])

text \<open>
  A resampled candle aggregates a complete bucket. For candles in order of time, the times of the result strictly increase; a candle of the result aggregates the
  candles of its bucket, first open, highest high, lowest low, last close and summed volume, and there are as many of them as hours in the
  bucket; and each bucket with that many candles has its candle in the result.
\<close>

theorem resample_complete:
  assumes "sorted (map cd_time bars)" "0 < width"
  shows "sorted_wrt (<) (map cd_time (resample bars width))
    \<and> (\<forall>c\<in>set (resample bars width). int (length (between (cd_time c) width bars)) = width div hour \<and> c = aggregate (cd_time c) (between (cd_time c) width bars))
    \<and> (\<forall>b\<in>set bars. let t = origin bars + bucket (origin bars) width b * width in
         int (length (between t width bars)) = width div hour \<longrightarrow> aggregate t (between t width bars) \<in> set (resample bars width))"
proof (intro conjI ballI)
  let ?ks = "remdups_adj (map (bucket (origin bars) width) bars)"
  have "sorted (map (bucket (origin bars) width) bars)"
    using assms by (auto simp: sorted_wrt_map bucket_def elim!: sorted_wrt_mono_rel [rotated] intro: zdiv_mono1)
  then have "sorted_wrt (<) ?ks" by (rule strict_remdups_adj)
  then have "sorted_wrt (<) (filter P ?ks)" for P by (rule sorted_wrt_filter)
  then show "sorted_wrt (<) (map cd_time (resample bars width))"
    using assms(2) by (simp add: resample_alt sorted_wrt_map o_def aggregate_def)
  fix b assume "b \<in> set bars"
  then show "let t = origin bars + bucket (origin bars) width b * width in
         int (length (between t width bars)) = width div hour \<longrightarrow> aggregate t (between t width bars) \<in> set (resample bars width)"
    using assms(2) by (auto simp: resample_alt Let_def)
qed (use assms(2) in \<open>auto simp: resample_alt aggregate_def\<close>)

section \<open>Concrete data\<close>

text \<open>The two encodings of a time agree for every time between 1973 and 5138.\<close>

lemma to_utc_units: "10 ^ 11 < ms \<Longrightarrow> ms \<le> 10 ^ 14 \<Longrightarrow> to_utc (ms * 1000 + us) = to_utc ms" if "0 \<le> us" "us < 1000"
  using that by (auto simp: to_utc_def)

definition demo_rows :: "string list list" where
  "demo_rows = [[''open_time'', [], [], [], [], [], [], [], [], [], [], []],
     [''0'', ''1'', ''2'', ''1'', ''2'', ''5'', [], ''9'', ''3'', ''2'', [], []], [''3600000'', ''2'', ''3'', ''1'', ''3'', ''6'', [], ''9'', ''3'', ''2'', [], []]]"

definition demo_archive :: archive_env where
  "demo_archive = \<lparr>av_fetch = (\<lambda>url. if drop (length url - 9) url = ''.CHECKSUM'' then Inr '' AB  f.zip'' else Inr ''z''), av_sha256 = (\<lambda>_. ''ab''),
     av_unzip = Inr, av_csv = (\<lambda>_. Inr demo_rows)\<rparr>"

definition demo_download :: "kline list \<times> data_manifest" where
  "demo_download = (let b = (\<lambda>t op hi cl vol. \<lparr>cd_time = t, cd_open = op, cd_high = hi, cd_low = 1, cd_close = cl, cd_volume = vol, kl_quote_volume = 9,
       kl_trades = 3, kl_taker_base = 2\<rparr>) in
     ([b 0 1 2 2 5, b 3600000000 2 3 3 6], \<lparr>dm_files = [(''2023-12'', ''ab'')], dm_candles = 2, dm_first = 0, dm_last = 3600000000, dm_validation = [''ok'']\<rparr>))"

lemma demo_downloads: "download demo_archive 3600 ''B'' 1 ''1h'' (1704067200 * 1000000) = Inr demo_download"
  by code_simp

theorem download_verified_witness:
  "sorted_wrt (<) (map cd_time (fst demo_download)) \<and> map fst (dm_files (snd demo_download)) = last_complete_months 1 (1704067200 * 1000000)"
  using download_verified [of demo_archive 3600 "''B''" 1 "''1h''" "1704067200 * 1000000" "fst demo_download" "snd demo_download"] demo_downloads by simp

theorem resample_complete_witness:
  "sorted_wrt (<) (map cd_time (resample (fst demo_download) (2 * hour))) \<and> map cd_volume (resample (fst demo_download) (2 * hour)) = [11]"
proof
  have "sorted (map cd_time (fst demo_download))" by (simp add: demo_download_def Let_def)
  then show "sorted_wrt (<) (map cd_time (resample (fst demo_download) (2 * hour)))"
    using resample_complete [of "fst demo_download" "2 * hour"] by (simp add: hour_def)
qed code_simp

end
