(* ===== verification/Clock_Text.thy ===== *)
theory Clock_Text
  imports Store Texts "HOL-Library.List_Lexorder" "HOL-Library.Char_ord"
begin

text \<open>
  Times as text. The store writes every datetime with \<^verbatim>\<open>_iso\<close>, reads it back with \<^verbatim>\<open>_dt\<close>, and compares stored times in SQL as text. It is proved that the civil
  date is strictly increasing in the day, that a written time reads back as itself, and that the order of the texts is the order of the times, for all datetimes
  Python has (the years 1 to 9999), so the model may keep times as numbers.
\<close>

section \<open>The civil date\<close>

text \<open>Days of the four hundred years of an era, counted from the first of March: the year of a day and the day a year starts with.\<close>

definition year_of_era :: "int \<Rightarrow> int" where
  "year_of_era doe = (doe - doe div 1460 + doe div 36524 - doe div 146096) div 365"

definition year_start :: "int \<Rightarrow> int" where
  "year_start y = 365 * y + y div 4 - y div 100"

lemma year_of_era_mono: "0 \<le> a \<Longrightarrow> a \<le> b \<Longrightarrow> b < 146097 \<Longrightarrow> year_of_era a \<le> year_of_era b"
proof -
  assume a: "0 \<le> a" "a \<le> b" "b < 146097"
  have "b div 1460 - a div 1460 \<le> b - a"
  proof -
    have "b div 1460 \<le> (a + (b - a) * 1460) div 1460" using a(2) by (intro zdiv_mono1) auto
    then show ?thesis by simp
  qed
  moreover have "a div 36524 - a div 146096 \<le> b div 36524 - b div 146096"
  proof (cases "b = 146096")
    case True
    have "a div 36524 - a div 146096 \<le> 3" using a True by (cases "a = 146096") auto
    then show ?thesis using True by simp
  next
    case False
    then have "a div 146096 = 0" "b div 146096 = 0" using a by auto
    then show ?thesis using a(2) by (simp add: zdiv_mono1)
  qed
  ultimately show ?thesis unfolding year_of_era_def by (intro zdiv_mono1) linarith+
qed

lemma year_checks:
  "list_all (\<lambda>y. year_of_era (year_start y) = y \<and> (y = 0 \<or> year_of_era (year_start y - 1) = y - 1)) [0..399]"
  by code_simp

lemma year_check: "0 \<le> y \<Longrightarrow> y \<le> 399 \<Longrightarrow> year_of_era (year_start y) = y" "0 < y \<Longrightarrow> y \<le> 399 \<Longrightarrow> year_of_era (year_start y - 1) = y - 1"
proof -
  have c: "year_of_era (year_start z) = z \<and> (z = 0 \<or> year_of_era (year_start z - 1) = z - 1)" if "z \<in> {0..399}" for z
    using year_checks that by (simp add: list_all_iff)
  show "0 \<le> y \<Longrightarrow> y \<le> 399 \<Longrightarrow> year_of_era (year_start y) = y" using c [of y] by simp
  show "0 < y \<Longrightarrow> y \<le> 399 \<Longrightarrow> year_of_era (year_start y - 1) = y - 1" using c [of y] by auto
qed

lemma year_start_range: "0 \<le> y \<Longrightarrow> y \<le> 399 \<Longrightarrow> 0 \<le> year_start y \<and> year_start y < 146097"
proof -
  assume y: "0 \<le> y" "y \<le> 399"
  have "y div 100 \<le> y div 4" "0 \<le> y div 100" "y div 4 \<le> 99" using y by auto
  then show ?thesis using y by (simp add: year_start_def)
qed

lemma year_of_era_range: "0 \<le> doe \<Longrightarrow> doe < 146097 \<Longrightarrow> 0 \<le> year_of_era doe \<and> year_of_era doe \<le> 399"
  using year_of_era_mono [of 0 doe] year_of_era_mono [of doe 146096] by (simp add: year_of_era_def)

lemma day_of_year_range:
  assumes "0 \<le> doe" "doe < 146097"
  shows "0 \<le> doe - year_start (year_of_era doe) \<and> doe - year_start (year_of_era doe) \<le> 365"
proof -
  let ?y = "year_of_era doe"
  note r = year_of_era_range [OF assms]
  have lo: "year_start ?y \<le> doe"
  proof (rule ccontr)
    assume "\<not> year_start ?y \<le> doe"
    then have n: "doe \<le> year_start ?y - 1" by simp
    have "?y \<noteq> 0" using n assms(1) by (auto simp: year_start_def)
    then have "year_of_era (year_start ?y - 1) = ?y - 1" using year_check(2) [of ?y] r by simp
    then show False using year_of_era_mono [OF assms(1) n] year_start_range [of ?y] r by simp
  qed
  have hi: "doe < year_start (?y + 1)" if "?y < 399"
  proof (rule ccontr)
    assume "\<not> doe < year_start (?y + 1)"
    then have "year_of_era (year_start (?y + 1)) \<le> ?y" using year_of_era_mono [of "year_start (?y + 1)" doe] year_start_range [of "?y + 1"] r that assms by simp
    then show False using year_check(1) [of "?y + 1"] r that by simp
  qed
  have "year_start (?y + 1) \<le> year_start ?y + 366" by (simp add: year_start_def)
  then show ?thesis using lo hi r assms by (cases "?y = 399") (auto simp: year_start_def)
qed

text \<open>The civil date through the year that starts in March and the day of that year.\<close>

definition march_year :: "int \<Rightarrow> int" where
  "march_year day = (let z = day + 719468 in year_of_era (z mod 146097) + z div 146097 * 400)"

definition march_day :: "int \<Rightarrow> int" where
  "march_day day = (let doe = (day + 719468) mod 146097 in doe - year_start (year_of_era doe))"

definition month_index :: "int \<Rightarrow> int" where
  "month_index doy = (5 * doy + 2) div 153"

lemma march_day_range: "0 \<le> march_day day \<and> march_day day \<le> 365"
  using day_of_year_range [of "(day + 719468) mod 146097"] by (simp add: march_day_def Let_def)

lemma month_index_range: "0 \<le> doy \<Longrightarrow> doy \<le> 365 \<Longrightarrow> 0 \<le> month_index doy \<and> month_index doy \<le> 11"
  using zdiv_mono1 [of "5 * doy + 2" 1827 153] by (simp add: month_index_def)

lemma civil_march:
  "civil day = (let mp = month_index (march_day day) in
     (march_year day + (if 10 \<le> mp then 1 else 0), if mp < 10 then mp + 3 else mp - 9, march_day day - (153 * mp + 2) div 5 + 1))"
proof -
  define mp where "mp = month_index (march_day day)"
  define m where "m = (if mp < 10 then mp + 3 else mp - 9)"
  have "civil day = (march_year day + (if m \<le> 2 then 1 else 0), m, march_day day - (153 * mp + 2) div 5 + 1)"
    unfolding civil_def Let_def m_def mp_def march_year_def march_day_def month_index_def year_start_def year_of_era_def by (rule refl)
  moreover have "m \<le> 2 \<longleftrightarrow> 10 \<le> mp"
    using month_index_range [of "march_day day"] march_day_range [of day] by (auto simp: m_def mp_def)
  ultimately show ?thesis by (simp add: m_def Let_def flip: mp_def)
qed

text \<open>Pairs of the year and the day of the year increase with the day.\<close>

lemma march_less:
  assumes "a < b"
  shows "march_year a < march_year b \<or> march_year a = march_year b \<and> march_day a < march_day b"
proof -
  define x where "x = a + 719468"
  define y where "y = b + 719468"
  have xy: "x < y" using assms by (simp add: x_def y_def)
  have r: "0 \<le> year_of_era (z mod 146097) \<and> year_of_era (z mod 146097) \<le> 399" for z using year_of_era_range [of "z mod 146097"] by simp
  show ?thesis
  proof (cases "x div 146097 = y div 146097")
    case True
    have m: "x mod 146097 < y mod 146097" using xy True by (metis div_mult_mod_eq add_less_cancel_left)
    have "year_of_era (x mod 146097) \<le> year_of_era (y mod 146097)" using year_of_era_mono [of "x mod 146097" "y mod 146097"] m by simp
    then show ?thesis using True m by (auto simp: march_year_def march_day_def Let_def simp flip: x_def y_def)
  next
    case False
    then have "x div 146097 + 1 \<le> y div 146097" using zdiv_mono1 [of x y 146097] xy by simp
    then have "march_year a < march_year b" using r [of x] r [of y] by (simp add: march_year_def Let_def flip: x_def y_def)
    then show ?thesis ..
  qed
qed

definition date_less :: "int \<times> int \<times> int \<Rightarrow> int \<times> int \<times> int \<Rightarrow> bool" where
  "date_less p q \<longleftrightarrow> (case (p, q) of ((y, m, d), (y', m', d')) \<Rightarrow> y < y' \<or> y = y' \<and> (m < m' \<or> m = m' \<and> d < d'))"

lemma civil_less:
  assumes "a < b"
  shows "date_less (civil a) (civil b)"
proof -
  let ?i = "month_index (march_day a)" and ?j = "month_index (march_day b)"
  note i = month_index_range [of "march_day a"] month_index_range [of "march_day b"] march_day_range [of a] march_day_range [of b]
  consider "march_year a < march_year b" | "march_year a = march_year b" "march_day a < march_day b" using march_less [OF assms] by blast
  then show ?thesis
  proof cases
    case 2
    have "?i \<le> ?j" using 2(2) unfolding month_index_def by (intro zdiv_mono1) auto
    then show ?thesis using 2 i by (auto simp: civil_march Let_def date_less_def)
  qed (use i in \<open>auto simp: civil_march Let_def date_less_def\<close>)
qed

section \<open>Texts of numbers are ordered as the numbers\<close>

lemma less_prefix:
  fixes a b u v :: string
  shows "length a = length b \<Longrightarrow> a < b \<Longrightarrow> a @ u < b @ v"
  by (induction a b rule: list_induct2) auto

lemma same_prefix [simp]:
  fixes a u v :: string
  shows "a @ u < a @ v \<longleftrightarrow> u < v"
  by (induction a) auto

lemma digit_val_range: "is_digit c \<Longrightarrow> 0 \<le> digit_val c \<and> digit_val c \<le> 9"
  by (auto simp: is_digit_def digit_val_def char_between_def)

lemma digits_val_Cons: "digits_val (c # cs) = digit_val c * 10 ^ length cs + digits_val cs"
  using digits_val_append [of "[c]" cs] by (simp add: digits_val_def)

lemma digits_val_range: "list_all is_digit s \<Longrightarrow> 0 \<le> digits_val s \<and> digits_val s < 10 ^ length s"
proof (induction s)
  case (Cons c s)
  have "digit_val c * 10 ^ length s \<le> 9 * 10 ^ length s" using digit_val_range [of c] Cons.prems by (intro mult_right_mono) auto
  moreover have "0 \<le> digits_val s" "digits_val s < 10 ^ length s" using Cons by auto
  ultimately have "digit_val c * 10 ^ length s + digits_val s < 10 * 10 ^ length s" by linarith
  then show ?case using \<open>0 \<le> digits_val s\<close> digit_val_range [of c] Cons.prems by (simp add: digits_val_Cons)
qed (simp add: digits_val_def)

lemma digits_less:
  "length a = length b \<Longrightarrow> list_all is_digit a \<Longrightarrow> list_all is_digit b \<Longrightarrow> digits_val a < digits_val b \<Longrightarrow> a < b"
proof (induction a b rule: list_induct2)
  case (Cons c a d b)
  have r: "0 \<le> digits_val a" "digits_val b < 10 ^ length b" using digits_val_range Cons.prems by auto
  have "digit_val c \<le> digit_val d"
  proof (rule ccontr)
    assume "\<not> digit_val c \<le> digit_val d"
    then have "(digit_val d + 1) * 10 ^ length b \<le> digit_val c * 10 ^ length b" by (intro mult_right_mono) auto
    then show False using Cons.prems(3) r Cons.hyps by (simp add: digits_val_Cons algebra_simps)
  qed
  then consider "digit_val c < digit_val d" | "digit_val c = digit_val d" by linarith
  then show ?case
  proof cases
    case 1
    then have "c < d" by (simp add: digit_val_def less_char_def)
    then show ?thesis by simp
  next
    case 2
    then have "of_char c = (of_char d :: nat)" by (simp add: digit_val_def)
    then have "c = d" by simp
    then show ?thesis using Cons 2 by (simp add: digits_val_Cons)
  qed
qed simp

lemma pad_less: "0 \<le> m \<Longrightarrow> m < n \<Longrightarrow> n < 10 ^ k \<Longrightarrow> 0 < k \<Longrightarrow> pad k m < pad k n"
  by (rule digits_less) (simp_all add: pad_digits)

section \<open>The parts of a time\<close>

definition valid_day :: "int \<Rightarrow> bool" where
  "valid_day day \<longleftrightarrow> -719162 \<le> day \<and> day \<le> 2932896"

definition valid_time :: "time \<Rightarrow> bool" where
  "valid_time t \<longleftrightarrow> valid_day (t div 86400000000)"

definition date_text :: "int \<times> int \<times> int \<Rightarrow> string" where
  "date_text p = (case p of (y, m, d) \<Rightarrow> pad 4 y @ ''-'' @ pad 2 m @ ''-'' @ pad 2 d)"

definition clock_text :: "int \<Rightarrow> string" where
  "clock_text s = pad 2 (s div 3600) @ '':'' @ pad 2 (s div 60 mod 60) @ '':'' @ pad 2 (s mod 60)"

definition fraction_text :: "int \<Rightarrow> string" where
  "fraction_text f = (if f = 0 then [] else ''.'' @ pad 6 f) @ ''+00:00''"

lemma iso_parts: "iso t = date_text (civil (t div 86400000000)) @ ''T'' @ clock_text (t mod 86400000000 div 1000000) @ fraction_text (t mod 86400000000 mod 1000000)"
  by (simp add: iso_def iso_date_def date_text_def clock_text_def fraction_text_def Let_def)

definition date_ok :: "int \<times> int \<times> int \<Rightarrow> bool" where
  "date_ok p \<longleftrightarrow> (case p of (y, m, d) \<Rightarrow> 1 \<le> y \<and> y \<le> 9999 \<and> 1 \<le> m \<and> m \<le> 12 \<and> 1 \<le> d \<and> d \<le> 31)"

lemma day_in_month: "list_all (\<lambda>k. let d = k - (153 * month_index k + 2) div 5 + 1 in 1 \<le> d \<and> d \<le> 31) [0..365]"
  by code_simp

lemma civil_year_mono: "a \<le> b \<Longrightarrow> fst (civil a) \<le> fst (civil b)"
  using civil_less [of a b] by (cases "a = b") (auto simp: date_less_def split: prod.splits)

lemma civil_ok: "valid_day day \<Longrightarrow> date_ok (civil day)"
proof -
  assume v: "valid_day day"
  have y: "civil (-719162) = (1, 1, 1)" "civil 2932896 = (9999, 12, 31)" by code_simp+
  have "1 \<le> fst (civil day)" "fst (civil day) \<le> 9999"
    using civil_year_mono [of "-719162" day] civil_year_mono [of day 2932896] v y by (simp_all add: valid_day_def)
  moreover have "march_day day \<in> {0..365}" using march_day_range [of day] by simp
  then have "let d = march_day day - (153 * month_index (march_day day) + 2) div 5 + 1 in 1 \<le> d \<and> d \<le> 31"
    using day_in_month unfolding list_all_iff set_upto by (rule bspec [rotated])
  ultimately show ?thesis
    using month_index_range [of "march_day day"] march_day_range [of day] by (simp add: date_ok_def civil_march Let_def)
qed

lemma date_text_less:
  assumes "date_ok p" "date_ok q" "date_less p q"
  shows "date_text p < date_text q \<and> length (date_text p) = length (date_text q)"
proof -
  obtain y m d y' m' d' where pq: "p = (y, m, d)" "q = (y', m', d')" by (metis surj_pair)
  have l: "length (pad 4 y) = 4" "length (pad 4 y') = 4" "length (pad 2 m) = 2" "length (pad 2 m') = 2" "length (pad 2 d) = 2" "length (pad 2 d') = 2"
    using assms(1,2) by (auto simp: date_ok_def pq pad_digits)
  consider "y < y'" | "y = y'" "m < m'" | "y = y'" "m = m'" "d < d'" using assms(3) by (auto simp: date_less_def pq)
  then have "date_text p < date_text q"
  proof cases
    case 1
    then have "pad 4 y < pad 4 y'" using assms(1,2) by (intro pad_less) (auto simp: date_ok_def pq)
    then show ?thesis using l by (simp add: date_text_def pq less_prefix)
  next
    case 2
    then have "pad 2 m < pad 2 m'" using assms(1,2) by (intro pad_less) (auto simp: date_ok_def pq)
    then show ?thesis using l 2 by (simp add: date_text_def pq less_prefix)
  next
    case 3
    then have "pad 2 d < pad 2 d'" using assms(1,2) by (intro pad_less) (auto simp: date_ok_def pq)
    then show ?thesis using 3 by (simp add: date_text_def pq)
  qed
  then show ?thesis using l by (simp add: date_text_def pq)
qed

section \<open>The order of the texts is the order of the times\<close>

lemma clock_range: "0 \<le> (s :: int) \<Longrightarrow> s < 86400 \<Longrightarrow> 0 \<le> s div 3600 \<and> s div 3600 < 24 \<and> 0 \<le> s div 60 mod 60 \<and> s div 60 mod 60 < 60 \<and> 0 \<le> s mod 60 \<and> s mod 60 < 60"
  using zdiv_mono1 [of s 86399 3600] by (simp add: pos_imp_zdiv_nonneg_iff)

lemma clock_sum: "(s :: int) = s div 3600 * 3600 + s div 60 mod 60 * 60 + s mod 60"
proof -
  have "s div 60 div 60 = s div 3600" by (simp add: zdiv_zmult2_eq flip: mult_2)
  then show ?thesis using div_mult_mod_eq [of "s div 60" 60] div_mult_mod_eq [of s 60] by linarith
qed

lemma clock_lex:
  fixes h m s :: int
  assumes "h * 3600 + m * 60 + s < h' * 3600 + m' * 60 + s'" "m' < 60" "s' < 60" "0 \<le> m" "0 \<le> s"
  shows "h < h' \<or> h = h' \<and> (m < m' \<or> m = m' \<and> s < s')"
proof (cases "h < h'")
  case False
  have "h = h'"
  proof (rule ccontr)
    assume "h \<noteq> h'"
    then have "h' + 1 \<le> h" using False by linarith
    then show False using assms by linarith
  qed
  moreover have "m < m' \<or> m = m' \<and> s < s'" using assms calculation by linarith
  ultimately show ?thesis by simp
qed simp

lemma length_clock_text: "0 \<le> s \<Longrightarrow> s < 86400 \<Longrightarrow> length (clock_text s) = 8"
  using clock_range [of s] by (simp add: clock_text_def pad_digits)

lemma clock_text_less:
  assumes "0 \<le> a" "a < b" "b < 86400"
  shows "clock_text a < clock_text b"
proof -
  note r = clock_range [of a] clock_range [of b]
  define h m s where "h = a div 3600" and "m = a div 60 mod 60" and "s = a mod 60"
  define h' m' s' where "h' = b div 3600" and "m' = b div 60 mod 60" and "s' = b mod 60"
  have ca: "clock_text a = pad 2 h @ '':'' @ pad 2 m @ '':'' @ pad 2 s" unfolding clock_text_def h_def m_def s_def ..
  have cb: "clock_text b = pad 2 h' @ '':'' @ pad 2 m' @ '':'' @ pad 2 s'" unfolding clock_text_def h'_def m'_def s'_def ..
  have l: "length (pad 2 h) = length (pad 2 h')" "length (pad 2 m) = length (pad 2 m')" if "0 \<le> h" "h < 24" "0 \<le> h'" "h' < 24" "0 \<le> m" "m < 60" "0 \<le> m'" "m' < 60"
    using that by (simp_all add: pad_digits(3))
  have bounds: "0 \<le> h" "h < 24" "0 \<le> m" "m < 60" "0 \<le> s" "s < 60" "0 \<le> h'" "h' < 24" "0 \<le> m'" "m' < 60" "0 \<le> s'" "s' < 60"
    using r assms by (simp_all add: h_def m_def s_def h'_def m'_def s'_def)
  have "h * 3600 + m * 60 + s < h' * 3600 + m' * 60 + s'"
    using assms(2) clock_sum [of a] clock_sum [of b] unfolding h_def m_def s_def h'_def m'_def s'_def by linarith
  then have lex: "h < h' \<or> h = h' \<and> (m < m' \<or> m = m' \<and> s < s')" by (rule clock_lex [OF _ bounds(10,12,3,5)])
  consider "h < h'" | "h = h'" "m < m'" | "h = h'" "m = m'" "s < s'" using lex by blast
  then show ?thesis
  proof cases
    case 1
    then have "pad 2 h < pad 2 h'" using bounds pad_less [of h h' 2] pad_less [of s s' 2] by simp
    then show ?thesis unfolding ca cb by (intro less_prefix l bounds)
  next
    case 2
    then have "pad 2 m < pad 2 m'" using bounds pad_less [of m m' 2] by simp
    then have "pad 2 m @ '':'' @ pad 2 s < pad 2 m' @ '':'' @ pad 2 s'" by (intro less_prefix l bounds)
    then show ?thesis unfolding ca cb 2(1) by simp
  next
    case 3
    then have "pad 2 s < pad 2 s'" using bounds pad_less [of h h' 2] pad_less [of s s' 2] by simp
    then show ?thesis unfolding ca cb 3(1,2) by simp
  qed
qed

text \<open>A time without a fraction goes on with a plus sign, which is less than the point of a fraction.\<close>

lemma fraction_text_less:
  assumes "0 \<le> f" "f < g" "g < 1000000"
  shows "fraction_text f < fraction_text g"
proof (cases "f = 0")
  case True
  have "CHR ''+'' < CHR ''.''" by code_simp
  then show ?thesis using True assms by (simp add: fraction_text_def)
next
  case False
  have "pad 6 f < pad 6 g" using assms by (intro pad_less) auto
  then show ?thesis using False assms by (simp add: fraction_text_def pad_digits less_prefix)
qed

lemma iso_less:
  assumes "valid_time a" "valid_time b" "a < b"
  shows "iso a < iso b"
proof -
  define us us' where "us = a mod 86400000000" and "us' = b mod 86400000000"
  have r: "0 \<le> us" "us < 86400000000" "0 \<le> us'" "us' < 86400000000" by (simp_all add: us_def us'_def)
  have s: "0 \<le> us div 1000000" "us div 1000000 < 86400" "0 \<le> us' div 1000000" "us' div 1000000 < 86400"
    using r zdiv_mono1 [of us 86399999999 1000000] zdiv_mono1 [of us' 86399999999 1000000] by simp_all
  have ok: "date_ok (civil (a div 86400000000))" "date_ok (civil (b div 86400000000))" using assms(1,2) by (simp_all add: valid_time_def civil_ok)
  have "a div 86400000000 \<le> b div 86400000000" using assms(3) by (simp add: zdiv_mono1)
  then consider "a div 86400000000 < b div 86400000000" | "a div 86400000000 = b div 86400000000" by linarith
  then show ?thesis
  proof cases
    case 1
    then show ?thesis using date_text_less [OF ok civil_less [OF 1]] by (simp add: iso_parts less_prefix)
  next
    case 2
    then have us: "us < us'" using assms(3) div_mult_mod_eq [of a 86400000000] div_mult_mod_eq [of b 86400000000] unfolding us_def us'_def by linarith
    then have "us div 1000000 \<le> us' div 1000000" by (simp add: zdiv_mono1)
    then consider "us div 1000000 < us' div 1000000" | "us div 1000000 = us' div 1000000" by linarith
    then have "clock_text (us div 1000000) @ fraction_text (us mod 1000000) < clock_text (us' div 1000000) @ fraction_text (us' mod 1000000)"
    proof cases
      case 1
      show ?thesis by (rule less_prefix [OF _ clock_text_less]) (use 1 s in \<open>simp_all add: length_clock_text\<close>)
    next
      case e: 2
      then have "us mod 1000000 < us' mod 1000000" using us div_mult_mod_eq [of us 1000000] div_mult_mod_eq [of us' 1000000] by linarith
      then show ?thesis using e fraction_text_less by simp
    qed
    then show ?thesis using 2 by (simp add: iso_parts us_def us'_def)
  qed
qed

text \<open>
  Comparing stored times as text is comparing the times. For all datetimes Python has, with or without a fraction of a second, the text the store writes for one is
  less than the text of the other exactly when its time is earlier, so SQL's comparisons of due times and sorting by them agree with the model's.
\<close>

theorem iso_order:
  assumes "valid_time a" "valid_time b"
  shows "(iso a < iso b \<longleftrightarrow> a < b) \<and> (iso a \<le> iso b \<longleftrightarrow> a \<le> b) \<and> (iso a = iso b \<longleftrightarrow> a = b)"
  using iso_less [OF assms] iso_less [OF assms(2,1)] by (cases a b rule: linorder_cases) (auto simp: less_le_not_le)

section \<open>A written time reads back\<close>

definition days_of_civil :: "int \<times> int \<times> int \<Rightarrow> int" where
  "days_of_civil p = (case p of (y, m, d) \<Rightarrow>
     let y' = (if m \<le> 2 then y - 1 else y); yoe = y' mod 400; mp = (if 2 < m then m - 3 else m + 9); doy = (153 * mp + 2) div 5 + d - 1
     in y' div 400 * 146097 + (year_start yoe + doy) - 719468)"

text \<open>\<^verbatim>\<open>datetime.fromisoformat\<close> on the texts \<^verbatim>\<open>isoformat\<close> writes: fields at fixed places and an optional fraction.\<close>

definition from_iso :: "string \<Rightarrow> time" where
  "from_iso s = (let num = (\<lambda>i k. digits_val (take k (drop i s)));
       f = (if s ! 19 = CHR ''.'' then num 20 6 else 0)
     in (days_of_civil (num 0 4, num 5 2, num 8 2) * 86400 + num 11 2 * 3600 + num 14 2 * 60 + num 17 2) * 1000000 + f)"

text \<open>\<^verbatim>\<open>_iso\<close> and \<^verbatim>\<open>_dt\<close> of the store.\<close>

definition write_dt :: "time option \<Rightarrow> string option" where
  "write_dt t = map_option iso t"

definition read_dt :: "string option \<Rightarrow> time option" where
  "read_dt v = (case v of None \<Rightarrow> None | Some s \<Rightarrow> if s = [] then None else Some (from_iso s))"

lemma days_of_civil: "days_of_civil (civil day) = day"
proof -
  define z where "z = day + 719468"
  define doe where "doe = z mod 146097"
  define mp where "mp = month_index (march_day day)"
  have mp: "0 \<le> mp" "mp \<le> 11" using month_index_range march_day_range by (auto simp: mp_def)
  have y: "0 \<le> year_of_era doe" "year_of_era doe \<le> 399" using year_of_era_range [of doe] by (simp_all add: doe_def)
  have my: "march_year day = year_of_era doe + z div 146097 * 400" by (simp add: march_year_def Let_def z_def doe_def)
  have "march_year day mod 400 = year_of_era doe" "march_year day div 400 = z div 146097" using y by (simp_all add: my)
  moreover have "year_start (year_of_era doe) + march_day day = doe" by (simp add: march_day_def Let_def z_def doe_def)
  moreover have "z div 146097 * 146097 + doe = z" by (simp add: doe_def)
  ultimately have "march_year day div 400 * 146097 + (year_start (march_year day mod 400) + march_day day) - 719468 = day" by (simp add: z_def)
  moreover have "days_of_civil (civil day) = march_year day div 400 * 146097 + (year_start (march_year day mod 400) + march_day day) - 719468"
    using mp by (simp add: civil_march days_of_civil_def Let_def flip: mp_def)
  ultimately show ?thesis by simp
qed

lemma from_iso_iso:
  assumes "valid_time t"
  shows "from_iso (iso t) = t"
proof -
  define us where "us = t mod 86400000000"
  define s where "s = us div 1000000"
  define f where "f = us mod 1000000"
  obtain y m d where c: "civil (t div 86400000000) = (y, m, d)" by (metis surj_pair)
  have ok: "1 \<le> y" "y \<le> 9999" "1 \<le> m" "m \<le> 12" "1 \<le> d" "d \<le> 31" using civil_ok [of "t div 86400000000"] assms by (auto simp: valid_time_def date_ok_def c)
  have us: "0 \<le> us" "us < 86400000000" by (simp_all add: us_def)
  have s: "0 \<le> s" "s < 86400" using us zdiv_mono1 [of us 86399999999 1000000] by (simp_all add: s_def)
  note r = clock_range [OF s]
  have f: "0 \<le> f" "f < 1000000" by (simp_all add: f_def)
  have l: "length (pad 4 y) = 4" "length (pad 2 m) = 2" "length (pad 2 d) = 2" "length (pad 2 (s div 3600)) = 2" "length (pad 2 (s div 60 mod 60)) = 2" "length (pad 2 (s mod 60)) = 2"
    using ok r by (simp_all add: pad_digits)
  have v: "digits_val (pad 4 y) = y" "digits_val (pad 2 m) = m" "digits_val (pad 2 d) = d" "digits_val (pad 2 (s div 3600)) = s div 3600"
    "digits_val (pad 2 (s div 60 mod 60)) = s div 60 mod 60" "digits_val (pad 2 (s mod 60)) = s mod 60"
    using ok r by (simp_all add: pad_digits)
  have i: "iso t = pad 4 y @ ''-'' @ pad 2 m @ ''-'' @ pad 2 d @ ''T'' @ pad 2 (s div 3600) @ '':'' @ pad 2 (s div 60 mod 60) @ '':'' @ pad 2 (s mod 60) @ fraction_text f"
    by (simp add: iso_parts date_text_def clock_text_def c s_def f_def us_def)
  have fr: "(if iso t ! 19 = CHR ''.'' then digits_val (take 6 (drop 20 (iso t))) else 0) = f"
  proof (cases "f = 0")
    case True
    then show ?thesis using l by (simp add: i fraction_text_def nth_append)
  next
    case False
    have "length (pad 6 f) = 6" "digits_val (pad 6 f) = f" using f by (simp_all add: pad_digits)
    then show ?thesis using l False by (simp add: i fraction_text_def nth_append)
  qed
  have "from_iso (iso t) = (days_of_civil (y, m, d) * 86400 + (s div 3600 * 3600 + s div 60 mod 60 * 60 + s mod 60)) * 1000000 + f"
    unfolding from_iso_def Let_def fr using l v by (simp add: i)
  also have "\<dots> = (t div 86400000000 * 86400 + s) * 1000000 + f" using days_of_civil [of "t div 86400000000"] c clock_sum [of s, symmetric] by simp
  also have "\<dots> = t div 86400000000 * 86400000000 + us" using div_mult_mod_eq [of us 1000000] by (simp add: s_def f_def algebra_simps)
  finally show ?thesis by (simp add: us_def)
qed

text \<open>
  A datetime that was stored reads back as itself, a missing one as a missing one.
\<close>

theorem stored_time_roundtrip:
  assumes "\<forall>t. x = Some t \<longrightarrow> valid_time t"
  shows "read_dt (write_dt x) = x"
proof (cases x)
  case (Some t)
  have "iso t \<noteq> []" by (simp add: iso_def iso_date_def Let_def split: prod.split)
  then show ?thesis using Some assms from_iso_iso [of t] by (simp add: read_dt_def write_dt_def)
qed (simp add: read_dt_def write_dt_def)

theorem iso_order_witness: "iso 1700000000000000 < iso 1700000000500000 \<and> iso 1700000000500000 < iso 1700000001000000"
  using iso_order [of 1700000000000000 1700000000500000] iso_order [of 1700000000500000 1700000001000000] by (simp add: valid_time_def valid_day_def)

theorem stored_time_roundtrip_witness: "read_dt (write_dt (Some 1700000000500000)) = Some 1700000000500000"
  by (rule stored_time_roundtrip) (simp add: valid_time_def valid_day_def)

end
