(* ===== verification/Month_Stats.thy ===== *)
theory Month_Stats
  imports Backtest Clock_Text
begin

text \<open>
  The calendar month statistics of \<^verbatim>\<open>research/evaluate.py\<close>: \<^verbatim>\<open>monthly_returns\<close> and
  \<^verbatim>\<open>_monthly_sharpe\<close>, with which strategies are compared over the out-of-sample months. An equity curve
  is a list of times and values in the order of time. It is proved how many returns a window yields, and
  that the first of them stops at the midnight at which the last day of its month begins.
\<close>

section \<open>Months\<close>

definition month_no :: "time \<Rightarrow> int" where
  "month_no t = (case civil (t div 86400000000) of (y, m, d) \<Rightarrow> 12 * y + m)"

text \<open>The label pandas gives the bin of a month, \<^verbatim>\<open>resample("ME")\<close>: the last day of the month, at midnight.\<close>

definition month_end :: "time \<Rightarrow> time" where
  "month_end t = (let day = t div 86400000000 in
     last (filter (\<lambda>d. month_no (d * 86400000000) = month_no t) [day..day + 30]) * 86400000000)"

text \<open>\<^verbatim>\<open>resample("ME").last()\<close>: the last entry of each month, and its value under the label of the month. Every month between the first and the last has candles.\<close>

fun month_last :: "(time \<times> rat) list \<Rightarrow> (time \<times> rat) list" where
  "month_last [] = []"
| "month_last [x] = [x]"
| "month_last (x # y # ys) = (if month_no (fst x) = month_no (fst y) then month_last (y # ys) else x # month_last (y # ys))"

definition month_closes :: "(time \<times> rat) list \<Rightarrow> (time \<times> rat) list" where
  "month_closes eq = map (\<lambda>(t, e). (month_end t, e)) (month_last eq)"

text \<open>\<^verbatim>\<open>pct_change()\<close>: the change from the entry before, NaN for the first.\<close>

fun pct_change :: "rat option \<Rightarrow> (time \<times> rat) list \<Rightarrow> (time \<times> rat option) list" where
  "pct_change prev [] = []"
| "pct_change prev ((t, e) # xs) = (t, map_option (\<lambda>p. fsub (fdiv e p) 1) prev) # pct_change (Some e) xs"

definition dropna :: "(time \<times> rat option) list \<Rightarrow> rat list" where
  "dropna m = concat (map (\<lambda>(t, r). case r of None \<Rightarrow> [] | Some x \<Rightarrow> [x]) m)"

definition index_error :: exn where "index_error = Other ''IndexError''"

definition all_returns :: "(time \<times> rat) list \<Rightarrow> rat list" where
  "all_returns eq = dropna (pct_change None (month_closes eq))"

definition window_returns :: "(time \<times> rat) list \<Rightarrow> time \<Rightarrow> exn + rat list" where
  "window_returns eq since =
     (let m = filter (\<lambda>(l, r). since \<le> l) (pct_change None (month_closes eq)); first = filter (\<lambda>(t, e). t < since) eq in
      if first = [] then Inr (dropna m)
      else case m of [] \<Rightarrow> Inl index_error
        | (l, _) # ms \<Rightarrow> let inside = filter (\<lambda>(t, e). since \<le> t \<and> t \<le> l) eq in
            if inside = [] then Inl index_error
            else Inr (dropna ((l, Some (fsub (fdiv (snd (last inside)) (snd (last first))) 1)) # ms)))"

definition monthly_returns :: "(time \<times> rat) list \<Rightarrow> time option \<Rightarrow> exn + rat list" where
  "monthly_returns eq since = (case since of None \<Rightarrow> Inr (all_returns eq) | Some s \<Rightarrow> window_returns eq s)"

definition sharpe_of :: "reductions \<Rightarrow> rat list \<Rightarrow> rat" where
  "sharpe_of np m = (if 1 < length m \<and> 0 < np_std np m then fmul (fdiv (np_mean np m) (np_std np m)) (np_sqrt np 12) else 0)"

definition monthly_sharpe_since :: "reductions \<Rightarrow> (time \<times> rat) list \<Rightarrow> time option \<Rightarrow> exn + rat" where
  "monthly_sharpe_since np eq since = bindR (monthly_returns eq since) (\<lambda>m. Inr (sharpe_of np m))"

section \<open>Months in the order of time\<close>

lemma month_no_mono: "a \<le> b \<Longrightarrow> month_no a \<le> month_no b"
proof -
  assume "a \<le> b"
  then have "a div 86400000000 \<le> b div 86400000000" by (rule zdiv_mono1) simp
  then consider "a div 86400000000 = b div 86400000000" | "a div 86400000000 < b div 86400000000" by linarith
  then show ?thesis
  proof cases
    case 2
    obtain y m d y' m' d' where c: "civil (a div 86400000000) = (y, m, d)" "civil (b div 86400000000) = (y', m', d')" by (metis surj_pair)
    have r: "1 \<le> fst (snd (civil z)) \<and> fst (snd (civil z)) \<le> 12" for z
      using month_index_range [of "march_day z"] march_day_range [of z] by (auto simp: civil_march Let_def)
    have "1 \<le> m" "m \<le> 12" "1 \<le> m'" "m' \<le> 12" using r [of "a div 86400000000"] r [of "b div 86400000000"] c by simp_all
    then show ?thesis using civil_less [OF 2] c by (auto simp: month_no_def date_less_def)
  qed (simp add: month_no_def)
qed

lemma month_end_props:
  shows "month_no (month_end t) = month_no t" "t div 86400000000 * 86400000000 \<le> month_end t"
proof -
  let ?d = "t div 86400000000"
  let ?xs = "filter (\<lambda>d. month_no (d * 86400000000) = month_no t) [?d..?d + 30]"
  have "?d \<in> set ?xs" by (simp add: month_no_def)
  then have "last ?xs \<in> set ?xs" by (metis empty_iff last_in_set list.set(1))
  then have "month_no (last ?xs * 86400000000) = month_no t \<and> ?d \<le> last ?xs" by simp
  then show "month_no (month_end t) = month_no t" "?d * 86400000000 \<le> month_end t" by (simp_all add: month_end_def Let_def)
qed

lemma month_end_since:
  assumes "86400000000 dvd since" "since \<le> t"
  shows "since \<le> month_end t"
proof -
  obtain k where k: "since = 86400000000 * k" using assms(1) by (elim dvdE)
  have "k \<le> t div 86400000000" using assms(2) zdiv_mono1 [of since t 86400000000] by (simp add: k)
  then show ?thesis using month_end_props(2) [of t] by (simp add: k)
qed

lemma month_end_before: "month_no t < month_no since \<Longrightarrow> month_end t < since"
  using month_no_mono [of since "month_end t"] month_end_props(1) [of t] by linarith

lemma month_end_last_day:
  assumes "t div 86400000000 = k" "month_no t < month_no ((k + 1) * 86400000000)"
  shows "month_end t = k * 86400000000"
proof -
  have "month_no (d * 86400000000) \<noteq> month_no t" if "k + 1 \<le> d" for d
    using month_no_mono [of "(k + 1) * 86400000000" "d * 86400000000"] assms(2) that by simp
  moreover have "month_no (k * 86400000000) = month_no t" by (simp add: month_no_def assms(1))
  ultimately have "filter (\<lambda>d. month_no (d * 86400000000) = month_no t) [k..k + 30] = [k]"
    by (subst upto_rec1) (auto simp: filter_empty_conv)
  then show ?thesis by (simp add: month_end_def assms(1))
qed

section \<open>The last entries of the months\<close>

lemma month_last_set: "set (month_last xs) \<subseteq> set xs"
  by (induction xs rule: month_last.induct) auto

lemma month_last_last: "xs \<noteq> [] \<Longrightarrow> month_last xs \<noteq> [] \<and> last (month_last xs) = last xs"
  by (induction xs rule: month_last.induct) auto

lemma month_last_append:
  assumes "bs \<noteq> []"
  shows "month_last (as @ bs) = (if as = [] then [] else if month_no (fst (last as)) = month_no (fst (hd bs)) then butlast (month_last as) else month_last as)
    @ month_last bs"
proof (induction as rule: month_last.induct)
  case (2 x)
  show ?case using assms by (cases bs) auto
next
  case (3 x y ys)
  show ?case using 3 month_last_last [of "y # ys"] by auto
qed simp

lemma month_last_months:
  assumes "sorted (map fst xs)"
  shows "map (\<lambda>p. month_no (fst p)) (month_last xs) = remdups_adj (map (\<lambda>p. month_no (fst p)) xs)"
  using assms by (induction xs rule: month_last.induct) auto

lemma distinct_remdups_adj: "sorted (xs :: int list) \<Longrightarrow> distinct (remdups_adj xs)"
  by (induction xs rule: remdups_adj.induct) auto

lemma length_month_last:
  assumes "sorted (map fst xs)"
  shows "length (month_last xs) = card ((\<lambda>p. month_no (fst p)) ` set xs)"
proof -
  let ?ms = "map (\<lambda>p. month_no (fst p)) xs"
  have "sorted ?ms" using assms month_no_mono by (auto simp: sorted_iff_nth_mono)
  then have "distinct (remdups_adj ?ms)" by (rule distinct_remdups_adj)
  then have "length (remdups_adj ?ms) = card (set ?ms)" by (simp flip: distinct_card)
  then show ?thesis using arg_cong [OF month_last_months [OF assms], of length] by simp
qed

lemma month_last_before_last:
  assumes "sorted (map fst xs)" "p \<in> set (butlast (month_last xs))"
  shows "month_no (fst p) < month_no (fst (last xs))"
  using assms
proof (induction xs rule: month_last.induct)
  case (3 x y ys)
  have s: "sorted (map fst (y # ys))" using 3(3) by simp
  show ?case
  proof (cases "month_no (fst x) = month_no (fst y)")
    case True
    then show ?thesis using 3(1) [OF _ s] 3(4) by simp
  next
    case False
    have "fst y \<le> fst (last (y # ys))" using s by (cases ys) auto
    then have "month_no (fst x) < month_no (fst (last (y # ys)))"
      using False month_no_mono [of "fst x" "fst y"] month_no_mono [of "fst y" "fst (last (y # ys))"] 3(3) by auto
    then show ?thesis using 3(2) [OF False s] 3(4) False month_last_last [of "y # ys"] by auto
  qed
qed auto

lemma sorted_le_last: "sorted (map fst xs) \<Longrightarrow> p \<in> set xs \<Longrightarrow> fst p \<le> (fst (last xs) :: int)"
  by (induction xs) auto

lemma split_at_time:
  "sorted (map fst xs) \<Longrightarrow> xs = filter (\<lambda>p. fst p < k) xs @ filter (\<lambda>p. k \<le> fst p) xs" for k :: int
proof (induction xs)
  case (Cons x xs)
  show ?case
  proof (cases "fst x < k")
    case False
    then have "filter (\<lambda>p. fst p < k) (x # xs) = []" "filter (\<lambda>p. k \<le> fst p) (x # xs) = x # xs"
      using Cons(2) by (auto simp: filter_empty_conv intro!: filter_True)
    then show ?thesis by simp
  qed (use Cons in simp)
qed simp

text \<open>The months of a window that starts at midnight: the entries whose label is in the window are those of its months.\<close>

lemma window_months:
  assumes s: "sorted (map fst eq)" and k: "86400000000 dvd since" "since \<in> fst ` set eq"
  defines "as \<equiv> filter (\<lambda>p. fst p < since) eq" and "bs \<equiv> filter (\<lambda>p. since \<le> fst p) eq"
  shows "\<exists>pre. month_last eq = pre @ month_last bs \<and> (as = [] \<longrightarrow> pre = [])
    \<and> (\<forall>p\<in>set pre. month_end (fst p) < since) \<and> (\<forall>p\<in>set (month_last bs). since \<le> month_end (fst p)) \<and> bs \<noteq> []"
proof -
  have eq: "eq = as @ bs" unfolding as_def bs_def by (rule split_at_time [OF s])
  have bs: "bs \<noteq> []" using k(2) by (auto simp: bs_def filter_empty_conv)
  have sa: "sorted (map fst as)" "sorted (map fst bs)" using s by (simp_all add: as_def bs_def sorted_filter)
  have hd: "fst (hd bs) = since"
  proof -
    obtain p where p: "p \<in> set bs" "fst p = since" using k(2) by (auto simp: bs_def)
    then have "fst (hd bs) \<le> since" using sa(2) bs by (cases bs) auto
    moreover have "hd bs \<in> set bs" using bs by simp
    then have "since \<le> fst (hd bs)" by (auto simp: bs_def)
    ultimately show ?thesis by simp
  qed
  have before: "month_no (fst p) \<le> month_no (fst (last as))" "month_no (fst (last as)) \<le> month_no since" if "p \<in> set as" for p
  proof -
    have "last as \<in> set as" using that by (intro last_in_set) auto
    then show "month_no (fst (last as)) \<le> month_no since" by (intro month_no_mono) (auto simp: as_def)
    have "fst p \<le> fst (last as)" by (rule sorted_le_last [OF sa(1) that])
    then show "month_no (fst p) \<le> month_no (fst (last as))" by (rule month_no_mono)
  qed
  let ?pre = "if as = [] then [] else if month_no (fst (last as)) = month_no (fst (hd bs)) then butlast (month_last as) else month_last as"
  have "month_last eq = ?pre @ month_last bs" unfolding eq using bs by (rule month_last_append)
  moreover have "month_end (fst p) < since" if "p \<in> set ?pre" for p
  proof (rule month_end_before)
    have as: "as \<noteq> []" using that by (auto split: if_splits)
    then have l: "month_no (fst (last as)) \<le> month_no since" using before(2) [of "last as"] by simp
    show "month_no (fst p) < month_no since"
    proof (cases "month_no (fst (last as)) = month_no since")
      case True
      then show ?thesis using that as hd month_last_before_last [OF sa(1), of p] by simp
    next
      case False
      then have "p \<in> set as" using that as hd month_last_set [of as] by auto
      then show ?thesis using before(1) [of p] l False by simp
    qed
  qed
  moreover have "since \<le> month_end (fst p)" if "p \<in> set (month_last bs)" for p
    using that month_last_set [of bs] by (intro month_end_since k(1)) (auto simp: bs_def)
  moreover have "as = [] \<longrightarrow> ?pre = []" by simp
  ultimately show ?thesis using bs by blast
qed

section \<open>How many returns a window yields\<close>

lemma pct_change_labels: "map fst (pct_change prev xs) = map fst xs"
  by (induction prev xs rule: pct_change.induct) auto

lemma pct_change_append:
  "pct_change prev (xs @ ys) = pct_change prev xs @ pct_change (if xs = [] then prev else Some (snd (last xs))) ys"
  by (induction prev xs rule: pct_change.induct) auto

lemma dropna_simps [simp]:
  "dropna [] = []" "dropna ((l, None) # m) = dropna m" "dropna ((l, Some x) # m) = x # dropna m" "dropna (m @ n) = dropna m @ dropna n"
  by (simp_all add: dropna_def)

lemma length_dropna_some: "length (dropna (pct_change (Some p) xs)) = length xs"
  by (induction xs arbitrary: p) auto

lemma filter_fst_all: "(\<And>l. l \<in> fst ` set xs \<Longrightarrow> P l) \<Longrightarrow> filter (\<lambda>(l, r). P l) xs = xs"
  by (induction xs) auto

lemma filter_fst_none: "(\<And>l. l \<in> fst ` set xs \<Longrightarrow> \<not> P l) \<Longrightarrow> filter (\<lambda>(l, r). P l) xs = []"
  by (induction xs) auto

lemma fst_pct_change: "fst ` set (pct_change prev xs) = fst ` set xs"
  using pct_change_labels [of prev xs] by (metis list.set_map)

text \<open>The changes inside a window that starts at midnight: those of its months, where the first looks back to the month before the window if there is one.\<close>

lemma window_changes:
  assumes "sorted (map fst eq)" "86400000000 dvd since" "since \<in> fst ` set eq"
  obtains q x L where "filter (\<lambda>(l, r). since \<le> l) (pct_change None (month_closes eq)) = pct_change q (x # L)"
    "length (x # L) = card ((\<lambda>p. month_no (fst p)) ` {p \<in> set eq. since \<le> fst p})" "since \<le> fst x"
    "filter (\<lambda>p. fst p < since) eq = [] \<longrightarrow> q = None"
proof -
  let ?bs = "filter (\<lambda>p. since \<le> fst p) eq" and ?lab = "\<lambda>(t, e :: rat). (month_end t, e)"
  obtain pre where p: "month_last eq = pre @ month_last ?bs" "filter (\<lambda>p. fst p < since) eq = [] \<longrightarrow> pre = []"
    "\<And>p. p \<in> set pre \<Longrightarrow> month_end (fst p) < since" "\<And>p. p \<in> set (month_last ?bs) \<Longrightarrow> since \<le> month_end (fst p)" "?bs \<noteq> []"
    using window_months [OF assms] by blast
  define q where "q = (if pre = [] then None else Some (snd (last (map ?lab pre))))"
  obtain y L where y: "month_last ?bs = y # L" using month_last_last [OF p(5)] by (cases "month_last ?bs") auto
  have split: "pct_change None (month_closes eq) = pct_change None (map ?lab pre) @ pct_change q (map ?lab (y # L))"
    by (simp add: month_closes_def p(1) y pct_change_append q_def)
  have labels: "fst ` set (pct_change v (map ?lab ps)) = (\<lambda>p. month_end (fst p)) ` set ps" for v ps
    by (auto simp: fst_pct_change image_image case_prod_beta)
  have "filter (\<lambda>(l, r). since \<le> l) (pct_change None (map ?lab pre)) = []"
    by (rule filter_fst_none) (use p(3) in \<open>auto simp: labels not_le\<close>)
  moreover have "filter (\<lambda>(l, r). since \<le> l) (pct_change q (map ?lab (y # L))) = pct_change q (map ?lab (y # L))"
    by (rule filter_fst_all) (use p(4) in \<open>auto simp: labels simp flip: y\<close>)
  ultimately have "filter (\<lambda>(l, r). since \<le> l) (pct_change None (month_closes eq)) = pct_change q (?lab y # map ?lab L)" by (simp add: split)
  moreover have "length (?lab y # map ?lab L) = card ((\<lambda>p. month_no (fst p)) ` {p \<in> set eq. since \<le> fst p})"
    using length_month_last [of ?bs] y assms(1) by (simp add: sorted_filter)
  moreover have "since \<le> fst (?lab y)" using p(4) [of y] y by (simp add: case_prod_beta)
  ultimately show thesis using that p(2) by (simp add: q_def)
qed

text \<open>
  A window of months that starts at a midnight of the curve yields a return for each of its months when the curve has a value before the window, and otherwise one
  return less: nothing is measured for its first month.
\<close>

theorem months_counted:
  assumes "sorted (map fst eq)" "86400000000 dvd since" "since \<in> fst ` set eq"
  shows "\<exists>rs. monthly_returns eq (Some since) = Inr rs
    \<and> length rs + (if list_ex (\<lambda>p. fst p < since) eq then 0 else 1) = card ((\<lambda>p. month_no (fst p)) ` {p \<in> set eq. since \<le> fst p})"
proof -
  obtain q x L where w: "filter (\<lambda>(l, r). since \<le> l) (pct_change None (month_closes eq)) = pct_change q (x # L)"
    "length (x # L) = card ((\<lambda>p. month_no (fst p)) ` {p \<in> set eq. since \<le> fst p})" "since \<le> fst x"
    "filter (\<lambda>p. fst p < since) eq = [] \<longrightarrow> q = None"
    by (rule window_changes [OF assms])
  obtain l e where x: "x = (l, e)" by (cases x)
  have f: "filter (\<lambda>(t, e). t < since) eq = filter (\<lambda>p. fst p < since) eq" by (intro filter_cong refl) auto
  have ex: "list_ex (\<lambda>p. fst p < since) eq \<longleftrightarrow> filter (\<lambda>p. fst p < since) eq \<noteq> []" by (auto simp: list_ex_iff filter_empty_conv)
  show ?thesis
  proof (cases "filter (\<lambda>p. fst p < since) eq = []")
    case True
    then have "window_returns eq since = Inr (dropna (pct_change (Some e) L))" using w(1,4)
      by (simp add: window_returns_def Let_def f x)
    then show ?thesis using True w(2) ex by (simp add: monthly_returns_def length_dropna_some)
  next
    case False
    have "filter (\<lambda>(t, e). since \<le> t \<and> t \<le> l) eq \<noteq> []" using assms(3) w(3) by (force simp: filter_empty_conv x)
    then have "\<exists>r. window_returns eq since = Inr (r # dropna (pct_change (Some e) L))"
      using False w(1) by (simp add: window_returns_def Let_def f x)
    then show ?thesis using False w(2) ex by (auto simp: monthly_returns_def length_dropna_some)
  qed
qed

theorem months_counted_witness:
  "\<exists>rs. monthly_returns [(1704063600000000, 100), (1704067200000000, 100), (1706745600000000, 110)] (Some 1704067200000000) = Inr rs \<and> length rs = 2"
proof -
  have "card ((\<lambda>p. month_no (fst p)) ` {p \<in> set [(1704063600000000, 100), (1704067200000000, 100), (1706745600000000, 110 :: rat)]. 1704067200000000 \<le> fst p}) = 2"
  proof -
    have m: "month_no 1704067200000000 = 24289" "month_no 1706745600000000 = 24290" by code_simp+
    have "{p \<in> set [(1704063600000000, 100), (1704067200000000, 100), (1706745600000000, 110 :: rat)]. 1704067200000000 \<le> fst p}
        = {(1704067200000000 :: int, 100), (1706745600000000, 110)}" by auto
    then show ?thesis by (simp add: m)
  qed
  then show ?thesis
    using months_counted [of "[(1704063600000000, 100), (1704067200000000, 100), (1706745600000000, 110)]" 1704067200000000]
    by simp
qed

text \<open>
  What happens on the last day of the window's first month is in no return. The equity is 100 before January 2024, at its start and at the midnight of January 31st; it is
  \<open>v\<close> at noon of that day and from there to February. Whatever \<open>v\<close> is, both monthly returns are zero: January is measured to the midnight with which its
  label begins, February from the last value of January.
\<close>

theorem last_day_in_no_return:
  assumes "v \<noteq> 0"
  shows "monthly_returns [(1704063600000000, 100), (1704067200000000, 100), (1706659200000000, 100), (1706702400000000, v), (1706745600000000, v)]
    (Some 1704067200000000) = Inr [0, 0]"
proof -
  have m: "month_no 1704063600000000 = 24288" "month_no 1704067200000000 = 24289" "month_no 1706659200000000 = 24289" "month_no 1706702400000000 = 24289"
    "month_no 1706745600000000 = 24290" by code_simp+
  have jan: "month_end 1706702400000000 = 1706659200000000" using month_end_last_day [of 1706702400000000 19753] m by simp
  have dec: "\<not> 1704067200000000 \<le> month_end 1704063600000000" using month_end_before [of 1704063600000000 1704067200000000] m by simp
  have feb: "1704067200000000 \<le> month_end 1706745600000000" using month_end_since [of 1704067200000000 1706745600000000] by simp
  have f: "flt_round 1 = 1" "flt_round 0 = 0" by code_simp+
  show ?thesis using assms by (simp add: monthly_returns_def window_returns_def month_closes_def m jan dec feb fsub_def fdiv_def f Let_def)
qed

theorem last_day_in_no_return_witness:
  "monthly_returns [(1704063600000000, 100), (1704067200000000, 100), (1706659200000000, 100), (1706702400000000, 200), (1706745600000000, 200)]
    (Some 1704067200000000) = Inr [0, 0]"
  by (rule last_day_in_no_return) simp

end
