(* ===== verification/Evaluation.thy ===== *)
theory Evaluation
  imports Market_Archive Month_Stats
begin

text \<open>
  Evaluation of V1: \<^verbatim>\<open>research/evaluate.py\<close>. Development and holdout months, the runs of V1 and its competitors, the grid search,
  the walk-forward over months, the gates with their verdict, and the one-shot holdout with its lock. The files of the output directory
  are a state; random draws, means, deviations and quantiles are parameters.
\<close>

section \<open>Parameters of the evaluation\<close>

record v1_params =
  vp_buy :: rat
  vp_sell :: rat
  vp_stop :: rat

record v1_grid =
  gr_buy :: "rat list"
  gr_sell :: "rat list"
  gr_stop :: "rat list"

definition HOLDOUT_MONTHS :: nat where "HOLDOUT_MONTHS = 3"

definition GRID :: v1_grid where
  "GRID = \<lparr>gr_buy = [3/2, 2, 5/2, 3, 7/2], gr_sell = [-3/2, -2, -5/2, -3, -7/2], gr_stop = [2, 3, 4, 5, 6]\<rparr>"

definition V1_DEFAULT :: v1_params where "V1_DEFAULT = \<lparr>vp_buy = 5/2, vp_sell = -5/2, vp_stop = 3\<rparr>"

definition COSTS :: bt_config where "COSTS = default_bt_config"

definition STRESS :: bt_config where "STRESS = COSTS\<lparr>bc_fee_rate := flt_round (2 / 1000), bc_slippage_bps := 10\<rparr>"

definition all_in :: "bt_config \<Rightarrow> bt_config" where
  "all_in cfg = cfg\<lparr>bc_sizing := ''all_in'', bc_stop_pct := None\<rparr>"

text \<open>
  What the evaluation takes from NumPy, pandas and the generator: the standard deviation with one degree of freedom less is in \<open>ev_np\<close>, \<open>ev_std0\<close> is the
  population one.
\<close>

record eval_env =
  ev_live :: config
  ev_np :: reductions
  ev_std :: "rat list \<Rightarrow> rat"
  ev_std0 :: "rat list \<Rightarrow> rat"
  ev_median :: "rat list \<Rightarrow> rat"
  ev_percentile :: "rat list \<Rightarrow> rat \<Rightarrow> rat"
  ev_draw :: "int \<Rightarrow> nat list \<Rightarrow> nat \<Rightarrow> nat list"
  ev_permute :: "int \<Rightarrow> nat \<Rightarrow> rat list \<Rightarrow> rat list"

section \<open>Months\<close>

definition month_of :: "'k candle_scheme \<Rightarrow> string" where
  "month_of b = take 7 (iso_date (cd_time b))"

text \<open>Python's \<^verbatim>\<open>xs[-n:]\<close>, which is the whole list for \<open>n = 0\<close>.\<close>

definition last_n :: "nat \<Rightarrow> 'a list \<Rightarrow> 'a list" where
  "last_n n xs = (if n = 0 then xs else drop (length xs - n) xs)"

definition month_names :: "'k candle_scheme list \<Rightarrow> string list" where
  "month_names bars = sort (remdups (map month_of bars))"

definition split_holdout :: "'k candle_scheme list \<Rightarrow> nat \<Rightarrow> 'k candle_scheme list \<times> 'k candle_scheme list \<times> string list" where
  "split_holdout bars holdout_months = (let uniq = month_names bars; hold = last_n holdout_months uniq in
     (filter (\<lambda>b. month_of b \<notin> set hold) bars, filter (\<lambda>b. month_of b \<in> set hold) bars, uniq))"

text \<open>Runs of equal months with their half-open ranges of positions: \<open>start\<close> is where the current run began.\<close>

fun bounds_from :: "string list \<Rightarrow> nat \<Rightarrow> nat \<Rightarrow> (string \<times> nat \<times> nat) list" where
  "bounds_from [] start i = []"
| "bounds_from [m] start i = [(m, start, Suc i)]"
| "bounds_from (m # n # ms) start i = (if m \<noteq> n then (m, start, Suc i) # bounds_from (n # ms) (Suc i) (Suc i) else bounds_from (n # ms) start (Suc i))"

definition month_bounds :: "'k candle_scheme list \<Rightarrow> (string \<times> nat \<times> nat) list" where
  "month_bounds bars = bounds_from (map month_of bars) 0 0"

section \<open>Runs\<close>

definition slice :: "nat \<Rightarrow> nat \<Rightarrow> 'a list \<Rightarrow> 'a list" where
  "slice a b xs = take (b - a) (drop a xs)"

definition with_initial :: "rat option \<Rightarrow> bt_config \<Rightarrow> bt_config" where
  "with_initial initial cfg = (case initial of None \<Rightarrow> cfg | Some x \<Rightarrow> cfg\<lparr>bc_initial := x\<rparr>)"

definition v1_run :: "eval_env \<Rightarrow> candle list \<Rightarrow> rat option list \<Rightarrow> v1_params \<Rightarrow> bt_config \<Rightarrow> nat \<Rightarrow> nat \<Rightarrow> rat option \<Rightarrow> bt_result" where
  "v1_run env bars scores p cfg start stop initial =
     bt_run (ev_np env) (slice start stop bars) (map Some (thresholds (slice start stop scores) (vp_buy p) (vp_sell p)))
       (with_initial initial (cfg\<lparr>bc_stop_pct := Some (vp_stop p)\<rparr>))"

definition v1_metrics :: "eval_env \<Rightarrow> candle list \<Rightarrow> rat option list \<Rightarrow> bt_config \<Rightarrow> nat \<Rightarrow> nat \<Rightarrow> v1_params \<Rightarrow> bt_metrics" where
  "v1_metrics env bars scores cfg start stop p = br_metrics (v1_run env bars scores p cfg start stop None)"

definition competitors :: "eval_env \<Rightarrow> candle list \<Rightarrow> nat \<Rightarrow> exn + (string \<times> bt_result) list" where
  "competitors env bars start = (let sub = drop start bars; go = bt_run (ev_np env) sub in
     bindR (buy_hold sub 0) (\<lambda>hold. bindR (run_dca (ev_np env) sub COSTS 168) (\<lambda>dca. Inr
       [(''buy_hold'', go (map Some hold) (all_in COSTS)), (''dca_weekly'', dca),
        (''sma_cross_50_200'', go (map Some (drop start (sma_cross bars start 50 200))) (all_in COSTS)),
        (''rsi_mean_reversion'', go (map Some (drop start (rsi_mr bars start 30 55))) (COSTS\<lparr>bc_sizing := ''all_in'', bc_stop_pct := Some 5\<rparr>)),
        (''donchian_breakout'', go (map Some (drop start (donchian bars start 20 10))) (all_in COSTS))])))"

definition random_benchmark :: "eval_env \<Rightarrow> candle list \<Rightarrow> nat \<Rightarrow> nat \<Rightarrow> int \<Rightarrow> v1_params \<Rightarrow> nat \<Rightarrow> rat list" where
  "random_benchmark env bars start entries hold_bars p seeds =
     (let sub = drop start bars; cfg = COSTS\<lparr>bc_stop_pct := Some (vp_stop p), bc_max_hold_bars := Some (max hold_bars 1)\<rparr> in
      map (\<lambda>s. mt_total_return (br_metrics (bt_run (ev_np env) sub
        (map Some (random_entries (ev_draw env) (length sub) 0 (max entries 1) (int s))) cfg))) [0..<seeds])"

section \<open>Grid search\<close>

text \<open>Tuples compare from the left; the first of several best candidates is kept.\<close>

definition key_less :: "rat \<times> rat \<Rightarrow> rat \<times> rat \<Rightarrow> bool" where
  "key_less a b \<longleftrightarrow> fst a < fst b \<or> fst a = fst b \<and> snd a < snd b"

definition better :: "(rat \<times> rat) option \<Rightarrow> rat \<times> rat \<Rightarrow> bool" where
  "better best key = (case best of None \<Rightarrow> True | Some k \<Rightarrow> key_less k key)"

fun pick_best :: "('p \<Rightarrow> (rat \<times> rat) option) \<Rightarrow> 'p list \<Rightarrow> ('p \<times> rat \<times> rat) option \<Rightarrow> ('p \<times> rat \<times> rat) option" where
  "pick_best key [] best = best"
| "pick_best key (p # ps) best = pick_best key ps (case key p of None \<Rightarrow> best
     | Some k \<Rightarrow> if better (map_option snd best) k then Some (p, k) else best)"

definition grid_points :: "v1_grid \<Rightarrow> v1_params list" where
  "grid_points g = concat (map (\<lambda>b. concat (map (\<lambda>s. map (\<lambda>x. \<lparr>vp_buy = b, vp_sell = s, vp_stop = x\<rparr>) (gr_stop g)) (gr_sell g))) (gr_buy g))"

definition select_key :: "int \<Rightarrow> bt_metrics \<Rightarrow> (rat \<times> rat) option" where
  "select_key min_trades m = (if mt_trades m < min_trades then None else Some (mt_sharpe m, mt_total_return m))"

definition select_params :: "eval_env \<Rightarrow> candle list \<Rightarrow> rat option list \<Rightarrow> nat \<Rightarrow> nat \<Rightarrow> v1_grid \<Rightarrow> bt_config \<Rightarrow> v1_params" where
  "select_params env bars scores start stop grid cfg =
     (case pick_best (\<lambda>p. select_key 3 (v1_metrics env bars scores cfg start stop p)) (grid_points grid) None of
        None \<Rightarrow> V1_DEFAULT | Some (p, k) \<Rightarrow> p)"

section \<open>Walk-forward\<close>

record fold_row =
  fo_month :: string
  fo_params :: v1_params
  fo_return :: rat
  fo_drawdown :: rat
  fo_trades :: int
  fo_default_return :: rat

record wf_state =
  wf_folds :: "fold_row list"
  wf_equity :: rat
  wf_trades :: int

text \<open>One test month \<open>k\<close>: three months of training, one of test; a month with too few candles is skipped.\<close>

definition wf_month :: "eval_env \<Rightarrow> candle list \<Rightarrow> rat option list \<Rightarrow> nat \<Rightarrow> v1_grid \<Rightarrow> bt_config \<Rightarrow> (string \<times> nat \<times> nat) list \<Rightarrow> nat \<Rightarrow> wf_state \<Rightarrow> wf_state" where
  "wf_month env bars scores warm grid cfg months k s =
     (let tr_start = max (fst (snd (months ! (k - 3)))) warm; (te_name, te_start, te_end) = months ! k; tr_end = snd (snd (months ! (k - 1)));
          test_start = max te_start warm
      in if tr_end < tr_start + 20 \<or> te_end < test_start + 2 then s
         else let p = select_params env bars scores tr_start tr_end grid cfg;
                  r = br_metrics (v1_run env bars scores p cfg test_start te_end (Some (wf_equity s)));
                  d = br_metrics (v1_run env bars scores V1_DEFAULT cfg test_start te_end (Some 1000))
           in \<lparr>wf_folds = wf_folds s @ [\<lparr>fo_month = te_name, fo_params = p, fo_return = mt_total_return r, fo_drawdown = mt_max_drawdown r,
                 fo_trades = mt_trades r, fo_default_return = mt_total_return d\<rparr>],
               wf_equity = mt_final_equity r, wf_trades = wf_trades s + mt_trades r\<rparr>)"

definition wf_loop :: "eval_env \<Rightarrow> candle list \<Rightarrow> rat option list \<Rightarrow> nat \<Rightarrow> v1_grid \<Rightarrow> bt_config \<Rightarrow> wf_state" where
  "wf_loop env bars scores warm grid cfg = (let months = month_bounds bars in
     fold (wf_month env bars scores warm grid cfg months) [3..<length months] \<lparr>wf_folds = [], wf_equity = 1000, wf_trades = 0\<rparr>)"

record wf_summary =
  ws_oos_start :: time
  ws_total_return :: rat
  ws_trades :: int
  ws_monthly_sharpe :: rat
  ws_worst_month :: rat

definition fold_sharpe :: "eval_env \<Rightarrow> rat list \<Rightarrow> rat" where
  "fold_sharpe env rets = (if 1 < length rets \<and> 0 < ev_std0 env rets
     then fmul (fdiv (np_mean (ev_np env) rets) (np_std (ev_np env) rets)) (np_sqrt (ev_np env) 12) else 0)"

definition walk_forward :: "eval_env \<Rightarrow> candle list \<Rightarrow> rat option list \<Rightarrow> nat \<Rightarrow> v1_grid \<Rightarrow> bt_config \<Rightarrow> exn + fold_row list \<times> wf_summary" where
  "walk_forward env bars scores warm grid cfg =
     (if bars = [] then Inl (Other ''IndexError'')
      else let months = month_bounds bars; s = wf_loop env bars scores warm grid cfg; rets = map fo_return (wf_folds s) in
        Inr (wf_folds s, \<lparr>ws_oos_start = (if 3 < length months then cd_time (bars ! fst (snd (months ! 3))) else cd_time (last bars)),
          ws_total_return = fsub (fdiv (wf_equity s) 1000) 1, ws_trades = wf_trades s, ws_monthly_sharpe = fold_sharpe env rets,
          ws_worst_month = (if rets = [] then 0 else Min (set rets))\<rparr>))"

section \<open>Robustness\<close>

definition index_of :: "'a \<Rightarrow> 'a list \<Rightarrow> nat option" where
  "index_of x xs = find (\<lambda>i. xs ! i = x) [0..<length xs]"

definition grid_steps :: "rat list \<Rightarrow> rat \<Rightarrow> exn + rat list" where
  "grid_steps vals x = (case index_of x vals of None \<Rightarrow> Inl (ValueError ''is not in list'')
     | Some i \<Rightarrow> Inr (map (\<lambda>j. vals ! nat j) (filter (\<lambda>j. 0 \<le> j \<and> j < int (length vals)) [int i - 1, int i, int i + 1])))"

definition neighbour_stability :: "eval_env \<Rightarrow> candle list \<Rightarrow> rat option list \<Rightarrow> v1_params \<Rightarrow> nat \<Rightarrow> exn + rat" where
  "neighbour_stability env bars scores p start =
     bindR (grid_steps (gr_buy GRID) (vp_buy p)) (\<lambda>bs. bindR (grid_steps (gr_sell GRID) (vp_sell p)) (\<lambda>ss. bindR (grid_steps (gr_stop GRID) (vp_stop p)) (\<lambda>xs.
       let neigh = filter (\<lambda>q. q \<noteq> p) (grid_points \<lparr>gr_buy = bs, gr_sell = ss, gr_stop = xs\<rparr>);
           ok = filter (\<lambda>q. 0 < mt_total_return (v1_metrics env bars scores COSTS start (length bars) q)) neigh
       in Inr (if neigh = [] then 0 else fdiv (of_nat (length ok)) (of_nat (length neigh))))))"

text \<open>Drawdown of the compounded returns in one order, and its fifth percentile over \<open>n\<close> random orders.\<close>

fun compound :: "rat \<Rightarrow> rat list \<Rightarrow> rat list" where
  "compound x [] = []"
| "compound x (r # rs) = fmul x (fadd 1 r) # compound (fmul x (fadd 1 r)) rs"

definition worst_drawdown :: "rat list \<Rightarrow> rat" where
  "worst_drawdown rets = Min (set (drawdowns (1 # compound 1 rets)))"

definition monte_carlo_dd :: "eval_env \<Rightarrow> rat list \<Rightarrow> nat \<Rightarrow> int \<Rightarrow> rat" where
  "monte_carlo_dd env rets n seed = (if length rets < 2 then 0
     else ev_percentile env (map (\<lambda>i. worst_drawdown (ev_permute env seed i rets)) [0..<n]) 5)"

section \<open>Evaluation on the development months\<close>

definition percent_below :: "rat list \<Rightarrow> rat \<Rightarrow> rat" where
  "percent_below xs x = fmul (fdiv (of_nat (length (filter (\<lambda>r. r < x) xs))) (of_nat (length xs))) 100"

definition median_bars :: "eval_env \<Rightarrow> trade list \<Rightarrow> int" where
  "median_bars env trades = (if trades = [] then 24 else \<lfloor>ev_median env (map (\<lambda>t. of_int (tr_bars t)) trades)\<rfloor>)"

text \<open>\<^verbatim>\<open>max(d, key=...)\<close> keeps the first of several best entries.\<close>

fun arg_max_first :: "('a \<Rightarrow> rat) \<Rightarrow> 'a \<Rightarrow> 'a list \<Rightarrow> 'a" where
  "arg_max_first f best [] = best"
| "arg_max_first f best (x # xs) = arg_max_first f (if f best < f x then x else best) xs"

record competitor_oos =
  co_name :: string
  co_sharpe :: rat
  co_return :: rat

definition competitor_score :: "eval_env \<Rightarrow> time list \<Rightarrow> time \<Rightarrow> string \<times> bt_result \<Rightarrow> exn + competitor_oos" where
  "competitor_score env ts from c =
     (let rows = zip ts (br_equity (snd c)); inside = filter (\<lambda>(t, e). from \<le> t) rows; outside = filter (\<lambda>(t, e). t < from) rows in
      bindR (monthly_sharpe_since (ev_np env) rows (Some from)) (\<lambda>sharpe.
        if inside = [] \<or> outside = [] then Inl index_error
        else Inr \<lparr>co_name = fst c, co_sharpe = sharpe, co_return = fsub (fdiv (snd (last inside)) (snd (last outside))) 1\<rparr>))"

definition MIN_OOS_TRADES :: int where "MIN_OOS_TRADES = 20"

definition v1_gates :: "wf_summary \<Rightarrow> rat \<Rightarrow> rat \<Rightarrow> rat \<Rightarrow> rat \<Rightarrow> (string \<times> bool) list" where
  "v1_gates ws best_sharpe percentile stressed_return stability =
     [(''min_oos_trades'', MIN_OOS_TRADES \<le> ws_trades ws), (''oos_positive_after_costs'', 0 < ws_total_return ws),
      (''oos_sharpe_beats_best_competitor'', best_sharpe < ws_monthly_sharpe ws), (''beats_random_percentile'', 95 \<le> percentile),
      (''positive_under_2x_costs'', 0 < stressed_return), (''neighbour_stability'', flt_round (6 / 10) \<le> stability)]"

definition GO :: string where "GO = ''GO: run the one-shot holdout''"

definition gate_verdict :: "(string \<times> bool) list \<Rightarrow> string" where
  "gate_verdict gates = (if list_all snd gates then GO else ''NO-GO'')"

record eval_result =
  er_v1 :: bt_metrics
  er_v1_percentile :: rat
  er_folds :: "fold_row list"
  er_walk :: wf_summary
  er_chosen :: v1_params
  er_chosen_dev :: bt_metrics
  er_percentile :: rat
  er_stressed :: bt_metrics
  er_stability :: rat
  er_monte_carlo :: rat
  er_others :: "(string \<times> (bt_metrics \<times> bt_metrics) option) list"
  er_competitors :: "competitor_oos list"
  er_best :: competitor_oos
  er_full_allocation :: bt_metrics
  er_gates :: "(string \<times> bool) list"
  er_verdict :: string

definition history_scores :: "eval_env \<Rightarrow> candle list \<Rightarrow> rat option list" where
  "history_scores env bars = v1_scores (ev_std env) (ev_live env) (nat (warmup_bars (ev_live env))) ''BTC/USDT'' bars"

definition warm_bars :: "eval_env \<Rightarrow> nat" where
  "warm_bars env = nat (warmup_bars (ev_live env) - 1)"

definition best_competitor :: "competitor_oos list \<Rightarrow> competitor_oos" where
  "best_competitor cs = arg_max_first co_sharpe (hd cs) (tl cs)"

text \<open>The parts of the evaluation that cannot raise: the results, given the folds, the neighbour stability and the scores of the competitors.\<close>

definition luck_percentile :: "eval_env \<Rightarrow> candle list \<Rightarrow> nat \<Rightarrow> nat \<Rightarrow> v1_params \<Rightarrow> bt_result \<Rightarrow> rat" where
  "luck_percentile env dev warm seeds p r = percent_below
     (random_benchmark env dev warm (nat (mt_trades (br_metrics r))) (median_bars env (br_trades r)) p seeds) (mt_total_return (br_metrics r))"

text \<open>The chosen parameters on another symbol, with buy and hold; \<open>None\<close> when there is no data file for it.\<close>

definition other_symbol :: "eval_env \<Rightarrow> nat \<Rightarrow> v1_params \<Rightarrow> string \<times> candle list option \<Rightarrow> exn + string \<times> (bt_metrics \<times> bt_metrics) option" where
  "other_symbol env warm chosen f = (case snd f of None \<Rightarrow> Inr (fst f, None)
     | Some bars \<Rightarrow> let o_dev = fst (split_holdout bars HOLDOUT_MONTHS) in bindR (competitors env o_dev warm) (\<lambda>cs.
         Inr (fst f, Some (v1_metrics env o_dev (history_scores env o_dev) COSTS warm (length o_dev) chosen, br_metrics (the (map_of cs ''buy_hold''))))))"

definition evaluation_results :: "eval_env \<Rightarrow> candle list \<Rightarrow> rat option list \<Rightarrow> (string \<times> (bt_metrics \<times> bt_metrics) option) list \<Rightarrow> nat \<Rightarrow> v1_params
    \<Rightarrow> fold_row list \<times> wf_summary \<Rightarrow> rat \<Rightarrow> competitor_oos list \<Rightarrow> eval_result" where
  "evaluation_results env dev scores others seeds chosen walk stability cs =
     (let warm = warm_bars env; n = length dev; v1 = v1_run env dev scores V1_DEFAULT COSTS warm n None; tuned = v1_run env dev scores chosen COSTS warm n None;
          stressed = v1_metrics env dev scores STRESS warm n chosen; percentile = luck_percentile env dev warm seeds chosen tuned;
          gates = v1_gates (snd walk) (co_sharpe (best_competitor cs)) percentile (mt_total_return stressed) stability
      in \<lparr>er_v1 = br_metrics v1, er_v1_percentile = luck_percentile env dev warm seeds V1_DEFAULT v1, er_folds = fst walk, er_walk = snd walk,
          er_chosen = chosen, er_chosen_dev = br_metrics tuned, er_percentile = percentile, er_stressed = stressed, er_stability = stability,
          er_monte_carlo = (if br_trades tuned = [] then 0 else monte_carlo_dd env (map tr_return (br_trades tuned)) 5000 0),
          er_others = others, er_competitors = cs, er_best = best_competitor cs,
          er_full_allocation = v1_metrics env dev scores (COSTS\<lparr>bc_sizing := ''all_in''\<rparr>) warm n chosen,
          er_gates = gates, er_verdict = gate_verdict gates\<rparr>)"

definition evaluate_history :: "eval_env \<Rightarrow> candle list \<Rightarrow> (string \<times> candle list option) list \<Rightarrow> nat \<Rightarrow> exn + eval_result" where
  "evaluate_history env df_all others seeds =
     (let dev = fst (split_holdout df_all HOLDOUT_MONTHS); warm = warm_bars env; scores = take (length dev) (history_scores env df_all);
          chosen = select_params env dev scores warm (length dev) GRID COSTS
      in bindR (competitors env dev warm) (\<lambda>comp. bindR (walk_forward env dev scores warm GRID COSTS) (\<lambda>walk.
         bindR (neighbour_stability env dev scores chosen warm) (\<lambda>stability.
         bindR (mapR (other_symbol env warm chosen) others) (\<lambda>other.
         bindR (mapR (competitor_score env (map cd_time (drop warm dev)) (ws_oos_start (snd walk))) comp) (\<lambda>cs.
           Inr (evaluation_results env dev scores other seeds chosen walk stability cs)))))))"

section \<open>The one-shot holdout\<close>

record holdout_result =
  hr_used_at :: time
  hr_params :: v1_params
  hr_forced :: bool
  hr_holdout :: bt_metrics
  hr_buy_hold :: bt_metrics
  hr_passed :: bool
  hr_verdict :: string

text \<open>
  The output directory: the development results, the lock, and the history of the holdout runs. A run also appends
  its section to the report, which the next \<^verbatim>\<open>evaluate\<close> rewrites; the history keeps every run that was made.
\<close>

record out_dir =
  od_results :: "eval_result option"
  od_lock :: "holdout_result option"
  od_appended :: "holdout_result list"

definition system_exit :: "string \<Rightarrow> exn" where
  "system_exit m = Other m"

definition evaluate_v1 :: "eval_env \<Rightarrow> candle list \<Rightarrow> (string \<times> candle list option) list \<Rightarrow> nat \<Rightarrow> (out_dir, eval_result) eff" where
  "evaluate_v1 env df_all others seeds = bindE (liftE (evaluate_history env df_all others seeds)) (\<lambda>r. thenE (updE (\<lambda>d. d\<lparr>od_results := Some r\<rparr>)) (ret r))"

definition holdout_run :: "eval_env \<Rightarrow> candle list \<Rightarrow> eval_result \<Rightarrow> time \<Rightarrow> bool \<Rightarrow> exn + holdout_result" where
  "holdout_run env df_all dev_res t force =
     (let (dev, hold, months) = split_holdout df_all HOLDOUT_MONTHS; scores = drop (length dev) (history_scores env df_all); p = er_chosen dev_res;
          r = br_metrics (v1_run env hold scores p COSTS 0 (length hold) None)
      in bindR (buy_hold hold 0) (\<lambda>sig.
         let bh = br_metrics (bt_run (ev_np env) hold (map Some sig) (all_in COSTS));
             passed = 0 < mt_total_return r \<and> fmul (3 / 2) (mt_max_drawdown (er_chosen_dev dev_res)) \<le> mt_max_drawdown r
         in Inr \<lparr>hr_used_at = t, hr_params = p, hr_forced = force, hr_holdout = r, hr_buy_hold = bh, hr_passed = passed,
              hr_verdict = (if passed \<and> startswith (er_verdict dev_res) ''GO'' then ''GO: forward-test in PAPER/TESTNET'' else ''NO-GO'')\<rparr>))"

definition holdout :: "eval_env \<Rightarrow> candle list \<Rightarrow> time \<Rightarrow> bool \<Rightarrow> (out_dir, holdout_result) eff" where
  "holdout env df_all t force = bindE (getE od_results) (\<lambda>results. case results of
     None \<Rightarrow> raise (system_exit ''run `python -m research.evaluate` first'')
   | Some dev_res \<Rightarrow> bindE (getE od_lock) (\<lambda>lock.
       if lock \<noteq> None \<and> \<not> force then raise (system_exit ''holdout already used'')
       else bindE (liftE (holdout_run env df_all dev_res t force)) (\<lambda>res.
         thenE (updE (\<lambda>d. d\<lparr>od_lock := Some res, od_appended := od_appended d @ [res]\<rparr>)) (ret res))))"

section \<open>The months partition the history\<close>

text \<open>Ranges that follow each other without a gap from \<open>a\<close> to \<open>n\<close>, none of them empty.\<close>

fun contiguous :: "nat \<Rightarrow> (string \<times> nat \<times> nat) list \<Rightarrow> nat \<Rightarrow> bool" where
  "contiguous a [] n \<longleftrightarrow> a = n"
| "contiguous a ((m, s, e) # bs) n \<longleftrightarrow> s = a \<and> a < e \<and> contiguous e bs n"

definition spread :: "(string \<times> nat \<times> nat) list \<Rightarrow> string list" where
  "spread bs = concat (map (\<lambda>(m, s, e). replicate (e - s) m) bs)"

lemma replicate_run: "start \<le> i \<Longrightarrow> replicate (Suc i - start) m = replicate (i - start) m @ [m]"
  by (simp add: Suc_diff_le replicate_append_same)

lemma bounds_from_tile:
  "ms \<noteq> [] \<Longrightarrow> start \<le> i \<Longrightarrow> contiguous start (bounds_from ms start i) (i + length ms)
     \<and> spread (bounds_from ms start i) = replicate (i - start) (hd ms) @ ms \<and> distinct_adj (map fst (bounds_from ms start i))
     \<and> fst (hd (bounds_from ms start i)) = hd ms \<and> bounds_from ms start i \<noteq> []"
proof (induction ms start i rule: bounds_from.induct)
  case (2 m start i)
  then show ?case by (simp add: spread_def replicate_run)
next
  case (3 m n ms start i)
  show ?case
  proof (cases "m = n")
    case True
    then show ?thesis using 3(2) 3(4) by (simp add: replicate_run)
  next
    case False
    define bs where "bs = bounds_from (n # ms) (Suc i) (Suc i)"
    have IH: "contiguous (Suc i) bs (Suc i + length (n # ms))" "spread bs = n # ms" "distinct_adj (map fst bs)" "fst (hd bs) = n" "bs \<noteq> []"
      using 3(1) False by (auto simp: bs_def)
    have "bounds_from (m # n # ms) start i = (m, start, Suc i) # bs" using False by (simp add: bs_def)
    moreover have "spread ((m, start, Suc i) # bs) = replicate (Suc i - start) m @ spread bs" by (simp add: spread_def)
    ultimately show ?thesis using IH 3(4) False by (simp add: replicate_run distinct_adj_Cons hd_map)
  qed
qed simp

text \<open>
  The months partition the history. The ranges of \<^verbatim>\<open>month_bounds\<close> follow each other without gaps and overlaps from the first candle to the last, every candle in a range
  belongs to the month the range is named after, and adjacent ranges have different months.
\<close>

theorem month_bounds_partition:
  "contiguous 0 (month_bounds bars) (length bars) \<and> spread (month_bounds bars) = map month_of bars \<and> distinct_adj (map fst (month_bounds bars))"
  using bounds_from_tile [of "map month_of bars" 0 0] by (cases "bars = []") (auto simp: month_bounds_def spread_def)

section \<open>The grid search returns a best candidate\<close>

lemma key_less_mix: "key_less a b \<Longrightarrow> \<not> key_less a c \<Longrightarrow> key_less c b"
  by (auto simp: key_less_def)

lemma key_less_trans: "key_less a b \<Longrightarrow> key_less b c \<Longrightarrow> key_less a c"
  by (auto simp: key_less_def)

lemma pick_best_None: "pick_best key ps best = None \<longleftrightarrow> best = None \<and> (\<forall>p\<in>set ps. key p = None)"
  by (induction ps arbitrary: best) (auto simp: better_def split: option.splits)

lemma pick_best_append: "pick_best key (xs @ ys) best = pick_best key ys (pick_best key xs best)"
  by (induction xs arbitrary: best) simp_all

text \<open>The candidate that is kept beats all before it and is not beaten by any after it.\<close>

definition first_best :: "('p \<Rightarrow> (rat \<times> rat) option) \<Rightarrow> 'p list \<Rightarrow> 'p \<Rightarrow> rat \<times> rat \<Rightarrow> bool" where
  "first_best key ps p k \<longleftrightarrow> (\<exists>as bs. ps = as @ p # bs \<and> key p = Some k
     \<and> (\<forall>q\<in>set as. \<forall>k'. key q = Some k' \<longrightarrow> key_less k' k) \<and> (\<forall>q\<in>set bs. \<forall>k'. key q = Some k' \<longrightarrow> \<not> key_less k k'))"

lemma pick_best_first: "pick_best key ps None = Some (p, k) \<Longrightarrow> first_best key ps p k"
proof (induction ps arbitrary: p k rule: rev_induct)
  case (snoc x ps)
  show ?case
  proof (cases "pick_best key ps None")
    case None
    then have "\<forall>q\<in>set ps. key q = None" by (simp add: pick_best_None)
    moreover have "p = x" "key x = Some k" using snoc.prems None by (auto simp: pick_best_append better_def split: option.splits)
    ultimately show ?thesis unfolding first_best_def by (intro exI [of _ ps] exI [of _ "[]"]) simp
  next
    case (Some b)
    obtain p0 k0 where b: "b = (p0, k0)" by (cases b)
    obtain as bs where ps: "ps = as @ p0 # bs" "key p0 = Some k0" and
      before: "\<And>q k'. q \<in> set as \<Longrightarrow> key q = Some k' \<Longrightarrow> key_less k' k0" and
      after: "\<And>q k'. q \<in> set bs \<Longrightarrow> key q = Some k' \<Longrightarrow> \<not> key_less k0 k'"
      using snoc.IH [of p0 k0] Some b by (auto simp: first_best_def)
    show ?thesis
    proof (cases "\<exists>kx. key x = Some kx \<and> key_less k0 kx")
      case True
      then have x: "p = x" "key x = Some k" "key_less k0 k" using snoc.prems Some b by (auto simp: pick_best_append better_def)
      have "key_less k' k" if "q \<in> set ps" "key q = Some k'" for q k'
      proof -
        consider "q \<in> set as" | "q = p0" | "q \<in> set bs" using \<open>q \<in> set ps\<close> ps(1) by auto
        then show ?thesis
        proof cases
          case 1
          show ?thesis by (rule key_less_trans [OF before [OF 1 that(2)] x(3)])
        next
          case 2
          then show ?thesis using ps(2) that(2) x(3) by simp
        next
          case 3
          show ?thesis by (rule key_less_mix [OF x(3) after [OF 3 that(2)]])
        qed
      qed
      then show ?thesis unfolding first_best_def using x by (intro exI [of _ ps] exI [of _ "[]"]) simp
    next
      case False
      have nk: "\<not> key_less k0 kx" if "key x = Some kx" for kx using False that by blast
      have "p = p0 \<and> k = k0" using snoc.prems Some b nk by (cases "key x") (simp_all add: pick_best_append better_def)
      then show ?thesis unfolding first_best_def using ps before after nk
        by (intro exI [of _ as] exI [of _ "bs @ [x]"]) (auto simp del: split_paired_All)
    qed
  qed
qed simp

text \<open>
  C34: the parameter search returns the first best candidate of the grid. If no point of the grid traded at least three times on the training range the result is the V1
  default; otherwise it is a grid point with at least three trades whose pair of Sharpe ratio and return is greater than that of every such point before it in the order of the grid
  and is not exceeded by that of any after it.
\<close>

theorem select_is_best:
  "let key = (\<lambda>p. select_key 3 (v1_metrics env bars scores cfg start stop p)); chosen = select_params env bars scores start stop grid cfg in
   (if \<forall>p\<in>set (grid_points grid). key p = None then chosen = V1_DEFAULT
    else \<exists>as bs k. grid_points grid = as @ chosen # bs \<and> key chosen = Some k
      \<and> (\<forall>q\<in>set as. \<forall>k'. key q = Some k' \<longrightarrow> key_less k' k) \<and> (\<forall>q\<in>set bs. \<forall>k'. key q = Some k' \<longrightarrow> \<not> key_less k k'))"
proof -
  let ?key = "\<lambda>p. select_key 3 (v1_metrics env bars scores cfg start stop p)"
  show ?thesis
  proof (cases "pick_best ?key (grid_points grid) None")
    case None
    then show ?thesis using pick_best_None [of ?key "grid_points grid" None] by (simp add: select_params_def Let_def)
  next
    case (Some pk)
    obtain p k where pk: "pk = (p, k)" by (cases pk)
    have n: "\<not> (\<forall>p\<in>set (grid_points grid). ?key p = None)"
      using Some pick_best_None [of ?key "grid_points grid" None] by auto
    have c: "select_params env bars scores start stop grid cfg = p" using Some by (simp add: select_params_def pk)
    show ?thesis unfolding Let_def c if_not_P [OF n]
      using pick_best_first [of ?key "grid_points grid" p k] Some pk unfolding first_best_def by blast
  qed
qed

section \<open>Later months never change earlier folds\<close>

lemma bounds_from_append:
  "xs \<noteq> [] \<Longrightarrow> ys \<noteq> [] \<Longrightarrow> last xs \<noteq> hd ys \<Longrightarrow> bounds_from (xs @ ys) start i = bounds_from xs start i @ bounds_from ys (i + length xs) (i + length xs)"
proof (induction xs start i rule: bounds_from.induct)
  case (2 m start i)
  then show ?case by (cases ys) auto
qed auto

lemma month_bounds_append:
  assumes "xs \<noteq> []" "ys \<noteq> []" "month_of (last xs) \<noteq> month_of (hd ys)"
  shows "\<exists>rest. month_bounds (xs @ ys) = month_bounds xs @ rest"
  using bounds_from_append [of "map month_of xs" "map month_of ys" 0 0] assms by (simp add: month_bounds_def last_map hd_map)

lemma contiguous_bounds: "contiguous a bs n \<Longrightarrow> b \<in> set bs \<Longrightarrow> a \<le> fst (snd b) \<and> fst (snd b) < snd (snd b) \<and> snd (snd b) \<le> n"
proof (induction a bs n rule: contiguous.induct)
  case (2 a m s e bs n)
  have "a \<le> n" if "contiguous a bs n" for a bs n using that by (induction a bs n rule: contiguous.induct) auto
  then show ?case using 2 by fastforce
qed simp

lemma month_bounds_range: "k < length (month_bounds bars) \<Longrightarrow> snd (snd (month_bounds bars ! k)) \<le> length bars"
  using contiguous_bounds [of 0 "month_bounds bars" "length bars"] month_bounds_partition by (meson nth_mem)

lemma slice_append: "b \<le> length xs \<Longrightarrow> slice a b (xs @ ys) = slice a b xs"
  by (simp add: slice_def)

lemma slice_take: "b \<le> n \<Longrightarrow> slice a b (take n xs) = slice a b xs"
  by (simp add: slice_def drop_take min_def)

lemma v1_run_append: "stop \<le> length xs \<Longrightarrow>
    v1_run env (xs @ ys) scores p cfg start stop initial = v1_run env xs (take (length xs) scores) p cfg start stop initial"
  by (simp add: v1_run_def slice_append slice_take)

lemma select_params_append: "stop \<le> length xs \<Longrightarrow>
    select_params env (xs @ ys) scores start stop grid cfg = select_params env xs (take (length xs) scores) start stop grid cfg"
  by (simp add: select_params_def v1_metrics_def v1_run_append)

lemma wf_month_append:
  assumes "k < length (month_bounds xs)" "month_bounds (xs @ ys) = month_bounds xs @ rest"
  shows "wf_month env xs (take (length xs) scores) warm grid cfg (month_bounds xs) k s = wf_month env (xs @ ys) scores warm grid cfg (month_bounds (xs @ ys)) k s"
proof -
  have b: "snd (snd (month_bounds xs ! k)) \<le> length xs" "snd (snd (month_bounds xs ! (k - 1))) \<le> length xs"
    using month_bounds_range [of k xs] month_bounds_range [of "k - 1" xs] assms(1) by auto
  show ?thesis
    using assms b by (auto simp: wf_month_def nth_append select_params_append v1_run_append Let_def split: prod.splits)
qed

lemma wf_month_folds: "\<exists>fs. wf_folds (wf_month env bars scores warm grid cfg months k s) = wf_folds s @ fs"
  by (simp add: wf_month_def Let_def split: prod.split)

lemma wf_fold_folds: "\<exists>fs. wf_folds (fold (wf_month env bars scores warm grid cfg months) ks s) = wf_folds s @ fs"
proof (induction ks arbitrary: s)
  case (Cons k ks)
  then show ?case using wf_month_folds by (metis (no_types, lifting) append.assoc fold_simps(2))
qed simp

text \<open>
  The walk-forward never looks into later months. When a history is continued by further months, the folds of the months that were already there, their chosen parameters, returns and
  trades, stay as they were, and the new ones are appended: neither the choice of the parameters nor the test of a month uses a later candle.
\<close>

theorem walk_forward_causal:
  assumes "xs \<noteq> []" "ys \<noteq> []" "month_of (last xs) \<noteq> month_of (hd ys)"
  shows "\<exists>later. wf_folds (wf_loop env (xs @ ys) scores warm grid cfg) = wf_folds (wf_loop env xs (take (length xs) scores) warm grid cfg) @ later"
proof -
  obtain rest where m: "month_bounds (xs @ ys) = month_bounds xs @ rest" using month_bounds_append [OF assms] by blast
  let ?s0 = "\<lparr>wf_folds = [], wf_equity = 1000, wf_trades = 0\<rparr>" and ?step = "wf_month env (xs @ ys) scores warm grid cfg (month_bounds (xs @ ys))"
  have "wf_loop env xs (take (length xs) scores) warm grid cfg = fold ?step [3..<length (month_bounds xs)] ?s0"
    unfolding wf_loop_def Let_def by (rule fold_cong) (auto simp: wf_month_append [OF _ m])
  moreover have "\<exists>ks. [3..<length (month_bounds (xs @ ys))] = [3..<length (month_bounds xs)] @ ks"
  proof (cases "3 \<le> length (month_bounds xs)")
    case True
    then have "[3..<length (month_bounds xs) + length rest] = [3..<length (month_bounds xs)] @ [length (month_bounds xs)..<length (month_bounds xs) + length rest]"
      by (rule upt_add_eq_append)
    then show ?thesis using m by auto
  qed simp
  then obtain ks where "[3..<length (month_bounds (xs @ ys))] = [3..<length (month_bounds xs)] @ ks" ..
  then have "wf_loop env (xs @ ys) scores warm grid cfg = fold ?step ks (fold ?step [3..<length (month_bounds xs)] ?s0)"
    by (simp add: wf_loop_def Let_def)
  ultimately show ?thesis using wf_fold_folds by metis
qed

section \<open>The evaluation does not read the holdout\<close>

lemma filter_takeWhile:
  "sorted (map f xs) \<Longrightarrow> (\<And>x y. x \<in> set xs \<Longrightarrow> y \<in> set xs \<Longrightarrow> f x \<in> H \<Longrightarrow> f x \<le> f y \<Longrightarrow> f y \<in> H) \<Longrightarrow>
    filter (\<lambda>x. f x \<notin> H) xs = takeWhile (\<lambda>x. f x \<notin> H) xs"
proof (induction xs)
  case (Cons x xs)
  show ?case
  proof (cases "f x \<in> H")
    case True
    then have "\<forall>y\<in>set xs. f y \<in> H" using Cons.prems by auto
    then show ?thesis using True by (simp add: filter_empty_conv)
  next
    case False
    have "filter (\<lambda>x. f x \<notin> H) xs = takeWhile (\<lambda>x. f x \<notin> H) xs"
      by (rule Cons.IH, use Cons.prems(1) in simp, rule Cons.prems(2)) simp_all
    then show ?thesis using False by simp
  qed
qed simp

lemma last_n_upward: "sorted ms \<Longrightarrow> distinct ms \<Longrightarrow> x \<in> set (last_n n ms) \<Longrightarrow> y \<in> set ms \<Longrightarrow> x \<le> y \<Longrightarrow> y \<in> set (last_n n ms)"
proof (cases "n = 0")
  case False
  assume a: "sorted ms" "distinct ms" "x \<in> set (last_n n ms)" "y \<in> set ms" "x \<le> y"
  let ?k = "length ms - n"
  have d: "x \<in> set (drop ?k ms)" using a(3) False by (simp add: last_n_def)
  have "y \<in> set (drop ?k ms)"
  proof (rule ccontr)
    assume n: "y \<notin> set (drop ?k ms)"
    then have "y \<in> set (take ?k ms)" using a(4) by (metis Un_iff append_take_drop_id set_append)
    moreover have "sorted (take ?k ms @ drop ?k ms)" using a(1) by simp
    ultimately have "y \<le> x" using d by (auto simp: sorted_append simp del: append_take_drop_id)
    then show False using a(5) n d by simp
  qed
  then show ?thesis using False by (simp add: last_n_def)
qed (simp add: last_n_def)

lemma dev_is_prefix:
  assumes "sorted (map month_of bars)"
  shows "take (length (fst (split_holdout bars n))) bars = fst (split_holdout bars n)"
proof -
  let ?H = "set (last_n n (month_names bars))"
  have "filter (\<lambda>b. month_of b \<notin> ?H) bars = takeWhile (\<lambda>b. month_of b \<notin> ?H) bars"
    by (rule filter_takeWhile [OF assms], rule last_n_upward) (auto simp: month_names_def)
  then show ?thesis by (simp add: split_holdout_def Let_def) (metis takeWhile_eq_take)
qed

lemma history_scores_take: "take n (history_scores env bars) = history_scores env (take n bars)"
  unfolding history_scores_def by (simp add: causal_take [OF causal_v1_scores])

text \<open>
  C32: the evaluation is blind to the holdout. For histories in order of months with the same development candles the whole evaluation, parameters, folds, competitors, gates and
  verdict, is the same, whatever the candles of the holdout months are.
\<close>

theorem evaluation_blind:
  assumes "sorted (map month_of bars)" "sorted (map month_of bars')" "fst (split_holdout bars HOLDOUT_MONTHS) = fst (split_holdout bars' HOLDOUT_MONTHS)"
  shows "evaluate_history env bars others seeds = evaluate_history env bars' others seeds"
proof -
  let ?dev = "fst (split_holdout bars' HOLDOUT_MONTHS)"
  have "take (length ?dev) (history_scores env bars) = take (length ?dev) (history_scores env bars')"
    unfolding history_scores_take using dev_is_prefix [OF assms(1)] dev_is_prefix [OF assms(2)] assms(3) by metis
  then show ?thesis unfolding evaluate_history_def assms(3) Let_def by (simp only:)
qed

lemma arg_max_first_max: "f x \<le> f (arg_max_first f x xs)" "y \<in> set xs \<Longrightarrow> f y \<le> f (arg_max_first f x xs)"
proof (induction xs arbitrary: x)
  case (Cons z zs)
  { case 1 show ?case using Cons.IH(1) [of "if f x < f z then z else x"] by (auto split: if_splits)
  next
    case 2
    then show ?case using Cons.IH [of "if f x < f z then z else x"] by (auto split: if_splits) }
qed simp_all

text \<open>A verdict to go means that every gate was passed, with a walk-forward Sharpe ratio above every competitor's.\<close>

lemma evaluation_shape:
  assumes "evaluate_history env bars others seeds = Inr r"
  shows "\<exists>dev scores other chosen walk stability cs. r = evaluation_results env dev scores other seeds chosen walk stability cs"
  using assms unfolding evaluate_history_def Let_def by (elim bindR_InrE) (simp only: sum.inject, blast)

lemma gates_of_results:
  fixes env dev scores others seeds chosen walk stability cs
  defines "r \<equiv> evaluation_results env dev scores others seeds chosen walk stability cs"
  shows "er_gates r = v1_gates (er_walk r) (co_sharpe (best_competitor (er_competitors r))) (er_percentile r) (mt_total_return (er_stressed r)) (er_stability r)"
    and "er_verdict r = gate_verdict (er_gates r)"
  unfolding r_def evaluation_results_def Let_def eval_result.simps by (rule refl)+

lemma go_gates: "gate_verdict gates = GO \<longleftrightarrow> list_all snd gates"
  by (simp add: gate_verdict_def GO_def)

lemma go_needs_all_gates:
  assumes "evaluate_history env bars others seeds = Inr r" "er_verdict r = GO"
  shows "MIN_OOS_TRADES \<le> ws_trades (er_walk r)" "0 < ws_total_return (er_walk r)" "0 < mt_total_return (er_stressed r)"
    "\<And>c. c \<in> set (er_competitors r) \<Longrightarrow> co_sharpe c < ws_monthly_sharpe (er_walk r)"
proof -
  from evaluation_shape [OF assms(1)] obtain dev scores other chosen walk stability cs
    where r: "r = evaluation_results env dev scores other seeds chosen walk stability cs" by blast
  have g: "list_all snd (v1_gates (er_walk r) (co_sharpe (best_competitor (er_competitors r))) (er_percentile r) (mt_total_return (er_stressed r)) (er_stability r))"
    using assms(2) unfolding r gates_of_results(2) go_gates unfolding gates_of_results(1) .
  then show "MIN_OOS_TRADES \<le> ws_trades (er_walk r)" "0 < ws_total_return (er_walk r)" "0 < mt_total_return (er_stressed r)"
    by (simp_all add: v1_gates_def)
  fix c assume "c \<in> set (er_competitors r)"
  then have "co_sharpe c \<le> co_sharpe (best_competitor (er_competitors r))"
    using arg_max_first_max [where f = co_sharpe and x = "hd (er_competitors r)" and xs = "tl (er_competitors r)"] by (cases "er_competitors r") (auto simp: best_competitor_def)
  then show "co_sharpe c < ws_monthly_sharpe (er_walk r)" using g by (simp add: v1_gates_def)
qed

section \<open>The holdout runs once\<close>

definition empty_dir :: out_dir where
  "empty_dir = \<lparr>od_results = None, od_lock = None, od_appended = []\<rparr>"

text \<open>
  A one-shot run: a lock and a log of results, where a step either leaves both or adds one result and puts it in the lock, and adds a
  result that was not forced only while there is no lock.
\<close>

locale one_shot =
  fixes lock :: "'d \<Rightarrow> 'r option" and log :: "'d \<Rightarrow> 'r list" and forced :: "'r \<Rightarrow> bool" and first :: 'd and step :: "'d \<Rightarrow> 'd \<Rightarrow> bool"
  assumes first_empty: "lock first = None" "log first = []"
    and step_adds: "step d d' \<Longrightarrow> lock d' = lock d \<and> log d' = log d
      \<or> (\<exists>r. (lock d = None \<or> forced r) \<and> lock d' = Some r \<and> log d' = log d @ [r])"
begin

lemma lock_is_last: "step\<^sup>*\<^sup>* first d \<Longrightarrow> list_all forced (tl (log d)) \<and> lock d = (if log d = [] then None else Some (last (log d)))"
proof (induction rule: rtranclp_induct)
  case (step d d')
  then show ?case using step_adds [of d d'] by (cases "log d") auto
qed (simp add: first_empty)

lemma unforced_once: "step\<^sup>*\<^sup>* first d \<Longrightarrow> length (filter (\<lambda>r. \<not> forced r) (log d)) \<le> 1"
  using lock_is_last [of d] by (cases "log d") (auto simp: list_all_iff filter_empty_conv)

end

text \<open>The steps of the output directory: an evaluation or a holdout call, on any data.\<close>

inductive dir_step :: "eval_env \<Rightarrow> out_dir \<Rightarrow> out_dir \<Rightarrow> bool" for env where
  evaluated: "dir_step env d (snd (evaluate_v1 env bars others seeds d))"
| held: "dir_step env d (snd (holdout env bars t force d))"

lemma evaluate_dir: "od_lock (snd (evaluate_v1 env bars others seeds d)) = od_lock d" "od_appended (snd (evaluate_v1 env bars others seeds d)) = od_appended d"
  by (simp_all add: evaluate_v1_def bindE_def thenE_def liftE_def updE_def ret_def split: sum.split)

lemma holdout_run_fields: "holdout_run env bars dev_res t force = Inr r \<Longrightarrow> hr_forced r = force \<and> (startswith (hr_verdict r) ''GO'' \<longrightarrow> hr_passed r \<and> startswith (er_verdict dev_res) ''GO'')"
  by (auto simp: holdout_run_def bindR_Inr case_prod_beta Let_def startswith_def split: if_splits)

lemma holdout_dir:
  "(\<exists>r. fst (holdout env bars t force d) = Inr r \<and> hr_forced r = force \<and> (od_lock d = None \<or> force)
      \<and> snd (holdout env bars t force d) = d\<lparr>od_lock := Some r, od_appended := od_appended d @ [r]\<rparr>)
   \<or> (\<exists>e. holdout env bars t force d = (Inl e, d))"
  by (auto simp: holdout_def bindE_def thenE_def liftE_def updE_def getE_def ret_def raise_def holdout_run_fields split: sum.split option.split)

interpretation v1_holdout: one_shot od_lock od_appended hr_forced empty_dir "dir_step env" for env
proof
  show "od_lock empty_dir = None" "od_appended empty_dir = []" by (simp_all add: empty_dir_def)
  fix d d' assume "dir_step env d d'"
  then show "od_lock d' = od_lock d \<and> od_appended d' = od_appended d
      \<or> (\<exists>r. (od_lock d = None \<or> hr_forced r) \<and> od_lock d' = Some r \<and> od_appended d' = od_appended d @ [r])"
  proof cases
    case (held bars t force)
    then show ?thesis using holdout_dir [of env bars t force d] by auto
  qed (simp add: evaluate_dir)
qed

text \<open>
  C33: the holdout is used once. Whatever evaluations and holdout runs there are, in any order and on any data, at most one run of the holdout was not forced, the lock holds the
  last run, and an unforced call on a locked directory raises and changes nothing.
\<close>

theorem holdout_once:
  assumes "(dir_step env)\<^sup>*\<^sup>* empty_dir d"
  shows "length (filter (\<lambda>r. \<not> hr_forced r) (od_appended d)) \<le> 1
    \<and> od_lock d = (if od_appended d = [] then None else Some (last (od_appended d)))
    \<and> (od_appended d \<noteq> [] \<longrightarrow> (\<exists>e. holdout env bars t False d = (Inl e, d)))"
  using v1_holdout.unforced_once [OF assms] v1_holdout.lock_is_last [OF assms] holdout_dir [of env bars t False d] by auto

section \<open>Concrete histories\<close>

definition demo_eval :: eval_env where
  "demo_eval = \<lparr>ev_live = demo_config\<lparr>CANDLE_HISTORY_LIMIT := 2\<rparr>, ev_np = demo_np, ev_std = (\<lambda>_. 0), ev_std0 = (\<lambda>_. 0), ev_median = (\<lambda>_. 1),
     ev_percentile = (\<lambda>xs q. 0), ev_draw = (\<lambda>s ps n. take n ps), ev_permute = (\<lambda>s i xs. xs)\<rparr>"

definition month_bar :: "int \<Rightarrow> rat \<Rightarrow> candle" where
  "month_bar i px = \<lparr>cd_time = i * 31 * 86400000000, cd_open = px, cd_high = px, cd_low = px, cd_close = px, cd_volume = 1\<rparr>"

theorem select_is_best_witness:
  "select_params demo_eval demo_bars [None, None, None] 0 3 GRID COSTS \<in> insert V1_DEFAULT (set (grid_points GRID))"
  using select_is_best [of demo_eval demo_bars "[None, None, None]" COSTS 0 3 GRID] unfolding Let_def by (metis in_set_conv_decomp insertCI)

theorem walk_forward_causal_witness:
  "\<exists>later. wf_folds (wf_loop demo_eval ([month_bar 0 1] @ [month_bar 1 2]) [None, None] 0 GRID COSTS)
     = wf_folds (wf_loop demo_eval [month_bar 0 1] [None] 0 GRID COSTS) @ later"
proof -
  have "month_of (last [month_bar 0 1]) \<noteq> month_of (hd [month_bar 1 2])" by code_simp
  from walk_forward_causal [OF _ _ this, of demo_eval "[None, None]" 0 GRID COSTS] show ?thesis by simp
qed

lemma demo_months:
  "month_of (month_bar 0 px) = ''1970-01''" "month_of (month_bar 1 px) = ''1970-02''"
  "month_of (month_bar 2 px) = ''1970-03''" "month_of (month_bar 3 px) = ''1970-04''"
  unfolding month_of_def month_bar_def candle.simps by code_simp+

theorem evaluation_blind_witness:
  "evaluate_history demo_eval (map2 month_bar [0, 1, 2, 3] [5, 6, 7, 8]) [] 1 = evaluate_history demo_eval (map2 month_bar [0, 1, 2, 3] [5, 9, 1, 2]) [] 1"
proof (rule evaluation_blind)
  show "sorted (map month_of (map2 month_bar [0, 1, 2, 3] [5, 6, 7, 8]))" "sorted (map month_of (map2 month_bar [0, 1, 2, 3] [5, 9, 1, 2]))"
    by (simp_all add: demo_months)
  show "fst (split_holdout (map2 month_bar [0, 1, 2, 3] [5, 6, 7, 8]) HOLDOUT_MONTHS) = fst (split_holdout (map2 month_bar [0, 1, 2, 3] [5, 9, 1, 2]) HOLDOUT_MONTHS)"
    by (simp add: split_holdout_def month_names_def demo_months last_n_def HOLDOUT_MONTHS_def Let_def)
qed

theorem holdout_once_witness:
  "length (filter (\<lambda>r. \<not> hr_forced r) (od_appended (snd (holdout demo_eval demo_bars 0 False (snd (evaluate_v1 demo_eval demo_bars [] 1 empty_dir)))))) \<le> 1"
proof -
  have "dir_step demo_eval empty_dir (snd (evaluate_v1 demo_eval demo_bars [] 1 empty_dir))" by (rule evaluated)
  moreover have "dir_step demo_eval (snd (evaluate_v1 demo_eval demo_bars [] 1 empty_dir))
      (snd (holdout demo_eval demo_bars 0 False (snd (evaluate_v1 demo_eval demo_bars [] 1 empty_dir))))" by (rule held)
  ultimately have "(dir_step demo_eval)\<^sup>*\<^sup>* empty_dir (snd (holdout demo_eval demo_bars 0 False (snd (evaluate_v1 demo_eval demo_bars [] 1 empty_dir))))"
    by (meson rtranclp.rtrancl_into_rtrancl rtranclp.rtrancl_refl)
  then show ?thesis using holdout_once by blast
qed

end
