(* ===== verification/Learning.thy ===== *)
theory Learning
  imports Evaluation
begin

text \<open>
  The model layer of the research: \<^verbatim>\<open>research/ml.py\<close>. Labels, the purged choice of training rows, the choice of a threshold, the purged
  walk-forward with its three accounts per mode, the gates, and the one-shot holdout. The classifier, its score and the
  feature function are parameters: a fit is a function of the rows it is given, and a row is predicted on its own. It is proved that the walk-forward
  leaks nothing from later months, and that it ignores the costs and the stop it is given.
\<close>

section \<open>Labels and training rows\<close>

text \<open>A fit of the classifier on rows and labels, the probability it gives a row, the area under the ROC curve, and a seeded permutation.\<close>

record ('f, 'm) learner =
  ln_fit :: "'f option list \<Rightarrow> bool list \<Rightarrow> 'm"
  ln_proba :: "'m \<Rightarrow> 'f option \<Rightarrow> rat"
  ln_auc :: "bool list \<Rightarrow> rat list \<Rightarrow> rat"
  ln_shuffle :: "int \<Rightarrow> bool list \<Rightarrow> bool list"

definition HORIZON :: nat where "HORIZON = 24"

definition EDGE :: rat where
  "EDGE = fadd (fmul 2 (fadd (bc_fee_rate COSTS) (fdiv (bc_slippage_bps COSTS) 10000))) (flt_round (2 / 1000))"

definition THRESHOLDS :: "rat list" where
  "THRESHOLDS = [1/2, flt_round (55/100), flt_round (6/10), flt_round (65/100)]"

definition DEFAULT_THRESHOLD :: rat where "DEFAULT_THRESHOLD = flt_round (55/100)"

text \<open>The features of each candle from the window that ends with it.\<close>

definition feature_matrix :: "('k candle_scheme list \<Rightarrow> 'f) \<Rightarrow> nat \<Rightarrow> 'k candle_scheme list \<Rightarrow> 'f option list" where
  "feature_matrix features n bars = by_prefix (\<lambda>p. if n \<le> length p then Some (features (drop (length p - n) p)) else None) bars"

definition labels :: "'k candle_scheme list \<Rightarrow> nat \<Rightarrow> rat \<Rightarrow> bool option list" where
  "labels bars horizon edge = map (\<lambda>i. if i + horizon + 1 < length bars
     then Some (edge < fsub (fdiv (cd_open (bars ! (i + 1 + horizon))) (cd_open (bars ! (i + 1)))) 1) else None) [0..<length bars]"

definition rows :: "nat \<Rightarrow> nat \<Rightarrow> bool option list \<Rightarrow> nat option \<Rightarrow> nat \<Rightarrow> nat list" where
  "rows start stop y purge_before horizon =
     filter (\<lambda>i. case purge_before of None \<Rightarrow> True | Some t \<Rightarrow> i + 1 + horizon < t) (filter (\<lambda>i. y ! i \<noteq> None) [start..<stop])"

definition label_at :: "bool option list \<Rightarrow> nat \<Rightarrow> bool" where
  "label_at y i = (y ! i = Some True)"

text \<open>At least 200 rows with both labels.\<close>

definition trainable :: "bool option list \<Rightarrow> nat list \<Rightarrow> bool" where
  "trainable y idx \<longleftrightarrow> 200 \<le> length idx \<and> 2 \<le> length (remdups (map (label_at y) idx))"

definition fit_rows :: "('f, 'm) learner \<Rightarrow> 'f option list \<Rightarrow> bool option list \<Rightarrow> nat list \<Rightarrow> 'm" where
  "fit_rows lr X y idx = ln_fit lr (map (\<lambda>i. X ! i) idx) (map (label_at y) idx)"

definition predict_into :: "('f, 'm) learner \<Rightarrow> 'm \<Rightarrow> 'f option list \<Rightarrow> nat \<Rightarrow> nat \<Rightarrow> rat option list \<Rightarrow> rat option list" where
  "predict_into lr m X a b p = map (\<lambda>i. if a \<le> i \<and> i < b then Some (ln_proba lr m (X ! i)) else p ! i) [0..<length p]"

section \<open>Backtests of a model\<close>

definition model_bt :: "eval_env \<Rightarrow> bt_config \<Rightarrow> rat option \<Rightarrow> rat option \<Rightarrow> candle list \<Rightarrow> rat list \<Rightarrow> nat \<Rightarrow> nat \<Rightarrow> bt_metrics" where
  "model_bt env cfg initial stop bars sig a b = br_metrics (bt_run (ev_np env) (slice a b bars) (map Some (slice a b sig))
     (with_initial initial (cfg\<lparr>bc_stop_pct := Some (if given stop then the stop else vp_stop V1_DEFAULT)\<rparr>)))"

text \<open>The threshold with the best Sharpe ratio among those that traded, the first of several; \<open>None\<close> is minus infinity.\<close>

definition better_threshold :: "(rat \<Rightarrow> bt_metrics) \<Rightarrow> rat \<Rightarrow> rat \<times> rat option \<Rightarrow> rat \<times> rat option" where
  "better_threshold run thr best = (let m = run thr in
     if 1 \<le> mt_trades m \<and> (case snd best of None \<Rightarrow> True | Some s \<Rightarrow> s < mt_sharpe m) then (thr, Some (mt_sharpe m)) else best)"

definition choose_threshold :: "eval_env \<Rightarrow> ('f, 'm) learner \<Rightarrow> string \<Rightarrow> candle list \<Rightarrow> 'f option list \<Rightarrow> bool option list \<Rightarrow> rat list \<Rightarrow> nat list \<Rightarrow> nat \<Rightarrow> nat \<Rightarrow> rat" where
  "choose_threshold env lr mode bars X y v1_sig fit_idx val_start val_end =
     (if \<not> trainable y fit_idx then DEFAULT_THRESHOLD
      else let m = fit_rows lr X y fit_idx; p = predict_into lr m X val_start val_end (replicate (length bars) None);
               run = (\<lambda>thr. model_bt env COSTS None None bars (mode_signals mode p v1_sig thr) val_start val_end)
           in fst (fold (better_threshold run) THRESHOLDS (DEFAULT_THRESHOLD, None)))"

section \<open>Purged walk-forward\<close>

text \<open>The accounts of a mode: normal costs, stressed costs, full allocation, and its trades.\<close>

record mode_account =
  ma_eq :: rat
  ma_stress :: rat
  ma_full :: rat
  ma_trades :: int

definition new_account :: mode_account where
  "new_account = \<lparr>ma_eq = 1000, ma_stress = 1000, ma_full = 1000, ma_trades = 0\<rparr>"

record mode_fold =
  mo_threshold :: rat
  mo_return :: rat
  mo_trades :: int

record ml_fold =
  mf_month :: string
  mf_auc :: "rat option"
  mf_train_rows :: nat
  mf_ml :: mode_fold
  mf_veto :: mode_fold

record ml_state =
  ms_probs :: "rat option list"
  ms_folds :: "ml_fold list"
  ms_ml :: mode_account
  ms_veto :: mode_account

definition mode_step :: "eval_env \<Rightarrow> string \<Rightarrow> candle list \<Rightarrow> rat option list \<Rightarrow> rat list \<Rightarrow> rat \<Rightarrow> nat \<Rightarrow> nat \<Rightarrow> mode_account \<Rightarrow> mode_fold \<times> mode_account" where
  "mode_step env mode bars probs v1_sig thr a b acc =
     (let sig = mode_signals mode probs v1_sig thr; r = model_bt env COSTS (Some (ma_eq acc)) None bars sig a b;
          rs = model_bt env STRESS (Some (ma_stress acc)) None bars sig a b;
          rf = model_bt env (COSTS\<lparr>bc_sizing := ''all_in''\<rparr>) (Some (ma_full acc)) None bars sig a b
      in (\<lparr>mo_threshold = thr, mo_return = mt_total_return r, mo_trades = mt_trades r\<rparr>,
          \<lparr>ma_eq = mt_final_equity r, ma_stress = mt_final_equity rs, ma_full = mt_final_equity rf, ma_trades = ma_trades acc + mt_trades r\<rparr>))"

definition fold_auc :: "('f, 'm) learner \<Rightarrow> bool option list \<Rightarrow> rat option list \<Rightarrow> nat list \<Rightarrow> rat option" where
  "fold_auc lr y probs idx = (if idx \<noteq> [] \<and> length (remdups (map (label_at y) idx)) = 2
     then Some (ln_auc lr (map (label_at y) idx) (map (\<lambda>i. the (probs ! i)) idx)) else None)"

definition ml_month :: "eval_env \<Rightarrow> ('f, 'm) learner \<Rightarrow> candle list \<Rightarrow> 'f option list \<Rightarrow> bool option list \<Rightarrow> bool option list \<Rightarrow> rat list \<Rightarrow> nat \<Rightarrow> nat \<Rightarrow> nat
    \<Rightarrow> (string \<times> nat \<times> nat) list \<Rightarrow> nat \<Rightarrow> ml_state \<Rightarrow> ml_state" where
  "ml_month env lr bars X y y_fit v1_sig warm horizon val_months months k s =
     (let (name, te_first, te_end) = months ! k; te_start = max te_first warm; va_start = fst (snd (months ! (max (k - val_months) 1)));
          va_end = snd (snd (months ! (k - 1))); train_idx = rows warm te_start y_fit (Some te_start) horizon
      in if te_end < te_start + 2 \<or> \<not> trainable y_fit train_idx then s
         else let inner_idx = rows warm va_start y_fit (Some va_start) horizon;
                  thr = (\<lambda>mode. choose_threshold env lr mode bars X y_fit v1_sig inner_idx va_start va_end);
                  probs = predict_into lr (fit_rows lr X y_fit train_idx) X te_start te_end (ms_probs s);
                  auc = fold_auc lr y probs (rows te_start te_end y None horizon);
                  (ml, ml_acc) = mode_step env ''ml'' bars probs v1_sig (thr ''ml'') te_start te_end (ms_ml s);
                  (veto, veto_acc) = mode_step env ''veto'' bars probs v1_sig (thr ''veto'') te_start te_end (ms_veto s)
           in \<lparr>ms_probs = probs, ms_folds = ms_folds s @ [\<lparr>mf_month = name, mf_auc = auc, mf_train_rows = length train_idx, mf_ml = ml, mf_veto = veto\<rparr>],
               ms_ml = ml_acc, ms_veto = veto_acc\<rparr>)"

text \<open>The leakage canary shuffles the known labels; the model is then fitted on the shuffled ones.\<close>

definition shuffle_known :: "('f, 'm) learner \<Rightarrow> int option \<Rightarrow> bool option list \<Rightarrow> bool option list" where
  "shuffle_known lr seed y = (case seed of None \<Rightarrow> y
     | Some s \<Rightarrow> let known = filter (\<lambda>i. y ! i \<noteq> None) [0..<length y]; vals = ln_shuffle lr s (map (label_at y) known)
        in fold (\<lambda>(i, v) ys. ys[i := Some v]) (zip known vals) y)"

record mode_summary =
  sm_return :: rat
  sm_trades :: int
  sm_stress_return :: rat
  sm_full_return :: rat
  sm_sharpe :: rat

definition summarise_mode :: "eval_env \<Rightarrow> mode_account \<Rightarrow> rat list \<Rightarrow> mode_summary" where
  "summarise_mode env a rets = \<lparr>sm_return = fsub (fdiv (ma_eq a) 1000) 1, sm_trades = ma_trades a, sm_stress_return = fsub (fdiv (ma_stress a) 1000) 1,
     sm_full_return = fsub (fdiv (ma_full a) 1000) 1, sm_sharpe = fold_sharpe env rets\<rparr>"

definition ml_loop :: "eval_env \<Rightarrow> ('f, 'm) learner \<Rightarrow> candle list \<Rightarrow> 'f option list \<Rightarrow> bool option list \<Rightarrow> rat list \<Rightarrow> nat \<Rightarrow> int option \<Rightarrow> nat \<Rightarrow> nat \<Rightarrow> ml_state" where
  "ml_loop env lr bars X y v1_sig warm seed horizon val_months = (let months = month_bounds bars in
     fold (ml_month env lr bars X y (shuffle_known lr seed y) v1_sig warm horizon val_months months) [3..<length months]
       \<lparr>ms_probs = replicate (length bars) None, ms_folds = [], ms_ml = new_account, ms_veto = new_account\<rparr>)"

text \<open>\<^verbatim>\<open>walk_forward\<close> with its parameters \<^verbatim>\<open>cfg\<close> and \<^verbatim>\<open>stop\<close>.\<close>

definition ml_walk_forward :: "eval_env \<Rightarrow> ('f, 'm) learner \<Rightarrow> candle list \<Rightarrow> 'f option list \<Rightarrow> bool option list \<Rightarrow> rat list \<Rightarrow> nat \<Rightarrow> int option \<Rightarrow> nat
    \<Rightarrow> bt_config \<Rightarrow> rat option \<Rightarrow> nat \<Rightarrow> ml_fold list \<times> (mode_summary \<times> mode_summary) \<times> rat option \<times> rat option list" where
  "ml_walk_forward env lr bars X y v1_sig warm shuffle_seed horizon cfg stop val_months =
     (let s = ml_loop env lr bars X y v1_sig warm shuffle_seed horizon val_months; probs = ms_probs s;
          oos = filter (\<lambda>i. probs ! i \<noteq> None \<and> y ! i \<noteq> None) [0..<length bars]
      in (ms_folds s, (summarise_mode env (ms_ml s) (map (\<lambda>f. mo_return (mf_ml f)) (ms_folds s)),
            summarise_mode env (ms_veto s) (map (\<lambda>f. mo_return (mf_veto f)) (ms_folds s))), fold_auc lr y probs oos, probs))"

section \<open>Gates and the chosen mode\<close>

record mode_result =
  mr_summary :: mode_summary
  mr_percentile :: rat
  mr_gates :: "(string \<times> bool) list"
  mr_go :: bool
  mr_threshold :: rat

definition ml_gates :: "rat option \<Rightarrow> rat option \<Rightarrow> mode_summary \<Rightarrow> rat \<Rightarrow> rat \<Rightarrow> competitor_oos list \<Rightarrow> rat \<Rightarrow> (string \<times> bool) list" where
  "ml_gates pooled canary sm v1_return v1_sharpe cs percentile =
     [(''pooled_auc_above_chance'', ge pooled (Some (flt_round (52/100)))),
      (''leakage_canary_clean'', ge canary (Some (flt_round (45/100))) \<and> ge (Some (flt_round (55/100))) canary),
      (''min_oos_trades'', 20 \<le> sm_trades sm), (''oos_positive_after_costs'', 0 < sm_return sm),
      (''beats_v1_default_oos'', v1_return < sm_return sm \<and> v1_sharpe < sm_sharpe sm),
      (''oos_sharpe_beats_best_competitor'', co_sharpe (best_competitor cs) < sm_sharpe sm),
      (''beats_random_percentile'', 95 \<le> percentile), (''positive_under_2x_costs'', 0 < sm_stress_return sm),
      (''profit_beats_best_competitor'', Max (set (map co_return cs)) < sm_full_return sm)]"

definition mode_percentile :: "eval_env \<Rightarrow> candle list \<Rightarrow> nat \<Rightarrow> mode_summary \<Rightarrow> rat" where
  "mode_percentile env oos_sub seeds sm = percent_below (map (\<lambda>sd. mt_total_return (br_metrics (bt_run (ev_np env) oos_sub
     (map Some (random_entries (ev_draw env) (length oos_sub) 0 (nat (max (sm_trades sm) 1)) (int sd))) (COSTS\<lparr>bc_max_hold_bars := Some (int HORIZON)\<rparr>))))
     [0..<seeds]) (sm_return sm)"

definition mode_verdict :: "eval_env \<Rightarrow> (string \<times> bool) list \<Rightarrow> mode_summary \<Rightarrow> rat \<Rightarrow> rat list \<Rightarrow> mode_result" where
  "mode_verdict env gates sm percentile ths = \<lparr>mr_summary = sm, mr_percentile = percentile, mr_gates = gates, mr_go = list_all snd gates,
     mr_threshold = (if ths = [] then DEFAULT_THRESHOLD else ev_median env ths)\<rparr>"

text \<open>The mode that passed with the best Sharpe ratio; the veto mode wins a tie.\<close>

definition chosen_mode :: "mode_result \<Rightarrow> mode_result \<Rightarrow> string option" where
  "chosen_mode ml veto = (if mr_go veto \<and> (mr_go ml \<longrightarrow> sm_sharpe (mr_summary ml) \<le> sm_sharpe (mr_summary veto)) then Some ''veto''
     else if mr_go ml then Some ''ml'' else None)"

text \<open>The trained model with what its metadata say of it.\<close>

record 'm trained =
  tn_mode :: string
  tn_threshold :: rat
  tn_rows :: nat
  tn_until :: time
  tn_model :: 'm

definition train_final :: "('f, 'm) learner \<Rightarrow> 'k candle_scheme list \<Rightarrow> 'f option list \<Rightarrow> bool option list \<Rightarrow> nat \<Rightarrow> string \<Rightarrow> rat \<Rightarrow> 'm trained" where
  "train_final lr dev X y warm mode thr = (let idx = rows warm (length dev) y None HORIZON in
     \<lparr>tn_mode = mode, tn_threshold = thr, tn_rows = length idx, tn_until = cd_time (last dev), tn_model = fit_rows lr X y idx\<rparr>)"

record 'm ml_results =
  mx_pooled :: "rat option"
  mx_canary :: "rat option"
  mx_folds :: "ml_fold list"
  mx_ml :: mode_result
  mx_veto :: mode_result
  mx_v1 :: bt_metrics
  mx_competitors :: "competitor_oos list"
  mx_chosen :: "string option"
  mx_artifact :: "'m trained option"

definition v1_signals :: "eval_env \<Rightarrow> candle list \<Rightarrow> rat list" where
  "v1_signals env bars = thresholds (history_scores env bars) (vp_buy V1_DEFAULT) (vp_sell V1_DEFAULT)"

text \<open>The position where the out-of-sample months begin, an \<open>IndexError\<close> when there are not enough months or candles.\<close>

definition oos_start_of :: "candle list \<Rightarrow> nat \<Rightarrow> exn + nat" where
  "oos_start_of dev warm = (let months = month_bounds dev in if length months \<le> 3 then Inl (Other ''IndexError'')
     else let i = max (fst (snd (months ! 3))) warm in if length dev \<le> i then Inl (Other ''IndexError'') else Inr i)"

text \<open>V1 over the out-of-sample candles, an account of its own that starts with the first of them.\<close>

definition v1_oos_run :: "eval_env \<Rightarrow> candle list \<Rightarrow> rat list \<Rightarrow> nat \<Rightarrow> bt_result" where
  "v1_oos_run env dev v1_sig oos = bt_run (ev_np env) (drop oos dev) (map Some (drop oos v1_sig)) (COSTS\<lparr>bc_stop_pct := Some (vp_stop V1_DEFAULT)\<rparr>)"

definition v1_oos_sharpe :: "eval_env \<Rightarrow> candle list \<Rightarrow> rat list \<Rightarrow> nat \<Rightarrow> exn + rat" where
  "v1_oos_sharpe env dev v1_sig oos =
     monthly_sharpe_since (ev_np env) (zip (map cd_time (drop oos dev)) (br_equity (v1_oos_run env dev v1_sig oos))) (Some (cd_time (dev ! oos)))"

text \<open>The results from the walk-forward, the canary and the scores of the competitors on the same months.\<close>

definition ml_conclude :: "eval_env \<Rightarrow> ('f, 'm) learner \<Rightarrow> candle list \<Rightarrow> 'f option list \<Rightarrow> bool option list \<Rightarrow> rat list \<Rightarrow> nat \<Rightarrow> nat \<Rightarrow> nat
    \<Rightarrow> ml_fold list \<times> (mode_summary \<times> mode_summary) \<times> rat option \<times> rat option list \<Rightarrow> rat option \<Rightarrow> competitor_oos list \<Rightarrow> rat \<Rightarrow> 'm ml_results" where
  "ml_conclude env lr dev X y v1_sig warm seeds oos walk canary cs v1_sharpe =
     (let (folds, (ml_sum, veto_sum), pooled, probs) = walk; oos_sub = drop oos dev;
          v1 = v1_oos_run env dev v1_sig oos;
          result = (\<lambda>sm ths. let pc = mode_percentile env oos_sub seeds sm in
             mode_verdict env (ml_gates pooled canary sm (mt_total_return (br_metrics v1)) v1_sharpe cs pc) sm pc ths);
          ml = result ml_sum (map (\<lambda>f. mo_threshold (mf_ml f)) folds); veto = result veto_sum (map (\<lambda>f. mo_threshold (mf_veto f)) folds);
          chosen = chosen_mode ml veto
      in \<lparr>mx_pooled = pooled, mx_canary = canary, mx_folds = folds, mx_ml = ml, mx_veto = veto, mx_v1 = br_metrics v1, mx_competitors = cs, mx_chosen = chosen,
          mx_artifact = map_option (\<lambda>mode. train_final lr dev X y warm mode (mr_threshold (if mode = ''ml'' then ml else veto))) chosen\<rparr>)"

definition ml_evaluate :: "eval_env \<Rightarrow> ('f, 'm) learner \<Rightarrow> (candle list \<Rightarrow> 'f) \<Rightarrow> candle list \<Rightarrow> nat \<Rightarrow> exn + 'm ml_results" where
  "ml_evaluate env lr features df_all seeds =
     (let dev = fst (split_holdout df_all HOLDOUT_MONTHS); n = length dev; warm = warm_bars env;
          X = take n (feature_matrix features (nat (warmup_bars (ev_live env))) df_all); y = labels dev HORIZON EDGE; v1_sig = take n (v1_signals env df_all);
          walk = (\<lambda>seed. ml_walk_forward env lr dev X y v1_sig warm seed HORIZON COSTS None 3)
      in bindR (oos_start_of dev warm) (\<lambda>oos. bindR (competitors env dev warm) (\<lambda>comp.
         bindR (mapR (competitor_score env (map cd_time (drop warm dev)) (cd_time (dev ! oos))) comp) (\<lambda>cs.
         bindR (v1_oos_sharpe env dev v1_sig oos) (\<lambda>v1_sharpe.
           Inr (ml_conclude env lr dev X y v1_sig warm seeds oos (walk None) (fst (snd (snd (walk (Some 7))))) cs v1_sharpe))))))"

section \<open>The one-shot holdout of the model\<close>

record ml_holdout_result =
  mh_used_at :: time
  mh_forced :: bool
  mh_mode :: string
  mh_holdout :: bt_metrics
  mh_v1 :: bt_metrics
  mh_buy_hold :: bt_metrics
  mh_passed :: bool

record 'm ml_dir =
  md_results :: "'m ml_results option"
  md_lock :: "ml_holdout_result option"
  md_appended :: "ml_holdout_result list"

definition ml_evaluated :: "eval_env \<Rightarrow> ('f, 'm) learner \<Rightarrow> (candle list \<Rightarrow> 'f) \<Rightarrow> candle list \<Rightarrow> nat \<Rightarrow> ('m ml_dir, 'm ml_results) eff" where
  "ml_evaluated env lr features df_all seeds = bindE (liftE (ml_evaluate env lr features df_all seeds)) (\<lambda>r. thenE (updE (\<lambda>d. d\<lparr>md_results := Some r\<rparr>)) (ret r))"

definition ml_holdout_run :: "eval_env \<Rightarrow> ('f, 'm) learner \<Rightarrow> (candle list \<Rightarrow> 'f) \<Rightarrow> candle list \<Rightarrow> 'm trained \<Rightarrow> time \<Rightarrow> bool \<Rightarrow> exn + ml_holdout_result" where
  "ml_holdout_run env lr features df_all art t force =
     (let (dev, hold, months) = split_holdout df_all HOLDOUT_MONTHS; n = length dev;
          X = drop n (feature_matrix features (nat (warmup_bars (ev_live env))) df_all); p = map (\<lambda>x. Some (ln_proba lr (tn_model art) x)) X;
          v1_sig = drop n (v1_signals env df_all); sig = mode_signals (tn_mode art) p v1_sig (tn_threshold art);
          r = model_bt env COSTS None None hold sig 0 (length hold); v1 = model_bt env COSTS None None hold v1_sig 0 (length hold)
      in bindR (buy_hold hold 0) (\<lambda>bh. Inr \<lparr>mh_used_at = t, mh_forced = force, mh_mode = tn_mode art, mh_holdout = r, mh_v1 = v1,
           mh_buy_hold = br_metrics (bt_run (ev_np env) hold (map Some bh) (all_in COSTS)),
           mh_passed = (0 < mt_total_return r \<and> mt_total_return v1 \<le> mt_total_return r)\<rparr>))"

definition ml_holdout :: "eval_env \<Rightarrow> ('f, 'm) learner \<Rightarrow> (candle list \<Rightarrow> 'f) \<Rightarrow> candle list \<Rightarrow> time \<Rightarrow> bool \<Rightarrow> ('m ml_dir, ml_holdout_result) eff" where
  "ml_holdout env lr features df_all t force = bindE (getE md_results) (\<lambda>results. case results of
     None \<Rightarrow> raise (system_exit ''run `python -m research.ml` first'')
   | Some dev_res \<Rightarrow> (case mx_artifact dev_res of
       None \<Rightarrow> raise (system_exit ''no model passed the development gates; nothing to test on the holdout'')
     | Some art \<Rightarrow> bindE (getE md_lock) (\<lambda>lock.
         if lock \<noteq> None \<and> \<not> force then raise (system_exit ''ML holdout already used'')
         else bindE (liftE (ml_holdout_run env lr features df_all art t force)) (\<lambda>res.
           thenE (updE (\<lambda>d. d\<lparr>md_lock := Some res, md_appended := md_appended d @ [res]\<rparr>)) (ret res)))))"

section \<open>Nothing leaks from later months\<close>

lemma length_labels [simp]: "length (labels bars h e) = length bars"
  by (simp add: labels_def)

lemma labels_nth: "i < length bars \<Longrightarrow> labels bars h e ! i = (if i + h + 1 < length bars
    then Some (e < fsub (fdiv (cd_open (bars ! (i + 1 + h))) (cd_open (bars ! (i + 1)))) 1) else None)"
  by (simp add: labels_def)

text \<open>A label that lies in a history is the same in every continuation of it.\<close>

lemma labels_append: "i + h + 1 < length xs \<Longrightarrow> labels (xs @ ys) h e ! i = labels xs h e ! i"
  by (simp add: labels_nth nth_append)

lemma purged_labels: "i + 1 + h < t \<Longrightarrow> t \<le> length xs \<Longrightarrow> labels (xs @ ys) h e ! i = labels xs h e ! i"
  by (rule labels_append) simp

lemma purged_rows:
  "t \<le> length xs \<Longrightarrow> rows a b (labels (xs @ ys) h e) (Some t) h = rows a b (labels xs h e) (Some t) h"
  unfolding rows_def filter_filter
  by (rule filter_cong [OF refl]) (use purged_labels [of _ h t xs ys e] in \<open>auto simp del: not_None_eq\<close>)

lemma purged_label_at: "t \<le> length xs \<Longrightarrow> i \<in> set (rows a b y (Some t) h) \<Longrightarrow> label_at (labels (xs @ ys) h e) i = label_at (labels xs h e) i"
  by (auto simp: rows_def label_at_def purged_labels)

lemma rows_below: "i \<in> set (rows a b y p h) \<Longrightarrow> i < b"
  by (auto simp: rows_def)

lemma purged_fit:
  assumes "t \<le> length xs" "b \<le> length xs" "idx = rows a b (labels xs h e) (Some t) h" "length X = n" "length xs \<le> n"
  shows "trainable (labels (xs @ ys) h e) idx = trainable (labels xs h e) idx"
    and "fit_rows lr X (labels (xs @ ys) h e) idx = fit_rows lr (take (length xs) X) (labels xs h e) idx"
proof -
  have l: "map (label_at (labels (xs @ ys) h e)) idx = map (label_at (labels xs h e)) idx"
    by (rule map_cong [OF refl]) (use assms(1,3) purged_label_at in blast)
  have x: "map (\<lambda>i. X ! i) idx = map (\<lambda>i. take (length xs) X ! i) idx"
    by (rule map_cong [OF refl]) (use assms(2,3) rows_below in force)
  show "trainable (labels (xs @ ys) h e) idx = trainable (labels xs h e) idx" by (simp add: trainable_def l)
  show "fit_rows lr X (labels (xs @ ys) h e) idx = fit_rows lr (take (length xs) X) (labels xs h e) idx" by (simp add: fit_rows_def l x)
qed

lemma length_predict [simp]: "length (predict_into lr m X a b p) = length p"
  by (simp add: predict_into_def)

lemma predict_take:
  assumes "b \<le> n" "take n p = p'" "n \<le> length p"
  shows "take n (predict_into lr m X a b p) = predict_into lr m (take n X) a b p'"
proof (rule nth_equalityI)
  show "length (take n (predict_into lr m X a b p)) = length (predict_into lr m (take n X) a b p')" using assms by auto
  fix i assume "i < length (take n (predict_into lr m X a b p))"
  then have "i < n" "i < length p" "i < length p'" using assms by auto
  then show "take n (predict_into lr m X a b p) ! i = predict_into lr m (take n X) a b p' ! i"
    using assms by (auto simp: predict_into_def)
qed

lemma predict_keeps: "b \<le> n \<Longrightarrow> drop n (predict_into lr m X a b p) = drop n p"
  by (rule nth_equalityI) (auto simp: predict_into_def)

lemma predict_later: "n \<le> a \<Longrightarrow> take n (predict_into lr m X a b p) = take n p"
  by (rule nth_equalityI) (auto simp: predict_into_def)

lemma mode_signals_take: "take n (mode_signals mode p v thr) = mode_signals mode (take n p) (take n v) thr"
  by (simp add: mode_signals_def ml_signals_def veto_signals_def take_map take_zip)

lemma model_bt_take:
  "b \<le> length xs \<Longrightarrow> model_bt env cfg initial stop (xs @ ys) sig a b = model_bt env cfg initial stop xs (take (length xs) sig) a b"
  by (simp add: model_bt_def slice_append slice_take)

lemma model_signals_take:
  assumes "b \<le> length xs" "take (length xs) p = p'"
  shows "model_bt env cfg initial stop (xs @ ys) (mode_signals mode p v thr) a b
    = model_bt env cfg initial stop xs (mode_signals mode p' (take (length xs) v) thr) a b"
  using assms by (simp add: model_bt_take mode_signals_take)

lemma mode_step_take:
  assumes "b \<le> length xs" "take (length xs) p = p'"
  shows "mode_step env mode (xs @ ys) p v thr a b acc = mode_step env mode xs p' (take (length xs) v) thr a b acc"
  unfolding mode_step_def Let_def model_signals_take [OF assms] by (rule refl)

lemma choose_threshold_take:
  assumes "idx = rows a' b' (labels xs h e) (Some t) h" "t \<le> length xs" "b' \<le> length xs" "b \<le> length xs" "length X = length (xs @ ys)"
  shows "choose_threshold env lr mode (xs @ ys) X (labels (xs @ ys) h e) v idx a b
    = choose_threshold env lr mode xs (take (length xs) X) (labels xs h e) (take (length xs) v) idx a b"
proof -
  note f = purged_fit [OF assms(2,3,1) assms(5)]
  have "take (length xs) (predict_into lr m X a b (replicate (length (xs @ ys)) None))
      = predict_into lr m (take (length xs) X) a b (replicate (length xs) None)" for m
    by (rule predict_take) (use assms in auto)
  from model_signals_take [OF assms(4) this] show ?thesis
    by (simp add: choose_threshold_def Let_def f)
qed

definition no_auc :: "ml_fold \<Rightarrow> ml_fold" where
  "no_auc f = f\<lparr>mf_auc := None\<rparr>"

text \<open>The states of the loop on a history and on a continuation of it agree on the history, the scores of the folds aside.\<close>

definition agree :: "nat \<Rightarrow> ml_state \<Rightarrow> ml_state \<Rightarrow> bool" where
  "agree n full s \<longleftrightarrow> n \<le> length (ms_probs full) \<and> take n (ms_probs full) = ms_probs s \<and> map no_auc (ms_folds full) = map no_auc (ms_folds s)
     \<and> drop n (ms_probs full) = replicate (length (ms_probs full) - n) None \<and> ms_ml full = ms_ml s \<and> ms_veto full = ms_veto s"

text \<open>One month on the history, with its parts named.\<close>

lemma ml_month_cases:
  fixes warm vm k te_first te_end :: nat and months :: "(string \<times> nat \<times> nat) list"
  assumes "months ! k = (name, te_first, te_end)"
  defines "te \<equiv> max te_first warm" and "va \<equiv> fst (snd (months ! (max (k - vm) 1)))" and "ve \<equiv> snd (snd (months ! (k - 1)))"
  shows "ml_month env lr bars X y y_fit v warm h vm months k s =
    (if te_end < te + 2 \<or> \<not> trainable y_fit (rows warm te y_fit (Some te) h) then s
     else let thr = (\<lambda>mode. choose_threshold env lr mode bars X y_fit v (rows warm va y_fit (Some va) h) va ve);
              probs = predict_into lr (fit_rows lr X y_fit (rows warm te y_fit (Some te) h)) X te te_end (ms_probs s);
              ml = mode_step env ''ml'' bars probs v (thr ''ml'') te te_end (ms_ml s);
              veto = mode_step env ''veto'' bars probs v (thr ''veto'') te te_end (ms_veto s)
       in \<lparr>ms_probs = probs, ms_folds = ms_folds s @ [\<lparr>mf_month = name, mf_auc = fold_auc lr y probs (rows te te_end y None h),
             mf_train_rows = length (rows warm te y_fit (Some te) h), mf_ml = fst ml, mf_veto = fst veto\<rparr>], ms_ml = snd ml, ms_veto = snd veto\<rparr>)"
  by (simp add: ml_month_def assms(1) te_def va_def ve_def Let_def case_prod_beta)

lemma ml_month_agree:
  assumes k: "k < length (month_bounds xs)" "1 \<le> k" and m: "month_bounds (xs @ ys) = month_bounds xs @ rest"
    and X: "length X = length (xs @ ys)" and a: "agree (length xs) full s"
  shows "agree (length xs)
    (ml_month env lr (xs @ ys) X (labels (xs @ ys) h e) (labels (xs @ ys) h e) v warm h vm (month_bounds (xs @ ys)) k full)
    (ml_month env lr xs (take (length xs) X) (labels xs h e) (labels xs h e) (take (length xs) v) warm h vm (month_bounds xs) k s)"
proof -
  let ?n = "length xs"
  obtain name te_first te_end where bk: "month_bounds xs ! k = (name, te_first, te_end)" by (cases "month_bounds xs ! k")
  have eq: "month_bounds (xs @ ys) ! i = month_bounds xs ! i" if "i \<le> k" for i
    using that k m by (simp add: nth_append)
  have bk': "month_bounds (xs @ ys) ! k = (name, te_first, te_end)" using bk eq by simp
  have vk: "month_bounds (xs @ ys) ! (max (k - vm) 1) = month_bounds xs ! (max (k - vm) 1)" "month_bounds (xs @ ys) ! (k - 1) = month_bounds xs ! (k - 1)"
    using k(2) by (auto intro!: eq)
  define te va ve where "te = max te_first warm" and "va = fst (snd (month_bounds xs ! (max (k - vm) 1)))" and "ve = snd (snd (month_bounds xs ! (k - 1)))"
  have ranges: "te_end \<le> ?n" "ve \<le> ?n" "va \<le> ?n"
    using month_bounds_range [of k xs] month_bounds_range [of "k - 1" xs] k bk
      contiguous_bounds [OF conjunct1 [OF month_bounds_partition [of xs]], of "month_bounds xs ! (max (k - vm) 1)"] by (auto simp: ve_def va_def)
  show ?thesis
  proof (cases "te_end < te + 2")
    case True
    then show ?thesis using a by (simp add: ml_month_cases [OF bk] ml_month_cases [OF bk'] te_def)
  next
    case False
    then have te: "te \<le> ?n" using ranges(1) by simp
    let ?idx = "rows warm te (labels xs h e) (Some te) h" and ?inner = "rows warm va (labels xs h e) (Some va) h"
    note pr = purged_rows [OF te, of warm te ys h e] purged_rows [OF ranges(3), of warm va ys h e]
    note fit = purged_fit [OF te te refl X, where a = warm and h = h and e = e]
    have pm: "length xs \<le> length X" using X by simp
    show ?thesis
    proof (cases "trainable (labels xs h e) ?idx")
      case False
      then show ?thesis using a fit(1) [of ys] pm
        by (simp add: ml_month_cases [OF bk] ml_month_cases [OF bk'] te_def [symmetric] pr)
    next
      case True
      let ?m = "fit_rows lr (take ?n X) (labels xs h e) ?idx"
      let ?full = "predict_into lr ?m X te te_end (ms_probs full)" and ?probs = "predict_into lr ?m (take ?n X) te te_end (ms_probs s)"
      have d: "drop ?n ?full = drop ?n (ms_probs full)" by (rule predict_keeps) (use ranges in simp)
      have p: "take ?n ?full = ?probs" by (rule predict_take) (use a ranges in \<open>auto simp: agree_def\<close>)
      note thr = choose_threshold_take [OF refl ranges(3,3,2) X, where a' = warm and h = h and e = e]
      show ?thesis
        using a True False pm unfolding ml_month_cases [OF bk] ml_month_cases [OF bk'] vk te_def [symmetric] va_def [symmetric] ve_def [symmetric]
        by (simp add: pr fit thr mode_step_take [OF ranges(1) p] Let_def agree_def p d no_auc_def)
    qed
  qed
qed

lemma ml_month_later:
  assumes "n \<le> fst (snd (months ! k))"
  shows "take n (ms_probs (ml_month env lr bars X y y_fit v warm h vm months k s)) = take n (ms_probs s)
    \<and> (\<exists>fs. ms_folds (ml_month env lr bars X y y_fit v warm h vm months k s) = ms_folds s @ fs)"
proof (cases "months ! k")
  case (fields name te_first te_end)
  have "n \<le> max te_first warm" using assms fields by simp
  then show ?thesis by (simp add: ml_month_cases [OF fields] Let_def predict_later)
qed

lemma contiguous_append: "contiguous a (bs @ cs) n \<Longrightarrow> contiguous a bs m \<Longrightarrow> contiguous m cs n"
  by (induction a bs m rule: contiguous.induct) auto

lemma later_months_start:
  assumes "month_bounds (xs @ ys) = month_bounds xs @ rest" "length (month_bounds xs) \<le> k" "k < length (month_bounds (xs @ ys))"
  shows "length xs \<le> fst (snd (month_bounds (xs @ ys) ! k))"
proof -
  have "contiguous (length xs) rest (length (xs @ ys))"
    by (rule contiguous_append) (use month_bounds_partition [of "xs @ ys"] month_bounds_partition [of xs] assms(1) in auto)
  moreover have "month_bounds (xs @ ys) ! k \<in> set rest" using assms by (auto simp: nth_append)
  ultimately show ?thesis using contiguous_bounds by blast
qed

lemma fold_agree:
  assumes "\<And>k s t. k \<in> set ks \<Longrightarrow> R s t \<Longrightarrow> R (f k s) (g k t)" "R s t"
  shows "R (fold f ks s) (fold g ks t)"
  using assms by (induction ks arbitrary: s t) auto

lemma ml_fold_later:
  assumes "\<And>k. k \<in> set ks \<Longrightarrow> n \<le> fst (snd (months ! k))"
  shows "take n (ms_probs (fold (ml_month env lr bars X y y_fit v warm h vm months) ks s)) = take n (ms_probs s)
    \<and> (\<exists>fs. ms_folds (fold (ml_month env lr bars X y y_fit v warm h vm months) ks s) = ms_folds s @ fs)"
  using assms
proof (induction ks arbitrary: s)
  case (Cons k ks)
  define t where "t = ml_month env lr bars X y y_fit v warm h vm months k s"
  have t: "take n (ms_probs t) = take n (ms_probs s)" "\<exists>fs. ms_folds t = ms_folds s @ fs"
    using ml_month_later Cons.prems unfolding t_def by (metis list.set_intros(1))+
  have "take n (ms_probs (fold (ml_month env lr bars X y y_fit v warm h vm months) ks t)) = take n (ms_probs t)
    \<and> (\<exists>fs. ms_folds (fold (ml_month env lr bars X y y_fit v warm h vm months) ks t) = ms_folds t @ fs)"
    by (rule Cons.IH) (simp add: Cons.prems)
  then show ?case using t by (auto simp: t_def)
qed simp

lemma ml_first_months:
  assumes "xs \<noteq> []" "ys \<noteq> []" "month_of (last xs) \<noteq> month_of (hd ys)" "length X = length (xs @ ys)"
  shows "\<exists>D ks. agree (length xs) D (ml_loop env lr xs (take (length xs) X) (labels xs h e) (take (length xs) v) warm None h vm)
    \<and> length (ms_probs D) = length (xs @ ys) \<and> ml_loop env lr (xs @ ys) X (labels (xs @ ys) h e) v warm None h vm = fold (ml_month env lr (xs @ ys) X (labels (xs @ ys) h e) (labels (xs @ ys) h e) v warm h vm (month_bounds (xs @ ys))) ks D
    \<and> [3..<length (month_bounds (xs @ ys))] = [3..<length (month_bounds xs)] @ ks \<and> (\<forall>k\<in>set ks. length xs \<le> fst (snd (month_bounds (xs @ ys) ! k)))"
proof -
  obtain rest where m: "month_bounds (xs @ ys) = month_bounds xs @ rest" using month_bounds_append [OF assms(1-3)] by blast
  let ?y = "labels (xs @ ys) h e" and ?n = "length xs" and ?j = "length (month_bounds xs)"
  let ?f = "ml_month env lr (xs @ ys) X ?y ?y v warm h vm (month_bounds (xs @ ys))"
  let ?g = "ml_month env lr xs (take ?n X) (labels xs h e) (labels xs h e) (take ?n v) warm h vm (month_bounds xs)"
  let ?s = "\<lambda>n. \<lparr>ms_probs = replicate n None, ms_folds = [], ms_ml = new_account, ms_veto = new_account\<rparr>"
  define D where "D = fold ?f [3..<?j] (?s (length (xs @ ys)))"
  have T: "ml_loop env lr xs (take (length xs) X) (labels xs h e) (take (length xs) v) warm None h vm = fold ?g [3..<?j] (?s ?n)"
    by (simp add: ml_loop_def shuffle_known_def Let_def)
  have ag: "agree ?n D (ml_loop env lr xs (take (length xs) X) (labels xs h e) (take (length xs) v) warm None h vm)"
    unfolding D_def T
  proof (rule fold_agree)
    fix k s t assume "k \<in> set [3..<?j]" "agree ?n s t"
    then show "agree ?n (?f k s) (?g k t)" by (intro ml_month_agree [OF _ _ m assms(4)]) auto
  qed (simp add: agree_def)
  have len: "length (ms_probs (fold ?f ks s)) = length (ms_probs s)" for ks s
  proof (induction ks arbitrary: s)
    case (Cons k ks)
    obtain name a b where "month_bounds (xs @ ys) ! k = (name, a, b)" by (cases "month_bounds (xs @ ys) ! k")
    then have "length (ms_probs (?f k s)) = length (ms_probs s)" by (simp add: ml_month_cases Let_def)
    then show ?case by (simp add: Cons)
  qed simp
  have "\<exists>ks. [3..<length (month_bounds (xs @ ys))] = [3..<?j] @ ks \<and> (\<forall>k\<in>set ks. ?j \<le> k \<and> k < length (month_bounds (xs @ ys)))"
  proof (cases "3 \<le> ?j")
    case True
    then have "[3..<?j + length rest] = [3..<?j] @ [?j..<?j + length rest]" by (rule upt_add_eq_append)
    then show ?thesis using m by auto
  qed auto
  then obtain ks where ks: "[3..<length (month_bounds (xs @ ys))] = [3..<?j] @ ks" "\<And>k. k \<in> set ks \<Longrightarrow> ?n \<le> fst (snd (month_bounds (xs @ ys) ! k))"
    using later_months_start [OF m] by blast
  have "ml_loop env lr (xs @ ys) X ?y v warm None h vm = fold ?f ks D" by (simp add: D_def ml_loop_def shuffle_known_def Let_def ks(1))
  moreover have "length (ms_probs D) = length (xs @ ys)" unfolding D_def len by simp
  ultimately show ?thesis using ag ks by blast
qed

text \<open>The month after a history, when it is the last one.\<close>

lemma bounds_from_replicate: "bounds_from (replicate (Suc n) m) start i = [(m, start, i + Suc n)]"
  by (induction n arbitrary: i) simp_all

lemma month_bounds_last:
  assumes "xs \<noteq> []" "ys \<noteq> []" "month_of (last xs) \<noteq> month_of (hd ys)" "\<forall>b\<in>set ys. month_of b = month_of (hd ys)"
  shows "month_bounds (xs @ ys) = month_bounds xs @ [(month_of (hd ys), length xs, length (xs @ ys))]"
proof -
  have "map month_of ys = replicate (Suc (length ys - 1)) (month_of (hd ys))"
    using assms(2,4) by (metis (no_types, lifting) Suc_pred' length_greater_0_conv length_map map_eq_conv map_replicate_const)
  then show ?thesis using bounds_from_append [of "map month_of xs" "map month_of ys" 0 0] assms(1-3) bounds_from_replicate [of "length ys - 1" "month_of (hd ys)"]
    by (simp add: month_bounds_def last_map hd_map del: replicate.simps)
qed

text \<open>What is decided for a tested month before any of its prices is known.\<close>

definition decided :: "ml_fold \<Rightarrow> string \<times> nat \<times> rat \<times> rat" where
  "decided f = (mf_month f, mf_train_rows f, mo_threshold (mf_ml f), mo_threshold (mf_veto f))"

lemma mode_step_threshold: "mo_threshold (fst (mode_step env mode bars p v thr a b acc)) = thr"
  by (simp add: mode_step_def Let_def)

lemma tested_month:
  assumes k: "k = length (month_bounds xs)" "1 \<le> k" and m: "month_bounds (xs @ ys) = month_bounds xs @ [(name, length xs, n)]"
    and X: "length X = length (xs @ ys)" and a: "agree (length xs) D T"
  shows "let s = ml_month env lr (xs @ ys) X (labels (xs @ ys) h e) (labels (xs @ ys) h e) v warm h vm (month_bounds (xs @ ys)) k D;
      y = labels xs h e; te = length xs; idx = rows warm te y (Some te) h;
      va = fst (snd (month_bounds (xs @ ys) ! (max (k - vm) 1))); ve = snd (snd (month_bounds (xs @ ys) ! (k - 1)));
      thr = (\<lambda>mode. choose_threshold env lr mode xs (take te X) y (take te v) (rows warm va y (Some va) h) va ve) in
    if n < max te warm + 2 \<or> te < warm \<or> \<not> trainable y idx then s = D
    else ms_probs s = predict_into lr (fit_rows lr (take te X) y idx) X te n (ms_probs D)
      \<and> map decided (ms_folds s) = map decided (ms_folds D) @ [(name, length idx, thr ''ml'', thr ''veto'')]"
proof -
  let ?n = "length xs" and ?mb = "month_bounds (xs @ ys)"
  have bk: "?mb ! k = (name, ?n, n)" by (simp add: m k(1) nth_append)
  define va ve where "va = fst (snd (?mb ! (max (k - vm) 1)))" and "ve = snd (snd (?mb ! (k - 1)))"
  have eq: "?mb ! i = month_bounds xs ! i" if "i < k" for i using that k(1) m by (simp add: nth_append)
  have "ve \<le> ?n" using month_bounds_range [of "k - 1" xs] k eq [of "k - 1"] by (auto simp: ve_def)
  moreover have "va \<le> ?n"
  proof (cases "max (k - vm) 1 < k")
    case True
    then have "month_bounds xs ! (max (k - vm) 1) \<in> set (month_bounds xs)" by (simp add: k(1))
    then show ?thesis using contiguous_bounds [OF conjunct1 [OF month_bounds_partition [of xs]]] eq [OF True] by (fastforce simp: va_def)
  next
    case False
    then have "max (k - vm) 1 = k" using k(2) by auto
    then show ?thesis by (simp add: va_def bk)
  qed
  ultimately have ranges: "ve \<le> ?n" "va \<le> ?n" by blast+
  show ?thesis
  proof (cases "n < max ?n warm + 2 \<or> ?n < warm")
    case True
    moreover have "\<not> trainable y (rows warm (max ?n warm) y (Some t) h)" if "?n < warm" for y t
      using that by (simp add: trainable_def rows_def)
    ultimately show ?thesis unfolding Let_def by (auto simp: ml_month_cases [OF bk])
  next
    case False
    then have te: "max ?n warm = ?n" "\<not> n < ?n + 2" "\<not> ?n < warm" by auto
    note pr = purged_rows [OF order_refl [of ?n], of warm ?n ys h e] purged_rows [OF ranges(2), of warm va ys h e]
    have pm: "length xs \<le> length X" using X by simp
    note fit = purged_fit [OF order_refl order_refl refl X, where a = warm and h = h and e = e]
    note thr = choose_threshold_take [OF refl ranges(2,2,1) X, where a' = warm and h = h and e = e]
    show ?thesis
      unfolding Let_def ml_month_cases [OF bk] te(1) va_def [symmetric] ve_def [symmetric]
      using te pm by (simp add: pr fit thr Let_def decided_def mode_step_threshold)
  qed
qed

text \<open>So when the tested month is the last, its probabilities and decisions are a function of the history before it and of the features of the month.\<close>

definition last_decisions :: "eval_env \<Rightarrow> ('f, 'm) learner \<Rightarrow> candle list \<Rightarrow> 'f option list \<Rightarrow> nat \<Rightarrow> rat \<Rightarrow> rat list \<Rightarrow> nat \<Rightarrow> nat \<Rightarrow> (string \<times> nat \<times> nat) list
    \<Rightarrow> rat option list \<times> (string \<times> nat \<times> rat \<times> rat) list" where
  "last_decisions env lr xs X h e v warm vm mb =
     (let te = length xs; n = length X; y = labels xs h e; k = length mb - 1; name = fst (last mb);
          T = ml_loop env lr xs (take te X) y v warm None h vm; p = ms_probs T @ replicate (n - te) None; ds = map decided (ms_folds T);
          idx = rows warm te y (Some te) h; va = fst (snd (mb ! (max (k - vm) 1))); ve = snd (snd (mb ! (k - 1)));
          thr = (\<lambda>mode. choose_threshold env lr mode xs (take te X) y v (rows warm va y (Some va) h) va ve)
      in if k < 3 \<or> n < max te warm + 2 \<or> te < warm \<or> \<not> trainable y idx then (p, ds)
         else (predict_into lr (fit_rows lr (take te X) y idx) X te n p, ds @ [(name, length idx, thr ''ml'', thr ''veto'')]))"

lemma last_month:
  assumes "xs \<noteq> []" "ys \<noteq> []" "month_of (last xs) \<noteq> month_of (hd ys)" "\<forall>b\<in>set ys. month_of b = month_of (hd ys)" "length X = length (xs @ ys)"
  shows "(let s = ml_loop env lr (xs @ ys) X (labels (xs @ ys) h e) v warm None h vm in (ms_probs s, map decided (ms_folds s)))
    = last_decisions env lr xs X h e (take (length xs) v) warm vm (month_bounds (xs @ ys))"
proof -
  let ?n = "length xs" and ?mb = "month_bounds (xs @ ys)" and ?k = "length (month_bounds xs)"
  let ?T = "ml_loop env lr xs (take ?n X) (labels xs h e) (take ?n v) warm None h vm"
  have mb: "?mb = month_bounds xs @ [(month_of (hd ys), ?n, length X)]" using month_bounds_last [OF assms(1-4)] assms(5) by simp
  obtain D ks where D: "agree ?n D ?T" "length (ms_probs D) = length X"
      "ml_loop env lr (xs @ ys) X (labels (xs @ ys) h e) v warm None h vm
         = fold (ml_month env lr (xs @ ys) X (labels (xs @ ys) h e) (labels (xs @ ys) h e) v warm h vm ?mb) ks D"
      "[3..<length ?mb] = [3..<?k] @ ks"
    using ml_first_months [OF assms(1-3,5)] assms(5) by metis
  have ks: "ks = (if ?k < 3 then [] else [?k])" using D(4) by (auto simp: mb)
  have p: "ms_probs D = ms_probs ?T @ replicate (length X - ?n) None"
    using D(1,2) unfolding agree_def by (metis append_take_drop_id)
  have ds: "map decided (ms_folds D) = map decided (ms_folds ?T)"
  proof -
    have "map decided fs = map decided (map no_auc fs)" for fs by (simp add: decided_def no_auc_def)
    then show ?thesis using D(1) unfolding agree_def by metis
  qed
  show ?thesis
  proof (cases "?k < 3")
    case True
    then show ?thesis by (simp add: D(3) ks last_decisions_def Let_def p ds mb)
  next
    case False
    then have k1: "1 \<le> ?k" by simp
    note t = tested_month [OF refl k1 mb assms(5) D(1), of env lr h e v warm vm]
    show ?thesis
    proof (cases "length X < max ?n warm + 2 \<or> ?n < warm \<or> \<not> trainable (labels xs h e) (rows warm ?n (labels xs h e) (Some ?n) h)")
      case True
      have "ml_month env lr (xs @ ys) X (labels (xs @ ys) h e) (labels (xs @ ys) h e) v warm h vm ?mb ?k D = D"
        using t unfolding Let_def if_P [OF True] .
      then show ?thesis using False True by (simp add: D(3) ks last_decisions_def Let_def p ds mb)
    next
      case go: False
      have mx: "max ?n warm = ?n" "\<not> length X < Suc (Suc ?n)" using go by auto
      show ?thesis using False go t unfolding Let_def if_not_P [OF go] by (simp add: D(3) ks last_decisions_def Let_def p ds mb mx)
    qed
  qed
qed

text \<open>
  C35: the walk-forward of the model leaks nothing. When a history is continued by further months, the out-of-sample probabilities of the months that were already there do not change, and
  neither do their thresholds, returns, trades and numbers of training rows; the new months only add folds. And nothing of a tested month goes into what is tested on it: if only the prices of the
  last month are changed, its probabilities (for the same features), the two thresholds and the number of training rows are the same. Training rows whose label would reach
  into the tested month are purged, in the choice of the threshold as well. The AUC of a fold is left out, since it scores against labels that lie up to the horizon after the month, and so is the canary,
  which shuffles all labels.
\<close>

theorem ml_walk_causal:
  assumes "xs \<noteq> []" "ys \<noteq> []" "month_of (last xs) \<noteq> month_of (hd ys)" "length X = length (xs @ ys)"
  shows "(let full = ml_walk_forward env lr (xs @ ys) X (labels (xs @ ys) h e) v warm None h cfg stop vm;
             first = ml_walk_forward env lr xs (take (length xs) X) (labels xs h e) (take (length xs) v) warm None h cfg stop vm
    in take (length xs) (snd (snd (snd full))) = snd (snd (snd first)) \<and> (\<exists>later. map no_auc (fst full) = map no_auc (fst first) @ later))
   \<and> ((\<forall>b\<in>set ys. month_of b = month_of (hd ys)) \<and> map cd_time ys' = map cd_time ys \<and> take (length xs) v' = take (length xs) v \<longrightarrow>
      (let walk = ml_walk_forward env lr (xs @ ys) X (labels (xs @ ys) h e) v warm None h cfg stop vm;
           walk' = ml_walk_forward env lr (xs @ ys') X (labels (xs @ ys') h e) v' warm None h cfg stop vm
       in snd (snd (snd walk')) = snd (snd (snd walk)) \<and> map decided (fst walk') = map decided (fst walk)))"
proof (intro conjI impI)
  let ?n = "length xs"
  let ?S = "ml_loop env lr (xs @ ys) X (labels (xs @ ys) h e) v warm None h vm"
  let ?T = "ml_loop env lr xs (take ?n X) (labels xs h e) (take ?n v) warm None h vm"
  obtain D ks where D: "agree ?n D ?T"
      "?S = fold (ml_month env lr (xs @ ys) X (labels (xs @ ys) h e) (labels (xs @ ys) h e) v warm h vm (month_bounds (xs @ ys))) ks D"
      "\<forall>k\<in>set ks. ?n \<le> fst (snd (month_bounds (xs @ ys) ! k))"
    using ml_first_months [OF assms] by blast
  have S: "take ?n (ms_probs ?S) = take ?n (ms_probs D)" "\<exists>fs. ms_folds ?S = ms_folds D @ fs"
    using ml_fold_later [where ks = ks and n = ?n and months = "month_bounds (xs @ ys)"] D(3) unfolding D(2) by blast+
  have "take ?n (ms_probs ?S) = ms_probs ?T" "\<exists>later. map no_auc (ms_folds ?S) = map no_auc (ms_folds ?T) @ later"
    using S D(1) by (auto simp: agree_def)
  then show "let full = ml_walk_forward env lr (xs @ ys) X (labels (xs @ ys) h e) v warm None h cfg stop vm;
             first = ml_walk_forward env lr xs (take (length xs) X) (labels xs h e) (take (length xs) v) warm None h cfg stop vm
    in take (length xs) (snd (snd (snd full))) = snd (snd (snd first)) \<and> (\<exists>later. map no_auc (fst full) = map no_auc (fst first) @ later)"
    unfolding ml_walk_forward_def Let_def fst_conv snd_conv by blast
next
  assume c: "(\<forall>b\<in>set ys. month_of b = month_of (hd ys)) \<and> map cd_time ys' = map cd_time ys \<and> take (length xs) v' = take (length xs) v"
  show "let walk = ml_walk_forward env lr (xs @ ys) X (labels (xs @ ys) h e) v warm None h cfg stop vm;
           walk' = ml_walk_forward env lr (xs @ ys') X (labels (xs @ ys') h e) v' warm None h cfg stop vm
       in snd (snd (snd walk')) = snd (snd (snd walk)) \<and> map decided (fst walk') = map decided (fst walk)"
  proof -
    have l: "length ys' = length ys" using c by (metis length_map)
    have e: "map month_of zs = map (\<lambda>t. take 7 (iso_date t)) (map cd_time zs)" for zs :: "candle list" by (simp add: month_of_def)
    have mo: "map month_of ys' = map month_of ys" unfolding e using c by (simp only:)
    have n1: "ys' \<noteq> []" using l assms(2) by auto
    have n': "ys' \<noteq> []" "month_of (hd ys') = month_of (hd ys)"
      using n1 arg_cong [OF mo, of hd] by (simp_all add: hd_map assms(2))
    have "month_of ` set ys' = month_of ` set ys" using arg_cong [OF mo, of set] by simp
    then have single: "\<forall>b\<in>set ys'. month_of b = month_of (hd ys')" using c n'(2) by auto
    let ?n = "length xs" and ?N = "length (xs @ ys)"
    have same: "month_bounds (xs @ ys') = month_bounds (xs @ ys)" by (simp add: month_bounds_def mo)
    let ?S = "ml_loop env lr (xs @ ys) X (labels (xs @ ys) h e) v warm None h vm"
    let ?S' = "ml_loop env lr (xs @ ys') X (labels (xs @ ys') h e) v' warm None h vm"
    have X': "length X = length (xs @ ys')" "month_of (last xs) \<noteq> month_of (hd ys')" using assms(3,4) l n'(2) by simp_all
    note A = last_month [OF assms(1,2,3) conjunct1 [OF c] assms(4), of env lr h e v warm vm, unfolded Let_def]
    note B = last_month [OF assms(1) n'(1) X'(2) single X'(1), of env lr h e v' warm vm, unfolded Let_def]
    have v: "take ?n v' = take ?n v" using c by blast
    have "(ms_probs ?S', map decided (ms_folds ?S')) = (ms_probs ?S, map decided (ms_folds ?S))" unfolding A B same v by (rule refl)
    then show ?thesis unfolding ml_walk_forward_def Let_def fst_conv snd_conv prod.inject .
  qed
qed

text \<open>
  The walk-forward ignores the costs and the stop it is given. Whatever configuration and stop \<^verbatim>\<open>research/sweep.py\<close> passes for a timeframe, the result is the one of the normal costs of
  hourly candles with the V1 stop of three percent.
\<close>

theorem ml_walk_ignores_costs:
  "ml_walk_forward env lr bars X y v warm seed h cfg stop vm = ml_walk_forward env lr bars X y v warm seed h COSTS (Some (vp_stop V1_DEFAULT)) vm"
  by (simp add: ml_walk_forward_def)

section \<open>The holdout of the model runs once\<close>

definition empty_ml_dir :: "'m ml_dir" where
  "empty_ml_dir = \<lparr>md_results = None, md_lock = None, md_appended = []\<rparr>"

inductive ml_dir_step :: "eval_env \<Rightarrow> ('f, 'm) learner \<Rightarrow> 'm ml_dir \<Rightarrow> 'm ml_dir \<Rightarrow> bool" for env lr where
  ml_evaluated: "ml_dir_step env lr d (snd (ml_evaluated env lr features bars seeds d))"
| ml_held: "ml_dir_step env lr d (snd (ml_holdout env lr features bars t force d))"

inductive_cases ml_dir_stepE: "ml_dir_step env lr d d'"

lemma ml_evaluate_dir:
  "md_lock (snd (ml_evaluated env lr features bars seeds d)) = md_lock d" "md_appended (snd (ml_evaluated env lr features bars seeds d)) = md_appended d"
  by (simp_all add: ml_evaluated_def bindE_def thenE_def liftE_def updE_def ret_def split: sum.split)

lemma ml_holdout_run_fields:
  "ml_holdout_run env lr features bars art t force = Inr r \<Longrightarrow> mh_forced r = force \<and> mh_mode r = tn_mode art
     \<and> mh_passed r = (0 < mt_total_return (mh_holdout r) \<and> mt_total_return (mh_v1 r) \<le> mt_total_return (mh_holdout r))"
  by (auto simp: ml_holdout_run_def bindR_Inr case_prod_beta Let_def)

lemma ml_holdout_dir:
  "(\<exists>r. fst (ml_holdout env lr features bars t force d) = Inr r \<and> mh_forced r = force \<and> (md_lock d = None \<or> force)
      \<and> snd (ml_holdout env lr features bars t force d) = d\<lparr>md_lock := Some r, md_appended := md_appended d @ [r]\<rparr>)
   \<or> (\<exists>e. ml_holdout env lr features bars t force d = (Inl e, d))"
  by (auto simp: ml_holdout_def bindE_def thenE_def liftE_def updE_def getE_def ret_def raise_def ml_holdout_run_fields split: sum.split option.split)

interpretation ml_once: one_shot md_lock md_appended mh_forced empty_ml_dir "ml_dir_step env lr" for env :: eval_env and lr :: "('f, 'm) learner"
proof
  show "md_lock empty_ml_dir = None" "md_appended empty_ml_dir = []" by (simp_all add: empty_ml_dir_def)
  fix d d' assume "ml_dir_step env lr d d'"
  then show "md_lock d' = md_lock d \<and> md_appended d' = md_appended d
      \<or> (\<exists>r. (md_lock d = None \<or> mh_forced r) \<and> md_lock d' = Some r \<and> md_appended d' = md_appended d @ [r])"
  proof (rule ml_dir_stepE)
    fix features bars seeds assume "d' = snd (ml_evaluated env lr features bars seeds d)"
    then show ?thesis by (simp add: ml_evaluate_dir)
  next
    fix features bars t force assume "d' = snd (ml_holdout env lr features bars t force d)"
    then show ?thesis using ml_holdout_dir [of env lr features bars t force d] by auto
  qed
qed

text \<open>The holdout of the model has the same contract: at most one run that was not forced.\<close>

lemma ml_holdout_once:
  "(ml_dir_step env lr)\<^sup>*\<^sup>* empty_ml_dir d \<Longrightarrow> length (filter (\<lambda>r. \<not> mh_forced r) (md_appended d)) \<le> 1"
  by (rule ml_once.unforced_once)

section \<open>A concrete walk\<close>

definition demo_learner :: "(unit, unit) learner" where
  "demo_learner = \<lparr>ln_fit = (\<lambda>_ _. ()), ln_proba = (\<lambda>_ _. 1), ln_auc = (\<lambda>_ _. 1 / 2), ln_shuffle = (\<lambda>_ ys. ys)\<rparr>"

theorem ml_walk_causal_witness:
  "take 1 (snd (snd (snd (ml_walk_forward demo_eval demo_learner ([month_bar 0 1] @ [month_bar 1 2]) [None, None]
       (labels ([month_bar 0 1] @ [month_bar 1 2]) 1 0) [0, 0] 0 None 1 COSTS None 3))))
   = snd (snd (snd (ml_walk_forward demo_eval demo_learner [month_bar 0 1] [None] (labels [month_bar 0 1] 1 0) [0] 0 None 1 COSTS None 3)))
   \<and> snd (snd (snd (ml_walk_forward demo_eval demo_learner ([month_bar 0 1] @ [month_bar 1 5]) [None, None]
       (labels ([month_bar 0 1] @ [month_bar 1 5]) 1 0) [0, 1] 0 None 1 COSTS None 3)))
   = snd (snd (snd (ml_walk_forward demo_eval demo_learner ([month_bar 0 1] @ [month_bar 1 2]) [None, None]
       (labels ([month_bar 0 1] @ [month_bar 1 2]) 1 0) [0, 0] 0 None 1 COSTS None 3)))"
proof -
  have m: "month_of (last [month_bar 0 1]) \<noteq> month_of (hd [month_bar 1 2])" by (simp add: demo_months)
  note c = ml_walk_causal [OF _ _ m, of "[None, None]" demo_eval demo_learner 1 0 "[0, 0]" 0 COSTS None 3 "[month_bar 1 5]" "[0, 1]"]
  have "map cd_time [month_bar 1 5] = map cd_time [month_bar 1 2]" by (simp add: month_bar_def)
  then show ?thesis using c unfolding Let_def by (simp add: Let_def)
qed

section \<open>The months the Sharpe ratios are taken over\<close>

lemma simulate_length: "bars \<noteq> [] \<Longrightarrow> length (bs_equity (bt_simulate cfg bars sig)) = length bars"
proof -
  assume bars: "bars \<noteq> []"
  obtain es where e: "bs_equity (bt_loop cfg sig 0 bars (bt_init cfg)) = es" "length es = length bars"
    using bt_loop_equity [of cfg sig 0 bars "bt_init cfg"] by (auto simp: bt_init_def)
  have "length (bs_equity (bt_finish cfg bars s)) = length (bs_equity s)" if "length (bs_equity s) = length bars" for s
    using that bars by (auto simp: bt_finish_def close_position_def Let_def)
  then show ?thesis using e by (simp add: bt_simulate_def)
qed

lemma window_times: "\<lbrakk>length e = length ts\<rbrakk> \<Longrightarrow> (\<lambda>p. month_no (fst p)) ` {p \<in> set (zip ts e). since \<le> fst p} = month_no ` {t \<in> set ts. since \<le> t}"
proof -
  assume "length e = length ts"
  then have "set ts = fst ` set (zip ts e)" by (metis list.set_map map_fst_zip)
  then show ?thesis by auto
qed

text \<open>
  C36: the gates compare Sharpe ratios of different numbers of months. The out-of-sample window begins at a candle at midnight, after the warm-up. A competitor, whose
  account runs since the warm-up, has a return for each month of the window; V1, whose account is started with the window, has one return less, although the
  comment on \<^verbatim>\<open>monthly_returns\<close> says that a window of N months always yields N returns.
\<close>

theorem sharpe_months_differ:
  assumes "sorted_wrt (<) (map cd_time dev)" "warm < oos" "oos < length dev" "86400000000 dvd cd_time (dev ! oos)" "length e = length (drop warm dev)"
  shows "\<exists>rc rv. monthly_returns (zip (map cd_time (drop warm dev)) e) (Some (cd_time (dev ! oos))) = Inr rc
    \<and> monthly_returns (zip (map cd_time (drop oos dev)) (br_equity (v1_oos_run env dev v1_sig oos))) (Some (cd_time (dev ! oos))) = Inr rv
    \<and> length rc = card ((\<lambda>b. month_no (cd_time b)) ` set (drop oos dev)) \<and> length rc = length rv + 1"
proof -
  let ?since = "cd_time (dev ! oos)" and ?v = "br_equity (v1_oos_run env dev v1_sig oos)"
  have lt: "cd_time (dev ! i) < cd_time (dev ! j)" if "i < j" "j < length dev" for i j
    using assms(1) that by (simp add: sorted_wrt_iff_nth_less)
  have split: "drop warm dev = drop warm (take oos dev) @ drop oos dev" using assms(2) by (metis append_take_drop_id drop_append drop_drop length_take
      less_imp_le_nat min.absorb4 assms(3) diff_is_0_eq' drop0)
  have early: "cd_time b < ?since" if "b \<in> set (drop warm (take oos dev))" for b
    using that lt assms(3) by (auto simp: in_set_conv_nth)
  have late: "?since \<le> cd_time b" if b: "b \<in> set (drop oos dev)" for b
  proof -
    obtain i where "i < length (drop oos dev)" "drop oos dev ! i = b" using b by (meson in_set_conv_nth)
    then have "i < length dev - oos" "b = dev ! (oos + i)" by auto
    then show ?thesis using lt [of oos "oos + i"] by (cases "i = 0") (auto intro: less_imp_le simp: less_diff_conv add.commute)
  qed
  have inside: "{t \<in> cd_time ` set (drop warm dev). ?since \<le> t} = cd_time ` set (drop oos dev)" unfolding split using early late by force
  have v: "length ?v = length (map cd_time (drop oos dev))" using assms(3) by (simp add: v1_oos_run_def bt_run_def Let_def simulate_length)
  have e: "length e = length (map cd_time (drop warm dev))" using assms(5) by simp
  have sorted: "sorted (map cd_time (drop k dev))" for k
    using assms(1) by (metis drop_map sorted_wrt_drop strict_sorted_imp_sorted)
  have mem: "?since \<in> set (map cd_time (drop k dev))" if "k \<le> oos" for k
    using that assms(3) by (auto simp: in_set_conv_nth intro!: image_eqI [of _ _ "dev ! oos"] exI [of _ "oos - k"])
  have rows: "fst ` set (zip ts xs) = set ts" "map fst (zip ts xs) = ts" if "length xs = length ts" for ts :: "time list" and xs :: "rat list"
    using that by (metis list.set_map map_fst_zip)+
  have before: "list_ex (\<lambda>p. fst p < ?since) (zip (map cd_time (drop warm dev)) e)"
  proof -
    have "cd_time (dev ! warm) \<in> set (map cd_time (drop warm dev))" using assms(2,3) by (auto simp: in_set_conv_nth intro!: image_eqI [of _ _ "dev ! warm"] exI [of _ 0])
    then have "cd_time (dev ! warm) \<in> fst ` set (zip (map cd_time (drop warm dev)) e)" unfolding rows(1) [OF e] .
    then show ?thesis using lt [of warm oos] assms(2,3) by (force simp: list_ex_iff)
  qed
  have none: "\<not> list_ex (\<lambda>p. fst p < ?since) (zip (map cd_time (drop oos dev)) ?v)"
  proof -
    have "?since \<le> fst p" if "p \<in> set (zip (map cd_time (drop oos dev)) ?v)" for p
      using that late set_zip_leftD [of "fst p" "snd p"] by fastforce
    then show ?thesis by (force simp: list_ex_iff)
  qed
  have "\<exists>rc. monthly_returns (zip (map cd_time (drop warm dev)) e) (Some ?since) = Inr rc \<and> length rc = card (month_no ` cd_time ` set (drop oos dev))"
    using months_counted [of "zip (map cd_time (drop warm dev)) e" ?since] before assms(2,4) sorted mem
    by (simp add: rows [OF e] window_times [OF e] inside)
  moreover have "\<exists>rv. monthly_returns (zip (map cd_time (drop oos dev)) ?v) (Some ?since) = Inr rv \<and> length rv + 1 = card (month_no ` cd_time ` set (drop oos dev))"
  proof -
    have "{t \<in> cd_time ` set (drop oos dev). ?since \<le> t} = cd_time ` set (drop oos dev)" using late by auto
    then show ?thesis using months_counted [of "zip (map cd_time (drop oos dev)) ?v" ?since] none assms(4) sorted mem
      by (simp add: rows [OF v] window_times [OF v])
  qed
  ultimately show ?thesis by (auto simp: image_image)
qed

theorem sharpe_months_differ_witness:
  "\<exists>rc rv. monthly_returns [(0, 1000), (2678400000000, 1000), (5356800000000, 1000)] (Some 2678400000000) = Inr rc
    \<and> monthly_returns (zip [2678400000000, 5356800000000] (br_equity (v1_oos_run demo_eval (map2 month_bar [0, 1, 2] [5, 6, 7]) [0, 0, 0] 1)))
        (Some 2678400000000) = Inr rv
    \<and> length rc = length rv + 1"
proof -
  have "\<exists>rc rv. monthly_returns (zip (map cd_time (drop 0 (map2 month_bar [0, 1, 2] [5, 6, 7]))) [1000, 1000, 1000]) (Some (cd_time (map2 month_bar [0, 1, 2] [5, 6, 7] ! 1))) = Inr rc
    \<and> monthly_returns (zip (map cd_time (drop 1 (map2 month_bar [0, 1, 2] [5, 6, 7]))) (br_equity (v1_oos_run demo_eval (map2 month_bar [0, 1, 2] [5, 6, 7]) [0, 0, 0] 1)))
        (Some (cd_time (map2 month_bar [0, 1, 2] [5, 6, 7] ! 1))) = Inr rv
    \<and> length rc = card ((\<lambda>b. month_no (cd_time b)) ` set (drop 1 (map2 month_bar [0, 1, 2] [5, 6, 7]))) \<and> length rc = length rv + 1"
    by (rule sharpe_months_differ) (simp_all add: month_bar_def)
  then show ?thesis by (auto simp: month_bar_def)
qed

end
