(* ===== verification/Overlay.thy ===== *)
theory Overlay
  imports Learning
begin

text \<open>
  The exposure overlay, \<^verbatim>\<open>research/overlay.py\<close> (its signals are in \<^verbatim>\<open>Research_Signals\<close>), and the sweep over time frames and horizons,
  \<^verbatim>\<open>research/sweep.py\<close>. The sweep comes first because the overlay prepares its candles with it. Random draws and the widths pandas gives the
  names of time frames are parameters. It is proved that the walk-forward is causal, that the capture ratio is at least one for a strategy that
  does not fall behind holding, and that an exposure that began before the window of a run is lost in it.
\<close>

section \<open>The sweep\<close>

text \<open>Stops per time frame; any other time frame is a \<^verbatim>\<open>KeyError\<close>.\<close>

definition STOPS :: "string \<Rightarrow> exn + rat list" where
  "STOPS tf = (if tf = ''1h'' then Inr [2, 3, 4, 5, 6] else if tf = ''4h'' then Inr [3, 5, 7, 9, 12]
     else if tf = ''1d'' then Inr [5, 8, 12, 16, 20] else Inl (KeyError tf))"

definition grid_for :: "string \<Rightarrow> exn + v1_grid" where
  "grid_for tf = bindR (STOPS tf) (\<lambda>stops. Inr (GRID\<lparr>gr_stop := stops\<rparr>))"

definition prepare :: "(string \<Rightarrow> int) \<Rightarrow> kline list \<Rightarrow> string \<Rightarrow> kline list \<times> bt_config" where
  "prepare width bars tf = (if tf = ''1h'' then bars else resample bars (width tf), COSTS\<lparr>bc_bars_per_year := bars_per_year (width tf)\<rparr>)"

text \<open>The candles without their order flow, as the back test reads them.\<close>

abbreviation plain :: "kline list \<Rightarrow> candle list" where
  "plain bars \<equiv> map candle.truncate bars"

text \<open>One variant of the sweep; a skipped time frame has no results.\<close>

record sweep_row =
  sr_variant :: string
  sr_timeframe :: string
  sr_return :: rat
  sr_sharpe :: rat
  sr_trades :: int
  sr_months :: nat

definition run_rules :: "eval_env \<Rightarrow> candle list \<Rightarrow> bt_config \<Rightarrow> string \<Rightarrow> nat \<Rightarrow> exn + rat option list \<times> sweep_row \<times> rat" where
  "run_rules env bars cfg tf warm = (let scores = history_scores env bars in
     bindR (grid_for tf) (\<lambda>grid. bindR (walk_forward env bars scores warm grid cfg) (\<lambda>(folds, wf).
       let default = br_metrics (v1_run env bars scores V1_DEFAULT (cfg\<lparr>bc_stop_pct := Some (gr_stop grid ! 1)\<rparr>) warm (length bars) None) in
       Inr (scores, \<lparr>sr_variant = ''rules '' @ tf, sr_timeframe = tf, sr_return = ws_total_return wf, sr_sharpe = ws_monthly_sharpe wf,
              sr_trades = ws_trades wf, sr_months = length folds\<rparr>, mt_total_return default))))"

text \<open>The horizon in candles, at least one.\<close>

definition horizon_bars :: "int \<Rightarrow> int \<Rightarrow> nat" where
  "horizon_bars width hrs = nat (max (hrs * hour div width) 1)"

text \<open>A row of the sweep for each mode, with the area under the curve of the model and of the canary.\<close>

definition ai_row :: "string \<Rightarrow> string \<Rightarrow> int \<Rightarrow> nat \<Rightarrow> mode_summary \<Rightarrow> sweep_row" where
  "ai_row mode tf hrs months s = \<lparr>sr_variant = ''ai-'' @ mode @ '' '' @ tf @ '' '' @ str_int hrs @ ''h'', sr_timeframe = tf,
     sr_return = sm_return s, sr_sharpe = sm_sharpe s, sr_trades = sm_trades s, sr_months = months\<rparr>"

definition run_ai :: "eval_env \<Rightarrow> ('f, 'm) learner \<Rightarrow> (kline list \<Rightarrow> 'f) \<Rightarrow> (string \<Rightarrow> int) \<Rightarrow> kline list \<Rightarrow> bt_config \<Rightarrow> string \<Rightarrow> nat \<Rightarrow> rat option list \<Rightarrow> int
    \<Rightarrow> exn + sweep_row list \<times> rat option \<times> rat option" where
  "run_ai env lr features width bars cfg tf warm scores hrs =
     (let horizon = horizon_bars (width tf) hrs; y = labels bars horizon EDGE; X = feature_matrix features (nat (warmup_bars (ev_live env))) bars;
          v1_sig = thresholds scores (vp_buy V1_DEFAULT) (vp_sell V1_DEFAULT)
      in bindR (STOPS tf) (\<lambda>stops.
         let walk = (\<lambda>seed. ml_walk_forward env lr (plain bars) X y v1_sig warm seed horizon cfg (Some (stops ! 1)) 3);
             (folds, (ml, veto), auc, probs) = walk None
         in Inr ([ai_row ''ml'' tf hrs (length folds) ml, ai_row ''veto'' tf hrs (length folds) veto], auc, fst (snd (snd (walk (Some 7)))))))"

section \<open>The luck bar of the sweep\<close>

record luck =
  lk_sharpe_p95 :: rat
  lk_sharpe_median :: rat
  lk_return_p95 :: rat
  lk_return_median :: rat

text \<open>The best of \<open>n\<close> random strategies, \<open>sims\<close> times; \<open>pick\<close> is the table of positions the generator draws.\<close>

definition best_of_n_random :: "eval_env \<Rightarrow> (nat \<Rightarrow> nat \<Rightarrow> nat \<Rightarrow> nat list list) \<Rightarrow> (string \<Rightarrow> int) \<Rightarrow> candle list \<Rightarrow> bt_config \<Rightarrow> nat \<Rightarrow> int \<Rightarrow> rat \<Rightarrow> nat \<Rightarrow> string \<Rightarrow> nat \<Rightarrow> luck" where
  "best_of_n_random env pick width bars cfg warm trades stop n_variants tf sims =
     (let sub = drop warm bars; c = cfg\<lparr>bc_stop_pct := Some stop, bc_max_hold_bars := Some (int (horizon_bars (width tf) 24))\<rparr>;
          pool = map (\<lambda>s. let r = bt_run (ev_np env) sub (map Some (random_entries (ev_draw env) (length sub) 0 (nat (max trades 1)) (int s))) c
                    in (mt_total_return (br_metrics r), sharpe_of (ev_np env) (all_returns (zip (map cd_time sub) (br_equity r))))) [0..<sims];
          idx = pick (length pool) sims n_variants;
          best_ret = map (\<lambda>row. Max (set (map (\<lambda>i. fst (pool ! i)) row))) idx;
          best_sharpe = map (\<lambda>row. Max (set (map (\<lambda>i. snd (pool ! i)) row))) idx
      in \<lparr>lk_sharpe_p95 = ev_percentile env best_sharpe 95, lk_sharpe_median = ev_median env best_sharpe,
          lk_return_p95 = ev_percentile env best_ret 95, lk_return_median = ev_median env best_ret\<rparr>)"

section \<open>The ranking and its verdict\<close>

definition ai_rows :: "eval_env \<Rightarrow> ('f, 'm) learner \<Rightarrow> (kline list \<Rightarrow> 'f) \<Rightarrow> (string \<Rightarrow> int) \<Rightarrow> kline list \<Rightarrow> bt_config \<Rightarrow> string \<Rightarrow> nat \<Rightarrow> rat option list \<Rightarrow> int list
    \<Rightarrow> exn + sweep_row list" where
  "ai_rows env lr features width dev cfg tf warm scores horizons =
     bindR (mapR (\<lambda>h. run_ai env lr features width dev cfg tf warm scores h) horizons) (\<lambda>rs. Inr (concat (map fst rs)))"

text \<open>The rows of a time frame; \<open>Inr []\<close> is a time frame that is skipped for lack of candles.\<close>

definition sweep_timeframe :: "eval_env \<Rightarrow> ('f, 'm) learner \<Rightarrow> (kline list \<Rightarrow> 'f) \<Rightarrow> (string \<Rightarrow> int) \<Rightarrow> kline list \<Rightarrow> int list \<Rightarrow> string \<Rightarrow> exn + sweep_row list" where
  "sweep_timeframe env lr features width bars horizons tf =
     (let (df_all, cfg) = prepare width bars tf; dev = fst (split_holdout df_all HOLDOUT_MONTHS); warm = warm_bars env in
      if length dev < warm + 200 then Inr []
      else bindR (run_rules env (plain dev) cfg tf warm) (\<lambda>(scores, rules, in_sample).
        bindR (ai_rows env lr features width dev cfg tf warm scores horizons) (\<lambda>rs. Inr (rules # rs))))"

text \<open>\<^verbatim>\<open>sorted(..., reverse=True)[0]\<close>: the first row with the best Sharpe ratio.\<close>

definition best_row :: "sweep_row list \<Rightarrow> sweep_row option" where
  "best_row rs = (case rs of [] \<Rightarrow> None | x # xs \<Rightarrow> Some (arg_max_first sr_sharpe x xs))"

record sweep_result =
  sw_tested :: nat
  sw_rows :: "sweep_row list"
  sw_best :: "sweep_row option"
  sw_luck :: "luck option"
  sw_verdict :: string

definition beats_luck :: "sweep_row \<Rightarrow> luck \<Rightarrow> bool" where
  "beats_luck b k \<longleftrightarrow> lk_sharpe_p95 k < sr_sharpe b \<and> lk_return_p95 k < sr_return b"

definition sweep_run :: "eval_env \<Rightarrow> ('f, 'm) learner \<Rightarrow> (kline list \<Rightarrow> 'f) \<Rightarrow> (nat \<Rightarrow> nat \<Rightarrow> nat \<Rightarrow> nat list list) \<Rightarrow> (string \<Rightarrow> int) \<Rightarrow> kline list \<Rightarrow> string list \<Rightarrow> int list
    \<Rightarrow> exn + sweep_result" where
  "sweep_run env lr features pick width bars timeframes horizons =
     bindR (mapR (sweep_timeframe env lr features width bars horizons) timeframes) (\<lambda>rss. let tested = concat rss in
       case best_row tested of
         None \<Rightarrow> Inr \<lparr>sw_tested = 0, sw_rows = [], sw_best = None, sw_luck = None, sw_verdict = ''NO-GO''\<rparr>
       | Some b \<Rightarrow> bindR (STOPS (sr_timeframe b)) (\<lambda>stops.
           let (df_all, cfg) = prepare width bars (sr_timeframe b); dev = fst (split_holdout df_all HOLDOUT_MONTHS);
               k = best_of_n_random env pick width (plain dev) cfg (warm_bars env) (sr_trades b) (stops ! 1) (length tested) (sr_timeframe b) 200
           in Inr \<lparr>sw_tested = length tested, sw_rows = tested, sw_best = Some b, sw_luck = Some k,
                sw_verdict = (if beats_luck b k then ''CANDIDATE: '' @ sr_variant b @ '' - re-validate it alone before trusting it'' else ''NO-GO'')\<rparr>))"

section \<open>The exposure rule on a window\<close>

record overlay_params =
  op_ma :: nat
  op_confirm :: nat
  op_buffer :: rat

definition OVERLAY_GRID :: "overlay_params list" where
  "OVERLAY_GRID = concat (map (\<lambda>m. concat (map (\<lambda>c. map (\<lambda>b. \<lparr>op_ma = m, op_confirm = c, op_buffer = b\<rparr>)
     [0, flt_round (1/100), flt_round (2/100)]) [1, 2, 3])) [50, 100, 150, 200])"

definition OVERLAY_DEFAULT :: overlay_params where "OVERLAY_DEFAULT = \<lparr>op_ma = 200, op_confirm = 2, op_buffer = 0\<rparr>"

definition rule_signals :: "'k candle_scheme list \<Rightarrow> overlay_params \<Rightarrow> rat list" where
  "rule_signals bars p = overlay_signals bars (op_ma p) (op_confirm p) (op_buffer p)"

text \<open>\<^verbatim>\<open>run_variant\<close>: the signals of the whole history, cut to the window of the run.\<close>

definition run_variant :: "eval_env \<Rightarrow> candle list \<Rightarrow> overlay_params \<Rightarrow> bt_config \<Rightarrow> nat \<Rightarrow> nat \<Rightarrow> rat option \<Rightarrow> bt_result" where
  "run_variant env bars p cfg start stop initial =
     bt_run (ev_np env) (slice start stop bars) (map Some (slice start stop (rule_signals bars p))) (with_initial initial cfg)"

definition hold_run :: "eval_env \<Rightarrow> candle list \<Rightarrow> bt_config \<Rightarrow> exn + bt_result" where
  "hold_run env bars cfg = bindR (buy_hold bars 0) (\<lambda>sig. Inr (bt_run (ev_np env) bars (map Some sig) cfg))"

text \<open>The share of the gain of holding that was kept, or of its loss that was avoided.\<close>

definition capture_ratio :: "rat \<Rightarrow> rat \<Rightarrow> rat" where
  "capture_ratio strategy hold =
     (if 0 < hold then fdiv strategy hold
      else if hold < 0 then fadd 1 (fdiv (fsub strategy hold) \<bar>hold\<bar>)
      else if 0 \<le> strategy then 1 else 0)"

text \<open>The ratio of the drawdowns is \<open>None\<close> where the code has NaN.\<close>

record comparison =
  cp_metrics :: bt_metrics
  cp_capture :: rat
  cp_dd_ratio :: "rat option"
  cp_hold_return :: rat
  cp_hold_drawdown :: rat
  cp_hold_calmar :: rat

definition compare_hold :: "bt_metrics \<Rightarrow> bt_metrics \<Rightarrow> comparison" where
  "compare_hold m h = \<lparr>cp_metrics = m, cp_capture = capture_ratio (mt_total_return m) (mt_total_return h),
     cp_dd_ratio = (if mt_max_drawdown h < 0 then Some (fdiv (mt_max_drawdown m) (mt_max_drawdown h)) else None),
     cp_hold_return = mt_total_return h, cp_hold_drawdown = mt_max_drawdown h, cp_hold_calmar = mt_calmar h\<rparr>"

section \<open>The control of random exits\<close>

text \<open>Inside from the first candle, and out and in again at the given points.\<close>

fun toggles :: "rat \<Rightarrow> nat list \<Rightarrow> rat list \<Rightarrow> rat list" where
  "toggles st [] sig = sig"
| "toggles st (i # is) sig = toggles (- st) is (sig[i := - st])"

definition random_exposure :: "nat \<Rightarrow> nat list \<Rightarrow> rat list" where
  "random_exposure n points = toggles 1 points ((replicate n 0)[0 := 1])"

text \<open>The luck bar of the overlay; the quantiles are \<open>None\<close> where the code has infinity or NaN because no sample was comparable.\<close>

record overlay_luck =
  ol_calmar_p95 :: "rat option"
  ol_calmar_median :: "rat option"
  ol_return_p95 :: "rat option"
  ol_dd_median :: "rat option"
  ol_samples :: nat

definition comparable :: "rat \<Rightarrow> bt_metrics \<Rightarrow> bool" where
  "comparable exposure m \<longleftrightarrow> \<bar>fsub (mt_exposure m) exposure\<bar> \<le> 1 / 4"

definition random_exposure_control :: "eval_env \<Rightarrow> (nat \<Rightarrow> nat list \<Rightarrow> nat \<Rightarrow> nat list) \<Rightarrow> candle list \<Rightarrow> bt_config \<Rightarrow> nat \<Rightarrow> rat \<Rightarrow> nat \<Rightarrow> nat \<Rightarrow> exn + overlay_luck" where
  "random_exposure_control env draw bars cfg start exposure switches sims =
     (let sub = drop start bars; n = length sub in
      if n < 2 \<and> 0 < sims then Inl (ValueError ''negative dimensions are not allowed'')
      else let runs = map (\<lambda>i. let points = sort (draw i [1..<n - 1] (min (max switches 2) (n - 2))) in
                 br_metrics (bt_run (ev_np env) sub (map Some (random_exposure n points)) cfg)) [0..<sims];
               kept = filter (comparable exposure) runs; stat = (\<lambda>f q. if kept = [] then None else Some (f (map q kept)))
           in Inr \<lparr>ol_calmar_p95 = stat (\<lambda>xs. ev_percentile env xs 95) mt_calmar, ol_calmar_median = stat (ev_median env) mt_calmar,
                ol_return_p95 = stat (\<lambda>xs. ev_percentile env xs 95) mt_total_return, ol_dd_median = stat (ev_median env) mt_max_drawdown,
                ol_samples = length kept\<rparr>)"

section \<open>Selection and walk-forward\<close>

definition overlay_key :: "bt_metrics \<Rightarrow> (rat \<times> rat) option" where
  "overlay_key m = (if mt_trades m < 1 then None else Some (mt_calmar m, mt_total_return m))"

definition select_overlay :: "eval_env \<Rightarrow> candle list \<Rightarrow> bt_config \<Rightarrow> nat \<Rightarrow> nat \<Rightarrow> overlay_params" where
  "select_overlay env bars cfg start stop =
     (case pick_best (\<lambda>p. overlay_key (br_metrics (run_variant env bars p cfg start stop None))) OVERLAY_GRID None of
        None \<Rightarrow> OVERLAY_DEFAULT | Some (p, k) \<Rightarrow> p)"

record overlay_fold =
  of_month :: string
  of_params :: overlay_params
  of_return :: rat
  of_hold_return :: rat
  of_trades :: int

record overlay_state =
  os_folds :: "overlay_fold list"
  os_equity :: rat
  os_hold_equity :: rat

definition overlay_month :: "eval_env \<Rightarrow> candle list \<Rightarrow> bt_config \<Rightarrow> nat \<Rightarrow> (string \<times> nat \<times> nat) list \<Rightarrow> nat \<Rightarrow> overlay_state \<Rightarrow> exn + overlay_state" where
  "overlay_month env bars cfg warm months k s =
     (let (name, te_first, te_end) = months ! k; te_start = max te_first warm; tr_end = snd (snd (months ! (k - 1))) in
      if tr_end < warm + 30 \<or> te_end < te_start + 2 then Inr s
      else let p = select_overlay env bars cfg warm tr_end; r = br_metrics (run_variant env bars p cfg te_start te_end (Some (os_equity s))) in
        bindR (hold_run env (slice te_start te_end bars) (cfg\<lparr>bc_initial := os_hold_equity s\<rparr>)) (\<lambda>h. Inr
          \<lparr>os_folds = os_folds s @ [\<lparr>of_month = name, of_params = p, of_return = mt_total_return r, of_hold_return = mt_total_return (br_metrics h), of_trades = mt_trades r\<rparr>],
           os_equity = mt_final_equity r, os_hold_equity = mt_final_equity (br_metrics h)\<rparr>))"

fun overlay_months :: "eval_env \<Rightarrow> candle list \<Rightarrow> bt_config \<Rightarrow> nat \<Rightarrow> (string \<times> nat \<times> nat) list \<Rightarrow> nat list \<Rightarrow> overlay_state \<Rightarrow> exn + overlay_state" where
  "overlay_months env bars cfg warm months [] s = Inr s"
| "overlay_months env bars cfg warm months (k # ks) s = bindR (overlay_month env bars cfg warm months k s) (overlay_months env bars cfg warm months ks)"

definition overlay_walk_forward :: "eval_env \<Rightarrow> candle list \<Rightarrow> bt_config \<Rightarrow> nat \<Rightarrow> exn + overlay_state" where
  "overlay_walk_forward env bars cfg warm = (let months = month_bounds bars in
     overlay_months env bars cfg warm months [6..<length months] \<lparr>os_folds = [], os_equity = 1000, os_hold_equity = 1000\<rparr>)"

section \<open>The evaluation of the overlay\<close>

record variant =
  va_timeframe :: string
  va_chosen :: overlay_params
  va_return :: rat
  va_hold_return :: rat
  va_capture :: rat
  va_months :: nat
  va_trades :: int
  va_sharpe :: rat
  va_in_sample :: comparison
  va_stressed :: rat
  va_folds :: "overlay_fold list"
  va_oos_start :: nat

definition overlay_warm :: nat where "overlay_warm = 205"

definition monthly_sharpe :: "eval_env \<Rightarrow> rat list \<Rightarrow> rat" where
  "monthly_sharpe env rets = (if 1 < length rets \<and> np_std (ev_np env) rets \<noteq> 0
     then fmul (fdiv (np_mean (ev_np env) rets) (np_std (ev_np env) rets)) (np_sqrt (ev_np env) 12) else 0)"

definition overlay_compare :: "eval_env \<Rightarrow> candle list \<Rightarrow> overlay_params \<Rightarrow> bt_config \<Rightarrow> exn + comparison" where
  "overlay_compare env dev p cfg = bindR (hold_run env (drop overlay_warm dev) cfg) (\<lambda>h. Inr
     (compare_hold (br_metrics (run_variant env dev p cfg overlay_warm (length dev) None)) (br_metrics h)))"

text \<open>The development candles of a time frame with its configuration.\<close>

definition overlay_data :: "(string \<Rightarrow> int) \<Rightarrow> kline list \<Rightarrow> string \<Rightarrow> candle list \<times> bt_config" where
  "overlay_data width bars tf = (let (df_all, cfg) = prepare width bars tf in (plain (fst (split_holdout df_all HOLDOUT_MONTHS)), all_in cfg))"

definition overlay_variant :: "eval_env \<Rightarrow> (string \<Rightarrow> int) \<Rightarrow> kline list \<Rightarrow> string \<Rightarrow> exn + variant option" where
  "overlay_variant env width bars tf = (let (dev, cfg) = overlay_data width bars tf in
     bindR (overlay_walk_forward env dev cfg overlay_warm) (\<lambda>w. if os_folds w = [] then Inr None
       else let chosen = select_overlay env dev cfg overlay_warm (length dev); ret = fsub (fdiv (os_equity w) 1000) 1; hold = fsub (fdiv (os_hold_equity w) 1000) 1 in
         bindR (overlay_compare env dev chosen cfg) (\<lambda>full. Inr (Some
           \<lparr>va_timeframe = tf, va_chosen = chosen, va_return = ret, va_hold_return = hold, va_capture = capture_ratio ret hold,
            va_months = length (os_folds w), va_trades = sum_list (map of_trades (os_folds w)), va_sharpe = monthly_sharpe env (map of_return (os_folds w)),
            va_in_sample = full, va_stressed = mt_total_return (br_metrics (run_variant env dev chosen (all_in STRESS) overlay_warm (length dev) None)),
            va_folds = os_folds w, va_oos_start = fst (snd (month_bounds dev ! 6))\<rparr>))))"

text \<open>A comparison with NaN or infinity fails.\<close>

definition overlay_gates :: "variant \<Rightarrow> overlay_luck \<Rightarrow> (string \<times> bool) list" where
  "overlay_gates b k = (let ins = va_in_sample b; calmar = mt_calmar (cp_metrics ins) in
     [(''keeps_enough_upside'', flt_round (7/10) \<le> cp_capture ins), (''cuts_drawdown'', ge (Some (flt_round (6/10))) (cp_dd_ratio ins)),
      (''better_calmar_than_holding'', cp_hold_calmar ins < calmar), (''oos_capture_holds_up'', flt_round (7/10) \<le> va_capture b),
      (''exit_timing_beats_random'', gt (Some calmar) (ol_calmar_p95 k)), (''positive_under_2x_costs'', 0 < va_stressed b)])"

text \<open>The same rule on another asset, \<open>None\<close> when it has no data file.\<close>

definition overlay_cross :: "eval_env \<Rightarrow> (string \<Rightarrow> int) \<Rightarrow> variant \<Rightarrow> string \<times> kline list option \<Rightarrow> exn + string \<times> comparison option" where
  "overlay_cross env width b other = (case snd other of None \<Rightarrow> Inr (fst other, None)
     | Some bars \<Rightarrow> let (dev, cfg) = overlay_data width bars (va_timeframe b) in
         bindR (overlay_compare env dev (va_chosen b) cfg) (\<lambda>c. Inr (fst other, Some c)))"

record overlay_result =
  or_variants :: "variant list"
  or_best :: "variant option"
  or_luck :: "overlay_luck option"
  or_gates :: "(string \<times> bool) list option"
  or_cross :: "(string \<times> comparison option) list"
  or_verdict :: string

definition best_variant :: "variant list \<Rightarrow> variant option" where
  "best_variant vs = (case vs of [] \<Rightarrow> None | v # ws \<Rightarrow> Some (arg_max_first (\<lambda>v. mt_calmar (cp_metrics (va_in_sample v))) v ws))"

text \<open>Without a best variant the other assets are only looked at up to the first that has data.\<close>

definition overlay_run :: "eval_env \<Rightarrow> (nat \<Rightarrow> nat list \<Rightarrow> nat \<Rightarrow> nat list) \<Rightarrow> (string \<Rightarrow> int) \<Rightarrow> kline list \<Rightarrow> string list \<Rightarrow> (string \<times> kline list option) list \<Rightarrow> exn + overlay_result" where
  "overlay_run env draw width bars timeframes others =
     bindR (mapR (overlay_variant env width bars) timeframes) (\<lambda>vs. let variants = map the (filter (\<lambda>v. v \<noteq> None) vs) in
       case best_variant variants of
         None \<Rightarrow> Inr \<lparr>or_variants = variants, or_best = None, or_luck = None, or_gates = None,
           or_cross = map (\<lambda>c. (fst c, None)) (takeWhile (\<lambda>c. snd c = None) others), or_verdict = ''NO-GO''\<rparr>
       | Some b \<Rightarrow> let (dev, cfg) = overlay_data width bars (va_timeframe b); m = cp_metrics (va_in_sample b) in
           bindR (random_exposure_control env draw dev cfg overlay_warm (mt_exposure m) (nat (max (mt_trades m) 2)) 200) (\<lambda>k.
           bindR (mapR (overlay_cross env width b) others) (\<lambda>cross. let gates = overlay_gates b k in
             Inr \<lparr>or_variants = variants, or_best = Some b, or_luck = Some k, or_gates = Some gates, or_cross = cross, or_verdict = gate_verdict gates\<rparr>)))"

section \<open>An exposure that began earlier is lost\<close>

text \<open>The state of the rule before a candle: 1 is inside the market.\<close>

definition exposure_before :: "'k candle_scheme list \<Rightarrow> overlay_params \<Rightarrow> nat \<Rightarrow> int" where
  "exposure_before bars p k = fold (\<lambda>r st. fst (exposure_step st r)) (take k (exposure_rows bars (op_ma p) (op_confirm p) (op_buffer p))) 0"

lemma drop_scan: "drop k (scan f s xs) = scan f (fold (\<lambda>x st. fst (f st x)) (take k xs) s) (drop k xs)"
proof (induction xs arbitrary: s k)
  case (Cons x xs)
  then show ?case by (cases k) simp_all
qed simp

lemma exposed_silent: "\<forall>x\<in>set (scan exposure_step 1 rs). 0 \<le> x \<Longrightarrow> \<forall>x\<in>set (scan exposure_step 1 rs). x = 0"
  by (induction rs) (auto simp: exposure_step_def split: if_splits)

lemma take_scan: "take n (scan f s xs) = scan f s (take n xs)"
  by (simp add: causal_take [OF causal_scan])

lemma exposed_window_silent:
  assumes "exposure_before bars p start = 1" "\<forall>x\<in>set (slice start stop (rule_signals bars p)). 0 \<le> x"
  shows "\<forall>x\<in>set (slice start stop (rule_signals bars p)). x = 0"
proof -
  have "slice start stop (rule_signals bars p) = scan exposure_step 1 (slice start stop (exposure_rows bars (op_ma p) (op_confirm p) (op_buffer p)))"
    using assms(1) by (simp add: slice_def rule_signals_def overlay_signals_def drop_scan take_scan exposure_before_def)
  then show ?thesis using exposed_silent assms(2) by simp
qed

lemma signal_at_silent: "\<forall>x\<in>set sig. x = 0 \<Longrightarrow> signal_at (map Some sig) i = 0"
  by (simp add: signal_at_def)

lemma idle_bar:
  assumes "\<forall>x\<in>set sig. x = 0" "bs_qty s = 0" "bs_trades s = []"
  shows "let s' = bt_bar cfg (map Some sig) i b s in bs_qty s' = 0 \<and> bs_trades s' = [] \<and> bs_cash s' = bs_cash s \<and> bs_equity s' = bs_equity s @ [flt_round (bs_cash s)]"
proof -
  have "act_at_open cfg (map Some sig) i b s = s" if "bs_qty s = 0" for s :: bt_state
    using that by (simp add: act_at_open_def signal_at_silent [OF assms(1)])
  moreover have "check_stop cfg i b s = s" if "bs_qty s = 0" for s :: bt_state
    using that by (simp add: check_stop_def split: option.split)
  ultimately show ?thesis using assms(2,3)
    by (simp add: bt_bar_def mark_to_market_def Let_def new_bar_day_def fadd_def fmul_def flt.R_zero)
qed

lemma idle_loop:
  assumes "\<forall>x\<in>set sig. x = 0"
  shows "bs_qty s = 0 \<Longrightarrow> bs_trades s = [] \<Longrightarrow> let s' = bt_loop cfg (map Some sig) i bs s in
    bs_qty s' = 0 \<and> bs_trades s' = [] \<and> bs_equity s' = bs_equity s @ replicate (length bs) (flt_round (bs_cash s))"
proof (induction bs arbitrary: i s)
  case (Cons b bs)
  then show ?case using idle_bar [OF assms Cons.prems, of cfg i b] by (simp add: Let_def)
qed simp

lemma idle_run:
  assumes "\<forall>x\<in>set sig. x = 0"
  shows "br_trades (bt_run np bars (map Some sig) cfg) = []"
    "br_equity (bt_run np bars (map Some sig) cfg) = replicate (length bars) (flt_round (bc_initial cfg))"
  using idle_loop [OF assms, of "bt_init cfg" cfg 0 bars]
  by (simp_all add: bt_run_def bt_simulate_def bt_finish_def bt_init_def Let_def)

lemma flat_return:
  assumes "br_equity (bt_run np bars sig cfg) = replicate n x"
  shows "mt_total_return (br_metrics (bt_run np bars sig cfg)) = 0"
proof -
  have one: "flt_round 1 = 1" by code_simp
  show ?thesis using assms
    by (cases n) (auto simp: bt_run_def metrics_def empty_metrics_def Let_def fdiv_def fsub_def flt.R_zero one last_replicate simp del: replicate_Suc)
qed

text \<open>
  C37: a run loses an exposure that began before its window. If the rule is inside the market when the window of a run starts and gives no signal to leave during it, the run holds
  nothing for the whole window: it makes no trade, its equity stays at the (rounded) start and its return is zero, whatever the prices do. The windows of the walk-forward are single months.
\<close>

theorem exposure_lost:
  assumes "exposure_before bars p start = 1" "\<forall>x\<in>set (slice start stop (rule_signals bars p)). 0 \<le> x"
  shows "br_trades (run_variant env bars p cfg start stop initial) = [] \<and> mt_total_return (br_metrics (run_variant env bars p cfg start stop initial)) = 0
    \<and> br_equity (run_variant env bars p cfg start stop initial) = replicate (length (slice start stop bars)) (flt_round (bc_initial (with_initial initial cfg)))"
proof -
  note r = idle_run [OF exposed_window_silent [OF assms]]
  show ?thesis unfolding run_variant_def by (intro conjI r flat_return [OF r(2)])
qed

definition rising_bar :: "int \<Rightarrow> candle" where
  "rising_bar i = \<lparr>cd_time = i * 3600000000, cd_open = of_int (100 * (i + 1)), cd_high = of_int (100 * (i + 2)), cd_low = of_int (100 * (i + 1)),
     cd_close = of_int (100 * (i + 2)), cd_volume = 1\<rparr>"

definition rising :: "candle list" where "rising = map rising_bar [0..5]"

definition demo_rule :: overlay_params where "demo_rule = \<lparr>op_ma = 2, op_confirm = 1, op_buffer = 0\<rparr>"

lemma rising_rule: "exposure_before rising demo_rule 3 = 1" "rule_signals rising demo_rule = [0, 1, 0, 0, 0, 0]"
  by code_simp+

theorem exposure_lost_witness:
  "exposure_before rising demo_rule 3 = 1 \<and> map cd_close (slice 3 6 rising) = [500, 600, 700]
   \<and> (\<forall>env. br_trades (run_variant env rising demo_rule COSTS 3 6 None) = [] \<and> mt_total_return (br_metrics (run_variant env rising demo_rule COSTS 3 6 None)) = 0)"
proof (intro conjI allI)
  show "exposure_before rising demo_rule 3 = 1" by (rule rising_rule)
  show "map cd_close (slice 3 6 rising) = [500, 600, 700]" by code_simp
  fix env
  have w: "\<forall>x\<in>set (slice 3 6 (rule_signals rising demo_rule)). 0 \<le> x" by (simp add: rising_rule slice_def)
  show "br_trades (run_variant env rising demo_rule COSTS 3 6 None) = []"
    using exposure_lost [OF rising_rule(1) w] by blast
  show "mt_total_return (br_metrics (run_variant env rising demo_rule COSTS 3 6 None)) = 0"
    using exposure_lost [OF rising_rule(1) w] by blast
qed

section \<open>The capture ratio\<close>

lemma flt_one: "flt_round 1 = 1"
  by code_simp

text \<open>
  The capture ratio is at least 1 for a strategy that does at least as well as holding, whether holding gained, lost or did nothing, and at most 1 for one that does at
  most as well.
\<close>

theorem capture_bounds:
  "(hold \<le> strategy \<longrightarrow> 1 \<le> capture_ratio strategy hold) \<and> (strategy \<le> hold \<longrightarrow> capture_ratio strategy hold \<le> 1)"
proof -
  have pos: "1 \<le> fdiv strategy hold" if "0 < hold" "hold \<le> strategy"
    using that by (intro flt.R_lower [OF flt_one, of "strategy / hold", folded fdiv_def]) simp
  have pos': "fdiv strategy hold \<le> 1" if "0 < hold" "strategy \<le> hold"
    using that by (intro flt.R_upper [OF flt_one, of "strategy / hold", folded fdiv_def]) simp
  have add: "1 \<le> fadd 1 x" if "0 \<le> x" for x
    using that by (intro flt.R_lower [OF flt_one, of "1 + x", folded fadd_def]) simp
  have add': "fadd 1 x \<le> 1" if "x \<le> 0" for x
    using that by (intro flt.R_upper [OF flt_one, of "1 + x", folded fadd_def]) simp
  have gain: "0 \<le> fdiv (fsub strategy hold) \<bar>hold\<bar>" if "hold \<le> strategy"
    using that by (simp add: fdiv_def fsub_def flt.R_nonneg)
  have loss: "fdiv (fsub strategy hold) \<bar>hold\<bar> \<le> 0" if "strategy \<le> hold"
    using that by (simp add: fdiv_def fsub_def flt.R_nonpos divide_nonpos_nonneg)
  consider "0 < hold" | "hold < 0" | "hold = 0" by linarith
  then show ?thesis
  proof cases
    case 1
    then show ?thesis using pos pos' by (simp add: capture_ratio_def)
  next
    case 2
    then show ?thesis using add [OF gain] add' [OF loss] by (simp add: capture_ratio_def)
  qed (simp add: capture_ratio_def)
qed

section \<open>Later months never change earlier folds\<close>

lemma causal_rule: "take (length xs) (rule_signals (xs @ ys) p) = rule_signals xs p"
  unfolding rule_signals_def by (simp flip: causal_take [OF causal_overlay])

lemma run_variant_append:
  assumes "stop \<le> length xs"
  shows "run_variant env (xs @ ys) p cfg start stop initial = run_variant env xs p cfg start stop initial"
proof -
  have "slice start stop (rule_signals (xs @ ys) p) = slice start stop (rule_signals xs p)"
    using slice_take [OF assms, of start "rule_signals (xs @ ys) p"] by (simp add: causal_rule)
  then show ?thesis using assms by (simp add: run_variant_def slice_append)
qed

lemma select_overlay_append: "stop \<le> length xs \<Longrightarrow> select_overlay env (xs @ ys) cfg start stop = select_overlay env xs cfg start stop"
  by (simp add: select_overlay_def run_variant_append)

lemma overlay_month_append:
  assumes "k < length (month_bounds xs)" "month_bounds (xs @ ys) = month_bounds xs @ rest"
  shows "overlay_month env (xs @ ys) cfg warm (month_bounds (xs @ ys)) k s = overlay_month env xs cfg warm (month_bounds xs) k s"
proof -
  have b: "snd (snd (month_bounds xs ! k)) \<le> length xs" "snd (snd (month_bounds xs ! (k - 1))) \<le> length xs"
    using month_bounds_range [of k xs] month_bounds_range [of "k - 1" xs] assms(1) by auto
  show ?thesis
    using assms b by (auto simp: overlay_month_def nth_append select_overlay_append run_variant_append slice_append Let_def split: prod.splits)
qed

text \<open>A month never raises: its window is not empty.\<close>

lemma overlay_month_total:
  assumes "k < length (month_bounds bars)"
  shows "\<exists>s' fs. overlay_month env bars cfg warm (month_bounds bars) k s = Inr s' \<and> os_folds s' = os_folds s @ fs"
proof -
  obtain name a e where m: "month_bounds bars ! k = (name, a, e)" by (cases "month_bounds bars ! k")
  have e: "e \<le> length bars" using month_bounds_range [OF assms] m by simp
  have "overlay_month env bars cfg warm (month_bounds bars) k s = Inr s" if "snd (snd (month_bounds bars ! (k - 1))) < warm + 30 \<or> e < max a warm + 2"
    using that by (simp add: overlay_month_def m)
  moreover have "\<exists>s' fs. overlay_month env bars cfg warm (month_bounds bars) k s = Inr s' \<and> os_folds s' = os_folds s @ fs"
    if n: "\<not> (snd (snd (month_bounds bars ! (k - 1))) < warm + 30 \<or> e < max a warm + 2)"
  proof -
    have "slice (max a warm) e bars \<noteq> []" using n e by (auto simp: slice_def)
    then have "\<exists>h. hold_run env (slice (max a warm) e bars) (cfg\<lparr>bc_initial := os_hold_equity s\<rparr>) = Inr h"
      by (simp add: hold_run_def buy_hold_def)
    then obtain h where h: "hold_run env (slice (max a warm) e bars) (cfg\<lparr>bc_initial := os_hold_equity s\<rparr>) = Inr h" ..
    show ?thesis unfolding overlay_month_def m Let_def prod.case if_not_P [OF n] h bindR_simps by simp
  qed
  ultimately show ?thesis by blast
qed

lemma overlay_months_total:
  "\<forall>k\<in>set ks. k < length (month_bounds bars) \<Longrightarrow> \<exists>s' fs. overlay_months env bars cfg warm (month_bounds bars) ks s = Inr s' \<and> os_folds s' = os_folds s @ fs"
proof (induction ks arbitrary: s)
  case (Cons k ks)
  obtain s1 f where s1: "overlay_month env bars cfg warm (month_bounds bars) k s = Inr s1" "os_folds s1 = os_folds s @ f"
    using overlay_month_total [of k bars] Cons.prems by (meson list.set_intros(1))
  obtain s2 g where "overlay_months env bars cfg warm (month_bounds bars) ks s1 = Inr s2" "os_folds s2 = os_folds s1 @ g"
    using Cons.IH Cons.prems by (meson list.set_intros(2))
  then show ?case using s1 by simp
qed simp

lemma overlay_months_snoc:
  "overlay_months env bars cfg warm months (ks @ ls) s = bindR (overlay_months env bars cfg warm months ks s) (overlay_months env bars cfg warm months ls)"
  by (induction ks arbitrary: s) (auto simp: bindR_def split: sum.split)

lemma overlay_months_cong:
  "\<forall>k\<in>set ks. \<forall>s. overlay_month env bars cfg warm months k s = overlay_month env bars' cfg warm months' k s \<Longrightarrow>
    overlay_months env bars cfg warm months ks s = overlay_months env bars' cfg warm months' ks s"
  by (induction ks arbitrary: s) (auto simp: bindR_def split: sum.split)

text \<open>
  The walk-forward of the overlay returns and never looks into later months. When a history is continued by further months, the folds of the months that were already there stay as they were.
\<close>

theorem overlay_walk_causal:
  assumes "xs \<noteq> []" "ys \<noteq> []" "month_of (last xs) \<noteq> month_of (hd ys)"
  shows "\<exists>w w' later. overlay_walk_forward env xs cfg warm = Inr w \<and> overlay_walk_forward env (xs @ ys) cfg warm = Inr w' \<and> os_folds w' = os_folds w @ later"
proof -
  obtain rest where m: "month_bounds (xs @ ys) = month_bounds xs @ rest" using month_bounds_append [OF assms] by blast
  let ?n = "length (month_bounds xs)" and ?s0 = "\<lparr>os_folds = [], os_equity = 1000, os_hold_equity = 1000\<rparr>"
  let ?go = "overlay_months env (xs @ ys) cfg warm (month_bounds (xs @ ys))"
  obtain ks where ks: "[6..<length (month_bounds (xs @ ys))] = [6..<?n] @ ks" "\<forall>k\<in>set ks. k < length (month_bounds (xs @ ys))"
  proof (cases "6 \<le> ?n")
    case True
    then show ?thesis using that [of "[?n..<?n + length rest]"] upt_add_eq_append [of 6 ?n "length rest"] m by simp
  qed (use that [of "[6..<length (month_bounds (xs @ ys))]"] in simp)
  have same: "?go [6..<?n] ?s0 = overlay_walk_forward env xs cfg warm"
    unfolding overlay_walk_forward_def Let_def by (rule overlay_months_cong) (use overlay_month_append [OF _ m] in auto)
  obtain w where w: "overlay_walk_forward env xs cfg warm = Inr w"
    unfolding overlay_walk_forward_def Let_def using overlay_months_total [of "[6..<?n]" xs] by (metis atLeastLessThan_iff set_upt)
  obtain w' later where "?go ks w = Inr w'" "os_folds w' = os_folds w @ later"
    using overlay_months_total [OF ks(2)] by blast
  then have "overlay_walk_forward env (xs @ ys) cfg warm = Inr w'" "os_folds w' = os_folds w @ later"
    using same w by (simp_all add: overlay_walk_forward_def Let_def ks(1) overlay_months_snoc)
  then show ?thesis using w by blast
qed

section \<open>Horizons on daily candles\<close>

text \<open>
  The horizons of twelve and of twenty-four hours are the same test on daily candles: both round to one candle, and every result but the name of the variant agrees. The sweep counts them as different variants.
\<close>

theorem daily_horizons_coincide:
  assumes "width ''1d'' = 24 * hour"
  shows "horizon_bars (width ''1d'') 12 = horizon_bars (width ''1d'') 24
    \<and> map_sum id (\<lambda>(rs, aucs). (map (sr_variant_update (\<lambda>_. [])) rs, aucs)) (run_ai env lr features width bars cfg ''1d'' warm scores 12)
      = map_sum id (\<lambda>(rs, aucs). (map (sr_variant_update (\<lambda>_. [])) rs, aucs)) (run_ai env lr features width bars cfg ''1d'' warm scores 24)"
proof -
  have h: "horizon_bars (width ''1d'') 12 = 1" "horizon_bars (width ''1d'') 24 = 1" using assms by (simp_all add: horizon_bars_def hour_def)
  show ?thesis unfolding run_ai_def Let_def h by (auto simp: STOPS_def ai_row_def bindR_def split: prod.splits)
qed

text \<open>The verdict of the sweep names a row of the table with the best Sharpe ratio, and only when that beats both luck bars.\<close>

lemma sweep_candidate_best:
  assumes "sweep_run env lr features pick width bars timeframes horizons = Inr r" "sw_verdict r \<noteq> ''NO-GO''"
  shows "\<exists>b k. sw_best r = Some b \<and> sw_luck r = Some k \<and> beats_luck b k \<and> b \<in> set (sw_rows r) \<and> (\<forall>x\<in>set (sw_rows r). sr_sharpe x \<le> sr_sharpe b)"
proof -
  have mem: "arg_max_first f x xs \<in> set (x # xs)" for f and x :: sweep_row and xs by (induction f x xs rule: arg_max_first.induct) auto
  obtain rss where rs: "mapR (sweep_timeframe env lr features width bars horizons) timeframes = Inr rss"
    using assms(1) by (auto simp: sweep_run_def bindR_def split: sum.splits)
  obtain b where b: "best_row (concat rss) = Some b"
    using assms by (cases "best_row (concat rss)") (auto simp: sweep_run_def rs Let_def)
  have best: "b \<in> set (concat rss) \<and> (\<forall>x\<in>set (concat rss). sr_sharpe x \<le> sr_sharpe b)"
  proof (cases "concat rss")
    case (Cons a as)
    then have "b = arg_max_first sr_sharpe a as" using b by (simp add: best_row_def)
    then show ?thesis using mem [of sr_sharpe a as] arg_max_first_max(1) [of sr_sharpe a as] arg_max_first_max(2) [of _ as sr_sharpe a] Cons by auto
  next
    case Nil
    then show ?thesis using b unfolding Nil by (simp add: best_row_def)
  qed
  show ?thesis using assms best
    by (auto simp: sweep_run_def rs b Let_def bindR_def split: sum.splits prod.splits if_splits)
qed

end
