(* ===== verification/Features.thy ===== *)
theory Features
  imports Market_Archive
begin

text \<open>
  The feature vector of the model, \<^verbatim>\<open>engine/strategy/ml_features.py\<close>, shared by research and the live engine. A value is \<open>None\<close> where numpy has
  NaN or an infinity: a quotient by zero, a logarithm of a number that is not positive, and what is computed from them. Logarithm, sine, cosine, mean and
  standard deviation (one degree of freedom less) are fields of a record; the other operations are float operations on the values they get. It is
  proved that the vector has the columns the model was trained on, in their order, and no missing value once the window is long enough and its closes are positive.
\<close>

section \<open>Windows and columns\<close>

record feature_env =
  fm_log :: "rat \<Rightarrow> rat"
  fm_sin :: "rat \<Rightarrow> rat"
  fm_cos :: "rat \<Rightarrow> rat"
  fm_pi :: rat
  fm_mean :: "rat list \<Rightarrow> rat"
  fm_std :: "rat list \<Rightarrow> rat"

definition FLOW :: "string list" where "FLOW = [''quote_volume'', ''trades'', ''taker_base'']"

definition missing_order_flow :: "string list \<Rightarrow> exn" where
  "missing_order_flow missing = Other ''MissingOrderFlow''"

text \<open>\<^verbatim>\<open>xs[-n:]\<close> for a positive \<open>n\<close>, and the standard deviation, which is NaN for fewer than two values.\<close>

definition tail_of :: "nat \<Rightarrow> 'a list \<Rightarrow> 'a list" where
  "tail_of n xs = drop (length xs - n) xs"

definition std_of :: "feature_env \<Rightarrow> rat list \<Rightarrow> rat option" where
  "std_of env xs = (if 2 \<le> length xs then Some (fm_std env xs) else None)"

text \<open>\<^verbatim>\<open>_z\<close>: the last value in standard deviations from the mean of its window, zero when there is no deviation.\<close>

definition z_score :: "feature_env \<Rightarrow> rat list \<Rightarrow> nat \<Rightarrow> rat" where
  "z_score env xs n = (case std_of env (tail_of n xs) of None \<Rightarrow> 0
     | Some sd \<Rightarrow> if 0 < sd then fdiv (fsub (last xs) (fm_mean env (tail_of n xs))) sd else 0)"

text \<open>A quotient of floats, an infinity or NaN when the divisor is zero; the return of one value over another.\<close>

definition quot :: "rat \<Rightarrow> rat \<Rightarrow> rat option" where
  "quot x y = (if y = 0 then None else Some (fdiv x y))"

definition growth :: "rat \<Rightarrow> rat \<Rightarrow> rat option" where
  "growth x y = map_option (\<lambda>q. fsub q 1) (quot x y)"

definition ret_over :: "rat list \<Rightarrow> nat \<Rightarrow> rat option" where
  "ret_over c k = (if k < length c then growth (last c) (c ! (length c - 1 - k)) else None)"

text \<open>\<^verbatim>\<open>np.log\<close> is minus infinity or NaN unless its argument is positive; a deviation is NaN when a value of its window is missing.\<close>

definition log_of :: "feature_env \<Rightarrow> rat \<Rightarrow> rat option" where
  "log_of env x = (if 0 < x then Some (fm_log env x) else None)"

definition log_returns :: "feature_env \<Rightarrow> rat list \<Rightarrow> rat option list" where
  "log_returns env c = map2 (\<lambda>p x. case (log_of env x, log_of env p) of (Some a, Some b) \<Rightarrow> Some (fsub a b) | _ \<Rightarrow> None) (butlast c) (tl c)"

definition volatility :: "feature_env \<Rightarrow> nat \<Rightarrow> rat option list \<Rightarrow> rat option" where
  "volatility env n rets = (if None \<in> set (tail_of n rets) then None else std_of env (map the (tail_of n rets)))"

definition true_ranges :: "'k candle_scheme list \<Rightarrow> rat list" where
  "true_ranges bars = map2 (\<lambda>b p. max (max (fsub (cd_high b) (cd_low b)) \<bar>fsub (cd_high b) p\<bar>) \<bar>fsub (cd_low b) p\<bar>)
     bars (cd_close (hd bars) # butlast (map cd_close bars))"

definition ema_stack :: "indicators \<Rightarrow> rat" where
  "ema_stack r = (if in_ema_mid r < in_ema_fast r \<and> in_ema_slow r < in_ema_mid r then 1
     else if in_ema_fast r < in_ema_mid r \<and> in_ema_mid r < in_ema_slow r then -1 else 0)"

text \<open>The position of the close between the Bollinger bands, one half while they are missing or have no width.\<close>

definition pct_b :: "rat option \<Rightarrow> rat option \<Rightarrow> rat \<Rightarrow> rat" where
  "pct_b hi lo close = (case (hi, lo) of
     (Some u, Some l) \<Rightarrow> if 0 < fsub u l then fdiv (fsub close l) (fsub u l) else 1 / 2 | _ \<Rightarrow> 1 / 2)"

section \<open>Order flow\<close>

definition taker_ratios :: "kline list \<Rightarrow> rat list" where
  "taker_ratios bars = map (\<lambda>b. if 0 < cd_volume b then fdiv (kl_taker_base b) (cd_volume b) else 1 / 2) bars"

definition trade_sizes :: "kline list \<Rightarrow> rat list" where
  "trade_sizes bars = map (\<lambda>b. if 0 < kl_trades b then fdiv (kl_quote_volume b) (kl_trades b) else 0) bars"

definition flow_features :: "feature_env \<Rightarrow> kline list \<Rightarrow> (string \<times> rat option) list" where
  "flow_features env bars = (let ratio = taker_ratios bars; m24 = fm_mean env (tail_of 24 ratio) in
     [(''taker_buy_ratio'', Some (last ratio)), (''taker_ratio_24'', Some m24), (''taker_ratio_delta'', Some (fsub m24 (fm_mean env (tail_of 72 ratio)))),
      (''trades_z'', Some (z_score env (map kl_trades bars) 72)), (''avg_trade_size_z'', Some (z_score env (trade_sizes bars) 72)),
      (''quote_vol_z'', Some (z_score env (map kl_quote_volume bars) 72))])"

section \<open>The feature vector\<close>

definition hour_of :: "time \<Rightarrow> int" where "hour_of t = t div 3600000000 mod 24"

text \<open>Monday is 0; the epoch was a Thursday.\<close>

definition day_of_week :: "time \<Rightarrow> int" where "day_of_week t = (t div 86400000000 + 3) mod 7"

definition angle :: "feature_env \<Rightarrow> int \<Rightarrow> int \<Rightarrow> rat" where
  "angle env k n = fdiv (fmul (fmul 2 (fm_pi env)) (of_int k)) (of_int n)"

definition price_features :: "feature_env \<Rightarrow> config \<Rightarrow> kline list \<Rightarrow> (string \<times> rat option) list" where
  "price_features env cfg bars =
     (let frame = add_all_indicators (fm_std env) cfg bars; r = last_row frame; c = map cd_close bars; close = last c; rets = log_returns env c;
          b = last bars; t = cd_time b; ha = angle env (hour_of t) 24; dow = angle env (day_of_week t) 7;
          dist = growth close
      in [(''ret_1'', ret_over c 1), (''ret_3'', ret_over c 3), (''ret_6'', ret_over c 6), (''ret_12'', ret_over c 12), (''ret_24'', ret_over c 24),
          (''ret_72'', ret_over c 72), (''vol_24'', volatility env 24 rets), (''vol_72'', volatility env 72 rets),
          (''rsi'', Some (fdiv (in_rsi r) 100)), (''macd_hist_pct'', quot (in_macd_hist r) close),
          (''dist_ema_fast'', dist (in_ema_fast r)), (''dist_ema_mid'', dist (in_ema_mid r)), (''dist_ema_slow'', dist (in_ema_slow r)),
          (''ema_stack'', Some (ema_stack r)), (''bb_pctb'', Some (pct_b (last (if_bb_upper frame)) (last (if_bb_lower frame)) close)),
          (''atr_pct'', quot (fm_mean env (tail_of 14 (true_ranges bars))) close), (''range_pct'', quot (fsub (cd_high b) (cd_low b)) close),
          (''volume_z'', Some (z_score env (map cd_volume bars) 72)),
          (''hour_sin'', Some (fm_sin env ha)), (''hour_cos'', Some (fm_cos env ha)), (''dow_sin'', Some (fm_sin env dow)), (''dow_cos'', Some (fm_cos env dow)),
          (''v1_score'', Some (sg_score (analyze cfg r ''BTC/USDT'' None None)))])"

text \<open>Candles without the order-flow columns are refused; an empty window is an \<open>IndexError\<close>.\<close>

definition window_features :: "feature_env \<Rightarrow> config \<Rightarrow> string list \<Rightarrow> kline list \<Rightarrow> exn + (string \<times> rat option) list" where
  "window_features env cfg columns bars =
     (let missing = filter (\<lambda>c. c \<notin> set columns) FLOW in
      if missing \<noteq> [] then Inl (missing_order_flow missing)
      else if bars = [] then Inl (Other ''IndexError'')
      else Inr (price_features env cfg bars @ flow_features env bars))"

section \<open>The vector fits the model\<close>

lemma feature_names: "map fst (price_features env cfg bars @ flow_features env bars) = FEATURES"
  by (simp add: price_features_def flow_features_def FEATURES_def Let_def)

lemma length_tail_of [simp]: "length (tail_of n xs) = min n (length xs)"
  by (simp add: tail_of_def)

lemma length_log_returns [simp]: "length (log_returns env c) = length c - 1"
  by (simp add: log_returns_def)

lemma log_returns_present:
  assumes "\<forall>x\<in>set c. 0 < x"
  shows "None \<notin> set (tail_of n (log_returns env c))"
proof -
  have "None \<notin> set (map2 (\<lambda>p x. case (log_of env x, log_of env p) of (Some a, Some b) \<Rightarrow> Some (fsub a b) | _ \<Rightarrow> None) xs ys)"
    if "\<forall>x\<in>set xs. 0 < x" "\<forall>y\<in>set ys. 0 < y" for xs ys
    using that by (induction xs ys rule: list_induct2') (simp_all add: log_of_def)
  moreover have "\<forall>x\<in>set (butlast c). 0 < x" "\<forall>x\<in>set (tl c). 0 < x" using assms by (cases c; auto dest: in_set_butlastD)+
  ultimately show ?thesis unfolding log_returns_def tail_of_def by (meson in_set_dropD)
qed

definition periods_ok :: "config \<Rightarrow> bool" where
  "periods_ok cfg \<longleftrightarrow> 1 \<le> EMA_FAST cfg \<and> 1 \<le> EMA_MID cfg \<and> 1 \<le> EMA_SLOW cfg \<and> 1 \<le> RSI_PERIOD cfg"

lemma emas_positive:
  fixes bars :: "'k candle_scheme list" and std :: "rat list \<Rightarrow> rat"
  assumes "bars \<noteq> []" "\<forall>b\<in>set bars. 0 < cd_close b" "periods_ok cfg"
  defines "r \<equiv> last_row (add_all_indicators std cfg bars)"
  shows "in_ema_fast r \<noteq> 0" "in_ema_mid r \<noteq> 0" "in_ema_slow r \<noteq> 0"
proof -
  let ?cs = "cd_close ` set bars"
  have "\<forall>b\<in>set bars. Min ?cs \<le> cd_close b \<and> cd_close b \<le> Max ?cs" by simp
  then have "{in_ema_fast r, in_ema_mid r, in_ema_slow r} \<subseteq> {Min ?cs..Max ?cs}"
    using row_well_formed [OF assms(1), of cfg "Min ?cs" "Max ?cs" std] assms(3) by (simp add: periods_ok_def r_def Let_def)
  moreover have "0 < Min ?cs" using assms(1,2) by (subst Min_gr_iff) auto
  ultimately show "in_ema_fast r \<noteq> 0" "in_ema_mid r \<noteq> 0" "in_ema_slow r \<noteq> 0" by auto
qed

lemma price_features_present:
  assumes "73 \<le> length bars" "\<forall>b\<in>set bars. 0 < cd_close b" "periods_ok cfg"
  shows "list_all (\<lambda>f. snd f \<noteq> None) (price_features env cfg bars)"
proof -
  let ?c = "map cd_close bars"
  have ne: "bars \<noteq> []" using assms(1) by auto
  have pos: "\<forall>x\<in>set ?c. 0 < x" using assms(2) by simp
  have g: "growth x y \<noteq> None" if "y \<noteq> 0" for x y using that by (simp add: growth_def quot_def)
  have ret: "ret_over ?c k \<noteq> None" if "k \<le> 72" for k
  proof -
    have "length ?c - 1 - k < length ?c" using assms(1) by simp
    then have "0 < ?c ! (length ?c - 1 - k)" using pos nth_mem by blast
    then have "growth (last ?c) (?c ! (length ?c - 1 - k)) \<noteq> None" by (intro g) simp
    then show ?thesis using that assms(1) by (simp add: ret_over_def)
  qed
  have vol: "volatility env n (log_returns env ?c) \<noteq> None" if "2 \<le> n" for n
    using that assms(1) log_returns_present [OF pos, of n env] by (simp add: volatility_def std_of_def)
  have "0 < last ?c" using pos ne by (meson last_in_set map_is_Nil_conv)
  then have q: "quot x (last ?c) \<noteq> None" for x by (simp add: quot_def)
  show ?thesis
    unfolding price_features_def Let_def list.pred_inject snd_conv
    by (intro conjI ret vol q g emas_positive [OF ne assms(2,3)]) simp_all
qed

lemma taker_ratio_bounds:
  assumes "\<forall>b\<in>set bars. 0 \<le> kl_taker_base b \<and> kl_taker_base b \<le> cd_volume b" "x \<in> set (taker_ratios bars)"
  shows "0 \<le> x \<and> x \<le> 1"
proof -
  have one: "flt_round 1 = 1" by code_simp
  have "0 \<le> fdiv t v \<and> fdiv t v \<le> 1" if "0 \<le> t" "t \<le> v" "0 < v" for t v
    using that flt.R_upper [OF one, of "t / v"] by (simp add: fdiv_nonneg) (simp add: fdiv_def)
  then show ?thesis using assms by (auto simp: taker_ratios_def)
qed

text \<open>
  C38: the feature vector has the type the model expects. For candles with the order-flow columns it has the features of \<^verbatim>\<open>FEATURES\<close>, each once and in this order; from 73 candles on, when every close of the
  window is positive and the periods of the averages are at least one, no value is missing (NaN or infinite); after a last close of zero the three features relative to it are missing; and the share of aggressive buys lies between 0 and 1 when the
  exchange reports no more aggressive buys than volume.
\<close>

theorem feature_vector_typed:
  assumes "set FLOW \<subseteq> set columns" "bars \<noteq> []"
  shows "\<exists>fs. window_features env cfg columns bars = Inr fs \<and> map fst fs = FEATURES
    \<and> (73 \<le> length bars \<and> (\<forall>b\<in>set bars. 0 < cd_close b) \<and> periods_ok cfg \<longrightarrow> list_all (\<lambda>f. snd f \<noteq> None) fs)
    \<and> (cd_close (last bars) = 0 \<longrightarrow> list_all (\<lambda>k. map_of fs k = Some None) [''macd_hist_pct'', ''atr_pct'', ''range_pct''])
    \<and> ((\<forall>b\<in>set bars. 0 \<le> kl_taker_base b \<and> kl_taker_base b \<le> cd_volume b) \<longrightarrow> (\<exists>x. map_of fs ''taker_buy_ratio'' = Some (Some x) \<and> 0 \<le> x \<and> x \<le> 1))"
proof -
  let ?fs = "price_features env cfg bars @ flow_features env bars"
  have "window_features env cfg columns bars = Inr ?fs" using assms by (auto simp: window_features_def Let_def filter_empty_conv)
  moreover have "list_all (\<lambda>f. snd f \<noteq> None) ?fs" if "73 \<le> length bars" "\<forall>b\<in>set bars. 0 < cd_close b" "periods_ok cfg"
    using price_features_present [OF that, of env] by (simp add: flow_features_def Let_def)
  moreover have "list_all (\<lambda>k. map_of ?fs k = Some None) [''macd_hist_pct'', ''atr_pct'', ''range_pct'']" if "cd_close (last bars) = 0"
    using that assms(2) by (simp add: price_features_def Let_def last_map quot_def)
  moreover have "map_of ?fs ''taker_buy_ratio'' = Some (Some (last (taker_ratios bars)))"
    by (simp add: price_features_def flow_features_def Let_def)
  moreover have "last (taker_ratios bars) \<in> set (taker_ratios bars)" using assms(2) by (intro last_in_set) (simp add: taker_ratios_def)
  ultimately show ?thesis using feature_names [of env cfg bars] taker_ratio_bounds [of bars "last (taker_ratios bars)"] by blast
qed

text \<open>Candles without order flow are refused, so a model is never run on inputs that were filled in.\<close>

lemma features_fail_closed: "\<not> set FLOW \<subseteq> set columns \<Longrightarrow> \<exists>e. window_features env cfg columns bars = Inl e"
  by (auto simp: window_features_def Let_def filter_empty_conv)

definition demo_kline :: "int \<Rightarrow> kline" where
  "demo_kline i = \<lparr>cd_time = i * 3600000000, cd_open = 100, cd_high = 102, cd_low = 99, cd_close = 101, cd_volume = 4, kl_quote_volume = 400, kl_trades = 8, kl_taker_base = 1\<rparr>"

theorem feature_vector_typed_witness:
  "\<forall>env. \<exists>fs. window_features env demo_config FLOW (map demo_kline [0..79]) = Inr fs \<and> map fst fs = FEATURES \<and> list_all (\<lambda>f. snd f \<noteq> None) fs
    \<and> (\<exists>x. map_of fs ''taker_buy_ratio'' = Some (Some x) \<and> 0 \<le> x \<and> x \<le> 1)"
proof
  fix env
  let ?bars = "map demo_kline [0..79]"
  have l: "73 \<le> length ?bars" "?bars \<noteq> []" by simp_all
  have t: "\<forall>b\<in>set ?bars. 0 \<le> kl_taker_base b \<and> kl_taker_base b \<le> cd_volume b" "\<forall>b\<in>set ?bars. 0 < cd_close b" by (simp_all add: demo_kline_def)
  have "periods_ok demo_config" by (simp add: periods_ok_def demo_config_def)
  then show "\<exists>fs. window_features env demo_config FLOW ?bars = Inr fs \<and> map fst fs = FEATURES \<and> list_all (\<lambda>f. snd f \<noteq> None) fs
    \<and> (\<exists>x. map_of fs ''taker_buy_ratio'' = Some (Some x) \<and> 0 \<le> x \<and> x \<le> 1)"
    using feature_vector_typed [OF subset_refl l(2), of env demo_config] l(1) t by blast
qed

end
