(* ===== verification/Data_Feed.thy ===== *)
theory Data_Feed
  imports Features
begin

text \<open>
  Public data, \<^verbatim>\<open>data_fetcher.py\<close>: the exchange object, the candles with or without order flow, the market-wide data and the headlines. The answers of ccxt, requests and
  feedparser are arguments. It is proved that a source that fails never raises into the bot, that candles of the fallback are refused by
  the feature vector, and that a first feed that is long enough keeps every other feed out.
\<close>

section \<open>The exchange object\<close>

text \<open>\<open>ccxt\<close> is \<open>None\<close> when it is not installed; it says whether it has an exchange class and whether that has a sandbox.\<close>

record exchange_handle =
  xh_id :: string
  xh_key :: string
  xh_secret :: string
  xh_rate_limit :: bool
  xh_sandbox :: bool

definition get_exchange :: "(string \<Rightarrow> bool option) option \<Rightarrow> config \<Rightarrow> exn + exchange_handle" where
  "get_exchange ccxt cfg = (case ccxt of
     None \<Rightarrow> Inl (RuntimeError ''ccxt is not installed. Run: pip install ccxt'')
   | Some classes \<Rightarrow> (case classes (EXCHANGE_ID cfg) of
       None \<Rightarrow> Inl (AttributeError (EXCHANGE_ID cfg))
     | Some has_sandbox \<Rightarrow> Inr \<lparr>xh_id = EXCHANGE_ID cfg, xh_key = API_KEY cfg, xh_secret = API_SECRET cfg, xh_rate_limit = True,
         xh_sandbox = (TRADING_MODE cfg = ''TESTNET'' \<and> has_sandbox)\<rparr>))"

section \<open>Candles\<close>

text \<open>A row of the raw endpoint: twelve cells, the times as integers and the numbers as texts.\<close>

definition raw_row :: "string list \<Rightarrow> exn + kline" where
  "raw_row r = (if length r \<noteq> 12 then Inl (ValueError ''12 columns passed'') else
     bindR (py_float (r ! 1)) (\<lambda>op. bindR (py_float (r ! 2)) (\<lambda>hi. bindR (py_float (r ! 3)) (\<lambda>lo. bindR (py_float (r ! 4)) (\<lambda>cl.
     bindR (py_float (r ! 5)) (\<lambda>vol. bindR (py_float (r ! 7)) (\<lambda>qv. bindR (py_float (r ! 8)) (\<lambda>tr. bindR (py_float (r ! 9)) (\<lambda>tb.
     bindR (py_int (r ! 0)) (\<lambda>ts.
       Inr \<lparr>cd_time = ts * 1000, cd_open = op, cd_high = hi, cd_low = lo, cd_close = cl, cd_volume = vol, kl_quote_volume = qv, kl_trades = tr, kl_taker_base = tb\<rparr>))))))))))"

text \<open>A frame with the order-flow columns, or the six plain ones of the fallback.\<close>

datatype ohlcv = Flow "kline list" | Plain "candle list"

fun frame_columns :: "ohlcv \<Rightarrow> string list" where
  "frame_columns (Flow _) = [''timestamp'', ''open'', ''high'', ''low'', ''close'', ''volume'', ''quote_volume'', ''trades'', ''taker_base'']"
| "frame_columns (Plain _) = [''timestamp'', ''open'', ''high'', ''low'', ''close'', ''volume'']"

definition plain_row :: "int \<times> rat \<times> rat \<times> rat \<times> rat \<times> rat \<Rightarrow> candle" where
  "plain_row r = (case r of (ts, op, hi, lo, cl, vol) \<Rightarrow> \<lparr>cd_time = ts * 1000, cd_open = op, cd_high = hi, cd_low = lo, cd_close = cl, cd_volume = vol\<rparr>)"

text \<open>Anything that goes wrong with the raw endpoint or its rows leads to the plain one.\<close>

definition fetch_ohlcv :: "exn + string list list \<Rightarrow> exn + (int \<times> rat \<times> rat \<times> rat \<times> rat \<times> rat) list \<Rightarrow> exn + ohlcv" where
  "fetch_ohlcv raw fallback = (case bindR raw (mapR raw_row) of
     Inr ks \<Rightarrow> Inr (Flow ks)
   | Inl e \<Rightarrow> bindR fallback (\<lambda>rs. Inr (Plain (map plain_row rs))))"

section \<open>Market-wide data\<close>

record global_data =
  gd_btc_dominance :: "jval option"
  gd_eth_dominance :: "jval option"
  gd_total_cap :: "jval option"
  gd_change :: "jval option"

definition read_global :: "int \<Rightarrow> jval \<Rightarrow> exn + global_data" where
  "read_global status body = (if 400 \<le> status then Inl (Other ''HTTPError'') else
     bindR (as_obj body) (\<lambda>b. bindR (jget ''data'' b) (\<lambda>v. bindR (as_obj v) (\<lambda>d.
     bindR (jget ''market_cap_percentage'' d) (\<lambda>v. bindR (as_obj v) (\<lambda>pct.
     bindR (jget ''total_market_cap'' d) (\<lambda>v. bindR (as_obj v) (\<lambda>cap.
       Inr \<lparr>gd_btc_dominance = map_of pct ''btc'', gd_eth_dominance = map_of pct ''eth'', gd_total_cap = map_of cap ''usd'',
            gd_change = map_of d ''market_cap_change_percentage_24h_usd''\<rparr>))))))))"

definition get_global_market_data :: "exn + int \<times> jval \<Rightarrow> global_data option" where
  "get_global_market_data answer = (case bindR answer (\<lambda>(status, body). read_global status body) of Inl e \<Rightarrow> None | Inr d \<Rightarrow> Some d)"

section \<open>Headlines\<close>

record feed_entry =
  fe_title :: "string option"
  fe_published :: "string option"

record feed =
  fd_title :: "string option"
  fd_entries :: "feed_entry list"

definition feed_headlines :: "config \<Rightarrow> (string \<Rightarrow> exn + feed) \<Rightarrow> string \<Rightarrow> headline list" where
  "feed_headlines cfg parse url = (case parse url of Inl e \<Rightarrow> []
     | Inr f \<Rightarrow> map (\<lambda>e. \<lparr>h_title = Some (or_empty (fe_title e)), h_published = Some (or_empty (fe_published e)),
         h_source = Some (case fd_title f of None \<Rightarrow> url | Some t \<Rightarrow> t)\<rparr>) (take (NEWS_HEADLINE_LIMIT cfg) (fd_entries f)))"

definition get_news_headlines :: "config \<Rightarrow> (string \<Rightarrow> exn + feed) option \<Rightarrow> headline list" where
  "get_news_headlines cfg feedparser = (case feedparser of None \<Rightarrow> []
     | Some parse \<Rightarrow> take (NEWS_HEADLINE_LIMIT cfg) (concat (map (feed_headlines cfg parse) (NEWS_FEEDS cfg))))"

section \<open>Failures stay inside\<close>

text \<open>
  Candles that came without order flow are never scored by a model. When the raw endpoint fails the fallback's candles are used, but their columns lack the order flow, so the feature
  vector of any window of them is refused; a frame that has the columns came from the raw endpoint, row by row.
\<close>

theorem fallback_refused:
  assumes "fetch_ohlcv raw fallback = Inr f"
  shows "(\<exists>e. bindR raw (mapR raw_row) = Inl e \<and> (\<forall>env cfg window. \<exists>e. window_features env cfg (frame_columns f) window = Inl e))
    \<or> (\<exists>rows ks. raw = Inr rows \<and> mapR raw_row rows = Inr ks \<and> f = Flow ks \<and> set FLOW \<subseteq> set (frame_columns f))"
proof (cases "bindR raw (mapR raw_row)")
  case (Inl e)
  then obtain rs where "f = Plain rs" using assms by (auto simp: fetch_ohlcv_def bindR_Inr)
  then have "\<not> set FLOW \<subseteq> set (frame_columns f)" by (simp add: FLOW_def)
  then show ?thesis using Inl features_fail_closed by blast
next
  case (Inr ks)
  then have "f = Flow ks" using assms by (simp add: fetch_ohlcv_def)
  then show ?thesis using Inr by (auto simp: FLOW_def bindR_Inr)
qed

lemma global_data_total: "get_global_market_data (Inl e) = None" "400 \<le> status \<Longrightarrow> get_global_market_data (Inr (status, body)) = None"
  by (simp_all add: get_global_market_data_def read_global_def)

text \<open>
  One long feed keeps the others out. If the first feed has as many entries as the limit, the headlines are those of the first feed alone, whatever the other feeds say.
\<close>

theorem first_feed_only:
  assumes "NEWS_FEEDS cfg = url # urls" "parse url = Inr f" "NEWS_HEADLINE_LIMIT cfg \<le> length (fd_entries f)"
  shows "get_news_headlines cfg (Some parse) = feed_headlines cfg parse url"
  using assms by (simp add: get_news_headlines_def feed_headlines_def)

text \<open>A kline and a failing endpoint.\<close>

definition demo_raw :: "string list" where
  "demo_raw = [''1700000000000'', ''100'', ''101'', ''99'', ''100.5'', ''4'', ''1700003599999'', ''400'', ''8'', ''1'', ''100'', ''0'']"

theorem fallback_refused_witness:
  "\<exists>f g. fetch_ohlcv (Inl (Other ''NotSupported'')) (Inr [(1700000000000, 100, 101, 99, 100, 4)]) = Inr f
   \<and> (\<forall>env cfg window. \<exists>e. window_features env cfg (frame_columns f) window = Inl e)
   \<and> fetch_ohlcv (Inr [demo_raw]) (Inl (Other ''unused'')) = Inr (Flow g) \<and> length g = 1"
proof -
  define f where "f = Plain [plain_row (1700000000000, 100, 101, 99, 100, 4)]"
  have f: "fetch_ohlcv (Inl (Other ''NotSupported'')) (Inr [(1700000000000, 100, 101, 99, 100, 4)]) = Inr f"
    by (simp add: fetch_ohlcv_def f_def)
  then have "\<forall>env cfg window. \<exists>e. window_features env cfg (frame_columns f) window = Inl e" using fallback_refused [OF f] by auto
  moreover have "\<exists>g. fetch_ohlcv (Inr [demo_raw]) (Inl (Other ''unused'')) = Inr (Flow [g])"
  proof -
    have "\<exists>g. raw_row demo_raw = Inr g" by (rule exI) code_simp
    then show ?thesis by (auto simp: fetch_ohlcv_def)
  qed
  ultimately show ?thesis using f by (metis length_Cons list.size(3) One_nat_def)
qed

end
