(* ===== verification/Legacy.thy ===== *)
theory Legacy
  imports Backtest Indicators Bootstrap Worker
begin

text \<open>
  The V1 modules that are kept: the backtester \<^verbatim>\<open>backtester.py\<close>, the shims \<^verbatim>\<open>paper_trader.py\<close> and \<^verbatim>\<open>telegram_alert.py\<close>. The backtester acts on the close of the candle it has just
  evaluated. It is proved that it returns for every history that is long enough, with the fields of the position always consistent, and that its daily loss limit is never reset.
\<close>

section \<open>The V1 backtester\<close>

record v1_trade =
  vt_time :: time
  vt_side :: string
  vt_price :: rat
  vt_pnl :: rat

record v1_state =
  vs_balance :: rat
  vs_qty :: rat
  vs_entry :: "rat option"
  vs_stop :: "rat option"
  vs_curve :: "(time \<times> rat) list"
  vs_trades :: "v1_trade list"
  vs_risk :: risk_state

definition v1_warmup :: "config \<Rightarrow> int" where
  "v1_warmup cfg = max (max (EMA_SLOW cfg) (RSI_PERIOD cfg)) (MACD_SLOW cfg) + 5"

definition v1_init :: "rat \<Rightarrow> v1_state" where
  "v1_init balance = \<lparr>vs_balance = balance, vs_qty = 0, vs_entry = None, vs_stop = None, vs_curve = [], vs_trades = [],
     vs_risk = \<lparr>ks_equity = balance, ks_day_start = balance, ks_halted = False\<rparr>\<rparr>"

definition v1_equity :: "rat \<Rightarrow> v1_state \<Rightarrow> rat" where
  "v1_equity price s = fadd (vs_balance s) (fmul (vs_qty s) price)"

text \<open>A sale of the whole position; a missing entry price is a \<^verbatim>\<open>TypeError\<close>.\<close>

definition v1_sell :: "time \<Rightarrow> string \<Rightarrow> rat \<Rightarrow> v1_state \<Rightarrow> exn + v1_state" where
  "v1_sell t side price s = (case vs_entry s of None \<Rightarrow> Inl type_error
     | Some entry \<Rightarrow> Inr (s\<lparr>vs_balance := fadd (vs_balance s) (fmul (vs_qty s) price), vs_qty := 0, vs_entry := None, vs_stop := None,
         vs_trades := vs_trades s @ [\<lparr>vt_time = t, vt_side = side, vt_price = price, vt_pnl = fmul (vs_qty s) (fsub price entry)\<rparr>]\<rparr>))"

definition v1_buy :: "config \<Rightarrow> time \<Rightarrow> rat \<Rightarrow> v1_state \<Rightarrow> v1_state" where
  "v1_buy cfg t price s =
     (let qty = min (position_size (vs_balance s) price (RISK_PER_TRADE_PCT cfg) (STOP_LOSS_PCT cfg)) (fdiv (vs_balance s) price) in
      if 0 < qty
      then s\<lparr>vs_qty := qty, vs_entry := Some price, vs_stop := Some (stop_loss_price price ''long'' (STOP_LOSS_PCT cfg)),
             vs_balance := fsub (vs_balance s) (fmul qty price), vs_trades := vs_trades s @ [\<lparr>vt_time = t, vt_side = ''BUY'', vt_price = price, vt_pnl = 0\<rparr>]\<rparr>
      else s)"

definition v1_act :: "config \<Rightarrow> time \<Rightarrow> rat \<Rightarrow> string \<Rightarrow> v1_state \<Rightarrow> exn + v1_state" where
  "v1_act cfg t price action s =
     (if action = ''BUY'' \<and> vs_qty s = 0 \<and> \<not> ks_halted (vs_risk s) then Inr (v1_buy cfg t price s)
      else if action = ''SELL'' \<and> 0 < vs_qty s then v1_sell t ''SELL'' price s
      else Inr s)"

definition v1_check_loss :: "config \<Rightarrow> rat \<Rightarrow> v1_state \<Rightarrow> v1_state" where
  "v1_check_loss cfg price s =
     s\<lparr>vs_risk := snd (check_daily_loss_limit ((vs_risk s)\<lparr>ks_equity := v1_equity price s\<rparr>) (DAILY_LOSS_LIMIT_PCT cfg))\<rparr>"

text \<open>A candle with the action the strategy takes on it. A stop that is hit ends the candle.\<close>

definition v1_bar :: "config \<Rightarrow> candle \<Rightarrow> string \<Rightarrow> v1_state \<Rightarrow> exn + v1_state" where
  "v1_bar cfg b action s =
     (let t = cd_time b; price = cd_close b; s = s\<lparr>vs_curve := vs_curve s @ [(t, v1_equity price s)]\<rparr> in
      case vs_stop s of
        Some stop \<Rightarrow> if 0 < vs_qty s \<and> cd_low b \<le> stop then v1_sell t ''SELL (stop loss)'' stop s
          else bindR (v1_act cfg t price action s) (\<lambda>s. Inr (v1_check_loss cfg price s))
      | None \<Rightarrow> bindR (v1_act cfg t price action s) (\<lambda>s. Inr (v1_check_loss cfg price s)))"

fun v1_loop :: "config \<Rightarrow> (candle \<times> string) list \<Rightarrow> v1_state \<Rightarrow> exn + v1_state" where
  "v1_loop cfg [] s = Inr s"
| "v1_loop cfg ((b, action) # bs) s = bindR (v1_bar cfg b action s) (v1_loop cfg bs)"

definition v1_finish :: "candle \<Rightarrow> v1_state \<Rightarrow> exn + v1_state" where
  "v1_finish b s = (if 0 < vs_qty s then v1_sell (cd_time b) ''SELL (final close)'' (cd_close b) s else Inr s)"

text \<open>The row of candle \<open>i\<close> of the frame and the action of the strategy on it, without market data and sentiment.\<close>

definition row_at :: "indicator_frame \<Rightarrow> nat \<Rightarrow> indicators" where
  "row_at f i = \<lparr>in_ema_fast = the (if_ema_fast f ! i), in_ema_mid = the (if_ema_mid f ! i), in_ema_slow = the (if_ema_slow f ! i),
     in_rsi = the (if_rsi f ! i), in_macd_hist = the (if_macd_hist f ! i)\<rparr>"

definition v1_actions :: "(rat list \<Rightarrow> rat) \<Rightarrow> config \<Rightarrow> string \<Rightarrow> candle list \<Rightarrow> nat \<Rightarrow> (candle \<times> string) list" where
  "v1_actions std cfg symbol bars warmup = (let f = add_all_indicators std cfg bars in
     map (\<lambda>i. (bars ! i, sg_action (analyze cfg (row_at f i) symbol None None))) [warmup..<length bars])"

record v1_stats =
  st_final_equity :: rat
  st_total_return :: rat
  st_max_drawdown :: rat
  st_trades :: nat
  st_win_rate :: rat
  st_sharpe :: rat

definition pct_changes :: "rat list \<Rightarrow> rat list" where
  "pct_changes eq = map2 (\<lambda>p e. fsub (fdiv e p) 1) (butlast eq) (tl eq)"

text \<open>\<^verbatim>\<open>_compute_stats\<close>: no statistics for an empty curve; the deviation of fewer than two returns is NaN.\<close>

definition compute_stats :: "reductions \<Rightarrow> rat list \<Rightarrow> v1_trade list \<Rightarrow> rat \<Rightarrow> v1_stats option" where
  "compute_stats np eq trades initial =
     (if eq = [] then None
      else let sells = filter (\<lambda>t. startswith (vt_side t) ''SELL'') trades; wins = filter (\<lambda>t. 0 < vt_pnl t) sells; rets = pct_changes eq;
           dd = map2 (\<lambda>e m. fmul (fdiv (fsub e m) m) 100) eq (running_max (hd eq) eq)
        in Some \<lparr>st_final_equity = fround 2 (last eq), st_total_return = fround 2 (fmul (fsub (fdiv (last eq) initial) 1) 100),
             st_max_drawdown = fround 2 (Min (set dd)), st_trades = length sells,
             st_win_rate = fround 2 (if sells = [] then 0 else fmul (fdiv (of_nat (length wins)) (of_nat (length sells))) 100),
             st_sharpe = fround 2 (if 2 \<le> length rets \<and> 0 < np_std np rets then fmul (fdiv (np_mean np rets) (np_std np rets)) (np_sqrt np 365) else 0)\<rparr>)"

definition v1_backtest :: "reductions \<Rightarrow> config \<Rightarrow> string \<Rightarrow> candle list \<Rightarrow> rat option \<Rightarrow> exn + v1_state \<times> v1_stats option" where
  "v1_backtest np cfg symbol bars initial_balance =
     (let initial = (case initial_balance of None \<Rightarrow> STARTING_PAPER_BALANCE cfg | Some x \<Rightarrow> x); warmup = v1_warmup cfg in
      if int (length bars) \<le> warmup
      then Inl (ValueError (''Need more than '' @ str_int warmup @ '' candles to backtest (got '' @ str_int (int (length bars)) @ '').''))
      else bindR (v1_loop cfg (v1_actions (np_std np) cfg symbol bars (nat warmup)) (v1_init initial)) (\<lambda>s.
           bindR (v1_finish (last bars) s) (\<lambda>s. Inr (s, compute_stats np (map snd (vs_curve s)) (vs_trades s) initial))))"

section \<open>The shims\<close>

text \<open>\<^verbatim>\<open>paper_trader.run_once\<close>: validation, one cycle of freshly built services, one flush.\<close>

definition legacy_run_once :: "(string \<Rightarrow> bool) \<Rightarrow> 'x worker_env \<Rightarrow> 'x cycle_env \<Rightarrow> ('x world, cycle_result) eff" where
  "legacy_run_once isfile env ce = bindE (liftE (validate_runtime isfile (we_cfg env))) (\<lambda>_.
     bindE (run_once ce) (\<lambda>r. thenE (flush (we_dispatcher env) FLUSH_LIMIT) (ret r)))"

text \<open>\<^verbatim>\<open>send_telegram_message\<close>: whether the message was accepted; nothing is raised. A request answers with the status of the response.\<close>

definition send_telegram_message :: "config \<Rightarrow> (string \<Rightarrow> (string \<times> string) list \<Rightarrow> exn + int) \<Rightarrow> string \<Rightarrow> bool" where
  "send_telegram_message cfg request text =
     (if TELEGRAM_BOT_TOKEN cfg = [] \<or> TELEGRAM_CHAT_ID cfg = [] then False
      else case request (''https://api.telegram.org/bot'' @ TELEGRAM_BOT_TOKEN cfg @ ''/sendMessage'') [(''chat_id'', TELEGRAM_CHAT_ID cfg), (''text'', text)] of
        Inl e \<Rightarrow> False | Inr status \<Rightarrow> status < 400)"

section \<open>The backtester returns\<close>

text \<open>The fields of a position are set exactly while there is one.\<close>

definition v1_ok :: "v1_state \<Rightarrow> bool" where
  "v1_ok s \<longleftrightarrow> 0 \<le> vs_qty s \<and> (0 < vs_qty s \<longleftrightarrow> vs_entry s \<noteq> None) \<and> (vs_entry s \<noteq> None \<longleftrightarrow> vs_stop s \<noteq> None)"

lemma v1_sell_ok: "v1_ok s \<Longrightarrow> 0 < vs_qty s \<Longrightarrow> \<exists>s'. v1_sell t side price s = Inr s' \<and> v1_ok s'"
  by (auto simp: v1_ok_def v1_sell_def)

lemma v1_act_ok: "v1_ok s \<Longrightarrow> \<exists>s'. v1_act cfg t price action s = Inr s' \<and> v1_ok s'"
  using v1_sell_ok by (auto simp: v1_act_def v1_buy_def Let_def v1_ok_def)

lemma v1_bar_ok:
  assumes "v1_ok s"
  shows "\<exists>s'. v1_bar cfg b action s = Inr s' \<and> v1_ok s'"
proof -
  define s1 where "s1 = s\<lparr>vs_curve := vs_curve s @ [(cd_time b, v1_equity (cd_close b) s)]\<rparr>"
  have ok: "v1_ok s1" using assms by (simp add: s1_def v1_ok_def)
  obtain s2 where s2: "v1_act cfg (cd_time b) (cd_close b) action s1 = Inr s2" "v1_ok s2" using v1_act_ok [OF ok] by blast
  have loss: "v1_ok (v1_check_loss cfg (cd_close b) s2)" using s2(2) by (simp add: v1_check_loss_def v1_ok_def)
  have shape: "v1_bar cfg b action s = (case vs_stop s1 of
      Some stop \<Rightarrow> if 0 < vs_qty s1 \<and> cd_low b \<le> stop then v1_sell (cd_time b) ''SELL (stop loss)'' stop s1 else Inr (v1_check_loss cfg (cd_close b) s2)
    | None \<Rightarrow> Inr (v1_check_loss cfg (cd_close b) s2))"
    using s2(1) by (simp add: v1_bar_def Let_def s1_def split: option.split)
  show ?thesis using v1_sell_ok [OF ok] loss by (auto simp: shape split: option.split)
qed

lemma v1_loop_ok: "v1_ok s \<Longrightarrow> \<exists>s'. v1_loop cfg bs s = Inr s' \<and> v1_ok s'"
proof (induction bs arbitrary: s)
  case (Cons b bs)
  obtain s1 where "v1_bar cfg (fst b) (snd b) s = Inr s1" "v1_ok s1" using v1_bar_ok [OF Cons.prems] by blast
  then show ?case using Cons.IH [of s1] by (cases b) simp
qed simp

text \<open>
  The V1 backtester returns for every history with more candles than it needs to warm up, and raises a \<^verbatim>\<open>ValueError\<close> for every other one. The entry and stop prices are set whenever
  they are read, and no position is left at the end.
\<close>

theorem v1_backtest_returns:
  "if int (length bars) \<le> v1_warmup cfg then \<exists>m. v1_backtest np cfg symbol bars initial = Inl (ValueError m)
   else \<exists>s stats. v1_backtest np cfg symbol bars initial = Inr (s, stats) \<and> vs_qty s = 0"
proof (cases "int (length bars) \<le> v1_warmup cfg")
  case False
  define start where "start = (case initial of None \<Rightarrow> STARTING_PAPER_BALANCE cfg | Some x \<Rightarrow> x)"
  have "v1_ok (v1_init start)" by (simp add: v1_init_def v1_ok_def)
  then obtain s where s: "v1_loop cfg (v1_actions (np_std np) cfg symbol bars (nat (v1_warmup cfg))) (v1_init start) = Inr s" "v1_ok s"
    using v1_loop_ok by blast
  have "\<exists>s'. v1_finish (last bars) s = Inr s' \<and> vs_qty s' = 0" using s(2) by (auto simp: v1_finish_def v1_sell_def v1_ok_def)
  then obtain s' where "v1_finish (last bars) s = Inr s'" "vs_qty s' = 0" by blast
  then show ?thesis using False s(1) by (simp add: v1_backtest_def Let_def flip: start_def)
qed (simp add: v1_backtest_def Let_def)

section \<open>The daily loss limit is never reset\<close>

definition buys :: "v1_trade list \<Rightarrow> v1_trade list" where
  "buys ts = filter (\<lambda>t. vt_side t = ''BUY'') ts"

lemma v1_halted_bar:
  assumes "ks_halted (vs_risk s)" "v1_bar cfg b action s = Inr s'"
  shows "ks_halted (vs_risk s') \<and> buys (vs_trades s') = buys (vs_trades s)"
  using assms
  by (auto simp: v1_bar_def v1_act_def v1_sell_def v1_check_loss_def check_daily_loss_limit_def buys_def Let_def bindR_Inr split: option.splits if_splits)

text \<open>
  Once the backtester's daily loss limit was hit it stays hit to the end of the history: no position is entered on any later day, because nothing in the loop starts a new day. The live engine starts a new day
  on every date.
\<close>

theorem v1_halt_permanent:
  "ks_halted (vs_risk s) \<Longrightarrow> v1_loop cfg bs s = Inr s' \<Longrightarrow> ks_halted (vs_risk s') \<and> buys (vs_trades s') = buys (vs_trades s)"
proof (induction bs arbitrary: s)
  case (Cons b bs)
  then obtain s1 where s1: "v1_bar cfg (fst b) (snd b) s = Inr s1" "v1_loop cfg bs s1 = Inr s'" by (cases b) (auto simp: bindR_Inr)
  then show ?case using v1_halted_bar [OF Cons.prems(1) s1(1)] Cons.IH [OF _ s1(2)] by simp
qed simp

text \<open>A stop is filled at the stop price even when the candle opened below it.\<close>

lemma v1_gap_stop:
  assumes "vs_stop s = Some stop" "0 < vs_qty s" "vs_entry s = Some entry" "cd_high b < stop" "cd_low b \<le> cd_high b"
  shows "\<exists>s'. v1_bar cfg b action s = Inr s' \<and> vt_price (last (vs_trades s')) = stop \<and> cd_high b < vt_price (last (vs_trades s'))"
  using assms by (simp add: v1_bar_def v1_sell_def Let_def)

end
