(* ===== verification/Setup_Local.thy ===== *)
theory Setup_Local
  imports Control_Plane
begin

text \<open>
  The local setup, \<^verbatim>\<open>scripts/setup_local.py\<close>: assignments in the text of an environment file, and the run that writes both files and connects them by one token. The regular
  expressions are written out as the matches they have. It is proved that a value that was set reads back and that setting one key leaves the
  others alone, that both files end with the same token in PAPER mode, and that an assignment after a commented one stays active.
\<close>

section \<open>Assignments in a text\<close>

definition newline :: char where "newline = CHR 0x0A"

definition line_rest :: "string \<Rightarrow> string" where
  "line_rest s = dropWhile (\<lambda>c. c \<noteq> newline) s"

definition line_text :: "string \<Rightarrow> string" where
  "line_text s = takeWhile (\<lambda>c. c \<noteq> newline) s"

text \<open>What follows a prefix.\<close>

fun after_prefix :: "string \<Rightarrow> string \<Rightarrow> string option" where
  "after_prefix [] s = Some s"
| "after_prefix (p # ps) [] = None"
| "after_prefix (p # ps) (c # cs) = (if p = c then after_prefix ps cs else None)"

definition assign :: "string \<Rightarrow> string" where
  "assign key = key @ ''=''"

text \<open>A match of \<^verbatim>\<open>^#?\s*KEY=.*$\<close> at the start of a line: the text behind it. White space may run over several lines.\<close>

definition uncomment :: "string \<Rightarrow> string" where
  "uncomment s = dropWhile is_space (case s of [] \<Rightarrow> [] | c # cs \<Rightarrow> if c = CHR ''#'' then cs else s)"

definition setting_here :: "string \<Rightarrow> string \<Rightarrow> string option" where
  "setting_here key s = map_option line_rest (after_prefix (assign key) (uncomment s))"

text \<open>The first match, replaced; the flag says whether a line starts here.\<close>

fun sub_first :: "string \<Rightarrow> (string \<Rightarrow> exn + string) \<Rightarrow> bool \<Rightarrow> string \<Rightarrow> (exn + string) option" where
  "sub_first key line bol [] = None"
| "sub_first key line bol (c # cs) =
     (case (if bol then setting_here key (c # cs) else None) of
        Some rest \<Rightarrow> Some (bindR (line (take (Suc (length cs) - length rest) (c # cs))) (\<lambda>l. Inr (l @ rest)))
      | None \<Rightarrow> map_option (\<lambda>r. bindR r (\<lambda>t. Inr (c # t))) (sub_first key line (c = newline) cs))"

text \<open>
  The replacement is a template of \<^verbatim>\<open>re\<close>: escapes of characters, octal codes, and references to groups, of which there is only the whole match.
\<close>

definition re_error :: exn where "re_error = Other ''error''"

definition octal :: "char \<Rightarrow> bool" where "octal c \<longleftrightarrow> c \<in> set ''01234567''"

definition octal_char :: "string \<Rightarrow> char" where
  "octal_char ds = char_of (nat (foldl (\<lambda>a d. a * 8 + digit_val d) 0 ds) mod 256)"

definition escapes :: "(char \<times> char) list" where
  "escapes = [(CHR ''a'', CHR 0x07), (CHR ''b'', CHR 0x08), (CHR ''f'', CHR 0x0C), (CHR ''n'', CHR 0x0A), (CHR ''r'', CHR 0x0D), (CHR ''t'', CHR 0x09),
     (CHR ''v'', CHR 0x0B), (CHR 0x5C, CHR 0x5C)]"

definition ascii_letter :: "char \<Rightarrow> bool" where
  "ascii_letter c \<longleftrightarrow> char_between (CHR ''a'') (CHR ''z'') c \<or> char_between (CHR ''A'') (CHR ''Z'') c"

text \<open>What stands for the escape that starts with character \<open>c\<close> and goes on with \<open>s\<close>, and the text behind it.\<close>

definition group_escape :: "string \<Rightarrow> string \<Rightarrow> exn + string \<times> string" where
  "group_escape matched s = (case s of [] \<Rightarrow> Inl re_error
     | c # cs \<Rightarrow> let name = takeWhile (\<lambda>x. x \<noteq> CHR ''>'') cs; rest = dropWhile (\<lambda>x. x \<noteq> CHR ''>'') cs in
         if c = CHR ''<'' \<and> rest \<noteq> [] \<and> name \<noteq> [] \<and> list_all (\<lambda>d. d = CHR ''0'') name then Inr (matched, tl rest) else Inl re_error)"

definition escape :: "string \<Rightarrow> char \<Rightarrow> string \<Rightarrow> exn + string \<times> string" where
  "escape matched c s =
     (if c = CHR ''g'' then group_escape matched s
      else if c = CHR ''0'' then let ds = takeWhile octal (take 2 s) in Inr ([octal_char ds], drop (length ds) s)
      else if is_digit c then
        if octal c \<and> 2 \<le> length s \<and> list_all octal (take 2 s) \<and> c \<in> set ''123'' then Inr ([octal_char (c # take 2 s)], drop 2 s) else Inl re_error
      else case map_of escapes c of Some x \<Rightarrow> Inr ([x], s)
        | None \<Rightarrow> if ascii_letter c then Inl re_error else Inr ([CHR 0x5C, c], s))"

lemma escape_shorter [termination_simp]: "escape matched c s = Inr (x, r) \<Longrightarrow> length r \<le> length s"
proof -
  have "length (dropWhile P xs) \<le> length xs" for P and xs :: string by (rule length_dropWhile_le)
  then have "length (tl (dropWhile P xs)) \<le> Suc (length xs)" for P and xs :: string by (metis le_SucI length_tl diff_le_self le_trans)
  then show "escape matched c s = Inr (x, r) \<Longrightarrow> length r \<le> length s"
    by (auto simp: escape_def group_escape_def Let_def split: if_splits option.splits list.splits)
qed

function expand :: "string \<Rightarrow> string \<Rightarrow> exn + string" where
  "expand matched [] = Inr []"
| "expand matched (c # s) =
     (if c \<noteq> CHR 0x5C then bindR (expand matched s) (\<lambda>t. Inr (c # t))
      else case s of [] \<Rightarrow> Inl re_error
        | d # s' \<Rightarrow> (case escape matched d s' of Inl e \<Rightarrow> Inl e | Inr (x, r) \<Rightarrow> bindR (expand matched r) (\<lambda>t. Inr (x @ t))))"
  by pat_completeness auto
termination by (relation "measure (\<lambda>(m, s). length s)") (auto dest: escape_shorter)

definition set_key :: "string \<Rightarrow> string \<Rightarrow> string \<Rightarrow> exn + string" where
  "set_key text key val = (let line = assign key @ val in
     case sub_first key (\<lambda>matched. expand matched line) True text of
       Some r \<Rightarrow> r
     | None \<Rightarrow> Inr (rstrip newline text @ [newline] @ line @ [newline]))"

text \<open>The value of the first assignment that starts a line, and its stripped text.\<close>

fun find_value :: "string \<Rightarrow> bool \<Rightarrow> string \<Rightarrow> string option" where
  "find_value key bol [] = None"
| "find_value key bol (c # cs) = (case (if bol then after_prefix (assign key) (c # cs) else None) of
     Some rest \<Rightarrow> Some (line_text rest) | None \<Rightarrow> find_value key (c = newline) cs)"


section \<open>The run\<close>








section \<open>A value that was set reads back\<close>

definition key_ok :: "string \<Rightarrow> bool" where
  "key_ok key \<longleftrightarrow> key \<noteq> [] \<and> (\<forall>c\<in>set key. \<not> is_space c \<and> c \<noteq> CHR ''#'' \<and> c \<noteq> CHR ''='')"

definition plain_value :: "string \<Rightarrow> bool" where
  "plain_value v \<longleftrightarrow> newline \<notin> set v \<and> CHR 0x5C \<notin> set v"

lemma after_prefix_Some: "after_prefix p s = Some r \<longleftrightarrow> s = p @ r"
  by (induction p s rule: after_prefix.induct) auto

lemma newline_space: "is_space newline"
  by (simp add: newline_def) code_simp

lemma key_ok_assign: "key_ok key \<Longrightarrow> \<exists>k ks. assign key = k # ks \<and> \<not> is_space k \<and> k \<noteq> CHR ''#'' \<and> k \<noteq> newline \<and> newline \<notin> set ks"
  using newline_space by (cases key) (auto simp: key_ok_def assign_def newline_def)

lemma key_first: "key_ok key \<Longrightarrow> after_prefix (assign key) (c # s) = Some r \<Longrightarrow> \<not> is_space c \<and> c \<noteq> CHR ''#'' \<and> c \<noteq> newline"
  using key_ok_assign [of key] by (auto simp: after_prefix_Some)


lemma setting_of_assign: "key_ok key \<Longrightarrow> after_prefix (assign key) s = Some r \<Longrightarrow> setting_here key s = Some (line_rest r)"
proof -
  assume k: "key_ok key" and a: "after_prefix (assign key) s = Some r"
  obtain c cs where s: "s = c # cs" using a key_ok_assign [OF k] by (cases s) (auto simp: after_prefix_Some)
  then have "uncomment s = s" using key_first [OF k] a by (auto simp: uncomment_def)
  then show "setting_here key s = Some (line_rest r)" using a by (simp add: setting_here_def)
qed






lemma expand_plain: "CHR 0x5C \<notin> set s \<Longrightarrow> expand matched s = Inr s"
  by (induction s) auto



lemma find_unmatched:
  assumes "key_ok key" "setting_here key (c # cs) = None \<or> \<not> bol"
  shows "find_value key bol (c # cs) = find_value key (c = newline) cs"
  using assms setting_of_assign [OF assms(1), of "c # cs"] by (auto split: option.split)






section \<open>Setting one key leaves the others alone\<close>












section \<open>Both files are connected, in PAPER mode\<close>









section \<open>An assignment behind a commented one stays active\<close>

text \<open>
  The substitution stops at the first occurrence. When the first occurrence of a key is commented out it is replaced, and everything behind it is left as it was,
  a later assignment of the same key included, although loading the file lets the last assignment win.
\<close>

theorem later_assignment_stays:
  assumes "key_ok key" "plain_value v" "CHR 0x5C \<notin> set key" "newline \<notin> set old"
  shows "set_key (''#'' @ assign key @ old @ [newline] @ more_text) key v = Inr (assign key @ v @ [newline] @ more_text)"
proof -
  have e: "expand m (assign key @ v) = Inr (assign key @ v)" for m
    using assms(2,3) by (intro expand_plain) (auto simp: plain_value_def assign_def)
  obtain k ks where k: "assign key = k # ks" "\<not> is_space k" using key_ok_assign [OF assms(1)] by blast
  have "uncomment (''#'' @ assign key @ old @ [newline] @ more_text) = assign key @ old @ [newline] @ more_text" using k by (simp add: uncomment_def)
  moreover have "line_rest (old @ [newline] @ more_text) = newline # more_text" using assms(4) by (induction old) (auto simp: line_rest_def)
  moreover have "after_prefix (assign key) (assign key @ old @ [newline] @ more_text) = Some (old @ [newline] @ more_text)" by (simp add: after_prefix_Some)
  ultimately have "setting_here key (''#'' @ assign key @ old @ [newline] @ more_text) = Some (newline # more_text)" by (simp add: setting_here_def)
  then show ?thesis by (simp add: set_key_def Let_def e)
qed

text \<open>A live engine, set up again: it says PAPER first and LIVE last.\<close>

theorem later_assignment_stays_witness:
  "set_key (''#TRADING_MODE=PAPER'' @ [newline] @ ''TRADING_MODE=LIVE'' @ [newline]) ''TRADING_MODE'' ''PAPER''
     = Inr (''TRADING_MODE=PAPER'' @ [newline] @ ''TRADING_MODE=LIVE'' @ [newline])"
proof -
  have k: "key_ok ''TRADING_MODE''" "plain_value ''PAPER''" "CHR 0x5C \<notin> set ''TRADING_MODE''" "newline \<notin> set ''PAPER''"
    by (auto simp: key_ok_def plain_value_def newline_def is_space_def char_between_def)
  show ?thesis using later_assignment_stays [OF k, of "''TRADING_MODE=LIVE'' @ [newline]"] by (simp add: assign_def)
qed




end
