(* ===== verification/Sql_Rows.thy ===== *)
theory Sql_Rows
  imports Ledger Clock_Text
begin

text \<open>
  What the tables of \<^verbatim>\<open>engine/infrastructure/store.py\<close> really hold. SQLite keeps decimals, datetimes and
  enumerations as text and booleans as integers; the store writes the columns of a row and builds the
  object again when it reads one, and SQL compares columns. The ledger of the other theories keeps the
  objects. Here the rows are modelled as the statements write them, and it is proved that inserting,
  updating and selecting rows is what the ledger's operations do on the objects: a refinement in the
  relation between a row and the object it stands for.

  A \<^verbatim>\<open>Decimal\<close> also has an exponent (\<^verbatim>\<open>1.0\<close> and \<^verbatim>\<open>1.00\<close> are equal, their texts differ) that a rational
  does not keep. The exponent is an argument here, a function that gives the coefficient and exponent of a number, and
  the theorems hold for each. JSON columns keep their values.
\<close>

section \<open>The text of a Decimal\<close>

type_synonym dec_rep = "rat \<Rightarrow> int \<times> int"

definition dec_value :: "int \<times> int \<Rightarrow> rat" where
  "dec_value p = of_int (fst p) * 10 powi snd p"

text \<open>
  \<^verbatim>\<open>str(d)\<close>: the digits of the coefficient with a point when the exponent is at most zero and the number
  is not too small, and an exponent after the first digit otherwise.
\<close>

definition zeros :: "nat \<Rightarrow> string" where
  "zeros n = replicate n (CHR ''0'')"

definition dec_body :: "string \<Rightarrow> int \<Rightarrow> string" where
  "dec_body ds dot = (if dot \<le> 0 then ''0.'' @ zeros (nat (- dot)) @ ds
     else if int (length ds) \<le> dot then ds @ zeros (nat (dot - int (length ds)))
     else take (nat dot) ds @ ''.'' @ drop (nat dot) ds)"

definition exp_text :: "int \<Rightarrow> string" where
  "exp_text e = (if e = 0 then [] else ''E'' @ (if 0 < e then ''+'' else []) @ str_int e)"

definition dec_str :: "int \<times> int \<Rightarrow> string" where
  "dec_str p = (let (c, e) = p; ds = str_nat_aux \<bar>c\<bar>; left = e + int (length ds);
       dot = (if e \<le> 0 \<and> - 6 < left then left else 1)
     in (if c < 0 then ''-'' else []) @ dec_body ds dot @ exp_text (left - dot))"

lemma zeros_digits: "list_all is_digit (zeros n)" "digits_val (zeros n) = 0" "length (zeros n) = n"
proof -
  show "list_all is_digit (zeros n)" by (simp add: zeros_def is_digit_def char_between_def list_all_iff)
  show "digits_val (zeros n) = 0"
  proof (induction n)
    case (Suc n)
    then show ?case using digits_val_append [of "''0''" "zeros n"] by (simp add: zeros_def digits_val_def digit_val_def)
  qed (simp add: zeros_def digits_val_def)
qed (simp add: zeros_def)

lemma takeWhile_digits:
  "list_all is_digit s \<Longrightarrow> takeWhile is_digit (s @ r) = s @ takeWhile is_digit r \<and> dropWhile is_digit (s @ r) = dropWhile is_digit r"
  by (simp add: list_all_iff)

lemma mantissa_int: "list_all is_digit s \<Longrightarrow> s \<noteq> [] \<Longrightarrow> parse_mantissa s = Some (of_int (digits_val s))"
  using takeWhile_digits [of s "[]"]
  by (simp add: parse_mantissa_def Let_def del: takeWhile_eq_all_conv dropWhile_eq_Nil_conv)

lemma mantissa_point:
  assumes "list_all is_digit a" "list_all is_digit b" "a \<noteq> []"
  shows "parse_mantissa (a @ CHR ''.'' # b) = Some (of_int (digits_val (a @ b)) / 10 ^ length b)"
proof -
  have "\<not> is_digit (CHR ''.'')" by (simp add: is_digit_def char_between_def)
  then show ?thesis using takeWhile_digits [OF assms(1), of "CHR ''.'' # b"] assms(2,3) by (simp add: parse_mantissa_def)
qed

lemma powi_neg: "i = - int k \<Longrightarrow> 10 powi i = inverse (10 ^ k :: rat)"
  by (simp add: power_int_minus)

text \<open>The part before the exponent has the value the position of the point gives to the digits.\<close>

lemma dec_body_value:
  assumes "list_all is_digit ds" "ds \<noteq> []"
  shows "parse_mantissa (dec_body ds dot) = Some (of_int (digits_val ds) * 10 powi (dot - int (length ds)))"
proof -
  let ?n = "int (length ds)"
  consider "dot \<le> 0" | "0 < dot" "?n \<le> dot" | "0 < dot" "dot < ?n" by linarith
  then show ?thesis
  proof cases
    case 1
    let ?b = "zeros (nat (- dot)) @ ds"
    have "digits_val (''0'' @ ?b) = digits_val ds"
      using digits_val_append [of "''0''" ?b] digits_val_append [of "zeros (nat (- dot))" ds] zeros_digits
      by (simp add: digits_val_def digit_val_def)
    moreover have "parse_mantissa (''0'' @ CHR ''.'' # ?b) = Some (of_int (digits_val (''0'' @ ?b)) / 10 ^ length ?b)"
      by (rule mantissa_point) (use zeros_digits assms(1) in \<open>simp_all add: is_digit_def char_between_def\<close>)
    moreover have "10 powi (dot - ?n) = inverse (10 ^ length ?b :: rat)"
      by (rule powi_neg) (use 1 in \<open>simp add: zeros_digits\<close>)
    ultimately show ?thesis using 1 by (simp add: dec_body_def divide_inverse)
  next
    case 2
    have "digits_val (ds @ zeros (nat (dot - ?n))) = digits_val ds * 10 ^ nat (dot - ?n)"
      by (simp add: digits_val_append zeros_digits)
    then show ?thesis using 2 assms zeros_digits mantissa_int [of "ds @ zeros (nat (dot - ?n))"]
      by (simp add: dec_body_def power_int_def)
  next
    case 3
    let ?k = "nat dot"
    have k: "?k < length ds" using 3 by linarith
    have "parse_mantissa (take ?k ds @ CHR ''.'' # drop ?k ds) = Some (of_int (digits_val (take ?k ds @ drop ?k ds)) / 10 ^ length (drop ?k ds))"
    proof (rule mantissa_point)
      show "list_all is_digit (take ?k ds)" "list_all is_digit (drop ?k ds)"
        using assms(1) by (auto simp: list_all_iff dest: in_set_takeD in_set_dropD)
      show "take ?k ds \<noteq> []" using 3 k by auto
    qed
    moreover have "10 powi (dot - ?n) = inverse (10 ^ length (drop ?k ds) :: rat)"
      by (rule powi_neg) (use 3 in simp)
    ultimately show ?thesis using 3 by (simp add: dec_body_def divide_inverse)
  qed
qed

lemma dec_body_chars:
  assumes "list_all is_digit ds" "ds \<noteq> []"
  shows "list_all num_char (dec_body ds dot)" "\<exists>c cs. dec_body ds dot = c # cs \<and> is_digit c"
proof -
  have n: "num_char c" if "c \<in> set ds" for c using assms(1) that by (simp add: num_char_def list_all_iff)
  have z: "list_all num_char (zeros k)" for k using digits_num [OF zeros_digits(1)] .
  show "list_all num_char (dec_body ds dot)"
    using n z by (auto simp: dec_body_def list_all_iff num_char_def is_digit_def char_between_def dest: in_set_takeD in_set_dropD)
  obtain c cs where d: "ds = c # cs" using assms(2) by (cases ds) auto
  have "\<exists>k. nat dot = Suc k" if "0 < dot" using that by (intro exI [of _ "nat dot - 1"]) simp
  then show "\<exists>c cs. dec_body ds dot = c # cs \<and> is_digit c"
    using assms(1) by (auto simp: dec_body_def d is_digit_def char_between_def)
qed

lemma exp_text_chars:
  assumes "c \<in> set (exp_text e)"
  shows "num_char c \<or> c = CHR ''E'' \<or> c = CHR ''+''"
proof -
  have "list_all num_char (str_int e)"
    using str_nat_digits [of "\<bar>e\<bar>"] digits_num [of "str_nat_aux \<bar>e\<bar>"] by (cases "e < 0") (simp_all add: str_int_def num_char_def)
  then show ?thesis using assms by (auto simp: exp_text_def list_all_iff split: if_splits)
qed

lemma plain_text:
  assumes "\<And>c. c \<in> set s \<Longrightarrow> \<not> is_space c \<and> c \<noteq> CHR ''_''"
  shows "strip s = s" "filter (\<lambda>c. c \<noteq> CHR ''_'') s = s"
proof -
  have dw: "dropWhile is_space t = t" if "set t = set s" for t
    using assms that by (cases t) auto
  show "strip s = s" using dw [of s] dw [of "rev s"] by (simp add: strip_def)
  show "filter (\<lambda>c. c \<noteq> CHR ''_'') s = s" using assms by (simp add: filter_id_conv)
qed

lemma digit_not_non_finite: "snd (split_sign s) = c # cs \<Longrightarrow> is_digit c \<Longrightarrow> \<not> is_non_finite s"
  by (auto simp: is_non_finite_def lower_def is_digit_def char_between_def split: if_splits)

lemma parse_exp: "e \<noteq> 0 \<Longrightarrow> parse_int (tl (exp_text e)) = Some e"
proof -
  assume "e \<noteq> 0"
  let ?s = "str_nat_aux \<bar>e\<bar>"
  have s: "list_all is_digit ?s" "digits_val ?s = \<bar>e\<bar>" "?s \<noteq> []" using str_nat_digits [of "\<bar>e\<bar>"] by simp_all
  have "split_sign (CHR ''+'' # ?s) = (1, ?s)" by (simp add: split_sign_def)
  then show ?thesis using \<open>e \<noteq> 0\<close> s split_sign_digits(3) [OF s(1,3)]
    by (cases "e < 0") (simp_all add: exp_text_def str_int_def parse_int_def)
qed

text \<open>A decimal that was written reads back as its value.\<close>

lemma py_dec_dec_str: "py_dec (dec_str p) = Inr (dec_value p)"
proof -
  obtain c e where p: "p = (c, e)" by (cases p)
  define ds where "ds = str_nat_aux \<bar>c\<bar>"
  define left where "left = e + int (length ds)"
  define dot where "dot = (if e \<le> 0 \<and> - 6 < left then left else 1)"
  define body where "body = dec_body ds dot"
  have ds: "list_all is_digit ds" "digits_val ds = \<bar>c\<bar>" "ds \<noteq> []" using str_nat_digits [of "\<bar>c\<bar>"] by (simp_all add: ds_def)
  have str: "dec_str p = (if c < 0 then ''-'' else []) @ body @ exp_text (left - dot)"
    by (simp add: dec_str_def p Let_def body_def dot_def left_def ds_def)
  note b = dec_body_chars [OF ds(1,3), of dot, folded body_def]
  obtain d cs where d: "body = d # cs" "is_digit d" using b(2) by auto
  have sign: "split_sign (dec_str p) = (if c < 0 then - 1 else 1, body @ exp_text (left - dot))"
    using d by (auto simp: str split_sign_def is_digit_def char_between_def)
  have "\<not> is_space x \<and> x \<noteq> CHR ''_''" if "x \<in> set (dec_str p)" for x
  proof -
    have "num_char x \<or> x = CHR ''E'' \<or> x = CHR ''+''"
      using that b(1) exp_text_chars [of x] by (auto simp: str list_all_iff num_char_def split: if_splits)
    then show ?thesis using num_char_not [of x] by (auto simp: is_space_def char_between_def)
  qed
  note plain = plain_text [OF this]
  have fin: "\<not> is_non_finite (dec_str p)" by (rule digit_not_non_finite [OF _ d(2)]) (simp add: sign d)
  have nb: "x \<noteq> CHR ''e'' \<and> x \<noteq> CHR ''E''" if "x \<in> set body" for x
    using that b(1) num_char_not by (auto simp: list_all_iff)
  have first: "exp_text i = [] \<or> (\<exists>r. exp_text i = CHR ''E'' # r)" for i by (simp add: exp_text_def)
  have tw: "takeWhile (\<lambda>c. c \<noteq> CHR ''e'' \<and> c \<noteq> CHR ''E'') (body @ exp_text i) = body"
    "dropWhile (\<lambda>c. c \<noteq> CHR ''e'' \<and> c \<noteq> CHR ''E'') (body @ exp_text i) = exp_text i" for i
    using nb first [of i] by (auto simp: takeWhile_append dropWhile_append)
  have m: "parse_mantissa body = Some (of_int \<bar>c\<bar> * 10 powi (dot - int (length ds)))"
    unfolding body_def using dec_body_value [OF ds(1,3)] ds(2) by simp
  have v: "of_int (if c < 0 then - 1 else 1) * (of_int \<bar>c\<bar> * 10 powi (dot - int (length ds))) * 10 powi (left - dot) = dec_value p"
    by (simp add: dec_value_def p left_def power_int_add [symmetric] mult.assoc)
  have "parse_number (dec_str p) = (case exp_text (left - dot) of
      [] \<Rightarrow> Some (of_int (if c < 0 then - 1 else 1) * (of_int \<bar>c\<bar> * 10 powi (dot - int (length ds))))
    | _ # ex \<Rightarrow> (case parse_int ex of None \<Rightarrow> None
        | Some e \<Rightarrow> Some (of_int (if c < 0 then - 1 else 1) * (of_int \<bar>c\<bar> * 10 powi (dot - int (length ds))) * 10 powi e)))"
    by (simp only: parse_number_def sign Let_def prod.case tw m option.case)
  moreover have "parse_int r = Some (left - dot)" if "exp_text (left - dot) = x # r" for x r
    using parse_exp [of "left - dot"] that by (cases "left = dot") (simp_all add: exp_text_def)
  moreover have "left = dot" if "exp_text (left - dot) = []" using that by (simp add: exp_text_def split: if_splits)
  ultimately have "parse_number (dec_str p) = Some (dec_value p)" using v by (cases "exp_text (left - dot)") auto
  then show ?thesis using plain fin by (simp add: py_dec_def)
qed

section \<open>Rows of orders\<close>

definition opt_str :: "dec_rep \<Rightarrow> rat option \<Rightarrow> string option" where
  "opt_str rep x = map_option (\<lambda>v. dec_str (rep v)) x"

fun opt_dec :: "string option \<Rightarrow> exn + rat option" where
  "opt_dec None = Inr None"
| "opt_dec (Some s) = bindR (py_dec s) (\<lambda>x. Inr (Some x))"

text \<open>\<^verbatim>\<open>OrderPurpose(s)\<close>, \<^verbatim>\<open>OrderStatus(s)\<close>, \<^verbatim>\<open>ReconciliationStatus(s)\<close>: the member with this value, or a ValueError.\<close>

definition member :: "string \<Rightarrow> ('e \<Rightarrow> string) \<Rightarrow> 'e list \<Rightarrow> string \<Rightarrow> exn + 'e" where
  "member cls value es s = (case find (\<lambda>e. value e = s) es of
     Some e \<Rightarrow> Inr e | None \<Rightarrow> Inl (ValueError (quoted s @ '' is not a valid '' @ cls)))"

definition purpose_of :: "string \<Rightarrow> exn + order_purpose" where
  "purpose_of = member ''OrderPurpose'' purpose_value [ENTRY, EXIT, STOP_EXIT, PROTECTIVE_STOP]"

definition status_of :: "string \<Rightarrow> exn + order_status" where
  "status_of = member ''OrderStatus'' status_value
     [INTENT_CREATED, SUBMITTING, NEW, PARTIALLY_FILLED, FILLED, CANCELED, REJECTED, EXPIRED]"

definition recon_of :: "string \<Rightarrow> exn + recon_status" where
  "recon_of = member ''ReconciliationStatus'' recon_value [CONNECTING, RECONCILING, HEALTHY, DEGRADED, HALTED]"

record order_cols =
  oc_id :: int
  oc_bot :: string
  oc_exchange :: string
  oc_symbol :: string
  oc_side :: string
  oc_type :: string
  oc_purpose :: string
  oc_coid :: string
  oc_intent :: string
  oc_exid :: "string option"
  oc_requested :: string
  oc_executed :: string
  oc_cumquote :: string
  oc_avg :: "string option"
  oc_limit :: "string option"
  oc_stop :: "string option"
  oc_ref :: "string option"
  oc_status :: string
  oc_ambiguous :: int
  oc_reject :: "string option"
  oc_submitted :: "string option"
  oc_acked :: "string option"
  oc_last_update :: "string option"
  oc_last_update_ms :: "int option"
  oc_terminal_at :: "string option"
  oc_raw :: "(string \<times> jval) list option"
  oc_version :: int
  oc_created :: string
  oc_updated :: string

text \<open>\<open>INSERT INTO orders (...)\<close>: the columns it names, the defaults of the schema for the others.\<close>

definition insert_cols :: "dec_rep \<Rightarrow> order \<Rightarrow> int \<Rightarrow> time \<Rightarrow> order_cols" where
  "insert_cols rep od i t =
     \<lparr>oc_id = i, oc_bot = o_bot od, oc_exchange = o_exchange od, oc_symbol = o_symbol od, oc_side = o_side od,
      oc_type = o_type od, oc_purpose = purpose_value (o_purpose od), oc_coid = o_coid od, oc_intent = o_intent od,
      oc_exid = None, oc_requested = dec_str (rep (o_requested od)), oc_executed = ''0'', oc_cumquote = ''0'', oc_avg = None,
      oc_limit = opt_str rep (o_limit od), oc_stop = opt_str rep (o_stop od), oc_ref = opt_str rep (o_ref od),
      oc_status = status_value (o_status od), oc_ambiguous = 0, oc_reject = None, oc_submitted = None, oc_acked = None,
      oc_last_update = None, oc_last_update_ms = None, oc_terminal_at = None, oc_raw = None, oc_version = 0,
      oc_created = iso t, oc_updated = iso t\<rparr>"

text \<open>The columns \<open>UPDATE orders SET\<close> of \<^verbatim>\<open>save_order\<close> names.\<close>

definition update_cols :: "dec_rep \<Rightarrow> order \<Rightarrow> time \<Rightarrow> order_cols \<Rightarrow> order_cols" where
  "update_cols rep od t r = r
     \<lparr>oc_exid := o_exid od, oc_executed := dec_str (rep (o_executed od)), oc_cumquote := dec_str (rep (o_cumquote od)),
      oc_avg := opt_str rep (o_avg od), oc_status := status_value (o_status od), oc_ambiguous := of_bool (o_ambiguous od),
      oc_reject := o_reject od, oc_submitted := write_dt (o_submitted od), oc_acked := write_dt (o_acked od),
      oc_last_update := write_dt (o_last_update od), oc_last_update_ms := o_last_update_ms od,
      oc_terminal_at := write_dt (o_terminal_at od), oc_raw := Some (o_raw od), oc_version := oc_version r + 1,
      oc_updated := iso t\<rparr>"

definition row_to_order :: "order_cols \<Rightarrow> exn + order" where
  "row_to_order r =
     bindR (purpose_of (oc_purpose r)) (\<lambda>purpose. bindR (py_dec (oc_requested r)) (\<lambda>requested.
     bindR (py_dec (oc_executed r)) (\<lambda>executed. bindR (py_dec (oc_cumquote r)) (\<lambda>cumquote.
     bindR (opt_dec (oc_avg r)) (\<lambda>avg. bindR (opt_dec (oc_limit r)) (\<lambda>limit.
     bindR (opt_dec (oc_stop r)) (\<lambda>stop. bindR (opt_dec (oc_ref r)) (\<lambda>ref.
     bindR (status_of (oc_status r)) (\<lambda>status. Inr
       \<lparr>o_bot = oc_bot r, o_exchange = oc_exchange r, o_symbol = oc_symbol r, o_side = oc_side r, o_type = oc_type r,
        o_purpose = purpose, o_coid = oc_coid r, o_intent = oc_intent r, o_requested = requested, o_status = status,
        o_id = oc_id r, o_exid = oc_exid r, o_executed = executed, o_cumquote = cumquote, o_avg = avg, o_limit = limit,
        o_stop = stop, o_ref = ref, o_ambiguous = (oc_ambiguous r \<noteq> 0), o_reject = oc_reject r,
        o_submitted = read_dt (oc_submitted r), o_acked = read_dt (oc_acked r), o_last_update = read_dt (oc_last_update r),
        o_last_update_ms = oc_last_update_ms r, o_terminal_at = read_dt (oc_terminal_at r),
        o_raw = (case oc_raw r of None \<Rightarrow> [] | Some j \<Rightarrow> j), o_version = oc_version r\<rparr>)))))))))"

text \<open>The statements on the table: the rows they select and write, by their columns.\<close>

definition sql_update_order :: "dec_rep \<Rightarrow> order \<Rightarrow> time \<Rightarrow> order_cols list \<Rightarrow> order_cols list" where
  "sql_update_order rep od t rows =
     map (\<lambda>r. if oc_id r = o_id od \<and> oc_version r = o_version od then update_cols rep od t r else r) rows"

definition sql_order_by :: "(order_cols \<Rightarrow> string) \<Rightarrow> string \<Rightarrow> order_cols list \<Rightarrow> order_cols option" where
  "sql_order_by col v rows = find (\<lambda>r. col r = v) rows"

definition sql_non_terminal :: "string \<Rightarrow> string option \<Rightarrow> order_cols list \<Rightarrow> order_cols list" where
  "sql_non_terminal botid symbol rows = filter (\<lambda>r. oc_bot r = botid
     \<and> oc_status r \<notin> status_value ` set TERMINAL_STATUSES \<and> (truthy symbol \<longrightarrow> Some (oc_symbol r) = symbol)) rows"

section \<open>The table of orders keeps the orders\<close>

definition orders_stored :: "order_cols list \<Rightarrow> order list \<Rightarrow> bool" where
  "orders_stored rows ods \<longleftrightarrow> mapR row_to_order rows = Inr ods"

definition rep_ok :: "dec_rep \<Rightarrow> rat \<Rightarrow> bool" where
  "rep_ok rep x \<longleftrightarrow> dec_value (rep x) = x"

definition rep_opt :: "dec_rep \<Rightarrow> rat option \<Rightarrow> bool" where
  "rep_opt rep x \<longleftrightarrow> (case x of None \<Rightarrow> True | Some v \<Rightarrow> rep_ok rep v)"

definition time_opt :: "time option \<Rightarrow> bool" where
  "time_opt t \<longleftrightarrow> (case t of None \<Rightarrow> True | Some v \<Rightarrow> valid_time v)"

text \<open>What an INSERT writes of an order, and an UPDATE, can be written: its numbers are decimals, its times datetimes.\<close>

definition insertable :: "dec_rep \<Rightarrow> order \<Rightarrow> bool" where
  "insertable rep od \<longleftrightarrow> rep_ok rep (o_requested od) \<and> rep_opt rep (o_limit od) \<and> rep_opt rep (o_stop od) \<and> rep_opt rep (o_ref od)"

definition updatable :: "dec_rep \<Rightarrow> order \<Rightarrow> bool" where
  "updatable rep od \<longleftrightarrow> rep_ok rep (o_executed od) \<and> rep_ok rep (o_cumquote od) \<and> rep_opt rep (o_avg od)
     \<and> time_opt (o_submitted od) \<and> time_opt (o_acked od) \<and> time_opt (o_last_update od) \<and> time_opt (o_terminal_at od)"

named_theorems column_simps

lemma py_dec_rep [column_simps]: "rep_ok rep x \<Longrightarrow> py_dec (dec_str (rep x)) = Inr x"
  by (simp add: py_dec_dec_str rep_ok_def)

lemma opt_dec_rep [column_simps]: "rep_opt rep x \<Longrightarrow> opt_dec (opt_str rep x) = Inr x"
  by (cases x) (simp_all add: rep_opt_def opt_str_def py_dec_rep)

lemma read_write_dt [column_simps]: "time_opt t \<Longrightarrow> read_dt (write_dt t) = t"
  by (rule stored_time_roundtrip) (simp add: time_opt_def split: option.splits)

lemma py_dec_zero [column_simps]: "py_dec ''0'' = Inr 0"
  by code_simp

lemma purpose_of_value [column_simps]: "purpose_of (purpose_value p) = Inr p"
  by (cases p) (simp_all add: purpose_of_def member_def)

lemma status_of_value [column_simps]: "status_of (status_value s) = Inr s"
  by (cases s) (simp_all add: status_of_def member_def)

lemma recon_of_value [column_simps]: "recon_of (recon_value s) = Inr s"
  by (cases s) (simp_all add: recon_of_def member_def)

lemma member_value: "member cls value es s = Inr e \<Longrightarrow> s = value e"
  by (auto simp: member_def split: option.splits dest: find_SomeD)

lemma mapR_list_all2: "mapR f xs = Inr ys \<longleftrightarrow> list_all2 (\<lambda>x y. f x = Inr y) xs ys"
  by (induction xs arbitrary: ys) (auto simp: bindR_Inr list_all2_Cons1)

lemma row_insert: "insertable rep od \<Longrightarrow> row_to_order (insert_cols rep od i t) = Inr (order_row od i)"
  by (cases od) (simp add: row_to_order_def insert_cols_def order_row_def insertable_def column_simps read_dt_def)

lemma row_update:
  assumes "row_to_order r = Inr row" "updatable rep od"
  shows "row_to_order (update_cols rep od t r) = Inr (update_row od row)"
  using assms by (auto simp: row_to_order_def update_cols_def update_row_def updatable_def column_simps bindR_Inr)

text \<open>The columns SQL compares determine the fields the ledger compares.\<close>

lemma row_columns:
  assumes "row_to_order r = Inr od"
  shows "oc_id r = o_id od" "oc_version r = o_version od" "oc_bot r = o_bot od" "oc_symbol r = o_symbol od" "oc_coid r = o_coid od"
    "oc_intent r = o_intent od" "oc_exchange r = o_exchange od" "oc_exid r = o_exid od" "oc_status r = status_value (o_status od)"
  using assms by (auto simp: row_to_order_def bindR_Inr status_of_def dest: member_value)

lemma status_value_inj: "status_value a = status_value b \<longleftrightarrow> a = b"
  by (metis status_of_value old.sum.inject(2))

lemma stored_insert: "orders_stored rows ods \<Longrightarrow> insertable rep od \<Longrightarrow> orders_stored (rows @ [insert_cols rep od i t]) (ods @ [order_row od i])"
  by (simp add: orders_stored_def mapR_list_all2 row_insert list_all2_appendI)

lemma stored_update:
  assumes "orders_stored rows ods" "updatable rep od"
  shows "orders_stored (sql_update_order rep od t rows) (map (\<lambda>row. if same_row od row then update_row od row else row) ods)"
  using assms(1) unfolding orders_stored_def mapR_list_all2 sql_update_order_def list.rel_map
  by (rule list_all2_mono) (use assms(2) row_update in \<open>auto simp: same_row_def row_columns\<close>)

lemma stored_filter:
  assumes "list_all2 R xs ys" "\<And>x y. R x y \<Longrightarrow> P x \<longleftrightarrow> Q y"
  shows "list_all2 R (filter P xs) (filter Q ys)"
  using assms by (induction xs ys rule: list_all2_induct) auto

lemma stored_find:
  assumes "list_all2 R xs ys" "\<And>x y. R x y \<Longrightarrow> P x \<longleftrightarrow> Q y"
  shows "rel_option R (find P xs) (find Q ys)"
  using assms by (induction xs ys rule: list_all2_induct) auto

lemma stored_non_terminal:
  assumes "orders_stored rows ods"
  shows "orders_stored (sql_non_terminal botid symbol rows)
    (filter (\<lambda>od. o_bot od = botid \<and> o_status od \<notin> set TERMINAL_STATUSES \<and> (truthy symbol \<longrightarrow> Some (o_symbol od) = symbol)) ods)"
  using assms unfolding orders_stored_def mapR_list_all2 sql_non_terminal_def
  by (rule stored_filter) (auto simp: row_columns image_iff status_value_inj)

text \<open>How the ledger's operations change the list of orders.\<close>

lemma insert_orders:
  "d_orders (db (snd (insert_intent_and_order it od w))) =
     (case fst (insert_intent_and_order it od w) of
        Inr (True, x) \<Rightarrow> d_orders (db w) @ [order_row od (o_id x)] | _ \<Rightarrow> d_orders (db w))"
  by (simp add: insert_intent_and_order_def transaction_def bindE_def thenE_def db_get_def db_upd_def getE_def updE_def
      ret_def raise_def Let_def)

lemma save_orders:
  "d_orders (db (snd (save_order od w))) =
     (case fst (save_order od w) of
        Inr _ \<Rightarrow> map (\<lambda>row. if same_row od row then update_row od row else row) (d_orders (db w)) | Inl _ \<Rightarrow> d_orders (db w))"
  by (simp add: save_order_def transaction_def bindE_def thenE_def db_get_def db_upd_def getE_def updE_def ret_def raise_def Let_def)

text \<open>
  C19: the table of orders keeps the orders. Let the rows of the table read as the orders of the ledger, and the numbers and times of the objects to
  write be ones the store can write. Then inserting an order and updating one, as the statements write the text columns, give rows that read as the orders after
  the ledger's operation, a refused operation included; and the rows a query finds by comparing text columns read as the orders the ledger's operation finds.
\<close>

theorem orders_table_refines:
  assumes "orders_stored rows (d_orders (db w))" "insertable rep od" "updatable rep od'"
  shows "orders_stored (case fst (insert_intent_and_order it od w) of
        Inr (True, x) \<Rightarrow> rows @ [insert_cols rep od (o_id x) (clk w)] | _ \<Rightarrow> rows) (d_orders (db (snd (insert_intent_and_order it od w))))
    \<and> orders_stored (case fst (save_order od' w) of
        Inr _ \<Rightarrow> sql_update_order rep od' (clk w) rows | Inl _ \<Rightarrow> rows) (d_orders (db (snd (save_order od' w))))
    \<and> mapR row_to_order (sql_non_terminal botid symbol rows) = fst (non_terminal_orders botid symbol w)
    \<and> fst (get_order coid w) = (case sql_order_by oc_coid coid rows of None \<Rightarrow> Inr None | Some r \<Rightarrow> bindR (row_to_order r) (\<lambda>od. Inr (Some od)))"
proof (intro conjI)
  show "orders_stored (case fst (insert_intent_and_order it od w) of
      Inr (True, x) \<Rightarrow> rows @ [insert_cols rep od (o_id x) (clk w)] | _ \<Rightarrow> rows) (d_orders (db (snd (insert_intent_and_order it od w))))"
    unfolding insert_orders using assms(1,2) stored_insert by (auto split: sum.split bool.split)
  show "orders_stored (case fst (save_order od' w) of
      Inr _ \<Rightarrow> sql_update_order rep od' (clk w) rows | Inl _ \<Rightarrow> rows) (d_orders (db (snd (save_order od' w))))"
    unfolding save_orders using assms(1,3) stored_update by (auto split: sum.split)
  show "mapR row_to_order (sql_non_terminal botid symbol rows) = fst (non_terminal_orders botid symbol w)"
    using stored_non_terminal [OF assms(1)] by (simp add: non_terminal_orders_def db_get_def getE_def orders_stored_def)
  have "rel_option (\<lambda>r od. row_to_order r = Inr od) (find (\<lambda>r. oc_coid r = coid) rows) (find (\<lambda>od. o_coid od = coid) (d_orders (db w)))"
    by (rule stored_find [OF assms(1) [unfolded orders_stored_def mapR_list_all2]]) (simp add: row_columns)
  then show "fst (get_order coid w) = (case sql_order_by oc_coid coid rows of None \<Rightarrow> Inr None | Some r \<Rightarrow> bindR (row_to_order r) (\<lambda>od. Inr (Some od)))"
    by (auto simp: get_order_def db_get_def getE_def sql_order_by_def split: option.split elim: option.rel_cases)
qed

definition sample_order :: order where
  "sample_order = \<lparr>o_bot = ''b'', o_exchange = ''binance'', o_symbol = ''BTC/USDT'', o_side = BUY, o_type = MARKET, o_purpose = ENTRY,
     o_coid = ''cb-1'', o_intent = ''i1'', o_requested = 1 / 2, o_status = SUBMITTING, o_id = 1, o_exid = None, o_executed = 0, o_cumquote = 0,
     o_avg = None, o_limit = None, o_stop = None, o_ref = Some (1 / 2), o_ambiguous = False, o_reject = None, o_submitted = Some 1700000000500000,
     o_acked = None, o_last_update = None, o_last_update_ms = None, o_terminal_at = None, o_raw = [], o_version = 0\<rparr>"

definition sample_world :: "unit world" where
  "sample_world = \<lparr>db = empty_ledger\<lparr>d_orders := [order_row sample_order 1], d_next_order := 2\<rparr>, depth = 0, clk = 1700000000500000, ext = ()\<rparr>"

definition halves :: dec_rep where
  "halves x = (if x = 0 then (0, 0) else (50, - 2))"

theorem orders_table_refines_witness:
  "orders_stored (sql_update_order halves sample_order 1700000000500000 [insert_cols halves sample_order 1 0])
     (d_orders (db (snd (save_order sample_order sample_world))))
   \<and> fst (get_order ''cb-1'' sample_world) = Inr (Some (order_row sample_order 1))"
proof -
  have ok: "insertable halves sample_order" "updatable halves sample_order"
    by (simp_all add: insertable_def updatable_def sample_order_def rep_ok_def rep_opt_def time_opt_def halves_def dec_value_def
        valid_time_def valid_day_def power_int_def power2_eq_square)
  have st: "orders_stored [insert_cols halves sample_order 1 0] (d_orders (db sample_world))"
    using row_insert [OF ok(1)] by (simp add: orders_stored_def sample_world_def)
  have "fst (save_order sample_order sample_world) = Inr (sample_order\<lparr>o_version := 1\<rparr>)"
    by (simp add: save_order_def sample_world_def sample_order_def order_row_def exid_taken_def same_row_def transaction_def
        bindE_def thenE_def db_get_def db_upd_def getE_def updE_def ret_def raise_def Let_def)
  moreover have "sql_order_by oc_coid ''cb-1'' [insert_cols halves sample_order 1 0] = Some (insert_cols halves sample_order 1 0)"
    by (simp add: sql_order_by_def insert_cols_def sample_order_def)
  ultimately show ?thesis
    using orders_table_refines [OF st ok, of undefined "''b''" None "''cb-1''"] row_insert [OF ok(1), of 1 0]
    by (simp add: sample_world_def)
qed

section \<open>Fills\<close>

record fill_cols =
  fc_id :: int
  fc_order :: int
  fc_coid :: string
  fc_trade_id :: "string option"
  fc_symbol :: string
  fc_side :: string
  fc_qty :: string
  fc_price :: string
  fc_quote :: string
  fc_commission :: string
  fc_asset :: "string option"
  fc_time :: string
  fc_key :: string
  fc_created :: string

definition fill_insert :: "dec_rep \<Rightarrow> fill \<Rightarrow> int \<Rightarrow> time \<Rightarrow> fill_cols" where
  "fill_insert rep f i t =
     \<lparr>fc_id = i, fc_order = f_order_id f, fc_coid = f_coid f, fc_trade_id = f_trade_id f, fc_symbol = f_symbol f, fc_side = f_side f,
      fc_qty = dec_str (rep (f_qty f)), fc_price = dec_str (rep (f_price f)), fc_quote = dec_str (rep (f_quote f)),
      fc_commission = dec_str (rep (f_commission f)), fc_asset = f_commission_asset f, fc_time = iso (f_time f), fc_key = f_key f,
      fc_created = iso t\<rparr>"

definition row_to_fill :: "fill_cols \<Rightarrow> exn + fill" where
  "row_to_fill r = bindR (py_dec (fc_qty r)) (\<lambda>qty. bindR (py_dec (fc_price r)) (\<lambda>price.
     bindR (py_dec (fc_quote r)) (\<lambda>quote. bindR (py_dec (fc_commission r)) (\<lambda>commission. Inr
       \<lparr>f_order_id = fc_order r, f_coid = fc_coid r, f_symbol = fc_symbol r, f_side = fc_side r, f_qty = qty, f_price = price,
        f_quote = quote, f_commission = commission, f_commission_asset = fc_asset r, f_time = from_iso (fc_time r),
        f_key = fc_key r, f_trade_id = fc_trade_id r, f_id = fc_id r\<rparr>))))"

text \<open>\<open>SELECT f.* FROM fills f JOIN orders o ... ORDER BY f.execution_time, f.id\<close>: the texts of the times are compared.\<close>

definition sql_fills :: "string \<Rightarrow> string \<Rightarrow> order_cols list \<Rightarrow> fill_cols list \<Rightarrow> fill_cols list" where
  "sql_fills botid symbol orders rows = sort_key fc_time (sort_key fc_id (filter (\<lambda>r. fc_symbol r = symbol
     \<and> (\<exists>oc\<in>set orders. oc_id oc = fc_order r \<and> oc_bot oc = botid)) rows))"

text \<open>A row stands for a fill when it reads as the fill and its time is a text the store writes.\<close>

definition iso_text :: "string \<Rightarrow> bool" where
  "iso_text s \<longleftrightarrow> valid_time (from_iso s) \<and> iso (from_iso s) = s"

definition fill_row :: "fill_cols \<Rightarrow> fill \<Rightarrow> bool" where
  "fill_row r f \<longleftrightarrow> row_to_fill r = Inr f \<and> iso_text (fc_time r)"

definition fill_writable :: "dec_rep \<Rightarrow> fill \<Rightarrow> bool" where
  "fill_writable rep f \<longleftrightarrow> rep_ok rep (f_qty f) \<and> rep_ok rep (f_price f) \<and> rep_ok rep (f_quote f) \<and> rep_ok rep (f_commission f) \<and> valid_time (f_time f)"

lemma iso_text_iso: "valid_time t \<Longrightarrow> iso_text (iso t)"
  by (simp add: iso_text_def from_iso_iso)

lemma fill_row_insert: "fill_writable rep f \<Longrightarrow> fill_row (fill_insert rep f i t) (f\<lparr>f_id := i\<rparr>)"
  by (cases f) (simp add: fill_row_def row_to_fill_def fill_insert_def fill_writable_def column_simps iso_text_iso from_iso_iso)

lemma fill_row_columns:
  assumes "fill_row r f"
  shows "fc_id r = f_id f" "fc_order r = f_order_id f" "fc_symbol r = f_symbol f" "fc_time r = iso (f_time f)" "valid_time (f_time f)"
    "fc_key r = f_key f" "fc_trade_id r = f_trade_id f"
  using assms by (auto simp: fill_row_def row_to_fill_def bindR_Inr iso_text_def)

lemma iso_le: "valid_time a \<Longrightarrow> valid_time b \<Longrightarrow> iso a \<le> iso b \<longleftrightarrow> a \<le> b"
  using iso_less [of a b] iso_less [of b a] by (cases a b rule: linorder_cases) (auto simp: less_le_not_le)

text \<open>Sorting related lists by keys with the same order gives related lists.\<close>

lemma sort_key_related:
  assumes "list_all2 R xs ys" "\<And>x x' y y'. R x y \<Longrightarrow> R x' y' \<Longrightarrow> k x \<le> k x' \<longleftrightarrow> l y \<le> l y'"
  shows "list_all2 R (sort_key k xs) (sort_key l ys)"
  using assms(1)
proof (induction xs ys rule: list_all2_induct)
  case (Cons x xs y ys)
  have "list_all2 R (insort_key k x as) (insort_key l y bs)" if "list_all2 R as bs" for as bs
    using that by (induction as bs rule: list_all2_induct) (use Cons(1) assms(2) in auto)
  then show ?case using Cons by simp
qed simp

lemma sql_fills_related:
  assumes "list_all2 fill_row rows (d_fills d)" "orders_stored orders (d_orders d)" "fresh_ids (map f_id (d_fills d)) n"
  shows "list_all2 fill_row (sql_fills botid symbol orders rows) (fills_of botid symbol d)"
proof -
  let ?P = "\<lambda>f. f_symbol f = symbol \<and> (\<exists>od\<in>set (d_orders d). o_id od = f_order_id f \<and> o_bot od = botid)"
  have ords: "list_all2 (\<lambda>r od. row_to_order r = Inr od) orders (d_orders d)" using assms(2) by (simp add: orders_stored_def mapR_list_all2)
  have join: "(\<exists>oc\<in>set orders. oc_id oc = i \<and> oc_bot oc = botid) \<longleftrightarrow> (\<exists>od\<in>set (d_orders d). o_id od = i \<and> o_bot od = botid)" for i
    using ords by (induction rule: list_all2_induct) (auto simp: row_columns)
  have "list_all2 fill_row (filter (\<lambda>r. fc_symbol r = symbol \<and> (\<exists>oc\<in>set orders. oc_id oc = fc_order r \<and> oc_bot oc = botid)) rows) (filter ?P (d_fills d))"
    by (rule stored_filter [OF assms(1)]) (simp add: join fill_row_columns)
  then have "list_all2 fill_row (sql_fills botid symbol orders rows) (sort_key f_time (sort_key f_id (filter ?P (d_fills d))))"
    unfolding sql_fills_def by (intro sort_key_related) (simp_all add: fill_row_columns iso_le)
  moreover have "sorted (map f_id (filter ?P (d_fills d)))"
    using assms(3) by (auto simp: fresh_ids_def strict_sorted_iff sorted_filter)
  ultimately show ?thesis by (simp add: fills_of_def sorted_sort_id sort_key_id_if_sorted)
qed

lemma insert_fills:
  "d_fills (db (snd (insert_fill f w))) =
     (case fst (insert_fill f w) of Inr True \<Rightarrow> d_fills (db w) @ [f\<lparr>f_id := d_next_fill (db w)\<rparr>] | _ \<Rightarrow> d_fills (db w))"
  by (simp add: insert_fill_def transaction_def bindE_def thenE_def db_get_def db_upd_def getE_def updE_def ret_def Let_def)

section \<open>Positions and reconciliation states\<close>

record position_cols =
  pc_bot :: string
  pc_symbol :: string
  pc_side :: string
  pc_qty :: string
  pc_avg :: string
  pc_realized :: string
  pc_unrealized :: string
  pc_mark :: "string option"
  pc_stop :: "string option"
  pc_fees :: "(string \<times> string) list option"
  pc_opened :: "string option"
  pc_updated :: "string option"

definition position_values :: "dec_rep \<Rightarrow> position \<Rightarrow> position_cols" where
  "position_values rep p =
     \<lparr>pc_bot = p_bot p, pc_symbol = p_symbol p, pc_side = p_side p, pc_qty = dec_str (rep (p_qty p)), pc_avg = dec_str (rep (p_avg p)),
      pc_realized = dec_str (rep (p_realized p)), pc_unrealized = dec_str (rep (p_unrealized p)), pc_mark = opt_str rep (p_mark p),
      pc_stop = opt_str rep (p_stop p), pc_fees = Some (map (\<lambda>(k, v). (k, dec_str (rep v))) (p_fees_other p)),
      pc_opened = write_dt (p_opened p), pc_updated = write_dt (p_updated p)\<rparr>"

definition row_to_position :: "position_cols \<Rightarrow> exn + position" where
  "row_to_position r = bindR (py_dec (pc_qty r)) (\<lambda>qty. bindR (py_dec (pc_avg r)) (\<lambda>avg. bindR (py_dec (pc_realized r)) (\<lambda>realized.
     bindR (py_dec (pc_unrealized r)) (\<lambda>unrealized. bindR (opt_dec (pc_mark r)) (\<lambda>mark. bindR (opt_dec (pc_stop r)) (\<lambda>stop.
     bindR (mapR (\<lambda>(k, v). bindR (py_dec v) (\<lambda>x. Inr (k, x))) (case pc_fees r of None \<Rightarrow> [] | Some j \<Rightarrow> j)) (\<lambda>fees. Inr
       \<lparr>p_bot = pc_bot r, p_symbol = pc_symbol r, p_side = pc_side r, p_qty = qty, p_avg = avg, p_realized = realized,
        p_unrealized = unrealized, p_mark = mark, p_stop = stop, p_fees_other = fees, p_opened = read_dt (pc_opened r),
        p_updated = read_dt (pc_updated r)\<rparr>)))))))"

definition position_writable :: "dec_rep \<Rightarrow> position \<Rightarrow> bool" where
  "position_writable rep p \<longleftrightarrow> rep_ok rep (p_qty p) \<and> rep_ok rep (p_avg p) \<and> rep_ok rep (p_realized p) \<and> rep_ok rep (p_unrealized p)
     \<and> rep_opt rep (p_mark p) \<and> rep_opt rep (p_stop p) \<and> list_all (\<lambda>kv. rep_ok rep (snd kv)) (p_fees_other p) \<and> time_opt (p_opened p)"

record recon_cols =
  sc_bot :: string
  sc_status :: string
  sc_reason :: "string option"
  sc_updated :: "string option"
  sc_last_success :: "string option"
  sc_ws_connected :: int
  sc_last_ws_event :: "string option"
  sc_last_ack :: "string option"

definition recon_values :: "recon_state \<Rightarrow> recon_cols" where
  "recon_values st =
     \<lparr>sc_bot = rs_bot st, sc_status = recon_value (rs_status st), sc_reason = Some (rs_reason st), sc_updated = write_dt (rs_updated st),
      sc_last_success = write_dt (rs_last_success st), sc_ws_connected = of_bool (rs_ws_connected st),
      sc_last_ws_event = write_dt (rs_last_ws_event st), sc_last_ack = rs_last_ack st\<rparr>"

definition row_to_recon :: "recon_cols \<Rightarrow> exn + recon_state" where
  "row_to_recon r = bindR (recon_of (sc_status r)) (\<lambda>status. Inr
     \<lparr>rs_bot = sc_bot r, rs_status = status, rs_reason = or_empty (sc_reason r), rs_updated = read_dt (sc_updated r),
      rs_last_success = read_dt (sc_last_success r), rs_ws_connected = (sc_ws_connected r \<noteq> 0),
      rs_last_ws_event = read_dt (sc_last_ws_event r), rs_last_ack = sc_last_ack r\<rparr>)"

definition recon_writable :: "recon_state \<Rightarrow> bool" where
  "recon_writable st \<longleftrightarrow> time_opt (rs_last_success st) \<and> time_opt (rs_last_ws_event st)"

lemma fees_read: "list_all (\<lambda>kv. rep_ok rep (snd kv)) xs \<Longrightarrow>
  mapR (\<lambda>(k, v). bindR (py_dec v) (\<lambda>x. Inr (k, x))) (map (\<lambda>(k, v). (k, dec_str (rep v))) xs) = Inr xs"
  by (induction xs) (auto simp: column_simps)

lemma position_read: "position_writable rep p \<Longrightarrow> time_opt (p_updated p) \<Longrightarrow> row_to_position (position_values rep p) = Inr p"
  by (cases p) (simp add: row_to_position_def position_values_def position_writable_def column_simps fees_read)

lemma recon_read: "recon_writable st \<Longrightarrow> time_opt (rs_updated st) \<Longrightarrow> row_to_recon (recon_values st) = Inr st"
  by (cases st) (simp add: row_to_recon_def recon_values_def recon_writable_def column_simps or_empty_def)

lemma position_columns: "row_to_position r = Inr p \<Longrightarrow> (pc_bot r, pc_symbol r) = position_key p"
  by (auto simp: row_to_position_def bindR_Inr position_key_def)

lemma recon_columns: "row_to_recon r = Inr st \<Longrightarrow> sc_bot r = rs_bot st"
  by (auto simp: row_to_recon_def bindR_Inr)

lemma stored_upsert:
  assumes "list_all2 R xs ys" "R x y" "\<And>a b. R a b \<Longrightarrow> kc a = k b"
  shows "list_all2 R (upsert kc x xs) (upsert k y ys)"
  using assms(1) by (induction xs ys rule: list_all2_induct) (use assms(2,3) in auto)

text \<open>
  Saving a position or a reconciliation state writes a row from which the saved object, with the time of the save, is read again; the other rows stay.
\<close>

theorem saved_rows_refine:
  assumes "list_all2 (\<lambda>r p. row_to_position r = Inr p) prows (d_positions (db w))" "position_writable rep p"
    "list_all2 (\<lambda>r st. row_to_recon r = Inr st) srows (d_recon (db w))" "recon_writable st" "valid_time (clk w)"
  shows "list_all2 (\<lambda>r p. row_to_position r = Inr p)
      (upsert (\<lambda>r. (pc_bot r, pc_symbol r)) (position_values rep (p\<lparr>p_updated := Some (clk w)\<rparr>)) prows) (d_positions (db (snd (save_position p w))))
    \<and> list_all2 (\<lambda>r st. row_to_recon r = Inr st)
      (upsert sc_bot (recon_values (st\<lparr>rs_updated := Some (clk w)\<rparr>)) srows) (d_recon (db (snd (save_recon_state st w))))"
proof
  have "row_to_position (position_values rep (p\<lparr>p_updated := Some (clk w)\<rparr>)) = Inr (p\<lparr>p_updated := Some (clk w)\<rparr>)"
    using assms(2,5) by (intro position_read) (simp_all add: position_writable_def time_opt_def)
  from stored_upsert [OF assms(1) this position_columns]
  show "list_all2 (\<lambda>r p. row_to_position r = Inr p)
      (upsert (\<lambda>r. (pc_bot r, pc_symbol r)) (position_values rep (p\<lparr>p_updated := Some (clk w)\<rparr>)) prows) (d_positions (db (snd (save_position p w))))"
    by (simp add: save_position_def now_def transaction_def bindE_def thenE_def db_upd_def getE_def updE_def ret_def Let_def)
  have "row_to_recon (recon_values (st\<lparr>rs_updated := Some (clk w)\<rparr>)) = Inr (st\<lparr>rs_updated := Some (clk w)\<rparr>)"
    using assms(4,5) by (intro recon_read) (simp_all add: recon_writable_def time_opt_def)
  from stored_upsert [OF assms(3) this recon_columns]
  show "list_all2 (\<lambda>r st. row_to_recon r = Inr st)
      (upsert sc_bot (recon_values (st\<lparr>rs_updated := Some (clk w)\<rparr>)) srows) (d_recon (db (snd (save_recon_state st w))))"
    by (simp add: save_recon_state_def now_def transaction_def bindE_def db_upd_def getE_def updE_def)
qed

section \<open>The outbox and the leases\<close>

record outbox_cols =
  xc_id :: int
  xc_kind :: string
  xc_key :: string
  xc_payload :: "(string \<times> jval) list"
  xc_status :: string
  xc_attempts :: int
  xc_next :: string
  xc_error :: "string option"

fun outbox_value :: "outbox_status \<Rightarrow> string" where
  "outbox_value PENDING = ''PENDING''"
| "outbox_value SENT = ''SENT''"
| "outbox_value DEAD = ''DEAD''"

text \<open>The columns of a message: what \<^verbatim>\<open>enqueue\<close> inserts, \<^verbatim>\<open>mark_outbox_sent\<close> and \<^verbatim>\<open>mark_outbox_failed\<close> set.\<close>

definition enqueue_cols :: "string \<Rightarrow> string \<Rightarrow> (string \<times> jval) list \<Rightarrow> int \<Rightarrow> time \<Rightarrow> outbox_cols" where
  "enqueue_cols kind key payload i t = \<lparr>xc_id = i, xc_kind = kind, xc_key = key, xc_payload = payload, xc_status = ''PENDING'',
     xc_attempts = 0, xc_next = iso t, xc_error = None\<rparr>"

definition sql_outbox_sent :: "int \<Rightarrow> outbox_cols list \<Rightarrow> outbox_cols list" where
  "sql_outbox_sent i rows = map (\<lambda>r. if xc_id r = i then r\<lparr>xc_status := ''SENT''\<rparr> else r) rows"

definition sql_outbox_failed :: "int \<Rightarrow> string \<Rightarrow> time \<Rightarrow> bool \<Rightarrow> outbox_cols list \<Rightarrow> outbox_cols list" where
  "sql_outbox_failed i err next_at dead rows = map (\<lambda>r. if xc_id r = i
     then r\<lparr>xc_attempts := xc_attempts r + 1, xc_error := Some (take 500 err), xc_next := iso next_at,
            xc_status := (if dead then ''DEAD'' else ''PENDING'')\<rparr> else r) rows"

text \<open>\<open>SELECT * FROM outbox WHERE status='PENDING' AND next_attempt_at<=? ORDER BY id LIMIT ?\<close>\<close>

definition sql_pending :: "time \<Rightarrow> nat \<Rightarrow> outbox_cols list \<Rightarrow> outbox_cols list" where
  "sql_pending t limit rows = take limit (sort_key xc_id (filter (\<lambda>r. xc_status r = ''PENDING'' \<and> xc_next r \<le> iso t) rows))"

text \<open>The columns of a message with its time as text.\<close>

definition outbox_row_cols :: "outbox_row \<Rightarrow> outbox_cols" where
  "outbox_row_cols x = \<lparr>xc_id = ob_id x, xc_kind = ob_kind x, xc_key = ob_key x, xc_payload = ob_payload x,
     xc_status = outbox_value (ob_status x), xc_attempts = ob_attempts x, xc_next = iso (ob_next x), xc_error = ob_error x\<rparr>"

type_synonym lease_cols = "(string \<times> string \<times> string) list"

definition lease_cols :: "(string \<times> string \<times> time) list \<Rightarrow> lease_cols" where
  "lease_cols ls = map (\<lambda>(n, h, e). (n, h, iso e)) ls"

definition sql_acquire :: "string \<Rightarrow> string \<Rightarrow> int \<Rightarrow> time \<Rightarrow> lease_cols \<Rightarrow> bool \<times> lease_cols" where
  "sql_acquire name owner ttl t rows = (case map_of rows name of
     Some (holder, expires) \<Rightarrow>
       if holder \<noteq> owner \<and> t < from_iso expires then (False, rows)
       else (True, AList.update name (owner, iso (t + seconds ttl)) rows)
   | None \<Rightarrow> (True, AList.update name (owner, iso (t + seconds ttl)) rows))"

lemma outbox_value_pending: "outbox_value s = ''PENDING'' \<longleftrightarrow> s = PENDING"
  by (cases s) simp_all

lemma sort_key_map: "sort_key k (map f xs) = map f (sort_key (\<lambda>x. k (f x)) xs)"
proof (induction xs)
  case (Cons x xs)
  have "insort_key k (f x) (map f ys) = map f (insort_key (\<lambda>x. k (f x)) x ys)" for ys by (induction ys) auto
  then show ?case using Cons by simp
qed simp

lemma sql_pending_refines:
  assumes "\<forall>x\<in>set xs. valid_time (ob_next x)" "valid_time t" "sorted (map ob_id xs)"
  shows "sql_pending t limit (map outbox_row_cols xs) = map outbox_row_cols (take limit (filter (\<lambda>r. ob_status r = PENDING \<and> ob_next r \<le> t) xs))"
proof -
  have "filter (\<lambda>r. xc_status r = ''PENDING'' \<and> xc_next r \<le> iso t) (map outbox_row_cols xs) = map outbox_row_cols (filter (\<lambda>r. ob_status r = PENDING \<and> ob_next r \<le> t) xs)"
    unfolding filter_map o_def using assms(1,2)
    by (intro arg_cong [where f = "map outbox_row_cols"] filter_cong refl) (simp add: outbox_row_cols_def outbox_value_pending iso_le)
  moreover have "sort_key ob_id (filter (\<lambda>r. ob_status r = PENDING \<and> ob_next r \<le> t) xs) = filter (\<lambda>r. ob_status r = PENDING \<and> ob_next r \<le> t) xs"
    using assms(3) by (intro sort_key_id_if_sorted sorted_filter)
  ultimately show ?thesis by (simp add: sql_pending_def sort_key_map take_map outbox_row_cols_def)
qed

lemma map_of_lease_cols: "map_of (lease_cols ls) name = map_option (\<lambda>(h, e). (h, iso e)) (map_of ls name)"
  by (induction ls) (auto simp: lease_cols_def)

lemma update_lease_cols: "AList.update name (owner, iso e) (lease_cols ls) = lease_cols (AList.update name (owner, e) ls)"
  by (induction ls) (auto simp: lease_cols_def)

lemma sql_acquire_refines:
  assumes "\<forall>l\<in>set (d_leases (db w)). valid_time (snd (snd l))"
  shows "fst (acquire_lease name owner ttl w) = Inr (fst (sql_acquire name owner ttl (clk w) (lease_cols (d_leases (db w)))))
    \<and> lease_cols (d_leases (db (snd (acquire_lease name owner ttl w)))) = snd (sql_acquire name owner ttl (clk w) (lease_cols (d_leases (db w))))"
proof (cases "map_of (d_leases (db w)) name")
  case (Some he)
  obtain h e where he: "he = (h, e)" by (cases he)
  have "valid_time e" using assms map_of_SomeD [OF Some] by (auto simp: he)
  then show ?thesis using Some
    by (simp add: acquire_lease_def sql_acquire_def he map_of_lease_cols update_lease_cols from_iso_iso now_def transaction_def
        bindE_def thenE_def db_get_def db_upd_def getE_def updE_def ret_def Let_def)
qed (simp add: acquire_lease_def sql_acquire_def map_of_lease_cols update_lease_cols now_def transaction_def
      bindE_def thenE_def db_get_def db_upd_def getE_def updE_def ret_def Let_def)

lemma outbox_writes:
  "map outbox_row_cols (d_outbox (db (snd (mark_outbox_sent i w)))) = sql_outbox_sent i (map outbox_row_cols (d_outbox (db w)))"
  "map outbox_row_cols (d_outbox (db (snd (mark_outbox_failed i err next_at dead w)))) = sql_outbox_failed i err next_at dead (map outbox_row_cols (d_outbox (db w)))"
  "map outbox_row_cols (d_outbox (db (snd (enqueue kind key payload w)))) = map outbox_row_cols (d_outbox (db w))
     @ (if fst (enqueue kind key payload w) = Inr True then [enqueue_cols kind key payload (d_next_outbox (db w)) (clk w)] else [])"
  by (simp_all add: mark_outbox_sent_def mark_outbox_failed_def enqueue_def sql_outbox_sent_def sql_outbox_failed_def enqueue_cols_def
      outbox_row_cols_def upd_outbox_def now_def transaction_def bindE_def thenE_def db_get_def db_upd_def getE_def updE_def ret_def Let_def)

definition times_valid :: "ledger \<Rightarrow> bool" where
  "times_valid d \<longleftrightarrow> list_all (\<lambda>x. valid_time (ob_next x)) (d_outbox d) \<and> list_all (\<lambda>l. valid_time (snd (snd l))) (d_leases d)"

text \<open>
  C40: comparing and sorting stored times as text is comparing and sorting the times. Let the ledger's times be datetimes Python has and the rows of orders and fills
  read as those of the ledger. Then the fills of a symbol that SQL sorts by the text of their time are the fills in the order of time; the messages whose
  stored time is at most the text of now are the messages that are due, in the order of their ids and up to the limit; and a lease is given, and its row
  written, by the text of its expiry exactly as by the expiry.
\<close>

theorem queries_refine:
  assumes "orders_stored orows (d_orders (db w))" "list_all2 fill_row frows (d_fills (db w))" "ledger_inv (db w)" "times_valid (db w)" "valid_time (clk w)"
  shows "mapR row_to_fill (sql_fills botid symbol orows frows) = fst (list_fills botid symbol w)
    \<and> map_sum id (map outbox_row_cols) (fst (pending_outbox limit w)) = Inr (sql_pending (clk w) limit (map outbox_row_cols (d_outbox (db w))))
    \<and> fst (acquire_lease name owner ttl w) = Inr (fst (sql_acquire name owner ttl (clk w) (lease_cols (d_leases (db w)))))
    \<and> lease_cols (d_leases (db (snd (acquire_lease name owner ttl w)))) = snd (sql_acquire name owner ttl (clk w) (lease_cols (d_leases (db w))))"
proof -
  have ids: "fresh_ids (map f_id (d_fills (db w))) (d_next_fill (db w))" "sorted (map ob_id (d_outbox (db w)))"
    using assms(3) by (auto simp: ledger_inv_def fills_inv_def tables_inv_def fresh_ids_def strict_sorted_iff)
  have "list_all2 fill_row (sql_fills botid symbol orows frows) (fills_of botid symbol (db w))"
    by (rule sql_fills_related [OF assms(2,1) ids(1)])
  then have "mapR row_to_fill (sql_fills botid symbol orows frows) = fst (list_fills botid symbol w)"
    by (simp add: mapR_list_all2 list_fills_def db_get_def getE_def fill_row_def list_all2_conv_all_nth)
  moreover have "map_sum id (map outbox_row_cols) (fst (pending_outbox limit w)) = Inr (sql_pending (clk w) limit (map outbox_row_cols (d_outbox (db w))))"
    using sql_pending_refines [OF _ assms(5) ids(2)] assms(4)
    by (simp add: times_valid_def list_all_iff pending_outbox_def now_def bindE_def db_get_def getE_def)
  ultimately show ?thesis using sql_acquire_refines [of w] assms(4) by (auto simp: times_valid_def list_all_iff)
qed

definition sample_fill :: "string \<Rightarrow> time \<Rightarrow> int \<Rightarrow> fill" where
  "sample_fill key t i = \<lparr>f_order_id = 1, f_coid = ''cb-1'', f_symbol = ''BTC/USDT'', f_side = BUY, f_qty = 1 / 2, f_price = 1 / 2, f_quote = 1 / 2,
     f_commission = 0, f_commission_asset = None, f_time = t, f_key = key, f_trade_id = None, f_id = i\<rparr>"

definition sample_full :: "unit world" where
  "sample_full = \<lparr>db = empty_ledger\<lparr>d_intents := [\<lparr>oi_id = ''i1'', oi_bot = ''b'', oi_symbol = ''BTC/USDT'', oi_side = BUY, oi_type = MARKET,
       oi_qty = 1 / 2, oi_purpose = ENTRY, oi_strategy_name = ''v1'', oi_strategy_version = ''1'', oi_signal_id = None, oi_limit = None,
       oi_stop = None, oi_ref = None, oi_created_at = 0\<rparr>],
     d_orders := [order_row sample_order 1], d_next_order := 2, d_fills := [sample_fill ''k1'' 1700000000500000 1, sample_fill ''k2'' 1700000000000000 2],
     d_next_fill := 3, d_leases := [(''outbox'', ''worker'', 1700000001000000)]\<rparr>, depth = 0, clk = 1700000000500000, ext = ()\<rparr>"

theorem queries_refine_witness:
  "mapR row_to_fill (sql_fills ''b'' ''BTC/USDT'' [insert_cols halves sample_order 1 0]
       [fill_insert halves (sample_fill ''k1'' 1700000000500000 1) 1 0, fill_insert halves (sample_fill ''k2'' 1700000000000000 2) 2 0])
     = Inr [sample_fill ''k2'' 1700000000000000 2, sample_fill ''k1'' 1700000000500000 1]
   \<and> \<not> fst (sql_acquire ''outbox'' ''other'' 30 1700000000500000 (lease_cols [(''outbox'', ''worker'', 1700000001000000)]))"
proof -
  have rep: "rep_ok halves 0" "rep_ok halves (1 / 2)" by (simp_all add: rep_ok_def halves_def dec_value_def power_int_def power2_eq_square)
  have vt: "valid_time 1700000000500000" "valid_time 1700000000000000" "valid_time 1700000001000000" by (simp_all add: valid_time_def valid_day_def)
  have "insertable halves sample_order" using rep by (simp add: insertable_def sample_order_def rep_opt_def)
  then have o: "orders_stored [insert_cols halves sample_order 1 0] (d_orders (db sample_full))"
    using row_insert by (simp add: orders_stored_def sample_full_def)
  have fw: "fill_row (fill_insert halves (sample_fill k t i) i 0) (sample_fill k t i)" if "valid_time t" for k t i
    using fill_row_insert [of halves "sample_fill k t i" i 0] rep that by (simp add: fill_writable_def sample_fill_def)
  have f: "list_all2 fill_row [fill_insert halves (sample_fill ''k1'' 1700000000500000 1) 1 0, fill_insert halves (sample_fill ''k2'' 1700000000000000 2) 2 0]
      (d_fills (db sample_full))" using fw vt by (simp add: sample_full_def)
  have i: "ledger_inv (db sample_full)"
    by (simp add: sample_full_def ledger_inv_def orders_inv_def fills_inv_def tables_inv_def fresh_ids_def exids_unique_def trades_unique_def
        empty_ledger_def sample_fill_def order_row_def sample_order_def)
  have t: "times_valid (db sample_full)" "valid_time (clk sample_full)" using vt by (simp_all add: times_valid_def sample_full_def empty_ledger_def)
  have l: "fst (list_fills ''b'' ''BTC/USDT'' sample_full) = Inr [sample_fill ''k2'' 1700000000000000 2, sample_fill ''k1'' 1700000000500000 1]"
    "fst (acquire_lease ''outbox'' ''other'' 30 sample_full) = Inr False"
    by (simp_all add: list_fills_def fills_of_def sample_full_def db_get_def getE_def sample_fill_def order_row_def sample_order_def
        acquire_lease_def now_def transaction_def bindE_def thenE_def db_upd_def updE_def ret_def Let_def)
  show ?thesis using queries_refine [OF o f i t, of "''b''" "''BTC/USDT''" 0 "''outbox''" "''other''" 30] l
    by (simp add: sample_full_def)
qed

end
