(* ===== verification/Spec2Isabelle.thy ===== *)
theory Spec2Isabelle
  imports Order_Machine Guarantees Daily_Halt Worker_Machine Stream_Client Redaction Overlay Data_Feed Legacy Setup_Local Sql_Rows
begin

text \<open>
  A verification development for the trading engine and its research code.

  \<^bold>\<open>The program.\<close> Two processes share one SQLite ledger. The trading worker runs a decision cycle per interval: it asks the control plane for
  permission, checks the reconciliation state, takes a snapshot of the market, decides on an exit or an entry and submits at most one order through the order
  service to an executor (simulated in PAPER mode, Binance otherwise). The reconciliation worker keeps a user data stream open, applies its events to orders, fills and positions, compares
  the local state with the exchange's and decides whether trading may go on. Both write messages for the control plane and the operator into an outbox that a
  dispatcher delivers. The research code evaluates strategies on archived candles with the same signals and decides which may be tested
  further. Every guard, early return and raised exception of a modelled handler is a branch of its definition.

  \<^bold>\<open>How the code is represented.\<close> A Python call that may change the state or raise is a value of \<open>('s, 'a) eff\<close>: the state is threaded, an exception keeps the changes made before it, only a database
  transaction undoes them (Prelude, Store). Pure code that may raise has type \<open>exn + 'a\<close>. Dataclasses are records, enumerations datatypes, dictionaries association lists, missing values options.
  Decimals are rationals rounded to 28 digits after every operation, floats rationals rounded to 53 bits (Numeric); NaN is \<open>None\<close>. Times are microseconds since 1970. What is not in the
  repository (exchange and control plane answers, SHA-256, CCXT, requests, feedparser, VADER, scikit-learn, pandas reductions, random draws, the wall clock) is an argument or a
  field of a record, and the properties hold for every behaviour of it unless a hypothesis says otherwise.

  \<^bold>\<open>Theories of the engine.\<close>
  \<^item> Prelude, Numeric, Texts, Clock_Text: calls and their composition (locale \<open>step_preorder\<close>), decimal and float rounding (locale \<open>rounding\<close>, interpreted for both), numbers as text and times as text. What is
    written reads back, and the text order of stored times is the order of time.
  \<^item> Domain, Order_Machine: \<^verbatim>\<open>engine/domain\<close>. The statuses with their order, orders and \<^verbatim>\<open>Order.apply_report\<close>; reports never move an order backwards and commute.
  \<^item> Store, Ledger, Progress, Sql_Rows: \<^verbatim>\<open>engine/infrastructure/store.py\<close>. Tables as lists of rows with their UNIQUE constraints and version check; the ledger invariant, exactly-once insertion (locale
    \<open>insert_once\<close>), leases, and what no call may undo (\<open>advances\<close>). Sql_Rows refines this to the columns SQLite holds, with numbers, times and enumerations as text.
  \<^item> Config: \<^verbatim>\<open>config.py\<close> with \<^verbatim>\<open>validate_runtime\<close>. Setup_Local: \<^verbatim>\<open>scripts/setup_local.py\<close>. Redaction: \<^verbatim>\<open>engine/infrastructure/logging.py\<close>.
  \<^item> Positions, Outbox, Executor, Orders, Ingestion, Reconciliation: the services of \<^verbatim>\<open>engine/application\<close> and \<^verbatim>\<open>engine/execution\<close>, over the locales \<open>ledger_preorder\<close> and \<open>execution\<close> (the contract of an
    executor, interpreted for the PAPER and the Binance executor). Accounting, intent idempotency, exactly-once fills, what a flush of the outbox delivers and marks, and the verdict of a reconciliation.
  \<^item> Risk, Strategy, Market, Cycle, Gates: \<^verbatim>\<open>risk_manager.py\<close>, \<^verbatim>\<open>engine/risk\<close>, \<^verbatim>\<open>strategy.py\<close>, \<^verbatim>\<open>sentiment.py\<close>, \<^verbatim>\<open>engine/strategy\<close>, \<^verbatim>\<open>engine/market_data\<close>, \<^verbatim>\<open>trading_cycle.py\<close>. Which
    intents a call may record (\<open>adds\<close>) and that a recorded one passed every gate. Daily_Halt: a halt of the daily loss check lasts through every sequence of operations of the
    day (\<open>latches\<close>, over the locales \<open>risk_execution\<close> and \<open>halting_cycle\<close>), and no entry is recorded meanwhile.
  \<^item> Outside, Normalizer, Rest_Client, Binance, Stream_Client, Control_Plane, Guarantees: \<^verbatim>\<open>engine/exchanges/binance\<close>, \<^verbatim>\<open>engine/execution/binance.py\<close>, \<^verbatim>\<open>engine/control_plane\<close>. Classification of failures,
    complete paging, the stream's frames, and that ambiguous orders and paging come to an end.
  \<^item> Bootstrap, Worker, Worker_Machine: \<^verbatim>\<open>engine/bootstrap.py\<close>, \<^verbatim>\<open>workers\<close>. The composed engine, the loops, and the interleaving machine of the reconciliation worker. Its step relation
    \<open>mstep\<close> interleaves the event loop, the thread of a run and the thread of the heartbeat, each making one read or one write of the state row at a time; its invariants are proved
    by rule induction.

  \<^bold>\<open>Theories of the research code.\<close>
  \<^item> Backtest, Legacy: \<^verbatim>\<open>research/backtest.py\<close> and the V1 \<^verbatim>\<open>backtester.py\<close> with the old shims. Trades obey their rules; no value depends on later candles.
  \<^item> Indicators, Features, Research_Signals: \<^verbatim>\<open>indicators.py\<close>, \<^verbatim>\<open>engine/strategy/ml_features.py\<close>, \<^verbatim>\<open>research/strategies.py\<close> and the signals of \<^verbatim>\<open>overlay.py\<close> and \<^verbatim>\<open>ml.py\<close>. Every column is \<open>causal\<close>, a predicate with
    introduction rules for each combinator.
  \<^item> Data_Feed, Market_Archive: \<^verbatim>\<open>data_fetcher.py\<close> and \<^verbatim>\<open>research/data.py\<close>. Failures stay inside; only archives with the published digest are read.
  \<^item> Month_Stats, Evaluation, Learning, Overlay: \<^verbatim>\<open>research/evaluate.py\<close>, \<^verbatim>\<open>ml.py\<close>, \<^verbatim>\<open>overlay.py\<close>, \<^verbatim>\<open>sweep.py\<close>. Walk-forwards do not look ahead, parameters are the best of the grid, the held back months are invisible to the
    evaluation and used once (locale \<open>one_shot\<close>, interpreted for both holdouts). Month_Stats proves how many calendar-month returns a window yields.

  \<^bold>\<open>Bounds.\<close> A decision is attempted at most \<open>MAX_ATTEMPTS\<close> times; the paging of executions asks at most \<open>MAX_PAGES\<close> pages, which the code counts itself, so no fuel is needed anywhere: the other
  loops run over lists, over the bounded number of rows of a flush, or over the given rounds of a worker. The client's reconnection loop and the workers' loops take the list of rounds they make. The shortest decimal text of a float is searched among 17
  lengths, which always suffices for 53 bits. Times are compared as text for the years 1 to 9999, all that Python's datetime has.

  \<^bold>\<open>Atomicity.\<close> A single call of the store is atomic, as SQLite makes it. In Worker_Machine nothing else is: an agent that changes the reconciliation state reads the row
  in one step and writes the whole row back in a later one, and any step of another agent may come between, also one of the event loop between two statements of a worker
  thread. Calls that leave the row alone are one step at the grain \<open>Whole\<close>; at the grain \<open>Split\<close>, which has
  every step of the other, anything that keeps the row may happen during them. The lost updates of the row this admits are findings, and the invariants name them as what they exclude. In Daily_Halt the operations of a day follow each other as wholes; what they write besides is not what the daily check reads.

  \<^bold>\<open>Not modelled.\<close> SQLite's files, connections and locking (a transaction is atomic), the JSON text of columns, logging output, process start-up and signals, sockets and HTTP, command lines, the Markdown
  reports of the research code and its caches on disk (a score is computed from closes alone, which are part of the key of its cache), foreign keys (an order is inserted with its intent, a
  fill with an order that was read), the parts that tests inject into \<^verbatim>\<open>build\<close>, control tokens that are no strings, months without candles in the calendar-month returns (the archive has none), the read-only Streamlit dashboard, and the Laravel control plane, which is a separate program. The rounding inside
  pandas windows is left out: indicator values are exact rationals.

  The properties are the theorems whose preceding text starts with their number; a theorem named after another with the ending \<open>_witness\<close> applies it at a concrete input.
\<close>

end
